(* ===== verification/Prelude.thy ===== *)
theory Prelude
  imports Main "HOL-Library.AList" "HOL-Library.Word"
begin

text \<open>
  Shared ground of the development: Python strings as lists of code points, Python
  dictionaries as insertion-ordered association lists, exceptions as values, and state
  passing with exceptions.  Two interfaces that several components meet are stated here
  as locales: a keyed store (\<open>keyed_store\<close>) and a step function with an invariant
  (\<open>step_invariant\<close>); every component interprets them on its own definitions.

  A Python \<open>str\<close> is a list of Unicode code points, so lengths and slices count what
  Python counts.  A literal of the source, always ASCII, is written \<open>uni ''...''\<close>.
\<close>

named_theorems act_simps \<open>unfolding of the state-and-exception combinators\<close>

subsection \<open>Strings and bytes\<close>

type_synonym pystr = "nat list"
type_synonym bytes = "8 word list"

definition uni :: "string \<Rightarrow> pystr" where
  "uni s = map of_char s"

lemma uni_eq_iff [simp]: "uni a = uni b \<longleftrightarrow> a = b"
  unfolding uni_def
  using inj_map_eq_map [of "of_char :: char \<Rightarrow> nat" a b] by (simp add: inj_def)

lemma uni_Nil_iff [simp]: "uni a = [] \<longleftrightarrow> a = []" "[] = uni a \<longleftrightarrow> a = []"
  by (simp_all add: uni_def)

lemma length_uni [simp]: "length (uni a) = length a"
  by (simp add: uni_def)

text \<open>\<open>str.startswith\<close>, \<open>str.endswith\<close>, \<open>sub in s\<close>.\<close>

fun startswith :: "'a list \<Rightarrow> 'a list \<Rightarrow> bool" where
  "startswith s [] = True"
| "startswith [] (p # ps) = False"
| "startswith (c # s) (p # ps) = (c = p \<and> startswith s ps)"

lemma startswith_iff: "startswith s p \<longleftrightarrow> (\<exists>r. s = p @ r)"
  by (induction s p rule: startswith.induct) auto

lemma startswith_append [simp]: "startswith (p @ r) p"
  by (auto simp: startswith_iff)

definition endswith :: "'a list \<Rightarrow> 'a list \<Rightarrow> bool" where
  "endswith s p = startswith (rev s) (rev p)"

fun contains_sub :: "'a list \<Rightarrow> 'a list \<Rightarrow> bool" where
  "contains_sub [] p = (p = [])"
| "contains_sub (c # s) p = (startswith (c # s) p \<or> contains_sub s p)"

text \<open>\<open>s.split(sep)\<close> for a one-character separator: never empty.\<close>

fun split_on :: "'a \<Rightarrow> 'a list \<Rightarrow> 'a list list" where
  "split_on sep [] = [[]]"
| "split_on sep (c # s) =
     (if c = sep then [] # split_on sep s
      else (case split_on sep s of [] \<Rightarrow> [[c]] | w # ws \<Rightarrow> (c # w) # ws))"

lemma split_on_nonempty [simp]: "split_on sep s \<noteq> []"
  by (induction s) (auto split: list.splits)

text \<open>\<open>sep.join(parts)\<close>.\<close>

fun join_with :: "'a list \<Rightarrow> 'a list list \<Rightarrow> 'a list" where
  "join_with sep [] = []"
| "join_with sep [w] = w"
| "join_with sep (w # ws) = w @ sep @ join_with sep ws"

lemma join_with_Cons: "ws \<noteq> [] \<Longrightarrow> join_with sep (w # ws) = w @ sep @ join_with sep ws"
  by (cases ws) auto

lemma join_split_on: "join_with [sep] (split_on sep s) = s"
proof (induction s)
  case Nil
  show ?case by simp
next
  case (Cons c s)
  obtain w ws where ws: "split_on sep s = w # ws"
    by (cases "split_on sep s") auto
  show ?case
  proof (cases "c = sep")
    case True
    then show ?thesis
      using Cons.IH by (simp add: join_with_Cons)
  next
    case False
    then show ?thesis
      using Cons.IH ws by (cases ws) auto
  qed
qed

text \<open>The white space of \<open>str.isspace\<close> and \<open>str.strip\<close>, over all of Unicode.\<close>

definition is_space :: "nat \<Rightarrow> bool" where
  "is_space c \<longleftrightarrow> 9 \<le> c \<and> c \<le> 13 \<or> 28 \<le> c \<and> c \<le> 32 \<or> c = 133 \<or> c = 160 \<or> c = 5760 \<or>
     8192 \<le> c \<and> c \<le> 8202 \<or> c = 8232 \<or> c = 8233 \<or> c = 8239 \<or> c = 8287 \<or> c = 12288"

definition strip_by :: "('a \<Rightarrow> bool) \<Rightarrow> 'a list \<Rightarrow> 'a list" where
  "strip_by p s = rev (dropWhile p (rev (dropWhile p s)))"

definition py_strip :: "pystr \<Rightarrow> pystr" where
  "py_strip = strip_by is_space"

text \<open>
  \<open>str.lower\<close>, exact below code point 256.  Above it only the two code points whose
  lower-case form contains an ASCII letter are mapped (the dotted capital I and the
  Kelvin sign): the source compares lowered text with ASCII words only, and no other
  code point can take part in such a match.
\<close>

definition lower_char :: "nat \<Rightarrow> pystr" where
  "lower_char c =
     (if 65 \<le> c \<and> c \<le> 90 \<or> 192 \<le> c \<and> c \<le> 222 \<and> c \<noteq> 215 then [c + 32]
      else if c = 304 then [105, 775]
      else if c = 8490 then [107]
      else [c])"

definition py_lower :: "pystr \<Rightarrow> pystr" where
  "py_lower s = concat (map lower_char s)"

definition is_ascii :: "pystr \<Rightarrow> bool" where
  "is_ascii s = list_all (\<lambda>c. c < 128) s"

lemma py_lower_Nil [simp]: "py_lower [] = []"
  by (simp add: py_lower_def)

lemma lower_char_idem: "concat (map lower_char (lower_char c)) = lower_char c"
  by (auto simp: lower_char_def)

lemma py_lower_idem [simp]: "py_lower (py_lower s) = py_lower s"
  by (induction s) (auto simp: py_lower_def lower_char_idem)

text \<open>\<open>re.fullmatch(r"[0-9a-f]{64}", s)\<close>, and the lower-case hexadecimal digits.\<close>

definition is_hex :: "nat \<Rightarrow> bool" where
  "is_hex c \<longleftrightarrow> 48 \<le> c \<and> c \<le> 57 \<or> 97 \<le> c \<and> c \<le> 102"

definition is_digit :: "nat \<Rightarrow> bool" where
  "is_digit c \<longleftrightarrow> 48 \<le> c \<and> c \<le> 57"

definition sha256_hex :: "pystr \<Rightarrow> bool" where
  "sha256_hex s \<longleftrightarrow> length s = 64 \<and> list_all is_hex s"

subsection \<open>Dictionaries\<close>

text \<open>
  A Python dictionary keeps insertion order, and assigning to a present key keeps its
  place: that is \<open>AList.update\<close>.  \<open>d.get(k)\<close> is \<open>map_of d k\<close>.
\<close>

type_synonym ('k, 'v) dict = "('k \<times> 'v) list"

abbreviation dset :: "'k \<Rightarrow> 'v \<Rightarrow> ('k, 'v) dict \<Rightarrow> ('k, 'v) dict" where
  "dset \<equiv> AList.update"

abbreviation dkeys :: "('k, 'v) dict \<Rightarrow> 'k list" where
  "dkeys d \<equiv> map fst d"

abbreviation dvalues :: "('k, 'v) dict \<Rightarrow> 'v list" where
  "dvalues d \<equiv> map snd d"

definition get_or :: "('k, 'v) dict \<Rightarrow> 'k \<Rightarrow> 'v \<Rightarrow> 'v" where
  "get_or d k dflt = (case map_of d k of None \<Rightarrow> dflt | Some v \<Rightarrow> v)"

lemma map_of_dset [simp]: "map_of (dset k v d) k' = (if k' = k then Some v else map_of d k')"
  by (simp add: AList.update_conv)

lemma distinct_dkeys_dset [simp]: "distinct (dkeys d) \<Longrightarrow> distinct (dkeys (dset k v d))"
  by (rule AList.distinct_update)

lemma set_dkeys_dset: "set (dkeys (dset k v d)) = insert k (set (dkeys d))"
  by (induction d) auto

subsection \<open>Exceptions and state passing\<close>

text \<open>
  The exceptions the code raises.  \<open>Inspection r\<close> is \<open>InspectionError(r)\<close>;
  \<open>Failure\<close> stands for any other exception of the interpreter or of a library.
\<close>

datatype exn =
    Inspection string
  | Value_error string
  | Type_error
  | Key_error
  | Index_error
  | Unicode_error
  | Recursion_error
  | Os_error
  | Timeout_error
  | Failure

type_synonym 'a result = "exn + 'a"

definition rbind :: "'e + 'a \<Rightarrow> ('a \<Rightarrow> 'e + 'b) \<Rightarrow> 'e + 'b" where
  "rbind m f = (case m of Inl e \<Rightarrow> Inl e | Inr x \<Rightarrow> f x)"

lemma rbind_simps [simp]:
  "rbind (Inl e) f = Inl e"
  "rbind (Inr x) f = f x"
  by (simp_all add: rbind_def)

lemma rbind_Inr_iff: "rbind m f = Inr y \<longleftrightarrow> (\<exists>x. m = Inr x \<and> f x = Inr y)"
  by (cases m) auto

lemma rbind_Inl_iff: "rbind m f = Inl e \<longleftrightarrow> m = Inl e \<or> (\<exists>x. m = Inr x \<and> f x = Inl e)"
  by (cases m) auto

definition rguard :: "bool \<Rightarrow> 'e \<Rightarrow> 'e + unit" where
  "rguard b e = (if b then Inr () else Inl e)"

lemma rguard_iff [simp]:
  "rguard b e = Inr x \<longleftrightarrow> b"
  "rguard b e = Inl e' \<longleftrightarrow> \<not> b \<and> e' = e"
  by (auto simp: rguard_def)

type_synonym ('s, 'a) act = "'s \<Rightarrow> 'a result \<times> 's"

definition ret :: "'a \<Rightarrow> ('s, 'a) act" where
  "ret x = (\<lambda>s. (Inr x, s))"

definition raise :: "exn \<Rightarrow> ('s, 'a) act" where
  "raise e = (\<lambda>s. (Inl e, s))"

definition seq :: "('s, 'a) act \<Rightarrow> ('a \<Rightarrow> ('s, 'b) act) \<Rightarrow> ('s, 'b) act" where
  "seq m f = (\<lambda>s. case m s of (Inl e, s') \<Rightarrow> (Inl e, s') | (Inr x, s') \<Rightarrow> f x s')"

definition gets :: "('s \<Rightarrow> 'a) \<Rightarrow> ('s, 'a) act" where
  "gets f = (\<lambda>s. (Inr (f s), s))"

definition modify :: "('s \<Rightarrow> 's) \<Rightarrow> ('s, unit) act" where
  "modify f = (\<lambda>s. (Inr (), f s))"

definition lift_result :: "'a result \<Rightarrow> ('s, 'a) act" where
  "lift_result r = (\<lambda>s. (r, s))"

lemma ret_app [simp, act_simps]: "ret x s = (Inr x, s)"
  by (simp add: ret_def)

lemma raise_app [simp, act_simps]: "raise e s = (Inl e, s)"
  by (simp add: raise_def)

lemma gets_app [simp, act_simps]: "gets f s = (Inr (f s), s)"
  by (simp add: gets_def)

lemma modify_app [simp, act_simps]: "modify f s = (Inr (), f s)"
  by (simp add: modify_def)

lemma lift_result_app [simp, act_simps]: "lift_result r s = (r, s)"
  by (simp add: lift_result_def)

lemma seq_app [act_simps]:
  "seq m f s = (case m s of (Inl e, s') \<Rightarrow> (Inl e, s') | (Inr x, s') \<Rightarrow> f x s')"
  by (simp add: seq_def)

lemma seq_Inr: "m s = (Inr x, s') \<Longrightarrow> seq m f s = f x s'"
  by (simp add: seq_def)

lemma seq_Inl: "m s = (Inl e, s') \<Longrightarrow> seq m f s = (Inl e, s')"
  by (simp add: seq_def)

lemma seq_Inr_iff:
  "seq m f s = (Inr y, t) \<longleftrightarrow> (\<exists>x s'. m s = (Inr x, s') \<and> f x s' = (Inr y, t))"
  by (auto simp: seq_def split: prod.splits sum.splits)

lemma seq_gets: "seq (gets f) g h = g (f h) h"
  by (simp add: seq_app gets_def)

lemma seq_cases:
  assumes "seq m f h = (r, h')"
  obtains (failed) e where "m h = (Inl e, h')" "r = Inl e" | (went) x h1 where "m h = (Inr x, h1)" "f x h1 = (r, h')"
proof (cases "m h")
  case (Pair q b)
  then show ?thesis using assms failed went by (cases q) (auto simp: seq_app)
qed

subsection \<open>The interface of a keyed store\<close>

text \<open>
  What the clients of a table rely on: reading a key back gives what was last stored
  under it, and storing under one key leaves the others alone.
\<close>

locale keyed_store =
  fixes lookup :: "'s \<Rightarrow> 'k \<Rightarrow> 'v option"
    and put :: "'k \<Rightarrow> 'v \<Rightarrow> 's \<Rightarrow> 's"
  assumes lookup_put: "lookup (put k v s) k' = (if k' = k then Some v else lookup s k')"
begin

lemma lookup_put_same: "lookup (put k v s) k = Some v"
  by (simp add: lookup_put)

lemma lookup_put_other: "k' \<noteq> k \<Longrightarrow> lookup (put k v s) k' = lookup s k'"
  by (simp add: lookup_put)

lemma put_keeps_keys: "lookup s k' \<noteq> None \<Longrightarrow> lookup (put k v s) k' \<noteq> None"
  by (simp add: lookup_put)

text \<open>A property of every entry survives an insertion that satisfies it.\<close>

lemma put_all:
  assumes "\<forall>k v. lookup s k = Some v \<longrightarrow> P k v" and "P k v"
  shows "\<forall>k' v'. lookup (put k v s) k' = Some v' \<longrightarrow> P k' v'"
  using assms by (simp add: lookup_put)

text \<open>
  A property of one entry survives any sequence of insertions each of which, under that
  key, keeps it.
\<close>

lemma fold_put_entry:
  assumes "lookup s k = Some v" and "Q v"
    and "\<forall>(k', v') \<in> set ps. k' = k \<longrightarrow> Q v'"
  shows "\<exists>w. lookup (fold (\<lambda>(k, v). put k v) ps s) k = Some w \<and> Q w"
  using assms
proof (induction ps arbitrary: s v)
  case Nil
  then show ?case by simp
next
  case (Cons p ps)
  obtain k' v' where p: "p = (k', v')" by fastforce
  show ?case
  proof (cases "k' = k")
    case True
    with Cons.prems p have "Q v'" by auto
    with Cons.IH [of "put k' v' s" v'] Cons.prems(3) True p show ?thesis
      by (simp add: lookup_put)
  next
    case False
    with Cons.IH [of "put k' v' s" v] Cons.prems p show ?thesis
      by (simp add: lookup_put)
  qed
qed

end

interpretation dict_store: keyed_store "map_of :: ('k, 'v) dict \<Rightarrow> 'k \<Rightarrow> 'v option" dset
  by unfold_locales simp

subsection \<open>A step function with an invariant\<close>

text \<open>
  The contract of a state machine: every step keeps the invariant.  Its client is any
  run, whatever the sequence of events.
\<close>

locale step_invariant =
  fixes step :: "'s \<Rightarrow> 'e \<Rightarrow> 's"
    and inv :: "'s \<Rightarrow> bool"
  assumes step_keeps: "inv s \<Longrightarrow> inv (step s e)"
begin

lemma run_keeps: "inv s \<Longrightarrow> inv (foldl step s es)"
  by (induction es arbitrary: s) (auto simp: step_keeps)

lemma run_prefix_keeps: "inv s \<Longrightarrow> inv (foldl step s (take n es))"
  by (rule run_keeps)

end

end
