(* ===== verification/Json_Value.thy ===== *)
theory Json_Value
  imports Prelude
begin

text \<open>
  The Python values \<open>json.loads\<close> builds.  Objects keep the insertion order of the
  dictionary.  A \<open>float\<close> is represented by its \<open>repr\<close>: for a finite one the shortest
  decimal text that reads back as the same double, which is what \<open>json.dumps\<close> and \<open>str\<close>
  print; the others are \<open>inf\<close>, \<open>-inf\<close> and \<open>nan\<close>.  The source does no other arithmetic
  on floats.
\<close>

datatype json =
    JNull
  | JBool bool
  | JInt int
  | JFloat pystr
  | JStr pystr
  | JArr "json list"
  | JObj "(pystr \<times> json) list"

fun is_obj :: "json \<Rightarrow> bool" where
  "is_obj (JObj d) = True"
| "is_obj _ = False"

text \<open>\<open>value.get(key)\<close> on a dictionary, and the \<open>isinstance(..., str)\<close> test on the result.\<close>

fun obj_get :: "json \<Rightarrow> pystr \<Rightarrow> json option" where
  "obj_get (JObj d) k = map_of d k"
| "obj_get _ k = None"

fun as_str :: "json option \<Rightarrow> pystr option" where
  "as_str (Some (JStr s)) = Some s"
| "as_str _ = None"

lemma as_str_Some_iff: "as_str v = Some s \<longleftrightarrow> v = Some (JStr s)"
  by (cases v rule: as_str.cases) auto

end
