(* ===== verification/Broker_Models.thy ===== *)
theory Broker_Models
  imports Json_Value
begin

text \<open>
  The data contracts of the Agent Access Broker, \<open>access_broker/models.py\<close>: one record
  per pydantic model, in the source's field order, the field names prefixed by the model
  (\<open>ag_\<close> agent, \<open>dg_\<close> delegation, \<open>rq_\<close> request, \<open>tk_\<close> token, \<open>ap_\<close> approval,
  \<open>dc_\<close> decision, \<open>ev_\<close> audit event), and the two methods of the models.
  The \<open>_ok\<close> predicates are the field constraints pydantic enforces on construction.
  Left out: the constant \<open>token_type\<close> of a token.  A \<open>float\<close> is its \<open>repr\<close>.
\<close>

subsection \<open>Time\<close>

text \<open>
  A \<open>datetime\<close> in microseconds since the epoch, with or without a time zone.  The
  \<open>>\<close> of an aware and a naive value raises \<open>TypeError\<close>.
\<close>

datatype datetime = Aware int | Naive int

fun dt_gt :: "datetime \<Rightarrow> datetime \<Rightarrow> bool result" where
  "dt_gt (Aware a) (Aware b) = Inr (a > b)"
| "dt_gt (Naive a) (Naive b) = Inr (a > b)"
| "dt_gt _ _ = Inl Type_error"

fun dt_plus :: "datetime \<Rightarrow> int \<Rightarrow> datetime" where
  "dt_plus (Aware a) n = Aware (a + n * 1000000)"
| "dt_plus (Naive a) n = Naive (a + n * 1000000)"

text \<open>\<open>min(a, b)\<close> returns \<open>b\<close> only when \<open>b < a\<close>.\<close>

definition dt_min :: "datetime \<Rightarrow> datetime \<Rightarrow> datetime result" where
  "dt_min a b = rbind (dt_gt a b) (\<lambda>gt. Inr (if gt then b else a))"

fun is_aware :: "datetime \<Rightarrow> bool" where
  "is_aware (Aware _) = True"
| "is_aware (Naive _) = False"

fun micros :: "datetime \<Rightarrow> int" where
  "micros (Aware a) = a"
| "micros (Naive a) = a"

subsection \<open>Enumerations\<close>

datatype risk_tier = Risk_low | Risk_medium | Risk_high
datatype delegation_status = Delegation_active | Delegation_revoked | Delegation_expired
datatype approval_status = Pending | Approved | Denied
datatype access_action = Allow | Block | Approval_required
datatype authorization_mode = Delegated | Agent

subsection \<open>Records\<close>

type_synonym metadata = "(pystr, json) dict"

record agent_record =
  ag_agent_id :: pystr
  ag_tenant_id :: "pystr option"
  ag_owner_id :: pystr
  ag_sponsor_id :: "pystr option"
  ag_runtime :: pystr
  ag_model :: "pystr option"
  ag_allow_autonomous :: bool
  ag_allowed_actions :: "pystr list"
  ag_allowed_tools :: "pystr list"
  ag_allowed_resources :: "pystr list"
  ag_risk_tier :: risk_tier
  ag_enabled :: bool
  ag_metadata :: metadata
  ag_created_at :: datetime

record delegation_create_request =
  dr_delegation_id :: pystr
  dr_tenant_id :: "pystr option"
  dr_user_id :: pystr
  dr_agent_id :: pystr
  dr_task_id :: pystr
  dr_purpose :: pystr
  dr_allowed_resources :: "pystr list"
  dr_allowed_actions :: "pystr list"
  dr_ttl_seconds :: int
  dr_metadata :: metadata

record delegation_record =
  dg_delegation_id :: pystr
  dg_tenant_id :: "pystr option"
  dg_user_id :: pystr
  dg_agent_id :: pystr
  dg_task_id :: pystr
  dg_purpose :: pystr
  dg_allowed_resources :: "pystr list"
  dg_allowed_actions :: "pystr list"
  dg_status :: delegation_status
  dg_created_at :: datetime
  dg_expires_at :: datetime
  dg_metadata :: metadata

record access_request =
  rq_authorization_mode :: authorization_mode
  rq_tenant_id :: "pystr option"
  rq_user_id :: pystr
  rq_agent_id :: pystr
  rq_agent_instance_id :: "pystr option"
  rq_delegation_id :: pystr
  rq_task_id :: pystr
  rq_tool_name :: pystr
  rq_resource_id :: pystr
  rq_requested_action :: pystr
  rq_approval_id :: "pystr option"
  rq_risk_score :: "pystr option"
  rq_metadata :: metadata

record broker_token =
  tk_token_id :: pystr
  tk_subject :: pystr
  tk_scopes :: "pystr list"
  tk_expires_at :: datetime
  tk_tenant_id :: "pystr option"
  tk_request_digest :: "pystr option"

record approval_record =
  ap_authorization_mode :: authorization_mode
  ap_approval_id :: pystr
  ap_status :: approval_status
  ap_tenant_id :: "pystr option"
  ap_user_id :: pystr
  ap_agent_id :: pystr
  ap_delegation_id :: pystr
  ap_task_id :: pystr
  ap_tool_name :: pystr
  ap_resource_id :: pystr
  ap_requested_action :: pystr
  ap_agent_instance_id :: "pystr option"
  ap_request_digest :: "pystr option"
  ap_expires_at :: "datetime option"
  ap_consumed_at :: "datetime option"
  ap_reason :: string
  ap_created_at :: datetime
  ap_decided_at :: "datetime option"
  ap_approver_id :: "pystr option"
  ap_comment :: "pystr option"
  ap_metadata :: metadata

record approval_decision_request =
  ad_approver_id :: pystr
  ad_comment :: "pystr option"

text \<open>
  The \<open>metadata\<close> of a decision: \<open>_decision\<close> writes the first two keys, \<open>_strict_decision\<close>
  the others (\<open>enforcementApplied\<close> is always \<open>False\<close>).
\<close>

datatype decision_metadata =
    Legacy_metadata "pystr option" "pystr option"
    \<comment> \<open>agent instance, risk score\<close>
  | Strict_metadata "pystr option" "pystr option" bool authorization_mode
    \<comment> \<open>agent instance, request digest, evaluation only, authorization mode\<close>

record access_decision =
  dc_decision_id :: pystr
  dc_action :: access_action
  dc_reason_code :: string
  dc_reason :: string
  dc_tenant_id :: "pystr option"
  dc_user_id :: pystr
  dc_agent_id :: pystr
  dc_delegation_id :: pystr
  dc_task_id :: pystr
  dc_tool_name :: pystr
  dc_resource_id :: pystr
  dc_requested_action :: pystr
  dc_token :: "broker_token option"
  dc_approval :: "approval_record option"
  dc_metadata :: decision_metadata
  dc_created_at :: datetime

text \<open>The payload of an audit event is the dump of what the operation wrote.\<close>

datatype audit_payload =
    Agent_payload agent_record "(pystr, pystr) dict option"
  | Delegation_payload delegation_record "(pystr, pystr) dict option"
  | Approval_payload approval_record
  | Decision_payload access_decision "access_request option"

record audit_event =
  ev_event_id :: pystr
  ev_event_type :: string
  ev_created_at :: datetime
  ev_payload :: audit_payload

subsection \<open>Field constraints\<close>

definition access_request_ok :: "access_request \<Rightarrow> bool" where
  "access_request_ok q \<longleftrightarrow>
     rq_agent_id q \<noteq> [] \<and> rq_tool_name q \<noteq> [] \<and> rq_resource_id q \<noteq> [] \<and>
     rq_requested_action q \<noteq> []"

definition delegation_create_ok :: "delegation_create_request \<Rightarrow> bool" where
  "delegation_create_ok p \<longleftrightarrow>
     dr_delegation_id p \<noteq> [] \<and> dr_user_id p \<noteq> [] \<and> dr_agent_id p \<noteq> [] \<and>
     dr_task_id p \<noteq> [] \<and> dr_purpose p \<noteq> [] \<and> 1 \<le> dr_ttl_seconds p \<and> dr_ttl_seconds p \<le> 86400"

subsection \<open>Methods\<close>

definition is_active :: "delegation_record \<Rightarrow> datetime \<Rightarrow> bool result" where
  "is_active d current =
     (if dg_status d = Delegation_active then dt_gt (dg_expires_at d) current else Inr False)"

text \<open>\<open>request.metadata.get("request_digest")\<close>.\<close>

definition request_digest_of :: "access_request \<Rightarrow> json option" where
  "request_digest_of q = map_of (rq_metadata q) (uni ''request_digest'')"

definition matches :: "approval_record \<Rightarrow> access_request \<Rightarrow> bool" where
  "matches a q \<longleftrightarrow>
     ap_authorization_mode a = rq_authorization_mode q \<and>
     ap_tenant_id a = rq_tenant_id q \<and>
     ap_user_id a = rq_user_id q \<and>
     ap_agent_id a = rq_agent_id q \<and>
     ap_delegation_id a = rq_delegation_id q \<and>
     ap_task_id a = rq_task_id q \<and>
     ap_tool_name a = rq_tool_name q \<and>
     ap_resource_id a = rq_resource_id q \<and>
     ap_requested_action a = rq_requested_action q \<and>
     (case ap_request_digest a of
        None \<Rightarrow> True
      | Some dig \<Rightarrow>
          request_digest_of q = Some (JStr dig) \<and>
          ap_agent_instance_id a = rq_agent_instance_id q)"

lemma dt_gt_aware: "dt_gt x (Aware b) = Inr True \<longleftrightarrow> (\<exists>a. x = Aware a \<and> a > b)"
  by (cases x) auto

lemma dt_min_aware [simp]: "dt_min (Aware a) (Aware b) = Inr (Aware (min a b))"
  by (auto simp: dt_min_def min_def)

end
