(* ===== verification/Broker_Store.thy ===== *)
theory Broker_Store
  imports Broker_Models
begin

text \<open>
  The stores of the Access Broker, \<open>access_broker/store.py\<close>.  One state holds both
  stores: the in-memory tables of \<open>InMemoryAccessBrokerStore\<close>, and for
  \<open>FileAccessBrokerStore\<close> the JSON file they are loaded from and committed to, the
  transaction depth and the dirty flag.  \<open>model_dump\<close>/\<open>model_validate\<close> of the pydantic
  models are taken to round trip, so the file holds the tables themselves, is missing, or
  is text that does not load.

  The environment of a run, \<open>broker_env\<close>, carries what the code reads from outside: the
  clock, the UUIDs and random tokens, and whether each write of the file succeeds.  The
  state counts how often each was read.

  The lemmas show that a transaction commits or rolls back as a whole and that memory and
  file agree after it (\<open>transaction_coherent\<close>, \<open>transaction_rollback\<close>).
\<close>

subsection \<open>State\<close>

record tables =
  agents :: "(pystr, agent_record) dict"
  delegations :: "(pystr, delegation_record) dict"
  approvals :: "(pystr, approval_record) dict"
  audit_events :: "audit_event list"

definition empty_tables :: tables where
  "empty_tables = \<lparr>agents = [], delegations = [], approvals = [], audit_events = []\<rparr>"

text \<open>The file at \<open>self.path\<close>.\<close>

datatype disk = Missing | Snapshot tables | Corrupt

text \<open>
  The outcome of writing the snapshot: done; failed before \<open>temp_path.replace\<close>, so the
  file is untouched; or failed after it, when the directory could not be synced.
\<close>

datatype write_outcome = Write_ok | Fail_before_replace | Fail_after_replace

record broker_env =
  file_store :: bool
  token_ttl_seconds :: int
  approval_ttl_seconds :: int
  clock :: "nat \<Rightarrow> int"
  uuid_hex :: "nat \<Rightarrow> pystr"
  token_bytes :: "nat \<Rightarrow> pystr"
  write_outcome_of :: "nat \<Rightarrow> write_outcome"

record bstate =
  mem :: tables
  disk :: disk
  depth :: nat
  dirty :: bool
  clock_reads :: nat
  uuids_used :: nat
  tokens_used :: nat
  writes :: nat

type_synonym 'a broker_act = "(bstate, 'a) act"

subsection \<open>Loading, persisting, transactions\<close>

definition load :: "unit broker_act" where
  "load s = (case disk s of
       Missing \<Rightarrow> (Inr (), s\<lparr>mem := empty_tables\<rparr>)
     | Snapshot t \<Rightarrow> (Inr (), s\<lparr>mem := t\<rparr>)
     | Corrupt \<Rightarrow> (Inl (Value_error ''json''), s))"

definition persist :: "broker_env \<Rightarrow> unit broker_act" where
  "persist env s =
     (let s' = s\<lparr>writes := Suc (writes s)\<rparr> in
      case write_outcome_of env (writes s) of
        Write_ok \<Rightarrow> (Inr (), s'\<lparr>disk := Snapshot (mem s)\<rparr>)
      | Fail_before_replace \<Rightarrow> (Inl Os_error, s')
      | Fail_after_replace \<Rightarrow> (Inl Os_error, s'\<lparr>disk := Snapshot (mem s)\<rparr>))"

definition end_transaction :: "'a result \<times> bstate \<Rightarrow> 'a result \<times> bstate" where
  "end_transaction rs = (fst rs, (snd rs)\<lparr>depth := 0, dirty := False\<rparr>)"

text \<open>
  \<open>with store.transaction(): body\<close>.  The in-memory store only takes its lock.  The file
  store runs a nested transaction in the open one; otherwise it reloads the file, runs the
  body, writes the file if anything changed, and reloads it on any exception.
\<close>

text \<open>\<open>if self._dirty: self._persist()\<close> after the body.\<close>

definition commit :: "broker_env \<Rightarrow> 'a \<Rightarrow> 'a broker_act" where
  "commit env x = seq (gets dirty) (\<lambda>d. if d then seq (persist env) (\<lambda>_. ret x) else ret x)"

text \<open>\<open>except BaseException: self._load(); raise\<close>\<close>

definition reload_on_error :: "'a result \<times> bstate \<Rightarrow> 'a result \<times> bstate" where
  "reload_on_error rs = (case fst rs of
       Inr x \<Rightarrow> rs
     | Inl e \<Rightarrow> (case load (snd rs) of
           (Inl e', s') \<Rightarrow> (Inl e', s')
         | (Inr _, s') \<Rightarrow> (Inl e, s')))"

definition transaction :: "broker_env \<Rightarrow> 'a broker_act \<Rightarrow> 'a broker_act" where
  "transaction env body s =
     (if \<not> file_store env \<or> depth s \<noteq> 0 then body s
      else case load s of
        (Inl e, s1) \<Rightarrow> (Inl e, s1)
      | (Inr _, s1) \<Rightarrow> end_transaction (reload_on_error
            (seq body (commit env) (s1\<lparr>depth := 1, dirty := False\<rparr>))))"

definition read_transaction :: "broker_env \<Rightarrow> 'a broker_act \<Rightarrow> 'a broker_act" where
  "read_transaction env body =
     (\<lambda>s. if file_store env \<and> depth s = 0 then seq load (\<lambda>_. body) s else body s)"

subsection \<open>Operations\<close>

definition get_agent :: "pystr \<Rightarrow> bstate \<Rightarrow> agent_record option" where
  "get_agent i s = map_of (agents (mem s)) i"

definition get_delegation :: "pystr \<Rightarrow> bstate \<Rightarrow> delegation_record option" where
  "get_delegation i s = map_of (delegations (mem s)) i"

definition get_approval :: "pystr \<Rightarrow> bstate \<Rightarrow> approval_record option" where
  "get_approval i s = map_of (approvals (mem s)) i"

text \<open>
  The four writers: the in-memory assignment, inside a transaction and followed by
  \<open>self._dirty = True\<close> for the file store.
\<close>

definition write_tables :: "broker_env \<Rightarrow> (tables \<Rightarrow> tables) \<Rightarrow> 'a \<Rightarrow> 'a broker_act" where
  "write_tables env f x =
     transaction env (\<lambda>s. (Inr x, s\<lparr>mem := f (mem s), dirty := file_store env \<or> dirty s\<rparr>))"

definition put_agent :: "agent_record \<Rightarrow> tables \<Rightarrow> tables" where
  "put_agent a t = t\<lparr>agents := dset (ag_agent_id a) a (agents t)\<rparr>"

definition put_delegation :: "delegation_record \<Rightarrow> tables \<Rightarrow> tables" where
  "put_delegation d t = t\<lparr>delegations := dset (dg_delegation_id d) d (delegations t)\<rparr>"

definition put_approval :: "approval_record \<Rightarrow> tables \<Rightarrow> tables" where
  "put_approval a t = t\<lparr>approvals := dset (ap_approval_id a) a (approvals t)\<rparr>"

definition add_audit :: "audit_event \<Rightarrow> tables \<Rightarrow> tables" where
  "add_audit e t = t\<lparr>audit_events := audit_events t @ [e]\<rparr>"

definition upsert_agent :: "broker_env \<Rightarrow> agent_record \<Rightarrow> agent_record broker_act" where
  "upsert_agent env a = write_tables env (put_agent a) a"

definition store_delegation :: "broker_env \<Rightarrow> delegation_record \<Rightarrow> delegation_record broker_act" where
  "store_delegation env d = write_tables env (put_delegation d) d"

definition upsert_approval :: "broker_env \<Rightarrow> approval_record \<Rightarrow> approval_record broker_act" where
  "upsert_approval env a = write_tables env (put_approval a) a"

definition append_audit_event :: "broker_env \<Rightarrow> audit_event \<Rightarrow> audit_event broker_act" where
  "append_audit_event env e = write_tables env (add_audit e) e"

text \<open>\<open>self.audit_events[-limit:]\<close>: with a limit of zero the slice is the whole list.\<close>

definition list_audit_events :: "int \<Rightarrow> bstate \<Rightarrow> audit_event list" where
  "list_audit_events limit s =
     (let es = audit_events (mem s); n = int (length es) in
      if limit = 0 then es
      else if limit > 0 then drop (nat (max 0 (n - limit))) es
      else drop (nat (min n (- limit))) es)"

text \<open>\<open>sorted(..., key=created_at, reverse=True)\<close>: stable, newest first (aware times).\<close>

definition newest_first :: "('a \<Rightarrow> datetime) \<Rightarrow> 'a list \<Rightarrow> 'a list" where
  "newest_first created xs = sort_key (\<lambda>x. - micros (created x)) xs"

definition list_agents :: "bstate \<Rightarrow> agent_record list" where
  "list_agents s = newest_first ag_created_at (dvalues (agents (mem s)))"

definition list_delegations :: "bstate \<Rightarrow> delegation_record list" where
  "list_delegations s = newest_first dg_created_at (dvalues (delegations (mem s)))"

definition list_approvals :: "bstate \<Rightarrow> approval_record list" where
  "list_approvals s = newest_first ap_created_at (dvalues (approvals (mem s)))"

subsection \<open>Inside a transaction\<close>

text \<open>
  \<open>direct\<close>: no transaction of the file has to be opened, so the writers act at once.
  \<open>inner\<close>: what an action that runs inside an open transaction may do to the state.
\<close>

definition direct :: "broker_env \<Rightarrow> bstate \<Rightarrow> bool" where
  "direct env s \<longleftrightarrow> \<not> file_store env \<or> depth s \<noteq> 0"

lemma direct_update [simp]:
  "direct env (s\<lparr>mem := m\<rparr>) = direct env s"
  "direct env (s\<lparr>dirty := b\<rparr>) = direct env s"
  "direct env (s\<lparr>clock_reads := n\<rparr>) = direct env s"
  "direct env (s\<lparr>uuids_used := n\<rparr>) = direct env s"
  "direct env (s\<lparr>tokens_used := n\<rparr>) = direct env s"
  by (simp_all add: direct_def)

lemma transaction_direct: "direct env s \<Longrightarrow> transaction env body s = body s"
  by (auto simp: transaction_def direct_def)

lemma write_tables_direct [simp]:
  "direct env s \<Longrightarrow> write_tables env f x s =
     (Inr x, s\<lparr>mem := f (mem s), dirty := file_store env \<or> dirty s\<rparr>)"
  by (simp add: write_tables_def transaction_direct)

definition inner :: "bstate \<Rightarrow> bstate \<Rightarrow> bool" where
  "inner s t \<longleftrightarrow> depth t = depth s \<and> disk t = disk s \<and> writes t = writes s \<and>
     (dirty s \<longrightarrow> dirty t) \<and> (mem t = mem s \<or> dirty t)"

definition inner_act :: "broker_env \<Rightarrow> 'a broker_act \<Rightarrow> bool" where
  "inner_act env m \<longleftrightarrow>
     (file_store env \<longrightarrow> (\<forall>s r t. depth s \<noteq> 0 \<longrightarrow> m s = (r, t) \<longrightarrow> inner s t))"

named_theorems inner_intros \<open>actions that respect an open transaction\<close>

lemma inner_refl: "inner s s"
  by (simp add: inner_def)

lemma inner_trans: "inner s t \<Longrightarrow> inner t v \<Longrightarrow> inner s v"
  by (auto simp: inner_def)

lemma inner_actD:
  "inner_act env m \<Longrightarrow> file_store env \<Longrightarrow> depth s \<noteq> 0 \<Longrightarrow> m s = (r, t) \<Longrightarrow> inner s t"
  by (auto simp: inner_act_def)

lemma inner_pure [inner_intros]:
  "inner_act env (ret x)" "inner_act env (raise e)" "inner_act env (gets f)"
  "inner_act env (lift_result q)"
  by (auto simp: inner_act_def inner_refl)

lemma inner_seq [inner_intros]:
  assumes "inner_act env m" and "\<And>x. inner_act env (f x)"
  shows "inner_act env (seq m f)"
  unfolding inner_act_def
proof (intro impI allI)
  fix s r t
  assume fs: "file_store env" and d: "depth s \<noteq> 0" and run: "seq m f s = (r, t)"
  obtain r1 s1 where m: "m s = (r1, s1)" by fastforce
  have i1: "inner s s1" using assms(1) fs d m by (rule inner_actD)
  show "inner s t"
  proof (cases r1)
    case (Inl e)
    with m run i1 show ?thesis by (simp add: seq_app)
  next
    case (Inr x)
    with m run have "f x s1 = (r, t)" by (simp add: seq_app)
    moreover have "depth s1 \<noteq> 0" using i1 d by (simp add: inner_def)
    ultimately have "inner s1 t" using assms(2) fs by (blast intro: inner_actD)
    with i1 show ?thesis by (rule inner_trans)
  qed
qed

lemma inner_write_tables [inner_intros]: "inner_act env (write_tables env f x)"
  by (auto simp: inner_act_def inner_def write_tables_def transaction_def)

lemma inner_if [inner_intros]:
  "inner_act env a \<Longrightarrow> inner_act env b \<Longrightarrow> inner_act env (if p then a else b)"
  by simp

lemma inner_option [inner_intros]:
  "inner_act env a \<Longrightarrow> (\<And>x. inner_act env (f x)) \<Longrightarrow>
   inner_act env (case v of None \<Rightarrow> a | Some x \<Rightarrow> f x)"
  by (cases v) simp_all

lemma inner_prod [inner_intros]:
  "(\<And>x y. inner_act env (f x y)) \<Longrightarrow> inner_act env (case p of (x, y) \<Rightarrow> f x y)"
  by (cases p) simp

subsection \<open>Commit or roll back\<close>

fun view :: "disk \<Rightarrow> tables option" where
  "view Missing = Some empty_tables"
| "view (Snapshot t) = Some t"
| "view Corrupt = None"

text \<open>Between transactions memory holds what the file holds.\<close>

definition coherent :: "bstate \<Rightarrow> bool" where
  "coherent s \<longleftrightarrow> depth s = 0 \<and> \<not> dirty s \<and> view (disk s) = Some (mem s)"

lemma load_view:
  "load s = (case view (disk s) of Some m \<Rightarrow> (Inr (), s\<lparr>mem := m\<rparr>)
     | None \<Rightarrow> (Inl (Value_error ''json''), s))"
  by (cases "disk s") (simp_all add: load_def)

text \<open>
  The contract between the file store and the code that runs in its transactions: an
  action that only goes through the store's writers.  Its clients get atomicity.
\<close>

locale transaction_body =
  fixes env :: broker_env
    and body :: "'a broker_act"
  assumes contract: "inner_act env body"
begin

lemma outcome:
  assumes "file_store env" "depth s = 0" "view (disk s) = Some m0"
    and "body (s\<lparr>mem := m0, depth := 1, dirty := False\<rparr>) = (r1, s2)"
    and "transaction env body s = (r, t)"
  shows "depth t = 0 \<and> \<not> dirty t \<and> uuids_used t = uuids_used s2 \<and>
    ((\<exists>e. r1 = Inl e \<and> r = Inl e \<and> mem t = m0 \<and> disk t = disk s) \<or>
     (\<exists>x. r1 = Inr x \<and> r = Inr x \<and> mem t = mem s2 \<and> view (disk t) = Some (mem s2)) \<or>
     (\<exists>x. r1 = Inr x \<and> r = Inl Os_error \<and> mem t = m0 \<and> disk t = disk s \<and>
        write_outcome_of env (writes s) = Fail_before_replace) \<or>
     (\<exists>x. r1 = Inr x \<and> r = Inl Os_error \<and> mem t = mem s2 \<and> disk t = Snapshot (mem s2) \<and>
        write_outcome_of env (writes s) = Fail_after_replace))"
proof -
  have "inner (s\<lparr>mem := m0, depth := 1, dirty := False\<rparr>) s2"
    using inner_actD [OF contract assms(1) _ assms(4)] by simp
  then have s2: "depth s2 = 1" "disk s2 = disk s" "writes s2 = writes s"
      "mem s2 = m0 \<or> dirty s2"
    by (simp_all add: inner_def)
  have load: "load s = (Inr (), s\<lparr>mem := m0\<rparr>)"
    by (simp add: load_view assms(3))
  have load2: "load (s2\<lparr>writes := n\<rparr>) = (Inr (), s2\<lparr>writes := n, mem := m0\<rparr>)"
      "load s2 = (Inr (), s2\<lparr>mem := m0\<rparr>)" for n
    by (simp_all add: load_view s2 assms(3))
  let ?u = "s\<lparr>mem := m0, depth := 1, dirty := False\<rparr>"
  have rt: "end_transaction (reload_on_error (seq body (commit env) ?u)) = (r, t)"
    using assms(5) by (simp add: transaction_def load assms(1,2) del: One_nat_def)
  show ?thesis
  proof (cases r1)
    case (Inl e)
    have "seq body (commit env) ?u = (Inl e, s2)"
      using assms(4) Inl by (auto intro: seq_Inl)
    with rt Inl show ?thesis
      by (auto simp: reload_on_error_def load2 end_transaction_def s2)
  next
    case (Inr x)
    then have sq: "seq body (commit env) ?u = commit env x s2"
      using assms(4) by (auto intro: seq_Inr)
    show ?thesis
    proof (cases "dirty s2")
      case False
      then have "commit env x s2 = (Inr x, s2)"
        by (simp add: commit_def seq_app)
      with False Inr rt sq s2 assms(3) show ?thesis
        by (auto simp: reload_on_error_def end_transaction_def)
    next
      case True
      then have "commit env x s2 = seq (persist env) (\<lambda>_. ret x) s2"
        by (simp add: commit_def seq_app)
      with Inr rt sq show ?thesis
        by (cases "write_outcome_of env (writes s)")
          (auto simp: reload_on_error_def end_transaction_def seq_app persist_def load2
            load_view s2 assms(3))
    qed
  qed
qed

lemma coherent_after:
  assumes "file_store env" "depth s = 0" "disk s \<noteq> Corrupt" "transaction env body s = (r, t)"
  shows "coherent t"
proof -
  obtain m0 where m0: "view (disk s) = Some m0"
    using assms(3) by (cases "disk s") auto
  obtain r1 s2 where b: "body (s\<lparr>mem := m0, depth := 1, dirty := False\<rparr>) = (r1, s2)"
    by fastforce
  show ?thesis
    using outcome [OF assms(1,2) m0 b assms(4)] m0
    by (auto simp: coherent_def)
qed

text \<open>An exception leaves the tables and the file as they were, unless the new file was
  already in place when the directory could not be synced.\<close>

lemma rollback:
  assumes "file_store env" "depth s = 0" "view (disk s) = Some m0"
    and "transaction env body s = (Inl e, t)"
  shows "mem t = m0 \<and> disk t = disk s \<or>
    e = Os_error \<and> write_outcome_of env (writes s) = Fail_after_replace \<and>
    view (disk t) = Some (mem t)"
proof -
  obtain r1 s2 where b: "body (s\<lparr>mem := m0, depth := 1, dirty := False\<rparr>) = (r1, s2)"
    by fastforce
  show ?thesis
    using outcome [OF assms(1,2,3) b assms(4)] by auto
qed

lemma committed:
  assumes "file_store env" "depth s = 0" "view (disk s) = Some m0"
    and "transaction env body s = (Inr x, t)"
  shows "\<exists>s2. body (s\<lparr>mem := m0, depth := 1, dirty := False\<rparr>) = (Inr x, s2) \<and>
    mem t = mem s2 \<and> view (disk t) = Some (mem s2)"
proof -
  obtain r1 s2 where b: "body (s\<lparr>mem := m0, depth := 1, dirty := False\<rparr>) = (r1, s2)"
    by fastforce
  show ?thesis
    using outcome [OF assms(1,2,3) b assms(4)] b by auto
qed

end

text \<open>Every single writer is such a body.\<close>

interpretation write_txn:
  transaction_body env
    "\<lambda>s. (Inr x, s\<lparr>mem := f (mem s), dirty := file_store env \<or> dirty s\<rparr>)" for env f x
  by unfold_locales (auto simp: inner_act_def inner_def)

text \<open>The tables as keyed stores.\<close>

interpretation agent_table: keyed_store "\<lambda>t. map_of (agents t)" "\<lambda>k a t. t\<lparr>agents := dset k a (agents t)\<rparr>"
  by unfold_locales simp

interpretation approval_table:
  keyed_store "\<lambda>t. map_of (approvals t)" "\<lambda>k a t. t\<lparr>approvals := dset k a (approvals t)\<rparr>"
  by unfold_locales simp

end
