(* ===== verification/Broker.thy ===== *)
theory Broker
  imports Broker_Store
begin

text \<open>
  The policy engine of the Agent Access Broker, \<open>access_broker/broker.py\<close>.  The strict
  evaluation is a pure function of the request, the time and the tables, in the source's
  order of checks; the operations are state transformers over the store of Broker_Store.
\<close>

subsection \<open>Helpers\<close>

definition HIGH_RISK_ACTIONS :: "pystr list" where
  "HIGH_RISK_ACTIONS = [uni ''delete'', uni ''deploy'', uni ''external_send'',
     uni ''permission_change'', uni ''credential_issue'', uni ''prod_write'']"

definition matches_scope :: "pystr \<Rightarrow> pystr list \<Rightarrow> bool" where
  "matches_scope v patterns \<longleftrightarrow> uni ''*'' \<in> set patterns \<or> v \<in> set patterns"

fun is_future :: "datetime option \<Rightarrow> int \<Rightarrow> bool" where
  "is_future (Some (Aware t)) now = (t > now)"
| "is_future _ now = False"

definition new_id :: "broker_env \<Rightarrow> pystr \<Rightarrow> pystr broker_act" where
  "new_id env prefix s =
     (Inr (prefix @ uni ''_'' @ take 12 (uuid_hex env (uuids_used s))),
      s\<lparr>uuids_used := Suc (uuids_used s)\<rparr>)"

definition utc_now :: "broker_env \<Rightarrow> int broker_act" where
  "utc_now env s = (Inr (clock env (clock_reads s)), s\<lparr>clock_reads := Suc (clock_reads s)\<rparr>)"

definition token_urlsafe :: "broker_env \<Rightarrow> pystr broker_act" where
  "token_urlsafe env s =
     (Inr (token_bytes env (tokens_used s)), s\<lparr>tokens_used := Suc (tokens_used s)\<rparr>)"

definition valid_digest :: "json option \<Rightarrow> pystr option" where
  "valid_digest v = (case v of
       Some (JStr d) \<Rightarrow> if sha256_hex d then Some d else None
     | _ \<Rightarrow> None)"

text \<open>Assigning an untyped metadata value to a field of type \<open>str | None\<close>.\<close>

fun digest_field :: "json option \<Rightarrow> pystr option result" where
  "digest_field None = Inr None"
| "digest_field (Some JNull) = Inr None"
| "digest_field (Some (JStr d)) = Inr (Some d)"
| "digest_field (Some _) = Inl (Value_error ''validation'')"

definition audit :: "broker_env \<Rightarrow> string \<Rightarrow> audit_payload \<Rightarrow> audit_event broker_act" where
  "audit env event_type payload =
     seq (new_id env (uni ''evt'')) (\<lambda>i.
     seq (utc_now env) (\<lambda>t.
       append_audit_event env \<lparr>ev_event_id = i, ev_event_type = event_type,
         ev_created_at = Aware t, ev_payload = payload\<rparr>))"

definition requires_approval :: "agent_record \<Rightarrow> access_request \<Rightarrow> bool" where
  "requires_approval ag q \<longleftrightarrow>
     ag_risk_tier ag = Risk_high \<or> rq_requested_action q \<in> set HIGH_RISK_ACTIONS"

definition delegation_mismatch ::
  "access_request \<Rightarrow> delegation_record \<Rightarrow> (string \<times> string) option" where
  "delegation_mismatch q d =
     (if dg_user_id d \<noteq> rq_user_id q
      then Some (''user_not_delegator'', ''Delegation user does not match the request.'')
      else if dg_agent_id d \<noteq> rq_agent_id q
      then Some (''agent_not_delegated'', ''Delegation agent does not match the request.'')
      else if dg_task_id d \<noteq> rq_task_id q
      then Some (''task_not_delegated'', ''Delegation task does not match the request.'')
      else if dg_allowed_resources d \<noteq> [] \<and> \<not> matches_scope (rq_resource_id q) (dg_allowed_resources d)
      then Some (''resource_not_delegated'', ''Resource is outside the delegation scope.'')
      else if dg_allowed_actions d \<noteq> [] \<and> \<not> matches_scope (rq_requested_action q) (dg_allowed_actions d)
      then Some (''action_not_delegated'', ''Action is outside the delegation scope.'')
      else None)"

subsection \<open>Strict evaluation\<close>

record evaluation =
  el_action :: access_action
  el_reason_code :: string
  el_reason :: string
  el_delegation :: "delegation_record option"
  el_approval :: "approval_record option"

definition blocked :: "string \<Rightarrow> string \<Rightarrow> evaluation" where
  "blocked code why = \<lparr>el_action = Block, el_reason_code = code, el_reason = why,
     el_delegation = None, el_approval = None\<rparr>"

text \<open>The \<open>if request.authorization_mode == "agent"\<close> statement: the delegation, or a refusal.\<close>

definition check_context ::
  "access_request \<Rightarrow> int \<Rightarrow> tables \<Rightarrow> agent_record \<Rightarrow> evaluation + delegation_record option" where
  "check_context q now t ag =
     (if rq_authorization_mode q = Agent then
        (if rq_user_id q \<noteq> [] \<or> rq_delegation_id q \<noteq> [] \<or> rq_task_id q \<noteq> []
         then Inl (blocked ''mixed_authorization_context''
                ''Agent-only requests cannot claim user delegation.'')
         else if \<not> ag_allow_autonomous ag
         then Inl (blocked ''autonomous_not_allowed''
                ''Autonomous access is not enabled for this agent.'')
         else if \<not> matches_scope (rq_requested_action q) (ag_allowed_actions ag)
         then Inl (blocked ''action_not_allowed_for_agent''
                ''Action is not allowed for this agent.'')
         else Inr None)
      else
        (if rq_user_id q = [] \<or> rq_task_id q = [] \<or> rq_delegation_id q = []
         then Inl (blocked ''delegation_context_required''
                ''User, task and delegation are required.'')
         else case map_of (delegations t) (rq_delegation_id q) of
           None \<Rightarrow> Inl (blocked ''delegation_not_found'' ''Delegation was not found.'')
         | Some d \<Rightarrow>
             (if dg_tenant_id d \<noteq> rq_tenant_id q
              then Inl (blocked ''delegation_tenant_mismatch''
                     ''Delegation belongs to another tenant.'')
              else if dg_status d \<noteq> Delegation_active \<or> \<not> is_future (Some (dg_expires_at d)) now
              then Inl (blocked ''delegation_not_active'' ''Delegation is expired or inactive.'')
              else case delegation_mismatch q d of
                Some (code, why) \<Rightarrow> Inl (blocked code why)
              | None \<Rightarrow>
                  (if \<not> matches_scope (rq_resource_id q) (dg_allowed_resources d)
                   then Inl (blocked ''resource_not_delegated'' ''Resource was not delegated.'')
                   else if \<not> matches_scope (rq_requested_action q) (dg_allowed_actions d)
                   then Inl (blocked ''action_not_delegated'' ''Action was not delegated.'')
                   else Inr (Some d)))))"

text \<open>The \<open>if request.approval_id\<close> statement and what follows it.\<close>

definition check_approval ::
  "access_request \<Rightarrow> int \<Rightarrow> tables \<Rightarrow> agent_record \<Rightarrow> delegation_record option \<Rightarrow> evaluation" where
  "check_approval q now t ag del =
     (if rq_approval_id q \<noteq> None \<and> rq_approval_id q \<noteq> Some [] then
        (case map_of (approvals t) (the (rq_approval_id q)) of
           None \<Rightarrow> blocked ''approval_not_found'' ''Approval was not found.''
         | Some a \<Rightarrow>
             (if ap_request_digest a = None \<or> \<not> matches a q
              then blocked ''approval_context_mismatch''
                     ''Approval does not match the bound request.''
              else if ap_consumed_at a \<noteq> None
              then blocked ''approval_consumed'' ''Approval was already consumed.''
              else if \<not> is_future (ap_expires_at a) now
              then blocked ''approval_expired'' ''Approval has expired.''
              else case ap_status a of
                Denied \<Rightarrow> blocked ''approval_denied'' ''Approval was denied.''
              | Pending \<Rightarrow> \<lparr>el_action = Approval_required,
                   el_reason_code = ''high_risk_action_requires_approval'',
                   el_reason = ''Human approval is pending.'',
                   el_delegation = del, el_approval = Some a\<rparr>
              | Approved \<Rightarrow> \<lparr>el_action = Allow, el_reason_code = ''approved_high_risk_action'',
                   el_reason = ''The bound action is approved.'',
                   el_delegation = del, el_approval = Some a\<rparr>))
      else if requires_approval ag q
      then \<lparr>el_action = Approval_required, el_reason_code = ''high_risk_action_requires_approval'',
             el_reason = ''The high-risk action requires human approval.'',
             el_delegation = del, el_approval = None\<rparr>
      else \<lparr>el_action = Allow,
             el_reason_code = (if rq_authorization_mode q = Agent then ''agent_allowed''
               else ''delegation_allowed''),
             el_reason = ''The bound action is authorized.'',
             el_delegation = del, el_approval = None\<rparr>)"

text \<open>The checks on the registered agent, and then its context and approval.\<close>

definition check_agent :: "access_request \<Rightarrow> int \<Rightarrow> tables \<Rightarrow> evaluation" where
  "check_agent q now t =
     (case map_of (agents t) (rq_agent_id q) of
        None \<Rightarrow> blocked ''agent_not_registered'' ''Agent is not registered.''
      | Some ag \<Rightarrow>
          (if ag_tenant_id ag \<noteq> rq_tenant_id q
           then blocked ''agent_tenant_mismatch'' ''Agent belongs to another tenant.''
           else if \<not> ag_enabled ag
           then blocked ''agent_disabled'' ''Agent is disabled.''
           else if \<not> matches_scope (rq_tool_name q) (ag_allowed_tools ag)
           then blocked ''tool_not_allowed_for_agent'' ''Tool is not allowed for agent.''
           else if \<not> matches_scope (rq_resource_id q) (ag_allowed_resources ag)
           then blocked ''resource_not_allowed_for_agent''
                  ''Resource is not allowed for agent.''
           else case check_context q now t ag of
             Inl e \<Rightarrow> e
           | Inr del \<Rightarrow> check_approval q now t ag del))"

definition evaluate_strict :: "access_request \<Rightarrow> int \<Rightarrow> tables \<Rightarrow> evaluation" where
  "evaluate_strict q now t =
     (if rq_tenant_id q = None \<or> py_strip (the (rq_tenant_id q)) = []
      then blocked ''tenant_required'' ''Strict authorization requires a tenant.''
      else if valid_digest (request_digest_of q) = None
      then blocked ''request_digest_required''
             ''Strict authorization requires a lowercase SHA-256 request digest.''
      else check_agent q now t)"

subsection \<open>Tokens and decisions\<close>

definition issue_token ::
  "broker_env \<Rightarrow> access_request \<Rightarrow> delegation_record option \<Rightarrow> broker_token broker_act" where
  "issue_token env q del =
     seq (utc_now env) (\<lambda>t1.
     seq (case del of
            Some d \<Rightarrow> ret (dg_expires_at d)
          | None \<Rightarrow> seq (utc_now env) (\<lambda>t2. ret (dt_plus (Aware t2) (token_ttl_seconds env)))) (\<lambda>limit.
     seq (lift_result (dt_min (dt_plus (Aware t1) (token_ttl_seconds env)) limit)) (\<lambda>expires.
     seq (token_urlsafe env) (\<lambda>tok.
     seq (lift_result (digest_field (request_digest_of q))) (\<lambda>dig.
       ret \<lparr>tk_token_id = uni ''td_jit_'' @ tok,
            tk_subject = (if rq_user_id q \<noteq> [] then rq_user_id q @ uni ''/'' @ rq_agent_id q
                          else rq_agent_id q),
            tk_scopes = [rq_resource_id q @ uni '':'' @ rq_requested_action q],
            tk_expires_at = expires, tk_tenant_id = rq_tenant_id q,
            tk_request_digest = dig\<rparr>)))))"

definition decision_record ::
  "access_request \<Rightarrow> access_action \<Rightarrow> string \<Rightarrow> string \<Rightarrow> broker_token option \<Rightarrow>
   approval_record option \<Rightarrow> decision_metadata \<Rightarrow> pystr \<Rightarrow> int \<Rightarrow> access_decision" where
  "decision_record q act code why tok apv meta i t =
     \<lparr>dc_decision_id = i, dc_action = act, dc_reason_code = code, dc_reason = why,
      dc_tenant_id = rq_tenant_id q, dc_user_id = rq_user_id q, dc_agent_id = rq_agent_id q,
      dc_delegation_id = rq_delegation_id q, dc_task_id = rq_task_id q,
      dc_tool_name = rq_tool_name q, dc_resource_id = rq_resource_id q,
      dc_requested_action = rq_requested_action q, dc_token = tok, dc_approval = apv,
      dc_metadata = meta, dc_created_at = Aware t\<rparr>"

definition strict_decision ::
  "broker_env \<Rightarrow> access_request \<Rightarrow> evaluation \<Rightarrow> bool \<Rightarrow> broker_token option \<Rightarrow>
   approval_record option \<Rightarrow> access_decision broker_act" where
  "strict_decision env q e evaluation_only tok apv =
     seq (new_id env (uni ''dec'')) (\<lambda>i.
     seq (utc_now env) (\<lambda>t.
       ret (decision_record q (el_action e) (el_reason_code e) (el_reason e) tok apv
         (Strict_metadata (rq_agent_instance_id q) (valid_digest (request_digest_of q))
            evaluation_only (rq_authorization_mode q)) i t)))"

definition legacy_decision ::
  "broker_env \<Rightarrow> access_request \<Rightarrow> access_action \<Rightarrow> string \<Rightarrow> string \<Rightarrow> broker_token option \<Rightarrow>
   approval_record option \<Rightarrow> access_decision broker_act" where
  "legacy_decision env q act code why tok apv =
     seq (new_id env (uni ''dec'')) (\<lambda>i.
     seq (utc_now env) (\<lambda>t.
       (let d = decision_record q act code why tok apv
              (Legacy_metadata (rq_agent_instance_id q) (rq_risk_score q)) i t in
        seq (audit env ''access.decision'' (Decision_payload d (Some q))) (\<lambda>_. ret d))))"

subsection \<open>Operations\<close>

definition register_agent ::
  "broker_env \<Rightarrow> agent_record \<Rightarrow> (pystr, pystr) dict option \<Rightarrow> agent_record broker_act" where
  "register_agent env a actor =
     seq (upsert_agent env a) (\<lambda>saved.
     seq (audit env ''access.agent_registered'' (Agent_payload saved actor)) (\<lambda>_. ret saved))"

definition delegation_of :: "delegation_create_request \<Rightarrow> int \<Rightarrow> delegation_record" where
  "delegation_of p now =
     \<lparr>dg_delegation_id = dr_delegation_id p, dg_tenant_id = dr_tenant_id p,
      dg_user_id = dr_user_id p, dg_agent_id = dr_agent_id p, dg_task_id = dr_task_id p,
      dg_purpose = dr_purpose p, dg_allowed_resources = dr_allowed_resources p,
      dg_allowed_actions = dr_allowed_actions p, dg_status = Delegation_active,
      dg_created_at = Aware now, dg_expires_at = dt_plus (Aware now) (dr_ttl_seconds p),
      dg_metadata = dr_metadata p\<rparr>"

definition create_delegation ::
  "broker_env \<Rightarrow> delegation_create_request \<Rightarrow> (pystr, pystr) dict option \<Rightarrow>
   delegation_record broker_act" where
  "create_delegation env p actor =
     seq (utc_now env) (\<lambda>now.
     seq (store_delegation env (delegation_of p now)) (\<lambda>saved.
     seq (audit env ''access.delegation_created'' (Delegation_payload saved actor))
       (\<lambda>_. ret saved)))"

text \<open>The approval \<open>authorize\<close> opens for a high-risk request; \<open>limit\<close> is \<open>min(...)\<close>.\<close>

definition strict_approval ::
  "access_request \<Rightarrow> pystr \<Rightarrow> pystr option \<Rightarrow> datetime \<Rightarrow> int \<Rightarrow> approval_record" where
  "strict_approval q i dig limit now =
     \<lparr>ap_authorization_mode = rq_authorization_mode q, ap_approval_id = i, ap_status = Pending,
      ap_tenant_id = rq_tenant_id q, ap_user_id = rq_user_id q, ap_agent_id = rq_agent_id q,
      ap_delegation_id = rq_delegation_id q, ap_task_id = rq_task_id q,
      ap_tool_name = rq_tool_name q, ap_resource_id = rq_resource_id q,
      ap_requested_action = rq_requested_action q,
      ap_agent_instance_id = rq_agent_instance_id q, ap_request_digest = dig,
      ap_expires_at = Some limit, ap_consumed_at = None,
      ap_reason = ''high_risk_action_requires_approval'', ap_created_at = Aware now,
      ap_decided_at = None, ap_approver_id = None, ap_comment = None, ap_metadata = []\<rparr>"

text \<open>The \<open>expires_at\<close> of a new approval.\<close>

definition approval_limit ::
  "broker_env \<Rightarrow> int \<Rightarrow> delegation_record option \<Rightarrow> datetime result" where
  "approval_limit env now del =
     dt_min (dt_plus (Aware now) (approval_ttl_seconds env))
       (case del of Some d \<Rightarrow> dg_expires_at d
        | None \<Rightarrow> dt_plus (Aware now) (approval_ttl_seconds env))"

definition open_approval ::
  "broker_env \<Rightarrow> access_request \<Rightarrow> delegation_record option \<Rightarrow> int \<Rightarrow> approval_record broker_act"
where
  "open_approval env q del now =
     seq (new_id env (uni ''apv'')) (\<lambda>i.
     seq (lift_result (digest_field (request_digest_of q))) (\<lambda>dig.
     seq (lift_result (approval_limit env now del)) (\<lambda>limit.
       (let a = strict_approval q i dig limit now in
        seq (upsert_approval env a) (\<lambda>_.
        seq (audit env ''access.approval_created'' (Approval_payload a)) (\<lambda>_. ret a))))))"

definition consume_approval ::
  "broker_env \<Rightarrow> approval_record \<Rightarrow> int \<Rightarrow> approval_record broker_act" where
  "consume_approval env a now =
     (let a' = a\<lparr>ap_consumed_at := Some (Aware now)\<rparr> in
      seq (upsert_approval env a') (\<lambda>_.
      seq (audit env ''access.approval_consumed'' (Approval_payload a')) (\<lambda>_. ret a')))"

text \<open>What the transaction of \<open>authorize\<close> does with the evaluation: approval and token.\<close>

definition settle ::
  "broker_env \<Rightarrow> access_request \<Rightarrow> evaluation \<Rightarrow> int \<Rightarrow>
   (approval_record option \<times> broker_token option) broker_act" where
  "settle env q e now =
     (if el_action e = Approval_required \<and> el_approval e = None then
        seq (open_approval env q (el_delegation e) now) (\<lambda>a. ret (Some a, None))
      else if el_action e = Allow then
        seq (case el_approval e of
               Some a \<Rightarrow> seq (consume_approval env a now) (\<lambda>a'. ret (Some a'))
             | None \<Rightarrow> ret None) (\<lambda>apv.
        seq (issue_token env q (el_delegation e)) (\<lambda>tok. ret (apv, Some tok)))
      else ret (el_approval e, None))"

definition authorize_body :: "broker_env \<Rightarrow> access_request \<Rightarrow> access_decision broker_act" where
  "authorize_body env q =
     seq (utc_now env) (\<lambda>now.
     seq (gets (\<lambda>s. evaluate_strict q now (mem s))) (\<lambda>e.
     seq (settle env q e now) (\<lambda>(apv, tok).
     seq (strict_decision env q e False tok (if el_action e \<noteq> Block then apv else None)) (\<lambda>d.
     seq (audit env ''access.decision'' (Decision_payload d None)) (\<lambda>_. ret d)))))"

definition authorize :: "broker_env \<Rightarrow> access_request \<Rightarrow> access_decision broker_act" where
  "authorize env q = transaction env (authorize_body env q)"

definition evaluate :: "broker_env \<Rightarrow> access_request \<Rightarrow> access_decision broker_act" where
  "evaluate env q = read_transaction env
     (seq (utc_now env) (\<lambda>now.
      seq (gets (\<lambda>s. evaluate_strict q now (mem s))) (\<lambda>e.
        strict_decision env q e True None None)))"

definition create_approval :: "broker_env \<Rightarrow> access_request \<Rightarrow> approval_record broker_act" where
  "create_approval env q =
     seq (new_id env (uni ''apv'')) (\<lambda>i.
     seq (utc_now env) (\<lambda>t.
     (let a = \<lparr>ap_authorization_mode = Delegated, ap_approval_id = i, ap_status = Pending,
          ap_tenant_id = rq_tenant_id q, ap_user_id = rq_user_id q, ap_agent_id = rq_agent_id q,
          ap_delegation_id = rq_delegation_id q, ap_task_id = rq_task_id q,
          ap_tool_name = rq_tool_name q, ap_resource_id = rq_resource_id q,
          ap_requested_action = rq_requested_action q,
          ap_agent_instance_id = None, ap_request_digest = None, ap_expires_at = None,
          ap_consumed_at = None, ap_reason = ''high_risk_action_requires_approval'',
          ap_created_at = Aware t, ap_decided_at = None, ap_approver_id = None,
          ap_comment = None, ap_metadata = []\<rparr> in
      seq (upsert_approval env a) (\<lambda>saved.
      seq (audit env ''access.approval_created'' (Approval_payload saved)) (\<lambda>_. ret saved)))))"

definition approved_record :: "access_request \<Rightarrow> bstate \<Rightarrow> approval_record option" where
  "approved_record q s =
     (if rq_approval_id q = None \<or> rq_approval_id q = Some [] then None
      else case get_approval (the (rq_approval_id q)) s of
        None \<Rightarrow> None
      | Some a \<Rightarrow> if ap_status a \<noteq> Approved \<or> \<not> matches a q then None else Some a)"

text \<open>\<open>decide\<close> after it has established that the request carries no strict binding.\<close>

definition legacy_decide :: "broker_env \<Rightarrow> access_request \<Rightarrow> access_decision broker_act" where
  "legacy_decide env q =
     seq (gets (get_agent (rq_agent_id q))) (\<lambda>found. case found of
       None \<Rightarrow> legacy_decision env q Block ''agent_not_registered'' ''Agent is not registered.''
                None None
     | Some ag \<Rightarrow>
       (if \<not> ag_enabled ag
        then legacy_decision env q Block ''agent_disabled'' ''Agent is disabled.'' None None
        else if ag_allowed_tools ag \<noteq> [] \<and> \<not> matches_scope (rq_tool_name q) (ag_allowed_tools ag)
        then legacy_decision env q Block ''tool_not_allowed_for_agent''
               ''Tool is not allowed for agent.'' None None
        else if ag_allowed_resources ag \<noteq> [] \<and>
                \<not> matches_scope (rq_resource_id q) (ag_allowed_resources ag)
        then legacy_decision env q Block ''resource_not_allowed_for_agent''
               ''Resource is not allowed for agent.'' None None
        else seq (gets (get_delegation (rq_delegation_id q))) (\<lambda>found. case found of
          None \<Rightarrow> legacy_decision env q Block ''delegation_not_found''
                   ''Delegation was not found.'' None None
        | Some d \<Rightarrow>
          seq (utc_now env) (\<lambda>t.
          seq (lift_result (is_active d (Aware t))) (\<lambda>active.
          if \<not> active
          then legacy_decision env q Block ''delegation_not_active''
                 ''Delegation is expired or inactive.'' None None
          else case delegation_mismatch q d of
            Some (code, why) \<Rightarrow> legacy_decision env q Block code why None None
          | None \<Rightarrow>
            (if requires_approval ag q then
               seq (gets (approved_record q)) (\<lambda>apv. case apv of
                 None \<Rightarrow>
                   seq (create_approval env q) (\<lambda>a.
                   legacy_decision env q Approval_required ''high_risk_action_requires_approval''
                     ''The high-risk action requires human approval.'' None (Some a))
               | Some a \<Rightarrow>
                   seq (issue_token env q (Some d)) (\<lambda>tok.
                   legacy_decision env q Allow ''approved_high_risk_action''
                     ''The high-risk action is approved.'' (Some tok) (Some a)))
             else
               seq (issue_token env q (Some d)) (\<lambda>tok.
               legacy_decision env q Allow ''delegation_allowed''
                 ''Agent and delegation scopes allow the action.'' (Some tok) None)))))))"

definition decide :: "broker_env \<Rightarrow> access_request \<Rightarrow> access_decision broker_act" where
  "decide env q =
     (if rq_authorization_mode q = Agent \<or> request_digest_of q \<noteq> None then authorize env q
      else if rq_approval_id q \<noteq> None \<and> rq_approval_id q \<noteq> Some [] then
        seq (read_transaction env (gets (get_approval (the (rq_approval_id q))))) (\<lambda>apv.
          if (case apv of Some a \<Rightarrow> ap_request_digest a \<noteq> None | None \<Rightarrow> False) then authorize env q
          else legacy_decide env q)
      else legacy_decide env q)"

definition set_approval_status ::
  "broker_env \<Rightarrow> pystr \<Rightarrow> approval_decision_request \<Rightarrow> approval_status \<Rightarrow> string \<Rightarrow>
   approval_record broker_act" where
  "set_approval_status env i p status event_type = transaction env
     (seq (gets (get_approval i)) (\<lambda>found. case found of
        None \<Rightarrow> raise (Value_error ''Unknown approval_id'')
      | Some a \<Rightarrow>
          seq (utc_now env) (\<lambda>now.
          (if ap_request_digest a \<noteq> None \<and> (ap_consumed_at a \<noteq> None \<or> ap_status a \<noteq> Pending)
           then raise (Value_error ''Strict approval is already decided or consumed.'')
           else if ap_request_digest a \<noteq> None \<and> \<not> is_future (ap_expires_at a) now
           then raise (Value_error ''Strict approval has expired.'')
           else
             (let a' = a\<lparr>ap_status := status, ap_decided_at := Some (Aware now),
                        ap_approver_id := Some (ad_approver_id p), ap_comment := ad_comment p\<rparr> in
              seq (upsert_approval env a') (\<lambda>saved.
              seq (audit env event_type (Approval_payload saved)) (\<lambda>_. ret saved)))))))"

definition approve ::
  "broker_env \<Rightarrow> pystr \<Rightarrow> approval_decision_request \<Rightarrow> approval_record broker_act" where
  "approve env i p = set_approval_status env i p Approved ''access.approval_approved''"

definition deny ::
  "broker_env \<Rightarrow> pystr \<Rightarrow> approval_decision_request \<Rightarrow> approval_record broker_act" where
  "deny env i p = set_approval_status env i p Denied ''access.approval_denied''"

subsection \<open>What the strict evaluation requires\<close>

lemma blocked_sel [simp]:
  "el_action (blocked c w) = Block" "el_approval (blocked c w) = None"
  "el_delegation (blocked c w) = None" "el_reason_code (blocked c w) = c"
  by (simp_all add: blocked_def)

text \<open>The registered agent may use the tool on the resource, in the tenant of the request.\<close>

definition agent_admits :: "access_request \<Rightarrow> tables \<Rightarrow> agent_record \<Rightarrow> bool" where
  "agent_admits q t ag \<longleftrightarrow>
     map_of (agents t) (rq_agent_id q) = Some ag \<and>
     ag_tenant_id ag = rq_tenant_id q \<and> ag_enabled ag \<and>
     matches_scope (rq_tool_name q) (ag_allowed_tools ag) \<and>
     matches_scope (rq_resource_id q) (ag_allowed_resources ag)"

text \<open>The request is bound: a tenant that is not blank, and a SHA-256 digest.\<close>

definition request_bound :: "access_request \<Rightarrow> bool" where
  "request_bound q \<longleftrightarrow>
     (\<exists>ten. rq_tenant_id q = Some ten \<and> py_strip ten \<noteq> []) \<and>
     (\<exists>dig. request_digest_of q = Some (JStr dig) \<and> sha256_hex dig)"

text \<open>The agent acts for itself, or for the user of a live delegation that covers the action.\<close>

definition context_admits ::
  "access_request \<Rightarrow> int \<Rightarrow> tables \<Rightarrow> agent_record \<Rightarrow> delegation_record option \<Rightarrow> bool" where
  "context_admits q now t ag del \<longleftrightarrow>
     (case del of
        None \<Rightarrow> rq_authorization_mode q = Agent \<and>
          rq_user_id q = [] \<and> rq_delegation_id q = [] \<and> rq_task_id q = [] \<and>
          ag_allow_autonomous ag \<and> matches_scope (rq_requested_action q) (ag_allowed_actions ag)
      | Some d \<Rightarrow> rq_authorization_mode q = Delegated \<and>
          rq_user_id q \<noteq> [] \<and> rq_delegation_id q \<noteq> [] \<and> rq_task_id q \<noteq> [] \<and>
          map_of (delegations t) (rq_delegation_id q) = Some d \<and>
          dg_tenant_id d = rq_tenant_id q \<and> dg_status d = Delegation_active \<and>
          is_future (Some (dg_expires_at d)) now \<and>
          dg_user_id d = rq_user_id q \<and> dg_agent_id d = rq_agent_id q \<and>
          dg_task_id d = rq_task_id q \<and>
          matches_scope (rq_resource_id q) (dg_allowed_resources d) \<and>
          matches_scope (rq_requested_action q) (dg_allowed_actions d))"

definition presents_approval :: "access_request \<Rightarrow> bool" where
  "presents_approval q \<longleftrightarrow> rq_approval_id q \<noteq> None \<and> rq_approval_id q \<noteq> Some []"

text \<open>The approval presented is bound to this very request, live and unused.\<close>

definition approval_live :: "access_request \<Rightarrow> int \<Rightarrow> tables \<Rightarrow> approval_record \<Rightarrow> bool" where
  "approval_live q now t a \<longleftrightarrow>
     presents_approval q \<and> map_of (approvals t) (the (rq_approval_id q)) = Some a \<and>
     ap_request_digest a \<noteq> None \<and> matches a q \<and> ap_consumed_at a = None \<and>
     is_future (ap_expires_at a) now"

lemma check_context_Inl:
  "check_context q now t ag = Inl e \<Longrightarrow> el_action e = Block \<and> el_approval e = None"
  by (auto simp: check_context_def split: if_split_asm option.split_asm)

lemma delegation_mismatch_None:
  "delegation_mismatch q d = None \<longleftrightarrow>
     dg_user_id d = rq_user_id q \<and> dg_agent_id d = rq_agent_id q \<and> dg_task_id d = rq_task_id q \<and>
     (dg_allowed_resources d \<noteq> [] \<longrightarrow> matches_scope (rq_resource_id q) (dg_allowed_resources d)) \<and>
     (dg_allowed_actions d \<noteq> [] \<longrightarrow> matches_scope (rq_requested_action q) (dg_allowed_actions d))"
  by (auto simp: delegation_mismatch_def)

lemma matches_scope_Nil [simp]: "\<not> matches_scope v []"
  by (simp add: matches_scope_def)

lemma check_context_Inr:
  "check_context q now t ag = Inr del \<longleftrightarrow> context_admits q now t ag del"
proof (cases "rq_authorization_mode q")
  case Agent
  then show ?thesis
    by (cases del) (auto simp: check_context_def context_admits_def)
next
  case Delegated
  show ?thesis
  proof (cases "map_of (delegations t) (rq_delegation_id q)")
    case None
    with Delegated show ?thesis
      by (cases del) (auto simp: check_context_def context_admits_def)
  next
    case (Some d)
    note found = Some
    show ?thesis
    proof (cases "delegation_mismatch q d")
      case None
      note facts = delegation_mismatch_None [of q d, THEN iffD1, OF None]
      show ?thesis
        using Delegated found facts
        by (cases del) (auto simp: None check_context_def context_admits_def)
    next
      case (Some m)
      then have bad: "\<not> (dg_user_id d = rq_user_id q \<and> dg_agent_id d = rq_agent_id q \<and>
          dg_task_id d = rq_task_id q \<and>
          matches_scope (rq_resource_id q) (dg_allowed_resources d) \<and>
          matches_scope (rq_requested_action q) (dg_allowed_actions d))"
        using delegation_mismatch_None [of q d] by auto
      obtain c w where m: "m = (c, w)" by fastforce
      show ?thesis
        using Delegated found bad
        by (cases del) (auto simp: Some m check_context_def context_admits_def)
    qed
  qed
qed

lemma request_bound_iff:
  "request_bound q \<longleftrightarrow> \<not> (rq_tenant_id q = None \<or> py_strip (the (rq_tenant_id q)) = []) \<and>
     valid_digest (request_digest_of q) \<noteq> None"
  by (auto simp: request_bound_def valid_digest_def split: option.splits json.splits)

text \<open>The evaluation refuses, or everything but the approval question is settled.\<close>

lemma evaluate_strict_cases:
  obtains (refused) "el_action (evaluate_strict q now t) = Block"
      "el_approval (evaluate_strict q now t) = None"
      "\<not> (request_bound q \<and> (\<exists>ag del. agent_admits q t ag \<and> context_admits q now t ag del))"
  | (admitted) ag del where "request_bound q" "agent_admits q t ag" "context_admits q now t ag del"
      "evaluate_strict q now t = check_approval q now t ag del"
proof (cases "request_bound q")
  case False
  then show ?thesis
    by (intro refused) (auto simp: evaluate_strict_def request_bound_iff)
next
  case True
  then have bound: "evaluate_strict q now t = check_agent q now t"
    unfolding evaluate_strict_def request_bound_iff by (simp only: if_False de_Morgan_disj simp_thms)
  show ?thesis
  proof (cases "\<exists>ag. agent_admits q t ag")
    case False
    then show ?thesis
      by (intro refused) (auto simp: bound check_agent_def agent_admits_def split: option.split)
  next
    case ex: True
    then obtain ag where ag: "agent_admits q t ag" by blast
    then have one: "agent_admits q t ag' \<Longrightarrow> ag' = ag" for ag'
      by (simp add: agent_admits_def)
    have e: "evaluate_strict q now t = (case check_context q now t ag of
        Inl e \<Rightarrow> e | Inr del \<Rightarrow> check_approval q now t ag del)"
      using ag by (simp add: bound check_agent_def agent_admits_def)
    show ?thesis
    proof (cases "check_context q now t ag")
      case (Inl e')
      with e check_context_Inl [OF Inl] one show ?thesis
        by (intro refused) (auto simp flip: check_context_Inr)
    next
      case (Inr del)
      with e ag True show ?thesis
        by (intro admitted) (auto simp flip: check_context_Inr)
    qed
  qed
qed

lemma check_approval_simps:
  "\<not> presents_approval q \<Longrightarrow> check_approval q now t ag del =
     \<lparr>el_action = (if requires_approval ag q then Approval_required else Allow),
      el_reason_code = (if requires_approval ag q then ''high_risk_action_requires_approval''
        else if rq_authorization_mode q = Agent then ''agent_allowed'' else ''delegation_allowed''),
      el_reason = (if requires_approval ag q then ''The high-risk action requires human approval.''
        else ''The bound action is authorized.''),
      el_delegation = del, el_approval = None\<rparr>"
  "approval_live q now t a \<Longrightarrow> ap_status a = Approved \<Longrightarrow> check_approval q now t ag del =
     \<lparr>el_action = Allow, el_reason_code = ''approved_high_risk_action'',
      el_reason = ''The bound action is approved.'', el_delegation = del, el_approval = Some a\<rparr>"
  "approval_live q now t a \<Longrightarrow> ap_status a = Pending \<Longrightarrow> check_approval q now t ag del =
     \<lparr>el_action = Approval_required, el_reason_code = ''high_risk_action_requires_approval'',
      el_reason = ''Human approval is pending.'', el_delegation = del, el_approval = Some a\<rparr>"
  "approval_live q now t a \<Longrightarrow> ap_status a = Denied \<Longrightarrow> check_approval q now t ag del =
     blocked ''approval_denied'' ''Approval was denied.''"
  by (auto simp: check_approval_def presents_approval_def approval_live_def)

lemma check_approval_dead:
  assumes "presents_approval q" and "\<nexists>a. approval_live q now t a"
  shows "el_action (check_approval q now t ag del) = Block \<and>
    el_approval (check_approval q now t ag del) = None"
proof (cases "map_of (approvals t) (the (rq_approval_id q))")
  case None
  with assms show ?thesis by (simp add: check_approval_def presents_approval_def)
next
  case (Some a)
  with assms have "ap_request_digest a = None \<or> \<not> matches a q \<or> ap_consumed_at a \<noteq> None \<or>
      \<not> is_future (ap_expires_at a) now"
    by (auto simp: approval_live_def)
  with Some assms(1) show ?thesis by (auto simp: check_approval_def presents_approval_def)
qed

end
