(* ===== verification/Broker_Refine.thy ===== *)
theory Broker_Refine
  imports Broker
begin

text \<open>
  An abstract view of the broker: what its operations may do to the tables, as a step
  relation on the tables alone, with the life of an approval (opened, reviewed, consumed)
  spelled out.  Every operation of Broker is simulated by a sequence of such steps
  (\<open>sim_act\<close>), for the in-memory store and for the file store with its commits and
  rollbacks, so invariants are proved once, on the abstract steps.
\<close>

subsection \<open>The abstract steps\<close>

text \<open>Approval ids the environment can still hand out, from the \<open>n\<close>-th UUID on.\<close>

definition minted :: "broker_env \<Rightarrow> nat \<Rightarrow> pystr \<Rightarrow> bool" where
  "minted env n i \<longleftrightarrow> (\<exists>k \<ge> n. i = uni ''apv'' @ uni ''_'' @ take 12 (uuid_hex env k))"

inductive table_step :: "(pystr \<Rightarrow> bool) \<Rightarrow> tables \<Rightarrow> tables \<Rightarrow> bool"
  for fresh :: "pystr \<Rightarrow> bool" where
  write_agent: "table_step fresh t (put_agent a t)"
| write_delegation: "table_step fresh t (put_delegation d t)"
| write_audit: "table_step fresh t (add_audit e t)"
| open_pending: "fresh (ap_approval_id a) \<Longrightarrow> ap_status a = Pending \<Longrightarrow> ap_consumed_at a = None \<Longrightarrow>
     table_step fresh t (put_approval a t)"
| consume: "map_of (approvals t) k = Some a \<Longrightarrow> ap_status a = Approved \<Longrightarrow>
     ap_consumed_at a = None \<Longrightarrow> ap_request_digest a \<noteq> None \<Longrightarrow>
     table_step fresh t (put_approval (a\<lparr>ap_consumed_at := Some w\<rparr>) t)"
| review: "map_of (approvals t) k = Some a \<Longrightarrow>
     (ap_request_digest a \<noteq> None \<longrightarrow> ap_consumed_at a = None \<and> ap_status a = Pending) \<Longrightarrow>
     st = Approved \<or> st = Denied \<Longrightarrow>
     table_step fresh t (put_approval
       (a\<lparr>ap_status := st, ap_decided_at := w, ap_approver_id := who, ap_comment := c\<rparr>) t)"

abbreviation table_steps :: "(pystr \<Rightarrow> bool) \<Rightarrow> tables \<Rightarrow> tables \<Rightarrow> bool" where
  "table_steps fresh \<equiv> (table_step fresh)\<^sup>*\<^sup>*"

lemma table_step_mono:
  "table_step f t t' \<Longrightarrow> (\<And>i. f i \<Longrightarrow> g i) \<Longrightarrow> table_step g t t'"
  by (induction rule: table_step.induct) (auto intro: table_step.intros)

lemma table_steps_mono:
  assumes "table_steps f t t'" and "\<And>i. f i \<Longrightarrow> g i"
  shows "table_steps g t t'"
  using assms(1)
  by (induction rule: rtranclp_induct)
    (auto intro: table_step_mono assms(2) rtranclp.rtrancl_into_rtrancl)

lemma minted_mono: "n \<le> n' \<Longrightarrow> minted env n' i \<Longrightarrow> minted env n i"
  by (auto simp: minted_def intro: order_trans)

subsection \<open>Invariants of the abstract steps\<close>

definition keys_ok :: "tables \<Rightarrow> bool" where
  "keys_ok t \<longleftrightarrow> (\<forall>k a. map_of (approvals t) k = Some a \<longrightarrow> ap_approval_id a = k)"

definition consumed_in :: "tables \<Rightarrow> pystr \<Rightarrow> bool" where
  "consumed_in t i \<longleftrightarrow> (\<exists>a. map_of (approvals t) i = Some a \<and> ap_consumed_at a \<noteq> None \<and>
     ap_request_digest a \<noteq> None)"

lemma map_of_approvals_put [simp]:
  "map_of (approvals (put_approval a t)) k =
     (if k = ap_approval_id a then Some a else map_of (approvals t) k)"
  by (simp add: put_approval_def)

lemma put_frame [simp]:
  "approvals (put_agent a t) = approvals t"
  "approvals (put_delegation d t) = approvals t"
  "approvals (add_audit e t) = approvals t"
  "agents (put_approval p t) = agents t"
  "agents (put_delegation d t) = agents t"
  "agents (add_audit e t) = agents t"
  "delegations (put_approval p t) = delegations t"
  "delegations (put_agent a t) = delegations t"
  "delegations (add_audit e t) = delegations t"
  "audit_events (put_approval p t) = audit_events t"
  "audit_events (put_agent a t) = audit_events t"
  "audit_events (put_delegation d t) = audit_events t"
  "audit_events (add_audit e t) = audit_events t @ [e]"
  by (simp_all add: put_approval_def put_agent_def put_delegation_def add_audit_def)

lemma step_keys_ok: "table_step f t t' \<Longrightarrow> keys_ok t \<Longrightarrow> keys_ok t'"
  by (induction rule: table_step.induct) (auto simp: keys_ok_def)

lemma step_consumed:
  "table_step f t t' \<Longrightarrow> keys_ok t \<Longrightarrow> \<not> f i \<Longrightarrow> consumed_in t i \<Longrightarrow> consumed_in t' i"
  by (induction rule: table_step.induct) (auto simp: consumed_in_def keys_ok_def)

lemma step_audit: "table_step f t t' \<Longrightarrow> \<exists>es. audit_events t' = audit_events t @ es"
  by (induction rule: table_step.induct) auto

lemma steps_keys_ok: "table_steps f t t' \<Longrightarrow> keys_ok t \<Longrightarrow> keys_ok t'"
  by (induction rule: rtranclp_induct) (auto intro: step_keys_ok)

lemma steps_consumed:
  "table_steps f t t' \<Longrightarrow> keys_ok t \<Longrightarrow> \<not> f i \<Longrightarrow> consumed_in t i \<Longrightarrow> consumed_in t' i"
  by (induction rule: rtranclp_induct) (auto intro: step_consumed steps_keys_ok)

lemma steps_audit: "table_steps f t t' \<Longrightarrow> \<exists>es. audit_events t' = audit_events t @ es"
proof (induction rule: rtranclp_induct)
  case base
  show ?case by simp
next
  case (step u v)
  then show ?case using step_audit [OF step(2)] by auto
qed

text \<open>
  What a strict approval is bound to never changes, and once it is decided the decision
  stands: a denied one can never be approved or consumed.
\<close>

definition same_binding :: "approval_record \<Rightarrow> approval_record \<Rightarrow> bool" where
  "same_binding a b \<longleftrightarrow> ap_approval_id a = ap_approval_id b \<and>
     (\<forall>q. matches a q = matches b q) \<and>
     ap_request_digest a = ap_request_digest b \<and> ap_expires_at a = ap_expires_at b \<and>
     (ap_status a \<noteq> Pending \<longrightarrow> ap_status b = ap_status a)"

lemma same_binding_refl: "same_binding a a"
  by (simp add: same_binding_def)

lemma same_binding_trans: "same_binding a b \<Longrightarrow> same_binding b c \<Longrightarrow> same_binding a c"
  by (auto simp: same_binding_def)

lemma matches_update [simp]:
  "matches (a\<lparr>ap_consumed_at := w\<rparr>) q = matches a q"
  "matches (a\<lparr>ap_status := st, ap_decided_at := w, ap_approver_id := who, ap_comment := c\<rparr>) q =
     matches a q"
  by (cases "ap_request_digest a"; simp add: matches_def)+

lemma same_binding_consume: "same_binding a (a\<lparr>ap_consumed_at := w\<rparr>)"
  by (simp add: same_binding_def)

lemma same_binding_review:
  "ap_status a = Pending \<Longrightarrow> same_binding a
     (a\<lparr>ap_status := st, ap_decided_at := w, ap_approver_id := who, ap_comment := c\<rparr>)"
  by (simp add: same_binding_def)

lemma step_binding:
  assumes "table_step f t t'" "keys_ok t" "\<not> f i" "map_of (approvals t) i = Some a"
    "ap_request_digest a \<noteq> None"
  shows "\<exists>b. map_of (approvals t') i = Some b \<and> same_binding a b"
proof -
  have other: "\<exists>b. map_of (approvals (put_approval p t)) i = Some b \<and> same_binding a b"
    if "ap_approval_id p = i \<Longrightarrow> same_binding a p" for p
    using that assms(4) by (cases "i = ap_approval_id p") (simp_all add: same_binding_refl)
  have keys: "ap_approval_id b = k" if "map_of (approvals t) k = Some b" for k b
    using that assms(2) by (simp add: keys_ok_def)
  show ?thesis
    using assms(1)
  proof cases
    case (open_pending p)
    have "same_binding a p" if "ap_approval_id p = i"
      using that open_pending(2) assms(3) by simp
    then show ?thesis unfolding open_pending(1) by (rule other)
  next
    case (consume k b w)
    have "same_binding a (b\<lparr>ap_consumed_at := Some w\<rparr>)" if "ap_approval_id b = i"
      using keys [OF consume(2)] that consume(2) assms(4) same_binding_consume by simp
    then show ?thesis unfolding consume(1) by (intro other) simp
  next
    case (review k b st c who w)
    have "same_binding a
        (b\<lparr>ap_status := st, ap_decided_at := w, ap_approver_id := who, ap_comment := c\<rparr>)"
      if "ap_approval_id b = i"
      using keys [OF review(2)] that review(2,3) assms(4,5)
      by (simp add: same_binding_review)
    then show ?thesis unfolding review(1) by (intro other) simp
  qed (use assms(4) in \<open>simp_all add: same_binding_refl\<close>)
qed

lemma steps_binding:
  assumes "table_steps f t t'" "keys_ok t" "\<not> f i" "map_of (approvals t) i = Some a"
    "ap_request_digest a \<noteq> None"
  shows "\<exists>b. map_of (approvals t') i = Some b \<and> same_binding a b"
  using assms(1)
proof (induction rule: rtranclp_induct)
  case base
  show ?case using assms(4) by (auto intro: same_binding_refl)
next
  case (step v w)
  then obtain b where b: "map_of (approvals v) i = Some b" "same_binding a b" by blast
  moreover have "keys_ok v" using step(1) assms(2) by (rule steps_keys_ok)
  moreover have "ap_request_digest b \<noteq> None"
    using b(2) assms(5) by (simp add: same_binding_def)
  ultimately obtain c where "map_of (approvals w) i = Some c" "same_binding b c"
    using step_binding [OF step(2)] assms(3) by blast
  with b(2) show ?case by (blast intro: same_binding_trans)
qed

subsection \<open>The tables a state stands for\<close>

text \<open>
  Inside a transaction, or with the in-memory store, memory; otherwise what the file
  holds, which is what the next transaction loads.
\<close>

definition cur :: "broker_env \<Rightarrow> bstate \<Rightarrow> tables option" where
  "cur env s = (if direct env s then Some (mem s) else view (disk s))"

text \<open>
  \<open>sim_at env n m s\<close>: run from \<open>s\<close>, where at least \<open>n\<close> UUIDs are used up, the action
  \<open>m\<close> moves the tables by abstract steps that mint ids from the \<open>n\<close>-th UUID on, and
  leaves the transaction depth as it was.
\<close>

definition moves :: "broker_env \<Rightarrow> nat \<Rightarrow> bstate \<Rightarrow> bstate \<Rightarrow> bool" where
  "moves env n s t \<longleftrightarrow> depth t = depth s \<and> uuids_used s \<le> uuids_used t \<and>
     (\<forall>c. cur env s = Some c \<longrightarrow>
       (\<exists>c'. cur env t = Some c' \<and> table_steps (minted env n) c c'))"

definition sim_at :: "broker_env \<Rightarrow> nat \<Rightarrow> 'a broker_act \<Rightarrow> bstate \<Rightarrow> bool" where
  "sim_at env n m s \<longleftrightarrow> (n \<le> uuids_used s \<longrightarrow> (\<forall>r t. m s = (r, t) \<longrightarrow> moves env n s t))"

named_theorems sim_intros \<open>actions simulated by abstract steps\<close>

lemma moves_trans: "moves env n s t \<Longrightarrow> moves env n t v \<Longrightarrow> moves env n s v"
  unfolding moves_def by (fastforce intro: rtranclp_trans)

lemma moves_cur:
  "moves env n s t \<Longrightarrow> cur env s = Some c \<Longrightarrow>
   \<exists>c'. cur env t = Some c' \<and> table_steps (minted env n) c c'"
  by (auto simp: moves_def)

lemma sim_atD: "sim_at env n m s \<Longrightarrow> n \<le> uuids_used s \<Longrightarrow> m s = (r, t) \<Longrightarrow> moves env n s t"
  by (auto simp: sim_at_def)

lemma sim_at_seq [sim_intros]:
  assumes m: "sim_at env n m s"
    and f: "\<And>x s1. n \<le> uuids_used s \<Longrightarrow> m s = (Inr x, s1) \<Longrightarrow> sim_at env n (f x) s1"
  shows "sim_at env n (seq m f) s"
  unfolding sim_at_def
proof (intro allI impI)
  fix r t
  assume n: "n \<le> uuids_used s" and run: "seq m f s = (r, t)"
  obtain r1 s1 where m1: "m s = (r1, s1)" by fastforce
  have 1: "moves env n s s1" using m n m1 by (rule sim_atD)
  show "moves env n s t"
  proof (cases r1)
    case (Inl e)
    with m1 run 1 show ?thesis by (simp add: seq_app)
  next
    case (Inr x)
    with m1 run have fx: "f x s1 = (r, t)" by (simp add: seq_app)
    have "n \<le> uuids_used s1" using 1 n by (simp add: moves_def)
    with f n m1 Inr fx have "moves env n s1 t" by (blast intro: sim_atD)
    with 1 show ?thesis by (rule moves_trans)
  qed
qed

text \<open>Actions that do not touch the tables or the file.\<close>

lemma sim_at_quiet:
  assumes "\<And>r t. m s = (r, t) \<Longrightarrow>
    depth t = depth s \<and> uuids_used s \<le> uuids_used t \<and> mem t = mem s \<and> disk t = disk s"
  shows "sim_at env n m s"
  unfolding sim_at_def
proof (intro allI impI)
  fix r t
  assume "m s = (r, t)"
  from assms [OF this] have "depth t = depth s" "uuids_used s \<le> uuids_used t"
      "cur env t = cur env s"
    by (simp_all add: cur_def direct_def)
  then show "moves env n s t"
    by (auto simp: moves_def)
qed

lemma sim_quiet [sim_intros]:
  "sim_at env n (ret x) s" "sim_at env n (raise e) s" "sim_at env n (gets g) s"
  "sim_at env n (lift_result q) s" "sim_at env n (utc_now env) s" "sim_at env n (new_id env p) s"
  "sim_at env n (token_urlsafe env) s"
  by (auto intro!: sim_at_quiet simp: utc_now_def new_id_def token_urlsafe_def)

lemma sim_cases [sim_intros]:
  "(b \<Longrightarrow> sim_at env n m s) \<Longrightarrow> (\<not> b \<Longrightarrow> sim_at env n m' s) \<Longrightarrow>
     sim_at env n (if b then m else m') s"
  "(v = None \<Longrightarrow> sim_at env n m s) \<Longrightarrow> (\<And>x. v = Some x \<Longrightarrow> sim_at env n (f x) s) \<Longrightarrow>
     sim_at env n (case v of None \<Rightarrow> m | Some x \<Rightarrow> f x) s"
  "(\<And>x y. p = (x, y) \<Longrightarrow> sim_at env n (g x y) s) \<Longrightarrow>
     sim_at env n (case p of (x, y) \<Rightarrow> g x y) s"
  by (simp_all split: option.split prod.split)

text \<open>A body that runs as a transaction of its own, or in the open one.\<close>

lemma sim_at_transaction:
  assumes inner: "inner_act env body"
    and sim: "\<And>s'. direct env s' \<Longrightarrow> uuids_used s' = uuids_used s \<Longrightarrow>
      clock_reads s' = clock_reads s \<Longrightarrow> cur env s = Some (mem s') \<Longrightarrow> sim_at env n body s'"
  shows "sim_at env n (transaction env body) s"
proof (cases "direct env s")
  case True
  then have "sim_at env n body s" by (intro sim) (simp_all add: cur_def)
  with True show ?thesis by (simp add: sim_at_def transaction_direct)
next
  case False
  then have fs: "file_store env" and d0: "depth s = 0" by (simp_all add: direct_def)
  show ?thesis
    unfolding sim_at_def
  proof (intro allI impI)
    fix r t
    assume n: "n \<le> uuids_used s" and run: "transaction env body s = (r, t)"
    show "moves env n s t"
    proof (cases "view (disk s)")
      case None
      with run fs d0 have "t = s"
        by (simp add: transaction_def load_view)
      with None False show ?thesis by (simp add: cur_def moves_def)
    next
      case (Some m0)
      let ?u = "s\<lparr>mem := m0, depth := 1, dirty := False\<rparr>"
      obtain r1 s2 where b: "body ?u = (r1, s2)" by fastforce
      note out = transaction_body.outcome [OF transaction_body.intro [OF inner] fs d0 Some b run]
      have u: "direct env ?u" "cur env s = Some (mem ?u)"
        using False Some by (simp_all add: direct_def cur_def)
      then have simu: "sim_at env n body ?u" by (intro sim) simp_all
      have mv: "moves env n ?u s2" using simu _ b by (rule sim_atD) (simp add: n)
      have "cur env ?u = Some m0" using u(1) by (simp add: cur_def)
      from moves_cur [OF mv this] obtain c' where c': "cur env s2 = Some c'"
          "table_steps (minted env n) m0 c'"
        by auto
      have s2: "uuids_used s \<le> uuids_used s2" "depth s2 = 1"
        using mv by (auto simp: moves_def)
      then have "c' = mem s2" using c'(1) by (simp add: cur_def direct_def)
      moreover have "\<not> direct env t" using out fs by (simp add: direct_def)
      ultimately show ?thesis
        using out Some False c'(2) s2 d0 by (auto simp: cur_def moves_def)
    qed
  qed
qed

lemma sim_at_write:
  assumes "\<And>c. cur env s = Some c \<Longrightarrow> table_step (minted env n) c (f c)"
  shows "sim_at env n (write_tables env f x) s"
  unfolding write_tables_def
proof (rule sim_at_transaction)
  show "inner_act env (\<lambda>s. (Inr x, s\<lparr>mem := f (mem s), dirty := file_store env \<or> dirty s\<rparr>))"
    by (rule write_txn.contract)
next
  fix s'
  assume "direct env s'" "cur env s = Some (mem s')"
  with assms show "sim_at env n
      (\<lambda>s. (Inr x, s\<lparr>mem := f (mem s), dirty := file_store env \<or> dirty s\<rparr>)) s'"
    by (auto simp: sim_at_def moves_def cur_def)
qed

subsection \<open>The operations are simulated\<close>

lemma inner_quiet [inner_intros]:
  "inner_act env (utc_now env)" "inner_act env (new_id env p)" "inner_act env (token_urlsafe env)"
  by (auto simp: inner_act_def inner_def utc_now_def new_id_def token_urlsafe_def)

lemma inner_writers [inner_intros]:
  "inner_act env (upsert_agent env a)" "inner_act env (store_delegation env d)"
  "inner_act env (upsert_approval env p)" "inner_act env (append_audit_event env e)"
  by (simp_all add: upsert_agent_def store_delegation_def upsert_approval_def
      append_audit_event_def inner_write_tables)

lemma inner_audit [inner_intros]: "inner_act env (audit env ty p)"
  unfolding audit_def by (intro inner_intros)

lemma inner_parts [inner_intros]:
  "inner_act env (issue_token env q del)"
  "inner_act env (strict_decision env q e b tok apv)"
  "inner_act env (open_approval env q del now)"
  "inner_act env (consume_approval env a now)"
  unfolding issue_token_def strict_decision_def open_approval_def consume_approval_def Let_def
  by (intro inner_intros)+

lemma inner_settle [inner_intros]: "inner_act env (settle env q e now)"
  unfolding settle_def by (intro inner_intros)

lemma inner_authorize_body: "inner_act env (authorize_body env q)"
  unfolding authorize_body_def by (intro inner_intros)

interpretation authorize_txn: transaction_body env "authorize_body env q" for env q
  by unfold_locales (rule inner_authorize_body)

lemma sim_writers [sim_intros]:
  "sim_at env n (upsert_agent env a) s" "sim_at env n (store_delegation env d) s"
  "sim_at env n (append_audit_event env e) s"
  by (auto simp: upsert_agent_def store_delegation_def append_audit_event_def
      intro!: sim_at_write table_step.intros)

lemma sim_audit [sim_intros]: "sim_at env n (audit env ty p) s"
  unfolding audit_def by (intro sim_intros)

lemma sim_open_write:
  assumes "minted env n (ap_approval_id a)" "ap_status a = Pending" "ap_consumed_at a = None"
  shows "sim_at env n (upsert_approval env a) s"
  unfolding upsert_approval_def by (intro sim_at_write open_pending assms)

lemma new_id_minted:
  "n \<le> uuids_used s \<Longrightarrow> new_id env (uni ''apv'') s = (Inr i, t) \<Longrightarrow> minted env n i"
  by (auto simp: new_id_def minted_def)

lemma sim_decisions [sim_intros]:
  "sim_at env n (issue_token env q del) s"
  "sim_at env n (strict_decision env q e b tok apv) s"
  "sim_at env n (legacy_decision env q act code why tok apv) s"
  unfolding issue_token_def strict_decision_def legacy_decision_def Let_def
  by (intro sim_intros)+

lemma sim_open_approval [sim_intros]: "sim_at env n (open_approval env q del now) s"
  unfolding open_approval_def Let_def
  by (intro sim_intros sim_open_write) (auto simp: strict_approval_def dest: new_id_minted)

lemma sim_create_approval [sim_intros]: "sim_at env n (create_approval env q) s"
  unfolding create_approval_def Let_def
  by (intro sim_intros sim_open_write) (auto dest: new_id_minted)

text \<open>The approval behind an allowing evaluation is the stored one, approved and unused.\<close>

lemma evaluate_strict_approval:
  assumes "el_approval (evaluate_strict q now t) = Some a"
  shows "approval_live q now t a \<and> el_action (evaluate_strict q now t) \<noteq> Block \<and>
    (el_action (evaluate_strict q now t) = Allow \<longrightarrow> ap_status a = Approved)"
proof (cases rule: evaluate_strict_cases [of q now t])
  case refused
  with assms show ?thesis by simp
next
  case (admitted ag del)
  show ?thesis
  proof (cases "\<exists>b. approval_live q now t b")
    case True
    then obtain b where b: "approval_live q now t b" by blast
    then show ?thesis
      using assms admitted(4) by (cases "ap_status b") (auto simp: check_approval_simps)
  next
    case False
    then have "\<not> presents_approval q"
      using check_approval_dead [of q now t ag del] assms admitted(4) by auto
    then show ?thesis using assms admitted(4) by (simp add: check_approval_simps)
  qed
qed

lemma sim_consume:
  assumes "cur env s = Some t" "map_of (approvals t) k = Some a" "ap_status a = Approved"
    "ap_consumed_at a = None" "ap_request_digest a \<noteq> None"
  shows "sim_at env n (consume_approval env a now) s"
  unfolding consume_approval_def Let_def upsert_approval_def
  using assms by (intro sim_intros sim_at_write) (auto intro: table_step.consume)

lemma sim_settle:
  assumes "cur env s = Some t" "e = evaluate_strict q now t"
  shows "sim_at env n (settle env q e now) s"
  unfolding settle_def
  using assms by (intro sim_intros sim_consume) (auto simp: approval_live_def dest!: evaluate_strict_approval)

lemma sim_authorize_body:
  assumes "direct env s"
  shows "sim_at env n (authorize_body env q) s"
  unfolding authorize_body_def
  using assms
  by (intro sim_intros sim_settle [where t = "mem s"])
    (auto simp: utc_now_def cur_def)

lemma sim_authorize [sim_intros]: "sim_at env n (authorize env q) s"
  unfolding authorize_def
  by (intro sim_at_transaction inner_authorize_body sim_authorize_body)

text \<open>A read transaction only refreshes memory.\<close>

lemma sim_load: "\<not> direct env s \<Longrightarrow> sim_at env n load s"
  by (auto simp: sim_at_def moves_def cur_def direct_def load_def split: disk.splits)

lemma sim_read_transaction:
  assumes "\<And>s. sim_at env n m s"
  shows "sim_at env n (read_transaction env m) s"
proof (cases "direct env s")
  case True
  then have "read_transaction env m s = m s"
    by (auto simp: read_transaction_def direct_def)
  with assms [of s] show ?thesis by (simp add: sim_at_def)
next
  case False
  then have "read_transaction env m s = seq load (\<lambda>_. m) s"
    by (simp add: read_transaction_def direct_def)
  moreover have "sim_at env n (seq load (\<lambda>_. m)) s"
    using False assms by (intro sim_at_seq sim_load)
  ultimately show ?thesis by (simp add: sim_at_def)
qed

lemma sim_evaluate [sim_intros]: "sim_at env n (evaluate env q) s"
  unfolding evaluate_def by (intro sim_read_transaction sim_intros)

lemma sim_legacy_decide [sim_intros]: "sim_at env n (legacy_decide env q) s"
  unfolding legacy_decide_def by (intro sim_intros)

lemma sim_decide [sim_intros]: "sim_at env n (decide env q) s"
  unfolding decide_def by (intro sim_intros sim_read_transaction)

lemma sim_register_agent [sim_intros]: "sim_at env n (register_agent env a actor) s"
  unfolding register_agent_def by (intro sim_intros)

lemma sim_create_delegation [sim_intros]: "sim_at env n (create_delegation env p actor) s"
  unfolding create_delegation_def by (intro sim_intros)

text \<open>Reviewing an approval.\<close>

definition review_body ::
  "broker_env \<Rightarrow> pystr \<Rightarrow> approval_decision_request \<Rightarrow> approval_status \<Rightarrow> string \<Rightarrow>
   approval_record broker_act" where
  "review_body env i p status event_type =
     seq (gets (get_approval i)) (\<lambda>found. case found of
        None \<Rightarrow> raise (Value_error ''Unknown approval_id'')
      | Some a \<Rightarrow>
          seq (utc_now env) (\<lambda>now.
          (if ap_request_digest a \<noteq> None \<and> (ap_consumed_at a \<noteq> None \<or> ap_status a \<noteq> Pending)
           then raise (Value_error ''Strict approval is already decided or consumed.'')
           else if ap_request_digest a \<noteq> None \<and> \<not> is_future (ap_expires_at a) now
           then raise (Value_error ''Strict approval has expired.'')
           else
             (let a' = a\<lparr>ap_status := status, ap_decided_at := Some (Aware now),
                        ap_approver_id := Some (ad_approver_id p), ap_comment := ad_comment p\<rparr> in
              seq (upsert_approval env a') (\<lambda>saved.
              seq (audit env event_type (Approval_payload saved)) (\<lambda>_. ret saved))))))"

lemma set_approval_status_eq:
  "set_approval_status env i p st ty = transaction env (review_body env i p st ty)"
  by (simp add: set_approval_status_def review_body_def)

lemma inner_review_body: "inner_act env (review_body env i p st ty)"
  unfolding review_body_def Let_def by (intro inner_intros)

interpretation review_txn: transaction_body env "review_body env i p st ty" for env i p st ty
  by unfold_locales (rule inner_review_body)

lemma sim_review_body:
  assumes "direct env s" "st = Approved \<or> st = Denied"
  shows "sim_at env n (review_body env i p st ty) s"
  unfolding review_body_def Let_def upsert_approval_def
  using assms
  by (intro sim_intros sim_at_write)
    (auto simp: get_approval_def utc_now_def cur_def intro!: table_step.review)

lemma sim_set_approval_status:
  "st = Approved \<or> st = Denied \<Longrightarrow> sim_at env n (set_approval_status env i p st ty) s"
  unfolding set_approval_status_eq
  by (intro sim_at_transaction inner_review_body sim_review_body)

lemma sim_review [sim_intros]:
  "sim_at env n (approve env i p) s" "sim_at env n (deny env i p) s"
  unfolding approve_def deny_def by (simp_all add: sim_set_approval_status)

subsection \<open>The broker as a machine\<close>

datatype broker_op =
    Op_register agent_record "(pystr, pystr) dict option"
  | Op_delegate delegation_create_request "(pystr, pystr) dict option"
  | Op_authorize access_request
  | Op_evaluate access_request
  | Op_decide access_request
  | Op_approve pystr approval_decision_request
  | Op_deny pystr approval_decision_request

fun broker_step :: "broker_env \<Rightarrow> bstate \<Rightarrow> broker_op \<Rightarrow> bstate" where
  "broker_step env s (Op_register a actor) = snd (register_agent env a actor s)"
| "broker_step env s (Op_delegate p actor) = snd (create_delegation env p actor s)"
| "broker_step env s (Op_authorize q) = snd (authorize env q s)"
| "broker_step env s (Op_evaluate q) = snd (evaluate env q s)"
| "broker_step env s (Op_decide q) = snd (decide env q s)"
| "broker_step env s (Op_approve i p) = snd (approve env i p s)"
| "broker_step env s (Op_deny i p) = snd (deny env i p s)"

lemma sim_snd: "sim_at env n m s \<Longrightarrow> n \<le> uuids_used s \<Longrightarrow> moves env n s (snd (m s))"
  by (metis prod.collapse sim_atD)

lemma broker_step_moves: "n \<le> uuids_used s \<Longrightarrow> moves env n s (broker_step env s op)"
  by (cases op) (auto intro!: sim_snd intro: sim_intros)

text \<open>
  Several processes share one file (\<open>inspector_replicas\<close> workers and the console): each
  has its own memory, the file is the one thing they see of each other.  A step is one
  operation of one process.  \<open>authorize\<close> and the reviews are one transaction, which the
  file lock makes a unit; the other operations are a few transactions and are taken here
  as a unit too.
\<close>

record cluster =
  shared :: disk
  locals :: "nat \<Rightarrow> bstate"

fun cluster_step :: "(nat \<Rightarrow> broker_env) \<Rightarrow> cluster \<Rightarrow> nat \<times> broker_op \<Rightarrow> cluster" where
  "cluster_step envs c (p, op) =
     (let s' = broker_step (envs p) ((locals c p)\<lparr>disk := shared c\<rparr>) op
      in c\<lparr>shared := disk s', locals := (locals c)(p := s')\<rparr>)"

end
