(* ===== verification/Broker_Safety.thy ===== *)
theory Broker_Safety
  imports Broker_Refine
begin

text \<open>
  What the Access Broker guarantees: the strict evaluation against its declarative
  reading, what \<open>authorize\<close> does to the tables and to the audit log, and the one-time use
  of approvals over any run of any number of processes on one broker file.
\<close>

subsection \<open>The effect of one authorization\<close>

lemma audit_direct_mem:
  "audit env ty p s = (Inr ev, t) \<Longrightarrow> direct env s \<Longrightarrow>
   mem t = add_audit ev (mem s) \<and> depth t = depth s \<and> ev_event_type ev = ty \<and>
   ev_payload ev = p \<and> clock_reads t = Suc (clock_reads s)"
  by (auto simp: audit_def seq_app new_id_def utc_now_def append_audit_event_def)

lemma issue_token_mem:
  "issue_token env q del s = (r, t) \<Longrightarrow> mem t = mem s \<and> depth t = depth s"
  by (auto simp: issue_token_def seq_app utc_now_def token_urlsafe_def
      split: prod.splits sum.splits option.splits)

text \<open>The four outcomes of \<open>settle\<close>.\<close>

lemma settle_other:
  "el_action e = Block \<or> el_action e = Approval_required \<and> el_approval e \<noteq> None \<Longrightarrow>
   settle env q e now s = (Inr (el_approval e, None), s)"
  by (auto simp: settle_def)

lemma settle_open:
  assumes "el_action e = Approval_required" "el_approval e = None" "direct env s"
    and "settle env q e now s = (Inr (apv, tok), t)"
  shows "tok = None \<and> depth t = depth s \<and> (\<exists>i dig limit ev.
    apv = Some (strict_approval q i dig limit now) \<and>
    digest_field (request_digest_of q) = Inr dig \<and>
    approval_limit env now (el_delegation e) = Inr limit \<and>
    minted env (uuids_used s) i \<and>
    mem t = add_audit ev (put_approval (strict_approval q i dig limit now) (mem s)))"
proof -
  from assms obtain a where run: "open_approval env q (el_delegation e) now s = (Inr a, t)"
      and apv: "apv = Some a" "tok = None"
    by (auto simp: settle_def seq_Inr_iff)
  from run obtain i s1 dig limit where
      i: "new_id env (uni ''apv'') s = (Inr i, s1)" and
      dig: "digest_field (request_digest_of q) = Inr dig" and
      limit: "approval_limit env now (el_delegation e) = Inr limit" and
      rest: "seq (upsert_approval env (strict_approval q i dig limit now)) (\<lambda>_.
         seq (audit env ''access.approval_created''
           (Approval_payload (strict_approval q i dig limit now)))
           (\<lambda>_. ret (strict_approval q i dig limit now))) s1 = (Inr a, t)"
    by (auto simp: open_approval_def Let_def seq_Inr_iff)
  have s1: "direct env s1" "mem s1 = mem s" "depth s1 = depth s"
    using i assms(3) by (auto simp: new_id_def direct_def)
  let ?a = "strict_approval q i dig limit now"
  let ?s2 = "s1\<lparr>mem := put_approval ?a (mem s1), dirty := file_store env \<or> dirty s1\<rparr>"
  have up: "upsert_approval env ?a s1 = (Inr ?a, ?s2)"
    using s1(1) by (simp add: upsert_approval_def)
  note rest' = rest [unfolded seq_Inr [of "upsert_approval env ?a", OF up] seq_Inr_iff ret_app]
  from rest' obtain ev where
      ev: "audit env ''access.approval_created'' (Approval_payload ?a) ?s2 = (Inr ev, t)"
      and a: "a = ?a"
    by blast
  have "mem t = add_audit ev (put_approval ?a (mem s))" "depth t = depth s"
    using audit_direct_mem [OF ev] s1 by simp_all
  moreover have "minted env (uuids_used s) i"
    using i by (auto intro: new_id_minted)
  ultimately show ?thesis
    by (intro conjI exI [of _ i] exI [of _ dig] exI [of _ limit] exI [of _ ev])
      (simp_all add: apv a dig limit)
qed

lemma settle_allow:
  assumes "el_action e = Allow" "direct env s"
    and "settle env q e now s = (Inr (apv, tok), t)"
  shows "depth t = depth s \<and>
    (\<exists>tk s2. tok = Some tk \<and> issue_token env q (el_delegation e) s2 = (Inr tk, t) \<and>
       clock_reads s \<le> clock_reads s2 \<and> clock_reads s2 \<le> Suc (clock_reads s)) \<and>
    (case el_approval e of
       None \<Rightarrow> apv = None \<and> mem t = mem s
     | Some a \<Rightarrow> apv = Some (a\<lparr>ap_consumed_at := Some (Aware now)\<rparr>) \<and>
         (\<exists>ev. mem t = add_audit ev (put_approval (a\<lparr>ap_consumed_at := Some (Aware now)\<rparr>) (mem s))))"
proof (cases "el_approval e")
  case None
  with assms obtain tk where tk: "issue_token env q (el_delegation e) s = (Inr tk, t)"
      and "apv = None" "tok = Some tk"
    by (auto simp: settle_def seq_Inr_iff)
  with None issue_token_mem [OF tk] show ?thesis by auto
next
  case (Some a)
  let ?a = "a\<lparr>ap_consumed_at := Some (Aware now)\<rparr>"
  let ?s1 = "s\<lparr>mem := put_approval ?a (mem s), dirty := file_store env \<or> dirty s\<rparr>"
  from Some assms obtain ev s2 tk where
      ev: "audit env ''access.approval_consumed'' (Approval_payload ?a) ?s1 = (Inr ev, s2)" and
      tk: "issue_token env q (el_delegation e) s2 = (Inr tk, t)" and
      res: "apv = Some ?a" "tok = Some tk"
    by (auto simp: settle_def consume_approval_def Let_def seq_Inr_iff upsert_approval_def)
  have "mem s2 = add_audit ev (put_approval ?a (mem s))" "depth s2 = depth s"
      "clock_reads s2 = Suc (clock_reads s)"
    using audit_direct_mem [OF ev] assms(2) by simp_all
  with tk res Some show ?thesis
    using issue_token_mem [OF tk] by auto
qed

lemma settle_depth:
  assumes "settle env q (evaluate_strict q now (mem s)) now s = (r, t)" "direct env s"
  shows "depth t = depth s"
proof -
  have "sim_at env 0 (settle env q (evaluate_strict q now (mem s)) now) s"
    using assms(2) by (intro sim_settle [where t = "mem s"]) (simp_all add: cur_def)
  from sim_atD [OF this _ assms(1)] show ?thesis by (simp add: moves_def)
qed

text \<open>A decision and the audit event that records it.\<close>

definition decided :: "access_request \<Rightarrow> evaluation \<Rightarrow> broker_token option \<Rightarrow>
  approval_record option \<Rightarrow> access_decision \<Rightarrow> bool" where
  "decided q e tok apv d \<longleftrightarrow>
     dc_action d = el_action e \<and> dc_reason_code d = el_reason_code e \<and>
     dc_token d = tok \<and> dc_approval d = (if el_action e \<noteq> Block then apv else None)"

lemma strict_decision_run:
  "strict_decision env q e b tok apv s = (Inr d, t) \<Longrightarrow>
   dc_action d = el_action e \<and> dc_reason_code d = el_reason_code e \<and> dc_token d = tok \<and>
   dc_approval d = apv \<and> mem t = mem s \<and> depth t = depth s"
  by (auto simp: strict_decision_def seq_app new_id_def utc_now_def decision_record_def)

lemma authorize_body_run:
  assumes direct: "direct env s" and run: "authorize_body env q s = (Inr d, t)"
    and e: "e = evaluate_strict q (clock env (clock_reads s)) (mem s)"
  shows "\<exists>apv tok s1 ev.
    settle env q e (clock env (clock_reads s)) (s\<lparr>clock_reads := Suc (clock_reads s)\<rparr>) =
      (Inr (apv, tok), s1) \<and> decided q e tok apv d \<and> mem t = add_audit ev (mem s1) \<and>
    ev_event_type ev = ''access.decision'' \<and> ev_payload ev = Decision_payload d None"
proof -
  let ?now = "clock env (clock_reads s)"
  let ?s = "s\<lparr>clock_reads := Suc (clock_reads s)\<rparr>"
  have "seq (settle env q e ?now) (\<lambda>(apv, tok).
     seq (strict_decision env q e False tok (if el_action e \<noteq> Block then apv else None)) (\<lambda>d.
     seq (audit env ''access.decision'' (Decision_payload d None)) (\<lambda>_. ret d))) ?s = (Inr d, t)"
    using run e by (simp add: authorize_body_def seq_app [where m = "utc_now env"]
        seq_app [where m = "gets f" for f] utc_now_def)
  then obtain apv tok s1 s2 ev where
      se: "settle env q e ?now ?s = (Inr (apv, tok), s1)" and
      sd: "strict_decision env q e False tok (if el_action e \<noteq> Block then apv else None) s1 = (Inr d, s2)" and
      au: "audit env ''access.decision'' (Decision_payload d None) s2 = (Inr ev, t)"
    by (auto simp: seq_Inr_iff simp del: if_split)
  have "depth s1 = depth s"
    using settle_depth [of env q ?now ?s] se e direct by simp
  then have "direct env s2"
    using strict_decision_run [OF sd] direct by (simp add: direct_def)
  from audit_direct_mem [OF au this] strict_decision_run [OF sd] se show ?thesis
    by (auto simp: decided_def)
qed

text \<open>From the body to the operation: the tables are the current ones, before and after.\<close>

lemma authorize_run:
  assumes "authorize env q s = (Inr d, t)" "cur env s = Some m0"
  shows "\<exists>s' t'. authorize_body env q s' = (Inr d, t') \<and> direct env s' \<and> mem s' = m0 \<and>
    clock_reads s' = clock_reads s \<and> uuids_used s' = uuids_used s \<and> cur env t = Some (mem t')"
proof (cases "direct env s")
  case True
  then have run: "authorize_body env q s = (Inr d, t)"
    using assms(1) by (simp add: authorize_def transaction_direct)
  moreover have "depth t = depth s"
    using sim_atD [OF sim_authorize_body [OF True, of 0] _ run] by (simp add: moves_def)
  ultimately show ?thesis
    using True assms(2) by (intro exI [of _ s] exI [of _ t]) (simp add: cur_def direct_def)
next
  case False
  then have fs: "file_store env" "depth s = 0" and m0: "view (disk s) = Some m0"
    using assms(2) by (simp_all add: direct_def cur_def)
  note run = assms(1) [unfolded authorize_def]
  obtain s2 where s2: "authorize_body env q (s\<lparr>mem := m0, depth := 1, dirty := False\<rparr>) = (Inr d, s2)"
      "view (disk t) = Some (mem s2)"
    using authorize_txn.committed [OF fs m0 run] by blast
  have "depth t = 0"
    using authorize_txn.outcome [OF fs m0 s2(1) run] by blast
  with s2 fs show ?thesis
    by (intro exI [of _ "s\<lparr>mem := m0, depth := 1, dirty := False\<rparr>"] exI [of _ s2])
      (simp add: cur_def direct_def)
qed

lemma authorize_effect:
  assumes run: "authorize env q s = (Inr d, t)" and cur: "cur env s = Some m0"
    and now: "now = clock env (clock_reads s)" and e: "e = evaluate_strict q now m0"
  shows "\<exists>apv tok s1 s2 m1 ev. direct env s1 \<and> mem s1 = m0 \<and> uuids_used s1 = uuids_used s \<and>
    clock_reads s1 = Suc (clock_reads s) \<and>
    settle env q e now s1 = (Inr (apv, tok), s2) \<and> decided q e tok apv d \<and>
    m1 = mem s2 \<and> cur env t = Some (add_audit ev m1) \<and>
    ev_event_type ev = ''access.decision'' \<and> ev_payload ev = Decision_payload d None"
proof -
  from authorize_run [OF run cur] obtain s' t' where
      b: "authorize_body env q s' = (Inr d, t')" and s': "direct env s'" "mem s' = m0"
      "clock_reads s' = clock_reads s" "uuids_used s' = uuids_used s" and t': "cur env t = Some (mem t')"
    by blast
  from authorize_body_run [OF s'(1) b refl] s' now e obtain apv tok s1 ev where
      "settle env q e now (s'\<lparr>clock_reads := Suc (clock_reads s')\<rparr>) = (Inr (apv, tok), s1)"
      "decided q e tok apv d" "mem t' = add_audit ev (mem s1)"
      "ev_event_type ev = ''access.decision''" "ev_payload ev = Decision_payload d None"
    by auto
  with s' t' show ?thesis
    by (intro exI [of _ apv] exI [of _ tok] exI [of _ "s'\<lparr>clock_reads := Suc (clock_reads s')\<rparr>"]
        exI [of _ s1] exI [of _ "mem s1"] exI [of _ ev]) simp
qed

lemma approval_live_unique: "approval_live q now t a \<Longrightarrow> approval_live q now t b \<Longrightarrow> b = a"
  by (simp add: approval_live_def)

lemma evaluate_allow_iff_aux:
  "el_action (evaluate_strict q now t) = Allow \<longleftrightarrow>
     request_bound q \<and> (\<exists>ag del. agent_admits q t ag \<and> context_admits q now t ag del \<and>
       (if presents_approval q then \<exists>a. approval_live q now t a \<and> ap_status a = Approved
        else \<not> requires_approval ag q))"
proof (cases rule: evaluate_strict_cases [of q now t])
  case refused
  then show ?thesis by auto
next
  case (admitted ag del)
  have uniq: "agent_admits q t ag' \<Longrightarrow> ag' = ag" for ag'
    using admitted(2) by (simp add: agent_admits_def)
  define P where "P b = (if presents_approval q
      then \<exists>a. approval_live q now t a \<and> ap_status a = Approved
      else \<not> requires_approval b q)" for b
  have check: "el_action (check_approval q now t ag del) = Allow \<longleftrightarrow> P ag"
  proof (cases "presents_approval q")
    case True
    show ?thesis
    proof (cases "\<exists>a. approval_live q now t a")
      case ex: True
      then obtain a where a: "approval_live q now t a" by blast
      then have "(\<exists>b. approval_live q now t b \<and> ap_status b = Approved) \<longleftrightarrow> ap_status a = Approved"
        using approval_live_unique [OF a] by blast
      then show ?thesis
        using True a by (cases "ap_status a") (simp_all add: check_approval_simps P_def)
    next
      case False
      with True check_approval_dead [OF True False] show ?thesis by (auto simp: P_def)
    qed
  next
    case False
    then show ?thesis by (simp add: check_approval_simps P_def)
  qed
  have "P ag \<longleftrightarrow> request_bound q \<and>
      (\<exists>b del'. agent_admits q t b \<and> context_admits q now t b del' \<and> P b)"
  proof
    assume "P ag"
    then show "request_bound q \<and>
        (\<exists>b del'. agent_admits q t b \<and> context_admits q now t b del' \<and> P b)"
      using admitted(1,2,3) by (intro conjI exI [of _ ag] exI [of _ del])
  next
    assume "request_bound q \<and>
        (\<exists>b del'. agent_admits q t b \<and> context_admits q now t b del' \<and> P b)"
    then obtain b where "agent_admits q t b" "P b" by (elim conjE exE)
    with uniq [of b] show "P ag" by simp
  qed
  with check show ?thesis unfolding admitted(4) P_def by simp
qed

lemma issue_token_bounds:
  assumes "issue_token env q del s = (Inr tk, t)"
  shows "digest_field (request_digest_of q) = Inr (tk_request_digest tk) \<and>
    tk_tenant_id tk = rq_tenant_id q \<and>
    tk_scopes tk = [rq_resource_id q @ uni '':'' @ rq_requested_action q] \<and>
    (case del of
       Some d \<Rightarrow> is_aware (dg_expires_at d) \<longrightarrow>
         is_aware (tk_expires_at tk) \<and> micros (tk_expires_at tk) \<le> micros (dg_expires_at d) \<and>
         micros (tk_expires_at tk) \<le> clock env (clock_reads s) + token_ttl_seconds env * 1000000
     | None \<Rightarrow> is_aware (tk_expires_at tk) \<and>
         micros (tk_expires_at tk) \<le> clock env (clock_reads s) + token_ttl_seconds env * 1000000)"
proof (cases del)
  case None
  with assms show ?thesis
    by (auto simp: issue_token_def seq_Inr_iff utc_now_def token_urlsafe_def)
next
  case (Some d)
  with assms show ?thesis
    by (cases "dg_expires_at d")
      (auto simp: issue_token_def seq_Inr_iff utc_now_def token_urlsafe_def)
qed

lemma dead_blocks:
  assumes "presents_approval q" "\<nexists>a. approval_live q now m a"
  shows "el_action (evaluate_strict q now m) = Block"
proof (cases rule: evaluate_strict_cases [of q now m])
  case (admitted ag del)
  with check_approval_dead [OF assms] show ?thesis by simp
qed

lemma consumed_blocks:
  assumes "consumed_in m i" "rq_approval_id q = Some i" "i \<noteq> []"
  shows "el_action (evaluate_strict q now m) = Block"
  using assms by (intro dead_blocks) (auto simp: presents_approval_def consumed_in_def approval_live_def)

lemma authorize_action:
  assumes "authorize env q s = (Inr d, t)" "cur env s = Some m"
  shows "dc_action d = el_action (evaluate_strict q (clock env (clock_reads s)) m)"
  using authorize_effect [OF assms refl refl] by (auto simp: decided_def)

text \<open>\<open>decide\<close> hands a request that carries a strict binding over to \<open>authorize\<close>.\<close>

definition strictly_bound :: "access_request \<Rightarrow> tables \<Rightarrow> bool" where
  "strictly_bound q m \<longleftrightarrow> rq_authorization_mode q = Agent \<or> request_digest_of q \<noteq> None \<or>
     (presents_approval q \<and> (\<exists>a. map_of (approvals m) (the (rq_approval_id q)) = Some a \<and>
        ap_request_digest a \<noteq> None))"

lemma decide_strict:
  assumes "strictly_bound q m" "cur env s = Some m"
  shows "\<exists>s'. decide env q s = authorize env q s' \<and> cur env s' = Some m \<and>
    clock_reads s' = clock_reads s \<and> uuids_used s' = uuids_used s"
proof (cases "rq_authorization_mode q = Agent \<or> request_digest_of q \<noteq> None")
  case True
  then have "decide env q s = authorize env q s" by (auto simp: decide_def)
  with assms(2) show ?thesis by blast
next
  case False
  with assms(1) obtain a where a: "map_of (approvals m) (the (rq_approval_id q)) = Some a"
      "ap_request_digest a \<noteq> None" and p: "presents_approval q"
    by (auto simp: strictly_bound_def)
  define s' where "s' = (if direct env s then s else s\<lparr>mem := m\<rparr>)"
  have view: "view (disk s) = Some m" if "\<not> direct env s"
    using assms(2) that by (simp add: cur_def)
  have r: "read_transaction env (gets (get_approval (the (rq_approval_id q)))) s = (Inr (Some a), s')"
    using a assms(2) view
    by (auto simp: read_transaction_def s'_def direct_def cur_def seq_app load_view get_approval_def)
  have "decide env q s = authorize env q s'"
    using False p a(2)
    by (simp add: decide_def presents_approval_def
        seq_Inr [of "read_transaction env (gets (get_approval (the (rq_approval_id q))))", OF r])
  moreover have "cur env s' = Some m"
    using assms(2) by (cases "direct env s") (simp_all add: s'_def cur_def)
  ultimately show ?thesis by (intro exI [of _ s']) (simp add: s'_def)
qed

lemma is_future_aware: "is_future (Some x) now \<Longrightarrow> (\<And>a. x = Aware a \<Longrightarrow> now < a \<Longrightarrow> P) \<Longrightarrow> P"
  by (cases x) auto

lemma check_approval_delegation:
  "el_action (check_approval q now t ag del) \<noteq> Block \<Longrightarrow>
   el_delegation (check_approval q now t ag del) = del"
proof (cases "presents_approval q")
  case True
  assume nb: "el_action (check_approval q now t ag del) \<noteq> Block"
  then obtain a where a: "approval_live q now t a"
    using check_approval_dead [OF True] by blast
  with nb show ?thesis by (cases "ap_status a") (auto simp: check_approval_simps)
qed (simp add: check_approval_simps)

lemma approval_limit_bounds:
  assumes "approval_limit env now del = Inr limit"
    and "case del of Some dg \<Rightarrow> is_aware (dg_expires_at dg) | None \<Rightarrow> True"
  shows "\<exists>l. limit = Aware l \<and> l \<le> now + approval_ttl_seconds env * 1000000 \<and>
    (case del of Some dg \<Rightarrow> l \<le> micros (dg_expires_at dg) | None \<Rightarrow> True)"
proof (cases del)
  case (Some dg)
  with assms show ?thesis by (cases "dg_expires_at dg") (auto simp: approval_limit_def)
qed (use assms in \<open>auto simp: approval_limit_def\<close>)

subsection \<open>The operation returns\<close>

lemma issue_token_run:
  assumes "request_bound q" "case del of Some d \<Rightarrow> is_aware (dg_expires_at d) | None \<Rightarrow> True"
  shows "\<exists>tk t. issue_token env q del s = (Inr tk, t)"
proof (cases del)
  case (Some d)
  with assms obtain x where "dg_expires_at d = Aware x" by (cases "dg_expires_at d") auto
  with assms(1) Some show ?thesis
    by (auto simp: issue_token_def seq_app utc_now_def token_urlsafe_def request_bound_def)
qed (use assms in \<open>auto simp: issue_token_def seq_app utc_now_def token_urlsafe_def request_bound_def\<close>)

lemma open_approval_run:
  assumes "request_bound q" "case del of Some d \<Rightarrow> is_aware (dg_expires_at d) | None \<Rightarrow> True"
    and "direct env s"
  shows "\<exists>a t. open_approval env q del now s = (Inr a, t)"
proof -
  obtain dig where dig: "digest_field (request_digest_of q) = Inr (Some dig)"
    using assms(1) by (auto simp: request_bound_def)
  obtain limit where "approval_limit env now del = Inr limit"
  proof (cases del)
    case (Some d)
    with assms(2) obtain x where "dg_expires_at d = Aware x" by (cases "dg_expires_at d") auto
    with Some that show ?thesis by (simp add: approval_limit_def)
  qed (use that in \<open>simp add: approval_limit_def\<close>)
  with dig assms(3) show ?thesis
    by (simp add: open_approval_def seq_app new_id_def Let_def upsert_approval_def audit_def
        utc_now_def append_audit_event_def)
qed

lemma consume_approval_run: "direct env s \<Longrightarrow> \<exists>b t. consume_approval env a now s = (Inr b, t)"
  by (simp add: consume_approval_def seq_app Let_def upsert_approval_def audit_def new_id_def
      utc_now_def append_audit_event_def)

lemma settle_run:
  assumes "direct env s" "e = evaluate_strict q now m"
  shows "\<exists>x t. settle env q e now s = (Inr x, t)"
proof (cases rule: evaluate_strict_cases [of q now m])
  case refused
  with assms(2) have "settle env q e now s = (Inr (el_approval e, None), s)"
    by (intro settle_other) simp
  then show ?thesis by blast
next
  case (admitted ag del)
  have del: "case del of Some d \<Rightarrow> is_aware (dg_expires_at d) | None \<Rightarrow> True"
    using admitted(3) by (auto simp: context_admits_def split: option.splits elim!: is_future_aware)
  consider "el_action e = Block \<or> el_action e = Approval_required \<and> el_approval e \<noteq> None"
    | (opens) "el_action e = Approval_required" "el_approval e = None" "el_delegation e = del"
    | (allows) "el_action e = Allow" "el_delegation e = del"
    using check_approval_delegation [of q now m ag del] admitted(4) assms(2)
    by (cases "el_action e") auto
  then show ?thesis
  proof cases
    case 1
    from settle_other [OF this] show ?thesis by blast
  next
    case opens
    with open_approval_run [OF admitted(1) del assms(1), of now] show ?thesis
      by (auto simp: settle_def seq_app)
  next
    case allows
    note tok = issue_token_run [OF admitted(1) del]
    show ?thesis
    proof (cases "el_approval e")
      case None
      with allows tok [of env s] show ?thesis by (auto simp: settle_def seq_app)
    next
      case (Some a)
      obtain b t where "consume_approval env a now s = (Inr b, t)"
        using consume_approval_run [OF assms(1)] by blast
      with Some allows tok [of env t] show ?thesis by (auto simp: settle_def seq_app)
    qed
  qed
qed

lemma authorize_body_returns:
  assumes "direct env s"
  shows "\<exists>d t. authorize_body env q s = (Inr d, t)"
proof -
  let ?now = "clock env (clock_reads s)"
  let ?s = "s\<lparr>clock_reads := Suc (clock_reads s)\<rparr>"
  let ?e = "evaluate_strict q ?now (mem s)"
  obtain apv tok s1 where se: "settle env q ?e ?now ?s = (Inr (apv, tok), s1)"
    using settle_run [of env ?s ?e q ?now "mem s"] assms by auto
  then have "direct env s1"
    using settle_depth [of env q ?now ?s] assms by (simp add: direct_def)
  with se show ?thesis
    by (simp add: authorize_body_def seq_app utc_now_def strict_decision_def new_id_def
        audit_def append_audit_event_def)
qed

lemma authorize_returns:
  assumes "cur env s = Some m" "\<forall>n. write_outcome_of env n = Write_ok"
  shows "\<exists>d t. authorize env q s = (Inr d, t)"
proof (cases "direct env s")
  case True
  with authorize_body_returns show ?thesis by (simp add: authorize_def transaction_direct)
next
  case False
  then have fs: "file_store env" "depth s = 0" and v: "view (disk s) = Some m"
    using assms(1) by (simp_all add: direct_def cur_def)
  have "direct env (s\<lparr>mem := m, depth := 1, dirty := False\<rparr>)" by (simp add: direct_def)
  from authorize_body_returns [OF this] obtain d t where
      "authorize_body env q (s\<lparr>mem := m, depth := 1, dirty := False\<rparr>) = (Inr d, t)"
    by blast
  with fs v assms(2) show ?thesis
    by (simp add: authorize_def transaction_def load_view seq_app commit_def persist_def Let_def
        reload_on_error_def end_transaction_def del: One_nat_def)
qed

end
