(* ===== verification/Broker_Runs.thy ===== *)
theory Broker_Runs
  imports Broker_Safety
begin

text \<open>
  Approvals over any run of operations of several processes on one broker file: two
  interpretations of the step-invariant interface, \<open>consumed_run\<close> and \<open>denied_run\<close>, and
  what an approval in one of these states means for the next decision.
\<close>

subsection \<open>Approvals over runs of several processes\<close>

text \<open>Ids that some process could still hand out to a new approval.\<close>

definition fresh_in :: "(nat \<Rightarrow> broker_env) \<Rightarrow> cluster \<Rightarrow> pystr \<Rightarrow> bool" where
  "fresh_in envs c i \<longleftrightarrow> (\<exists>p. minted (envs p) (uuids_used (locals c p)) i)"

text \<open>Every process is between operations on the one file, which loads.\<close>

definition cluster_ok :: "(nat \<Rightarrow> broker_env) \<Rightarrow> cluster \<Rightarrow> bool" where
  "cluster_ok envs c \<longleftrightarrow> (\<forall>p. file_store (envs p) \<and> depth (locals c p) = 0) \<and>
     (\<exists>t. view (shared c) = Some t \<and> keys_ok t)"

definition at_process :: "cluster \<Rightarrow> nat \<Rightarrow> bstate" where
  "at_process c p = (locals c p)\<lparr>disk := shared c\<rparr>"

lemma cluster_step_moves:
  assumes "cluster_ok envs c" "view (shared c) = Some t"
  shows "\<exists>t'. view (shared (cluster_step envs c (p, op))) = Some t' \<and>
    table_steps (minted (envs p) (uuids_used (locals c p))) t t' \<and>
    depth (locals (cluster_step envs c (p, op)) p) = 0 \<and>
    uuids_used (locals c p) \<le> uuids_used (locals (cluster_step envs c (p, op)) p)"
proof -
  let ?s = "(locals c p)\<lparr>disk := shared c\<rparr>"
  have mv: "moves (envs p) (uuids_used (locals c p)) ?s (broker_step (envs p) ?s op)"
    by (rule broker_step_moves) simp
  have fs: "file_store (envs p)" "depth (locals c p) = 0"
    using assms(1) by (simp_all add: cluster_ok_def)
  then have "cur (envs p) ?s = Some t"
    using assms(2) by (simp add: cur_def direct_def)
  from moves_cur [OF mv this] mv fs show ?thesis
    by (auto simp: cur_def direct_def moves_def Let_def)
qed

lemma cluster_step_other: "p' \<noteq> p \<Longrightarrow> locals (cluster_step envs c (p, op)) p' = locals c p'"
  by (simp add: Let_def)

lemma cluster_step_ok:
  assumes "cluster_ok envs c"
  shows "cluster_ok envs (cluster_step envs c e)"
proof -
  obtain p op where e: "e = (p, op)" by fastforce
  obtain t where t: "view (shared c) = Some t" "keys_ok t"
    using assms by (auto simp: cluster_ok_def)
  from cluster_step_moves [OF assms t(1), of p op] obtain t' where
      t': "view (shared (cluster_step envs c (p, op))) = Some t'"
      "table_steps (minted (envs p) (uuids_used (locals c p))) t t'"
      "depth (locals (cluster_step envs c (p, op)) p) = 0"
    by blast
  have "depth (locals (cluster_step envs c (p, op)) p') = 0" for p'
    using t'(3) assms by (cases "p' = p") (simp_all add: cluster_step_other cluster_ok_def del: cluster_step.simps)
  then show ?thesis
    using steps_keys_ok [OF t'(2) t(2)] t'(1) assms
    by (simp add: e cluster_ok_def del: cluster_step.simps)
qed

lemma fresh_step:
  assumes "cluster_ok envs c" "fresh_in envs (cluster_step envs c (p, op)) i"
  shows "fresh_in envs c i"
proof -
  obtain t where t: "view (shared c) = Some t"
    using assms(1) by (auto simp: cluster_ok_def)
  from assms(2) obtain r where r: "minted (envs r) (uuids_used (locals (cluster_step envs c (p, op)) r)) i"
    by (auto simp: fresh_in_def)
  have "uuids_used (locals c r) \<le> uuids_used (locals (cluster_step envs c (p, op)) r)"
    using cluster_step_moves [OF assms(1) t, of p op]
    by (cases "r = p") (auto simp: cluster_step_other simp del: cluster_step.simps)
  with r show ?thesis by (auto simp: fresh_in_def intro: minted_mono)
qed

definition consumed_inv :: "(nat \<Rightarrow> broker_env) \<Rightarrow> pystr \<Rightarrow> cluster \<Rightarrow> bool" where
  "consumed_inv envs i c \<longleftrightarrow> cluster_ok envs c \<and> \<not> fresh_in envs c i \<and>
     (\<exists>t. view (shared c) = Some t \<and> consumed_in t i)"

definition denied_inv :: "(nat \<Rightarrow> broker_env) \<Rightarrow> pystr \<Rightarrow> cluster \<Rightarrow> bool" where
  "denied_inv envs i c \<longleftrightarrow> cluster_ok envs c \<and> \<not> fresh_in envs c i \<and>
     (\<exists>t a. view (shared c) = Some t \<and> map_of (approvals t) i = Some a \<and>
        ap_status a = Denied \<and> ap_request_digest a \<noteq> None)"

lemma cluster_view:
  assumes "cluster_ok envs c" "view (shared c) = Some t"
  shows "keys_ok t" "cur (envs p) (at_process c p) = Some t" "\<not> direct (envs p) (at_process c p)"
  using assms by (auto simp: cluster_ok_def cur_def direct_def at_process_def)

interpretation consumed_run: step_invariant "cluster_step envs" "consumed_inv envs i" for envs i
proof
  fix c and e :: "nat \<times> broker_op"
  assume inv: "consumed_inv envs i c"
  obtain p op where e: "e = (p, op)" by fastforce
  from inv obtain t where t: "cluster_ok envs c" "\<not> fresh_in envs c i"
      "view (shared c) = Some t" "consumed_in t i"
    by (auto simp: consumed_inv_def)
  from cluster_step_moves [OF t(1,3), of p op] obtain t' where
      t': "view (shared (cluster_step envs c (p, op))) = Some t'"
      "table_steps (minted (envs p) (uuids_used (locals c p))) t t'"
    by blast
  have "consumed_in t' i"
    using steps_consumed [OF t'(2) cluster_view(1) [OF t(1,3)] _ t(4)] t(2)
    by (auto simp: fresh_in_def)
  with t t'(1) cluster_step_ok [OF t(1), of "(p, op)"] show "consumed_inv envs i (cluster_step envs c e)"
    by (auto simp: e consumed_inv_def simp del: cluster_step.simps dest: fresh_step)
qed

interpretation denied_run: step_invariant "cluster_step envs" "denied_inv envs i" for envs i
proof
  fix c and e :: "nat \<times> broker_op"
  assume inv: "denied_inv envs i c"
  obtain p op where e: "e = (p, op)" by fastforce
  from inv obtain t a where t: "cluster_ok envs c" "\<not> fresh_in envs c i"
      "view (shared c) = Some t" "map_of (approvals t) i = Some a" "ap_status a = Denied"
      "ap_request_digest a \<noteq> None"
    by (auto simp: denied_inv_def)
  from cluster_step_moves [OF t(1,3), of p op] obtain t' where
      t': "view (shared (cluster_step envs c (p, op))) = Some t'"
      "table_steps (minted (envs p) (uuids_used (locals c p))) t t'"
    by blast
  have "\<not> minted (envs p) (uuids_used (locals c p)) i"
    using t(2) by (auto simp: fresh_in_def)
  from steps_binding [OF t'(2) cluster_view(1) [OF t(1,3)] this t(4,6)] obtain b where
      "map_of (approvals t') i = Some b" "same_binding a b"
    by blast
  with t t'(1) cluster_step_ok [OF t(1), of "(p, op)"] show "denied_inv envs i (cluster_step envs c e)"
    by (auto simp: e denied_inv_def same_binding_def simp del: cluster_step.simps dest: fresh_step)
qed

text \<open>The first authorization: the approval it was allowed on is consumed in the file.\<close>

lemma authorize_consumes:
  assumes run: "authorize env q s = (Inr d, t)" and cur: "cur env s = Some m"
    and keys: "keys_ok m" and "dc_action d = Allow" and q: "rq_approval_id q = Some i" "i \<noteq> []"
  shows "\<exists>m'. cur env t = Some m' \<and> consumed_in m' i"
proof -
  let ?now = "clock env (clock_reads s)"
  let ?e = "evaluate_strict q ?now m"
  from authorize_effect [OF run cur refl refl] obtain apv tok s1 s2 ev where
      eff: "direct env s1" "mem s1 = m" "settle env q ?e ?now s1 = (Inr (apv, tok), s2)"
      "decided q ?e tok apv d" "cur env t = Some (add_audit ev (mem s2))"
    by blast
  have allow: "el_action ?e = Allow" using eff(4) assms(4) by (simp add: decided_def)
  then obtain a where a: "approval_live q ?now m a"
    using evaluate_allow_iff_aux [of q ?now m] q by (auto simp: presents_approval_def)
  have st: "ap_status a = Approved"
    using allow evaluate_allow_iff_aux [of q ?now m] q approval_live_unique [OF a]
    by (auto simp: presents_approval_def)
  have "el_approval ?e = Some a"
    using allow a st by (cases rule: evaluate_strict_cases [of q ?now m]) (auto simp: check_approval_simps)
  with settle_allow [OF allow eff(1,3)] eff(2) obtain ev' where
      "mem s2 = add_audit ev' (put_approval (a\<lparr>ap_consumed_at := Some (Aware ?now)\<rparr>) m)"
    by auto
  moreover have "ap_approval_id a = i" "ap_request_digest a \<noteq> None"
    using a q keys by (auto simp: approval_live_def keys_ok_def)
  ultimately show ?thesis using eff(5) by (auto simp: consumed_in_def)
qed

lemma strict_block:
  assumes "consumed_in m i" "cur env s = Some m" "rq_approval_id q = Some i" "i \<noteq> []"
  shows "authorize env q s = (Inr d, t) \<Longrightarrow> dc_action d = Block"
    and "decide env q s = (Inr d, t) \<Longrightarrow> dc_action d = Block"
proof -
  have blk: "el_action (evaluate_strict q now m) = Block" for now
    using assms by (intro consumed_blocks)
  then show "authorize env q s = (Inr d, t) \<Longrightarrow> dc_action d = Block"
    using authorize_action assms(2) by fastforce
  have "strictly_bound q m"
    using assms by (auto simp: strictly_bound_def consumed_in_def presents_approval_def)
  from decide_strict [OF this assms(2)] obtain s' where
      "decide env q s = authorize env q s'" "cur env s' = Some m"
    by blast
  with blk show "decide env q s = (Inr d, t) \<Longrightarrow> dc_action d = Block"
    using authorize_action by fastforce
qed

lemma denied_block:
  assumes "map_of (approvals m) i = Some a" "ap_status a = Denied" "ap_request_digest a \<noteq> None"
    and "cur env s = Some m" "rq_approval_id q = Some i" "i \<noteq> []"
  shows "authorize env q s = (Inr d, t) \<Longrightarrow> dc_action d = Block"
    and "decide env q s = (Inr d, t) \<Longrightarrow> dc_action d = Block"
proof -
  have p: "presents_approval q" using assms by (simp add: presents_approval_def)
  have blk: "el_action (evaluate_strict q now m) = Block" for now
  proof (cases rule: evaluate_strict_cases [of q now m])
    case (admitted ag del)
    show ?thesis
    proof (cases "approval_live q now m a")
      case True
      with admitted(4) assms(2) show ?thesis by (simp add: check_approval_simps)
    next
      case False
      then have "\<nexists>b. approval_live q now m b"
        using assms by (auto simp: approval_live_def)
      with p show ?thesis by (rule dead_blocks)
    qed
  qed
  then show "authorize env q s = (Inr d, t) \<Longrightarrow> dc_action d = Block"
    using authorize_action assms(4) by fastforce
  have "strictly_bound q m"
    using assms p by (auto simp: strictly_bound_def)
  from decide_strict [OF this assms(4)] obtain s' where
      "decide env q s = authorize env q s'" "cur env s' = Some m"
    by blast
  with blk show "decide env q s = (Inr d, t) \<Longrightarrow> dc_action d = Block"
    using authorize_action by fastforce
qed

lemma cluster_run_ok: "cluster_ok envs c \<Longrightarrow> cluster_ok envs (foldl (cluster_step envs) c ops)"
  by (induction ops arbitrary: c) (auto simp: cluster_step_ok simp del: cluster_step.simps)

lemma cluster_run_audit:
  assumes "cluster_ok envs c" "view (shared c) = Some t"
  shows "\<exists>t' es. view (shared (foldl (cluster_step envs) c ops)) = Some t' \<and>
    audit_events t' = audit_events t @ es"
  using assms
proof (induction ops arbitrary: c t)
  case Nil
  then show ?case by auto
next
  case (Cons e ops)
  obtain p op where e: "e = (p, op)" by fastforce
  from cluster_step_moves [OF Cons.prems, of p op] obtain t1 where
      t1: "view (shared (cluster_step envs c (p, op))) = Some t1"
      "table_steps (minted (envs p) (uuids_used (locals c p))) t t1"
    by blast
  from steps_audit [OF t1(2)] obtain es1 where es1: "audit_events t1 = audit_events t @ es1"
    by blast
  from Cons.IH [OF cluster_step_ok [OF Cons.prems(1)] t1(1)] obtain t' es where
      "view (shared (foldl (cluster_step envs) (cluster_step envs c (p, op)) ops)) = Some t'"
      "audit_events t' = audit_events t1 @ es"
    by blast
  with es1 show ?case by (auto simp: e simp del: cluster_step.simps)
qed

text \<open>A transaction between operations: its body ran on the current tables.\<close>

lemma transaction_run:
  assumes "inner_act env body" "depth s = 0" "cur env s = Some m"
    and "transaction env body s = (r, t)"
  shows "\<exists>s' r1 t1. direct env s' \<and> mem s' = m \<and> clock_reads s' = clock_reads s \<and>
    uuids_used s' = uuids_used s \<and> body s' = (r1, t1) \<and>
    (r = r1 \<and> (depth t1 = depth s' \<longrightarrow> (case r1 of
         Inr _ \<Rightarrow> cur env t = Some (mem t1)
       | Inl _ \<Rightarrow> cur env t = Some (if file_store env then m else mem t1))) \<or>
     (\<exists>x. r1 = Inr x) \<and> r = Inl Os_error \<and> file_store env)"
proof (cases "file_store env")
  case False
  then show ?thesis
    using assms by (intro exI [of _ s] exI [of _ r] exI [of _ t])
      (auto simp: transaction_def cur_def direct_def split: sum.split)
next
  case fs: True
  have view: "view (disk s) = Some m"
    using assms(2,3) fs by (simp add: cur_def direct_def)
  let ?u = "s\<lparr>mem := m, depth := 1, dirty := False\<rparr>"
  obtain r1 t1 where b: "body ?u = (r1, t1)" by fastforce
  note out = transaction_body.outcome [OF transaction_body.intro [OF assms(1)] fs assms(2) view b assms(4)]
  then show ?thesis
    using fs b view
    by (intro exI [of _ ?u] exI [of _ r1] exI [of _ t1])
      (auto simp: cur_def direct_def split: sum.split)
qed

subsection \<open>One review\<close>

lemma review_missing:
  "map_of (approvals (mem s)) i = None \<Longrightarrow>
   review_body env i p st ty s = (Inl (Value_error ''Unknown approval_id''), s)"
  by (simp add: review_body_def seq_app get_approval_def)

lemma review_refused:
  assumes "map_of (approvals (mem s)) i = Some a" "ap_request_digest a \<noteq> None"
    "ap_consumed_at a \<noteq> None \<or> ap_status a \<noteq> Pending"
  shows "review_body env i p st ty s =
    (Inl (Value_error ''Strict approval is already decided or consumed.''),
     s\<lparr>clock_reads := Suc (clock_reads s)\<rparr>)"
  using assms by (auto simp: review_body_def seq_app get_approval_def utc_now_def)

lemma review_expired:
  assumes "map_of (approvals (mem s)) i = Some a" "ap_request_digest a \<noteq> None"
    "\<not> (ap_consumed_at a \<noteq> None \<or> ap_status a \<noteq> Pending)"
    "\<not> is_future (ap_expires_at a) (clock env (clock_reads s))"
  shows "review_body env i p st ty s =
    (Inl (Value_error ''Strict approval has expired.''), s\<lparr>clock_reads := Suc (clock_reads s)\<rparr>)"
  using assms by (simp add: review_body_def seq_app get_approval_def utc_now_def)

lemma review_stored:
  assumes "map_of (approvals (mem s)) i = Some a" "direct env s"
    "ap_request_digest a \<noteq> None \<longrightarrow> \<not> (ap_consumed_at a \<noteq> None \<or> ap_status a \<noteq> Pending) \<and>
       is_future (ap_expires_at a) (clock env (clock_reads s))"
    and a': "a' = a\<lparr>ap_status := st, ap_decided_at := Some (Aware (clock env (clock_reads s))),
       ap_approver_id := Some (ad_approver_id p), ap_comment := ad_comment p\<rparr>"
  shows "\<exists>ev t. review_body env i p st ty s = (Inr a', t) \<and> depth t = depth s \<and>
    mem t = add_audit ev (put_approval a' (mem s)) \<and> ev_event_type ev = ty \<and>
    ev_payload ev = Approval_payload a'"
proof -
  have "review_body env i p st ty s = seq (upsert_approval env a') (\<lambda>saved.
      seq (audit env ty (Approval_payload saved)) (\<lambda>_. ret saved)) (s\<lparr>clock_reads := Suc (clock_reads s)\<rparr>)"
    using assms(1,3) unfolding a'
    by (auto simp: review_body_def seq_app [where m = "gets f" for f] seq_app [where m = "utc_now e" for e]
        get_approval_def utc_now_def Let_def)
  then show ?thesis
    using assms(2)
    by (auto simp: seq_app upsert_approval_def audit_def new_id_def append_audit_event_def utc_now_def)
qed

lemma reviewed_twice:
  assumes "map_of (approvals m) i = Some a" "ap_status a \<noteq> Pending" "ap_request_digest a \<noteq> None"
    and "cur env s = Some m" "depth s = 0"
  shows "\<exists>e t. set_approval_status env i p st ty s = (Inl e, t)"
proof -
  obtain r t where run: "transaction env (review_body env i p st ty) s = (r, t)" by fastforce
  from transaction_run [OF inner_review_body assms(5,4) run] obtain s' r1 t1 where
      s': "mem s' = m" "review_body env i p st ty s' = (r1, t1)" "r = r1 \<or> (\<exists>x. r1 = Inr x)"
    by blast
  have "r1 = Inl (Value_error ''Strict approval is already decided or consumed.'')"
    using review_refused [of s' i a env p st ty] assms(1-3) s'(1,2) by simp
  with s'(3) run show ?thesis by (simp add: set_approval_status_eq)
qed

end
