(* ===== verification/Broker_Properties.thy ===== *)
theory Broker_Properties
  imports Broker_Runs
begin

text \<open>
  The guarantees of the Access Broker, each with the witness that applies it to a small
  configuration: one agent, one strict approval, two processes on one file.
\<close>

subsection \<open>A configuration for the witnesses\<close>

definition demo_env :: broker_env where
  "demo_env = \<lparr>file_store = True, token_ttl_seconds = 300, approval_ttl_seconds = 600,
     clock = (\<lambda>n. int n * 1000000), uuid_hex = (\<lambda>n. [n]), token_bytes = (\<lambda>n. [n]),
     write_outcome_of = (\<lambda>_. Write_ok)\<rparr>"

definition demo_agent :: agent_record where
  "demo_agent = \<lparr>ag_agent_id = uni ''ops'', ag_tenant_id = Some (uni ''acme''),
     ag_owner_id = uni ''alice'', ag_sponsor_id = None, ag_runtime = uni ''cli'', ag_model = None,
     ag_allow_autonomous = True, ag_allowed_actions = [uni ''deploy'', uni ''read''],
     ag_allowed_tools = [uni ''mcp''], ag_allowed_resources = [uni ''prod''],
     ag_risk_tier = Risk_low, ag_enabled = True, ag_metadata = [], ag_created_at = Aware 0\<rparr>"

definition demo_digest :: pystr where
  "demo_digest = replicate 64 97"

definition demo_request :: "string \<Rightarrow> pystr option \<Rightarrow> access_request" where
  "demo_request act apv = \<lparr>rq_authorization_mode = Agent, rq_tenant_id = Some (uni ''acme''),
     rq_user_id = [], rq_agent_id = uni ''ops'', rq_agent_instance_id = None,
     rq_delegation_id = [], rq_task_id = [], rq_tool_name = uni ''mcp'',
     rq_resource_id = uni ''prod'', rq_requested_action = uni act, rq_approval_id = apv,
     rq_risk_score = None, rq_metadata = [(uni ''request_digest'', JStr demo_digest)]\<rparr>"

definition demo_approval :: "approval_status \<Rightarrow> approval_record" where
  "demo_approval st = (strict_approval (demo_request ''deploy'' None) (uni ''apv_demo'')
     (Some demo_digest) (Aware 600000000) 0)\<lparr>ap_status := st\<rparr>"

definition demo_tables :: "approval_status \<Rightarrow> tables" where
  "demo_tables st = \<lparr>agents = [(uni ''ops'', demo_agent)], delegations = [],
     approvals = [(uni ''apv_demo'', demo_approval st)], audit_events = []\<rparr>"

definition demo_state :: "approval_status \<Rightarrow> bstate" where
  "demo_state st = \<lparr>mem = empty_tables, disk = Snapshot (demo_tables st), depth = 0,
     dirty = False, clock_reads = 0, uuids_used = 0, tokens_used = 0, writes = 0\<rparr>"

definition demo_cluster :: "approval_status \<Rightarrow> cluster" where
  "demo_cluster st = \<lparr>shared = Snapshot (demo_tables st), locals = (\<lambda>_. demo_state st)\<rparr>"

text \<open>What the witnesses observe of a run.\<close>

definition action_of :: "access_decision result \<times> bstate \<Rightarrow> access_action option" where
  "action_of rs = (case fst rs of Inr d \<Rightarrow> Some (dc_action d) | Inl _ \<Rightarrow> None)"

lemma action_ofE:
  assumes "action_of rs = Some a"
  obtains d t where "rs = (Inr d, t)" "dc_action d = a"
  using assms by (cases rs) (auto simp: action_of_def split: sum.splits)

lemma demo_keys: "keys_ok (demo_tables st)"
  by (simp add: demo_tables_def keys_ok_def demo_approval_def strict_approval_def)

lemma demo_cluster_ok: "cluster_ok (\<lambda>_. demo_env) (demo_cluster st)"
  by (simp add: cluster_ok_def demo_cluster_def demo_env_def demo_state_def demo_keys)

lemma demo_not_fresh: "\<not> fresh_in (\<lambda>_. demo_env) (demo_cluster st) (uni ''apv_demo'')"
  by (auto simp: fresh_in_def minted_def demo_env_def uni_def)

lemma demo_cur: "cur demo_env (demo_state st) = Some (demo_tables st)"
  by (simp add: cur_def direct_def demo_env_def demo_state_def)

lemma demo_tenant: "py_strip (uni ''acme'') \<noteq> []"
  by (simp add: py_strip_def strip_by_def uni_def is_space_def)

lemma demo_sha: "sha256_hex demo_digest"
  by (simp add: sha256_hex_def demo_digest_def is_hex_def list_all_iff)

lemmas demo_defs = demo_request_def demo_agent_def demo_tables_def demo_approval_def
  strict_approval_def demo_state_def demo_cluster_def at_process_def demo_env_def

lemmas broker_run_defs = authorize_def transaction_def load_def authorize_body_def utc_now_def
  evaluate_strict_def valid_digest_def request_digest_of_def check_agent_def check_context_def
  check_approval_def matches_scope_def matches_def settle_def consume_approval_def
  open_approval_def upsert_approval_def audit_def new_id_def append_audit_event_def
  write_tables_def issue_token_def token_urlsafe_def strict_decision_def decision_record_def
  end_transaction_def reload_on_error_def commit_def persist_def requires_approval_def
  HIGH_RISK_ACTIONS_def put_approval_def add_audit_def approval_limit_def

lemma demo_runs:
  "action_of (authorize demo_env (demo_request ''deploy'' (Some (uni ''apv_demo'')))
     (at_process (demo_cluster Approved) 0)) = Some Allow"
  "action_of (authorize demo_env (demo_request ''deploy'' None) (demo_state Approved)) =
     Some Approval_required"
  "action_of (authorize demo_env (demo_request ''read'' None) (demo_state Approved)) = Some Allow"
  by (simp_all add: demo_defs broker_run_defs action_of_def seq_app demo_tenant demo_sha Let_def)

subsection \<open>The policy\<close>

text \<open>C1: the strict evaluation allows a request exactly when the declarative policy holds.
  The request carries a tenant and a SHA-256 digest; the agent is registered in that tenant,
  enabled, and may use the tool on the resource; it acts for itself under an autonomous grant,
  or for the user of a live delegation that names the same user, agent and task and covers the
  resource and the action; and either it presents an approval bound to this very request,
  unexpired, unused and approved, or it presents none and the action is not a high-risk one.\<close>

theorem evaluate_strict_allow_iff:
  "el_action (evaluate_strict q now t) = Allow \<longleftrightarrow>
     request_bound q \<and> (\<exists>ag del. agent_admits q t ag \<and> context_admits q now t ag del \<and>
       (if presents_approval q then \<exists>a. approval_live q now t a \<and> ap_status a = Approved
        else \<not> requires_approval ag q))"
  by (rule evaluate_allow_iff_aux)

text \<open>C3: when \<open>authorize\<close> allows a request, the policy holds in the tables it ran on, and it
  has written exactly this to them: the approval it was allowed on, if any, now consumed and
  audited, and the audit event that carries the decision.\<close>

theorem authorize_allow_effect:
  assumes "authorize env q s = (Inr d, t)" and "cur env s = Some m" and "dc_action d = Allow"
  shows "\<exists>ag del ev. request_bound q \<and> agent_admits q m ag \<and>
    context_admits q (clock env (clock_reads s)) m ag del \<and>
    ev_event_type ev = ''access.decision'' \<and> ev_payload ev = Decision_payload d None \<and>
    (if presents_approval q
     then \<exists>a a' ev'. approval_live q (clock env (clock_reads s)) m a \<and> ap_status a = Approved \<and>
       a' = a\<lparr>ap_consumed_at := Some (Aware (clock env (clock_reads s)))\<rparr> \<and>
       dc_approval d = Some a' \<and>
       cur env t = Some (add_audit ev (add_audit ev' (put_approval a' m)))
     else \<not> requires_approval ag q \<and> dc_approval d = None \<and> cur env t = Some (add_audit ev m))"
proof -
  let ?now = "clock env (clock_reads s)"
  let ?e = "evaluate_strict q ?now m"
  from authorize_effect [OF assms(1,2) refl refl] obtain apv tok s1 s2 ev where
      eff: "direct env s1" "mem s1 = m" "settle env q ?e ?now s1 = (Inr (apv, tok), s2)"
      "decided q ?e tok apv d" "cur env t = Some (add_audit ev (mem s2))"
      "ev_event_type ev = ''access.decision''" "ev_payload ev = Decision_payload d None"
    by blast
  have allow: "el_action ?e = Allow" using eff(4) assms(3) by (simp add: decided_def)
  note settled = settle_allow [OF allow eff(1,3)]
  from allow evaluate_allow_iff_aux [of q ?now m] obtain ag del where
      pol: "request_bound q" "agent_admits q m ag" "context_admits q ?now m ag del" and
      gate: "if presents_approval q then \<exists>a. approval_live q ?now m a \<and> ap_status a = Approved
        else \<not> requires_approval ag q"
    by blast
  show ?thesis
  proof (cases "presents_approval q")
    case True
    then obtain a where a: "approval_live q ?now m a" "ap_status a = Approved"
      using gate by auto
    have "el_approval ?e = Some a"
      using allow a by (cases rule: evaluate_strict_cases [of q ?now m]) (auto simp: check_approval_simps)
    with settled eff(2) obtain ev' where
        "apv = Some (a\<lparr>ap_consumed_at := Some (Aware ?now)\<rparr>)"
        "mem s2 = add_audit ev' (put_approval (a\<lparr>ap_consumed_at := Some (Aware ?now)\<rparr>) m)"
      by auto
    with eff(4-7) allow pol a True show ?thesis
      by (intro exI [of _ ag] exI [of _ del] exI [of _ ev])
        (simp add: decided_def, intro exI [of _ a] conjI exI [of _ ev'], simp_all)
  next
    case False
    then have "el_approval ?e = None"
      using allow by (cases rule: evaluate_strict_cases [of q ?now m]) (auto simp: check_approval_simps)
    with settled eff allow pol gate False show ?thesis
      by (intro exI [of _ ag] exI [of _ del] exI [of _ ev]) (auto simp: decided_def)
  qed
qed

lemma authorize_allow_effect_witness:
  "\<exists>d t ev. authorize demo_env (demo_request ''read'' None) (demo_state Approved) = (Inr d, t) \<and>
     cur demo_env t = Some (add_audit ev (demo_tables Approved))"
proof -
  obtain d t where "authorize demo_env (demo_request ''read'' None) (demo_state Approved) = (Inr d, t)"
      "dc_action d = Allow"
    using demo_runs(3) by (rule action_ofE)
  with authorize_allow_effect [OF this(1) demo_cur this(2)] show ?thesis
    by (auto simp: presents_approval_def demo_request_def)
qed

text \<open>C5: a decision carries a token exactly when it allows the request, and the token is bound
  to the request: its tenant, its digest, one scope made of the resource and the action.  It
  expires within \<open>token_ttl_seconds\<close> of a clock reading taken during the call, and, for a
  delegated request, no later than the delegation.\<close>

theorem authorize_token_bounds:
  assumes "authorize env q s = (Inr d, t)" and "cur env s = Some m"
  shows "(dc_token d \<noteq> None \<longleftrightarrow> dc_action d = Allow) \<and>
    (\<forall>tk. dc_token d = Some tk \<longrightarrow> (\<exists>ag del k.
       context_admits q (clock env (clock_reads s)) m ag del \<and>
       tk_tenant_id tk = rq_tenant_id q \<and>
       map_option JStr (tk_request_digest tk) = request_digest_of q \<and>
       tk_scopes tk = [rq_resource_id q @ uni '':'' @ rq_requested_action q] \<and>
       is_aware (tk_expires_at tk) \<and>
       clock_reads s < k \<and> k \<le> clock_reads s + 2 \<and>
       micros (tk_expires_at tk) \<le> clock env k + token_ttl_seconds env * 1000000 \<and>
       (case del of Some dg \<Rightarrow> micros (tk_expires_at tk) \<le> micros (dg_expires_at dg)
        | None \<Rightarrow> True)))"
proof -
  let ?now = "clock env (clock_reads s)"
  let ?e = "evaluate_strict q ?now m"
  from authorize_effect [OF assms refl refl] obtain apv tok s1 s2 where
      eff: "direct env s1" "mem s1 = m" "clock_reads s1 = Suc (clock_reads s)"
      "settle env q ?e ?now s1 = (Inr (apv, tok), s2)" "decided q ?e tok apv d"
    by blast
  show ?thesis
  proof (cases "el_action ?e = Allow")
    case False
    then have "tok = None"
      using settle_open [OF _ _ eff(1,4)] settle_other [of ?e env q ?now s1] eff(4)
      by (cases "el_action ?e"; cases "el_approval ?e") auto
    with False eff(5) show ?thesis by (simp add: decided_def)
  next
    case allow: True
    from settle_allow [OF allow eff(1,4)] obtain tk s3 where
        tk: "tok = Some tk" "issue_token env q (el_delegation ?e) s3 = (Inr tk, s2)"
        "Suc (clock_reads s) \<le> clock_reads s3" "clock_reads s3 \<le> Suc (Suc (clock_reads s))"
      using eff(3) by auto
    obtain ag del where pol: "request_bound q" "context_admits q ?now m ag del"
        "el_delegation ?e = del"
      using allow by (cases rule: evaluate_strict_cases [of q ?now m])
        (auto simp: check_approval_delegation)
    from issue_token_bounds [OF tk(2)] pol
    have "tk_tenant_id tk = rq_tenant_id q \<and>
       map_option JStr (tk_request_digest tk) = request_digest_of q \<and>
       tk_scopes tk = [rq_resource_id q @ uni '':'' @ rq_requested_action q] \<and>
       is_aware (tk_expires_at tk) \<and>
       micros (tk_expires_at tk) \<le> clock env (clock_reads s3) + token_ttl_seconds env * 1000000 \<and>
       (case del of Some dg \<Rightarrow> micros (tk_expires_at tk) \<le> micros (dg_expires_at dg)
        | None \<Rightarrow> True)"
      by (auto simp: request_bound_def context_admits_def split: option.splits elim!: is_future_aware)
    with tk eff(5) allow pol(2) show ?thesis
      by (simp add: decided_def)
        (intro exI [of _ ag] exI [of _ del] exI [of _ "clock_reads s3"] conjI, simp_all)
  qed
qed

lemma authorize_token_bounds_witness:
  "\<exists>d t tk. authorize demo_env (demo_request ''read'' None) (demo_state Approved) = (Inr d, t) \<and>
     dc_token d = Some tk \<and> tk_tenant_id tk = Some (uni ''acme'')"
proof -
  obtain d t where run: "authorize demo_env (demo_request ''read'' None) (demo_state Approved) = (Inr d, t)"
      "dc_action d = Allow"
    using demo_runs(3) by (rule action_ofE)
  with authorize_token_bounds [OF run(1) demo_cur] show ?thesis
    by (auto simp: demo_request_def)
qed

text \<open>C4: the approval \<open>authorize\<close> opens for a high-risk request is pending, unused and stored
  under its own id; it matches the request, and no request that differs from it in mode,
  tenant, user, agent, delegation, task, tool, resource, action, digest or agent instance; it
  expires within the approval TTL and no later than the delegation.\<close>

theorem authorize_opens_bound_approval:
  assumes "authorize env q s = (Inr d, t)" and "cur env s = Some m"
    and "dc_action d = Approval_required" and "\<not> presents_approval q"
  shows "\<exists>a del limit m'. dc_approval d = Some a \<and> dc_token d = None \<and>
    cur env t = Some m' \<and> map_of (approvals m') (ap_approval_id a) = Some a \<and>
    minted env (uuids_used s) (ap_approval_id a) \<and>
    ap_status a = Pending \<and> ap_consumed_at a = None \<and> ap_request_digest a \<noteq> None \<and>
    (\<forall>q'. matches a q' \<longleftrightarrow>
       rq_authorization_mode q' = rq_authorization_mode q \<and> rq_tenant_id q' = rq_tenant_id q \<and>
       rq_user_id q' = rq_user_id q \<and> rq_agent_id q' = rq_agent_id q \<and>
       rq_delegation_id q' = rq_delegation_id q \<and> rq_task_id q' = rq_task_id q \<and>
       rq_tool_name q' = rq_tool_name q \<and> rq_resource_id q' = rq_resource_id q \<and>
       rq_requested_action q' = rq_requested_action q \<and>
       request_digest_of q' = request_digest_of q \<and>
       rq_agent_instance_id q' = rq_agent_instance_id q) \<and>
    (\<exists>ag. context_admits q (clock env (clock_reads s)) m ag del) \<and>
    ap_expires_at a = Some (Aware limit) \<and>
    limit \<le> clock env (clock_reads s) + approval_ttl_seconds env * 1000000 \<and>
    (case del of Some dg \<Rightarrow> limit \<le> micros (dg_expires_at dg) | None \<Rightarrow> True)"
proof -
  let ?now = "clock env (clock_reads s)"
  let ?e = "evaluate_strict q ?now m"
  from authorize_effect [OF assms(1,2) refl refl] obtain apv tok s1 s2 ev where
      eff: "direct env s1" "mem s1 = m" "uuids_used s1 = uuids_used s"
      "settle env q ?e ?now s1 = (Inr (apv, tok), s2)" "decided q ?e tok apv d"
      "cur env t = Some (add_audit ev (mem s2))"
    by blast
  have act: "el_action ?e = Approval_required" using eff(5) assms(3) by (simp add: decided_def)
  then obtain ag del where pol: "request_bound q" "context_admits q ?now m ag del"
      "el_delegation ?e = del" "el_approval ?e = None"
    using assms(4) by (cases rule: evaluate_strict_cases [of q ?now m])
      (auto simp: check_approval_simps)
  obtain dig where dig: "request_digest_of q = Some (JStr dig)"
    using pol(1) by (auto simp: request_bound_def)
  from settle_open [OF act pol(4) eff(1,4)] dig pol(3) eff(2,3) obtain i lim ev' where
      opened: "tok = None" "apv = Some (strict_approval q i (Some dig) lim ?now)"
      "approval_limit env ?now del = Inr lim" "minted env (uuids_used s) i"
      "mem s2 = add_audit ev' (put_approval (strict_approval q i (Some dig) lim ?now) m)"
    by auto
  from approval_limit_bounds [OF opened(3)] pol(2) obtain l where
      l: "lim = Aware l" "l \<le> ?now + approval_ttl_seconds env * 1000000"
      "case del of Some dg \<Rightarrow> l \<le> micros (dg_expires_at dg) | None \<Rightarrow> True"
    by (auto simp: context_admits_def split: option.splits elim!: is_future_aware)
  let ?a = "strict_approval q i (Some dig) lim ?now"
  have d: "dc_approval d = Some ?a" "dc_token d = None"
    using eff(5) opened act by (simp_all add: decided_def)
  show ?thesis
    by (intro exI [of _ ?a] exI [of _ del] exI [of _ l] exI [of _ "add_audit ev (mem s2)"] conjI)
      (use d eff(6) opened pol l dig in \<open>auto simp: strict_approval_def matches_def\<close>)
qed

lemma authorize_opens_bound_approval_witness:
  "\<exists>d t a. authorize demo_env (demo_request ''deploy'' None) (demo_state Approved) = (Inr d, t) \<and>
     dc_approval d = Some a \<and> ap_status a = Pending"
proof -
  obtain d t where run: "authorize demo_env (demo_request ''deploy'' None) (demo_state Approved) = (Inr d, t)"
      "dc_action d = Approval_required"
    using demo_runs(2) by (rule action_ofE)
  have "\<not> presents_approval (demo_request ''deploy'' None)"
    by (simp add: presents_approval_def demo_request_def)
  from authorize_opens_bound_approval [OF run(1) demo_cur run(2) this] run(1) show ?thesis
    by blast
qed

subsection \<open>One use of an approval, for ever\<close>

text \<open>C2: an approval is good for one authorization.  Once some process has allowed a request on
  approval \<open>i\<close>, then after any operations of any of the processes on the same broker file
  every request that presents \<open>i\<close>, to \<open>authorize\<close> or to \<open>decide\<close> on any process, is
  blocked.  The ids of the processes' UUIDs are assumed not to produce \<open>i\<close> again.\<close>

theorem approval_single_use:
  assumes "cluster_ok envs c" and "\<not> fresh_in envs c i" and "i \<noteq> []"
    and "authorize (envs p) q (at_process c p) = (Inr d, s)"
    and "dc_action d = Allow" and "rq_approval_id q = Some i"
    and "c' = foldl (cluster_step envs) (cluster_step envs c (p, Op_authorize q)) ops"
    and "rq_approval_id q' = Some i"
    and "authorize (envs p') q' (at_process c' p') = (Inr d', s') \<or>
      decide (envs p') q' (at_process c' p') = (Inr d', s')"
  shows "dc_action d' = Block"
proof -
  let ?c1 = "cluster_step envs c (p, Op_authorize q)"
  obtain t where t: "view (shared c) = Some t" "keys_ok t"
    using assms(1) by (auto simp: cluster_ok_def)
  have sh: "shared ?c1 = disk s"
    using assms(4) by (simp add: at_process_def Let_def)
  have loc: "depth (locals ?c1 p) = 0" "file_store (envs p)"
    using cluster_step_ok [OF assms(1), of "(p, Op_authorize q)"] by (simp_all add: cluster_ok_def)
  have "locals ?c1 p = s" using assms(4) by (simp add: at_process_def Let_def)
  with authorize_consumes [OF assms(4) cluster_view(2) [OF assms(1) t(1)] t(2) assms(5,6,3)] loc sh
  have "\<exists>m. view (shared ?c1) = Some m \<and> consumed_in m i"
    by (auto simp: cur_def direct_def)
  then have "consumed_inv envs i ?c1"
    using cluster_step_ok [OF assms(1)] fresh_step [OF assms(1)] assms(2)
    by (auto simp: consumed_inv_def simp del: cluster_step.simps)
  from consumed_run.run_keeps [OF this, of ops] assms(7) obtain m where
      c': "cluster_ok envs c'" "view (shared c') = Some m" "consumed_in m i"
    by (auto simp: consumed_inv_def)
  from strict_block [OF c'(3) cluster_view(2) [OF c'(1,2)] assms(8,3)] assms(9) show ?thesis
    by blast
qed

lemma approval_single_use_witness:
  "\<exists>d s. authorize demo_env (demo_request ''deploy'' (Some (uni ''apv_demo'')))
     (at_process (cluster_step (\<lambda>_. demo_env) (demo_cluster Approved)
        (0, Op_authorize (demo_request ''deploy'' (Some (uni ''apv_demo''))))) 1) = (Inr d, s) \<and>
     dc_action d = Block"
proof -
  let ?q = "demo_request ''deploy'' (Some (uni ''apv_demo''))"
  let ?c = "cluster_step (\<lambda>_. demo_env) (demo_cluster Approved) (0, Op_authorize ?q)"
  obtain d s where first: "authorize demo_env ?q (at_process (demo_cluster Approved) 0) = (Inr d, s)"
      "dc_action d = Allow"
    using demo_runs(1) by (rule action_ofE)
  have ok: "cluster_ok (\<lambda>_. demo_env) ?c" by (rule cluster_step_ok [OF demo_cluster_ok])
  then obtain t where "view (shared ?c) = Some t" by (auto simp: cluster_ok_def)
  from cluster_view(2) [OF ok this, of 1]
  have "cur demo_env (at_process ?c 1) = Some t" .
  moreover have "\<forall>n. write_outcome_of demo_env n = Write_ok" by (simp add: demo_env_def)
  ultimately obtain d' s' where second: "authorize demo_env ?q (at_process ?c 1) = (Inr d', s')"
    using authorize_returns by blast
  have "dc_action d' = Block"
    using approval_single_use [OF demo_cluster_ok demo_not_fresh _ first, of _ "[]" ?q 1 d' s'] second
    by (simp add: demo_request_def del: cluster_step.simps)
  with second show ?thesis by blast
qed

text \<open>C6: a denied strict approval stays denied.  After any operations of any processes on the
  file, every request that presents it is blocked, and neither \<open>approve\<close> nor \<open>deny\<close> changes
  it: both raise.\<close>

theorem denied_approval_is_final:
  assumes "cluster_ok envs c" and "\<not> fresh_in envs c i" and "i \<noteq> []"
    and "view (shared c) = Some t" and "map_of (approvals t) i = Some a"
    and "ap_status a = Denied" and "ap_request_digest a \<noteq> None"
    and "c' = foldl (cluster_step envs) c ops"
  shows "(rq_approval_id q = Some i \<and>
      (authorize (envs p) q (at_process c' p) = (Inr d, s) \<or>
       decide (envs p) q (at_process c' p) = (Inr d, s)) \<longrightarrow> dc_action d = Block) \<and>
    (\<exists>e s'. approve (envs p) i dec (at_process c' p) = (Inl e, s')) \<and>
    (\<exists>e s'. deny (envs p) i dec (at_process c' p) = (Inl e, s'))"
proof -
  have "denied_inv envs i c" using assms(1-7) by (auto simp: denied_inv_def)
  from denied_run.run_keeps [OF this, of ops] assms(8) obtain m b where
      c': "cluster_ok envs c'" "view (shared c') = Some m" and
      b: "map_of (approvals m) i = Some b" "ap_status b = Denied" "ap_request_digest b \<noteq> None"
    by (auto simp: denied_inv_def)
  note cur = cluster_view(2) [OF c', of p]
  have blocks: "rq_approval_id q = Some i \<and>
      (authorize (envs p) q (at_process c' p) = (Inr d, s) \<or>
       decide (envs p) q (at_process c' p) = (Inr d, s)) \<longrightarrow> dc_action d = Block"
    using denied_block [OF b cur _ assms(3)] by blast
  have "depth (at_process c' p) = 0" using c'(1) by (simp add: cluster_ok_def at_process_def)
  then have "\<exists>e s'. set_approval_status (envs p) i dec st ty (at_process c' p) = (Inl e, s')" for st ty
    by (intro reviewed_twice [OF b(1) _ b(3) cur]) (simp_all add: b(2))
  with blocks show ?thesis by (auto simp: approve_def deny_def)
qed

lemma denied_approval_is_final_witness:
  "\<exists>e s. approve demo_env (uni ''apv_demo'')
     \<lparr>ad_approver_id = uni ''carol'', ad_comment = None\<rparr>
     (at_process (foldl (cluster_step (\<lambda>_. demo_env)) (demo_cluster Denied)
        [(1, Op_evaluate (demo_request ''read'' None))]) 2) = (Inl e, s)"
proof -
  have "view (shared (demo_cluster Denied)) = Some (demo_tables Denied)"
      "map_of (approvals (demo_tables Denied)) (uni ''apv_demo'') = Some (demo_approval Denied)"
      "ap_status (demo_approval Denied) = Denied"
      "ap_request_digest (demo_approval Denied) \<noteq> None"
    by (simp_all add: demo_cluster_def demo_tables_def demo_approval_def strict_approval_def)
  from denied_approval_is_final [OF demo_cluster_ok demo_not_fresh _ this refl] show ?thesis
    by (simp del: foldl_Cons foldl_Nil)
qed

text \<open>What a review does.  On the tables of the store, \<open>approve\<close> and \<open>deny\<close> raise on an
  unknown id, on a strict approval that is decided or consumed, and on a strict approval past
  its expiry, and change nothing then; otherwise they store the approval with the new status,
  time, approver and comment, and an audit event, and return it, unless the file cannot be
  written.\<close>

theorem review_functional:
  assumes "set_approval_status env i p st ty s = (r, t)" and "cur env s = Some m"
    and "depth s = 0" and "now = clock env (clock_reads s)"
  shows "case map_of (approvals m) i of
      None \<Rightarrow> r = Inl (Value_error ''Unknown approval_id'') \<and> cur env t = Some m
    | Some a \<Rightarrow>
        (if ap_request_digest a \<noteq> None \<and> (ap_consumed_at a \<noteq> None \<or> ap_status a \<noteq> Pending)
         then r = Inl (Value_error ''Strict approval is already decided or consumed.'') \<and>
           cur env t = Some m
         else if ap_request_digest a \<noteq> None \<and> \<not> is_future (ap_expires_at a) now
         then r = Inl (Value_error ''Strict approval has expired.'') \<and> cur env t = Some m
         else r = Inl Os_error \<and> file_store env \<or>
           (\<exists>a' ev. a' = a\<lparr>ap_status := st, ap_decided_at := Some (Aware now),
                ap_approver_id := Some (ad_approver_id p), ap_comment := ad_comment p\<rparr> \<and>
              r = Inr a' \<and> ev_event_type ev = ty \<and> ev_payload ev = Approval_payload a' \<and>
              cur env t = Some (add_audit ev (put_approval a' m))))"
proof -
  from transaction_run [OF inner_review_body assms(3,2) assms(1) [unfolded set_approval_status_eq]]
  obtain s' r1 t1 where b: "direct env s'" "mem s' = m" "clock_reads s' = clock_reads s"
      "review_body env i p st ty s' = (r1, t1)" and
      out: "r = r1 \<and> (depth t1 = depth s' \<longrightarrow> (case r1 of
         Inr _ \<Rightarrow> cur env t = Some (mem t1)
       | Inl _ \<Rightarrow> cur env t = Some (if file_store env then m else mem t1))) \<or>
     (\<exists>x. r1 = Inr x) \<and> r = Inl Os_error \<and> file_store env"
    by blast
  show ?thesis
  proof (cases "map_of (approvals m) i")
    case None
    with review_missing [of s' i env p st ty] b out show ?thesis by auto
  next
    case (Some a)
    consider (refused) "ap_request_digest a \<noteq> None" "ap_consumed_at a \<noteq> None \<or> ap_status a \<noteq> Pending"
      | (expired) "ap_request_digest a \<noteq> None" "\<not> (ap_consumed_at a \<noteq> None \<or> ap_status a \<noteq> Pending)"
          "\<not> is_future (ap_expires_at a) (clock env (clock_reads s'))"
      | (stored) "ap_request_digest a \<noteq> None \<longrightarrow>
           \<not> (ap_consumed_at a \<noteq> None \<or> ap_status a \<noteq> Pending) \<and>
           is_future (ap_expires_at a) (clock env (clock_reads s'))"
      by blast
    then show ?thesis
    proof cases
      case refused
      with review_refused [of s' i a env p st ty] Some b out show ?thesis by auto
    next
      case expired
      with review_expired [of s' i a env p st ty] Some b out assms(4) show ?thesis by auto
    next
      case stored
      from review_stored [OF _ b(1) stored refl, of i p st ty] Some b(2,4) obtain ev where
          "r1 = Inr (a\<lparr>ap_status := st, ap_decided_at := Some (Aware (clock env (clock_reads s'))),
             ap_approver_id := Some (ad_approver_id p), ap_comment := ad_comment p\<rparr>)"
          "depth t1 = depth s'" "ev_event_type ev = ty"
          "mem t1 = add_audit ev (put_approval (a\<lparr>ap_status := st,
             ap_decided_at := Some (Aware (clock env (clock_reads s'))),
             ap_approver_id := Some (ad_approver_id p), ap_comment := ad_comment p\<rparr>) m)"
          "ev_payload ev = Approval_payload (a\<lparr>ap_status := st,
             ap_decided_at := Some (Aware (clock env (clock_reads s'))),
             ap_approver_id := Some (ad_approver_id p), ap_comment := ad_comment p\<rparr>)"
        by auto
      with Some stored b(3) out assms(4) show ?thesis by auto
    qed
  qed
qed

lemma review_functional_witness:
  "\<exists>t. set_approval_status demo_env (uni ''nope'') \<lparr>ad_approver_id = uni ''carol'', ad_comment = None\<rparr>
     Approved ''access.approval_approved'' (demo_state Pending) =
       (Inl (Value_error ''Unknown approval_id''), t)"
proof -
  obtain r t where run: "set_approval_status demo_env (uni ''nope'')
      \<lparr>ad_approver_id = uni ''carol'', ad_comment = None\<rparr> Approved ''access.approval_approved''
      (demo_state Pending) = (r, t)"
    by fastforce
  have "depth (demo_state Pending) = 0" "map_of (approvals (demo_tables Pending)) (uni ''nope'') = None"
    by (simp_all add: demo_state_def demo_tables_def)
  with review_functional [OF run demo_cur _ refl] run show ?thesis by simp
qed

text \<open>C8: \<open>evaluate\<close> only looks.  It leaves the file, the tables it stands for and the number of
  writes as they were, issues no token and no approval, and its decision is the one
  \<open>authorize\<close> takes from the same state: same action, same reason code.\<close>

theorem evaluate_observes:
  assumes "evaluate env q s = (r, t)" and "cur env s = Some m"
  shows "disk t = disk s \<and> writes t = writes s \<and> cur env t = Some m \<and>
    (\<exists>d. r = Inr d \<and> dc_token d = None \<and> dc_approval d = None \<and>
      (\<forall>d' t'. authorize env q s = (Inr d', t') \<longrightarrow>
        dc_action d' = dc_action d \<and> dc_reason_code d' = dc_reason_code d))"
proof -
  let ?e = "evaluate_strict q (clock env (clock_reads s)) m"
  have run: "disk t = disk s \<and> writes t = writes s \<and> cur env t = Some m \<and>
      (\<exists>d. r = Inr d \<and> dc_token d = None \<and> dc_approval d = None \<and>
         dc_action d = el_action ?e \<and> dc_reason_code d = el_reason_code ?e)"
    using assms
    by (auto simp: evaluate_def read_transaction_def seq_app load_view cur_def direct_def utc_now_def
        strict_decision_def new_id_def decision_record_def split: if_splits)
  have "dc_action d' = el_action ?e \<and> dc_reason_code d' = el_reason_code ?e"
    if "authorize env q s = (Inr d', t')" for d' t'
    using authorize_effect [OF that assms(2) refl refl] by (auto simp: decided_def)
  with run show ?thesis by auto
qed

lemma evaluate_observes_witness:
  "\<exists>d t. evaluate demo_env (demo_request ''read'' None) (demo_state Approved) = (Inr d, t) \<and>
     dc_token d = None \<and> disk t = Snapshot (demo_tables Approved)"
proof -
  obtain r t where run: "evaluate demo_env (demo_request ''read'' None) (demo_state Approved) = (r, t)"
    by fastforce
  from evaluate_observes [OF run demo_cur] run show ?thesis
    by (auto simp: demo_state_def)
qed

text \<open>C7: \<open>decide\<close> does not bypass the strict path.  A request in agent mode, with a digest of any
  kind, or presenting an approval that is strictly bound, is decided by \<open>authorize\<close>, whose
  decision is the strict evaluation's on the current tables.\<close>

theorem decide_uses_strict_path:
  assumes "cur env s = Some m" and "decide env q s = (Inr d, t)"
    and "rq_authorization_mode q = Agent \<or> request_digest_of q \<noteq> None \<or>
      (\<exists>i a. rq_approval_id q = Some i \<and> i \<noteq> [] \<and> map_of (approvals m) i = Some a \<and>
         ap_request_digest a \<noteq> None)"
  shows "(\<exists>s'. cur env s' = Some m \<and> authorize env q s' = (Inr d, t)) \<and>
    dc_action d = el_action (evaluate_strict q (clock env (clock_reads s)) m)"
proof -
  have "strictly_bound q m"
    using assms(3) by (auto simp: strictly_bound_def presents_approval_def)
  from decide_strict [OF this assms(1)] obtain s' where
      s': "decide env q s = authorize env q s'" "cur env s' = Some m" "clock_reads s' = clock_reads s"
    by blast
  then have run: "authorize env q s' = (Inr d, t)" using assms(2) by simp
  from authorize_action [OF run s'(2)] s' run show ?thesis by auto
qed

lemma decide_uses_strict_path_witness:
  "\<exists>d t. decide demo_env (demo_request ''read'' None) (demo_state Approved) = (Inr d, t) \<and>
     dc_action d = el_action (evaluate_strict (demo_request ''read'' None) 0 (demo_tables Approved))"
proof -
  have eq: "decide demo_env (demo_request ''read'' None) (demo_state Approved) =
      authorize demo_env (demo_request ''read'' None) (demo_state Approved)"
    by (simp add: decide_def demo_request_def)
  obtain d t where run: "decide demo_env (demo_request ''read'' None) (demo_state Approved) = (Inr d, t)"
    using demo_runs(3) unfolding eq by (rule action_ofE)
  from decide_uses_strict_path [OF demo_cur run] run show ?thesis
    by (auto simp: demo_request_def demo_state_def demo_env_def)
qed

subsection \<open>The log, and failures of the file\<close>

text \<open>C10: the audit log only grows: whatever the processes do, the events recorded at one moment
  are a prefix of the events recorded later.\<close>

theorem audit_log_append_only:
  assumes "cluster_ok envs c" and "view (shared c) = Some t"
    and "c' = foldl (cluster_step envs) c ops"
  shows "\<exists>t' es. view (shared c') = Some t' \<and> audit_events t' = audit_events t @ es"
  unfolding assms(3) by (rule cluster_run_audit [OF assms(1,2)])

lemma audit_log_append_only_witness:
  "\<exists>t es. view (shared (foldl (cluster_step (\<lambda>_. demo_env)) (demo_cluster Pending)
     [(0, Op_authorize (demo_request ''deploy'' None))])) = Some t \<and> audit_events t = [] @ es"
proof -
  have "view (shared (demo_cluster Pending)) = Some (demo_tables Pending)"
      "audit_events (demo_tables Pending) = []"
    by (simp_all add: demo_cluster_def demo_tables_def)
  with audit_log_append_only [OF demo_cluster_ok this(1) refl,
      of "[(0, Op_authorize (demo_request ''deploy'' None))]"] show ?thesis
    by (simp del: foldl_Cons cluster_step.simps)
qed

text \<open>C9: with the file store an authorization is one unit.  Let the body of the transaction, run on the
  tables of the file, end in \<open>b\<close> with \<open>r'\<close>.  When the write works, or nothing is written, the call ends like the
  body: a decision leaves exactly the body's tables in memory and in the file, an exception the tables and the file from before.
  When the write fails the call raises, and everything is as before if the new snapshot did not replace the old one, and
  everything is the body's if it did.  Memory and file agree in every case.\<close>

theorem authorize_atomic:
  assumes "file_store env" and "depth s = 0" and "view (disk s) = Some m"
    and "authorize_body env q (s\<lparr>mem := m, depth := 1, dirty := False\<rparr>) = (r', b)"
    and "authorize env q s = (r, t)"
  shows "coherent t \<and>
    (r = r' \<and> (\<forall>d. r' = Inr d \<longrightarrow> mem t = mem b \<and> view (disk t) = Some (mem b)) \<and>
       (\<forall>e. r' = Inl e \<longrightarrow> mem t = m \<and> disk t = disk s) \<or>
     (\<exists>d. r' = Inr d) \<and> r = Inl Os_error \<and>
       (write_outcome_of env (writes s) = Fail_before_replace \<and> mem t = m \<and> disk t = disk s \<or>
        write_outcome_of env (writes s) = Fail_after_replace \<and> mem t = mem b \<and> disk t = Snapshot (mem b)))"
  using authorize_txn.outcome [OF assms(1-4) assms(5) [unfolded authorize_def]] assms(3)
  by (auto simp: coherent_def)

lemma authorize_atomic_witness:
  "let env = demo_env\<lparr>write_outcome_of := \<lambda>_. Fail_before_replace\<rparr>;
       t = snd (authorize env (demo_request ''read'' None) (demo_state Approved)) in
   coherent t \<and> ((\<exists>d. fst (authorize env (demo_request ''read'' None) (demo_state Approved)) = Inr d) \<or>
     view (disk t) = Some (demo_tables Approved))"
proof -
  let ?env = "demo_env\<lparr>write_outcome_of := \<lambda>_. Fail_before_replace\<rparr>"
  let ?s = "demo_state Approved"
  have start: "file_store ?env" "depth ?s = 0" "view (disk ?s) = Some (demo_tables Approved)"
    by (simp_all add: demo_env_def demo_state_def)
  obtain r' b where body: "authorize_body ?env (demo_request ''read'' None)
      (?s\<lparr>mem := demo_tables Approved, depth := 1, dirty := False\<rparr>) = (r', b)" by fastforce
  obtain r t where run: "authorize ?env (demo_request ''read'' None) ?s = (r, t)" by fastforce
  show ?thesis using authorize_atomic [OF start body run] start(3)
    by (cases r; cases r') (auto simp: Let_def run)
qed

text \<open>C11: the service answers.  If the broker file loads and is written without error,
  \<open>authorize\<close> returns a decision for every request: no combination of request, agent,
  delegation and approval makes it raise.\<close>

theorem authorize_always_decides:
  assumes "cur env s = Some m" and "\<forall>n. write_outcome_of env n = Write_ok"
  shows "\<exists>d t. authorize env q s = (Inr d, t)"
  by (rule authorize_returns [OF assms])

lemma authorize_always_decides_witness:
  "\<exists>d t. authorize demo_env (demo_request ''whatever'' (Some (uni ''missing''))) (demo_state Denied) = (Inr d, t)"
  by (rule authorize_always_decides [OF demo_cur]) (simp add: demo_env_def)

end
