(* ===== verification/Py_Text.thy ===== *)
theory Py_Text
  imports Prelude
begin

text \<open>
  The text functions of the Python library that the gateway relies on: UTF-8 decoding
  (strict, and with the replacement of \<open>errors="replace"\<close>) and encoding, percent decoding
  (\<open>urllib.parse.unquote\<close>, \<open>parse_qsl\<close>), \<open>urlsplit\<close>, decimal numbers, base64.

  Decoding and encoding are inverse to each other (\<open>decode_encode\<close>, \<open>encode_decode\<close>): a
  text body that is decoded, left alone and encoded again is the same body.
\<close>

subsection \<open>UTF-8\<close>

definition is_surrogate :: "nat \<Rightarrow> bool" where
  "is_surrogate c \<longleftrightarrow> 55296 \<le> c \<and> c \<le> 57343"

definition is_scalar :: "nat \<Rightarrow> bool" where
  "is_scalar c \<longleftrightarrow> c < 1114112 \<and> \<not> is_surrogate c"

definition is_cont :: "nat \<Rightarrow> bool" where
  "is_cont b \<longleftrightarrow> 128 \<le> b \<and> b < 192"

text \<open>The second byte that may follow the lead byte \<open>a\<close>.\<close>

definition second_ok :: "nat \<Rightarrow> nat \<Rightarrow> bool" where
  "second_ok a b \<longleftrightarrow> is_cont b \<and> (a = 224 \<longrightarrow> 160 \<le> b) \<and> (a = 237 \<longrightarrow> b < 160) \<and>
     (a = 240 \<longrightarrow> 144 \<le> b) \<and> (a = 244 \<longrightarrow> b < 144)"

text \<open>
  The first character of a byte sequence and what follows it; without one, what follows
  the maximal ill-formed prefix, which \<open>errors="replace"\<close> turns into one U+FFFD.
\<close>

fun utf8_first :: "nat list \<Rightarrow> nat option \<times> nat list" where
  "utf8_first [] = (None, [])"
| "utf8_first (a # r) =
     (if a < 128 then (Some a, r)
      else if 194 \<le> a \<and> a < 224 then
        (case r of
           b # r2 \<Rightarrow> if is_cont b then (Some ((a - 192) * 64 + (b - 128)), r2) else (None, r)
         | [] \<Rightarrow> (None, []))
      else if 224 \<le> a \<and> a < 240 then
        (case r of
           b # r2 \<Rightarrow>
             if second_ok a b then
               (case r2 of
                  c # r3 \<Rightarrow>
                    if is_cont c then (Some ((a - 224) * 4096 + (b - 128) * 64 + (c - 128)), r3)
                    else (None, r2)
                | [] \<Rightarrow> (None, []))
             else (None, r)
         | [] \<Rightarrow> (None, []))
      else if 240 \<le> a \<and> a < 245 then
        (case r of
           b # r2 \<Rightarrow>
             if second_ok a b then
               (case r2 of
                  c # r3 \<Rightarrow>
                    if is_cont c then
                      (case r3 of
                         d # r4 \<Rightarrow>
                           if is_cont d
                           then (Some ((a - 240) * 262144 + (b - 128) * 4096 + (c - 128) * 64 +
                                   (d - 128)), r4)
                           else (None, r3)
                       | [] \<Rightarrow> (None, []))
                    else (None, r2)
                | [] \<Rightarrow> (None, []))
             else (None, r)
         | [] \<Rightarrow> (None, []))
      else (None, r))"

lemma utf8_first_shorter: "length (snd (utf8_first (a # r))) \<le> length r"
  by (auto split: list.splits)

function utf8_units :: "nat list \<Rightarrow> nat option list" where
  "utf8_units [] = []"
| "utf8_units (a # r) = fst (utf8_first (a # r)) # utf8_units (snd (utf8_first (a # r)))"
  by pat_completeness auto

termination
  by (relation "measure length") (use utf8_first_shorter in \<open>auto simp: less_Suc_eq_le simp del: utf8_first.simps\<close>)

definition utf8_decode :: "bytes \<Rightarrow> pystr option" where
  "utf8_decode bs = those (utf8_units (map unat bs))"

definition decode_replace :: "nat list \<Rightarrow> pystr" where
  "decode_replace bs = map (\<lambda>u. case u of None \<Rightarrow> 65533 | Some c \<Rightarrow> c) (utf8_units bs)"

definition utf8_char :: "nat \<Rightarrow> nat list" where
  "utf8_char c =
     (if c < 128 then [c]
      else if c < 2048 then [192 + c div 64, 128 + c mod 64]
      else if c < 65536 then [224 + c div 4096, 128 + c div 64 mod 64, 128 + c mod 64]
      else [240 + c div 262144, 128 + c div 4096 mod 64, 128 + c div 64 mod 64, 128 + c mod 64])"

definition utf8_encode :: "pystr \<Rightarrow> bytes option" where
  "utf8_encode s =
     (if list_all is_scalar s then Some (map of_nat (concat (map utf8_char s))) else None)"

lemma digits_64:
  fixes c :: nat
  obtains x y z w where "c = x * 262144 + y * 4096 + z * 64 + w" "y < 64" "z < 64" "w < 64"
    "c div 262144 = x" "c div 4096 mod 64 = y" "c div 64 mod 64 = z" "c mod 64 = w"
    "c div 4096 = x * 64 + y" "c div 64 = x * 4096 + y * 64 + z"
proof
  have d: "c div 4096 = c div 64 div 64" "c div 262144 = c div 64 div 64 div 64"
    by (simp_all add: div_mult2_eq [symmetric])
  have e: "c = c div 64 * 64 + c mod 64" "c div 64 = c div 64 div 64 * 64 + c div 64 mod 64"
      "c div 64 div 64 = c div 64 div 64 div 64 * 64 + c div 64 div 64 mod 64"
    by simp_all
  from e show "c = c div 262144 * 262144 + c div 4096 mod 64 * 4096 + c div 64 mod 64 * 64 + c mod 64"
      "c div 4096 = c div 262144 * 64 + c div 4096 mod 64"
      "c div 64 = c div 262144 * 4096 + c div 4096 mod 64 * 64 + c div 64 mod 64"
    unfolding d by linarith+
qed simp_all

lemma utf8_first_char:
  assumes "is_scalar c"
  shows "utf8_first (utf8_char c @ r) = (Some c, r)"
proof -
  obtain x y z w where c: "c = x * 262144 + y * 4096 + z * 64 + w" "y < 64" "z < 64" "w < 64"
    and d: "c div 262144 = x" "c div 4096 mod 64 = y" "c div 64 mod 64 = z" "c mod 64 = w"
      "c div 4096 = x * 64 + y" "c div 64 = x * 4096 + y * 64 + z"
    by (rule digits_64)
  have sc: "c < 1114112" "c < 55296 \<or> 57343 < c"
    using assms by (auto simp: is_scalar_def is_surrogate_def)
  consider "c < 128" | "128 \<le> c" "c < 2048" | "2048 \<le> c" "c < 65536" | "65536 \<le> c"
    by linarith
  then show ?thesis
  proof cases
    case 1
    then show ?thesis by (simp add: utf8_char_def)
  next
    case 2
    have x: "x = 0" using 2 c(1) by linarith
    have y: "y = 0" using 2 c(1) x by linarith
    have "2 \<le> z" "z < 32" using 2 c x y by linarith+
    with 2 c(2-4) x y show ?thesis
      by (simp add: utf8_char_def is_cont_def d) (simp add: c(1))
  next
    case 3
    have x: "x = 0" using 3 c(1) by linarith
    have "y < 16" using 3 c(1) x by linarith
    moreover have "y = 0 \<longrightarrow> 32 \<le> z" using 3 c x by linarith
    moreover have "y = 13 \<longrightarrow> z < 32" using c sc(2) x by linarith
    ultimately show ?thesis
      using 3 x c(2-4) by (simp add: utf8_char_def is_cont_def second_ok_def d) (simp add: c(1))
  next
    case 4
    have "x \<le> 4" "x = 0 \<longrightarrow> 16 \<le> y" "x = 4 \<longrightarrow> y < 16" using 4 c sc(1) by linarith+
    moreover have "\<not> c < 65536" "\<not> c < 128" "\<not> c < 2048" using 4 by simp_all
    ultimately show ?thesis
      using c(2-4) by (simp add: utf8_char_def is_cont_def second_ok_def d)
        (simp add: c(1) d(3) [unfolded d(6)])
  qed
qed

lemma utf8_units_char:
  assumes "is_scalar c"
  shows "utf8_units (utf8_char c @ r) = Some c # utf8_units r"
proof -
  obtain a t where "utf8_char c = a # t"
    by (cases "utf8_char c") (auto simp: utf8_char_def split: if_splits)
  with utf8_first_char [OF assms, of r] show ?thesis by simp
qed

lemma utf8_units_encoded:
  "list_all is_scalar s \<Longrightarrow> utf8_units (concat (map utf8_char s)) = map Some s"
  by (induction s) (simp_all add: utf8_units_char)

lemma utf8_char_byte: "is_scalar c \<Longrightarrow> b \<in> set (utf8_char c) \<Longrightarrow> b < 256"
proof -
  assume c: "is_scalar c" and b: "b \<in> set (utf8_char c)"
  have "c div 262144 \<le> 4" "c < 65536 \<Longrightarrow> c div 4096 < 16" "c < 2048 \<Longrightarrow> c div 64 < 32"
    using c by (auto simp: is_scalar_def less_mult_imp_div_less)
  moreover have "c mod 64 < 64" "c div 64 mod 64 < 64" "c div 4096 mod 64 < 64" by simp_all
  ultimately show "b < 256"
    using b by (auto simp: utf8_char_def split: if_splits)
qed

lemma unat_of_byte [simp]: "b < 256 \<Longrightarrow> unat (of_nat b :: 8 word) = b"
  by (simp add: unat_of_nat take_bit_nat_eq_self)

lemma those_map_Some [simp]: "those (map Some xs) = Some xs"
  by (induction xs) auto

lemma those_Some_iff: "those us = Some xs \<longleftrightarrow> us = map Some xs"
  by (induction us arbitrary: xs) (auto split: option.splits)

theorem decode_encode: "utf8_encode s = Some bs \<Longrightarrow> utf8_decode bs = Some s"
proof -
  assume enc: "utf8_encode s = Some bs"
  then have ok: "list_all is_scalar s" and bs: "bs = map of_nat (concat (map utf8_char s))"
    by (auto simp: utf8_encode_def split: if_splits)
  have "\<forall>b \<in> set (concat (map utf8_char s)). b < 256"
    using ok utf8_char_byte by (auto simp: list_all_iff)
  then have "map unat bs = concat (map utf8_char s)"
    unfolding bs map_map by (intro map_idI) auto
  then show ?thesis
    by (simp add: utf8_decode_def utf8_units_encoded [OF ok])
qed

text \<open>A character comes from one byte sequence only.\<close>

lemma cont_digits: "is_cont b \<longleftrightarrow> (\<exists>x < 64. b = 128 + x)"
  by (auto simp: is_cont_def intro!: exI [of _ "b - 128"])

lemma utf8_first_inverse:
  assumes "utf8_first bs = (Some c, r)"
  shows "is_scalar c \<and> bs = utf8_char c @ r"
proof -
  obtain a t where bs: "bs = a # t" using assms by (cases bs) auto
  have div: "(x * 64 + z) div 64 = x" "(x * 64 + z) mod 64 = z" if "z < 64" for x z :: nat
    using that by simp_all
  have nested: "c div 4096 = c div 64 div 64" "c div 262144 = c div 64 div 64 div 64"
    by (simp_all add: div_mult2_eq [symmetric])
  consider (1) "a < 128"
    | (2) x b r2 where "a = 192 + x" "2 \<le> x" "x < 32" "t = b # r2"
    | (3) x b c' r3 where "a = 224 + x" "x < 16" "t = b # c' # r3"
    | (4) x b c' d r4 where "a = 240 + x" "x < 5" "t = b # c' # d # r4"
  proof -
    consider "a < 128" | "194 \<le> a" "a < 224" | "224 \<le> a" "a < 240" | "240 \<le> a" "a < 245"
      using assms bs by (auto split: if_splits)
    then show ?thesis
    proof cases
      case 1
      then show ?thesis by (rule that(1))
    next
      case 2
      then show ?thesis
        using assms bs that(2) [of "a - 192"] by (cases t) auto
    next
      case 3
      then show ?thesis
        using assms bs that(3) [of "a - 224"]
        by (cases t; cases "tl t") (auto split: if_splits)
    next
      case 4
      then show ?thesis
        using assms bs that(4) [of "a - 240"]
        by (cases t; cases "tl t"; cases "tl (tl t)") (auto split: if_splits)
    qed
  qed
  then show ?thesis
  proof cases
    case 1
    with assms bs show ?thesis by (simp add: is_scalar_def is_surrogate_def utf8_char_def)
  next
    case 2
    with assms bs obtain y where y: "b = 128 + y" "y < 64" "c = x * 64 + y" "r = r2"
      by (auto simp: cont_digits split: if_splits)
    then have "128 \<le> c" "c < 2048" using 2 by linarith+
    with y 2 bs show ?thesis by (simp add: is_scalar_def is_surrogate_def utf8_char_def)
  next
    case 3
    with assms bs obtain y z where y: "b = 128 + y" "y < 64" "c' = 128 + z" "z < 64"
        "c = x * 4096 + y * 64 + z" "r = r3" "second_ok a b"
      by (auto simp: cont_digits second_ok_def split: if_splits)
    have xy: "x = 0 \<longrightarrow> 32 \<le> y" "x = 13 \<longrightarrow> y < 32" using y(7) 3 y(1) by (auto simp: second_ok_def)
    then have rng: "2048 \<le> c" "c < 65536" using y 3 by (cases "x = 0"; linarith)+
    have sur: "c < 55296 \<or> 57343 < c"
    proof (cases "x < 13")
      case True
      then show ?thesis using y by linarith
    next
      case False
      then show ?thesis using y xy(2) by (cases "x = 13") linarith+
    qed
    have e: "c = (x * 64 + y) * 64 + z" using y(5) by simp
    have "c div 64 = x * 64 + y" "c mod 64 = z" unfolding e by (rule div [OF y(4)])+
    moreover have "c div 4096 = x" using calculation(1) div(1) [OF y(2)] nested by simp
    ultimately show ?thesis
      using rng sur y(1-4,6) 3 bs
      by (auto simp: is_scalar_def is_surrogate_def utf8_char_def)
  next
    case 4
    with assms bs obtain y z w where y: "b = 128 + y" "y < 64" "c' = 128 + z" "z < 64"
        "d = 128 + w" "w < 64" "c = x * 262144 + y * 4096 + z * 64 + w" "r = r4" "second_ok a b"
      by (auto simp: cont_digits second_ok_def split: if_splits)
    have rng: "65536 \<le> c" "c < 1114112"
      using y 4 by (auto simp: second_ok_def)
    have e: "c = ((x * 64 + y) * 64 + z) * 64 + w" using y(7) by simp
    have d: "c div 64 = (x * 64 + y) * 64 + z" "c mod 64 = w" unfolding e by (rule div [OF y(6)])+
    have d2: "c div 4096 = x * 64 + y"
      unfolding nested(1) d(1) by (rule div(1) [OF y(4)])
    have "c div 262144 = x"
      unfolding nested(2) d(1) div(1) [OF y(4)] by (rule div(1) [OF y(2)])
    moreover have "c div 64 mod 64 = z" unfolding d(1) by (rule div(2) [OF y(4)])
    moreover have "c div 4096 mod 64 = y" unfolding d2 by (rule div(2) [OF y(2)])
    ultimately have "utf8_char c = [a, b, c', d]"
      using rng(1) y(1,3,5) d(2) 4(1) by (simp add: utf8_char_def)
    then show ?thesis
      using rng y(8) 4(3) bs by (simp add: is_scalar_def is_surrogate_def)
  qed
qed

lemma utf8_units_inverse: "utf8_units bs = map Some s \<Longrightarrow> list_all is_scalar s \<and> bs = concat (map utf8_char s)"
proof (induction bs arbitrary: s rule: utf8_units.induct)
  case 1
  then show ?case by simp
next
  case (2 a r)
  then obtain c t where s: "s = c # t" "fst (utf8_first (a # r)) = Some c"
      "utf8_units (snd (utf8_first (a # r))) = map Some t"
    by (auto simp del: utf8_first.simps)
  then have "utf8_first (a # r) = (Some c, snd (utf8_first (a # r)))"
    by (metis prod.collapse)
  with utf8_first_inverse [OF this] 2(1) [OF s(3)] s(1) show ?case
    by (simp del: utf8_first.simps)
qed

theorem encode_decode: "utf8_decode bs = Some s \<Longrightarrow> utf8_encode s = Some bs"
proof -
  assume "utf8_decode bs = Some s"
  then have "utf8_units (map unat bs) = map Some s" by (simp add: utf8_decode_def those_Some_iff)
  from utf8_units_inverse [OF this] have "list_all is_scalar s" "map unat bs = concat (map utf8_char s)"
    by auto
  moreover have "map of_nat (map unat bs) = bs" by (simp add: map_idI)
  ultimately show ?thesis by (simp add: utf8_encode_def)
qed

end
