(* ===== verification/Py_Url.thy ===== *)
theory Py_Url
  imports Py_Text
begin

text \<open>
  The parts of \<open>urllib.parse\<close>, \<open>base64\<close> and decimal notation the gateway uses:
  \<open>unquote\<close>, \<open>parse_qsl\<close>, \<open>urlsplit\<close> with the accessors of its result, strict base64
  decoding and encoding, decimal numerals.  What \<open>urlsplit\<close> delegates to the \<open>ipaddress\<close>
  and \<open>unicodedata\<close> modules, and IDNA encoding, are parameters (\<open>url_env\<close>).
\<close>

subsection \<open>Splitting strings\<close>

text \<open>\<open>s.partition(sep)\<close> for a one-character separator: before, whether found, after.\<close>

fun partition_at :: "'a \<Rightarrow> 'a list \<Rightarrow> 'a list \<times> bool \<times> 'a list" where
  "partition_at sep [] = ([], False, [])"
| "partition_at sep (c # s) =
     (if c = sep then ([], True, s)
      else (case partition_at sep s of (a, f, b) \<Rightarrow> (c # a, f, b)))"

definition before_sep :: "'a \<Rightarrow> 'a list \<Rightarrow> 'a list" where
  "before_sep sep s = fst (partition_at sep s)"

definition after_sep :: "'a \<Rightarrow> 'a list \<Rightarrow> 'a list" where
  "after_sep sep s = snd (snd (partition_at sep s))"

text \<open>\<open>s.rpartition(sep)\<close>: without the separator everything is in the last part.\<close>

definition rpartition_at :: "'a \<Rightarrow> 'a list \<Rightarrow> 'a list \<times> bool \<times> 'a list" where
  "rpartition_at sep s =
     (case partition_at sep (rev s) of (a, f, b) \<Rightarrow> if f then (rev b, True, rev a) else ([], False, s))"

subsection \<open>Decimal numerals\<close>

fun dec_nat :: "nat \<Rightarrow> pystr" where
  "dec_nat n = (if n < 10 then [48 + n] else dec_nat (n div 10) @ [48 + n mod 10])"

declare dec_nat.simps [simp del]

definition dec_int :: "int \<Rightarrow> pystr" where
  "dec_int i = (if i < 0 then 45 # dec_nat (nat (- i)) else dec_nat (nat i))"

definition nat_of_digits :: "pystr \<Rightarrow> nat" where
  "nat_of_digits s = foldl (\<lambda>n c. 10 * n + (c - 48)) 0 s"

lemma nat_of_digits_snoc: "nat_of_digits (s @ [c]) = 10 * nat_of_digits s + (c - 48)"
  by (simp add: nat_of_digits_def)

lemma nat_of_digits_dec [simp]: "nat_of_digits (dec_nat n) = n"
proof (induction n rule: dec_nat.induct)
  case (1 n)
  show ?case
  proof (cases "n < 10")
    case True
    then show ?thesis by (simp add: dec_nat.simps [of n] nat_of_digits_def)
  next
    case False
    with 1 show ?thesis by (simp add: dec_nat.simps [of n] nat_of_digits_snoc)
  qed
qed

lemma dec_nat_digits: "c \<in> set (dec_nat n) \<Longrightarrow> is_digit c"
proof (induction n rule: dec_nat.induct)
  case (1 n)
  have "n mod 10 < 10" by simp
  then have "is_digit (48 + n mod 10)" by (simp add: is_digit_def)
  moreover have "n < 10 \<Longrightarrow> is_digit (48 + n)" by (simp add: is_digit_def)
  ultimately show ?case
    using 1 by (subst (asm) (2) dec_nat.simps) (auto split: if_splits)
qed

lemma dec_nat_nonempty [simp]: "dec_nat n \<noteq> []"
  by (subst dec_nat.simps) simp

lemma dec_nat_inj: "dec_nat m = dec_nat n \<longleftrightarrow> m = n"
  by (metis nat_of_digits_dec)

subsection \<open>Percent decoding\<close>

definition hex_value :: "nat \<Rightarrow> nat option" where
  "hex_value c =
     (if 48 \<le> c \<and> c \<le> 57 then Some (c - 48)
      else if 65 \<le> c \<and> c \<le> 70 then Some (c - 55)
      else if 97 \<le> c \<and> c \<le> 102 then Some (c - 87)
      else None)"

text \<open>\<open>unquote_to_bytes\<close> of an ASCII string.\<close>

fun percent_bytes :: "pystr \<Rightarrow> nat list" where
  "percent_bytes (c # a # b # s) =
     (if c = 37 \<and> hex_value a \<noteq> None \<and> hex_value b \<noteq> None
      then (the (hex_value a) * 16 + the (hex_value b)) # percent_bytes s
      else c # percent_bytes (a # b # s))"
| "percent_bytes s = s"

text \<open>\<open>unquote\<close>: runs of ASCII are percent decoded and read as UTF-8, the rest is kept.\<close>

fun unquote_run :: "pystr \<Rightarrow> pystr \<Rightarrow> pystr" where
  "unquote_run acc [] = decode_replace (percent_bytes (rev acc))"
| "unquote_run acc (c # s) =
     (if c < 128 then unquote_run (c # acc) s
      else decode_replace (percent_bytes (rev acc)) @ c # unquote_run [] s)"

definition unquote :: "pystr \<Rightarrow> pystr" where
  "unquote s = unquote_run [] s"

text \<open>\<open>parse_qsl(query, keep_blank_values=True, max_num_fields=n)\<close>; \<open>None\<close> is its
  \<open>ValueError\<close>.\<close>

definition plus_to_space :: "pystr \<Rightarrow> pystr" where
  "plus_to_space = map (\<lambda>c. if c = 43 then 32 else c)"

definition parse_qsl :: "nat \<Rightarrow> pystr \<Rightarrow> (pystr \<times> pystr) list option" where
  "parse_qsl limit q =
     (if limit < length (split_on 38 q) then None
      else Some (map (\<lambda>p. case partition_at 61 p of
             (k, _, v) \<Rightarrow> (unquote (plus_to_space k), unquote (plus_to_space v)))
           (filter (\<lambda>p. p \<noteq> []) (split_on 38 q))))"

subsection \<open>\<open>urlsplit\<close>\<close>

text \<open>
  \<open>netloc_ok\<close>: the netloc passes the bracketed-host check (\<open>ipaddress\<close>) and the NFKC check.
  \<open>idna\<close>: \<open>host.encode("idna").decode().lower()\<close>, \<open>None\<close> for its \<open>UnicodeError\<close>.
\<close>

record url_env =
  netloc_ok :: "pystr \<Rightarrow> bool"
  idna :: "pystr \<Rightarrow> pystr option"

record split_url =
  u_scheme :: pystr
  u_netloc :: pystr
  u_path :: pystr
  u_query :: pystr
  u_fragment :: pystr

definition is_alpha :: "nat \<Rightarrow> bool" where
  "is_alpha c \<longleftrightarrow> 65 \<le> c \<and> c \<le> 90 \<or> 97 \<le> c \<and> c \<le> 122"

definition scheme_char :: "nat \<Rightarrow> bool" where
  "scheme_char c \<longleftrightarrow> is_alpha c \<or> is_digit c \<or> c = 43 \<or> c = 45 \<or> c = 46"

definition split_scheme :: "pystr \<Rightarrow> pystr \<times> pystr" where
  "split_scheme s = (case partition_at 58 s of (a, found, b) \<Rightarrow>
     if found \<and> a \<noteq> [] \<and> is_alpha (hd a) \<and> list_all scheme_char a then (py_lower a, b) else ([], s))"

definition split_netloc :: "pystr \<Rightarrow> pystr \<times> pystr" where
  "split_netloc s =
     (if startswith s [47, 47]
      then (takeWhile (\<lambda>c. c \<notin> {47, 63, 35}) (drop 2 s), dropWhile (\<lambda>c. c \<notin> {47, 63, 35}) (drop 2 s))
      else ([], s))"

definition url_clean :: "pystr \<Rightarrow> pystr" where
  "url_clean s = filter (\<lambda>c. c \<notin> {9, 10, 13}) (dropWhile (\<lambda>c. c \<le> 32) s)"

definition urlsplit :: "url_env \<Rightarrow> pystr \<Rightarrow> split_url option" where
  "urlsplit ue s =
     (case split_scheme (url_clean s) of (scheme, r1) \<Rightarrow>
      case split_netloc r1 of (netloc, r2) \<Rightarrow>
      case partition_at 35 r2 of (r3, _, fragment) \<Rightarrow>
      case partition_at 63 r3 of (path, _, query) \<Rightarrow>
        if (91 \<in> set netloc) \<noteq> (93 \<in> set netloc) \<or> netloc \<noteq> [] \<and> \<not> netloc_ok ue netloc then None
        else Some \<lparr>u_scheme = scheme, u_netloc = netloc, u_path = path, u_query = query,
               u_fragment = fragment\<rparr>)"

definition url_userinfo :: "split_url \<Rightarrow> (pystr \<times> bool \<times> pystr) option" where
  "url_userinfo u = (case rpartition_at 64 (u_netloc u) of (info, found, _) \<Rightarrow>
     if found then Some (partition_at 58 info) else None)"

definition url_hostinfo :: "split_url \<Rightarrow> pystr \<times> pystr" where
  "url_hostinfo u =
     (let host = snd (snd (rpartition_at 64 (u_netloc u))) in
      case partition_at 91 host of (_, bracket, inner) \<Rightarrow>
        if bracket then (case partition_at 93 inner of (h, _, rest) \<Rightarrow> (h, after_sep 58 rest))
        else (case partition_at 58 host of (h, _, p) \<Rightarrow> (h, p)))"

text \<open>\<open>url.hostname\<close>, the empty string for \<open>None\<close>: a zone identifier keeps its case.\<close>

definition url_hostname :: "split_url \<Rightarrow> pystr" where
  "url_hostname u = (case partition_at 37 (fst (url_hostinfo u)) of (h, found, zone) \<Rightarrow>
     py_lower h @ (if found then [37] else []) @ zone)"

text \<open>\<open>url.port\<close>: \<open>None\<close> for its \<open>ValueError\<close>, \<open>Some None\<close> for no port.\<close>

definition url_port :: "split_url \<Rightarrow> nat option option" where
  "url_port u = (let p = snd (url_hostinfo u) in
     if p = [] then Some None
     else if list_all is_digit p \<and> nat_of_digits p \<le> 65535 then Some (Some (nat_of_digits p))
     else None)"

subsection \<open>Base64\<close>

definition b64_value :: "nat \<Rightarrow> nat option" where
  "b64_value c =
     (if 65 \<le> c \<and> c \<le> 90 then Some (c - 65)
      else if 97 \<le> c \<and> c \<le> 122 then Some (c - 71)
      else if 48 \<le> c \<and> c \<le> 57 then Some (c + 4)
      else if c = 43 then Some 62
      else if c = 47 then Some 63
      else None)"

text \<open>
  \<open>binascii.a2b_base64(s, strict_mode=True)\<close>, with its state: the position in the quad, the
  bits left over, the pad characters seen in a row, and whether padding has started.
\<close>

fun a2b :: "nat \<Rightarrow> nat \<Rightarrow> nat \<Rightarrow> bool \<Rightarrow> pystr \<Rightarrow> nat list option" where
  "a2b q left pads started [] = (if q = 0 then Some [] else None)"
| "a2b q left pads started (c # s) =
     (if c = 61 then
        (if 2 \<le> q \<and> 4 \<le> q + Suc pads then (if s = [] then Some [] else None)
         else a2b q left (if 2 \<le> q then Suc pads else pads) True s)
      else case b64_value c of
        None \<Rightarrow> None
      | Some v \<Rightarrow>
          if started then None
          else if q = 0 then a2b 1 v 0 False s
          else if q = 1 then map_option ((#) (left * 4 + v div 16)) (a2b 2 (v mod 16) 0 False s)
          else if q = 2 then map_option ((#) (left * 16 + v div 4)) (a2b 3 (v mod 4) 0 False s)
          else map_option ((#) (left * 64 + v)) (a2b 0 0 0 False s))"

definition b64decode :: "pystr \<Rightarrow> bytes option" where
  "b64decode s = (if s \<noteq> [] \<and> hd s = 61 then None else map_option (map of_nat) (a2b 0 0 0 False s))"

definition b64_char :: "nat \<Rightarrow> nat" where
  "b64_char v =
     (if v < 26 then v + 65 else if v < 52 then v + 71 else if v < 62 then v - 4
      else if v = 62 then 43 else 47)"

fun b64_groups :: "nat list \<Rightarrow> pystr" where
  "b64_groups [] = []"
| "b64_groups [a] = [b64_char (a div 4), b64_char (a mod 4 * 16)]"
| "b64_groups [a, b] = [b64_char (a div 4), b64_char (a mod 4 * 16 + b div 16), b64_char (b mod 16 * 4)]"
| "b64_groups (a # b # c # r) =
     b64_char (a div 4) # b64_char (a mod 4 * 16 + b div 16) # b64_char (b mod 16 * 4 + c div 64) #
     b64_char (c mod 64) # b64_groups r"

text \<open>\<open>base64.urlsafe_b64encode(raw).decode().rstrip("=")\<close>, and the decoding of its result
  \<open>b64decode(s + "=" * (-len(s) % 4), altchars=b"-_", validate=True)\<close>.\<close>

definition urlsafe_encode :: "bytes \<Rightarrow> pystr" where
  "urlsafe_encode bs =
     map (\<lambda>c. if c = 43 then 45 else if c = 47 then 95 else c) (b64_groups (map unat bs))"

definition urlsafe_decode :: "pystr \<Rightarrow> bytes option" where
  "urlsafe_decode s =
     (if \<not> is_ascii s then None
      else b64decode (map (\<lambda>c. if c = 45 then 43 else if c = 95 then 47 else c)
             (s @ replicate ((4 - length s mod 4) mod 4) 61)))"

end
