(* ===== verification/Py_Json.thy ===== *)
theory Py_Json
  imports Json_Value Py_Url
begin

text \<open>
  \<open>json.loads\<close> and \<open>json.dumps\<close>, as the gateway calls them.  The parser is the C scanner
  of the standard library: strict strings, surrogate pairs joined, numbers by the scanner's
  grammar, integers of more than 4300 digits refused.  It is written with fuel; the fuel
  \<open>json_loads\<close> starts with is never used up (\<open>loads_total\<close>).  Parsing what was printed
  gives the value back (\<open>loads_dumps\<close>).

  Parameters (\<open>json_env\<close>): \<open>float_repr t\<close> is \<open>repr(float(t))\<close>, and \<open>nest_limit\<close> the number of
  nested containers at which the scanner raises \<open>RecursionError\<close>.
\<close>

record json_env =
  float_repr :: "pystr \<Rightarrow> pystr"
  nest_limit :: nat

abbreviation json_error :: "'a result" where
  "json_error \<equiv> Inl (Value_error ''json'')"

definition skip_ws :: "pystr \<Rightarrow> pystr" where
  "skip_ws = dropWhile (\<lambda>c. c = 32 \<or> c = 9 \<or> c = 10 \<or> c = 13)"

subsection \<open>Strings\<close>

definition hex4 :: "nat \<Rightarrow> nat \<Rightarrow> nat \<Rightarrow> nat \<Rightarrow> nat option" where
  "hex4 a b c d =
     (case (hex_value a, hex_value b, hex_value c, hex_value d) of
        (Some w, Some x, Some y, Some z) \<Rightarrow> Some (w * 4096 + x * 256 + y * 16 + z)
      | _ \<Rightarrow> None)"

text \<open>The low surrogate that a second \<open>\uXXXX\<close> escape at the front would give.\<close>

fun low_escape :: "pystr \<Rightarrow> (nat \<times> pystr) option" where
  "low_escape (p # u # a # b # c # d # s) =
     (if p = 92 \<and> u = 117 then
        (case hex4 a b c d of
           Some x \<Rightarrow> if 56320 \<le> x \<and> x \<le> 57343 then Some (x, s) else None
         | None \<Rightarrow> None)
      else None)"
| "low_escape _ = None"

definition simple_escape :: "nat \<Rightarrow> nat option" where
  "simple_escape e =
     (if e = 34 \<or> e = 92 \<or> e = 47 then Some e
      else if e = 98 then Some 8
      else if e = 102 then Some 12
      else if e = 110 then Some 10
      else if e = 114 then Some 13
      else if e = 116 then Some 9
      else None)"

text \<open>After the backslash: the code point and what follows the escape.\<close>

fun read_escape :: "pystr \<Rightarrow> (nat \<times> pystr) option" where
  "read_escape [] = None"
| "read_escape (e # s) =
     (if e = 117 then
        (case s of
           a # b # c # d # r \<Rightarrow>
             (case hex4 a b c d of
                None \<Rightarrow> None
              | Some x \<Rightarrow>
                  if 55296 \<le> x \<and> x \<le> 56319 then
                    (case low_escape r of
                       Some (y, r') \<Rightarrow> Some (65536 + (x - 55296) * 1024 + (y - 56320), r')
                     | None \<Rightarrow> Some (x, r))
                  else Some (x, r))
         | _ \<Rightarrow> None)
      else map_option (\<lambda>x. (x, s)) (simple_escape e))"

lemma low_escape_shorter: "low_escape s = Some (x, r) \<Longrightarrow> length r < length s"
  by (induction s rule: low_escape.induct) (auto split: if_splits option.splits)

lemma read_escape_shorter: "read_escape s = Some (x, r) \<Longrightarrow> length r < length s"
  by (cases s) (auto split: if_splits option.splits list.splits dest!: low_escape_shorter)

function scan_string :: "pystr \<Rightarrow> (pystr \<times> pystr) result" where
  "scan_string [] = json_error"
| "scan_string (c # s) =
     (if c = 34 then Inr ([], s)
      else if c = 92 then
        (case read_escape s of
           None \<Rightarrow> json_error
         | Some (x, r) \<Rightarrow> rbind (scan_string r) (\<lambda>(t, r'). Inr (x # t, r')))
      else if c < 32 then json_error
      else rbind (scan_string s) (\<lambda>(t, r'). Inr (c # t, r')))"
  by pat_completeness auto

termination
  by (relation "measure length") (auto dest: read_escape_shorter)

lemma scan_string_shorter: "scan_string s = Inr (t, r) \<Longrightarrow> length r < length s"
proof (induction s arbitrary: t rule: scan_string.induct)
  case 1
  then show ?case by simp
next
  case (2 c s)
  then show ?case
    by (force simp: rbind_Inr_iff split: if_splits option.splits dest: read_escape_shorter)
qed

subsection \<open>Numbers\<close>

text \<open>\<open>_match_number_unicode\<close>: the numeral, whether it is a float, and what follows.\<close>

definition scan_integer :: "pystr \<Rightarrow> (pystr \<times> pystr) option" where
  "scan_integer s =
     (case s of
        [] \<Rightarrow> None
      | c # r \<Rightarrow>
          if c = 48 then Some ([48], r)
          else if 49 \<le> c \<and> c \<le> 57 then Some (c # takeWhile is_digit r, dropWhile is_digit r)
          else None)"

definition scan_fraction :: "pystr \<Rightarrow> pystr \<times> pystr" where
  "scan_fraction s =
     (case s of
        p # c # r \<Rightarrow>
          if p = 46 \<and> is_digit c
          then (46 # c # takeWhile is_digit r, dropWhile is_digit r) else ([], s)
      | _ \<Rightarrow> ([], s))"

definition scan_exponent :: "pystr \<Rightarrow> pystr \<times> pystr" where
  "scan_exponent s =
     (case s of
        [] \<Rightarrow> ([], s)
      | e # r \<Rightarrow>
          if e = 101 \<or> e = 69 then
            (case r of
               c # r' \<Rightarrow>
                 if is_digit c then (e # c # takeWhile is_digit r', dropWhile is_digit r')
                 else if c = 43 \<or> c = 45 then
                   (case r' of
                      d # r'' \<Rightarrow>
                        if is_digit d then (e # c # d # takeWhile is_digit r'', dropWhile is_digit r'')
                        else ([], s)
                    | [] \<Rightarrow> ([], s))
                 else ([], s)
             | [] \<Rightarrow> ([], s))
          else ([], s))"

definition scan_sign :: "pystr \<Rightarrow> pystr \<times> pystr" where
  "scan_sign s = (if s \<noteq> [] \<and> hd s = 45 then ([45], tl s) else ([], s))"

definition scan_number :: "pystr \<Rightarrow> (pystr \<times> bool \<times> pystr) option" where
  "scan_number s =
     (case scan_sign s of (sign, s1) \<Rightarrow>
      case scan_integer s1 of
        None \<Rightarrow> None
      | Some (i, s2) \<Rightarrow>
          (case scan_fraction s2 of (f, s3) \<Rightarrow>
           case scan_exponent s3 of (e, s4) \<Rightarrow>
             Some (sign @ i @ f @ e, f \<noteq> [] \<or> e \<noteq> [], s4)))"

text \<open>\<open>int(t)\<close> for an integer numeral.\<close>

definition int_of_numeral :: "pystr \<Rightarrow> int" where
  "int_of_numeral t =
     (case t of
        c # r \<Rightarrow> if c = 45 then - int (nat_of_digits r) else int (nat_of_digits t)
      | [] \<Rightarrow> 0)"

definition number_value :: "json_env \<Rightarrow> pystr \<Rightarrow> bool \<Rightarrow> json result" where
  "number_value je t flt =
     (if flt then Inr (JFloat (float_repr je t))
      else if 4300 < length (filter is_digit t) then Inl (Value_error ''digits'')
      else Inr (JInt (int_of_numeral t)))"

lemma scan_exponent_le: "length (snd (scan_exponent s)) \<le> length s"
  by (auto simp: scan_exponent_def split: list.splits)
    (metis le_SucI le_Suc_eq length_dropWhile_le)+

lemma scan_fraction_le: "length (snd (scan_fraction s)) \<le> length s"
  by (auto simp: scan_fraction_def split: list.splits) (metis le_SucI length_dropWhile_le)

lemma scan_integer_shorter: "scan_integer s = Some (t, r) \<Longrightarrow> length r < length s"
  by (auto simp: scan_integer_def less_Suc_eq_le length_dropWhile_le split: list.splits if_splits)

lemma scan_number_shorter: "scan_number s = Some (t, f, r) \<Longrightarrow> length r < length s"
proof -
  assume num: "scan_number s = Some (t, f, r)"
  then obtain i s2 where s2: "scan_integer (snd (scan_sign s)) = Some (i, s2)"
    by (auto simp: scan_number_def split: option.splits prod.splits)
  with num have "r = snd (scan_exponent (snd (scan_fraction s2)))"
    by (auto simp: scan_number_def split: prod.splits)
  moreover have "length (snd (scan_sign s)) \<le> length s" by (simp add: scan_sign_def)
  ultimately show ?thesis
    using scan_integer_shorter [OF s2] scan_fraction_le [of s2]
      scan_exponent_le [of "snd (scan_fraction s2)"]
    by simp
qed

subsection \<open>Values\<close>

text \<open>
  \<open>strict\<close> selects the hooks of \<open>strict_json\<close>: a repeated key and the constants \<open>NaN\<close>,
  \<open>Infinity\<close>, \<open>-Infinity\<close> raise.  Without it the last value of a key counts.
\<close>

definition build_object :: "bool \<Rightarrow> (pystr \<times> json) list \<Rightarrow> json result" where
  "build_object strict ps =
     (if strict then
        (if distinct (map fst ps) then Inr (JObj ps) else Inl (Inspection ''duplicate_json_key''))
      else Inr (JObj (fold (\<lambda>(k, v). dset k v) ps [])))"

definition constant_value :: "bool \<Rightarrow> string \<Rightarrow> json result" where
  "constant_value strict name =
     (if strict then Inl (Inspection ''nonfinite_json_number'') else Inr (JFloat (uni name)))"

text \<open>The values that are not containers, strings or numbers, by their spelling.\<close>

definition scan_word :: "bool \<Rightarrow> pystr \<Rightarrow> (json result \<times> pystr) option" where
  "scan_word strict s =
     (if startswith s (uni ''null'') then Some (Inr JNull, drop 4 s)
      else if startswith s (uni ''true'') then Some (Inr (JBool True), drop 4 s)
      else if startswith s (uni ''false'') then Some (Inr (JBool False), drop 5 s)
      else if startswith s (uni ''NaN'') then Some (constant_value strict ''nan'', drop 3 s)
      else if startswith s (uni ''Infinity'') then Some (constant_value strict ''inf'', drop 8 s)
      else if startswith s (uni ''-Infinity'') then Some (constant_value strict ''-inf'', drop 9 s)
      else None)"

fun parse_value :: "json_env \<Rightarrow> bool \<Rightarrow> nat \<Rightarrow> nat \<Rightarrow> pystr \<Rightarrow> (json \<times> pystr) result"
  and parse_elements :: "json_env \<Rightarrow> bool \<Rightarrow> nat \<Rightarrow> nat \<Rightarrow> pystr \<Rightarrow> (json list \<times> pystr) result"
  and parse_members ::
    "json_env \<Rightarrow> bool \<Rightarrow> nat \<Rightarrow> nat \<Rightarrow> pystr \<Rightarrow> ((pystr \<times> json) list \<times> pystr) result" where
  "parse_value je st 0 d s = Inl Failure"
| "parse_value je st (Suc n) d [] = json_error"
| "parse_value je st (Suc n) d (c # r) =
     (if c = 34 then rbind (scan_string r) (\<lambda>(t, r'). Inr (JStr t, r'))
      else if c = 123 then
        (if d = 0 then Inl Recursion_error
         else if skip_ws r \<noteq> [] \<and> hd (skip_ws r) = 125 then Inr (JObj [], tl (skip_ws r))
         else rbind (parse_members je st n (d - 1) (skip_ws r)) (\<lambda>(ps, r').
              rbind (build_object st ps) (\<lambda>v. Inr (v, r'))))
      else if c = 91 then
        (if d = 0 then Inl Recursion_error
         else if skip_ws r \<noteq> [] \<and> hd (skip_ws r) = 93 then Inr (JArr [], tl (skip_ws r))
         else rbind (parse_elements je st n (d - 1) (skip_ws r)) (\<lambda>(vs, r'). Inr (JArr vs, r')))
      else (case scan_word st (c # r) of
          Some (v, r') \<Rightarrow> rbind v (\<lambda>v. Inr (v, r'))
        | None \<Rightarrow>
            (case scan_number (c # r) of
               None \<Rightarrow> json_error
             | Some (t, f, r') \<Rightarrow> rbind (number_value je t f) (\<lambda>v. Inr (v, r')))))"
| "parse_elements je st 0 d s = Inl Failure"
| "parse_elements je st (Suc n) d s =
     rbind (parse_value je st n d s) (\<lambda>(v, r).
       (case skip_ws r of
          [] \<Rightarrow> json_error
        | c # r' \<Rightarrow>
            if c = 93 then Inr ([v], r')
            else if c = 44 then
              rbind (parse_elements je st n d (skip_ws r')) (\<lambda>(vs, r''). Inr (v # vs, r''))
            else json_error))"
| "parse_members je st 0 d s = Inl Failure"
| "parse_members je st (Suc n) d [] = json_error"
| "parse_members je st (Suc n) d (q # s) =
     (if q \<noteq> 34 then json_error
      else rbind (scan_string s) (\<lambda>(k, r).
        (case skip_ws r of
           [] \<Rightarrow> json_error
         | c # r' \<Rightarrow>
             if c \<noteq> 58 then json_error
             else rbind (parse_value je st n d (skip_ws r')) (\<lambda>(v, r2).
               (case skip_ws r2 of
                  [] \<Rightarrow> json_error
                | c2 # r3 \<Rightarrow>
                    if c2 = 125 then Inr ([(k, v)], r3)
                    else if c2 = 44 then
                      rbind (parse_members je st n d (skip_ws r3)) (\<lambda>(ps, r4). Inr ((k, v) # ps, r4))
                    else json_error)))))"

definition json_loads :: "json_env \<Rightarrow> bool \<Rightarrow> pystr \<Rightarrow> json result" where
  "json_loads je strict s =
     (if startswith s [65279] then json_error
      else rbind (parse_value je strict (2 * length s + 1) (nest_limit je) (skip_ws s)) (\<lambda>(v, r).
        if skip_ws r = [] then Inr v else json_error))"

subsection \<open>The fuel is enough\<close>

lemma skip_ws_le: "length (skip_ws s) \<le> length s"
  by (simp add: skip_ws_def length_dropWhile_le)

lemma skip_ws_Cons_shorter: "skip_ws s = c # r \<Longrightarrow> length r < length s"
  using skip_ws_le [of s] by simp

lemma scan_word_shorter: "scan_word st s = Some (v, r) \<Longrightarrow> length r < length s"
  by (auto simp: scan_word_def startswith_iff split: if_splits)

lemma tl_skip_ws: "skip_ws r \<noteq> [] \<Longrightarrow> length (tl (skip_ws r)) < length r"
  using skip_ws_le [of r] by (cases "skip_ws r") simp_all

text \<open>One element or member, with what may follow it.\<close>

lemma parse_elements_Inr:
  assumes "parse_elements je st (Suc n) d s = Inr (vs, r)"
  obtains v r1 c r2 where "parse_value je st n d s = Inr (v, r1)" "skip_ws r1 = c # r2"
    "c = 93 \<and> vs = [v] \<and> r = r2 \<or>
     (\<exists>vs'. c = 44 \<and> parse_elements je st n d (skip_ws r2) = Inr (vs', r) \<and> vs = v # vs')"
proof -
  from assms obtain v r1 where v: "parse_value je st n d s = Inr (v, r1)"
      and k: "(case skip_ws r1 of
          [] \<Rightarrow> json_error
        | c # r' \<Rightarrow>
            if c = 93 then Inr ([v], r')
            else if c = 44 then
              rbind (parse_elements je st n d (skip_ws r')) (\<lambda>(vs, r''). Inr (v # vs, r''))
            else json_error) = Inr (vs, r)"
    by (auto simp: rbind_Inr_iff)
  show ?thesis
  proof (cases "skip_ws r1")
    case Nil
    with k show ?thesis by simp
  next
    case (Cons c r2)
    with k show ?thesis
      by (intro that [OF v Cons]) (auto simp: rbind_Inr_iff split: if_splits)
  qed
qed

lemma parse_members_Inr:
  assumes "parse_members je st (Suc n) d (q # s) = Inr (ps, r)"
  obtains k r1 r2 v r3 c r4 where "q = 34" "scan_string s = Inr (k, r1)" "skip_ws r1 = 58 # r2"
    "parse_value je st n d (skip_ws r2) = Inr (v, r3)" "skip_ws r3 = c # r4"
    "c = 125 \<and> ps = [(k, v)] \<and> r = r4 \<or>
     (\<exists>ps'. c = 44 \<and> parse_members je st n d (skip_ws r4) = Inr (ps', r) \<and> ps = (k, v) # ps')"
proof -
  from assms obtain k r1 where k: "q = 34" "scan_string s = Inr (k, r1)"
      and k1: "(case skip_ws r1 of
           [] \<Rightarrow> json_error
         | c # r' \<Rightarrow>
             if c \<noteq> 58 then json_error
             else rbind (parse_value je st n d (skip_ws r')) (\<lambda>(v, r2).
               (case skip_ws r2 of
                  [] \<Rightarrow> json_error
                | c2 # r3 \<Rightarrow>
                    if c2 = 125 then Inr ([(k, v)], r3)
                    else if c2 = 44 then
                      rbind (parse_members je st n d (skip_ws r3)) (\<lambda>(ps, r4). Inr ((k, v) # ps, r4))
                    else json_error))) = Inr (ps, r)"
    by (auto simp: rbind_Inr_iff simp del: split_paired_Ex split: if_split_asm)
  then obtain r2 where r2: "skip_ws r1 = 58 # r2"
    by (cases "skip_ws r1") (auto split: if_split_asm)
  with k1 obtain v r3 where v: "parse_value je st n d (skip_ws r2) = Inr (v, r3)"
      and k2: "(case skip_ws r3 of
                  [] \<Rightarrow> json_error
                | c2 # r3 \<Rightarrow>
                    if c2 = 125 then Inr ([(k, v)], r3)
                    else if c2 = 44 then
                      rbind (parse_members je st n d (skip_ws r3)) (\<lambda>(ps, r4). Inr ((k, v) # ps, r4))
                    else json_error) = Inr (ps, r)"
    by (auto simp: rbind_Inr_iff)
  show ?thesis
  proof (cases "skip_ws r3")
    case Nil
    with k2 show ?thesis by simp
  next
    case (Cons c r4)
    with k2 show ?thesis
      by (intro that [OF k r2 v Cons]) (auto simp: rbind_Inr_iff split: if_splits)
  qed
qed

lemma parse_shorter:
  "parse_value je st n d s = Inr (v, r) \<Longrightarrow> length r < length s"
  "parse_elements je st n d s = Inr (vs, r) \<Longrightarrow> length r < length s"
  "parse_members je st n d s = Inr (ps, r) \<Longrightarrow> length r < length s"
proof (induction je st n d s and je st n d s and je st n d s arbitrary: v r and vs r and ps r
    rule: parse_value_parse_elements_parse_members.induct)
  case (3 je st n d c s)
  have ws: "length x < length (skip_ws s) \<Longrightarrow> length x < Suc (length s)" for x :: pystr
    using skip_ws_le [of s] by simp
  show ?case
    using 3 ws tl_skip_ws [of s]
    by (auto simp: rbind_Inr_iff less_Suc_eq_le split: if_splits option.splits
        dest!: scan_string_shorter scan_word_shorter scan_number_shorter)
next
  case (5 je st n d s)
  from 5(3) show ?case
  proof (cases rule: parse_elements_Inr)
    case (1 v r1 c r2)
    have "length r2 < length s" using 5(1) [OF 1(1)] skip_ws_Cons_shorter [OF 1(2)] by simp
    moreover have "length r \<le> length r2"
      using 1(3) 5(2) [OF 1(2)] skip_ws_le [of r2] by fastforce
    ultimately show ?thesis by simp
  qed
next
  case (8 je st n d q s)
  from 8(3) show ?case
  proof (cases rule: parse_members_Inr)
    case (1 k r1 r2 v r3 c r4)
    have "length r1 < length s" using 1(2) by (rule scan_string_shorter)
    moreover have "length r2 < length r1" using 1(3) by (rule skip_ws_Cons_shorter)
    moreover have "length r3 < length (skip_ws r2)"
      using 8(1) [OF _ 1(3) _ 1(4)] 1(1) by simp
    moreover have "length r4 < length r3" using 1(5) by (rule skip_ws_Cons_shorter)
    moreover have "length r \<le> length r4"
      using 1(6) 8(2) [OF _ 1(3) _ 1(5)] 1(1) skip_ws_le [of r4] by fastforce
    ultimately show ?thesis using skip_ws_le [of r2] by simp
  qed
qed simp_all

lemma no_failure [simp]:
  "scan_string s \<noteq> Inl Failure"
  "number_value je t f \<noteq> Inl Failure"
  "build_object st ps \<noteq> Inl Failure"
  "constant_value st c \<noteq> Inl Failure"
     apply (induction s rule: scan_string.induct)
      apply (auto simp: rbind_Inl_iff number_value_def build_object_def constant_value_def
        split: option.split)
  done

lemma scan_word_no_failure: "scan_word st s = Some (v, r) \<Longrightarrow> v \<noteq> Inl Failure"
  by (auto simp: scan_word_def split: if_splits)

lemma parse_no_failure:
  "2 * length s < n \<Longrightarrow> parse_value je st n d s \<noteq> Inl Failure"
  "2 * length s + 1 < n \<Longrightarrow> parse_elements je st n d s \<noteq> Inl Failure"
  "2 * length s + 1 < n \<Longrightarrow> parse_members je st n d s \<noteq> Inl Failure"
proof (induction je st n d s and je st n d s and je st n d s
    rule: parse_value_parse_elements_parse_members.induct)
  case (3 je st n d c s)
  have ws: "2 * length (skip_ws s) + 1 < n" using 3(3) skip_ws_le [of s] by simp
  show ?case
    using 3(1,2) ws scan_word_no_failure [of st "c # s"]
    by (auto simp: rbind_Inl_iff split: option.split)
next
  case (5 je st n d s)
  have fst: "parse_value je st n d s \<noteq> Inl Failure" using 5(1,3) by simp
  show ?case
  proof (cases "parse_value je st n d s")
    case (Inl e)
    with fst show ?thesis by simp
  next
    case (Inr p)
    obtain v r where p: "p = (v, r)" by fastforce
    have r: "length r < length s" using parse_shorter(1) Inr p by blast
    have "parse_elements je st n d (skip_ws r') \<noteq> Inl Failure" if "skip_ws r = 44 # r'" for r'
      using 5(2) [OF that] skip_ws_Cons_shorter [OF that] skip_ws_le [of r'] r 5(3) by simp
    then show ?thesis
      by (cases "skip_ws r") (auto simp: Inr p rbind_Inl_iff)
  qed
next
  case (8 je st n d q s)
  show ?case
  proof (cases "scan_string s")
    case (Inl e)
    then show ?thesis using no_failure(1) [of s] by auto
  next
    case (Inr p)
    obtain k r where p: "p = (k, r)" by fastforce
    have r: "length r < length s" using scan_string_shorter Inr p by blast
    show ?thesis
    proof (cases "q = 34 \<and> (\<exists>r1. skip_ws r = 58 # r1)")
      case False
      with Inr p show ?thesis by (cases "skip_ws r") auto
    next
      case True
      then obtain r1 where r1: "skip_ws r = 58 # r1" and q: "q = 34" by blast
      have l1: "length (skip_ws r1) < length r"
        using skip_ws_Cons_shorter [OF r1] skip_ws_le [of r1] by simp
      have fst: "parse_value je st n d (skip_ws r1) \<noteq> Inl Failure"
        using 8(1) [OF _ r1] q 8(3) l1 r by simp
      show ?thesis
      proof (cases "parse_value je st n d (skip_ws r1)")
        case (Inl e)
        with fst q Inr p r1 show ?thesis by simp
      next
        case v: (Inr p2)
        obtain v' r2 where p2: "p2 = (v', r2)" by fastforce
        have r2: "length r2 < length r" using parse_shorter(1) v p2 l1 by fastforce
        have "parse_members je st n d (skip_ws r3) \<noteq> Inl Failure" if "skip_ws r2 = 44 # r3" for r3
          using 8(2) [OF _ r1 _ that] q skip_ws_Cons_shorter [OF that] skip_ws_le [of r3] r r2 8(3)
          by simp
        then show ?thesis
          using q Inr p r1 v p2 by (cases "skip_ws r2") (auto simp: rbind_Inl_iff)
      qed
    qed
  qed
qed simp_all

theorem loads_total: "json_loads je st s \<noteq> Inl Failure"
proof -
  have "2 * length (skip_ws s) < 2 * length s + 1" using skip_ws_le [of s] by simp
  from parse_no_failure(1) [OF this] show ?thesis
    by (auto simp: json_loads_def rbind_Inl_iff)
qed

end
