(* ===== verification/Py_Json_Print.thy ===== *)
theory Py_Json_Print
  imports Py_Json
begin

text \<open>
  \<open>json.dumps\<close> with compact separators, with and without \<open>ensure_ascii\<close> and \<open>sort_keys\<close>,
  and the round trip with \<open>json.loads\<close> (\<open>loads_dumps\<close>).
\<close>

subsection \<open>Printing\<close>

definition hex_digit :: "nat \<Rightarrow> nat" where
  "hex_digit v = (if v < 10 then 48 + v else 87 + v)"

definition u_escape :: "nat \<Rightarrow> pystr" where
  "u_escape c = [92, 117, hex_digit (c div 4096), hex_digit (c div 256 mod 16),
     hex_digit (c div 16 mod 16), hex_digit (c mod 16)]"

definition escape_char :: "bool \<Rightarrow> nat \<Rightarrow> pystr" where
  "escape_char ascii c =
     (if c = 34 \<or> c = 92 then [92, c]
      else if c = 8 then [92, 98]
      else if c = 12 then [92, 102]
      else if c = 10 then [92, 110]
      else if c = 13 then [92, 114]
      else if c = 9 then [92, 116]
      else if c < 32 then u_escape c
      else if ascii \<and> 65536 \<le> c then
        u_escape (55296 + (c - 65536) div 1024) @ u_escape (56320 + (c - 65536) mod 1024)
      else if ascii \<and> 127 \<le> c then u_escape c
      else [c])"

definition dump_string :: "bool \<Rightarrow> pystr \<Rightarrow> pystr" where
  "dump_string ascii s = 34 # concat (map (escape_char ascii) s) @ [34]"

text \<open>\<open>floatstr\<close>: the three values that JSON does not have print as words.\<close>

definition dump_float :: "pystr \<Rightarrow> pystr" where
  "dump_float r =
     (if r = uni ''inf'' then uni ''Infinity''
      else if r = uni ''-inf'' then uni ''-Infinity''
      else if r = uni ''nan'' then uni ''NaN''
      else r)"

fun dumps :: "bool \<Rightarrow> json \<Rightarrow> pystr" where
  "dumps ascii JNull = uni ''null''"
| "dumps ascii (JBool b) = (if b then uni ''true'' else uni ''false'')"
| "dumps ascii (JInt i) = dec_int i"
| "dumps ascii (JFloat r) = dump_float r"
| "dumps ascii (JStr s) = dump_string ascii s"
| "dumps ascii (JArr vs) = 91 # join_with [44] (map (dumps ascii) vs) @ [93]"
| "dumps ascii (JObj ps) =
     123 # join_with [44] (map (\<lambda>(k, v). dump_string ascii k @ 58 # dumps ascii v) ps) @ [125]"

fun nonfinite :: "json \<Rightarrow> bool" where
  "nonfinite (JFloat r) = (r \<in> {uni ''inf'', uni ''-inf'', uni ''nan''})"
| "nonfinite (JArr vs) = list_ex nonfinite vs"
| "nonfinite (JObj ps) = list_ex (\<lambda>(k, v). nonfinite v) ps"
| "nonfinite _ = False"

text \<open>The order of strings, and \<open>sort_keys=True\<close>.\<close>

fun str_less :: "pystr \<Rightarrow> pystr \<Rightarrow> bool" where
  "str_less s [] = False"
| "str_less [] (b # t) = True"
| "str_less (a # s) (b # t) = (a < b \<or> a = b \<and> str_less s t)"

fun insert_pair :: "pystr \<times> 'a \<Rightarrow> (pystr \<times> 'a) list \<Rightarrow> (pystr \<times> 'a) list" where
  "insert_pair p [] = [p]"
| "insert_pair p (q # qs) = (if str_less (fst q) (fst p) then q # insert_pair p qs else p # q # qs)"

definition sort_pairs :: "(pystr \<times> 'a) list \<Rightarrow> (pystr \<times> 'a) list" where
  "sort_pairs ps = foldr insert_pair ps []"

fun sort_keys :: "json \<Rightarrow> json" where
  "sort_keys (JArr vs) = JArr (map sort_keys vs)"
| "sort_keys (JObj ps) = JObj (sort_pairs (map (\<lambda>(k, v). (k, sort_keys v)) ps))"
| "sort_keys v = v"

lemma set_insert_pair: "set (insert_pair p qs) = insert p (set qs)"
  by (induction qs) auto

lemma set_sort_pairs [simp]: "set (sort_pairs ps) = set ps"
  by (induction ps) (auto simp: sort_pairs_def set_insert_pair)

subsection \<open>What prints so that it can be read back\<close>

definition delim :: "pystr \<Rightarrow> bool" where
  "delim r \<longleftrightarrow> r = [] \<or> hd r \<in> {44, 93, 125}"

text \<open>A \<open>repr\<close> of a finite float: a float numeral that reads back as the same double.\<close>

definition float_ok :: "json_env \<Rightarrow> pystr \<Rightarrow> bool" where
  "float_ok je r \<longleftrightarrow> scan_number r = Some (r, True, []) \<and> float_repr je r = r"

fun printable :: "json_env \<Rightarrow> nat \<Rightarrow> json \<Rightarrow> bool" where
  "printable je d (JInt i) = (length (dec_nat (nat \<bar>i\<bar>)) \<le> 4300)"
| "printable je d (JFloat r) = float_ok je r"
| "printable je 0 (JArr vs) = False"
| "printable je (Suc d) (JArr vs) = list_all (printable je d) vs"
| "printable je 0 (JObj ps) = False"
| "printable je (Suc d) (JObj ps) =
     (distinct (map fst ps) \<and> list_all (\<lambda>(k, v). printable je d v) ps)"
| "printable je d _ = True"

subsection \<open>Numerals in context\<close>

lemma digits_delim:
  assumes "delim r"
  shows "takeWhile is_digit (s @ r) = takeWhile is_digit s"
    and "dropWhile is_digit (s @ r) = dropWhile is_digit s @ r"
proof -
  have "takeWhile is_digit r = [] \<and> dropWhile is_digit r = r"
    using assms by (cases r) (auto simp: delim_def is_digit_def)
  then show "takeWhile is_digit (s @ r) = takeWhile is_digit s"
      "dropWhile is_digit (s @ r) = dropWhile is_digit s @ r"
    by (induction s) auto
qed

lemma scan_integer_delim:
  "delim r \<Longrightarrow> scan_integer s = Some (i, s2) \<Longrightarrow> scan_integer (s @ r) = Some (i, s2 @ r)"
  by (cases s) (auto simp: scan_integer_def digits_delim split: if_splits)

lemma delim_Cons: "delim (c # r) \<Longrightarrow> \<not> is_digit c \<and> c \<noteq> 46 \<and> c \<noteq> 101 \<and> c \<noteq> 69 \<and> c \<noteq> 43 \<and> c \<noteq> 45"
  by (auto simp: delim_def is_digit_def)

lemma scan_fraction_delim:
  assumes "delim r" and "scan_fraction s = (f, s3)"
  shows "scan_fraction (s @ r) = (f, s3 @ r)"
proof -
  consider "s = []" | p where "s = [p]" | p c t where "s = p # c # t"
    by (metis list.exhaust)
  then show ?thesis
  proof cases
    case 1
    with assms show ?thesis by (cases r; cases "tl r") (auto simp: scan_fraction_def dest!: delim_Cons)
  next
    case 2
    with assms show ?thesis by (cases r) (auto simp: scan_fraction_def dest!: delim_Cons)
  next
    case 3
    with assms show ?thesis by (auto simp: scan_fraction_def digits_delim split: if_splits)
  qed
qed

lemma scan_exponent_delim:
  assumes "delim r" and "scan_exponent s = (e, s4)"
  shows "scan_exponent (s @ r) = (e, s4 @ r)"
proof -
  consider "s = []" | p where "s = [p]" | p c where "s = [p, c]" | p c d t where "s = p # c # d # t"
    by (metis list.exhaust)
  then show ?thesis
  proof cases
    case 1
    with assms show ?thesis by (cases r) (auto simp: scan_exponent_def dest!: delim_Cons)
  next
    case 2
    with assms show ?thesis
      by (cases r) (auto simp: scan_exponent_def dest!: delim_Cons split: if_splits)
  next
    case 3
    with assms show ?thesis
      by (cases r) (auto simp: scan_exponent_def digits_delim dest!: delim_Cons split: if_splits)
  next
    case 4
    with assms show ?thesis by (auto simp: scan_exponent_def digits_delim split: if_splits)
  qed
qed

lemma scan_number_delim:
  assumes "delim r" and "scan_number s = Some (t, f, s4)"
  shows "scan_number (s @ r) = Some (t, f, s4 @ r)"
proof -
  obtain sign s1 where s1: "scan_sign s = (sign, s1)" by fastforce
  with assms(2) obtain i s2 where s2: "scan_integer s1 = Some (i, s2)"
    by (auto simp: scan_number_def split: option.splits)
  then have "s1 \<noteq> []" by (auto simp: scan_integer_def)
  with s1 have "scan_sign (s @ r) = (sign, s1 @ r)"
    by (cases s) (auto simp: scan_sign_def split: if_splits)
  moreover obtain fr s3 where s3: "scan_fraction s2 = (fr, s3)" by fastforce
  moreover obtain ex s5 where s5: "scan_exponent s3 = (ex, s5)" by fastforce
  ultimately show ?thesis
    using assms s1 s2 scan_integer_delim [OF assms(1) s2] scan_fraction_delim [OF assms(1) s3]
      scan_exponent_delim [OF assms(1) s5]
    by (simp add: scan_number_def)
qed

lemma scan_number_start:
  assumes "scan_number s = Some x"
  shows "\<exists>c t. s = c # t \<and> (is_digit c \<or> c = 45 \<and> t \<noteq> [] \<and> is_digit (hd t))"
proof -
  from assms obtain i s2 where "scan_integer (snd (scan_sign s)) = Some (i, s2)"
    by (auto simp: scan_number_def split: option.splits prod.splits)
  then have "\<exists>c t. snd (scan_sign s) = c # t \<and> is_digit c"
    by (auto simp: scan_integer_def is_digit_def split: list.splits if_splits)
  then show ?thesis
    by (cases s) (auto simp: scan_sign_def split: if_splits)
qed

lemma scan_number_not_word:
  assumes "scan_number s = Some x"
  shows "scan_word st s = None"
proof -
  obtain c t where s: "s = c # t" "is_digit c \<or> c = 45 \<and> t \<noteq> [] \<and> is_digit (hd t)"
    using scan_number_start [OF assms] by blast
  have c: "c \<noteq> 110" "c \<noteq> 116" "c \<noteq> 102" "c \<noteq> 78" "c \<noteq> 73"
    using s(2) by (auto simp: is_digit_def)
  have "\<not> (c = 45 \<and> startswith t (uni ''Infinity''))"
    using s(2) by (cases t) (auto simp: is_digit_def uni_def)
  with c show ?thesis unfolding s(1) by (simp add: scan_word_def uni_def)
qed

subsection \<open>Strings read back\<close>

lemma hex_value_digit [simp]: "v < 16 \<Longrightarrow> hex_value (hex_digit v) = Some v"
  by (auto simp: hex_value_def hex_digit_def)

lemma hex4_digits:
  assumes "c < 65536"
  shows "hex4 (hex_digit (c div 4096)) (hex_digit (c div 256 mod 16)) (hex_digit (c div 16 mod 16))
    (hex_digit (c mod 16)) = Some c"
proof -
  have d: "c div 256 = c div 16 div 16" "c div 4096 = c div 16 div 16 div 16"
    by (simp_all add: div_mult2_eq [symmetric])
  have "c = c div 16 * 16 + c mod 16" "c div 16 = c div 16 div 16 * 16 + c div 16 mod 16"
      "c div 16 div 16 = c div 16 div 16 div 16 * 16 + c div 16 div 16 mod 16"
    by simp_all
  then have "c div 4096 * 4096 + c div 256 mod 16 * 256 + c div 16 mod 16 * 16 + c mod 16 = c"
    unfolding d by linarith
  moreover have "c div 4096 < 16" using assms by (simp add: less_mult_imp_div_less)
  ultimately show ?thesis by (simp add: hex4_def)
qed

text \<open>In the plain form every character is read back, whatever follows.\<close>

lemma scan_escaped:
  "scan_string (escape_char False c @ r) = rbind (scan_string r) (\<lambda>(t, r'). Inr (c # t, r'))"
proof (cases "c < 32 \<and> c \<notin> {8, 9, 10, 12, 13}")
  case True
  then have "escape_char False c = u_escape c" by (auto simp: escape_char_def)
  moreover have "read_escape (117 # hex_digit (c div 4096) # hex_digit (c div 256 mod 16) #
      hex_digit (c div 16 mod 16) # hex_digit (c mod 16) # r) = Some (c, r)"
    using True hex4_digits [of c] by simp
  ultimately show ?thesis by (simp add: u_escape_def del: read_escape.simps)
next
  case False
  then show ?thesis by (auto simp: escape_char_def simple_escape_def)
qed

lemma scan_dumped: "scan_string (concat (map (escape_char False) s) @ 34 # r) = Inr (s, r)"
  by (induction s) (simp_all add: scan_escaped)

subsection \<open>Integers read back\<close>

lemma dec_nat_hd: "hd (dec_nat n) = 48 \<longleftrightarrow> n = 0"
proof (induction n rule: dec_nat.induct)
  case (1 n)
  show ?case
  proof (cases "n < 10")
    case True
    then show ?thesis by (subst dec_nat.simps) auto
  next
    case False
    with 1 show ?thesis by (subst dec_nat.simps) auto
  qed
qed

lemma dec_nat_all_digits: "list_all is_digit (dec_nat n)"
  by (simp add: list_all_iff dec_nat_digits)

lemma scan_integer_dec: "scan_integer (dec_nat n) = Some (dec_nat n, [])"
proof (cases "dec_nat n")
  case Nil
  then show ?thesis by simp
next
  case (Cons c r)
  have all: "is_digit c" "list_all is_digit r"
    using dec_nat_all_digits [of n] Cons by simp_all
  then have tw: "takeWhile is_digit r = r" "dropWhile is_digit r = []"
    by (simp_all add: takeWhile_eq_all_conv dropWhile_eq_Nil_conv list_all_iff)
  show ?thesis
  proof (cases "n = 0")
    case True
    then show ?thesis by (simp add: dec_nat.simps scan_integer_def)
  next
    case False
    then have "c \<noteq> 48" using dec_nat_hd [of n] Cons by simp
    with all tw Cons show ?thesis by (auto simp: scan_integer_def is_digit_def)
  qed
qed

lemma scan_number_dec:
  "scan_number (dec_int i) = Some (dec_int i, False, []) \<and> int_of_numeral (dec_int i) = i \<and>
   length (filter is_digit (dec_int i)) = length (dec_nat (nat \<bar>i\<bar>))"
proof -
  have flt: "filter is_digit (dec_nat n) = dec_nat n" for n
    by (simp add: filter_id_conv dec_nat_digits)
  have hd: "hd (dec_nat n) \<noteq> 45" for n
    using dec_nat_all_digits [of n] by (cases "dec_nat n") (auto simp: is_digit_def)
  have num: "int_of_numeral (dec_nat n) = int n" for n
    using hd [of n] nat_of_digits_dec [of n]
    by (cases "dec_nat n") (auto simp: int_of_numeral_def)
  have "\<not> is_digit 45" by (simp add: is_digit_def)
  then show ?thesis
    using hd num flt scan_integer_dec
    by (auto simp: dec_int_def scan_number_def scan_sign_def scan_fraction_def scan_exponent_def
        int_of_numeral_def)
qed

subsection \<open>Values read back\<close>

lemma float_ok_print:
  assumes "float_ok je r"
  shows "dump_float r = r" and "\<exists>c t. r = c # t \<and> (is_digit c \<or> c = 45)"
proof -
  obtain c t where r: "r = c # t" "is_digit c \<or> c = 45 \<and> t \<noteq> [] \<and> is_digit (hd t)"
    using scan_number_start [of r "(r, True, [])"] assms by (auto simp: float_ok_def)
  then show "\<exists>c t. r = c # t \<and> (is_digit c \<or> c = 45)" by blast
  from r show "dump_float r = r"
    by (cases t) (auto simp: dump_float_def uni_def is_digit_def)
qed

lemma dec_int_start: "\<exists>c t. dec_int i = c # t \<and> (is_digit c \<or> c = 45)"
proof (cases "i < 0")
  case False
  then show ?thesis
    using dec_nat_all_digits [of "nat i"] by (cases "dec_nat (nat i)") (auto simp: dec_int_def)
qed (simp add: dec_int_def)

lemma dumps_start:
  assumes "printable je d v"
  shows "\<exists>c t. dumps False v = c # t \<and> c \<notin> {32, 9, 10, 13, 93, 125, 65279}"
proof -
  have num: "is_digit c \<or> c = 45 \<Longrightarrow> c \<notin> {32, 9, 10, 13, 93, 125, 65279}" for c
    by (auto simp: is_digit_def)
  show ?thesis
  proof (cases v)
    case (JInt i)
    with dec_int_start [of i] num show ?thesis by auto
  next
    case (JFloat r)
    with assms float_ok_print [of je r] num show ?thesis by auto
  qed (simp_all add: uni_def dump_string_def)
qed

lemma skip_ws_start: "c \<notin> {32, 9, 10, 13} \<Longrightarrow> skip_ws (c # t) = c # t"
  by (simp add: skip_ws_def)

lemma skip_ws_dumps: "printable je d v \<Longrightarrow> skip_ws (dumps False v @ r) = dumps False v @ r"
  using dumps_start [of je d v] by (auto simp: skip_ws_start)

lemma parse_number:
  assumes "scan_number t = Some (t, f, [])" "number_value je t f = Inr v" "delim r" "n \<noteq> 0"
  shows "parse_value je st n d (t @ r) = Inr (v, r)"
proof -
  obtain m where n: "n = Suc m" using assms(4) by (cases n) auto
  have scan: "scan_number (t @ r) = Some (t, f, r)"
    using scan_number_delim [OF assms(3,1)] by simp
  obtain c s where t: "t = c # s" "is_digit c \<or> c = 45"
    using scan_number_start [OF assms(1)] by blast
  then have "c \<noteq> 34" "c \<noteq> 123" "c \<noteq> 91" by (auto simp: is_digit_def)
  with scan scan_number_not_word [OF scan, of st] assms(2) show ?thesis
    by (simp add: n t(1))
qed

definition reads_back :: "json_env \<Rightarrow> bool \<Rightarrow> json \<Rightarrow> bool" where
  "reads_back je st v \<longleftrightarrow> (\<forall>d r n. printable je d v \<longrightarrow> delim r \<longrightarrow>
     2 * length (dumps False v @ r) < n \<longrightarrow>
     parse_value je st n d (dumps False v @ r) = Inr (v, r))"

lemma reads_backD:
  "reads_back je st v \<Longrightarrow> printable je d v \<Longrightarrow> delim r \<Longrightarrow>
   2 * length (dumps False v @ r) < n \<Longrightarrow>
   parse_value je st n d (dumps False v @ r) = Inr (v, r)"
  unfolding reads_back_def by blast

lemma parse_elements_dumps:
  assumes "vs \<noteq> []" "\<forall>v \<in> set vs. reads_back je st v" "list_all (printable je d) vs"
    and "2 * length (join_with [44] (map (dumps False) vs) @ 93 # r) + 1 < n"
  shows "parse_elements je st n d (join_with [44] (map (dumps False) vs) @ 93 # r) = Inr (vs, r)"
  using assms
proof (induction vs arbitrary: n)
  case Nil
  then show ?case by simp
next
  case (Cons v vs)
  obtain m where n: "n = Suc m" using Cons.prems(4) by (cases n) auto
  show ?case
  proof (cases "vs = []")
    case True
    have "parse_value je st m d (dumps False v @ 93 # r) = Inr (v, 93 # r)"
      using Cons.prems True unfolding reads_back_def by (simp add: n delim_def)
    with True show ?thesis by (simp add: n skip_ws_start)
  next
    case False
    let ?rest = "join_with [44] (map (dumps False) vs) @ 93 # r"
    have j: "join_with [44] (map (dumps False) (v # vs)) @ 93 # r = dumps False v @ 44 # ?rest"
      using False by (simp add: join_with_Cons)
    have "parse_value je st m d (dumps False v @ 44 # ?rest) = Inr (v, 44 # ?rest)"
      using Cons.prems j unfolding reads_back_def by (simp add: n delim_def)
    moreover have "parse_elements je st m d ?rest = Inr (vs, r)"
      using Cons.prems j False by (intro Cons.IH) (auto simp: n)
    moreover have "skip_ws ?rest = ?rest"
      using False Cons.prems(3) dumps_start [of je d "hd vs"]
      by (cases vs; cases "tl vs") (auto simp: skip_ws_start join_with_Cons)
    ultimately show ?thesis unfolding j unfolding n by (simp add: skip_ws_start)
  qed
qed

text \<open>With distinct keys both kinds of object are the members in order.\<close>

lemma fold_dset_fresh:
  "distinct (map fst (ps @ qs)) \<Longrightarrow> fold (\<lambda>(k, v). dset k v) qs ps = ps @ qs"
proof (induction qs arbitrary: ps)
  case Nil
  then show ?case by simp
next
  case (Cons q qs)
  obtain k v where q: "q = (k, v)" by fastforce
  have "k \<notin> fst ` set ps" using Cons.prems q by auto
  then have "dset k v ps = ps @ [(k, v)]"
    by (induction ps) auto
  with Cons.IH [of "ps @ [(k, v)]"] Cons.prems q show ?case by simp
qed

lemma build_object_distinct: "distinct (map fst ps) \<Longrightarrow> build_object st ps = Inr (JObj ps)"
  using fold_dset_fresh [of "[]" ps] by (simp add: build_object_def)

definition dump_member :: "pystr \<times> json \<Rightarrow> pystr" where
  "dump_member p = dump_string False (fst p) @ 58 # dumps False (snd p)"

lemma dumps_object:
  "dumps False (JObj ps) = 123 # join_with [44] (map dump_member ps) @ [125]"
proof -
  have "(\<lambda>(k, v). dump_string False k @ 58 # dumps False v) = dump_member"
    by (auto simp: dump_member_def)
  then show ?thesis by simp
qed

lemma parse_members_dumps:
  assumes "ps \<noteq> []" "\<forall>p \<in> set ps. reads_back je st (snd p)"
    "list_all (\<lambda>(k, v). printable je d v) ps"
    and "2 * length (join_with [44] (map dump_member ps) @ 125 # r) + 1 < n"
  shows "parse_members je st n d (join_with [44] (map dump_member ps) @ 125 # r) = Inr (ps, r)"
  using assms
proof (induction ps arbitrary: n)
  case Nil
  then show ?case by simp
next
  case (Cons p ps)
  obtain m where n: "n = Suc m" using Cons.prems(4) by (cases n) auto
  obtain k v where p: "p = (k, v)" by fastforce
  let ?tail = "if ps = [] then 125 # r else 44 # join_with [44] (map dump_member ps) @ 125 # r"
  have j: "join_with [44] (map dump_member (p # ps)) @ 125 # r =
      34 # concat (map (escape_char False) k) @ 34 # 58 # dumps False v @ ?tail"
    by (cases ps) (simp_all add: p dump_member_def dump_string_def)
  have pr: "printable je d v" "reads_back je st v" using Cons.prems by (auto simp: p)
  have "2 * length (dumps False v @ ?tail) < m"
    using Cons.prems(4) unfolding j n by simp
  then have val: "parse_value je st m d (dumps False v @ ?tail) = Inr (v, ?tail)"
    by (intro reads_backD [OF pr(2,1)]) (simp_all add: delim_def)
  have ws: "skip_ws (dumps False v @ ?tail) = dumps False v @ ?tail"
    using pr(1) by (rule skip_ws_dumps)
  note step = j n scan_dumped skip_ws_start ws val
  show ?case
  proof (cases "ps = []")
    case True
    then show ?thesis
      using val ws unfolding j unfolding n by (simp add: scan_dumped skip_ws_start p)
  next
    case False
    let ?rest = "join_with [44] (map dump_member ps) @ 125 # r"
    have "parse_members je st m d ?rest = Inr (ps, r)"
      using Cons.prems j False by (intro Cons.IH) (auto simp: n)
    moreover have "skip_ws ?rest = ?rest"
      using False by (cases ps; cases "tl ps")
        (auto simp: skip_ws_start join_with_Cons dump_member_def dump_string_def)
    ultimately show ?thesis
      using val ws False unfolding j unfolding n by (simp add: scan_dumped skip_ws_start p)
  qed
qed

lemma parse_dumps: "reads_back je st v"
proof (induction v)
  case (JArr vs)
  show ?case
    unfolding reads_back_def
  proof (intro allI impI)
    fix d r n
    assume pr: "printable je d (JArr vs)" and "delim r" and n: "2 * length (dumps False (JArr vs) @ r) < n"
    obtain e where d: "d = Suc e" using pr by (cases d) auto
    obtain m where m: "n = Suc m" using n by (cases n) auto
    show "parse_value je st n d (dumps False (JArr vs) @ r) = Inr (JArr vs, r)"
    proof (cases "vs = []")
      case True
      then show ?thesis by (simp add: m d skip_ws_start)
    next
      case False
      let ?rest = "join_with [44] (map (dumps False) vs) @ 93 # r"
      have "parse_elements je st m e ?rest = Inr (vs, r)"
        using False JArr pr n by (intro parse_elements_dumps) (auto simp: d m)
      moreover have "skip_ws ?rest = ?rest \<and> hd ?rest \<noteq> 93"
        using False pr dumps_start [of je e "hd vs"]
        by (cases vs; cases "tl vs") (auto simp: d skip_ws_start join_with_Cons)
      ultimately show ?thesis by (simp add: m d)
    qed
  qed
next
  case (JObj ps)
  show ?case
    unfolding reads_back_def
  proof (intro allI impI)
    fix d r n
    assume pr: "printable je d (JObj ps)" and "delim r" and n: "2 * length (dumps False (JObj ps) @ r) < n"
    obtain e where d: "d = Suc e" using pr by (cases d) auto
    obtain m where m: "n = Suc m" using n by (cases n) auto
    show "parse_value je st n d (dumps False (JObj ps) @ r) = Inr (JObj ps, r)"
    proof (cases "ps = []")
      case True
      then show ?thesis by (simp add: m d skip_ws_start)
    next
      case False
      let ?rest = "join_with [44] (map dump_member ps) @ 125 # r"
      have "parse_members je st m e ?rest = Inr (ps, r)"
        using False JObj pr n unfolding dumps_object
        by (intro parse_members_dumps) (auto simp: d m)
      moreover have "skip_ws ?rest = ?rest \<and> hd ?rest \<noteq> 125"
        using False by (cases ps; cases "tl ps")
          (auto simp: skip_ws_start join_with_Cons dump_member_def dump_string_def)
      moreover have "build_object st ps = Inr (JObj ps)"
        using pr by (simp add: d build_object_distinct)
      ultimately show ?thesis unfolding dumps_object by (simp add: m d)
    qed
  qed
next
  case (JInt i)
  show ?case
    unfolding reads_back_def
    using scan_number_dec [of i] by (auto intro!: parse_number simp: number_value_def)
next
  case (JFloat t)
  show ?case
    unfolding reads_back_def
    using float_ok_print(1) [of je t]
    by (auto intro!: parse_number simp: number_value_def float_ok_def)
next
  case (JStr s)
  have "scan_string (concat (map (escape_char False) s) @ 34 # r) = Inr (s, r)" for r
    by (rule scan_dumped)
  then have "parse_value je st (Suc n) d (dumps False (JStr s) @ r) = Inr (JStr s, r)" for d r n
    by (simp add: dump_string_def)
  then show ?case unfolding reads_back_def by (auto simp only: gr0_conv_Suc dest: less_imp_Suc_add)
next
  case JNull
  have "parse_value je st (Suc n) d (dumps False JNull @ r) = Inr (JNull, r)" for d r n
    by (simp add: scan_word_def uni_def)
  then show ?case unfolding reads_back_def by (auto simp only: dest: less_imp_Suc_add)
next
  case (JBool b)
  have "parse_value je st (Suc n) d (dumps False (JBool b) @ r) = Inr (JBool b, r)" for d r n
    by (simp add: scan_word_def uni_def)
  then show ?case unfolding reads_back_def by (auto simp only: dest: less_imp_Suc_add)
qed

theorem loads_dumps:
  assumes "printable je (nest_limit je) v"
  shows "json_loads je st (dumps False v) = Inr v"
proof -
  obtain c t where start: "dumps False v = c # t" "c \<notin> {32, 9, 10, 13, 93, 125, 65279}"
    using dumps_start [OF assms] by blast
  have "parse_value je st (2 * length (dumps False v) + 1) (nest_limit je) (dumps False v @ []) = Inr (v, [])"
    by (rule reads_backD [OF parse_dumps assms]) (simp_all add: delim_def)
  moreover have "skip_ws (dumps False v) = dumps False v"
    using skip_ws_dumps [OF assms, of "[]"] by simp
  moreover have "skip_ws [] = []" by (simp add: skip_ws_def)
  ultimately show ?thesis using start by (simp add: json_loads_def del: parse_value.simps)
qed

end
