(* ===== verification/Contracts.thy ===== *)
theory Contracts
  imports Complex_Main Py_Json_Print
begin

text \<open>
  The data contracts of inspection, \<open>inspection/contracts.py\<close>: the routing configuration,
  the HTTP message, the verdict and the evidence it is recorded as.  Field names carry the
  prefix of their class (\<open>tr_\<close> tool rule, \<open>rr_\<close> route rule, \<open>ic_\<close> configuration, \<open>hm_\<close>
  message, \<open>vd_\<close> verdict, \<open>ed_\<close> evidence).
\<close>

datatype pii_choice = Redact_pii | Block_pii
datatype rule_effect = Allow_rule | Block_rule
datatype route_protocol = Http | Mcp
datatype llm_provider = Openai | Anthropic | Google | Openrouter
datatype inspection_mode = Inline | Mirror
datatype verdict_action = V_allow | V_block | V_redact | V_approval_required | V_unknown
datatype pii_scope = Scope_global | Scope_route | Scope_tool
datatype authorization_scope = Scope_none | Scope_local_policy | Scope_access_broker

record tool_rule =
  tr_action :: pystr
  tr_effect :: rule_effect
  tr_pii_action :: "pii_choice option"
  tr_resource :: "pystr option"
  tr_resource_pointer :: "pystr option"
  tr_header_parameters :: "(pystr, pystr) dict"

record route_rule =
  rr_authority :: pystr
  rr_path :: pystr
  rr_method :: pystr
  rr_required_headers :: "(pystr, pystr) dict"
  rr_protocol :: route_protocol
  rr_pii_action :: "pii_choice option"
  rr_mcp_versions :: "pystr list"
  rr_tool :: pystr
  rr_rule :: "tool_rule option"
  rr_tools :: "(pystr, tool_rule) dict"
  rr_llm_provider :: "llm_provider option"
  rr_allowed_models :: "pystr list"
  rr_redact_fields :: "pystr list"

record inspection_config =
  ic_access_broker_enabled :: bool
  ic_trusted_sources :: "pystr list"
  ic_routes :: "route_rule list"
  ic_allowed_egress_origins :: "pystr list"
  ic_credential_headers :: "pystr list"
  ic_max_body_bytes :: nat
  ic_max_json_depth :: nat
  ic_pii_action :: pii_choice
  ic_pii_min_score :: rat
  ic_attestation_max_age_seconds :: int
  ic_nonce_db :: pystr
  ic_broker_store :: pystr
  ic_audit_path :: pystr

definition inspection_config_ok :: "inspection_config \<Rightarrow> bool" where
  "inspection_config_ok c \<longleftrightarrow>
     1024 \<le> ic_max_body_bytes c \<and> ic_max_body_bytes c \<le> 16777216 \<and>
     1 \<le> ic_max_json_depth c \<and> ic_max_json_depth c \<le> 100 \<and>
     0 \<le> ic_pii_min_score c \<and> ic_pii_min_score c \<le> 1 \<and>
     1 \<le> ic_attestation_max_age_seconds c \<and> ic_attestation_max_age_seconds c \<le> 300"

record http_message =
  hm_method :: pystr
  hm_authority :: pystr
  hm_path :: pystr
  hm_headers :: "(pystr, pystr) dict"
  hm_body :: bytes
  hm_complete :: bool

abbreviation header :: "http_message \<Rightarrow> string \<Rightarrow> pystr option" where
  "header m name \<equiv> map_of (hm_headers m) (uni name)"

record verdict =
  vd_action :: verdict_action
  vd_reason :: string
  vd_mode :: inspection_mode
  vd_body :: "bytes option"
  vd_entities :: "pystr list"
  vd_coverage :: string
  vd_identity_verified :: bool
  vd_request_digest :: "pystr option"
  vd_approval_id :: "pystr option"
  vd_tool :: "pystr option"
  vd_access_action :: "pystr option"
  vd_source_verified :: bool
  vd_authorization_scope :: authorization_scope
  vd_pii_policy_action :: "pii_choice option"
  vd_pii_policy_scope :: "pii_scope option"

text \<open>\<open>Verdict(action, reason, mode)\<close> with the defaults of the other fields.\<close>

definition new_verdict :: "verdict_action \<Rightarrow> string \<Rightarrow> inspection_mode \<Rightarrow> verdict" where
  "new_verdict act why mode =
     \<lparr>vd_action = act, vd_reason = why, vd_mode = mode, vd_body = None, vd_entities = [],
      vd_coverage = ''complete'', vd_identity_verified = False, vd_request_digest = None,
      vd_approval_id = None, vd_tool = None, vd_access_action = None, vd_source_verified = False,
      vd_authorization_scope = Scope_none, vd_pii_policy_action = None, vd_pii_policy_scope = None\<rparr>"

text \<open>\<open>sorted(set(entities))\<close>.\<close>

fun insert_str :: "pystr \<Rightarrow> pystr list \<Rightarrow> pystr list" where
  "insert_str s [] = [s]"
| "insert_str s (t # ts) =
     (if s = t then t # ts else if str_less t s then t # insert_str s ts else s # t # ts)"

definition sorted_set :: "pystr list \<Rightarrow> pystr list" where
  "sorted_set ss = foldr insert_str ss []"

lemma set_insert_str: "set (insert_str s ts) = insert s (set ts)"
  by (induction ts) auto

lemma set_sorted_set [simp]: "set (sorted_set ss) = set ss"
  by (induction ss) (auto simp: sorted_set_def set_insert_str)

record evidence =
  ed_mode :: inspection_mode
  ed_phase :: string
  ed_decision :: verdict_action
  ed_hypothetical_action :: "verdict_action option" \<comment> \<open>\<open>would_\<close> action\<close>
  ed_enforcement_applied :: bool
  ed_enforcement_requested :: bool
  ed_reason :: string
  ed_coverage :: string
  ed_identity_verified :: bool
  ed_source_verified :: bool
  ed_authorization_scope :: authorization_scope
  ed_pii_policy_action :: "pii_choice option"
  ed_pii_policy_scope :: "pii_scope option"
  ed_request_digest :: "pystr option"
  ed_entities :: "pystr list"
  ed_tool :: "pystr option"
  ed_access_action :: "pystr option"
  ed_approval_id :: "pystr option"

definition evidence_of :: "verdict \<Rightarrow> string \<Rightarrow> bool \<Rightarrow> evidence" where
  "evidence_of v phase applied =
     \<lparr>ed_mode = vd_mode v, ed_phase = phase, ed_decision = vd_action v,
      ed_hypothetical_action = (if vd_mode v = Mirror then Some (vd_action v) else None),
      ed_enforcement_applied = (applied \<and> vd_mode v = Inline),
      ed_enforcement_requested = (vd_mode v = Inline \<and> vd_action v \<noteq> V_unknown),
      ed_reason = vd_reason v, ed_coverage = vd_coverage v,
      ed_identity_verified = vd_identity_verified v, ed_source_verified = vd_source_verified v,
      ed_authorization_scope = vd_authorization_scope v,
      ed_pii_policy_action = vd_pii_policy_action v, ed_pii_policy_scope = vd_pii_policy_scope v,
      ed_request_digest = vd_request_digest v, ed_entities = sorted_set (vd_entities v),
      ed_tool = vd_tool v, ed_access_action = vd_access_action v,
      ed_approval_id = (if vd_mode v = Inline then vd_approval_id v else None)\<rparr>"

end
