(* ===== verification/Protocol.thy ===== *)
theory Protocol
  imports Contracts
begin

text \<open>
  \<open>inspection/protocol.py\<close>: strict JSON, JSON pointers, validation and routing of messages,
  the semantics of an MCP or HTTP call, and the egress check on nested URLs.
\<close>

abbreviation fails :: "string \<Rightarrow> 'a result" where
  "fails r \<equiv> Inl (Inspection r)"

subsection \<open>Strict JSON\<close>

text \<open>The nested \<open>check\<close>: nodes counted in pre-order, limits tested at each node.\<close>

fun check_value :: "nat \<Rightarrow> nat \<Rightarrow> nat \<Rightarrow> json \<Rightarrow> nat \<Rightarrow> nat result"
  and check_values :: "nat \<Rightarrow> nat \<Rightarrow> nat \<Rightarrow> json list \<Rightarrow> nat \<Rightarrow> nat result"
  and check_members :: "nat \<Rightarrow> nat \<Rightarrow> nat \<Rightarrow> (pystr \<times> json) list \<Rightarrow> nat \<Rightarrow> nat result" where
  "check_value max_depth max_nodes depth v nodes =
     (if max_nodes < Suc nodes then fails ''json_node_limit_exceeded''
      else if max_depth < depth then fails ''json_depth_exceeded''
      else case v of
        JFloat r \<Rightarrow> if nonfinite v then fails ''nonfinite_json_number'' else Inr (Suc nodes)
      | JObj ps \<Rightarrow> check_members max_depth max_nodes (Suc depth) ps (Suc nodes)
      | JArr vs \<Rightarrow> check_values max_depth max_nodes (Suc depth) vs (Suc nodes)
      | _ \<Rightarrow> Inr (Suc nodes))"
| "check_values max_depth max_nodes depth [] nodes = Inr nodes"
| "check_values max_depth max_nodes depth (v # vs) nodes =
     rbind (check_value max_depth max_nodes depth v nodes)
       (check_values max_depth max_nodes depth vs)"
| "check_members max_depth max_nodes depth [] nodes = Inr nodes"
| "check_members max_depth max_nodes depth ((k, v) # ps) nodes =
     rbind (check_value max_depth max_nodes depth v nodes)
       (check_members max_depth max_nodes depth ps)"

declare check_value.simps [simp del]

text \<open>Every \<open>ValueError\<close>, \<open>UnicodeError\<close> or \<open>RecursionError\<close> but an \<open>InspectionError\<close>
  becomes \<open>invalid_json\<close>.\<close>

fun json_failure :: "exn \<Rightarrow> exn" where
  "json_failure (Inspection r) = Inspection r"
| "json_failure e = Inspection ''invalid_json''"

definition json_nodes :: nat where
  "json_nodes = 8192"

definition strict_json :: "json_env \<Rightarrow> nat \<Rightarrow> bytes \<Rightarrow> json result" where
  "strict_json je max_depth raw =
     (case utf8_decode raw of
        None \<Rightarrow> fails ''invalid_json''
      | Some s \<Rightarrow>
          (case rbind (json_loads je True s) (\<lambda>v.
                  rbind (check_value max_depth json_nodes 0 v 0) (\<lambda>_. Inr v)) of
             Inl e \<Rightarrow> Inl (json_failure e)
           | Inr v \<Rightarrow> Inr v))"

definition encode_json :: "json \<Rightarrow> bytes result" where
  "encode_json v =
     (if nonfinite v then Inl (Value_error ''nonfinite'')
      else case utf8_encode (dumps False v) of None \<Rightarrow> Inl Unicode_error | Some b \<Rightarrow> Inr b)"

subsection \<open>JSON pointers\<close>

text \<open>\<open>part.replace("~1", "/").replace("~0", "~")\<close>.\<close>

fun replace_pair :: "nat \<Rightarrow> nat \<Rightarrow> nat \<Rightarrow> pystr \<Rightarrow> pystr" where
  "replace_pair a b r (x # y # s) =
     (if x = a \<and> y = b then r # replace_pair a b r s else x # replace_pair a b r (y # s))"
| "replace_pair a b r s = s"

definition pointer_key :: "pystr \<Rightarrow> pystr" where
  "pointer_key part = replace_pair 126 48 126 (replace_pair 126 49 47 part)"

text \<open>\<open>int(key)\<close>: white space around, a sign, decimal digits of any script, single
  underscores between digits; \<open>None\<close> for its \<open>ValueError\<close>.\<close>

definition decimal_zeros :: "nat list" where
  "decimal_zeros = [48, 1632, 1776, 1984, 2406, 2534, 2662, 2790, 2918, 3046, 3174, 3302, 3430,
     3558, 3664, 3792, 3872, 4160, 4240, 6112, 6160, 6470, 6608, 6784, 6800, 6992, 7088, 7232,
     7248, 42528, 43216, 43264, 43472, 43504, 43600, 44016, 65296, 66720, 68912, 69734, 69872,
     69942, 70096, 70384, 70736, 70864, 71248, 71360, 71472, 71904, 72016, 72784, 73040, 73120,
     73552, 92768, 92864, 93008, 120782, 120792, 120802, 120812, 120822, 123200, 123632, 124144,
     125264, 130032]"

definition decimal_value :: "nat \<Rightarrow> nat option" where
  "decimal_value c = map_option (\<lambda>z. c - z) (find (\<lambda>z. z \<le> c \<and> c \<le> z + 9) decimal_zeros)"

fun py_digits :: "bool \<Rightarrow> nat \<Rightarrow> nat \<Rightarrow> pystr \<Rightarrow> nat option" where
  "py_digits after_digit count n [] = (if after_digit \<and> count \<le> 4300 then Some n else None)"
| "py_digits after_digit count n (c # s) =
     (if c = 95 then (if after_digit then py_digits False count n s else None)
      else case decimal_value c of
        None \<Rightarrow> None
      | Some d \<Rightarrow> py_digits True (Suc count) (10 * n + d) s)"

definition py_int :: "pystr \<Rightarrow> int option" where
  "py_int s =
     (case py_strip s of
        [] \<Rightarrow> None
      | c # r \<Rightarrow>
          if c = 45 then map_option (\<lambda>n. - int n) (py_digits False 0 0 r)
          else if c = 43 then map_option int (py_digits False 0 0 r)
          else map_option int (py_digits False 0 0 (c # r)))"

text \<open>\<open>xs[i]\<close>: a negative index counts from the end.\<close>

definition py_index :: "'a list \<Rightarrow> int \<Rightarrow> 'a option" where
  "py_index xs i =
     (let n = int (length xs); j = (if i < 0 then i + n else i) in
      if 0 \<le> j \<and> j < n then Some (xs ! nat j) else None)"

fun step_into :: "json \<Rightarrow> pystr \<Rightarrow> json option" where
  "step_into (JArr vs) part = Option.bind (py_int (pointer_key part)) (py_index vs)"
| "step_into v part = obj_get v (pointer_key part)"

fun walk_pointer :: "json \<Rightarrow> pystr list \<Rightarrow> json option" where
  "walk_pointer v [] = Some v"
| "walk_pointer v (part # parts) = Option.bind (step_into v part) (\<lambda>w. walk_pointer w parts)"

definition pointer :: "json \<Rightarrow> pystr \<Rightarrow> json result" where
  "pointer v path =
     (if \<not> startswith path [47] then fails ''invalid_resource_mapping''
      else case walk_pointer v (split_on 47 (tl path)) of
        None \<Rightarrow> fails ''missing_resource''
      | Some w \<Rightarrow> Inr w)"

subsection \<open>Messages and routes\<close>

definition validate_message :: "http_message \<Rightarrow> inspection_config \<Rightarrow> unit result" where
  "validate_message m c =
     (if \<not> hm_complete m then fails ''incomplete_capture''
      else if ic_max_body_bytes c < length (hm_body m) then fails ''body_limit_exceeded''
      else if py_lower (get_or (hm_headers m) (uni ''content-encoding'') (uni ''identity''))
              \<noteq> uni ''identity''
      then fails ''unsupported_content_encoding''
      else if header m ''upgrade'' \<noteq> None \<or> hm_method m = uni ''CONNECT''
      then fails ''unsupported_upgrade''
      else if \<not> startswith (hm_path m) [47] \<or> startswith (hm_path m) [47, 47]
      then fails ''invalid_target''
      else if list_ex (\<lambda>c. c = 13 \<or> c = 10 \<or> c = 0) (hm_path m @ hm_authority m)
      then fails ''invalid_target''
      else Inr ())"

definition override_headers :: "pystr list" where
  "override_headers = [uni ''x-http-method-override'', uni ''x-http-method'',
     uni ''x-method-override'', uni ''x-original-url'', uni ''x-rewrite-url'', uni ''x-amz-target'']"

definition route_matches :: "http_message \<Rightarrow> pystr \<Rightarrow> route_rule \<Rightarrow> bool" where
  "route_matches m path r \<longleftrightarrow>
     hm_authority m = rr_authority r \<and> path = rr_path r \<and> hm_method m = rr_method r \<and>
     list_all (\<lambda>(k, v). map_of (hm_headers m) (py_lower k) = Some v) (rr_required_headers r)"

definition unmapped_overrides :: "http_message \<Rightarrow> route_rule \<Rightarrow> bool" where
  "unmapped_overrides m r \<longleftrightarrow>
     list_ex (\<lambda>h. h \<in> set (dkeys (hm_headers m)) \<and>
       h \<notin> py_lower ` set (dkeys (rr_required_headers r))) override_headers"

definition route_for :: "url_env \<Rightarrow> http_message \<Rightarrow> inspection_config \<Rightarrow> route_rule result" where
  "route_for ue m c =
     (case urlsplit ue (hm_path m) of
        None \<Rightarrow> Inl (Value_error ''url'')
      | Some u \<Rightarrow>
          (let decoded = unquote (u_path u) in
           if [46, 46] \<in> set (split_on 47 decoded) \<or> contains_sub decoded [47, 47] \<or>
              92 \<in> set decoded
           then fails ''ambiguous_path''
           else case filter (route_matches m (u_path u)) (ic_routes c) of
             [r] \<Rightarrow> if unmapped_overrides m r then fails ''unmapped_action_override_header'' else Inr r
           | _ \<Rightarrow> fails ''unmapped_route''))"

subsection \<open>MCP headers\<close>

definition strip_blank :: "pystr \<Rightarrow> pystr" where
  "strip_blank = strip_by (\<lambda>c. c = 32 \<or> c = 9)"

definition decode_mcp_header :: "pystr \<Rightarrow> pystr result" where
  "decode_mcp_header v =
     (if startswith v (uni ''=?base64?'') \<and> endswith v (uni ''?='') then
        (case Option.bind (b64decode (take (length v - 2 - 9) (drop 9 v))) utf8_decode of
           None \<Rightarrow> fails ''mcp_header_body_mismatch''
         | Some s \<Rightarrow> Inr s)
      else if v \<noteq> strip_blank v \<or> list_ex (\<lambda>c. 126 < c \<or> c < 32 \<and> c \<noteq> 9) v
      then fails ''mcp_header_body_mismatch''
      else Inr v)"

text \<open>\<open>re.fullmatch(r"mcp-param-[!#$%&'*+.^_`|~0-9a-z-]+", name)\<close>.\<close>

definition param_header_name :: "pystr \<Rightarrow> bool" where
  "param_header_name name \<longleftrightarrow>
     startswith name (uni ''mcp-param-'') \<and> drop 10 name \<noteq> [] \<and>
     list_all (\<lambda>c. c \<in> {33, 35, 36, 37, 38, 39, 42, 43, 45, 46, 94, 95, 96, 124, 126} \<or>
       is_digit c \<or> 97 \<le> c \<and> c \<le> 122) (drop 10 name)"

text \<open>\<open>re.search(r"~(?![01])", path)\<close>.\<close>

fun bad_tilde :: "pystr \<Rightarrow> bool" where
  "bad_tilde [] = False"
| "bad_tilde (c # s) = (c = 126 \<and> (s = [] \<or> hd s \<noteq> 48 \<and> hd s \<noteq> 49) \<or> bad_tilde s)"

text \<open>\<open>Decimal(text) == expected\<close> for a numeral and \<open>abs(expected) <= 2**53 - 1\<close>.  The value is
  \<open>m * 10^e\<close>; a zero whose exponent the decimal module cannot hold raises.\<close>

definition numeral_parts :: "pystr \<Rightarrow> int \<times> int" where
  "numeral_parts t =
     (case scan_sign t of (sign, t1) \<Rightarrow>
      case scan_integer t1 of
        None \<Rightarrow> (0, 0)
      | Some (i, t2) \<Rightarrow>
          (case scan_fraction t2 of (f, t3) \<Rightarrow>
           case scan_exponent t3 of (e, _) \<Rightarrow>
             ((if sign = [] then 1 else -1) * int (nat_of_digits (i @ drop 1 f)),
              (case e of
                 _ # s # r \<Rightarrow>
                   (if s = 45 then - int (nat_of_digits r)
                    else if s = 43 then int (nat_of_digits r)
                    else int (nat_of_digits (s # r)))
               | _ \<Rightarrow> 0) - int (length (drop 1 f)))))"

definition decimal_equals :: "pystr \<Rightarrow> int \<Rightarrow> bool" where
  "decimal_equals t expected =
     (case numeral_parts t of (m, e) \<Rightarrow>
        if m = 0 then expected = 0 \<and> - 1999999999999999997 \<le> e \<and> e \<le> 999999999999999999
        else if 0 \<le> e then e \<le> 16 \<and> m * 10 ^ nat e = expected
        else expected \<noteq> 0 \<and> nat (- e) \<le> length t \<and> m = expected * 10 ^ nat (- e))"

definition numeral_matches :: "pystr \<Rightarrow> int \<Rightarrow> bool" where
  "numeral_matches t expected =
     (case scan_number t of
        Some (_, _, rest) \<Rightarrow> rest = [] \<and> \<bar>expected\<bar> \<le> 2 ^ 53 - 1 \<and> decimal_equals t expected
      | None \<Rightarrow> False)"

text \<open>The walk to the argument a header is mapped to; a missing one is \<open>None\<close>, as is \<open>null\<close>.\<close>

fun mapped_argument :: "json \<Rightarrow> pystr list \<Rightarrow> json result" where
  "mapped_argument v [] = Inr v"
| "mapped_argument (JObj d) (part # parts) =
     mapped_argument (get_or d (pointer_key part) JNull) parts"
| "mapped_argument JNull (part # parts) = Inr JNull"
| "mapped_argument v (part # parts) = fails ''invalid_mcp_header_mapping''"

definition argument_matches :: "json \<Rightarrow> pystr \<Rightarrow> bool result" where
  "argument_matches expected decoded =
     (case expected of
        JInt i \<Rightarrow> Inr (numeral_matches decoded i)
      | JBool b \<Rightarrow> Inr (decoded = (if b then uni ''true'' else uni ''false''))
      | JStr s \<Rightarrow> Inr (decoded = s)
      | _ \<Rightarrow> fails ''invalid_mcp_header_parameter'')"

definition header_parameter :: "http_message \<Rightarrow> json \<Rightarrow> pystr \<Rightarrow> pystr \<Rightarrow> unit result" where
  "header_parameter m v name path =
     (if \<not> startswith path (uni ''/params/arguments/'') \<or> bad_tilde path
      then fails ''invalid_mcp_header_mapping''
      else rbind (mapped_argument v (split_on 47 (tl path))) (\<lambda>expected.
        let actual = map_of (hm_headers m) name in
        if expected = JNull then
          (if actual \<noteq> None then fails ''mcp_header_body_mismatch'' else Inr ())
        else case actual of
          None \<Rightarrow> fails ''mcp_header_body_mismatch''
        | Some a \<Rightarrow>
            rbind (decode_mcp_header a) (\<lambda>decoded.
            rbind (argument_matches expected decoded) (\<lambda>ok.
              rguard ok (Inspection ''mcp_header_body_mismatch'')))))"

fun header_parameters :: "http_message \<Rightarrow> json \<Rightarrow> pystr list \<Rightarrow> (pystr \<times> pystr) list \<Rightarrow> unit result" where
  "header_parameters m v seen [] = Inr ()"
| "header_parameters m v seen ((name, path) # ps) =
     (if py_lower name \<in> set seen \<or> \<not> param_header_name (py_lower name)
      then fails ''invalid_mcp_header_mapping''
      else rbind (header_parameter m v (py_lower name) path) (\<lambda>_.
        header_parameters m v (py_lower name # seen) ps))"

subsection \<open>The action a message stands for\<close>

definition obj_or :: "json \<Rightarrow> string \<Rightarrow> json \<Rightarrow> json" where
  "obj_or v k dflt = (case obj_get v (uni k) of None \<Rightarrow> dflt | Some w \<Rightarrow> w)"

text \<open>The name header of \<open>tools/call\<close>, \<open>resources/read\<close> and \<open>prompts/get\<close>.\<close>

definition check_mcp_name :: "http_message \<Rightarrow> json \<Rightarrow> pystr \<Rightarrow> pystr \<Rightarrow> unit result" where
  "check_mcp_name m params version meth =
     (if meth \<notin> {uni ''tools/call'', uni ''resources/read'', uni ''prompts/get''} then Inr ()
      else case obj_or params (if meth = uni ''resources/read'' then ''uri'' else ''name'') JNull of
        JStr expected \<Rightarrow>
          (if expected = [] then fails ''mcp_header_body_mismatch''
           else case header m ''mcp-name'' of
             None \<Rightarrow> if version = uni ''2026-07-28'' then fails ''mcp_header_body_mismatch'' else Inr ()
           | Some name \<Rightarrow>
               rbind (decode_mcp_header name) (\<lambda>d.
                 rguard (d = expected) (Inspection ''mcp_header_body_mismatch'')))
      | _ \<Rightarrow> fails ''mcp_header_body_mismatch'')"

definition mcp_tool :: "json \<Rightarrow> pystr \<Rightarrow> pystr result" where
  "mcp_tool params meth =
     (if meth = uni ''tools/call'' then
        (if \<not> is_obj (obj_or params ''arguments'' (JObj [])) then fails ''invalid_mcp_arguments''
         else case obj_or params ''name'' JNull of
           JStr name \<Rightarrow> Inr name
         | _ \<Rightarrow> fails ''mcp_header_body_mismatch'')
      else Inr meth)"

definition mcp_semantics :: "http_message \<Rightarrow> route_rule \<Rightarrow> json \<Rightarrow> (pystr \<times> tool_rule) result" where
  "mcp_semantics m r v =
     (if \<not> is_obj v \<or> obj_or v ''jsonrpc'' JNull \<noteq> JStr (uni ''2.0'')
      then fails ''unsupported_mcp_envelope''
      else let version = get_or (hm_headers m) (uni ''mcp-protocol-version'') (uni ''2025-03-26'') in
      if version \<notin> set (rr_mcp_versions r) then fails ''unsupported_mcp_version''
      else let params = obj_or v ''params'' (JObj []) in
      if \<not> is_obj params then fails ''invalid_mcp_arguments''
      else let metadata = obj_or params ''_meta'' (JObj []) in
      if \<not> is_obj metadata then fails ''invalid_mcp_metadata''
      else let body_version = obj_or metadata ''io.modelcontextprotocol/protocolVersion'' JNull in
      if (version = uni ''2026-07-28'' \<or> body_version \<noteq> JNull) \<and> body_version \<noteq> JStr version
      then fails ''mcp_header_body_mismatch''
      else case obj_or v ''method'' JNull of
        JStr meth \<Rightarrow>
          (if (case header m ''mcp-method'' of
                 None \<Rightarrow> version = uni ''2026-07-28''
               | Some h \<Rightarrow> h \<noteq> meth)
           then fails ''mcp_header_body_mismatch''
           else rbind (mcp_tool params meth) (\<lambda>tool.
                rbind (check_mcp_name m params version meth) (\<lambda>_.
                case map_of (rr_tools r) tool of
                  None \<Rightarrow> fails ''unmapped_tool''
                | Some rule \<Rightarrow>
                    if meth = uni ''tools/call''
                    then rbind (header_parameters m v [] (tr_header_parameters rule)) (\<lambda>_. Inr (tool, rule))
                    else Inr (tool, rule))))
      | _ \<Rightarrow> fails ''invalid_mcp_method'')"

definition resource_of :: "json \<Rightarrow> tool_rule \<Rightarrow> pystr result" where
  "resource_of v rule =
     rbind (if tr_resource_pointer rule \<noteq> None \<and> tr_resource_pointer rule \<noteq> Some []
            then pointer v (the (tr_resource_pointer rule))
            else Inr (case tr_resource rule of None \<Rightarrow> JNull | Some s \<Rightarrow> JStr s)) (\<lambda>resource.
       case resource of
         JStr s \<Rightarrow> if s = [] \<or> 2048 < length s then fails ''invalid_resource'' else Inr s
       | _ \<Rightarrow> fails ''invalid_resource'')"

definition semantics ::
  "http_message \<Rightarrow> route_rule \<Rightarrow> json \<Rightarrow> (pystr \<times> pystr \<times> pystr) result" where
  "semantics m r v =
     rbind (if rr_protocol r = Mcp then mcp_semantics m r v
            else case rr_rule r of
              None \<Rightarrow> fails ''unmapped_http_action''
            | Some rule \<Rightarrow> Inr (rr_tool r, rule)) (\<lambda>(tool, rule).
     rbind (resource_of v rule) (\<lambda>resource. Inr (tool, tr_action rule, resource)))"

subsection \<open>Egress\<close>

fun iter_strings :: "json \<Rightarrow> pystr list" where
  "iter_strings (JObj ps) = concat (map (\<lambda>(k, v). k # iter_strings v) ps)"
| "iter_strings (JArr vs) = concat (map iter_strings vs)"
| "iter_strings (JStr s) = [s]"
| "iter_strings _ = []"

text \<open>\<open>re.match(r"^[A-Za-z][A-Za-z0-9+.-]*://", s)\<close>.\<close>

definition has_scheme :: "pystr \<Rightarrow> bool" where
  "has_scheme s \<longleftrightarrow> s \<noteq> [] \<and> is_alpha (hd s) \<and> startswith (dropWhile scheme_char s) (uni ''://'')"

definition starts_http :: "pystr \<Rightarrow> bool" where
  "starts_http s \<longleftrightarrow> startswith s (uni ''http:'') \<or> startswith s (uni ''https:'')"

definition nested_origin :: "url_env \<Rightarrow> pystr \<Rightarrow> pystr option" where
  "nested_origin ue candidate =
     Option.bind (urlsplit ue candidate) (\<lambda>u.
       if url_hostname u = [] \<or> u_fragment u \<noteq> [] \<or>
          (case url_userinfo u of
             Some (user, _, pass) \<Rightarrow> user \<noteq> [] \<or> pass \<noteq> []
           | None \<Rightarrow> False)
       then None
       else Option.bind (idna ue (url_hostname u)) (\<lambda>host.
            Option.bind (url_port u) (\<lambda>port.
              Some (u_scheme u @ uni ''://'' @
                (if 58 \<in> set host then 91 # host @ [93] else host) @ uni '':'' @
                dec_nat (case port of
                    Some p \<Rightarrow> if p = 0 then (if u_scheme u = uni ''https'' then 443 else 80) else p
                  | None \<Rightarrow> if u_scheme u = uni ''https'' then 443 else 80)))))"

definition check_url_text :: "url_env \<Rightarrow> inspection_config \<Rightarrow> pystr \<Rightarrow> unit result" where
  "check_url_text ue c s =
     (let candidate = py_strip s;
          normalized = filter (\<lambda>ch. \<not> (ch < 32 \<or> ch = 127)) candidate;
          decoded = unquote normalized;
          lowered = py_lower candidate in
      if (starts_http (py_lower decoded) \<or> startswith (py_lower decoded) [47, 47]) \<and>
         (candidate \<noteq> normalized \<or> decoded \<noteq> normalized)
      then fails ''ambiguous_nested_url''
      else if startswith candidate [47, 47] \<or>
              has_scheme candidate \<and>
              \<not> (startswith lowered (uni ''http://'') \<or> startswith lowered (uni ''https://''))
      then fails ''unsupported_nested_url_scheme''
      else if starts_http lowered then
        (case nested_origin ue candidate of
           None \<Rightarrow> fails ''invalid_nested_url''
         | Some origin \<Rightarrow>
             rguard (origin \<in> set (ic_allowed_egress_origins c)) (Inspection ''egress_not_allowed''))
      else Inr ())"

fun check_texts :: "url_env \<Rightarrow> inspection_config \<Rightarrow> pystr list \<Rightarrow> unit result" where
  "check_texts ue c [] = Inr ()"
| "check_texts ue c (s # ss) = rbind (check_url_text ue c s) (\<lambda>_. check_texts ue c ss)"

definition check_egress :: "url_env \<Rightarrow> inspection_config \<Rightarrow> json \<Rightarrow> unit result" where
  "check_egress ue c v = check_texts ue c (iter_strings v)"

lemma check_texts_iff:
  "check_texts ue c ss = Inr u \<longleftrightarrow> (\<forall>s \<in> set ss. check_url_text ue c s = Inr ())"
  by (induction ss) (auto simp: rbind_Inr_iff)

end
