(* ===== verification/Protocol_Json.thy ===== *)
theory Protocol_Json
  imports Protocol
begin

text \<open>
  What strict JSON guarantees: the limits as a declarative predicate (\<open>check_value_iff\<close>),
  the shape of what was parsed (distinct keys, printable values), and the round trip with
  \<open>encode_json\<close>.
\<close>

subsection \<open>The limits, declaratively\<close>

fun json_count :: "json \<Rightarrow> nat" where
  "json_count (JArr vs) = Suc (sum_list (map json_count vs))"
| "json_count (JObj ps) = Suc (sum_list (map (\<lambda>(k, v). json_count v) ps))"
| "json_count _ = 1"

text \<open>The value nests no deeper than \<open>n\<close> below its root.\<close>

fun nested_within :: "nat \<Rightarrow> nat \<Rightarrow> json \<Rightarrow> bool" where
  "nested_within n d (JArr vs) = (d \<le> n \<and> list_all (nested_within n (Suc d)) vs)"
| "nested_within n d (JObj ps) = (d \<le> n \<and> list_all (\<lambda>(k, v). nested_within n (Suc d) v) ps)"
| "nested_within n d _ = (d \<le> n)"

lemma json_count_pos [simp]: "1 \<le> json_count v" "0 < json_count v"
  by (cases v; simp)+

lemma check_value_iff:
  "check_value md mn d v n = Inr k \<longleftrightarrow>
     k = n + json_count v \<and> k \<le> mn \<and> nested_within md d v \<and> \<not> nonfinite v"
  "n \<le> mn \<Longrightarrow> check_values md mn d vs n = Inr k \<longleftrightarrow>
     k = n + sum_list (map json_count vs) \<and> k \<le> mn \<and> list_all (nested_within md d) vs \<and>
     \<not> list_ex nonfinite vs"
  "n \<le> mn \<Longrightarrow> check_members md mn d ps n = Inr k \<longleftrightarrow>
     k = n + sum_list (map (\<lambda>(k, v). json_count v) ps) \<and> k \<le> mn \<and>
     list_all (\<lambda>(k, v). nested_within md d v) ps \<and> \<not> list_ex (\<lambda>(k, v). nonfinite v) ps"
proof (induction md mn d v n and md mn d vs n and md mn d ps n arbitrary: k and k and k
    rule: check_value_check_values_check_members.induct)
  case (1 md mn d v n)
  then show ?case by (subst check_value.simps) (cases v; auto)
next
  case (3 md mn d v vs n)
  show ?case
  proof (cases "check_value md mn d v n")
    case (Inl e)
    then have "\<nexists>k. check_value md mn d v n = Inr k" by simp
    with 3(1) have "\<not> (n + json_count v \<le> mn \<and> nested_within md d v \<and> \<not> nonfinite v)" by auto
    with Inl show ?thesis by auto
  next
    case (Inr m)
    with 3(1) have m: "m = n + json_count v" "m \<le> mn" "nested_within md d v" "\<not> nonfinite v"
      by auto
    with 3(2) [of m k] Inr show ?thesis by auto
  qed
next
  case (5 md mn d k' v ps n)
  show ?case
  proof (cases "check_value md mn d v n")
    case (Inl e)
    then have "\<nexists>k. check_value md mn d v n = Inr k" by simp
    with 5(1) have "\<not> (n + json_count v \<le> mn \<and> nested_within md d v \<and> \<not> nonfinite v)" by auto
    with Inl show ?thesis by auto
  next
    case (Inr m)
    with 5(1) have m: "m = n + json_count v" "m \<le> mn" "nested_within md d v" "\<not> nonfinite v"
      by auto
    with 5(2) [of m k] Inr show ?thesis by auto
  qed
qed auto

text \<open>What \<open>strict_json\<close> accepts is what the parser accepts within the limits.\<close>

lemma strict_json_Inr:
  "strict_json je md raw = Inr v \<longleftrightarrow>
     (\<exists>s. utf8_decode raw = Some s \<and> json_loads je True s = Inr v \<and>
        json_count v \<le> json_nodes \<and> nested_within md 0 v \<and> \<not> nonfinite v)"
proof (cases "utf8_decode raw")
  case None
  then show ?thesis by (simp add: strict_json_def)
next
  case (Some s)
  have "(case r of Inl e \<Rightarrow> Inl (json_failure e) | Inr v \<Rightarrow> Inr v) = Inr v \<longleftrightarrow> r = Inr v" for r
    by (cases r) auto
  then show ?thesis
    using Some by (auto simp: strict_json_def rbind_Inr_iff check_value_iff)
qed

lemma encode_json_Inr:
  "encode_json v = Inr b \<longleftrightarrow> \<not> nonfinite v \<and> utf8_encode (dumps False v) = Some b"
  by (auto simp: encode_json_def split: option.splits)

lemma encode_parses:
  assumes "encode_json v = Inr b" and "printable je (nest_limit je) v"
    and "json_count v \<le> json_nodes" and "nested_within md 0 v"
  shows "strict_json je md b = Inr v"
  using assms loads_dumps [OF assms(2), of True]
  by (auto simp: strict_json_Inr encode_json_Inr dest: decode_encode)

subsection \<open>What was parsed can be printed\<close>

text \<open>\<open>repr\<close> of a double is a float numeral that reads back as the same double, or one of the
  words for a value that is not finite.\<close>

definition float_repr_ok :: "json_env \<Rightarrow> bool" where
  "float_repr_ok je \<longleftrightarrow> (\<forall>t. scan_number t = Some (t, True, []) \<longrightarrow>
     float_ok je (float_repr je t) \<or> nonfinite (JFloat (float_repr je t)))"

lemma length_dec_nat_le:
  "s \<noteq> [] \<Longrightarrow> list_all is_digit s \<Longrightarrow> length (dec_nat (nat_of_digits s)) \<le> length s"
proof (induction s rule: rev_induct)
  case Nil
  then show ?case by simp
next
  case (snoc c s)
  have c: "c - 48 < 10" using snoc.prems by (auto simp: is_digit_def)
  show ?case
  proof (cases "s = []")
    case True
    with c show ?thesis by (simp add: nat_of_digits_def dec_nat.simps)
  next
    case False
    let ?n = "10 * nat_of_digits s + (c - 48)"
    have "?n div 10 = nat_of_digits s" using c by simp
    with snoc False show ?thesis
      by (subst nat_of_digits_snoc, subst dec_nat.simps) auto
  qed
qed

text \<open>The text of a numeral is a numeral on its own.\<close>

lemma takeWhile_self [simp]:
  "takeWhile p (takeWhile p s) = takeWhile p s" "dropWhile p (takeWhile p s) = []"
  by (induction s) auto

lemma scan_number_self:
  assumes "scan_number s = Some (t, f, r)"
  shows "scan_number t = Some (t, f, [])"
proof -
  obtain sign s1 where s1: "scan_sign s = (sign, s1)" by fastforce
  with assms obtain i s2 where s2: "scan_integer s1 = Some (i, s2)"
    by (auto simp: scan_number_def split: option.splits)
  obtain fr s3 where s3: "scan_fraction s2 = (fr, s3)" by fastforce
  obtain ex s4 where s4: "scan_exponent s3 = (ex, s4)" by fastforce
  have t: "t = sign @ i @ fr @ ex" "f = (fr \<noteq> [] \<or> ex \<noteq> [])"
    using assms s1 s2 s3 s4 by (simp_all add: scan_number_def)
  have nd1: "fr = [] \<or> (\<exists>c. fr = 46 # c)"
    using s3 by (auto simp: scan_fraction_def split: list.splits if_splits)
  have nd2: "ex = [] \<or> (\<exists>e c. ex = e # c \<and> (e = 101 \<or> e = 69))"
    using s4 by (auto simp: scan_exponent_def split: list.splits if_splits)
  note nd = nd1 nd2
  have hd: "fr @ ex = [] \<or> \<not> is_digit (hd (fr @ ex))" "ex = [] \<or> \<not> is_digit (hd ex) \<and> hd ex \<noteq> 46"
    using nd by (auto simp: is_digit_def)
  have tw: "takeWhile is_digit (takeWhile is_digit x @ y) = takeWhile is_digit x \<and>
      dropWhile is_digit (takeWhile is_digit x @ y) = y"
    if "y = [] \<or> \<not> is_digit (hd y)" for x y
    using that by (cases y) (auto simp: takeWhile_append dropWhile_append dest: set_takeWhileD)
  have "scan_sign t = (sign, i @ fr @ ex)"
    using s1 s2 by (auto simp: t scan_sign_def scan_integer_def split: if_splits list.splits)
  moreover have "scan_integer (i @ fr @ ex) = Some (i, fr @ ex)"
    using s2 tw [OF hd(1)] by (auto simp: scan_integer_def split: list.splits if_splits)
  moreover have "scan_fraction (fr @ ex) = (fr, ex)"
  proof (cases "fr = []")
    case True
    then show ?thesis
      using nd(2) by (cases ex; cases "tl ex") (auto simp: scan_fraction_def)
  next
    case False
    with s3 obtain c x where "fr = 46 # c # takeWhile is_digit x" "is_digit c"
      by (auto simp: scan_fraction_def split: list.splits if_splits)
    then show ?thesis using tw [of ex x] hd(2) by (auto simp: scan_fraction_def)
  qed
  moreover have "scan_exponent ex = (ex, [])"
    using s4 by (auto simp: scan_exponent_def dest: set_takeWhileD split: list.splits if_splits)
  ultimately show ?thesis by (simp add: scan_number_def t)
qed

text \<open>An integer numeral has no superfluous digits.\<close>

lemma int_of_numeral_digits:
  assumes "scan_number t = Some (t, False, [])"
  shows "length (dec_nat (nat \<bar>int_of_numeral t\<bar>)) \<le> length (filter is_digit t)"
proof -
  obtain sign s1 where s1: "scan_sign t = (sign, s1)" by fastforce
  with assms obtain i where i: "scan_integer s1 = Some (i, [])" "t = sign @ i"
    by (auto simp: scan_number_def scan_fraction_def scan_exponent_def
        split: option.splits list.splits if_splits)
  then have dig: "i \<noteq> []" "list_all is_digit i"
    by (auto simp: scan_integer_def is_digit_def list_all_iff dest!: set_takeWhileD
        split: list.splits if_splits)
  have "nat \<bar>int_of_numeral t\<bar> = nat_of_digits i"
    using s1 i(2) dig by (cases i) (auto simp: scan_sign_def int_of_numeral_def is_digit_def split: if_splits)
  moreover have "filter is_digit t = i"
    using s1 i(2) dig by (auto simp: scan_sign_def is_digit_def filter_id_conv list_all_iff split: if_splits)
  ultimately show ?thesis using length_dec_nat_le [OF dig] by simp
qed

lemma number_printable:
  assumes "float_repr_ok je" "scan_number s = Some (t, f, r)" "number_value je t f = Inr v"
    "\<not> nonfinite v"
  shows "printable je d v"
proof -
  have t: "scan_number t = Some (t, f, [])" using assms(2) by (rule scan_number_self)
  show ?thesis
  proof (cases f)
    case True
    with assms t show ?thesis by (auto simp: number_value_def float_repr_ok_def)
  next
    case False
    with assms(3) int_of_numeral_digits [of t] t show ?thesis
      by (auto simp: number_value_def split: if_splits)
  qed
qed

lemma word_printable: "scan_word True s = Some (Inr v, r) \<Longrightarrow> printable je d v"
  by (auto simp: scan_word_def constant_value_def split: if_splits)

lemma parse_printable:
  assumes "float_repr_ok je"
  shows "parse_value je st n d s = Inr (v, r) \<Longrightarrow> st \<Longrightarrow> \<not> nonfinite v \<longrightarrow> printable je d v"
    and "parse_elements je st n d s = Inr (vs, r) \<Longrightarrow> st \<Longrightarrow>
      list_all (\<lambda>v. \<not> nonfinite v \<longrightarrow> printable je d v) vs"
    and "parse_members je st n d s = Inr (ps, r) \<Longrightarrow> st \<Longrightarrow>
      list_all (\<lambda>(k, v). \<not> nonfinite v \<longrightarrow> printable je d v) ps"
  using assms
proof (induction je st n d s and je st n d s and je st n d s arbitrary: v r and vs r and ps r
    rule: parse_value_parse_elements_parse_members.induct)
  case (3 je st n d c s)
  consider (str) "c = 34" | (obj) "c = 123" | (arr) "c = 91"
    | (word) v' r' where "c \<notin> {34, 123, 91}" "scan_word st (c # s) = Some (v', r')"
    | (num) "c \<notin> {34, 123, 91}" "scan_word st (c # s) = None"
    by (cases "scan_word st (c # s)") auto
  then show ?case
  proof cases
    case str
    with 3(3) show ?thesis by (auto simp: rbind_Inr_iff)
  next
    case obj
    show ?thesis
    proof (cases "skip_ws s \<noteq> [] \<and> hd (skip_ws s) = 125")
      case True
      with obj 3(3) show ?thesis by (cases d) (auto split: if_splits)
    next
      case False
      with obj 3(3,4) obtain ps where "d \<noteq> 0"
          "parse_members je st n (d - 1) (skip_ws s) = Inr (ps, r)" "distinct (map fst ps)" "v = JObj ps"
        by (auto simp: rbind_Inr_iff build_object_def split: if_splits)
      with 3(1) [OF _ _ _ _ this(2)] obj False 3(4,5) show ?thesis
        by (cases d) (auto simp: list_all_iff list_ex_iff)
    qed
  next
    case arr
    show ?thesis
    proof (cases "skip_ws s \<noteq> [] \<and> hd (skip_ws s) = 93")
      case True
      with arr 3(3) show ?thesis by (cases d) (auto split: if_splits)
    next
      case False
      with arr 3(3,4) obtain vs where "d \<noteq> 0"
          "parse_elements je st n (d - 1) (skip_ws s) = Inr (vs, r)" "v = JArr vs"
        by (auto simp: rbind_Inr_iff split: if_splits)
      with 3(2) [OF _ _ _ _ _ this(2)] arr False 3(4,5) show ?thesis
        by (cases d) (auto simp: list_all_iff list_ex_iff)
    qed
  next
    case word
    with 3(3,4) word_printable [of "c # s"] show ?thesis by (auto simp: rbind_Inr_iff)
  next
    case num
    with 3(3) obtain t f where "scan_number (c # s) = Some (t, f, r)" "number_value je t f = Inr v"
      by (auto simp: rbind_Inr_iff split: option.splits)
    with number_printable [OF 3(5)] show ?thesis by blast
  qed
next
  case (5 je st n d s)
  from 5(3) show ?case
  proof (cases rule: parse_elements_Inr)
    case (1 v r1 c r2)
    then show ?thesis
      using 5(1) [OF 1(1)] 5(2) [OF 1(2)] 5(4,5) by fastforce
  qed
next
  case (8 je st n d q s)
  from 8(3) show ?case
  proof (cases rule: parse_members_Inr)
    case (1 k r1 r2 v r3 c r4)
    then show ?thesis
      using 8(1) [OF _ 1(3) _ 1(4)] 8(2) [OF _ 1(3) _ 1(5)] 8(4,5) by fastforce
  qed
qed simp_all

lemma strict_json_printable:
  assumes "float_repr_ok je" and "strict_json je md raw = Inr v"
  shows "printable je (nest_limit je) v"
  using assms parse_printable(1) [OF assms(1)]
  by (auto simp: strict_json_Inr json_loads_def rbind_Inr_iff split: if_splits)

end
