(* ===== verification/Identity.thy ===== *)
theory Identity
  imports Protocol_Json
begin

text \<open>
  \<open>inspection/identity.py\<close>: which headers a request is bound by, the request digest, the
  signed attestation and its verification with one-time nonces.

  The hash functions are OpenSSL's, reached through \<open>hashlib\<close> and \<open>hmac\<close>: they are
  parameters (\<open>crypto\<close>), as is the detection of the encoding of a JSON text in bytes
  (\<open>json_text\<close>).  The nonce database is a dictionary from nonces to expiry times.
\<close>

record crypto =
  sha256 :: "bytes \<Rightarrow> pystr"           \<comment> \<open>hexdigest\<close>
  hmac_sha256 :: "bytes \<Rightarrow> bytes \<Rightarrow> pystr" \<comment> \<open>key, message; hexdigest\<close>
  json_text :: "bytes \<Rightarrow> pystr option"
  crypto_json :: json_env

record verifier =
  vr_key :: bytes
  vr_max_age :: int
  vr_required :: "pystr list"

definition ATTESTATION_HEADER :: pystr where
  "ATTESTATION_HEADER = uni ''x-td-attestation''"

definition IDENTITY_FIELDS :: "pystr list" where
  "IDENTITY_FIELDS = [uni ''tenant_id'', uni ''user_id'', uni ''agent_id'', uni ''delegation_id'',
     uni ''task_id'']"

definition TRANSPORT_HEADERS :: "pystr list" where
  "TRANSPORT_HEADERS = [uni ''host'', uni ''content-length'', uni ''transfer-encoding'',
     uni ''connection'', uni ''te'', uni ''trailer'', uni ''keep-alive'', uni ''upgrade'']"

definition reserved_header :: "pystr \<Rightarrow> bool" where
  "reserved_header name \<longleftrightarrow>
     startswith name (uni ''x-td-'') \<or> startswith name (uni ''x-asr-'') \<or>
     startswith name (uni ''x-forwarded-'') \<or> startswith name (uni ''x-envoy-'') \<or>
     name = uni ''forwarded'' \<or> name = uni ''x-request-id''"

definition is_application_header :: "pystr \<Rightarrow> bool" where
  "is_application_header k \<longleftrightarrow>
     k \<notin> set TRANSPORT_HEADERS \<and> \<not> startswith k [58] \<and> \<not> reserved_header k"

definition application_headers :: "(pystr, pystr) dict \<Rightarrow> (pystr, pystr) dict" where
  "application_headers hs = filter (\<lambda>(k, v). is_application_header k) hs"

text \<open>\<open>json.dumps(value, sort_keys=True, separators=(",", ":")).encode()\<close>: always ASCII.\<close>

definition canonical_json :: "json \<Rightarrow> bytes" where
  "canonical_json v = map of_nat (dumps True (sort_keys v))"

definition digest_input :: "crypto \<Rightarrow> http_message \<Rightarrow> json" where
  "digest_input cr m = JObj
     [(uni ''method'', JStr (hm_method m)), (uni ''authority'', JStr (hm_authority m)),
      (uni ''path'', JStr (hm_path m)),
      (uni ''headers'', JObj (map (\<lambda>(k, v). (k, JStr v)) (application_headers (hm_headers m)))),
      (uni ''body_sha256'', JStr (sha256 cr (hm_body m)))]"

definition request_digest :: "crypto \<Rightarrow> http_message \<Rightarrow> pystr" where
  "request_digest cr m = sha256 cr (canonical_json (digest_input cr m))"

subsection \<open>Attestations\<close>

definition attestation_payload ::
  "crypto \<Rightarrow> http_message \<Rightarrow> (pystr, json) dict \<Rightarrow> pystr \<Rightarrow> int \<Rightarrow> int \<Rightarrow> (pystr, json) dict" where
  "attestation_payload cr m ident nonce issued ttl =
     dset (uni ''expires_at'') (JInt (issued + ttl))
       (dset (uni ''issued_at'') (JInt issued)
         (dset (uni ''nonce'') (JStr nonce)
           (dset (uni ''request_digest'') (JStr (request_digest cr m)) ident)))"

definition ascii_bytes :: "pystr \<Rightarrow> bytes" where
  "ascii_bytes s = map of_nat s"

definition sign_attestation ::
  "crypto \<Rightarrow> http_message \<Rightarrow> (pystr, json) dict \<Rightarrow> bytes \<Rightarrow> pystr \<Rightarrow> int \<Rightarrow> int \<Rightarrow> pystr" where
  "sign_attestation cr m ident key nonce issued ttl =
     (let encoded = urlsafe_encode (canonical_json (JObj (attestation_payload cr m ident nonce issued ttl)))
      in encoded @ uni ''.'' @ hmac_sha256 cr key (ascii_bytes encoded))"

abbreviation untrusted :: "'a result" where
  "untrusted \<equiv> fails ''untrusted_or_mismatched_identity''"

definition identity_field :: "(pystr, json) dict \<Rightarrow> pystr \<Rightarrow> bool" where
  "identity_field payload k \<longleftrightarrow>
     (case map_of payload k of Some (JStr s) \<Rightarrow> s \<noteq> [] \<and> length s \<le> 256 | _ \<Rightarrow> False)"

text \<open>The times and the digest of a payload whose identity fields are all there.\<close>

definition payload_valid :: "crypto \<Rightarrow> verifier \<Rightarrow> int \<Rightarrow> http_message \<Rightarrow> (pystr, json) dict \<Rightarrow> bool" where
  "payload_valid cr av now m payload \<longleftrightarrow>
     (case (map_of payload (uni ''issued_at''), map_of payload (uni ''expires_at'')) of
        (Some (JInt issued), Some (JInt expires)) \<Rightarrow>
          \<not> (issued > now + 5 \<or> now \<ge> expires \<or> expires \<le> issued \<or> now - issued > vr_max_age av) \<and>
          expires - issued \<le> vr_max_age av \<and>
          map_of payload (uni ''request_digest'') = Some (JStr (request_digest cr m))
      | _ \<Rightarrow> False)"

text \<open>The signed payload: signature checked before anything is decoded.\<close>

definition signed_payload :: "crypto \<Rightarrow> verifier \<Rightarrow> http_message \<Rightarrow> json result" where
  "signed_payload cr av m =
     (case map_of (hm_headers m) ATTESTATION_HEADER of
        None \<Rightarrow> untrusted
      | Some h \<Rightarrow>
          (case split_on 46 h of
             [encoded, signature] \<Rightarrow>
               (if 8192 < length encoded \<or> length signature \<noteq> 64 then untrusted
                else case utf8_encode encoded of
                  None \<Rightarrow> untrusted
                | Some raw \<Rightarrow>
                    if hmac_sha256 cr (vr_key av) raw \<noteq> signature then untrusted
                    else case Option.bind (urlsafe_decode encoded) (json_text cr) of
                      None \<Rightarrow> untrusted
                    | Some s \<Rightarrow>
                        (case json_loads (crypto_json cr) False s of
                           Inl Recursion_error \<Rightarrow> Inl Recursion_error
                         | Inl _ \<Rightarrow> untrusted
                         | Inr v \<Rightarrow> Inr v))
           | _ \<Rightarrow> untrusted))"

definition verify_claims ::
  "crypto \<Rightarrow> verifier \<Rightarrow> int \<Rightarrow> http_message \<Rightarrow> (pystr, json) dict result" where
  "verify_claims cr av now m =
     rbind (signed_payload cr av m) (\<lambda>v.
       case v of
         JObj payload \<Rightarrow>
           (if list_all (identity_field payload) (vr_required av @ [uni ''nonce'']) \<and>
               payload_valid cr av now m payload
            then Inr payload else untrusted)
       | _ \<Rightarrow> untrusted)"

subsection \<open>Nonces\<close>

type_synonym nonces = "(pystr, int) dict"

text \<open>One transaction: purge, then insert.  A duplicate rolls the purge back.\<close>

definition consume_nonce :: "int \<Rightarrow> pystr \<Rightarrow> int \<Rightarrow> nonces \<Rightarrow> unit result \<times> nonces" where
  "consume_nonce now nonce expires db =
     (let kept = filter (\<lambda>(_, e). \<not> e < now - 5) db in
      if map_of kept nonce \<noteq> None then (fails ''attestation_replay'', db)
      else (Inr (), kept @ [(nonce, expires)]))"

definition payload_str :: "(pystr, json) dict \<Rightarrow> string \<Rightarrow> pystr" where
  "payload_str payload k = (case map_of payload (uni k) of Some (JStr s) \<Rightarrow> s | _ \<Rightarrow> [])"

definition payload_int :: "(pystr, json) dict \<Rightarrow> string \<Rightarrow> int" where
  "payload_int payload k = (case map_of payload (uni k) of Some (JInt i) \<Rightarrow> i | _ \<Rightarrow> 0)"

text \<open>\<open>db_ok\<close>: the database could be opened and written (otherwise sqlite raises).
  A nonce that is not valid Unicode cannot be bound to the statement.\<close>

definition verify ::
  "crypto \<Rightarrow> verifier \<Rightarrow> int \<Rightarrow> bool \<Rightarrow> bool \<Rightarrow> http_message \<Rightarrow> (nonces, (pystr, json) dict) act" where
  "verify cr av now db_ok consume m db =
     (case verify_claims cr av now m of
        Inl e \<Rightarrow> (Inl e, db)
      | Inr payload \<Rightarrow>
          if \<not> consume then (Inr payload, db)
          else if \<not> db_ok then (Inl Failure, db)
          else if utf8_encode (payload_str payload ''nonce'') = None then (Inl Unicode_error, db)
          else (case consume_nonce now (payload_str payload ''nonce'') (payload_int payload ''expires_at'') db of
              (Inl e, db') \<Rightarrow> (Inl e, db')
            | (Inr _, db') \<Rightarrow> (Inr payload, db')))"

end
