(* ===== verification/Llm.thy ===== *)
theory Llm
  imports Protocol
begin

text \<open>
  \<open>inspection/llm.py\<close>: the text and function-call subset of native model APIs.
\<close>

definition llm_blocked_keys :: "pystr list" where
  "llm_blocked_keys = [uni ''inlineData'', uni ''inline_data'', uni ''fileData'', uni ''file_data'',
     uni ''image_url'', uni ''input_audio'', uni ''audio'', uni ''video'',
     uni ''encrypted_content'', uni ''thoughtSignature'', uni ''thought_signature'',
     uni ''redacted_thinking'', uni ''cachedContent'', uni ''cached_content'',
     uni ''previous_response_id'', uni ''conversation'', uni ''background'']"

definition llm_blocked_types :: "pystr list" where
  "llm_blocked_types = [uni ''image'', uni ''input_image'', uni ''input_file'', uni ''file'',
     uni ''computer'', uni ''computer_use'', uni ''web_search'', uni ''web_search_preview'',
     uni ''code_interpreter'', uni ''mcp'', uni ''server_tool_use'', uni ''redacted_thinking'']"

text \<open>\<open>v not in (None, False, [])\<close>: Python equality makes \<open>0\<close> and \<open>0.0\<close> equal to \<open>False\<close>.\<close>

definition json_absent :: "json \<Rightarrow> bool" where
  "json_absent v \<longleftrightarrow>
     v \<in> {JNull, JBool False, JInt 0, JFloat (uni ''0.0''), JFloat (uni ''-0.0''), JArr []}"

text \<open>\<open>node.get("type") in {...}\<close> hashes the value: a list or object raises \<open>TypeError\<close>.\<close>

definition hashable :: "json \<Rightarrow> bool" where
  "hashable v \<longleftrightarrow> (case v of JArr _ \<Rightarrow> False | JObj _ \<Rightarrow> False | _ \<Rightarrow> True)"

definition llm_node_check :: "(pystr \<times> json) list \<Rightarrow> unit result" where
  "llm_node_check ps =
     (if list_ex (\<lambda>k. case map_of ps k of None \<Rightarrow> False | Some v \<Rightarrow> \<not> json_absent v) llm_blocked_keys
      then fails ''unsupported_llm_content''
      else let t = get_or ps (uni ''type'') JNull in
        if \<not> hashable t then Inl Type_error
        else if t \<in> JStr ` set llm_blocked_types then fails ''unsupported_llm_content''
        else Inr ())"

fun llm_walk :: "json \<Rightarrow> unit result"
  and llm_walks :: "json list \<Rightarrow> unit result"
  and llm_walk_members :: "(pystr \<times> json) list \<Rightarrow> unit result" where
  "llm_walk (JObj ps) = rbind (llm_node_check ps) (\<lambda>_. llm_walk_members ps)"
| "llm_walk (JArr vs) = llm_walks vs"
| "llm_walk _ = Inr ()"
| "llm_walks [] = Inr ()"
| "llm_walks (v # vs) = rbind (llm_walk v) (\<lambda>_. llm_walks vs)"
| "llm_walk_members [] = Inr ()"
| "llm_walk_members ((k, v) # ps) = rbind (llm_walk v) (\<lambda>_. llm_walk_members ps)"

definition llm_tool_check :: "llm_provider \<Rightarrow> json \<Rightarrow> unit result" where
  "llm_tool_check p tool =
     (case tool of
        JObj ps \<Rightarrow>
          (if p = Google \<and> map_of ps (uni ''functionDeclarations'') \<noteq> None then
             rguard (set (dkeys ps) = {uni ''functionDeclarations''}) (Inspection ''unsupported_llm_tools'')
           else if p = Anthropic then
             rguard (get_or ps (uni ''type'') (JStr (uni ''custom'')) = JStr (uni ''custom'') \<and>
                 as_str (map_of ps (uni ''name'')) \<noteq> None) (Inspection ''unsupported_llm_tools'')
           else rguard (get_or ps (uni ''type'') JNull = JStr (uni ''function''))
                  (Inspection ''unsupported_llm_tools''))
      | _ \<Rightarrow> fails ''unsupported_llm_tools'')"

fun llm_tools_check :: "llm_provider \<Rightarrow> json list \<Rightarrow> unit result" where
  "llm_tools_check p [] = Inr ()"
| "llm_tools_check p (t # ts) = rbind (llm_tool_check p t) (\<lambda>_. llm_tools_check p ts)"

text \<open>
  \<open>validate_llm(value, route, response)\<close> for a route with a provider.  \<open>route.rule\<close> may be
  \<open>None\<close> for a request: reading its pointer then raises \<open>AttributeError\<close>.
\<close>

definition validate_llm :: "json \<Rightarrow> route_rule \<Rightarrow> llm_provider \<Rightarrow> bool \<Rightarrow> unit result" where
  "validate_llm v r p response =
     (if \<not> is_obj v then fails ''unsupported_llm_envelope''
      else rbind
        (if response then Inr ()
         else case rr_rule r of
           None \<Rightarrow> Inl Failure
         | Some rule \<Rightarrow>
             if tr_resource_pointer rule \<noteq> None \<and> tr_resource_pointer rule \<noteq> Some []
             then rguard (obj_or v ''model'' JNull \<in> JStr ` set (rr_allowed_models r))
                    (Inspection ''model_not_allowed'')
             else Inr ()) (\<lambda>_.
      rbind (llm_walk v) (\<lambda>_.
        if response then Inr ()
        else case obj_or v ''tools'' (JArr []) of
          JArr ts \<Rightarrow> llm_tools_check p ts
        | _ \<Rightarrow> fails ''unsupported_llm_tools'')))"

text \<open>\<open>response_timestamp\<close>: a protocol timestamp, by its place in the envelope.\<close>

definition response_timestamp ::
  "json \<Rightarrow> (pystr, json) dict \<Rightarrow> pystr list \<Rightarrow> llm_provider option \<Rightarrow> bool" where
  "response_timestamp v env path p =
     (case v of
        JInt i \<Rightarrow>
          p \<in> {Some Openai, Some Openrouter, Some Google} \<and> 946684800 \<le> i \<and> i \<le> 4102444800 \<and>
          (if path = [uni ''created''] then
             get_or env (uni ''object'') JNull \<in>
               {JStr (uni ''chat.completion''), JStr (uni ''chat.completion.chunk'')}
           else if p = Some Openai \<and> path = [uni ''created_at''] then
             get_or env (uni ''object'') JNull = JStr (uni ''response'')
           else if p = Some Openai \<and> path = [uni ''response'', uni ''created_at''] \<and>
             get_or env (uni ''type'') JNull \<in> {JStr (uni ''response.created''),
               JStr (uni ''response.in_progress''), JStr (uni ''response.completed''),
               JStr (uni ''response.failed'')} then
             (case get_or env (uni ''response'') JNull of
                JObj q \<Rightarrow> get_or q (uni ''object'') JNull = JStr (uni ''response'')
              | _ \<Rightarrow> False)
           else False)
      | _ \<Rightarrow> False)"

text \<open>What a request that passes contains: no blocked key with content, no blocked type.\<close>

fun llm_clean :: "json \<Rightarrow> bool" where
  "llm_clean (JObj ps) =
     ((\<forall>k \<in> set llm_blocked_keys. case map_of ps k of None \<Rightarrow> True | Some v \<Rightarrow> json_absent v) \<and>
      (\<forall>t. map_of ps (uni ''type'') = Some (JStr t) \<longrightarrow> t \<notin> set llm_blocked_types) \<and>
      list_all (\<lambda>(k, v). llm_clean v) ps)"
| "llm_clean (JArr vs) = list_all llm_clean vs"
| "llm_clean _ = True"

lemma llm_walk_clean:
  "llm_walk v = Inr () \<Longrightarrow> llm_clean v"
  "llm_walks vs = Inr () \<Longrightarrow> list_all llm_clean vs"
  "llm_walk_members ps = Inr () \<Longrightarrow> list_all (\<lambda>(k, v). llm_clean v) ps"
proof (induction v and vs and ps rule: llm_walk_llm_walks_llm_walk_members.induct)
  case (1 ps)
  then have "llm_node_check ps = Inr ()" "list_all (\<lambda>(k, v). llm_clean v) ps"
    by (auto simp: rbind_Inr_iff)
  then show ?case
    by (auto simp: llm_node_check_def list_ex_iff get_or_def Let_def image_iff split: if_splits option.splits)
qed (auto simp: rbind_Inr_iff)

end
