(* ===== verification/Pii.thy ===== *)
theory Pii
  imports Complex_Main Contracts
begin

text \<open>
  \<open>inspection/pii.py\<close>: the national identifier validators, the scanner around the Presidio
  analyzer and its redaction.  The analyzer itself is third-party: a parameter, from a
  language, the entities asked for and a text to raw results, or an exception.
\<close>

subsection \<open>Validators\<close>

text \<open>
  \<open>_compact_identifier\<close>.  Upper-casing is exact on ASCII; no other character upper-cases to
  a string of digits, \<open>A\<close>, \<open>B\<close> and \<open>X\<close>, the only characters the validators accept.
\<close>

definition upper_char :: "nat \<Rightarrow> nat" where
  "upper_char c = (if 97 \<le> c \<and> c \<le> 122 then c - 32 else c)"

definition compact_identifier :: "pystr \<Rightarrow> pystr" where
  "compact_identifier v = map upper_char (filter (\<lambda>c. \<not> (is_space c \<or> c = 46 \<or> c = 45)) v)"

definition digit_at :: "pystr \<Rightarrow> nat \<Rightarrow> nat" where
  "digit_at s i = s ! i - 48"

definition days_in_month :: "nat \<Rightarrow> nat \<Rightarrow> nat" where
  "days_in_month y m =
     (if m = 2 then (if y mod 4 = 0 \<and> (y mod 100 \<noteq> 0 \<or> y mod 400 = 0) then 29 else 28)
      else if m \<in> {4, 6, 9, 11} then 30 else 31)"

text \<open>\<open>datetime.strptime(s, "%Y%m%d")\<close> on eight digits does not raise.\<close>

definition valid_date :: "pystr \<Rightarrow> bool" where
  "valid_date s =
     (let y = nat_of_digits (take 4 s); m = nat_of_digits (take 2 (drop 4 s));
          d = nat_of_digits (drop 6 s) in
      1 \<le> y \<and> 1 \<le> m \<and> m \<le> 12 \<and> 1 \<le> d \<and> d \<le> days_in_month y m)"

definition cn_weights :: "nat list" where
  "cn_weights = [7, 9, 10, 5, 8, 4, 2, 1, 6, 3, 7, 9, 10, 5, 8, 4, 2]"

definition weighted_sum :: "nat list \<Rightarrow> pystr \<Rightarrow> nat" where
  "weighted_sum ws s = sum_list (map (\<lambda>(c, w). (c - 48) * w) (zip s ws))"

definition cn_checksum :: "pystr \<Rightarrow> nat" where
  "cn_checksum s = weighted_sum cn_weights (take 17 s)"

definition cn_check_characters :: pystr where
  "cn_check_characters = uni ''10X98765432''"

definition valid_cn_resident_id :: "pystr \<Rightarrow> bool" where
  "valid_cn_resident_id v =
     (let s = compact_identifier v in
      length s = 18 \<and> list_all is_digit (take 17 s) \<and> (is_digit (s ! 17) \<or> s ! 17 = 88) \<and>
      \<not> (take 6 s = uni ''000000'' \<or> take 3 (drop 14 s) = uni ''000'') \<and>
      valid_date (take 8 (drop 6 s)) \<and>
      s ! 17 = cn_check_characters ! (cn_checksum s mod 11))"

definition jp_weight :: "nat \<Rightarrow> nat" where
  "jp_weight position = (if position \<le> 6 then position + 1 else position - 5)"

text \<open>\<open>enumerate(reversed(candidate[:11]), start=1)\<close>.\<close>

definition jp_total :: "pystr \<Rightarrow> nat" where
  "jp_total s = sum_list (map (\<lambda>(p, c). (c - 48) * jp_weight p) (enumerate 1 (rev (take 11 s))))"

definition valid_jp_my_number :: "pystr \<Rightarrow> bool" where
  "valid_jp_my_number v =
     (let s = compact_identifier v; remainder = jp_total s mod 11 in
      length s = 12 \<and> list_all is_digit s \<and> card (set (take 11 s)) \<noteq> 1 \<and>
      digit_at s 11 = (if remainder = 0 \<or> remainder = 1 then 0 else 11 - remainder))"

definition valid_fr_nir :: "pystr \<Rightarrow> bool" where
  "valid_fr_nir v =
     (let s = compact_identifier v; base = take 13 s; dep = take 2 (drop 5 s) in
      length s = 15 \<and> (s ! 0 = 49 \<or> s ! 0 = 50) \<and> list_all is_digit (take 4 (drop 1 s)) \<and>
      (list_all is_digit dep \<or> dep = uni ''2A'' \<or> dep = uni ''2B'') \<and>
      list_all is_digit (drop 7 s) \<and>
      (let adjusted =
         (if dep = uni ''2A'' then int (nat_of_digits (map (\<lambda>c. if c = 65 then 48 else c) base)) - 1000000
          else if dep = uni ''2B'' then int (nat_of_digits (map (\<lambda>c. if c = 66 then 48 else c) base)) - 2000000
          else int (nat_of_digits base)) in
       int (nat_of_digits (drop 13 s)) = 97 - adjusted mod 97))"

subsection \<open>Findings\<close>

record pii_finding =
  pf_entity :: pystr
  pf_start :: nat
  pf_end :: nat
  pf_score :: rat

text \<open>A raw result: its score is \<open>None\<close> when it is not a finite number.\<close>

record raw_result =
  rw_entity :: pystr
  rw_start :: int
  rw_end :: int
  rw_score :: "rat option"

definition entity_label :: "pystr \<Rightarrow> bool" where
  "entity_label s \<longleftrightarrow> s \<noteq> [] \<and> length s \<le> 64 \<and> 65 \<le> hd s \<and> hd s \<le> 90 \<and>
     list_all (\<lambda>c. 65 \<le> c \<and> c \<le> 90 \<or> is_digit c \<or> c = 95) (tl s)"

text \<open>\<open>PiiFinding(...)\<close> with its \<open>__post_init__\<close>.\<close>

definition make_finding :: "raw_result \<Rightarrow> pii_finding result" where
  "make_finding r =
     (if \<not> entity_label (rw_entity r) then Inl (Value_error ''Invalid PII entity label'')
      else if \<not> (0 \<le> rw_start r \<and> rw_start r < rw_end r)
      then Inl (Value_error ''Invalid PII finding span'')
      else case rw_score r of
        None \<Rightarrow> Inl (Value_error ''Invalid PII finding score'')
      | Some x \<Rightarrow>
          if 0 \<le> x \<and> x \<le> 1
          then Inr \<lparr>pf_entity = rw_entity r, pf_start = nat (rw_start r), pf_end = nat (rw_end r),
                    pf_score = x\<rparr>
          else Inl (Value_error ''Invalid PII finding score''))"

subsection \<open>The scanner\<close>

definition LANGUAGE_ENTITIES :: "(pystr \<times> pystr list) list" where
  "LANGUAGE_ENTITIES =
     [(uni ''en'', [uni ''EMAIL_ADDRESS'', uni ''PHONE_NUMBER'', uni ''CREDIT_CARD'', uni ''IBAN_CODE'',
        uni ''US_SSN'']),
      (uni ''ko'', [uni ''KR_RRN'', uni ''KR_FRN'', uni ''KR_DRIVER_LICENSE'', uni ''KR_PASSPORT'',
        uni ''KR_BRN'']),
      (uni ''zh'', [uni ''CN_RESIDENT_ID'', uni ''PHONE_NUMBER'']),
      (uni ''ja'', [uni ''JP_MY_NUMBER'', uni ''PHONE_NUMBER'']),
      (uni ''es'', [uni ''ES_NIF'', uni ''ES_NIE'', uni ''ES_PASSPORT'', uni ''PHONE_NUMBER'']),
      (uni ''fr'', [uni ''FR_NIR'', uni ''PHONE_NUMBER''])]"

type_synonym analyzer = "pystr \<Rightarrow> pystr list \<Rightarrow> pystr \<Rightarrow> raw_result list result"

record scanner =
  sc_threshold :: rat
  sc_passport_threshold :: rat
  sc_presidio :: analyzer

text \<open>\<open>FixedRegistryAnalyzer.analyze\<close>: ASCII text without \<open>@\<close> or a digit has no finding.\<close>

definition fixed_analyze :: "analyzer \<Rightarrow> analyzer" where
  "fixed_analyze presidio lang entities s =
     (if is_ascii s \<and> \<not> list_ex (\<lambda>c. c = 64 \<or> is_digit c) s then Inr []
      else presidio lang entities s)"

definition finding_threshold :: "scanner \<Rightarrow> pystr \<Rightarrow> rat" where
  "finding_threshold sc e =
     (if e = uni ''ES_PASSPORT'' \<or> e = uni ''KR_PASSPORT'' then sc_passport_threshold sc
      else sc_threshold sc)"

type_synonym finding_key = "pystr \<times> nat \<times> nat"

definition keep_best ::
  "pii_finding \<Rightarrow> (finding_key, pii_finding) dict \<Rightarrow> (finding_key, pii_finding) dict" where
  "keep_best f found =
     (let key = (pf_entity f, pf_start f, pf_end f) in
      case map_of found key of
        None \<Rightarrow> dset key f found
      | Some old \<Rightarrow> if pf_score old < pf_score f then dset key f found else found)"

fun collect_results ::
  "scanner \<Rightarrow> pystr list \<Rightarrow> nat \<Rightarrow> raw_result list \<Rightarrow> (finding_key, pii_finding) dict \<Rightarrow>
   (finding_key, pii_finding) dict result" where
  "collect_results sc entities len [] found = Inr found"
| "collect_results sc entities len (r # rs) found =
     rbind (make_finding r) (\<lambda>f.
       if pf_entity f \<notin> set entities \<or> len < pf_end f
       then Inl (Value_error ''Unexpected PII recognizer result'')
       else collect_results sc entities len rs
         (if pf_score f < finding_threshold sc (pf_entity f) then found else keep_best f found))"

fun scan_languages ::
  "scanner \<Rightarrow> (pystr \<times> pystr list) list \<Rightarrow> pystr \<Rightarrow> (finding_key, pii_finding) dict \<Rightarrow>
   (finding_key, pii_finding) dict result" where
  "scan_languages sc [] s found = Inr found"
| "scan_languages sc ((lang, entities) # ls) s found =
     rbind (fixed_analyze (sc_presidio sc) lang entities s) (\<lambda>rs.
     rbind (collect_results sc entities (length s) rs found) (scan_languages sc ls s))"

text \<open>\<open>key=lambda f: (f.start, f.end, f.entity_type)\<close>.\<close>

definition finding_less :: "pii_finding \<Rightarrow> pii_finding \<Rightarrow> bool" where
  "finding_less f g \<longleftrightarrow> pf_start f < pf_start g \<or> pf_start f = pf_start g \<and>
     (pf_end f < pf_end g \<or> pf_end f = pf_end g \<and> str_less (pf_entity f) (pf_entity g))"

fun insert_finding :: "pii_finding \<Rightarrow> pii_finding list \<Rightarrow> pii_finding list" where
  "insert_finding f [] = [f]"
| "insert_finding f (g # gs) =
     (if finding_less g f then g # insert_finding f gs else f # g # gs)"

definition sort_findings :: "pii_finding list \<Rightarrow> pii_finding list" where
  "sort_findings fs = foldr insert_finding fs []"

text \<open>Any failure is a \<open>PiiInspectionError\<close>: no partial result.\<close>

definition analyze :: "scanner \<Rightarrow> pystr \<Rightarrow> pii_finding list result" where
  "analyze sc s =
     (if s = [] then Inr []
      else case scan_languages sc LANGUAGE_ENTITIES s [] of
        Inl e \<Rightarrow> Inl Failure
      | Inr found \<Rightarrow> Inr (sort_findings (dvalues found)))"

subsection \<open>Redaction with labels\<close>

type_synonym label_span = "nat \<times> nat \<times> pystr list"

fun label_spans :: "pii_finding list \<Rightarrow> label_span list \<Rightarrow> label_span list" where
  "label_spans [] acc = rev acc"
| "label_spans (f # fs) [] = label_spans fs [(pf_start f, pf_end f, [pf_entity f])]"
| "label_spans (f # fs) ((a, b, ls) # acc) =
     (if pf_start f < b
      then label_spans fs ((a, max b (pf_end f), List.insert (pf_entity f) ls) # acc)
      else label_spans fs ((pf_start f, pf_end f, [pf_entity f]) # (a, b, ls) # acc))"

definition span_label :: "pystr list \<Rightarrow> pystr" where
  "span_label ls = (case ls of [l] \<Rightarrow> l | _ \<Rightarrow> uni ''PII'')"

fun redact_spans :: "pystr \<Rightarrow> nat \<Rightarrow> label_span list \<Rightarrow> pystr" where
  "redact_spans s cursor [] = drop cursor s"
| "redact_spans s cursor ((a, b, ls) # rest) =
     take (a - cursor) (drop cursor s) @ uni ''<redacted:'' @ span_label ls @ uni ''>'' @
     redact_spans s b rest"

definition redact :: "scanner \<Rightarrow> pystr \<Rightarrow> (pystr \<times> pii_finding list) result" where
  "redact sc s = rbind (analyze sc s) (\<lambda>fs.
     Inr (if fs = [] then (s, []) else (redact_spans s 0 (label_spans fs []), fs)))"

subsection \<open>What the scanner returns\<close>

definition finding_ok :: "scanner \<Rightarrow> nat \<Rightarrow> pii_finding \<Rightarrow> bool" where
  "finding_ok sc len f \<longleftrightarrow> pf_start f < pf_end f \<and> pf_end f \<le> len \<and>
     finding_threshold sc (pf_entity f) \<le> pf_score f \<and> pf_score f \<le> 1 \<and>
     (\<exists>p \<in> set LANGUAGE_ENTITIES. pf_entity f \<in> set (snd p))"

lemma set_insert_finding: "set (insert_finding f gs) = insert f (set gs)"
  by (induction gs) auto

lemma set_sort_findings [simp]: "set (sort_findings fs) = set fs"
  by (induction fs) (auto simp: sort_findings_def set_insert_finding)

text \<open>Sorted by start.\<close>

lemma sorted_insert_finding:
  "sorted (map pf_start gs) \<Longrightarrow> sorted (map pf_start (insert_finding f gs))"
  by (induction gs) (auto simp: set_insert_finding finding_less_def)

lemma sorted_findings: "sorted (map pf_start (sort_findings fs))"
  by (induction fs) (auto simp: sort_findings_def sorted_insert_finding)

lemma collect_ok:
  assumes "collect_results sc entities len rs found = Inr found'"
    and "\<forall>f \<in> set (dvalues found). finding_ok sc len f"
    and "(lang, entities) \<in> set LANGUAGE_ENTITIES"
  shows "\<forall>f \<in> set (dvalues found'). finding_ok sc len f"
  using assms(1,2)
proof (induction rs arbitrary: found)
  case Nil
  then show ?case by simp
next
  case (Cons r rs)
  then obtain f where f: "make_finding r = Inr f" "pf_entity f \<in> set entities" "pf_end f \<le> len"
      and rest: "collect_results sc entities len rs
        (if pf_score f < finding_threshold sc (pf_entity f) then found else keep_best f found) = Inr found'"
    by (auto simp: rbind_Inr_iff not_less split: if_split_asm)
  have mk: "pf_start f < pf_end f" "pf_score f \<le> 1"
    using f(1) by (auto simp: make_finding_def split: if_splits option.splits)
  have vals: "set (dvalues (dset k f found)) \<subseteq> insert f (set (dvalues found))" for k
    by (induction found) auto
  have "\<forall>g \<in> set (dvalues (if pf_score f < finding_threshold sc (pf_entity f) then found
      else keep_best f found)). finding_ok sc len g"
  proof (cases "pf_score f < finding_threshold sc (pf_entity f)")
    case True
    with Cons.prems(2) show ?thesis by simp
  next
    case False
    have "finding_ok sc len f"
      using f mk False assms(3) by (force simp: finding_ok_def)
    moreover have "set (dvalues (keep_best f found)) \<subseteq> insert f (set (dvalues found))"
      using vals by (auto simp: keep_best_def Let_def split: option.splits if_splits)
    ultimately have "\<forall>g \<in> set (dvalues (keep_best f found)). finding_ok sc len g"
      using Cons.prems(2) by blast
    with False show ?thesis by simp
  qed
  with Cons.IH [OF rest] show ?case by blast
qed

lemma scan_ok:
  assumes "scan_languages sc ls s found = Inr found'" "set ls \<subseteq> set LANGUAGE_ENTITIES"
    and "\<forall>f \<in> set (dvalues found). finding_ok sc (length s) f"
  shows "\<forall>f \<in> set (dvalues found'). finding_ok sc (length s) f"
  using assms
proof (induction ls arbitrary: found)
  case Nil
  then show ?case by simp
next
  case (Cons p ls)
  obtain lang entities where p: "p = (lang, entities)" by fastforce
  with Cons.prems(1) obtain rs found1 where
      one: "collect_results sc entities (length s) rs found = Inr found1"
      and rest: "scan_languages sc ls s found1 = Inr found'"
    by (auto simp: rbind_Inr_iff)
  have mem: "(lang, entities) \<in> set LANGUAGE_ENTITIES" and sub: "set ls \<subseteq> set LANGUAGE_ENTITIES"
    using Cons.prems(2) p by auto
  show ?case
    by (rule Cons.IH [OF rest sub collect_ok [OF one Cons.prems(3) mem]])
qed

lemma analyze_ok:
  assumes "analyze sc s = Inr fs"
  shows "(\<forall>f \<in> set fs. finding_ok sc (length s) f) \<and> sorted (map pf_start fs)"
  using assms scan_ok [of sc LANGUAGE_ENTITIES s "[]"]
  by (auto simp: analyze_def sorted_findings split: if_splits sum.splits)

end
