(* ===== verification/Masking.thy ===== *)
theory Masking
  imports Pii "HOL-Library.Product_Lexorder"
begin

text \<open>
  \<open>InspectionEngine._mask\<close> of \<open>inspection/engine.py\<close>: overlapping and adjacent findings are
  merged and every merged span is replaced, from the last to the first.  The reference
  \<open>mask_runs\<close> reads the text once and knows nothing of spans: each maximal run of covered
  positions becomes one marker, every other character stays (\<open>mask_is_mask_runs\<close>).
\<close>

definition REDACTED :: pystr where
  "REDACTED = uni ''[REDACTED]''"

subsection \<open>The routine\<close>

definition span_key :: "pii_finding \<Rightarrow> nat \<times> nat" where
  "span_key f = (pf_start f, pf_end f)"

text \<open>The merged spans, last first, as the loop builds them.\<close>

fun merge_spans :: "pii_finding list \<Rightarrow> (nat \<times> nat) list \<Rightarrow> (nat \<times> nat) list" where
  "merge_spans [] acc = acc"
| "merge_spans (f # fs) [] = merge_spans fs [(pf_start f, pf_end f)]"
| "merge_spans (f # fs) ((a, b) # acc) =
     (if pf_start f \<le> b then merge_spans fs ((a, max b (pf_end f)) # acc)
      else merge_spans fs ((pf_start f, pf_end f) # (a, b) # acc))"

fun replace_spans :: "(nat \<times> nat) list \<Rightarrow> pystr \<Rightarrow> pystr" where
  "replace_spans [] s = s"
| "replace_spans ((a, b) # spans) s = replace_spans spans (take a s @ REDACTED @ drop b s)"

definition mask :: "pystr \<Rightarrow> pii_finding list \<Rightarrow> pystr" where
  "mask s fs = replace_spans (merge_spans (sort_key span_key fs) []) s"

subsection \<open>The reference\<close>

text \<open>\<open>cov i\<close>: position \<open>i\<close> is covered; \<open>prev\<close>: so was the one before.\<close>

fun mask_runs :: "(nat \<Rightarrow> bool) \<Rightarrow> nat \<Rightarrow> bool \<Rightarrow> pystr \<Rightarrow> pystr" where
  "mask_runs cov i prev [] = []"
| "mask_runs cov i prev (c # s) =
     (if cov i then (if prev then [] else REDACTED) @ mask_runs cov (Suc i) True s
      else c # mask_runs cov (Suc i) False s)"

definition covered :: "pii_finding list \<Rightarrow> nat \<Rightarrow> bool" where
  "covered fs i \<longleftrightarrow> list_ex (\<lambda>f. pf_start f \<le> i \<and> i < pf_end f) fs"

definition in_spans :: "(nat \<times> nat) list \<Rightarrow> nat \<Rightarrow> bool" where
  "in_spans spans i \<longleftrightarrow> (\<exists>(a, b) \<in> set spans. a \<le> i \<and> i < b)"

text \<open>Spans in decreasing order, each apart from the next.\<close>

fun apart :: "(nat \<times> nat) list \<Rightarrow> bool" where
  "apart [] = True"
| "apart [(a, b)] = (a < b)"
| "apart ((a, b) # (c, d) # spans) = (a < b \<and> d < a \<and> apart ((c, d) # spans))"

lemma apart_tl: "apart (p # spans) \<Longrightarrow> apart spans"
  by (cases spans; cases p) auto

lemma apart_before: "apart ((a, b) # spans) \<Longrightarrow> (c, d) \<in> set spans \<Longrightarrow> c < d \<and> d < a"
proof (induction spans arbitrary: a b)
  case (Cons p spans)
  obtain c' d' where p: "p = (c', d')" by fastforce
  with Cons.prems have "c' < d'" "d' < a" "apart ((c', d') # spans)"
    by (cases spans; auto)+
  with Cons.IH [of c' d'] Cons.prems(2) p show ?case by auto
qed simp

lemma apart_all: "apart spans \<Longrightarrow> (a, b) \<in> set spans \<Longrightarrow> a < b"
proof (cases spans)
  case (Cons p rest)
  moreover obtain c d where "p = (c, d)" by fastforce
  moreover assume "apart spans" "(a, b) \<in> set spans"
  ultimately show ?thesis using apart_before [of c d rest a b] by (cases rest) auto
qed simp

lemma apart_Cons_Cons: "apart ((a, b) # spans) \<Longrightarrow> b < c \<Longrightarrow> c < d \<Longrightarrow> apart ((c, d) # (a, b) # spans)"
  by simp

lemma apart_extend: "apart ((a, b) # spans) \<Longrightarrow> apart ((a, max b e) # spans)"
  by (cases spans) auto

lemma merge_spans_apart:
  assumes "\<forall>f \<in> set fs. pf_start f < pf_end f" "sorted (map pf_start fs)" "apart acc"
    and "\<forall>f \<in> set fs. acc \<noteq> [] \<longrightarrow> fst (hd acc) \<le> pf_start f"
  shows "apart (merge_spans fs acc) \<and>
     (\<forall>i. in_spans (merge_spans fs acc) i \<longleftrightarrow> covered fs i \<or> in_spans acc i)"
  using assms
proof (induction fs acc rule: merge_spans.induct)
  case (1 acc)
  then show ?case by (simp add: covered_def)
next
  case (2 f fs)
  then show ?case by (auto simp: covered_def in_spans_def)
next
  case (3 f fs a b acc)
  have a: "a \<le> pf_start f" and ab: "a < b" and f: "pf_start f < pf_end f"
    using "3.prems" apart_all [of "(a, b) # acc" a b] by auto
  show ?case
  proof (cases "pf_start f \<le> b")
    case True
    have "apart (merge_spans fs ((a, max b (pf_end f)) # acc)) \<and>
        (\<forall>i. in_spans (merge_spans fs ((a, max b (pf_end f)) # acc)) i \<longleftrightarrow>
           covered fs i \<or> in_spans ((a, max b (pf_end f)) # acc) i)"
      using "3.IH"(1) [OF True] "3.prems" apart_extend [of a b acc] by auto
    moreover have "in_spans ((a, max b (pf_end f)) # acc) i \<longleftrightarrow>
        (pf_start f \<le> i \<and> i < pf_end f) \<or> in_spans ((a, b) # acc) i" for i
      using True a ab f by (auto simp: in_spans_def)
    ultimately show ?thesis
      using True by (auto simp: covered_def)
  next
    case False
    have "apart ((pf_start f, pf_end f) # (a, b) # acc)"
      using False f "3.prems"(3) by simp
    then have "apart (merge_spans fs ((pf_start f, pf_end f) # (a, b) # acc)) \<and>
        (\<forall>i. in_spans (merge_spans fs ((pf_start f, pf_end f) # (a, b) # acc)) i \<longleftrightarrow>
           covered fs i \<or> in_spans ((pf_start f, pf_end f) # (a, b) # acc) i)"
      using "3.IH"(2) [OF False] "3.prems"(1,2) by auto
    then show ?thesis
      using False by (auto simp: covered_def in_spans_def)
  qed
qed

subsection \<open>Reading the text once\<close>

lemma mask_runs_append:
  "mask_runs cov i prev (s @ t) =
     mask_runs cov i prev s @ mask_runs cov (i + length s) (if s = [] then prev else cov (i + length s - 1)) t"
  by (induction s arbitrary: i prev) auto

lemma mask_runs_three:
  assumes "y \<noteq> []" "x = [] \<or> \<not> cov (length x - 1)"
  shows "mask_runs cov 0 False (x @ y @ z) = mask_runs cov 0 False x @ mask_runs cov (length x) False y @
    mask_runs cov (length x + length y) (cov (length x + length y - 1)) z"
proof -
  have "(if x = [] then False else cov (length x - 1)) = False" using assms(2) by auto
  then show ?thesis
    using assms(1) by (simp only: mask_runs_append add_0 if_False simp_thms append_assoc)
qed

lemma mask_runs_none: "\<forall>j < length s. \<not> cov (i + j) \<Longrightarrow> mask_runs cov i prev s = s"
proof (induction s arbitrary: i prev)
  case (Cons c s)
  have "\<not> cov i" using Cons.prems by (metis add.right_neutral length_greater_0_conv list.distinct(1))
  moreover have "\<forall>j < length s. \<not> cov (Suc i + j)" using Cons.prems by fastforce
  ultimately show ?case using Cons.IH by simp
qed simp

lemma mask_runs_all:
  "\<forall>j < length s. cov (i + j) \<Longrightarrow> mask_runs cov i True s = []"
proof (induction s arbitrary: i)
  case (Cons c s)
  have "cov i" using Cons.prems by (metis add.right_neutral length_greater_0_conv list.distinct(1))
  moreover have "\<forall>j < length s. cov (Suc i + j)" using Cons.prems by fastforce
  ultimately show ?case using Cons.IH by simp
qed simp

lemma mask_runs_block:
  assumes "s \<noteq> []" "\<forall>j < length s. cov (i + j)"
  shows "mask_runs cov i False s = REDACTED"
proof (cases s)
  case (Cons c r)
  have "cov i" using assms by (metis add.right_neutral length_greater_0_conv)
  moreover have "\<forall>j < length r. cov (Suc i + j)" using assms(2) Cons by fastforce
  ultimately show ?thesis using Cons mask_runs_all [of r cov "Suc i"] by simp
qed (use assms in simp)

lemma mask_runs_cong:
  "\<forall>j < length s. cov (i + j) = cov' (i + j) \<Longrightarrow> mask_runs cov i prev s = mask_runs cov' i prev s"
proof (induction s arbitrary: i prev)
  case (Cons c s)
  have "cov i = cov' i" using Cons.prems by (metis add.right_neutral length_greater_0_conv list.distinct(1))
  moreover have "\<forall>j < length s. cov (Suc i + j) = cov' (Suc i + j)" using Cons.prems by fastforce
  ultimately show ?case using Cons.IH by simp
qed simp

text \<open>Replacing the last span first leaves the others where they were.\<close>

lemma replace_spans_runs:
  assumes "apart spans" "\<forall>(a, b) \<in> set spans. b \<le> length s"
  shows "replace_spans spans (s @ t) = mask_runs (in_spans spans) 0 False s @ t"
  using assms
proof (induction spans arbitrary: s t)
  case Nil
  then show ?case using mask_runs_none [of s "\<lambda>_. False" 0 False] by (simp add: in_spans_def)
next
  case (Cons p spans)
  obtain a b where p: "p = (a, b)" by fastforce
  have ab: "a < b" "b \<le> length s"
    using Cons.prems p apart_all [of "p # spans" a b] by auto
  have before: "\<forall>(c, d) \<in> set spans. c < d \<and> d < a"
    using Cons.prems(1) p apart_before by blast
  let ?cov = "in_spans (p # spans)"
  have cov_pre: "\<forall>j < length (take a s). in_spans spans (0 + j) = ?cov (0 + j)"
    using p by (auto simp: in_spans_def)
  have cov_mid: "\<forall>j < length (drop a (take b s)). ?cov (a + j)"
    using p by (auto simp: in_spans_def)
  have cov_post: "\<forall>j < length (drop b s). \<not> ?cov (b + j)"
    using p before ab by (fastforce simp: in_spans_def)
  have gap: "\<not> ?cov (a - 1) \<or> a = 0"
    using p before by (fastforce simp: in_spans_def)
  have split: "s = take a s @ drop a (take b s) @ drop b s"
    using ab by (metis append_assoc append_take_drop_id drop_take min.absorb1 order_less_imp_le take_take)
  have "replace_spans (p # spans) (s @ t) = replace_spans spans (take a s @ REDACTED @ drop b s @ t)"
    using p ab by simp
  also have "\<dots> = mask_runs (in_spans spans) 0 False (take a s) @ REDACTED @ drop b s @ t"
    using Cons.IH [of "take a s" "REDACTED @ drop b s @ t"] Cons.prems(1) apart_tl [of p spans] before ab
    by force
  also have "mask_runs (in_spans spans) 0 False (take a s) = mask_runs ?cov 0 False (take a s)"
    by (rule mask_runs_cong [OF cov_pre])
  also have "REDACTED = mask_runs ?cov a False (drop a (take b s))"
    using mask_runs_block [OF _ cov_mid] ab by simp
  also have "drop b s = mask_runs ?cov b (?cov (b - 1)) (drop b s)"
    using mask_runs_none [OF cov_post] by simp
  also have "mask_runs ?cov 0 False (take a s) @ mask_runs ?cov a False (drop a (take b s)) @
      mask_runs ?cov b (?cov (b - 1)) (drop b s) @ t = mask_runs ?cov 0 False s @ t"
    using mask_runs_three [of "drop a (take b s)" "take a s" ?cov "drop b s"] gap ab
    by (auto simp: split [symmetric])
  finally show ?case .
qed

lemma sorted_span_key: "sorted (map pf_start (sort_key span_key fs))"
proof -
  have "sorted (map span_key (sort_key span_key fs))" by (rule sorted_sort_key)
  then have "sorted_wrt (\<lambda>f g. span_key f \<le> span_key g) (sort_key span_key fs)"
    by (simp only: sorted_map)
  then show ?thesis
    unfolding sorted_map by (rule sorted_wrt_mono_rel [rotated]) (auto simp: span_key_def)
qed

theorem mask_is_mask_runs:
  assumes "\<forall>f \<in> set fs. pf_start f < pf_end f \<and> pf_end f \<le> length s"
  shows "mask s fs = mask_runs (covered fs) 0 False s"
proof -
  let ?spans = "merge_spans (sort_key span_key fs) []"
  have m: "apart ?spans" "\<forall>i. in_spans ?spans i = covered fs i"
    using merge_spans_apart [of "sort_key span_key fs" "[]"] assms
    by (auto simp: sorted_span_key covered_def in_spans_def list_ex_iff)
  have "b \<le> length s" if ab: "(a, b) \<in> set ?spans" for a b
  proof -
    have "a < b" using apart_all [OF m(1) ab] .
    with ab have "in_spans ?spans (b - 1)"
      unfolding in_spans_def by (intro bexI [of _ "(a, b)"]) auto
    then have "covered fs (b - 1)" using m(2) by simp
    then show ?thesis using assms by (fastforce simp: covered_def list_ex_iff)
  qed
  then have "replace_spans ?spans (s @ []) = mask_runs (in_spans ?spans) 0 False s @ []"
    by (intro replace_spans_runs m(1)) auto
  moreover have "in_spans ?spans = covered fs" using m(2) by blast
  ultimately show ?thesis by (simp add: mask_def)
qed

end
