(* ===== verification/Inspection.thy ===== *)
theory Inspection
  imports Identity Llm Masking Secret_Detection Broker
begin

text \<open>
  The working parts of \<open>InspectionEngine\<close> (\<open>inspection/engine.py\<close>): its state and
  environment, the PII and signature scans of a text, the scan of headers and target, and
  the redaction of a JSON value.  \<open>inspection/signatures.py\<close> is here too.

  Environment (\<open>engine_env\<close>): the configuration, and what the code reads from outside.  The
  \<open>n\<close>-th check of the deadline is \<open>ee_expired n\<close>; the PII scanner and the timed regular
  expressions (the third-party \<open>regex\<close> package, \<open>None\<close> for its \<open>TimeoutError\<close>) may answer
  differently at each check, so they take the number of checks made.

  State (\<open>engine_state\<close>): the number of checks, the verdict being built (whose list of
  entities the scans extend), the nonce database and the state of the Access Broker.
\<close>

subsection \<open>Signatures\<close>

record scan_pattern =
  sp_name :: string
  sp_regex :: string
  sp_dotall :: bool
  sp_ignorecase :: bool
  sp_severity :: nat
  sp_required :: "pystr list"

text \<open>The pattern texts, with \<open>esc c\<close> for a backslash before \<open>c\<close>.\<close>

definition esc :: "string \<Rightarrow> string" where
  "esc s = CHR 0x5C # s"

definition DEFAULT_PATTERNS :: "scan_pattern list" where
  "DEFAULT_PATTERNS =
    [\<lparr>sp_name = ''prompt_injection'',
       sp_regex = ''ignore'' @ esc ''s+(?:(?:the|your)'' @ esc
         ''s+)?(?:(?:all|any|previous|prior|above|earlier)'' @ esc ''s+){1,2}instructions'',
       sp_dotall = False, sp_ignorecase = True, sp_severity = 2, sp_required = [uni ''ignore'']\<rparr>,
     \<lparr>sp_name = ''system_prompt_exfil'',
       sp_regex = ''reveal'' @ esc ''s+(the'' @ esc ''s+)?(system|developer)'' @ esc ''s+prompt'',
       sp_dotall = False, sp_ignorecase = True, sp_severity = 2, sp_required = [uni ''reveal'']\<rparr>,
     \<lparr>sp_name = ''hidden_html_comment'', sp_regex = ''<!--.*?-->'',
       sp_dotall = True, sp_ignorecase = True, sp_severity = 1, sp_required = []\<rparr>,
     \<lparr>sp_name = ''invisible_unicode'',
       sp_regex = ''['' @ esc ''u200b-'' @ esc ''u200f'' @ esc ''u2060'' @ esc ''ufeff]'',
       sp_dotall = False, sp_ignorecase = False, sp_severity = 1, sp_required = []\<rparr>,
     \<lparr>sp_name = ''base64_blob'', sp_regex = ''(?:[A-Za-z0-9+/]{40,}={0,2})'',
       sp_dotall = False, sp_ignorecase = False, sp_severity = 1, sp_required = []\<rparr>,
     \<lparr>sp_name = ''exfil_instruction'',
       sp_regex = ''(send|post|upload|email)'' @ esc ''s+.*?(secret|credential|token|prompt|file)'',
       sp_dotall = False, sp_ignorecase = True, sp_severity = 2,
       sp_required = [uni ''send'', uni ''post'', uni ''upload'', uni ''email'']\<rparr>]"

definition signature_patterns :: "scan_pattern list" where
  "signature_patterns = filter (\<lambda>p. 2 \<le> sp_severity p) DEFAULT_PATTERNS"

subsection \<open>State and environment\<close>

record engine_env =
  ee_config :: inspection_config
  ee_url :: url_env
  ee_crypto :: crypto
  ee_alnum :: "nat \<Rightarrow> bool"
  ee_repr :: "json \<Rightarrow> pystr"
  ee_expired :: "nat \<Rightarrow> bool"
  ee_pii :: "nat \<Rightarrow> pystr \<Rightarrow> pii_finding list result"
  ee_search :: "nat \<Rightarrow> scan_pattern \<Rightarrow> pystr \<Rightarrow> bool option"
  ee_verifier :: verifier
  ee_now :: int
  ee_db_ok :: bool
  ee_broker :: "broker_env option"

record engine_state =
  es_checks :: nat
  es_verdict :: verdict
  es_nonces :: nonces
  es_broker :: bstate

type_synonym 'a eact = "(engine_state, 'a) act"

abbreviation denied :: "string \<Rightarrow> 'a eact" where
  "denied r \<equiv> raise (Inspection r)"

definition engine_json :: "engine_env \<Rightarrow> bytes \<Rightarrow> json result" where
  "engine_json env raw = strict_json (crypto_json (ee_crypto env)) (ic_max_json_depth (ee_config env)) raw"

definition with_checks :: "'a clocked \<Rightarrow> 'a eact" where
  "with_checks m s = (case m (es_checks s) of (r, n) \<Rightarrow> (r, s\<lparr>es_checks := n\<rparr>))"

definition with_nonces :: "(nonces, 'a) act \<Rightarrow> 'a eact" where
  "with_nonces m s = (case m (es_nonces s) of (r, db) \<Rightarrow> (r, s\<lparr>es_nonces := db\<rparr>))"

definition with_broker :: "'a broker_act \<Rightarrow> 'a eact" where
  "with_broker m s = (case m (es_broker s) of (r, b) \<Rightarrow> (r, s\<lparr>es_broker := b\<rparr>))"

definition set_verdict :: "(verdict \<Rightarrow> verdict) \<Rightarrow> unit eact" where
  "set_verdict f = modify (\<lambda>s. s\<lparr>es_verdict := f (es_verdict s)\<rparr>)"

definition add_entities :: "pii_finding list \<Rightarrow> unit eact" where
  "add_entities fs = set_verdict (\<lambda>v. v\<lparr>vd_entities := vd_entities v @ map pf_entity fs\<rparr>)"

definition secrets_of :: "engine_env \<Rightarrow> secret_env" where
  "secrets_of env = \<lparr>sx_expired = ee_expired env, sx_alnum = ee_alnum env,
     sx_json_text = json_text (ee_crypto env), sx_json = crypto_json (ee_crypto env)\<rparr>"

subsection \<open>Scanning a text\<close>

definition check_time :: "engine_env \<Rightarrow> unit eact" where
  "check_time env = with_checks (check_deadline (ee_expired env))"

definition find_pii :: "engine_env \<Rightarrow> pystr \<Rightarrow> pii_finding list eact" where
  "find_pii env t =
     seq (check_time env) (\<lambda>_.
     seq (gets es_checks) (\<lambda>n.
     seq (lift_result (ee_pii env n t)) (\<lambda>fs.
       ret (filter (\<lambda>f. ic_pii_min_score (ee_config env) \<le> pf_score f) fs))))"

text \<open>\<open>_BoundedSignature.search\<close>.\<close>

definition bounded_search :: "engine_env \<Rightarrow> nat \<Rightarrow> scan_pattern \<Rightarrow> pystr \<Rightarrow> bool option" where
  "bounded_search env n p t =
     (if sp_required p \<noteq> [] \<and> is_ascii t \<and> \<not> list_ex (contains_sub (py_lower t)) (sp_required p)
      then Some False
      else ee_search env n p t)"

fun search_patterns :: "engine_env \<Rightarrow> nat \<Rightarrow> scan_pattern list \<Rightarrow> pystr \<Rightarrow> bool option" where
  "search_patterns env n [] t = Some False"
| "search_patterns env n (p # ps) t =
     (case bounded_search env n p t of
        None \<Rightarrow> None
      | Some True \<Rightarrow> Some True
      | Some False \<Rightarrow> search_patterns env n ps t)"

definition check_signature :: "engine_env \<Rightarrow> pystr \<Rightarrow> unit eact" where
  "check_signature env t =
     seq (check_time env) (\<lambda>_.
     seq (gets es_checks) (\<lambda>n.
       case search_patterns env n signature_patterns t of
         None \<Rightarrow> denied ''signature_timeout''
       | Some True \<Rightarrow> denied ''suspicious_instruction''
       | Some False \<Rightarrow> ret ()))"

fun check_signatures :: "engine_env \<Rightarrow> pystr list \<Rightarrow> unit eact" where
  "check_signatures env [] = ret ()"
| "check_signatures env (t # ts) = seq (check_signature env t) (\<lambda>_. check_signatures env ts)"

text \<open>\<open>_signatures\<close>.\<close>

definition signatures :: "engine_env \<Rightarrow> json \<Rightarrow> unit eact" where
  "signatures env v =
     seq (with_checks (contains_secret (secrets_of env) False v)) (\<lambda>b.
       if b then denied ''secret_detected'' else check_signatures env (iter_strings v))"

subsection \<open>Headers and target\<close>

definition credential_names :: "engine_env \<Rightarrow> pystr list" where
  "credential_names env =
     [uni ''authorization'', uni ''proxy-authorization'', uni ''cookie'', uni ''x-api-key'',
      uni ''api-key'', uni ''x-goog-api-key''] @ ic_credential_headers (ee_config env)"

text \<open>One text of the metadata: signatures, then PII.\<close>

definition inspect_text :: "engine_env \<Rightarrow> string \<Rightarrow> pystr \<Rightarrow> unit eact" where
  "inspect_text env reason t =
     seq (signatures env (JStr t)) (\<lambda>_.
     seq (find_pii env t) (\<lambda>fs. if fs = [] then ret () else denied reason))"

fun inspect_texts :: "engine_env \<Rightarrow> string \<Rightarrow> pystr list \<Rightarrow> unit eact" where
  "inspect_texts env reason [] = ret ()"
| "inspect_texts env reason (t # ts) =
     seq (inspect_text env reason t) (\<lambda>_. inspect_texts env reason ts)"

definition inspected_headers :: "engine_env \<Rightarrow> bool \<Rightarrow> http_message \<Rightarrow> pystr list" where
  "inspected_headers env response m =
     map snd (filter (\<lambda>(k, _). response \<or> k \<notin> set (credential_names env))
       (application_headers (hm_headers m)))"

definition target_candidates :: "engine_env \<Rightarrow> http_message \<Rightarrow> pystr list result" where
  "target_candidates env m =
     (case urlsplit (ee_url env) (hm_path m) of
        None \<Rightarrow> Inl (Value_error ''url'')
      | Some u \<Rightarrow>
          (case parse_qsl 256 (u_query u) of
             None \<Rightarrow> fails ''request_query_limit_exceeded''
           | Some pairs \<Rightarrow> Inr (unquote (hm_path m) # map unquote (split_on 47 (u_path u)) @
               concat (map (\<lambda>(k, v). [k, v]) pairs))))"

definition inspect_metadata :: "engine_env \<Rightarrow> bool \<Rightarrow> http_message \<Rightarrow> unit eact" where
  "inspect_metadata env response m =
     seq (inspect_texts env ''pii_in_http_header'' (inspected_headers env response m)) (\<lambda>_.
       if response then ret ()
       else seq (lift_result (target_candidates env m)) (inspect_texts env ''pii_in_request_target''))"

subsection \<open>Redaction of a JSON value\<close>

fun segments_match :: "pystr list \<Rightarrow> pystr list \<Rightarrow> bool" where
  "segments_match [] [] = True"
| "segments_match (p # ps) (r # rs) = ((r = [42] \<or> r = p) \<and> segments_match ps rs)"
| "segments_match _ _ = False"

definition field_allowed :: "pystr list \<Rightarrow> pystr list \<Rightarrow> bool" where
  "field_allowed path patterns \<longleftrightarrow>
     list_ex (\<lambda>p. segments_match path (map pointer_key (tl (split_on 47 p)))) patterns"

text \<open>
  \<open>_redact_json\<close>, its treatment of strings abstracted: the code's two treatments are
  \<open>redact_leaf\<close> and, with \<open>json_arguments\<close>, \<open>redact_arguments\<close>, which reads the string as
  JSON and redacts that value with the former.
\<close>

definition check_number :: "engine_env \<Rightarrow> pystr \<Rightarrow> json \<Rightarrow> json eact" where
  "check_number env t v =
     seq (find_pii env t) (\<lambda>fs. if fs = [] then ret v else denied ''pii_in_numeric_field'')"

fun redact_value :: "engine_env \<Rightarrow> (pystr list \<Rightarrow> pystr \<Rightarrow> json eact) \<Rightarrow> pystr list \<Rightarrow> json \<Rightarrow> json eact"
  and redact_elements ::
    "engine_env \<Rightarrow> (pystr list \<Rightarrow> pystr \<Rightarrow> json eact) \<Rightarrow> pystr list \<Rightarrow> nat \<Rightarrow> json list \<Rightarrow> json list eact"
  and redact_members ::
    "engine_env \<Rightarrow> (pystr list \<Rightarrow> pystr \<Rightarrow> json eact) \<Rightarrow> pystr list \<Rightarrow> (pystr \<times> json) list \<Rightarrow>
     (pystr \<times> json) list eact" where
  "redact_value env leaf path (JObj ps) =
     seq (redact_members env leaf path ps) (\<lambda>qs. ret (JObj qs))"
| "redact_value env leaf path (JArr vs) =
     seq (redact_elements env leaf path 0 vs) (\<lambda>ws. ret (JArr ws))"
| "redact_value env leaf path (JStr s) = leaf path s"
| "redact_value env leaf path (JInt i) = check_number env (dec_int i) (JInt i)"
| "redact_value env leaf path (JFloat r) = check_number env r (JFloat r)"
| "redact_value env leaf path v = ret v"
| "redact_elements env leaf path i [] = ret []"
| "redact_elements env leaf path i (v # vs) =
     seq (redact_value env leaf (path @ [dec_nat i]) v) (\<lambda>w.
     seq (redact_elements env leaf path (Suc i) vs) (\<lambda>ws. ret (w # ws)))"
| "redact_members env leaf path [] = ret []"
| "redact_members env leaf path ((k, v) # ps) =
     seq (find_pii env k) (\<lambda>fs.
       if fs \<noteq> [] then denied ''pii_in_structural_field''
       else seq (redact_value env leaf (path @ [k]) v) (\<lambda>w.
            seq (redact_members env leaf path ps) (\<lambda>qs. ret ((k, w) # qs))))"

definition redactable :: "pystr list option \<Rightarrow> pystr list \<Rightarrow> bool" where
  "redactable allowed path \<longleftrightarrow> (case allowed of None \<Rightarrow> True | Some ps \<Rightarrow> field_allowed path ps)"

definition redact_leaf ::
  "engine_env \<Rightarrow> pystr list option \<Rightarrow> pii_choice \<Rightarrow> pystr list \<Rightarrow> pystr \<Rightarrow> json eact" where
  "redact_leaf env allowed pii path s =
     seq (find_pii env s) (\<lambda>fs.
     seq (add_entities fs) (\<lambda>_.
       if fs = [] then ret (JStr s)
       else if pii = Block_pii then denied ''pii_block_policy''
       else if \<not> redactable allowed path then denied ''pii_in_nonredactable_field''
       else ret (JStr (mask s fs))))"

definition utf8_bytes :: "pystr \<Rightarrow> bytes result" where
  "utf8_bytes s = (case utf8_encode s of None \<Rightarrow> Inl Unicode_error | Some b \<Rightarrow> Inr b)"

definition utf8_text :: "bytes \<Rightarrow> pystr result" where
  "utf8_text b = (case utf8_decode b of None \<Rightarrow> Inl Unicode_error | Some s \<Rightarrow> Inr s)"

definition redact_plain ::
  "engine_env \<Rightarrow> pystr list option \<Rightarrow> pii_choice \<Rightarrow> json \<Rightarrow> json eact" where
  "redact_plain env allowed pii v = redact_value env (redact_leaf env allowed pii) [] v"

definition redact_arguments ::
  "engine_env \<Rightarrow> pystr list option \<Rightarrow> pii_choice \<Rightarrow> pystr list \<Rightarrow> pystr \<Rightarrow> json eact" where
  "redact_arguments env allowed pii path s =
     (if path = [] \<or> last path \<noteq> uni ''arguments'' then redact_leaf env allowed pii path s
      else seq (lift_result (rbind (utf8_bytes s) (engine_json env))) (\<lambda>decoded.
           seq (signatures env decoded) (\<lambda>_.
           seq (redact_plain env None pii decoded) (\<lambda>modified.
             if modified = decoded then ret (JStr s)
             else if \<not> redactable allowed path then denied ''pii_in_nonredactable_field''
             else lift_result (rbind (encode_json modified) (\<lambda>b.
                    rbind (utf8_text b) (\<lambda>t. Inr (JStr t))))))))"

definition redact_json ::
  "engine_env \<Rightarrow> pystr list option \<Rightarrow> pii_choice \<Rightarrow> bool \<Rightarrow> json \<Rightarrow> json eact" where
  "redact_json env allowed pii json_arguments v =
     (if json_arguments then redact_value env (redact_arguments env allowed pii) [] v
      else redact_plain env allowed pii v)"

subsection \<open>Which policy applies to PII\<close>

definition pii_policy ::
  "engine_env \<Rightarrow> route_rule option \<Rightarrow> tool_rule option \<Rightarrow> pii_choice \<times> pii_scope" where
  "pii_policy env route rule =
     (case Option.bind rule tr_pii_action of
        Some a \<Rightarrow> (a, Scope_tool)
      | None \<Rightarrow>
          (case Option.bind route rr_pii_action of
             Some a \<Rightarrow> (a, Scope_route)
           | None \<Rightarrow> (ic_pii_action (ee_config env), Scope_global)))"

end
