(* ===== verification/Sse.thy ===== *)
theory Sse
  imports Inspection
begin

text \<open>
  \<open>InspectionEngine._redact_sse\<close> of \<open>inspection/engine.py\<close>: a complete stream of server-sent
  events is parsed event by event, the texts of one delta lane are joined and redacted as a
  whole, and the result is cut back into the pieces the events had.

  The state of the event loop (\<open>sse_state\<close>) holds the protocol family recognised so far, the
  block and candidate bookkeeping of the protocols, the lanes and the parsed events.  Where
  the code keeps references \<open>(parent, key, text)\<close> into the parsed values, a piece is located by
  the number of its event and a list of steps; the pieces of different references never
  overlap, so writing through them is an update at each place.
\<close>

subsection \<open>Places in a JSON value\<close>

datatype json_step = At_key pystr | At_index nat

fun update_at :: "json_step list \<Rightarrow> json \<Rightarrow> json \<Rightarrow> json" where
  "update_at [] new v = new"
| "update_at (At_key k # steps) new (JObj d) =
     JObj (map (\<lambda>(k', v). if k' = k then (k', update_at steps new v) else (k', v)) d)"
| "update_at (At_index i # steps) new (JArr vs) =
     (if i < length vs then JArr (vs[i := update_at steps new (vs ! i)]) else JArr vs)"
| "update_at (s # steps) new v = v"

subsection \<open>Lanes\<close>

datatype sse_family = Chat | Responses | Anthropic_events | Gemini | Mcp_events

datatype lane =
    Lane_event nat "pystr list"
  | Lane_chat "pystr list"
  | Lane_gemini pystr pystr
  | Lane_responses pystr pystr pystr pystr
  | Lane_anthropic pystr pystr
  | Lane_mcp nat

datatype lane_kind = Text_lane | Json_lane | Structural_lane

record piece =
  pc_event :: nat
  pc_steps :: "json_step list"
  pc_text :: pystr

type_synonym lanes = "(lane \<times> lane_kind, piece list) dict"

record sse_state =
  ss_family :: "sse_family option"
  ss_terminal :: bool
  ss_started :: bool
  ss_open :: "pystr list"
  ss_seen :: "pystr list"
  ss_gemini_seen :: "pystr list"
  ss_gemini_finished :: "pystr list"
  ss_lanes :: lanes
  ss_events :: "(pystr list \<times> json option) list"

definition sse_start :: sse_state where
  "sse_start = \<lparr>ss_family = None, ss_terminal = False, ss_started = False, ss_open = [], ss_seen = [],
     ss_gemini_seen = [], ss_gemini_finished = [], ss_lanes = [], ss_events = []\<rparr>"

definition sse_structural :: "pystr list" where
  "sse_structural = map uni [''id'', ''type'', ''object'', ''model'', ''role'', ''name'', ''item_id'',
     ''call_id'', ''tool_use_id'', ''finish_reason'', ''signature'', ''finishReason'', ''modelVersion'',
     ''responseId'']"

definition response_deltas :: "(pystr, lane_kind) dict" where
  "response_deltas =
     [(uni ''response.output_text.delta'', Text_lane), (uni ''response.refusal.delta'', Text_lane),
      (uni ''response.function_call_arguments.delta'', Json_lane)]"

definition response_static :: "pystr list" where
  "response_static = map uni [''response.created'', ''response.in_progress'', ''response.completed'',
     ''response.failed'', ''response.output_item.added'', ''response.output_item.done'',
     ''response.content_part.added'', ''response.content_part.done'', ''response.output_text.done'',
     ''response.refusal.done'', ''response.function_call_arguments.done'']"

definition anthropic_types :: "pystr list" where
  "anthropic_types = map uni [''message_start'', ''content_block_start'', ''content_block_delta'',
     ''content_block_stop'', ''message_delta'', ''message_stop'', ''ping'']"

text \<open>\<open>index(value)\<close>.\<close>

definition sse_index :: "json \<Rightarrow> pystr result" where
  "sse_index v =
     (case v of
        JInt i \<Rightarrow> if 0 \<le> i \<and> i \<le> 1000000 then Inr (dec_int i) else fails ''invalid_sse_index''
      | _ \<Rightarrow> fails ''invalid_sse_index'')"

text \<open>\<open>str(value)\<close>; for a list or an object a parameter.\<close>

definition py_str :: "(json \<Rightarrow> pystr) \<Rightarrow> json \<Rightarrow> pystr" where
  "py_str repr v =
     (case v of
        JNull \<Rightarrow> uni ''None''
      | JBool b \<Rightarrow> if b then uni ''True'' else uni ''False''
      | JInt i \<Rightarrow> dec_int i
      | JFloat r \<Rightarrow> r
      | JStr s \<Rightarrow> s
      | _ \<Rightarrow> repr v)"

text \<open>\<open>value[key]\<close>, and \<open>value[key]\<close> where the code relies on a string.\<close>

definition item :: "(pystr, json) dict \<Rightarrow> string \<Rightarrow> json result" where
  "item d k = (case map_of d (uni k) of None \<Rightarrow> Inl Key_error | Some v \<Rightarrow> Inr v)"

definition item_str :: "(pystr, json) dict \<Rightarrow> string \<Rightarrow> pystr result" where
  "item_str d k = rbind (item d k) (\<lambda>v. case v of JStr s \<Rightarrow> Inr s | _ \<Rightarrow> Inl Type_error)"

definition event_type :: "(pystr, json) dict \<Rightarrow> json" where
  "event_type d = get_or d (uni ''type'') JNull"

definition default_lane :: "pystr list \<Rightarrow> nat \<Rightarrow> lane \<times> lane_kind" where
  "default_lane path ordinal =
     (Lane_event ordinal path, if last path \<in> set sse_structural then Structural_lane else Text_lane)"

definition chat_lane :: "pystr list \<Rightarrow> (lane \<times> lane_kind) option" where
  "chat_lane path =
     (if 4 \<le> length path \<and> path ! 0 = uni ''choices'' \<and> path ! 2 = uni ''delta'' then
        (if path ! 3 \<in> {uni ''content'', uni ''refusal''} \<and> length path = 4
         then Some (Lane_chat [path ! 1, path ! 3], Text_lane)
         else if path ! 3 = uni ''function_call'' \<and> last path \<in> {uni ''name'', uni ''arguments''} \<or>
                 path ! 3 = uni ''tool_calls'' \<and> last path \<in> {uni ''name'', uni ''arguments'', uni ''id''}
         then Some (Lane_chat (path ! 1 # drop 3 path),
                if last path = uni ''arguments'' then Json_lane else Structural_lane)
         else None)
      else None)"

definition gemini_lane :: "pystr list \<Rightarrow> (lane \<times> lane_kind) option" where
  "gemini_lane path =
     (if length path = 6 \<and> path ! 0 = uni ''candidates'' \<and> take 2 (drop 2 path) = [uni ''content'', uni ''parts'']
         \<and> last path = uni ''text''
      then Some (Lane_gemini (path ! 1) (path ! 4), Text_lane) else None)"

definition responses_lane ::
  "(json \<Rightarrow> pystr) \<Rightarrow> (pystr, json) dict \<Rightarrow> pystr list \<Rightarrow> (lane \<times> lane_kind) option result" where
  "responses_lane repr d path =
     (case event_type d of
        JStr t \<Rightarrow>
          (if map_of response_deltas t \<noteq> None \<and> path = [uni ''delta''] then
             rbind (item_str d ''item_id'') (\<lambda>i.
             rbind (rbind (item d ''output_index'') sse_index) (\<lambda>n.
               Inr (Some (Lane_responses i n (py_str repr (get_or d (uni ''content_index'') (JStr []))) t,
                      the (map_of response_deltas t)))))
           else if t = uni ''response.output_item.added'' \<and> path = [uni ''item'', uni ''arguments''] then
             rbind (item d ''item'') (\<lambda>it.
             rbind (case it of JObj q \<Rightarrow> item_str q ''id'' | _ \<Rightarrow> Inl Type_error) (\<lambda>i.
             rbind (rbind (item d ''output_index'') sse_index) (\<lambda>n.
               Inr (Some (Lane_responses i n [] (uni ''response.function_call_arguments.delta''), Json_lane)))))
           else if t = uni ''response.content_part.added'' \<and>
                   path \<in> {[uni ''part'', uni ''text''], [uni ''part'', uni ''refusal'']} then
             rbind (item_str d ''item_id'') (\<lambda>i.
             rbind (rbind (item d ''output_index'') sse_index) (\<lambda>n.
             rbind (rbind (item d ''content_index'') sse_index) (\<lambda>c.
               Inr (Some (Lane_responses i n c
                     (if last path = uni ''text'' then uni ''response.output_text.delta''
                      else uni ''response.refusal.delta''), Text_lane)))))
           else Inr None)
      | _ \<Rightarrow> Inr None)"

definition anthropic_lane :: "(pystr, json) dict \<Rightarrow> pystr list \<Rightarrow> (lane \<times> lane_kind) option result" where
  "anthropic_lane d path =
     (if event_type d = JStr (uni ''content_block_delta'') \<and> length path = 2 \<and> path ! 0 = uni ''delta'' \<and>
         path ! 1 \<in> {uni ''text'', uni ''thinking'', uni ''partial_json'', uni ''signature''}
      then rbind (rbind (item d ''index'') sse_index) (\<lambda>n.
        Inr (Some (Lane_anthropic n (path ! 1),
          if path ! 1 = uni ''partial_json'' then Json_lane
          else if path ! 1 \<in> {uni ''thinking'', uni ''signature''} then Structural_lane else Text_lane)))
      else if event_type d = JStr (uni ''content_block_start'') \<and>
              path \<in> {[uni ''content_block'', uni ''text''], [uni ''content_block'', uni ''thinking'']}
      then rbind (rbind (item d ''index'') sse_index) (\<lambda>n.
        Inr (Some (Lane_anthropic n (last path),
          if last path = uni ''thinking'' then Structural_lane else Text_lane)))
      else Inr None)"

text \<open>\<open>select_lane\<close>.  A string never stands at the root, so \<open>path\<close> is not empty.\<close>

definition select_lane ::
  "(json \<Rightarrow> pystr) \<Rightarrow> sse_family option \<Rightarrow> (pystr, json) dict \<Rightarrow> pystr list \<Rightarrow> nat \<Rightarrow> (lane \<times> lane_kind) result"
  where
  "select_lane repr family d path ordinal =
     rbind (case family of
              Some Chat \<Rightarrow> Inr (chat_lane path)
            | Some Gemini \<Rightarrow> Inr (gemini_lane path)
            | Some Responses \<Rightarrow> responses_lane repr d path
            | Some Anthropic_events \<Rightarrow> anthropic_lane d path
            | Some Mcp_events \<Rightarrow>
                Inr (if length path = 4 \<and> take 2 path = [uni ''result'', uni ''content''] \<and>
                        last path = uni ''text''
                     then Some (Lane_mcp ordinal, Text_lane) else None)
            | None \<Rightarrow> Inr None) (\<lambda>l.
       Inr (case l of
              Some lk \<Rightarrow> lk
            | None \<Rightarrow>
                if last path = uni ''arguments'' \<and> family \<in> {Some Chat, Some Responses}
                then (Lane_event ordinal path, Json_lane)
                else default_lane path ordinal))"

definition add_piece :: "lane \<times> lane_kind \<Rightarrow> piece \<Rightarrow> lanes \<Rightarrow> lanes" where
  "add_piece l p ls = dset l (get_or ls l [] @ [p]) ls"

subsection \<open>Collecting the strings of an event\<close>

definition encoded_payload :: "(pystr \<times> json) list \<Rightarrow> bool result" where
  "encoded_payload ps =
     (let t = event_type ps in
      if \<not> hashable t then Inl Type_error
      else Inr (t \<in> {JStr (uni ''image''), JStr (uni ''audio''), JStr (uni ''redacted_thinking'')} \<or>
        list_ex (\<lambda>k. map_of ps (uni k) \<noteq> None)
          [''encrypted_content'', ''inlineData'', ''fileData'', ''thoughtSignature'', ''partialArgs'']))"

definition indexed_list :: "sse_family option \<Rightarrow> pystr list \<Rightarrow> bool" where
  "indexed_list family path \<longleftrightarrow> path \<noteq> [] \<and>
     (family = Some Chat \<and> last path \<in> {uni ''choices'', uni ''tool_calls''} \<or>
      family = Some Gemini \<and> last path = uni ''candidates'')"

text \<open>The lane index of a list element: its position, or its own distinct \<open>index\<close>.\<close>

definition lane_index :: "bool \<Rightarrow> nat \<Rightarrow> pystr list \<Rightarrow> json \<Rightarrow> pystr result" where
  "lane_index indexed i seen child =
     (if \<not> indexed then Inr (dec_nat i)
      else case child of
        JObj q \<Rightarrow>
          (case map_of q (uni ''index'') of
             None \<Rightarrow> fails ''invalid_sse_index''
           | Some n \<Rightarrow> rbind (sse_index n) (\<lambda>x.
               if x \<in> set seen then fails ''duplicate_sse_index'' else Inr x))
      | _ \<Rightarrow> fails ''invalid_sse_index'')"

record sse_context =
  sc_env :: engine_env
  sc_provider :: "llm_provider option"
  sc_family :: "sse_family option"
  sc_value :: "(pystr, json) dict"
  sc_ordinal :: nat

definition find_or_deny :: "engine_env \<Rightarrow> string \<Rightarrow> pystr \<Rightarrow> unit eact" where
  "find_or_deny env reason t =
     seq (find_pii env t) (\<lambda>fs.
       if fs = [] then ret () else seq (add_entities fs) (\<lambda>_. denied reason))"

definition collect_number :: "sse_context \<Rightarrow> pystr list \<Rightarrow> pystr \<Rightarrow> json \<Rightarrow> unit eact" where
  "collect_number cx path t v =
     (if response_timestamp v (sc_value cx) path (sc_provider cx) then ret ()
      else find_or_deny (sc_env cx) ''pii_in_numeric_field'' t)"

text \<open>
  \<open>collect\<close>, with the pieces in the order the code appends them to their lanes.
\<close>

type_synonym placed = "(lane \<times> lane_kind) \<times> piece"

definition collect_string :: "sse_context \<Rightarrow> json_step list \<Rightarrow> pystr list \<Rightarrow> pystr \<Rightarrow> placed list eact" where
  "collect_string cx steps path s =
     seq (lift_result (select_lane (ee_repr (sc_env cx)) (sc_family cx) (sc_value cx) path (sc_ordinal cx)))
       (\<lambda>l. ret [(l, \<lparr>pc_event = sc_ordinal cx, pc_steps = steps, pc_text = s\<rparr>)])"

definition collect_key :: "sse_context \<Rightarrow> pystr \<Rightarrow> json \<Rightarrow> unit eact" where
  "collect_key cx k v =
     (if k = uni ''logprobs'' \<and> v \<noteq> JNull then denied ''unsupported_sse_encoded_payload''
      else find_or_deny (sc_env cx) ''pii_in_structural_field'' k)"

definition check_payload :: "(pystr \<times> json) list \<Rightarrow> unit eact" where
  "check_payload ps =
     seq (lift_result (encoded_payload ps)) (\<lambda>b.
       if b then denied ''unsupported_sse_encoded_payload'' else ret ())"

definition append_acts :: "'a list eact \<Rightarrow> 'a list eact \<Rightarrow> 'a list eact" where
  "append_acts a b = seq a (\<lambda>xs. seq b (\<lambda>ys. ret (xs @ ys)))"

fun collect :: "sse_context \<Rightarrow> json_step list \<Rightarrow> pystr list \<Rightarrow> json \<Rightarrow> placed list eact"
  and collect_members ::
    "sse_context \<Rightarrow> json_step list \<Rightarrow> pystr list \<Rightarrow> (pystr \<times> json) list \<Rightarrow> placed list eact"
  and collect_elements ::
    "sse_context \<Rightarrow> json_step list \<Rightarrow> pystr list \<Rightarrow> json list \<Rightarrow> nat \<Rightarrow> pystr list \<Rightarrow> placed list eact"
  where
  "collect cx steps path (JObj ps) =
     seq (check_payload ps) (\<lambda>_. collect_members cx steps path ps)"
| "collect cx steps path (JArr vs) = collect_elements cx steps path vs 0 []"
| "collect cx steps path (JStr s) = collect_string cx steps path s"
| "collect cx steps path (JInt i) =
     seq (collect_number cx path (dec_int i) (JInt i)) (\<lambda>_. ret [])"
| "collect cx steps path (JFloat r) =
     seq (collect_number cx path r (JFloat r)) (\<lambda>_. ret [])"
| "collect cx steps path JNull = ret []"
| "collect cx steps path (JBool b) = ret []"
| "collect_members cx steps path [] = ret []"
| "collect_members cx steps path ((k, v) # ps) =
     seq (collect_key cx k v) (\<lambda>_.
       append_acts (collect cx (steps @ [At_key k]) (path @ [k]) v) (collect_members cx steps path ps))"
| "collect_elements cx steps path [] i seen = ret []"
| "collect_elements cx steps path (v # vs) i seen =
     seq (lift_result (lane_index (indexed_list (sc_family cx) path) i seen v)) (\<lambda>x.
       append_acts (collect cx (steps @ [At_index i]) (path @ [x]) v)
         (collect_elements cx steps path vs (Suc i) (x # seen)))"

end
