(* ===== verification/Sse_Stream.thy ===== *)
theory Sse_Stream
  imports Sse
begin

text \<open>
  The event loop of \<open>_redact_sse\<close> and the rewriting of the lanes: framing, the metadata lines,
  the recognition of the protocol family with its bookkeeping, and the output.
\<close>

subsection \<open>Framing\<close>

text \<open>\<open>removeprefix("\ufeff").replace("\r\n", "\n").replace("\r", "\n")\<close>.\<close>

fun crlf_to_lf :: "pystr \<Rightarrow> pystr" where
  "crlf_to_lf [] = []"
| "crlf_to_lf (c # s) =
     (if c = 13 \<and> startswith s [10] then crlf_to_lf s else c # crlf_to_lf s)"

definition normalize_stream :: "pystr \<Rightarrow> pystr" where
  "normalize_stream s =
     map (\<lambda>c. if c = 13 then 10 else c)
       (crlf_to_lf (if startswith s [65279] then tl s else s))"

text \<open>\<open>text.split("\n\n")\<close>.\<close>

fun split_blank :: "pystr \<Rightarrow> pystr list" where
  "split_blank [] = [[]]"
| "split_blank [c] = [[c]]"
| "split_blank (c # d # s) =
     (if c = 10 \<and> d = 10 then [] # split_blank s
      else (case split_blank (d # s) of [] \<Rightarrow> [[c]] | w # ws \<Rightarrow> (c # w) # ws))"

text \<open>A line is a field, whether it has a colon, and the contents without one leading blank.\<close>

definition sse_line :: "pystr \<Rightarrow> pystr \<times> bool \<times> pystr" where
  "sse_line line = (case partition_at 58 line of
     (f, sep, c) \<Rightarrow> (f, sep, if startswith c [32] then tl c else c))"

type_synonym sse_metadata = "(pystr, pystr) dict"

definition metadata_line :: "engine_env \<Rightarrow> pystr \<Rightarrow> sse_metadata \<Rightarrow> sse_metadata eact" where
  "metadata_line env line md =
     (case sse_line line of (f, _, contents) \<Rightarrow>
       seq (signatures env (JStr line)) (\<lambda>_.
       seq (find_or_deny env ''pii_in_sse_metadata'' line) (\<lambda>_.
         if f \<notin> {[], uni ''event'', uni ''id'', uni ''retry''} then denied ''unsupported_sse_field''
         else if f \<noteq> [] \<and> map_of md f \<noteq> None then denied ''ambiguous_sse_metadata''
         else if f = uni ''retry'' \<and> (contents = [] \<or> \<not> list_all is_digit contents)
         then denied ''invalid_sse_retry''
         else ret (if f = [] then md else dset f contents md))))"

fun event_lines ::
  "engine_env \<Rightarrow> pystr list \<Rightarrow> pystr list \<Rightarrow> sse_metadata \<Rightarrow> (pystr list \<times> sse_metadata) eact" where
  "event_lines env [] dl md = ret (dl, md)"
| "event_lines env (line # lines) dl md =
     (case sse_line line of (f, sep, contents) \<Rightarrow>
        if f = uni ''data'' then event_lines env lines (dl @ [if sep then contents else []]) md
        else seq (metadata_line env line md) (event_lines env lines dl))"

subsection \<open>Recognising the protocol\<close>

definition has_key :: "(pystr, json) dict \<Rightarrow> string \<Rightarrow> bool" where
  "has_key d k \<longleftrightarrow> map_of d (uni k) \<noteq> None"

definition only_keys :: "(pystr, json) dict \<Rightarrow> string list \<Rightarrow> bool" where
  "only_keys d ks \<longleftrightarrow> set (dkeys d) \<subseteq> uni ` set ks"

definition str_item :: "(pystr, json) dict \<Rightarrow> string \<Rightarrow> bool" where
  "str_item d k \<longleftrightarrow> as_str (map_of d (uni k)) \<noteq> None"

definition item_or :: "(pystr, json) dict \<Rightarrow> string \<Rightarrow> json \<Rightarrow> json" where
  "item_or d k dflt = get_or d (uni k) dflt"

definition need :: "bool \<Rightarrow> string \<Rightarrow> unit result" where
  "need b r = rguard b (Inspection r)"

definition need_index :: "(pystr, json) dict \<Rightarrow> string \<Rightarrow> unit result" where
  "need_index d k = rbind (sse_index (item_or d k JNull)) (\<lambda>_. Inr ())"

fun all_results :: "('a \<Rightarrow> unit result) \<Rightarrow> 'a list \<Rightarrow> unit result" where
  "all_results f [] = Inr ()"
| "all_results f (x # xs) = rbind (f x) (\<lambda>_. all_results f xs)"

definition chat_choice :: "json \<Rightarrow> unit result" where
  "chat_choice choice =
     (case choice of
        JObj c \<Rightarrow>
          (case map_of c (uni ''delta'') of
             Some (JObj delta) \<Rightarrow>
               (if \<not> only_keys delta [''role'', ''content'', ''refusal'', ''function_call'', ''tool_calls'']
                then fails ''unsupported_sse_delta''
                else need (list_all (\<lambda>k. item_or delta k JNull = JNull \<or> str_item delta k)
                       [''content'', ''refusal'', ''role'']) ''unsupported_sse_delta'')
           | _ \<Rightarrow> fails ''unsupported_sse_schema'')
      | _ \<Rightarrow> fails ''unsupported_sse_schema'')"

definition chat_event :: "(pystr, json) dict \<Rightarrow> unit result" where
  "chat_event d =
     (case map_of d (uni ''choices'') of
        Some (JArr cs) \<Rightarrow>
          (if item_or d ''object'' (JStr (uni ''chat.completion.chunk'')) \<noteq> JStr (uni ''chat.completion.chunk'')
           then fails ''unsupported_sse_schema'' else all_results chat_choice cs)
      | _ \<Rightarrow> fails ''unsupported_sse_schema'')"

definition response_item :: "(pystr, json) dict \<Rightarrow> unit result" where
  "response_item d =
     (case item_or d ''item'' JNull of
        JObj it \<Rightarrow>
          rbind (need (str_item it ''id'') ''unsupported_sse_schema'') (\<lambda>_.
          rbind (need_index d ''output_index'') (\<lambda>_.
            need (\<not> (item_or it ''type'' JNull = JStr (uni ''message'') \<and> item_or it ''content'' (JArr []) \<noteq> JArr []))
              ''unsupported_sse_initial_content''))
      | _ \<Rightarrow> fails ''unsupported_sse_schema'')"

definition response_event :: "(pystr, json) dict \<Rightarrow> pystr \<Rightarrow> unit result" where
  "response_event d t =
     rbind (if map_of response_deltas t = None then Inr ()
            else rbind (need (str_item d ''delta'' \<and> str_item d ''item_id'') ''unsupported_sse_delta'') (\<lambda>_.
                 rbind (need_index d ''output_index'') (\<lambda>_.
                   if t = uni ''response.function_call_arguments.delta'' then Inr ()
                   else need_index d ''content_index''))) (\<lambda>_.
     rbind (if t = uni ''response.output_item.added'' then response_item d else Inr ()) (\<lambda>_.
       if t = uni ''response.content_part.added'' then
         rbind (need (str_item d ''item_id'' \<and> is_obj (item_or d ''part'' JNull)) ''unsupported_sse_schema'') (\<lambda>_.
         rbind (need_index d ''output_index'') (\<lambda>_. need_index d ''content_index''))
       else Inr ()))"

definition response_terminal :: "pystr \<Rightarrow> bool" where
  "response_terminal t \<longleftrightarrow> t = uni ''response.completed'' \<or> t = uni ''response.failed''"

definition anthropic_delta :: "(pystr, json) dict \<Rightarrow> unit result" where
  "anthropic_delta d =
     (case item_or d ''delta'' JNull of
        JObj delta \<Rightarrow>
          (case event_type delta of
             JStr t \<Rightarrow>
               (case map_of [(uni ''text_delta'', ''text''), (uni ''thinking_delta'', ''thinking''),
                   (uni ''input_json_delta'', ''partial_json''), (uni ''signature_delta'', ''signature'')] t of
                  None \<Rightarrow> fails ''unsupported_sse_delta''
                | Some f \<Rightarrow> need (set (dkeys delta) = {uni ''type'', uni f} \<and> str_item delta f)
                              ''unsupported_sse_delta'')
           | t \<Rightarrow> if hashable t then fails ''unsupported_sse_delta'' else Inl Type_error)
      | _ \<Rightarrow> fails ''unsupported_sse_delta'')"

definition anthropic_block_start :: "(pystr, json) dict \<Rightarrow> pystr \<Rightarrow> sse_state \<Rightarrow> sse_state result" where
  "anthropic_block_start d n st =
     (case item_or d ''content_block'' JNull of
        JObj block \<Rightarrow>
          (let t = event_type block; tool = t \<in> {JStr (uni ''tool_use''), JStr (uni ''server_tool_use'')} in
           if \<not> hashable t then Inl Type_error
           else if \<not> (t \<in> {JStr (uni ''text''), JStr (uni ''thinking'')} \<or> tool)
           then fails ''unsupported_sse_content_block''
           else if n \<in> set (ss_seen st) then fails ''unexpected_sse_content_block''
           else if tool \<and> item_or block ''input'' (JObj []) \<noteq> JObj []
           then fails ''unsupported_sse_initial_content''
           else Inr (st\<lparr>ss_open := n # ss_open st, ss_seen := n # ss_seen st\<rparr>))
      | _ \<Rightarrow> fails ''unsupported_sse_content_block'')"

definition anthropic_block :: "(pystr, json) dict \<Rightarrow> pystr \<Rightarrow> sse_state \<Rightarrow> sse_state result" where
  "anthropic_block d t st =
     (if \<not> startswith t (uni ''content_block_'') then Inr st
      else rbind (sse_index (item_or d ''index'' JNull)) (\<lambda>n.
        if t = uni ''content_block_start'' then anthropic_block_start d n st
        else if n \<notin> set (ss_open st) then fails ''incomplete_sse_stream''
        else if t = uni ''content_block_stop'' then Inr (st\<lparr>ss_open := removeAll n (ss_open st)\<rparr>)
        else rbind (anthropic_delta d) (\<lambda>_. Inr st)))"

definition anthropic_event :: "(pystr, json) dict \<Rightarrow> pystr \<Rightarrow> sse_state \<Rightarrow> sse_state result" where
  "anthropic_event d t st =
     rbind (if t = uni ''message_start'' then
              (if ss_started st then fails ''unexpected_sse_message_start''
               else Inr (st\<lparr>ss_started := True\<rparr>))
            else if t \<noteq> uni ''ping'' \<and> \<not> ss_started st then fails ''incomplete_sse_stream''
            else Inr st) (\<lambda>st1.
     rbind (anthropic_block d t st1) (\<lambda>st2.
       if t = uni ''message_stop'' \<and> ss_open st2 \<noteq> [] then fails ''incomplete_sse_stream''
       else Inr (st2\<lparr>ss_terminal := (t = uni ''message_stop'')\<rparr>)))"

text \<open>Python truth of a value.\<close>

definition py_true :: "json \<Rightarrow> bool" where
  "py_true v \<longleftrightarrow> v \<notin> {JNull, JBool False, JInt 0, JFloat (uni ''0.0''), JFloat (uni ''-0.0''), JStr [],
     JArr [], JObj []}"

definition gemini_part :: "json \<Rightarrow> unit result" where
  "gemini_part part =
     (case part of
        JObj p \<Rightarrow>
          (if \<not> only_keys p [''text'', ''functionCall'', ''thought''] then fails ''unsupported_sse_encoded_payload''
           else if has_key p ''text'' \<and> \<not> str_item p ''text'' then fails ''unsupported_sse_delta''
           else case map_of p (uni ''functionCall'') of
             None \<Rightarrow> Inr ()
           | Some (JObj call) \<Rightarrow>
               need (only_keys call [''name'', ''args'', ''id''] \<and> is_obj (item_or call ''args'' (JObj [])))
                 ''unsupported_sse_delta''
           | Some _ \<Rightarrow> fails ''unsupported_sse_delta'')
      | _ \<Rightarrow> fails ''unsupported_sse_encoded_payload'')"

text \<open>A candidate gets \<open>index\<close> zero when it has none, at the end of its keys.\<close>

definition gemini_candidate :: "json \<Rightarrow> sse_state \<Rightarrow> (json \<times> sse_state) result" where
  "gemini_candidate candidate st =
     (case candidate of
        JObj c \<Rightarrow>
          rbind (sse_index (item_or c ''index'' (JInt 0))) (\<lambda>n.
          (let c' = (if has_key c ''index'' then c else c @ [(uni ''index'', JInt 0)]) in
           case item_or c ''content'' (JObj []) of
             JObj content \<Rightarrow>
               (case item_or content ''parts'' (JArr []) of
                  JArr parts \<Rightarrow>
                    (if n \<in> set (ss_gemini_finished st) \<and> parts \<noteq> [] then fails ''sse_data_after_terminal''
                     else rbind (all_results gemini_part parts) (\<lambda>_.
                       Inr (JObj c', st\<lparr>ss_gemini_seen := n # ss_gemini_seen st,
                         ss_gemini_finished := (if py_true (item_or c ''finishReason'' JNull)
                           then n # ss_gemini_finished st else ss_gemini_finished st)\<rparr>)))
                | _ \<Rightarrow> fails ''unsupported_sse_schema'')
           | _ \<Rightarrow> fails ''unsupported_sse_schema''))
      | _ \<Rightarrow> fails ''unsupported_sse_schema'')"

fun gemini_candidates :: "json list \<Rightarrow> sse_state \<Rightarrow> (json list \<times> sse_state) result" where
  "gemini_candidates [] st = Inr ([], st)"
| "gemini_candidates (c # cs) st =
     rbind (gemini_candidate c st) (\<lambda>(c', st1).
     rbind (gemini_candidates cs st1) (\<lambda>(cs', st2). Inr (c' # cs', st2)))"

definition gemini_event ::
  "(pystr, json) dict \<Rightarrow> sse_state \<Rightarrow> ((pystr, json) dict \<times> sse_state) result" where
  "gemini_event d st =
     (case item_or d ''candidates'' (JArr []) of
        JArr cs \<Rightarrow> rbind (gemini_candidates cs st) (\<lambda>(cs', st').
          Inr (if has_key d ''candidates'' then dset (uni ''candidates'') (JArr cs') d else d, st'))
      | _ \<Rightarrow> fails ''unsupported_sse_schema'')"

text \<open>The protocol of one event, the event (with the indexes Gemini omits) and the new state.\<close>

definition recognise ::
  "(pystr, json) dict \<Rightarrow> sse_state \<Rightarrow> (sse_family \<times> (pystr, json) dict \<times> sse_state) result" where
  "recognise d st =
     (if has_key d ''choices'' then rbind (chat_event d) (\<lambda>_. Inr (Chat, d, st))
      else if \<not> hashable (event_type d) then Inl Type_error
      else case event_type d of
        JStr t \<Rightarrow>
          (if map_of response_deltas t \<noteq> None \<or> t \<in> set response_static then
             rbind (response_event d t) (\<lambda>_. Inr (Responses, d, st\<lparr>ss_terminal := response_terminal t\<rparr>))
           else if t \<in> set anthropic_types then
             rbind (anthropic_event d t st) (\<lambda>st'. Inr (Anthropic_events, d, st'))
           else if has_key d ''candidates'' \<or> has_key d ''usageMetadata'' then
             rbind (gemini_event d st) (\<lambda>(d', st'). Inr (Gemini, d', st'))
           else if item_or d ''jsonrpc'' JNull = JStr (uni ''2.0'') \<and>
                   list_ex (has_key d) [''method'', ''result'', ''error'']
           then Inr (Mcp_events, d, st)
           else fails ''unsupported_sse_schema'')
      | _ \<Rightarrow>
          if has_key d ''candidates'' \<or> has_key d ''usageMetadata'' then
            rbind (gemini_event d st) (\<lambda>(d', st'). Inr (Gemini, d', st'))
          else if item_or d ''jsonrpc'' JNull = JStr (uni ''2.0'') \<and>
                  list_ex (has_key d) [''method'', ''result'', ''error'']
          then Inr (Mcp_events, d, st)
          else fails ''unsupported_sse_schema'')"

definition event_name_ok :: "sse_metadata \<Rightarrow> json \<Rightarrow> bool" where
  "event_name_ok md t \<longleftrightarrow>
     (let name = get_or md (uni ''event'') (uni ''message'') in
      name = uni ''message'' \<or> JStr name = t)"

definition accept_family :: "sse_family \<Rightarrow> sse_metadata \<Rightarrow> json \<Rightarrow> sse_state \<Rightarrow> sse_state result" where
  "accept_family current md t st =
     (if ss_family st \<noteq> None \<and> ss_family st \<noteq> Some current then fails ''mixed_sse_protocols''
      else if \<not> hashable t then Inl Type_error
      else if \<not> event_name_ok md t then fails ''sse_event_type_mismatch''
      else Inr (st\<lparr>ss_family := Some current\<rparr>))"

subsection \<open>One event\<close>

definition keep_event :: "pystr list \<Rightarrow> json option \<Rightarrow> sse_state \<Rightarrow> sse_state" where
  "keep_event lines v st = st\<lparr>ss_events := ss_events st @ [(lines, v)]\<rparr>"

definition data_event ::
  "engine_env \<Rightarrow> llm_provider option \<Rightarrow> nat \<Rightarrow> pystr list \<Rightarrow> sse_metadata \<Rightarrow> pystr \<Rightarrow> sse_state \<Rightarrow> sse_state eact"
  where
  "data_event env provider ordinal lines md data st =
     seq (lift_result (rbind (utf8_bytes data) (engine_json env))) (\<lambda>v.
       case v of
         JObj d \<Rightarrow>
           seq (signatures env v) (\<lambda>_.
           seq (lift_result (recognise d st)) (\<lambda>(current, d', st1).
           seq (lift_result (accept_family current md (event_type d) st1)) (\<lambda>st2.
           seq (collect \<lparr>sc_env = env, sc_provider = provider, sc_family = Some current, sc_value = d',
                  sc_ordinal = ordinal\<rparr> [] [] (JObj d')) (\<lambda>placed.
             ret (keep_event lines (Some (JObj d'))
               (st2\<lparr>ss_lanes := fold (\<lambda>(l, p). add_piece l p) placed (ss_lanes st2)\<rparr>))))))
       | _ \<Rightarrow> denied ''unsupported_sse_payload'')"

definition sse_event ::
  "engine_env \<Rightarrow> llm_provider option \<Rightarrow> nat \<Rightarrow> pystr \<Rightarrow> sse_state \<Rightarrow> sse_state eact" where
  "sse_event env provider ordinal event st =
     (let lines = split_on 10 event in
      seq (event_lines env lines [] []) (\<lambda>(dl, md).
        let data = join_with [10] dl in
        if data = [] then ret (keep_event lines None st)
        else if ss_terminal st then denied ''sse_data_after_terminal''
        else if data = uni ''[DONE]'' then
          (if ss_family st \<noteq> None \<and> ss_family st \<noteq> Some Chat then denied ''unexpected_sse_terminal''
           else ret (keep_event lines None (st\<lparr>ss_family := Some Chat, ss_terminal := True\<rparr>)))
        else data_event env provider ordinal lines md data st))"

fun sse_events ::
  "engine_env \<Rightarrow> llm_provider option \<Rightarrow> nat \<Rightarrow> pystr list \<Rightarrow> sse_state \<Rightarrow> sse_state eact" where
  "sse_events env provider ordinal [] st = ret st"
| "sse_events env provider ordinal (e # es) st =
     seq (sse_event env provider ordinal e st) (sse_events env provider (Suc ordinal) es)"

text \<open>What the code demands at the end of the stream.\<close>

definition sse_complete :: "sse_state \<Rightarrow> bool" where
  "sse_complete st \<longleftrightarrow>
     (ss_family st \<in> {Some Chat, Some Responses, Some Anthropic_events} \<longrightarrow> ss_terminal st) \<and>
     (ss_family st = Some Gemini \<longrightarrow> ss_gemini_seen st \<noteq> [] \<and>
        set (ss_gemini_seen st) = set (ss_gemini_finished st))"

subsection \<open>Rewriting the lanes\<close>

text \<open>The new text cut at the old lengths; the last piece takes the rest.\<close>

fun cut_pieces :: "pystr \<Rightarrow> piece list \<Rightarrow> (piece \<times> pystr) list" where
  "cut_pieces r [] = []"
| "cut_pieces r [p] = [(p, r)]"
| "cut_pieces r (p # q # ps) =
     (p, take (length (pc_text p)) r) # cut_pieces (drop (length (pc_text p)) r) (q # ps)"

definition piece_spans :: "pii_finding list \<Rightarrow> nat \<Rightarrow> pystr \<Rightarrow> (nat \<times> nat) list" where
  "piece_spans fs offset t =
     map (\<lambda>f. (pf_start f - offset, min (pf_end f - offset) (length t)))
       (filter (\<lambda>f. pf_start f < offset + length t \<and> offset < pf_end f) fs)"

definition hide :: "(nat \<times> nat) list \<Rightarrow> pystr \<Rightarrow> pystr" where
  "hide spans t = map (\<lambda>(i, c). if list_ex (\<lambda>(a, b). a \<le> i \<and> i < b) spans then 42 else c) (enumerate 0 t)"

fun star_pieces :: "pii_finding list \<Rightarrow> nat \<Rightarrow> piece list \<Rightarrow> (piece \<times> pystr) list" where
  "star_pieces fs offset [] = []"
| "star_pieces fs offset (p # ps) =
     (let spans = piece_spans fs offset (pc_text p);
          rest = star_pieces fs (offset + length (pc_text p)) ps in
      if spans = [] then rest else (p, hide spans (pc_text p)) # rest)"

definition lane_text :: "piece list \<Rightarrow> pystr" where
  "lane_text ps = concat (map pc_text ps)"

text \<open>The writes one lane asks for.\<close>

definition lane_writes ::
  "engine_env \<Rightarrow> pii_choice \<Rightarrow> lane_kind \<Rightarrow> piece list \<Rightarrow> (piece \<times> pystr) list eact" where
  "lane_writes env pii kind ps =
     (let joined = lane_text ps in
      seq (signatures env (JStr joined)) (\<lambda>_.
        if kind = Json_lane then
          seq (lift_result (rbind (utf8_bytes joined) (engine_json env))) (\<lambda>v.
          seq (signatures env v) (\<lambda>_.
          seq (redact_plain env None pii v) (\<lambda>modified.
            if modified = v then ret []
            else seq (lift_result (rbind (encode_json modified) utf8_text)) (\<lambda>r.
              ret (cut_pieces r ps)))))
        else
          seq (find_pii env joined) (\<lambda>fs.
          seq (add_entities fs) (\<lambda>_.
            if fs \<noteq> [] \<and> pii = Block_pii then denied ''pii_block_policy''
            else if fs \<noteq> [] \<and> kind = Structural_lane then denied ''pii_in_sse_structural_field''
            else ret (star_pieces fs 0 ps)))))"

fun all_writes ::
  "engine_env \<Rightarrow> pii_choice \<Rightarrow> lanes \<Rightarrow> (piece \<times> pystr) list eact" where
  "all_writes env pii [] = ret []"
| "all_writes env pii (((_, kind), ps) # ls) =
     append_acts (lane_writes env pii kind ps) (all_writes env pii ls)"

definition write_piece ::
  "piece \<times> pystr \<Rightarrow> (pystr list \<times> json option) list \<Rightarrow> (pystr list \<times> json option) list" where
  "write_piece w events =
     (case w of (p, t) \<Rightarrow>
        if pc_event p < length events then
          events[pc_event p := map_prod id (map_option (update_at (pc_steps p) (JStr t))) (events ! pc_event p)]
        else events)"

definition event_out :: "pystr list \<times> json option \<Rightarrow> pystr result" where
  "event_out e =
     (case e of
        (lines, None) \<Rightarrow> Inr (join_with [10] lines)
      | (lines, Some v) \<Rightarrow> rbind (rbind (encode_json v) utf8_text) (\<lambda>t.
          Inr (join_with [10] (filter (\<lambda>l. before_sep 58 l \<noteq> uni ''data'') lines @ [uni ''data: '' @ t]))))"

fun map_results :: "('a \<Rightarrow> 'b result) \<Rightarrow> 'a list \<Rightarrow> 'b list result" where
  "map_results f [] = Inr []"
| "map_results f (x # xs) = rbind (f x) (\<lambda>y. rbind (map_results f xs) (\<lambda>ys. Inr (y # ys)))"

definition stream_out :: "(pystr list \<times> json option) list \<Rightarrow> bytes result" where
  "stream_out events =
     rbind (map_results event_out events) (\<lambda>ts. utf8_bytes (join_with [10, 10] ts @ [10, 10]))"

subsection \<open>The routine\<close>

definition redact_sse ::
  "engine_env \<Rightarrow> pii_choice \<Rightarrow> llm_provider option \<Rightarrow> bytes \<Rightarrow> bytes eact" where
  "redact_sse env pii provider body =
     seq (lift_result (rbind (utf8_text body) (\<lambda>s. Inr (normalize_stream s)))) (\<lambda>t.
       if \<not> endswith t [10, 10] then denied ''incomplete_sse_event''
       else if 0 \<in> set t then denied ''invalid_sse_control_character''
       else seq (sse_events env provider 0 (split_blank (take (length t - 2) t)) sse_start) (\<lambda>st.
         if \<not> sse_complete st then denied ''incomplete_sse_stream''
         else seq (all_writes env pii (ss_lanes st)) (\<lambda>ws.
           if ws = [] then ret body
           else lift_result (stream_out (fold write_piece ws (ss_events st))))))"

end
