(* ===== verification/Engine.thy ===== *)
theory Engine
  imports Sse_Stream
begin

text \<open>
  The three entry points of \<open>InspectionEngine\<close>: \<open>inspect_request\<close>, its fallback
  \<open>_inspect_unmapped_mirror\<close> and \<open>inspect_response\<close>.  The body of each \<open>try\<close> is an action
  that may raise; the entry point turns whatever it raises into a verdict, as the
  \<open>except\<close> clauses do.  The verdict under construction lives in the state, so the fields set
  before an exception are there when it is caught.
\<close>

subsection \<open>Requests\<close>

definition media_type :: "http_message \<Rightarrow> pystr" where
  "media_type m = py_strip (hd (split_on 59 (get_or (hm_headers m) (uni ''content-type'') [])))"

definition json_media :: "pystr \<Rightarrow> bool" where
  "json_media t \<longleftrightarrow> t = uni ''application/json'' \<or> t = uni ''application/json-rpc''"

definition request_value :: "engine_env \<Rightarrow> http_message \<Rightarrow> json result" where
  "request_value env m =
     (if hm_body m = [] then Inr (JObj [])
      else if \<not> json_media (media_type m) then fails ''unsupported_request_media_type''
      else engine_json env (hm_body m))"

definition rule_of :: "route_rule \<Rightarrow> pystr \<Rightarrow> tool_rule option" where
  "rule_of r tool = (if rr_protocol r = Mcp then map_of (rr_tools r) tool else rr_rule r)"

record screened =
  sd_route :: route_rule
  sd_value :: json
  sd_tool :: pystr
  sd_action :: pystr
  sd_resource :: pystr
  sd_pii :: pii_choice

definition sd_semantics :: "screened \<Rightarrow> pystr \<times> pystr \<times> pystr" where
  "sd_semantics sd = (sd_tool sd, sd_action sd, sd_resource sd)"

text \<open>From validation to the action the request stands for.\<close>

definition read_request ::
  "engine_env \<Rightarrow> http_message \<Rightarrow> (route_rule \<times> json \<times> pystr \<times> pystr \<times> pystr) eact" where
  "read_request env m =
     seq (lift_result (validate_message m (ee_config env))) (\<lambda>_.
     seq (lift_result (route_for (ee_url env) m (ee_config env))) (\<lambda>r.
     seq (inspect_metadata env False m) (\<lambda>_.
     seq (lift_result (request_value env m)) (\<lambda>v.
     seq (lift_result (case rr_llm_provider r of None \<Rightarrow> Inr () | Some p \<Rightarrow> validate_llm v r p False)) (\<lambda>_.
     seq (lift_result (semantics m r v)) (\<lambda>sem. ret (r, v, sem)))))))"

text \<open>The policy of that action, the scan of the content and the egress check.\<close>

definition judge_request ::
  "engine_env \<Rightarrow> route_rule \<times> json \<times> pystr \<times> pystr \<times> pystr \<Rightarrow> screened eact" where
  "judge_request env parts =
     (case parts of (r, v, tool, action, resource) \<Rightarrow>
      let rule = rule_of r tool; policy = pii_policy env (Some r) rule in
      seq (set_verdict (\<lambda>vd. vd\<lparr>vd_tool := Some tool, vd_access_action := Some action,
             vd_pii_policy_action := Some (fst policy), vd_pii_policy_scope := Some (snd policy)\<rparr>)) (\<lambda>_.
        if map_option tr_effect rule = Some Block_rule then denied ''local_policy_denied''
        else seq (signatures env v) (\<lambda>_.
             seq (lift_result (check_egress (ee_url env) (ee_config env) v)) (\<lambda>_.
               ret \<lparr>sd_route = r, sd_value = v, sd_tool = tool, sd_action = action,
                    sd_resource = resource, sd_pii = fst policy\<rparr>))))"

definition screen_request :: "engine_env \<Rightarrow> http_message \<Rightarrow> screened eact" where
  "screen_request env m = seq (read_request env m) (judge_request env)"

text \<open>Redaction, which must keep the action; the digest of what will be forwarded.\<close>

definition redact_request :: "engine_env \<Rightarrow> http_message \<Rightarrow> screened \<Rightarrow> unit eact" where
  "redact_request env m sd =
     seq (redact_json env (Some (rr_redact_fields (sd_route sd))) (sd_pii sd)
            (rr_llm_provider (sd_route sd) \<noteq> None) (sd_value sd)) (\<lambda>modified.
     seq (lift_result (if modified = sd_value sd then Inr (hm_body m) else encode_json modified)) (\<lambda>body.
     seq (lift_result (semantics m (sd_route sd) modified)) (\<lambda>sem.
       if sem \<noteq> sd_semantics sd then denied ''redaction_changed_authorized_action''
       else set_verdict (\<lambda>vd. vd\<lparr>
         vd_request_digest := Some (request_digest (ee_crypto env) (m\<lparr>hm_body := body\<rparr>)),
         vd_body := (if body \<noteq> hm_body m then Some body else None)\<rparr>))))"

definition verify_identity :: "engine_env \<Rightarrow> bool \<Rightarrow> http_message \<Rightarrow> (pystr, json) dict eact" where
  "verify_identity env consume m =
     with_nonces (verify (ee_crypto env) (ee_verifier env) (ee_now env) (ee_db_ok env) consume m)"

text \<open>\<open>str\<close> and \<open>str | None\<close> fields of a pydantic model: a lone surrogate is not a string.\<close>

definition model_str :: "json \<Rightarrow> pystr result" where
  "model_str v = (case v of JStr s \<Rightarrow> if list_all is_scalar s then Inr s else Inl (Value_error ''validation'')
     | _ \<Rightarrow> Inl (Value_error ''validation''))"

definition model_optional :: "json \<Rightarrow> pystr option result" where
  "model_optional v = (if v = JNull then Inr None else rbind (model_str v) (\<lambda>s. Inr (Some s)))"

definition model_mode :: "json \<Rightarrow> authorization_mode result" where
  "model_mode v = (if v = JStr (uni ''delegated'') then Inr Delegated
     else if v = JStr (uni ''agent'') then Inr Agent else Inl (Value_error ''validation''))"

definition authorization_request ::
  "(pystr, json) dict \<Rightarrow> pystr \<times> pystr \<times> pystr \<Rightarrow> pystr \<Rightarrow> access_request result" where
  "authorization_request ident sem dig =
     (let field_of = (\<lambda>k. get_or ident (uni k) (JStr [])); (tool, action, resource) = sem in
      rbind (model_optional (field_of ''tenant_id'')) (\<lambda>tenant.
      rbind (model_str (field_of ''user_id'')) (\<lambda>user.
      rbind (model_str (field_of ''agent_id'')) (\<lambda>agent.
      rbind (model_str (field_of ''delegation_id'')) (\<lambda>delegation.
      rbind (model_str (field_of ''task_id'')) (\<lambda>task.
      rbind (model_mode (get_or ident (uni ''authorization_mode'') (JStr (uni ''delegated'')))) (\<lambda>mode.
      rbind (model_optional (get_or ident (uni ''approval_id'') JNull)) (\<lambda>approval.
      rbind (model_optional (get_or ident (uni ''agent_instance_id'') JNull)) (\<lambda>instance_id.
      rbind (all_results (\<lambda>s. rbind (model_str (JStr s)) (\<lambda>_. Inr ())) [tool, action, resource]) (\<lambda>_.
      (let q = \<lparr>rq_authorization_mode = mode, rq_tenant_id = tenant, rq_user_id = user,
           rq_agent_id = agent, rq_agent_instance_id = instance_id, rq_delegation_id = delegation,
           rq_task_id = task, rq_tool_name = tool, rq_resource_id = resource,
           rq_requested_action = action, rq_approval_id = approval, rq_risk_score = None,
           rq_metadata = [(uni ''request_digest'', JStr dig)]\<rparr> in
       if access_request_ok q then Inr q else Inl (Value_error ''validation''))))))))))))"

text \<open>\<open>redact\<close> instead of \<open>allow\<close> when the body changed.\<close>

definition mark_redacted :: "verdict \<Rightarrow> verdict" where
  "mark_redacted vd =
     (if vd_body vd \<noteq> None then vd\<lparr>vd_action := V_redact, vd_reason := ''pii_redacted''\<rparr> else vd)"

fun verdict_of_access :: "access_action \<Rightarrow> verdict_action" where
  "verdict_of_access Allow = V_allow"
| "verdict_of_access Block = V_block"
| "verdict_of_access Approval_required = V_approval_required"

definition apply_decision :: "inspection_mode \<Rightarrow> access_decision \<Rightarrow> verdict \<Rightarrow> verdict" where
  "apply_decision mode d vd =
     (let vd1 = vd\<lparr>vd_authorization_scope := Scope_access_broker\<rparr> in
      if dc_action d \<noteq> Allow then
        vd1\<lparr>vd_action := verdict_of_access (dc_action d), vd_reason := dc_reason_code d, vd_body := None,
            vd_approval_id := (if mode = Inline \<and> dc_approval d \<noteq> None
              then Some (ap_approval_id (the (dc_approval d))) else vd_approval_id vd1)\<rparr>
      else mark_redacted vd1)"

definition local_policy :: "engine_env \<Rightarrow> (pystr, json) dict \<Rightarrow> unit eact" where
  "local_policy env ident =
     (if get_or ident (uni ''source_id'') JNull \<notin> JStr ` set (ic_trusted_sources (ee_config env))
      then denied ''untrusted_source''
      else set_verdict (\<lambda>vd. mark_redacted (vd\<lparr>vd_source_verified := True,
             vd_authorization_scope := Scope_local_policy\<rparr>)))"

definition ask_broker ::
  "engine_env \<Rightarrow> inspection_mode \<Rightarrow> broker_env \<Rightarrow> pystr \<times> pystr \<times> pystr \<Rightarrow> (pystr, json) dict \<Rightarrow> unit eact"
  where
  "ask_broker env mode benv sem ident =
     seq (set_verdict (\<lambda>vd. vd\<lparr>vd_source_verified := True, vd_identity_verified := True\<rparr>)) (\<lambda>_.
     seq (gets (\<lambda>s. vd_request_digest (es_verdict s))) (\<lambda>dig.
     seq (lift_result (authorization_request ident sem (the dig))) (\<lambda>q.
     seq (check_time env) (\<lambda>_.
     seq (with_broker (if mode = Inline then authorize benv q else evaluate benv q)) (\<lambda>d.
       set_verdict (apply_decision mode d))))))"

definition request_body :: "engine_env \<Rightarrow> inspection_mode \<Rightarrow> http_message \<Rightarrow> unit eact" where
  "request_body env mode m =
     seq (screen_request env m) (\<lambda>sd.
     seq (redact_request env m sd) (\<lambda>_.
     seq (verify_identity env (mode = Inline) m) (\<lambda>ident.
       case ee_broker env of
         None \<Rightarrow> local_policy env ident
       | Some benv \<Rightarrow> ask_broker env mode benv (sd_semantics sd) ident)))"

definition uncertain_reasons :: "string list" where
  "uncertain_reasons = [''incomplete_capture'', ''body_limit_exceeded'', ''invalid_json'',
     ''unsupported_content_encoding'', ''unsupported_request_media_type'',
     ''untrusted_or_mismatched_identity'', ''unmapped_route'', ''unmapped_tool'',
     ''inspection_deadline'', ''signature_timeout'']"

definition unmapped_reasons :: "string list" where
  "unmapped_reasons = [''unmapped_route'', ''unmapped_tool'', ''unmapped_http_action'']"

definition refused :: "inspection_mode \<Rightarrow> string \<Rightarrow> verdict \<Rightarrow> verdict" where
  "refused mode reason vd =
     (let uncertain = reason \<in> set uncertain_reasons;
          identity_only = mode = Mirror \<and> vd_entities vd \<noteq> [] \<and>
            reason = ''untrusted_or_mismatched_identity'' in
      vd\<lparr>vd_action := (if identity_only then V_redact
             else if mode = Mirror \<and> uncertain then V_unknown else V_block),
         vd_reason := (if identity_only then ''pii_detected_identity_unverified'' else reason),
         vd_coverage := (if uncertain then ''incomplete'' else ''complete''),
         vd_body := None\<rparr>)"

definition unavailable :: "inspection_mode \<Rightarrow> verdict" where
  "unavailable mode =
     (new_verdict (if mode = Inline then V_block else V_unknown) ''inspection_unavailable'' mode)
       \<lparr>vd_coverage := ''incomplete''\<rparr>"

subsection \<open>Unmapped requests in mirror mode\<close>

definition mirror_start :: "engine_env \<Rightarrow> string \<Rightarrow> verdict" where
  "mirror_start env reason =
     (new_verdict V_unknown reason Mirror)\<lparr>vd_coverage := ''incomplete'',
        vd_pii_policy_action := Some (ic_pii_action (ee_config env)),
        vd_pii_policy_scope := Some Scope_global\<rparr>"

text \<open>The nested \<open>try\<close>: an \<open>InspectionError\<close> leaves the flags unset.\<close>

definition mirror_identity :: "engine_env \<Rightarrow> http_message \<Rightarrow> unit eact" where
  "mirror_identity env m s =
     (case verify_identity env False m s of
        (Inl (Inspection _), s') \<Rightarrow> (Inr (), s')
      | (Inl e, s') \<Rightarrow> (Inl e, s')
      | (Inr ident, s') \<Rightarrow> set_verdict (\<lambda>vd. vd\<lparr>
          vd_source_verified := ee_broker env \<noteq> None \<or>
            get_or ident (uni ''source_id'') JNull \<in> JStr ` set (ic_trusted_sources (ee_config env)),
          vd_identity_verified := ee_broker env \<noteq> None\<rparr>) s')"

definition mirror_content :: "engine_env \<Rightarrow> http_message \<Rightarrow> json \<Rightarrow> unit eact" where
  "mirror_content env m v =
     seq (signatures env v) (\<lambda>_.
     seq (lift_result (check_egress (ee_url env) (ee_config env) v)) (\<lambda>_.
     seq (redact_plain env None (ic_pii_action (ee_config env)) v) (\<lambda>_.
     seq (set_verdict (\<lambda>vd. if vd_entities vd = [] then vd
            else vd\<lparr>vd_action := V_redact, vd_reason := ''pii_detected_unmapped_context''\<rparr>)) (\<lambda>_.
       mirror_identity env m))))"

definition mirror_body :: "engine_env \<Rightarrow> http_message \<Rightarrow> unit eact" where
  "mirror_body env m =
     seq (lift_result (validate_message m (ee_config env))) (\<lambda>_.
     seq (inspect_metadata env False m) (\<lambda>_.
       if json_media (media_type m) then
         seq (lift_result (engine_json env (hm_body m))) (mirror_content env m)
       else if media_type m = uni ''text/plain'' then
         seq (lift_result (utf8_text (hm_body m))) (\<lambda>t. mirror_content env m (JStr t))
       else ret ()))"

definition inspect_unmapped_mirror ::
  "engine_env \<Rightarrow> http_message \<Rightarrow> string \<Rightarrow> engine_state \<Rightarrow> verdict \<times> engine_state" where
  "inspect_unmapped_mirror env m reason s =
     (case mirror_body env m (s\<lparr>es_verdict := mirror_start env reason\<rparr>) of
        (Inr _, s') \<Rightarrow> (es_verdict s', s')
      | (Inl (Inspection why), s') \<Rightarrow>
          ((es_verdict s')\<lparr>vd_action := V_block, vd_reason := why\<rparr>, s')
      | (Inl _, s') \<Rightarrow>
          ((es_verdict s')\<lparr>vd_action := V_unknown, vd_reason := ''inspection_unavailable''\<rparr>, s'))"

definition inspect_request ::
  "engine_env \<Rightarrow> inspection_mode \<Rightarrow> http_message \<Rightarrow> engine_state \<Rightarrow> verdict \<times> engine_state" where
  "inspect_request env mode m s =
     (case request_body env mode m (s\<lparr>es_verdict := new_verdict V_allow ''policy_allowed'' mode\<rparr>) of
        (Inr _, s') \<Rightarrow> (es_verdict s', s')
      | (Inl (Inspection reason), s') \<Rightarrow>
          if mode = Mirror \<and> reason \<in> set unmapped_reasons
          then inspect_unmapped_mirror env m reason s'
          else (refused mode reason (es_verdict s'), s')
      | (Inl _, s') \<Rightarrow> (unavailable mode, s'))"

subsection \<open>Responses\<close>

text \<open>
  The top-level timestamps are taken out, the rest is redacted, and they are put back at the
  end.  Python compares dictionaries whatever their order, so the body changed exactly when
  the scanned part did.
\<close>

definition split_timestamps ::
  "llm_provider option \<Rightarrow> json \<Rightarrow> json \<times> (pystr, json) dict" where
  "split_timestamps p v =
     (case v of
        JObj d \<Rightarrow>
          (JObj (filter (\<lambda>(k, c). \<not> response_timestamp c d [k] p) d),
           filter (\<lambda>(k, c). response_timestamp c d [k] p) d)
      | _ \<Rightarrow> (v, []))"

definition restore_timestamps :: "json \<Rightarrow> (pystr, json) dict \<Rightarrow> json" where
  "restore_timestamps v ts = (case v of JObj d \<Rightarrow> JObj (d @ ts) | _ \<Rightarrow> v)"

definition response_json ::
  "engine_env \<Rightarrow> pii_choice \<Rightarrow> route_rule option \<Rightarrow> http_message \<Rightarrow> bytes eact" where
  "response_json env pii route m =
     (let provider = Option.bind route rr_llm_provider in
      seq (lift_result (engine_json env (hm_body m))) (\<lambda>v.
      seq (signatures env v) (\<lambda>_.
      seq (case (route, provider) of
             (Some r, Some p) \<Rightarrow> lift_result (validate_llm v r p True) | _ \<Rightarrow> ret ()) (\<lambda>_.
      (case split_timestamps provider v of (scanned, ts) \<Rightarrow>
        seq (redact_json env None pii (provider \<noteq> None) scanned) (\<lambda>modified.
          lift_result (if modified = scanned then Inr (hm_body m)
            else encode_json (restore_timestamps modified ts))))))))"

definition response_text :: "engine_env \<Rightarrow> pii_choice \<Rightarrow> http_message \<Rightarrow> bytes eact" where
  "response_text env pii m =
     seq (lift_result (utf8_text (hm_body m))) (\<lambda>t.
     seq (signatures env (JStr t)) (\<lambda>_.
     seq (find_pii env t) (\<lambda>fs.
     seq (add_entities fs) (\<lambda>_.
       if fs \<noteq> [] \<and> pii = Block_pii then denied ''pii_block_policy''
       else lift_result (utf8_bytes (mask t fs))))))"

definition response_content ::
  "engine_env \<Rightarrow> pii_choice \<Rightarrow> route_rule option \<Rightarrow> http_message \<Rightarrow> bytes eact" where
  "response_content env pii route m =
     (if json_media (media_type m) then response_json env pii route m
      else if media_type m = uni ''text/event-stream''
      then redact_sse env pii (Option.bind route rr_llm_provider) (hm_body m)
      else if media_type m = uni ''text/plain'' then response_text env pii m
      else denied ''unsupported_response_media_type'')"

definition response_body ::
  "engine_env \<Rightarrow> pii_choice \<Rightarrow> route_rule option \<Rightarrow> http_message \<Rightarrow> unit eact" where
  "response_body env pii route m =
     seq (lift_result (validate_message m (ee_config env))) (\<lambda>_.
     seq (inspect_metadata env True m) (\<lambda>_.
       if hm_body m = [] then ret ()
       else seq (response_content env pii route m) (\<lambda>body.
         if body \<noteq> hm_body m
         then set_verdict (\<lambda>vd. vd\<lparr>vd_action := V_redact, vd_reason := ''response_pii_redacted'',
                vd_body := Some body\<rparr>)
         else ret ())))"

definition detection_reasons :: "string list" where
  "detection_reasons = [''pii_block_policy'', ''secret_detected'', ''suspicious_instruction'',
     ''pii_in_http_header'', ''pii_in_structural_field'', ''pii_in_numeric_field'',
     ''pii_in_sse_metadata'', ''pii_in_sse_structural_field'', ''pii_in_nonredactable_field'']"

definition response_verdict ::
  "verdict_action \<Rightarrow> string \<Rightarrow> inspection_mode \<Rightarrow> pii_choice \<Rightarrow> pii_scope option \<Rightarrow> verdict" where
  "response_verdict act why mode pii scope =
     (new_verdict act why mode)\<lparr>vd_pii_policy_action := Some pii, vd_pii_policy_scope := scope\<rparr>"

definition response_refused ::
  "inspection_mode \<Rightarrow> string \<Rightarrow> pii_choice \<Rightarrow> pii_scope option \<Rightarrow> pystr list \<Rightarrow> verdict" where
  "response_refused mode reason pii scope entities =
     (let complete = reason \<in> set detection_reasons in
      (response_verdict (if mode = Inline \<or> complete then V_block else V_unknown) reason mode pii scope)
        \<lparr>vd_entities := entities, vd_coverage := (if complete then ''complete'' else ''incomplete'')\<rparr>)"

definition response_unavailable :: "inspection_mode \<Rightarrow> pii_choice \<Rightarrow> pii_scope option \<Rightarrow> verdict" where
  "response_unavailable mode pii scope =
     (response_verdict (if mode = Inline then V_block else V_unknown) ''inspection_unavailable'' mode pii scope)
       \<lparr>vd_coverage := ''incomplete''\<rparr>"

text \<open>
  \<open>inspect_response\<close>.  Only an \<open>InspectionError\<close> of \<open>route_for\<close> is caught: the \<open>ValueError\<close> of
  \<open>urlsplit\<close> leaves the method.
\<close>

definition response_route :: "engine_env \<Rightarrow> http_message \<Rightarrow> route_rule option result" where
  "response_route env m =
     (case route_for (ee_url env) m (ee_config env) of
        Inr r \<Rightarrow> Inr (Some r)
      | Inl (Inspection _) \<Rightarrow> Inr None
      | Inl e \<Rightarrow> Inl e)"

definition inspect_response ::
  "engine_env \<Rightarrow> inspection_mode \<Rightarrow> (pii_choice \<times> pii_scope option) option \<Rightarrow> http_message \<Rightarrow>
   engine_state \<Rightarrow> verdict result \<times> engine_state" where
  "inspect_response env mode policy m s =
     (case response_route env m of
        Inl e \<Rightarrow> (Inl e, s)
      | Inr route \<Rightarrow>
          (case (case policy of Some p \<Rightarrow> p
                 | None \<Rightarrow> map_prod id Some (pii_policy env route None)) of
             (pii, scope) \<Rightarrow>
               (case response_body env pii route m
                       (s\<lparr>es_verdict := response_verdict V_allow ''response_clean'' mode pii scope\<rparr>) of
                  (Inr _, s') \<Rightarrow> (Inr (es_verdict s'), s')
                | (Inl (Inspection reason), s') \<Rightarrow>
                    (Inr (response_refused mode reason pii scope (vd_entities (es_verdict s'))), s')
                | (Inl Unicode_error, s') \<Rightarrow>
                    (Inr (response_refused mode ''invalid_utf8'' pii scope (vd_entities (es_verdict s'))), s')
                | (Inl _, s') \<Rightarrow> (Inr (response_unavailable mode pii scope), s'))))"

end
