(* ===== verification/Engine_Frame.thy ===== *)
theory Engine_Frame
  imports Engine
begin

text \<open>
  What the actions of the engine leave alone.  \<open>keeps p m\<close>: the action \<open>m\<close>, whether it returns
  or raises, does not change \<open>p\<close> of the state.  The locale \<open>scan_frame\<close> states what a
  projection needs so that scanning and redaction keep it (it reads neither the number of
  deadline checks nor the list of entities); its interpretations are the stores and the
  verdict without its entities.
\<close>

definition keeps :: "('s \<Rightarrow> 'b) \<Rightarrow> ('s, 'a) act \<Rightarrow> bool" where
  "keeps p m \<longleftrightarrow> (\<forall>s. p (snd (m s)) = p s)"

lemma keepsD: "keeps p m \<Longrightarrow> m s = (r, s') \<Longrightarrow> p s' = p s"
  by (metis keeps_def snd_conv)

named_theorems keeps_intros

lemma keeps_ret [keeps_intros]: "keeps p (ret x)"
  by (simp add: keeps_def)

lemma keeps_Pair [keeps_intros]: "keeps p (Pair r)"
  by (simp add: keeps_def)

lemma keeps_raise [keeps_intros]: "keeps p (raise e)"
  by (simp add: keeps_def)

lemma keeps_gets [keeps_intros]: "keeps p (gets f)"
  by (simp add: keeps_def)

lemma keeps_lift [keeps_intros]: "keeps p (lift_result r)"
  by (simp add: keeps_def)

lemma keeps_seq [keeps_intros]: "keeps p m \<Longrightarrow> (\<And>x. keeps p (f x)) \<Longrightarrow> keeps p (seq m f)"
  by (auto simp: keeps_def seq_def split: prod.splits sum.splits) (metis snd_conv)+

lemma keeps_if [keeps_intros]: "(b \<Longrightarrow> keeps p m) \<Longrightarrow> (\<not> b \<Longrightarrow> keeps p n) \<Longrightarrow> keeps p (if b then m else n)"
  by simp

lemma keeps_option [keeps_intros]:
  "keeps p m \<Longrightarrow> (\<And>x. keeps p (f x)) \<Longrightarrow> keeps p (case o' of None \<Rightarrow> m | Some x \<Rightarrow> f x)"
  by (cases o') auto

lemma keeps_bool [keeps_intros]:
  "keeps p m \<Longrightarrow> keeps p n \<Longrightarrow> keeps p (case b of True \<Rightarrow> m | False \<Rightarrow> n)"
  by (cases b) auto

lemma keeps_prod [keeps_intros]: "(\<And>x y. keeps p (f x y)) \<Longrightarrow> keeps p (case q of (x, y) \<Rightarrow> f x y)"
  by (cases q) auto

lemma keeps_object [keeps_intros]:
  "keeps p m \<Longrightarrow> (\<And>d. keeps p (f d)) \<Longrightarrow> keeps p (case v of JObj d \<Rightarrow> f d | _ \<Rightarrow> m)"
  by (cases v) auto

lemma keeps_append [keeps_intros]: "keeps p a \<Longrightarrow> keeps p b \<Longrightarrow> keeps p (append_acts a b)"
  unfolding append_acts_def by (intro keeps_intros)

lemma keeps_Let [keeps_intros]: "(\<And>x. keeps p (f x)) \<Longrightarrow> keeps p (let x = v in f x)"
  by simp

locale scan_frame =
  fixes p :: "engine_state \<Rightarrow> 'b"
  assumes p_checks: "p (s\<lparr>es_checks := n\<rparr>) = p s"
    and p_entities: "p (s\<lparr>es_verdict := (es_verdict s)\<lparr>vd_entities := es\<rparr>\<rparr>) = p s"
begin

lemma keeps_checks: "keeps p (with_checks m)"
  by (simp add: keeps_def with_checks_def p_checks split: prod.split)

lemma keeps_check_time: "keeps p (check_time env)"
  by (simp add: check_time_def keeps_checks)

lemma keeps_add_entities: "keeps p (add_entities fs)"
  by (simp add: keeps_def add_entities_def set_verdict_def p_entities)

lemma keeps_find_pii: "keeps p (find_pii env t)"
  unfolding find_pii_def by (intro keeps_intros keeps_check_time)

lemma keeps_check_signature: "keeps p (check_signature env t)"
  unfolding check_signature_def by (intro keeps_intros keeps_check_time)

lemma keeps_check_signatures: "keeps p (check_signatures env ts)"
  by (induction ts) (auto intro!: keeps_intros keeps_check_signature)

lemma keeps_signatures: "keeps p (signatures env v)"
  unfolding signatures_def by (intro keeps_intros keeps_checks keeps_check_signatures)

lemma keeps_inspect_text: "keeps p (inspect_text env r t)"
  unfolding inspect_text_def by (intro keeps_intros keeps_signatures keeps_find_pii)

lemma keeps_inspect_texts: "keeps p (inspect_texts env r ts)"
  by (induction ts) (auto intro!: keeps_intros keeps_inspect_text)

lemma keeps_inspect_metadata: "keeps p (inspect_metadata env b m)"
  unfolding inspect_metadata_def by (intro keeps_intros keeps_inspect_texts)

lemma keeps_check_number: "keeps p (check_number env t v)"
  unfolding check_number_def by (intro keeps_intros keeps_find_pii)

lemma keeps_redact_value:
  "(\<And>path s. keeps p (leaf path s)) \<Longrightarrow> keeps p (redact_value env leaf path v)"
  "(\<And>path s. keeps p (leaf path s)) \<Longrightarrow> keeps p (redact_elements env leaf path i vs)"
  "(\<And>path s. keeps p (leaf path s)) \<Longrightarrow> keeps p (redact_members env leaf path ps)"
proof (induction env leaf path v and env leaf path i vs and env leaf path ps
    rule: redact_value_redact_elements_redact_members.induct)
qed (auto intro!: keeps_intros keeps_check_number keeps_find_pii)

lemma keeps_redact_leaf: "keeps p (redact_leaf env allowed pii path s)"
  unfolding redact_leaf_def by (intro keeps_intros keeps_find_pii keeps_add_entities)

lemma keeps_redact_plain: "keeps p (redact_plain env allowed pii v)"
  unfolding redact_plain_def by (intro keeps_redact_value keeps_redact_leaf)

lemma keeps_redact_arguments: "keeps p (redact_arguments env allowed pii path s)"
  unfolding redact_arguments_def
  by (intro keeps_intros keeps_redact_leaf keeps_signatures keeps_redact_plain)

lemma keeps_redact_json: "keeps p (redact_json env allowed pii args v)"
  unfolding redact_json_def by (intro keeps_intros keeps_redact_value keeps_redact_arguments keeps_redact_plain)

subsection \<open>Event streams\<close>

lemma keeps_find_or_deny: "keeps p (find_or_deny env r t)"
  unfolding find_or_deny_def by (intro keeps_intros keeps_find_pii keeps_add_entities)

lemma keeps_collect_leaves:
  "keeps p (collect_number cx path t v)"
  "keeps p (collect_string cx steps path s)"
  "keeps p (collect_key cx k v)"
  "keeps p (check_payload ps)"
  unfolding collect_number_def collect_string_def collect_key_def check_payload_def
  by (intro keeps_intros keeps_find_or_deny)+

lemma keeps_collect:
  "keeps p (collect cx steps path v)"
  "keeps p (collect_members cx steps path ps)"
  "keeps p (collect_elements cx steps path vs i seen)"
proof (induction cx steps path v and cx steps path ps and cx steps path vs i seen
    rule: collect_collect_members_collect_elements.induct)
qed (auto intro!: keeps_intros keeps_collect_leaves)

lemma keeps_event_lines: "keeps p (event_lines env ls dl md)"
proof (induction ls arbitrary: dl md)
  case (Cons l ls)
  have "keeps p (metadata_line env l md)"
    unfolding metadata_line_def by (intro keeps_intros keeps_signatures keeps_find_or_deny)
  then show ?case using Cons.IH by (auto intro!: keeps_intros split: prod.split)
qed (auto intro: keeps_intros)

lemma keeps_data_event: "keeps p (data_event env provider n lines md data st)"
  unfolding data_event_def by (intro keeps_intros keeps_signatures keeps_collect)

lemma keeps_sse_events: "keeps p (sse_events env provider n es st)"
proof (induction es arbitrary: n st)
  case (Cons e es)
  have "keeps p (sse_event env provider n e st)"
    unfolding sse_event_def by (intro keeps_intros keeps_event_lines keeps_data_event)
  then show ?case using Cons.IH by (auto intro!: keeps_intros)
qed (auto intro: keeps_intros)

lemma keeps_all_writes: "keeps p (all_writes env pii ls)"
proof (induction ls)
  case (Cons l ls)
  obtain k kind ps where l: "l = ((k, kind), ps)" by (metis prod.exhaust)
  have "keeps p (lane_writes env pii kind ps)"
    unfolding lane_writes_def
    by (intro keeps_intros keeps_signatures keeps_redact_plain keeps_find_pii keeps_add_entities)
  then show ?case using Cons.IH l by (auto intro: keeps_intros)
qed (auto intro: keeps_intros)

lemma keeps_redact_sse: "keeps p (redact_sse env pii provider body)"
  unfolding redact_sse_def by (intro keeps_intros keeps_sse_events keeps_all_writes)

lemma keeps_response_content: "keeps p (response_content env pii route m)"
proof -
  have validation: "keeps p (case (route, provider) of
      (Some r, Some q) \<Rightarrow> lift_result (validate_llm v r q True) | _ \<Rightarrow> ret ())" for provider v
    by (cases route; cases provider) (auto intro: keeps_intros)
  have json: "keeps p (response_json env pii route m)"
    unfolding response_json_def
    by (intro keeps_intros keeps_signatures keeps_redact_json validation)
  have "keeps p (response_text env pii m)"
    unfolding response_text_def
    by (intro keeps_intros keeps_signatures keeps_find_pii keeps_add_entities)
  with json show ?thesis
    unfolding response_content_def by (intro keeps_intros keeps_redact_sse)
qed

end

subsection \<open>The stores, and the verdict but for its entities\<close>

definition stores :: "engine_state \<Rightarrow> nonces \<times> bstate" where
  "stores s = (es_nonces s, es_broker s)"

definition outcome :: "engine_state \<Rightarrow> verdict" where
  "outcome s = (es_verdict s)\<lparr>vd_entities := []\<rparr>"

interpretation stores: scan_frame stores
  by unfold_locales (simp_all add: stores_def)

interpretation outcome: scan_frame outcome
  by unfold_locales (simp_all add: outcome_def)

lemma keeps_set_verdict: "keeps stores (set_verdict f)"
  by (simp add: keeps_def set_verdict_def stores_def)

text \<open>Before the identity is verified no store is touched.\<close>

lemma keeps_screen_request: "keeps stores (screen_request env m)"
  unfolding screen_request_def read_request_def judge_request_def
  by (intro keeps_intros keeps_set_verdict stores.keeps_inspect_metadata stores.keeps_signatures)

lemma keeps_redact_request: "keeps stores (redact_request env m sd)"
  unfolding redact_request_def
  by (intro keeps_intros keeps_set_verdict stores.keeps_redact_json)

lemma keeps_response_body: "keeps stores (response_body env pii route m)"
  unfolding response_body_def
  by (intro keeps_intros keeps_set_verdict stores.keeps_inspect_metadata stores.keeps_response_content)

end
