(* ===== verification/Engine_Redaction.thy ===== *)
theory Engine_Redaction
  imports Engine_Frame
begin

text \<open>
  What redaction produces, as a relation between the value read and the value written that
  says nothing of traversal, spans or exceptions: \<open>redacted\<close> relates values of the same shape
  whose keys and numbers are free of findings and whose strings are read once with every
  maximal run of covered characters replaced by the marker.

  The client of a PII scanner relies only on its spans lying inside the text
  (\<open>pii_scanner\<close>); \<open>Pii.analyze\<close> provides that for every configuration and analyzer.
\<close>

locale pii_scanner =
  fixes scan :: "pystr \<Rightarrow> pii_finding list result"
  assumes scan_spans: "scan t = Inr fs \<Longrightarrow> f \<in> set fs \<Longrightarrow> pf_start f < pf_end f \<and> pf_end f \<le> length t"
begin

lemma mask_scanned: "scan t = Inr fs \<Longrightarrow> mask t (filter P fs) = mask_runs (covered (filter P fs)) 0 False t"
  using scan_spans by (intro mask_is_mask_runs) auto

lemma clean_mask: "scan t = Inr [] \<Longrightarrow> mask t [] = t"
  using mask_scanned [of t "[]" "\<lambda>_. True"] mask_runs_none [of t "covered []" 0 False]
  by (simp add: covered_def)

end

interpretation analyzer: pii_scanner "analyze sc" for sc
proof
  fix t fs f
  assume "analyze sc t = Inr fs" "f \<in> set fs"
  then show "pf_start f < pf_end f \<and> pf_end f \<le> length t"
    using analyze_ok [of sc t fs] by (auto simp: finding_ok_def)
qed

text \<open>Every answer of the engine's scanner is an answer of \<open>Pii.analyze\<close>.\<close>

definition uses_analyzer :: "engine_env \<Rightarrow> bool" where
  "uses_analyzer env \<longleftrightarrow> (\<forall>n. \<exists>sc. ee_pii env n = analyze sc)"

text \<open>The scanner found \<open>fs\<close> in \<open>t\<close> above the configured score, at some moment.\<close>

definition found :: "engine_env \<Rightarrow> pystr \<Rightarrow> pii_finding list \<Rightarrow> bool" where
  "found env t fs \<longleftrightarrow> (\<exists>n raw. ee_pii env n t = Inr raw \<and>
     fs = filter (\<lambda>f. ic_pii_min_score (ee_config env) \<le> pf_score f) raw)"

lemma found_mask: "uses_analyzer env \<Longrightarrow> found env t fs \<Longrightarrow> mask t fs = mask_runs (covered fs) 0 False t"
  unfolding uses_analyzer_def found_def using analyzer.mask_scanned by metis

lemma find_pii_found: "find_pii env t s = (Inr fs, s') \<Longrightarrow> found env t fs"
  by (auto simp: find_pii_def found_def seq_Inr_iff check_time_def with_checks_def)

inductive redacted :: "engine_env \<Rightarrow> (pystr list \<Rightarrow> bool) \<Rightarrow> pystr list \<Rightarrow> json \<Rightarrow> json \<Rightarrow> bool"
  for env :: engine_env and ok :: "pystr list \<Rightarrow> bool" where
  redacted_null: "redacted env ok path JNull JNull"
| redacted_bool: "redacted env ok path (JBool b) (JBool b)"
| redacted_int: "found env (dec_int i) [] \<Longrightarrow> redacted env ok path (JInt i) (JInt i)"
| redacted_float: "found env r [] \<Longrightarrow> redacted env ok path (JFloat r) (JFloat r)"
| redacted_str: "found env s fs \<Longrightarrow> fs \<noteq> [] \<longrightarrow> ok path \<Longrightarrow>
     redacted env ok path (JStr s) (JStr (mask_runs (covered fs) 0 False s))"
| redacted_arr: "length vs = length ws \<Longrightarrow>
     (\<And>i. i < length vs \<Longrightarrow> redacted env ok (path @ [dec_nat i]) (vs ! i) (ws ! i)) \<Longrightarrow>
     redacted env ok path (JArr vs) (JArr ws)"
| redacted_obj: "map fst ps = map fst qs \<Longrightarrow> (\<And>k. k \<in> set (map fst ps) \<Longrightarrow> found env k []) \<Longrightarrow>
     (\<And>i. i < length ps \<Longrightarrow> redacted env ok (path @ [fst (ps ! i)]) (snd (ps ! i)) (snd (qs ! i))) \<Longrightarrow>
     redacted env ok path (JObj ps) (JObj qs)"

inductive_simps redacted_str_iff: "redacted env ok path (JStr s) w"
inductive_cases redacted_strE: "redacted env ok path (JStr s) w"
inductive_cases redacted_objE: "redacted env ok path (JObj ps) w"
inductive_cases redacted_arrE: "redacted env ok path (JArr vs) w"

text \<open>The traversal, for any treatment of strings that respects the relation.\<close>

lemma redact_value_redacted:
  "(\<And>path s t w t'. leaf path s t = (Inr w, t') \<Longrightarrow> redacted env ok path (JStr s) w) \<Longrightarrow>
     redact_value env leaf path v t = (Inr w, t') \<Longrightarrow> redacted env ok path v w"
  "(\<And>path s t w t'. leaf path s t = (Inr w, t') \<Longrightarrow> redacted env ok path (JStr s) w) \<Longrightarrow>
     redact_elements env leaf path i vs t = (Inr ws, t') \<Longrightarrow>
     length ws = length vs \<and> (\<forall>j < length vs. redacted env ok (path @ [dec_nat (i + j)]) (vs ! j) (ws ! j))"
  "(\<And>path s t w t'. leaf path s t = (Inr w, t') \<Longrightarrow> redacted env ok path (JStr s) w) \<Longrightarrow>
     redact_members env leaf path ps t = (Inr qs, t') \<Longrightarrow>
     map fst qs = map fst ps \<and> (\<forall>k \<in> set (map fst ps). found env k []) \<and>
     (\<forall>j < length ps. redacted env ok (path @ [fst (ps ! j)]) (snd (ps ! j)) (snd (qs ! j)))"
proof (induction env leaf path v and env leaf path i vs and env leaf path ps arbitrary: t w t' and t ws t' and t qs t'
    rule: redact_value_redact_elements_redact_members.induct)
  case (1 env leaf path ps)
  then show ?case by (fastforce simp: seq_Inr_iff intro!: redacted_obj)
next
  case (2 env leaf path vs)
  then show ?case by (fastforce simp: seq_Inr_iff intro!: redacted_arr)
next
  case (7 env leaf path i)
  then show ?case by simp
next
  case (8 env leaf path i v vs)
  obtain w u ws' where w: "redact_value env leaf (path @ [dec_nat i]) v t = (Inr w, u)"
      and ws': "redact_elements env leaf path (Suc i) vs u = (Inr ws', t')" and ws: "ws = w # ws'"
    using "8.prems"(2) by (auto simp: seq_Inr_iff)
  have "redacted env ok (path @ [dec_nat i]) v w" using "8.IH"(1) [OF "8.prems"(1) w] .
  moreover have "length ws' = length vs \<and>
      (\<forall>j < length vs. redacted env ok (path @ [dec_nat (Suc i + j)]) (vs ! j) (ws' ! j))"
    using "8.IH"(2) [OF "8.prems"(1) ws'] .
  ultimately show ?case using ws by (auto simp: less_Suc_eq_0_disj)
next
  case (9 env leaf path)
  then show ?case by simp
next
  case (10 env leaf path k v ps)
  obtain u u' w qs' where k: "find_pii env k t = (Inr [], u)"
      and w: "redact_value env leaf (path @ [k]) v u = (Inr w, u')"
      and qs': "redact_members env leaf path ps u' = (Inr qs', t')" and qs: "qs = (k, w) # qs'"
    using "10.prems"(2) by (auto simp: seq_Inr_iff split: if_splits)
  have "redacted env ok (path @ [k]) v w" using "10.IH"(1) [OF _ "10.prems"(1) w] by simp
  moreover have "map fst qs' = map fst ps \<and> (\<forall>k \<in> set (map fst ps). found env k []) \<and>
      (\<forall>j < length ps. redacted env ok (path @ [fst (ps ! j)]) (snd (ps ! j)) (snd (qs' ! j)))"
    using "10.IH"(2) [OF _ "10.prems"(1) qs'] by simp
  ultimately show ?case using qs find_pii_found [OF k] by (auto simp: less_Suc_eq_0_disj)
qed (auto simp: check_number_def seq_Inr_iff split: if_splits intro: redacted.intros find_pii_found)

lemma redact_leaf_redacted:
  assumes "uses_analyzer env" and "redact_leaf env allowed pii path s t = (Inr w, t')"
  shows "redacted env (\<lambda>path. pii = Redact_pii \<and> redactable allowed path) path (JStr s) w"
proof -
  obtain fs u where f: "find_pii env s t = (Inr fs, u)"
      and w: "w = JStr (if fs = [] then s else mask s fs)" "fs \<noteq> [] \<longrightarrow> pii \<noteq> Block_pii \<and> redactable allowed path"
    using assms(2) by (auto simp: redact_leaf_def seq_Inr_iff split: if_splits)
  have "mask s [] = s" by (simp add: mask_def)
  with w have "w = JStr (mask s fs)" by auto
  then have "w = JStr (mask_runs (covered fs) 0 False s)"
    using found_mask [OF assms(1) find_pii_found [OF f]] by simp
  moreover have "pii \<noteq> Block_pii \<longleftrightarrow> pii = Redact_pii" by (cases pii) auto
  ultimately show ?thesis
    using redacted_str [OF find_pii_found [OF f], where ok = "\<lambda>path. pii = Redact_pii \<and> redactable allowed path"] w(2)
    by auto
qed

lemma redact_plain_redacted:
  assumes "uses_analyzer env" and "redact_plain env allowed pii v t = (Inr w, t')"
  shows "redacted env (\<lambda>path. pii = Redact_pii \<and> redactable allowed path) [] v w"
  by (rule redact_value_redacted(1) [OF redact_leaf_redacted [OF assms(1)] assms(2) [unfolded redact_plain_def]])

subsection \<open>Redaction keeps the shape\<close>

text \<open>Only strings may differ, and a string stays a string.\<close>

inductive same_shape :: "json \<Rightarrow> json \<Rightarrow> bool" where
  shape_str: "same_shape (JStr s) (JStr t)"
| shape_refl: "same_shape v v"
| shape_arr: "list_all2 same_shape vs ws \<Longrightarrow> same_shape (JArr vs) (JArr ws)"
| shape_obj: "map fst ps = map fst qs \<Longrightarrow> list_all2 same_shape (map snd ps) (map snd qs) \<Longrightarrow>
     same_shape (JObj ps) (JObj qs)"

lemma sum_list_shape:
  "list_all2 (\<lambda>v w. same_shape v w \<and> f v = f w) vs ws \<Longrightarrow> map f vs = map f ws"
  by (induction rule: list_all2_induct) auto

lemma list_all_shape:
  "list_all2 (\<lambda>v w. same_shape v w \<and> P v = P w) vs ws \<Longrightarrow> list_all P vs = list_all P ws"
  by (induction rule: list_all2_induct) auto

lemma members_as_values:
  "map (\<lambda>(k, v). f v) ps = map f (map snd ps)"
  "list_all (\<lambda>(k, v). P v) ps = list_all P (map snd ps)"
  by (induction ps) auto

lemma shape_count: "same_shape v w \<Longrightarrow> json_count v = json_count w"
proof (induction rule: same_shape.induct)
  case (shape_arr vs ws)
  then show ?case using sum_list_shape [of json_count vs ws] by simp
next
  case (shape_obj ps qs)
  then show ?case
    using sum_list_shape [of json_count "map snd ps" "map snd qs"] by (simp only: json_count.simps members_as_values)
qed auto

lemma shape_nested: "same_shape v w \<Longrightarrow> nested_within n d v = nested_within n d w"
proof (induction arbitrary: d rule: same_shape.induct)
  case (shape_arr vs ws)
  have "list_all2 (\<lambda>v w. same_shape v w \<and> nested_within n (Suc d) v = nested_within n (Suc d) w) vs ws"
    using shape_arr by (rule list_all2_mono) simp
  then show ?case using list_all_shape [of "nested_within n (Suc d)"] by simp
next
  case (shape_obj ps qs)
  have "list_all2 (\<lambda>v w. same_shape v w \<and> nested_within n (Suc d) v = nested_within n (Suc d) w)
      (map snd ps) (map snd qs)"
    using shape_obj(2) by (rule list_all2_mono) simp
  then show ?case
    using list_all_shape [of "nested_within n (Suc d)"] by (simp only: nested_within.simps members_as_values)
qed auto

lemma shape_printable: "same_shape v w \<Longrightarrow> printable je d v = printable je d w"
proof (induction arbitrary: d rule: same_shape.induct)
  case (shape_arr vs ws)
  have "list_all2 (\<lambda>v w. same_shape v w \<and> printable je d' v = printable je d' w) vs ws" for d'
    using shape_arr by (rule list_all2_mono) simp
  then show ?case using list_all_shape [of "printable je (d - 1)"] by (cases d) auto
next
  case (shape_obj ps qs)
  have "list_all2 (\<lambda>v w. same_shape v w \<and> printable je d' v = printable je d' w)
      (map snd ps) (map snd qs)" for d'
    using shape_obj(2) by (rule list_all2_mono) simp
  then have "list_all (printable je d') (map snd ps) = list_all (printable je d') (map snd qs)" for d'
    by (rule list_all_shape)
  then show ?case using shape_obj(1) by (cases d) (simp_all add: members_as_values)
qed auto

lemma redact_value_shape:
  "(\<And>path s t w t'. leaf path s t = (Inr w, t') \<Longrightarrow> same_shape (JStr s) w) \<Longrightarrow>
     redact_value env leaf path v t = (Inr w, t') \<Longrightarrow> same_shape v w"
  "(\<And>path s t w t'. leaf path s t = (Inr w, t') \<Longrightarrow> same_shape (JStr s) w) \<Longrightarrow>
     redact_elements env leaf path i vs t = (Inr ws, t') \<Longrightarrow> list_all2 same_shape vs ws"
  "(\<And>path s t w t'. leaf path s t = (Inr w, t') \<Longrightarrow> same_shape (JStr s) w) \<Longrightarrow>
     redact_members env leaf path ps t = (Inr qs, t') \<Longrightarrow>
     map fst ps = map fst qs \<and> list_all2 same_shape (map snd ps) (map snd qs)"
proof (induction env leaf path v and env leaf path i vs and env leaf path ps arbitrary: t w t' and t ws t' and t qs t'
    rule: redact_value_redact_elements_redact_members.induct)
  case (1 env leaf path ps)
  then show ?case by (fastforce simp: seq_Inr_iff intro!: shape_obj)
next
  case (2 env leaf path vs)
  then show ?case by (fastforce simp: seq_Inr_iff intro!: shape_arr)
next
  case (8 env leaf path i v vs)
  obtain w u ws' where w: "redact_value env leaf (path @ [dec_nat i]) v t = (Inr w, u)"
      and ws': "redact_elements env leaf path (Suc i) vs u = (Inr ws', t')" and ws: "ws = w # ws'"
    using "8.prems"(2) by (auto simp: seq_Inr_iff)
  then show ?case
    using "8.IH"(1) [OF "8.prems"(1) w] "8.IH"(2) [OF "8.prems"(1) ws'] by simp
next
  case (10 env leaf path k v ps)
  obtain u u' w qs' where "find_pii env k t = (Inr [], u)"
      and w: "redact_value env leaf (path @ [k]) v u = (Inr w, u')"
      and qs': "redact_members env leaf path ps u' = (Inr qs', t')" and qs: "qs = (k, w) # qs'"
    using "10.prems"(2) by (auto simp: seq_Inr_iff split: if_splits)
  then show ?case
    using "10.IH"(1) [OF _ "10.prems"(1) w] "10.IH"(2) [OF _ "10.prems"(1) qs'] by simp
qed (auto simp: check_number_def seq_Inr_iff split: if_splits intro: shape_refl)

lemma redact_leaf_shape: "redact_leaf env allowed pii path s t = (Inr w, t') \<Longrightarrow> same_shape (JStr s) w"
  by (auto simp: redact_leaf_def seq_Inr_iff split: if_splits intro: shape_str)

lemma redact_arguments_shape:
  "redact_arguments env allowed pii path s t = (Inr w, t') \<Longrightarrow> same_shape (JStr s) w"
  by (auto simp: redact_arguments_def seq_Inr_iff rbind_Inr_iff split: if_splits
      intro: shape_str redact_leaf_shape)

lemma redact_json_shape:
  "redact_json env allowed pii args v t = (Inr w, t') \<Longrightarrow> same_shape v w"
  by (auto simp: redact_json_def redact_plain_def split: if_splits
      intro: redact_value_shape(1) redact_leaf_shape redact_arguments_shape)

text \<open>What is forwarded is read by the upstream as the redacted value.\<close>

lemma redacted_reads_back:
  assumes "engine_json env raw = Inr v" and "float_repr_ok (crypto_json (ee_crypto env))"
    and "redact_json env allowed pii args v t = (Inr w, t')" and "encode_json w = Inr b"
  shows "engine_json env b = Inr w"
proof -
  have "same_shape v w" using redact_json_shape [OF assms(3)] .
  then show ?thesis
    using assms(1,4) strict_json_printable [OF assms(2) assms(1) [unfolded engine_json_def]]
    unfolding engine_json_def
    by (intro encode_parses) (auto simp: strict_json_Inr shape_count shape_nested shape_printable)
qed

end
