(* ===== verification/Engine_Safety.thy ===== *)
theory Engine_Safety
  imports Engine_Redaction
begin

text \<open>
  What a verdict of the engine implies.  \<open>content_admitted\<close> collects the checks of a request's
  content, \<open>redaction_admitted\<close> what is forwarded instead of it, \<open>authority_admitted\<close> who is
  behind it; \<open>inline_forward\<close> shows that an inline request is let through only when all three
  hold, \<open>mirror_stores\<close> that observing changes neither the nonces nor the broker's file.
\<close>

subsection \<open>Scans\<close>

text \<open>Every string of the value is free of secrets and passed every signature in time.\<close>

definition scanned_clean :: "engine_env \<Rightarrow> json \<Rightarrow> bool" where
  "scanned_clean env v \<longleftrightarrow>
     list_all (leaf_clean (secrets_of env)) (secret_leaves (secrets_of env) False v) \<and>
     (\<forall>t \<in> set (iter_strings v). \<exists>n. search_patterns env n signature_patterns t = Some False)"

lemma check_signatures_Inr:
  "check_signatures env ts s = (Inr u, s') \<Longrightarrow> t \<in> set ts \<Longrightarrow>
     \<exists>n. search_patterns env n signature_patterns t = Some False"
proof (induction ts arbitrary: s)
  case (Cons t' ts)
  obtain s1 where one: "check_signature env t' s = (Inr (), s1)"
      and rest: "check_signatures env ts s1 = (Inr u, s')"
    using Cons.prems(1) by (auto simp: seq_Inr_iff)
  have "\<exists>n. search_patterns env n signature_patterns t' = Some False"
    using one by (auto simp: check_signature_def seq_Inr_iff split: option.splits bool.splits)
  then show ?case using Cons.IH [OF rest] Cons.prems(2) by auto
qed simp

lemma signatures_clean:
  assumes "signatures env v s = (Inr u, s')"
  shows "scanned_clean env v"
proof -
  obtain s1 where sec: "with_checks (contains_secret (secrets_of env) False v) s = (Inr False, s1)"
      and sig: "check_signatures env (iter_strings v) s1 = (Inr u, s')"
    using assms by (auto simp: signatures_def seq_Inr_iff split: if_splits)
  from sec obtain n where "contains_secret (secrets_of env) False v (es_checks s) = (Inr False, n)"
    by (auto simp: with_checks_def split: prod.splits)
  then show ?thesis
    using contains_secret_clean(1) check_signatures_Inr [OF sig] by (auto simp: scanned_clean_def)
qed

text \<open>A text of the metadata is clean, and has no personal data of the configured score.\<close>

definition text_clean :: "engine_env \<Rightarrow> pystr \<Rightarrow> bool" where
  "text_clean env t \<longleftrightarrow> scanned_clean env (JStr t) \<and>
     (\<exists>n fs. ee_pii env n t = Inr fs \<and> (\<forall>f \<in> set fs. pf_score f < ic_pii_min_score (ee_config env)))"

lemma inspect_text_clean: "inspect_text env why t s = (Inr u, s') \<Longrightarrow> text_clean env t"
  by (auto simp: inspect_text_def find_pii_def seq_Inr_iff text_clean_def filter_empty_conv not_le
      dest!: signatures_clean split: if_splits)

lemma inspect_texts_clean: "inspect_texts env why ts s = (Inr u, s') \<Longrightarrow> t \<in> set ts \<Longrightarrow> text_clean env t"
  by (induction ts arbitrary: s) (auto simp: seq_Inr_iff dest: inspect_text_clean)

text \<open>The metadata of a request: every header but those with a credential for the destination, the target as it is
  and segment by segment, the names and values of its query, all of them percent decoded.\<close>

definition metadata_clean :: "engine_env \<Rightarrow> http_message \<Rightarrow> bool" where
  "metadata_clean env m \<longleftrightarrow>
     (\<forall>(k, v) \<in> set (application_headers (hm_headers m)). k \<in> set (credential_names env) \<or> text_clean env v) \<and>
     (\<exists>u pairs. urlsplit (ee_url env) (hm_path m) = Some u \<and> parse_qsl 256 (u_query u) = Some pairs \<and>
        text_clean env (unquote (hm_path m)) \<and>
        (\<forall>part \<in> set (split_on 47 (u_path u)). text_clean env (unquote part)) \<and>
        (\<forall>(k, v) \<in> set pairs. text_clean env k \<and> text_clean env v))"

lemma inspect_metadata_clean:
  assumes "inspect_metadata env False m s = (Inr u, s')"
  shows "metadata_clean env m"
proof -
  obtain s1 s2 ts where hs: "inspect_texts env ''pii_in_http_header'' (inspected_headers env False m) s = (Inr (), s1)"
    and ts: "target_candidates env m = Inr ts" and texts: "inspect_texts env ''pii_in_request_target'' ts s2 = (Inr u, s')"
    using assms by (auto simp: inspect_metadata_def seq_Inr_iff)
  have "\<forall>(k, v) \<in> set (application_headers (hm_headers m)). k \<in> set (credential_names env) \<or> text_clean env v"
    using inspect_texts_clean [OF hs] by (fastforce simp: inspected_headers_def)
  moreover obtain u pairs where "urlsplit (ee_url env) (hm_path m) = Some u" "parse_qsl 256 (u_query u) = Some pairs"
      "ts = unquote (hm_path m) # map unquote (split_on 47 (u_path u)) @ concat (map (\<lambda>(k, v). [k, v]) pairs)"
    using ts by (auto simp: target_candidates_def split: option.splits)
  ultimately show ?thesis
    using inspect_texts_clean [OF texts] unfolding metadata_clean_def
    by (intro conjI exI [of _ u] exI [of _ pairs]) force+
qed

subsection \<open>Requests\<close>

definition content_admitted :: "engine_env \<Rightarrow> http_message \<Rightarrow> screened \<Rightarrow> bool" where
  "content_admitted env m sd \<longleftrightarrow>
     validate_message m (ee_config env) = Inr () \<and>
     route_for (ee_url env) m (ee_config env) = Inr (sd_route sd) \<and>
     metadata_clean env m \<and>
     request_value env m = Inr (sd_value sd) \<and>
     (\<forall>p. rr_llm_provider (sd_route sd) = Some p \<longrightarrow> validate_llm (sd_value sd) (sd_route sd) p False = Inr ()) \<and>
     semantics m (sd_route sd) (sd_value sd) = Inr (sd_semantics sd) \<and>
     map_option tr_effect (rule_of (sd_route sd) (sd_tool sd)) \<noteq> Some Block_rule \<and>
     sd_pii sd = fst (pii_policy env (Some (sd_route sd)) (rule_of (sd_route sd) (sd_tool sd))) \<and>
     scanned_clean env (sd_value sd) \<and>
     check_egress (ee_url env) (ee_config env) (sd_value sd) = Inr ()"

lemma screen_request_admitted:
  assumes "screen_request env m s = (Inr sd, s')"
  shows "content_admitted env m sd"
proof -
  obtain r v tool action resource s1 where
      rd: "read_request env m s = (Inr (r, v, tool, action, resource), s1)"
      and jd: "judge_request env (r, v, tool, action, resource) s1 = (Inr sd, s')"
    using assms by (auto simp: screen_request_def seq_Inr_iff)
  have "validate_message m (ee_config env) = Inr ()" "route_for (ee_url env) m (ee_config env) = Inr r"
      "request_value env m = Inr v" "semantics m r v = Inr (tool, action, resource)"
      "(case rr_llm_provider r of None \<Rightarrow> Inr () | Some p \<Rightarrow> validate_llm v r p False) = Inr ()"
    using rd by (auto simp: read_request_def seq_Inr_iff)
  moreover have "metadata_clean env m"
    using rd by (auto simp: read_request_def seq_Inr_iff dest: inspect_metadata_clean)
  moreover obtain s2 s3 where sig: "signatures env v s2 = (Inr (), s3)"
      and "map_option tr_effect (rule_of r tool) \<noteq> Some Block_rule"
      "check_egress (ee_url env) (ee_config env) v = Inr ()"
      "sd = \<lparr>sd_route = r, sd_value = v, sd_tool = tool, sd_action = action, sd_resource = resource,
         sd_pii = fst (pii_policy env (Some r) (rule_of r tool))\<rparr>"
    using jd unfolding judge_request_def Let_def prod.case seq_Inr_iff
    by (auto simp: seq_Inr_iff simp del: map_option_eq_Some split: if_split_asm)
  ultimately show ?thesis
    using signatures_clean [OF sig]
    by (auto simp: content_admitted_def sd_semantics_def split: option.splits)
qed

text \<open>What is forwarded in place of the body: the same value redacted, the same action.\<close>

definition forwarded_body :: "http_message \<Rightarrow> verdict \<Rightarrow> bytes" where
  "forwarded_body m vd = (case vd_body vd of None \<Rightarrow> hm_body m | Some b \<Rightarrow> b)"

definition redaction_admitted :: "engine_env \<Rightarrow> http_message \<Rightarrow> screened \<Rightarrow> verdict \<Rightarrow> bool" where
  "redaction_admitted env m sd vd \<longleftrightarrow>
     (\<exists>w t t'. redact_json env (Some (rr_redact_fields (sd_route sd))) (sd_pii sd)
          (rr_llm_provider (sd_route sd) \<noteq> None) (sd_value sd) t = (Inr w, t') \<and>
        (if w = sd_value sd then forwarded_body m vd = hm_body m
         else encode_json w = Inr (forwarded_body m vd)) \<and>
        semantics m (sd_route sd) w = Inr (sd_semantics sd)) \<and>
     vd_request_digest vd = Some (request_digest (ee_crypto env) (m\<lparr>hm_body := forwarded_body m vd\<rparr>))"

lemma redact_request_admitted:
  assumes "redact_request env m sd s = (Inr u, s')"
  shows "redaction_admitted env m sd (es_verdict s')"
proof -
  obtain w t where w: "redact_json env (Some (rr_redact_fields (sd_route sd))) (sd_pii sd)
          (rr_llm_provider (sd_route sd) \<noteq> None) (sd_value sd) s = (Inr w, t)"
      and rest: "seq (lift_result (if w = sd_value sd then Inr (hm_body m) else encode_json w)) (\<lambda>body.
         seq (lift_result (semantics m (sd_route sd) w)) (\<lambda>sem.
           if sem \<noteq> sd_semantics sd then denied ''redaction_changed_authorized_action''
           else set_verdict (\<lambda>vd. vd\<lparr>
             vd_request_digest := Some (request_digest (ee_crypto env) (m\<lparr>hm_body := body\<rparr>)),
             vd_body := (if body \<noteq> hm_body m then Some body else None)\<rparr>))) t = (Inr u, s')"
    using assms unfolding redact_request_def by (subst (asm) seq_Inr_iff) blast
  from rest obtain body where
      body: "(if w = sd_value sd then Inr (hm_body m) else encode_json w) = Inr body"
      and sem: "semantics m (sd_route sd) w = Inr (sd_semantics sd)"
      and s': "s' = t\<lparr>es_verdict := (es_verdict t)\<lparr>
        vd_request_digest := Some (request_digest (ee_crypto env) (m\<lparr>hm_body := body\<rparr>)),
        vd_body := (if body \<noteq> hm_body m then Some body else None)\<rparr>\<rparr>"
    unfolding seq_Inr_iff set_verdict_def lift_result_app by (force split: if_split_asm)
  have vd: "vd_request_digest (es_verdict s') = Some (request_digest (ee_crypto env) (m\<lparr>hm_body := body\<rparr>))"
      "vd_body (es_verdict s') = (if body \<noteq> hm_body m then Some body else None)"
    by (simp_all add: s')
  have "forwarded_body m (es_verdict s') = body" using vd by (simp add: forwarded_body_def)
  then show ?thesis
    unfolding redaction_admitted_def using w body sem vd(1) by (auto split: if_splits)
qed

lemma redaction_admitted_cong:
  "vd_request_digest vd = vd_request_digest vd' \<Longrightarrow> vd_body vd = vd_body vd' \<Longrightarrow>
     redaction_admitted env m sd vd = redaction_admitted env m sd vd'"
  by (simp add: redaction_admitted_def forwarded_body_def)

text \<open>Who is behind the request: a fresh attestation, and local policy or the broker.\<close>

definition authority_admitted ::
  "engine_env \<Rightarrow> http_message \<Rightarrow> screened \<Rightarrow> verdict \<Rightarrow> engine_state \<Rightarrow> engine_state \<Rightarrow> bool" where
  "authority_admitted env m sd vd s s' \<longleftrightarrow>
     (\<exists>ident. verify (ee_crypto env) (ee_verifier env) (ee_now env) (ee_db_ok env) True m (es_nonces s)
          = (Inr ident, es_nonces s') \<and>
        (case ee_broker env of
           None \<Rightarrow> es_broker s' = es_broker s \<and>
             (\<exists>src \<in> set (ic_trusted_sources (ee_config env)). get_or ident (uni ''source_id'') JNull = JStr src)
         | Some benv \<Rightarrow>
             (\<exists>q d. authorization_request ident (sd_semantics sd) (the (vd_request_digest vd)) = Inr q \<and>
                authorize benv q (es_broker s) = (Inr d, es_broker s') \<and> dc_action d = Allow)))"

lemma verify_identity_Inr:
  "verify_identity env c m s = (Inr ident, s') \<longleftrightarrow>
     (\<exists>db. verify (ee_crypto env) (ee_verifier env) (ee_now env) (ee_db_ok env) c m (es_nonces s) = (Inr ident, db) \<and>
        s' = s\<lparr>es_nonces := db\<rparr>)"
  by (auto simp: verify_identity_def with_nonces_def split: prod.splits)

lemma check_time_Inr: "check_time env s = (Inr u, s') \<Longrightarrow> s' = s\<lparr>es_checks := Suc (es_checks s)\<rparr>"
  by (auto simp: check_time_def with_checks_def check_deadline_def split: if_splits)

definition lets_through :: "verdict \<Rightarrow> bool" where
  "lets_through vd \<longleftrightarrow> vd_action vd = V_allow \<or> vd_action vd = V_redact"

lemma apply_decision_through:
  "lets_through (apply_decision mode d vd) \<Longrightarrow>
     dc_action d = Allow \<and> vd_body (apply_decision mode d vd) = vd_body vd \<and>
     vd_request_digest (apply_decision mode d vd) = vd_request_digest vd"
  by (cases "dc_action d")
    (auto simp: apply_decision_def lets_through_def mark_redacted_def Let_def split: if_splits)

lemma refused_inline_blocks: "\<not> lets_through (refused Inline reason vd)"
  by (simp add: lets_through_def refused_def Let_def)

lemma unavailable_blocks: "\<not> lets_through (unavailable mode)"
  by (simp add: lets_through_def unavailable_def new_verdict_def)

lemma request_body_authority:
  assumes "request_body env Inline m s = (Inr u, s')" and "lets_through (es_verdict s')"
  shows "\<exists>sd. content_admitted env m sd \<and> redaction_admitted env m sd (es_verdict s') \<and>
    authority_admitted env m sd (es_verdict s') s s'"
proof -
  obtain sd s1 s2 ident db where screen: "screen_request env m s = (Inr sd, s1)"
      and red: "redact_request env m sd s1 = (Inr (), s2)"
      and ident: "verify (ee_crypto env) (ee_verifier env) (ee_now env) (ee_db_ok env) True m (es_nonces s2) = (Inr ident, db)"
      and rest: "(case ee_broker env of None \<Rightarrow> local_policy env ident
        | Some benv \<Rightarrow> ask_broker env Inline benv (sd_semantics sd) ident) (s2\<lparr>es_nonces := db\<rparr>) = (Inr u, s')"
    using assms(1) by (auto simp: request_body_def seq_Inr_iff verify_identity_Inr)
  have st: "es_nonces s2 = es_nonces s" "es_broker s2 = es_broker s"
    using keepsD [OF keeps_screen_request screen] keepsD [OF keeps_redact_request red]
    by (auto simp: stores_def)
  have adm: "content_admitted env m sd" "redaction_admitted env m sd (es_verdict s2)"
    using screen_request_admitted [OF screen] redact_request_admitted [OF red] by auto
  show ?thesis
  proof (cases "ee_broker env")
    case None
    with rest have l: "local_policy env ident (s2\<lparr>es_nonces := db\<rparr>) = (Inr u, s')" by simp
    have "redaction_admitted env m sd (es_verdict s')"
      using adm(2) l
      by (subst redaction_admitted_cong [of _ "es_verdict s2"])
        (auto simp: local_policy_def set_verdict_def mark_redacted_def split: if_splits)
    moreover have "authority_admitted env m sd (es_verdict s') s s'"
      using None l ident st
      by (auto simp: authority_admitted_def local_policy_def set_verdict_def split: if_splits)
    ultimately show ?thesis using adm(1) by blast
  next
    case (Some benv)
    with rest have l: "ask_broker env Inline benv (sd_semantics sd) ident (s2\<lparr>es_nonces := db\<rparr>) = (Inr u, s')"
      by simp
    define s3 where "s3 = s2\<lparr>es_nonces := db, es_verdict := (es_verdict s2)
      \<lparr>vd_source_verified := True, vd_identity_verified := True\<rparr>\<rparr>"
    from l obtain q s4 d s5 where
        q: "authorization_request ident (sd_semantics sd) (the (vd_request_digest (es_verdict s2))) = Inr q"
        and tm: "check_time env s3 = (Inr (), s4)"
        and br: "with_broker (authorize benv q) s4 = (Inr d, s5)"
        and s': "s' = s5\<lparr>es_verdict := apply_decision Inline d (es_verdict s5)\<rparr>"
      by (auto simp: ask_broker_def seq_Inr_iff set_verdict_def s3_def)
    obtain b where auth: "authorize benv q (es_broker s4) = (Inr d, b)" and s5: "s5 = s4\<lparr>es_broker := b\<rparr>"
      using br by (auto simp: with_broker_def split: prod.splits)
    have s4: "s4 = s3\<lparr>es_checks := Suc (es_checks s3)\<rparr>" using check_time_Inr [OF tm] .
    have fin: "es_broker s5 = b" "es_nonces s5 = db"
        "vd_request_digest (es_verdict s5) = vd_request_digest (es_verdict s2)"
        "vd_body (es_verdict s5) = vd_body (es_verdict s2)" "es_broker s4 = es_broker s2"
      by (simp_all add: s5 s4 s3_def)
    have dec: "dc_action d = Allow" "vd_body (es_verdict s') = vd_body (es_verdict s2)"
        "vd_request_digest (es_verdict s') = vd_request_digest (es_verdict s2)"
      using apply_decision_through [of Inline d "es_verdict s5"] assms(2) fin s' by auto
    have "redaction_admitted env m sd (es_verdict s')"
      using adm(2) redaction_admitted_cong dec by metis
    moreover have "authority_admitted env m sd (es_verdict s') s s'"
      using Some q auth fin dec ident st s' by (auto simp: authority_admitted_def)
    ultimately show ?thesis using adm(1) by blast
  qed
qed

lemma authority_admitted_start:
  "authority_admitted env m sd vd (s\<lparr>es_verdict := x\<rparr>) s' = authority_admitted env m sd vd s s'"
  by (simp add: authority_admitted_def split: option.split)

lemma inline_forward:
  assumes "inspect_request env Inline m s = (vd, s')" and "lets_through vd"
  shows "\<exists>sd. content_admitted env m sd \<and> redaction_admitted env m sd vd \<and>
    authority_admitted env m sd vd s s'"
proof (cases "request_body env Inline m (s\<lparr>es_verdict := new_verdict V_allow ''policy_allowed'' Inline\<rparr>)")
  case (Pair r s1)
  show ?thesis
  proof (cases r)
    case (Inr u)
    with Pair assms(1) have "vd = es_verdict s'" "s1 = s'" by (auto simp: inspect_request_def)
    with request_body_authority [OF Pair [unfolded Inr]] assms(2) show ?thesis
      by (simp add: authority_admitted_start)
  next
    case (Inl e)
    with Pair assms have False
      by (cases e) (auto simp: inspect_request_def refused_inline_blocks unavailable_blocks)
    then show ?thesis ..
  qed
qed

subsection \<open>Observing changes nothing that lasts\<close>

text \<open>
  The broker's file, the number of writes to it, and for the in-memory store the tables.
\<close>

definition broker_record :: "broker_env \<Rightarrow> bstate \<Rightarrow> disk \<times> nat \<times> tables" where
  "broker_record benv b = (disk b, writes b, if file_store benv then empty_tables else mem b)"

lemma keeps_evaluate: "keeps (broker_record benv) (evaluate benv q)"
proof -
  have "keeps (broker_record benv) (utc_now benv)"
    "keeps (broker_record benv) (strict_decision benv q e True None None)" for e
    by (auto simp: keeps_def broker_record_def utc_now_def strict_decision_def new_id_def seq_app
        decision_record_def)
  then have body: "keeps (broker_record benv) (seq (utc_now benv) (\<lambda>now.
      seq (gets (\<lambda>s. evaluate_strict q now (mem s))) (\<lambda>e. strict_decision benv q e True None None)))"
    by (intro keeps_intros)
  have "file_store benv \<Longrightarrow> keeps (broker_record benv) load"
    by (auto simp: keeps_def broker_record_def load_def split: disk.splits)
  then show ?thesis
    using body keeps_seq [of "broker_record benv" load "\<lambda>_. seq (utc_now benv) (\<lambda>now.
      seq (gets (\<lambda>s. evaluate_strict q now (mem s))) (\<lambda>e. strict_decision benv q e True None None))"]
    by (auto simp: evaluate_def read_transaction_def keeps_def)
qed

definition lasting :: "engine_env \<Rightarrow> engine_state \<Rightarrow> nonces \<times> (disk \<times> nat \<times> tables) option" where
  "lasting env s = (es_nonces s, map_option (\<lambda>benv. broker_record benv (es_broker s)) (ee_broker env))"

interpretation lasting: scan_frame "lasting env" for env
  by unfold_locales (simp_all add: lasting_def)

lemma keeps_lasting_verdict: "keeps (lasting env) (set_verdict f)"
  by (simp add: keeps_def set_verdict_def lasting_def)

lemma keeps_verify_observed: "keeps (lasting env) (verify_identity env False m)"
proof -
  have "snd (verify cr av now ok False m db) = db" for cr av now ok and db :: nonces
    by (auto simp: verify_def split: sum.splits)
  then show ?thesis
    by (auto simp: keeps_def verify_identity_def with_nonces_def lasting_def split: prod.splits)
      (metis snd_conv)
qed

lemma keeps_stores_lasting: "keeps stores m \<Longrightarrow> keeps (lasting env) m"
  by (auto simp: keeps_def stores_def lasting_def)

lemma keeps_ask_observed:
  assumes "ee_broker env = Some benv"
  shows "keeps (lasting env) (ask_broker env Mirror benv sem ident)"
proof -
  have "keeps (lasting env) (with_broker (evaluate benv q))" for q
    using keeps_evaluate [of benv q] assms
    by (auto simp: keeps_def with_broker_def lasting_def split: prod.splits) (metis snd_conv)
  then show ?thesis
    unfolding ask_broker_def
    by (auto intro!: keeps_intros keeps_lasting_verdict lasting.keeps_check_time)
qed

lemma keeps_request_observed: "keeps (lasting env) (request_body env Mirror m)"
proof -
  have "keeps (lasting env) (local_policy env ident)" for ident
    unfolding local_policy_def by (intro keeps_intros keeps_lasting_verdict)
  then have last: "keeps (lasting env) (case ee_broker env of None \<Rightarrow> local_policy env ident
      | Some benv \<Rightarrow> ask_broker env Mirror benv sem ident)" for sem ident
    by (cases "ee_broker env") (auto intro: keeps_ask_observed)
  have observed: "(Mirror = Inline) = False" by simp
  show ?thesis
    unfolding request_body_def observed
    by (intro keeps_seq keeps_stores_lasting [OF keeps_screen_request]
        keeps_stores_lasting [OF keeps_redact_request] keeps_verify_observed last)
qed

lemma keeps_mirror_identity: "keeps (lasting env) (mirror_identity env m)"
  unfolding keeps_def
proof
  fix s
  obtain r t where run: "verify_identity env False m s = (r, t)" by fastforce
  have "lasting env t = lasting env s" using keepsD [OF keeps_verify_observed run] .
  moreover have "lasting env (snd (set_verdict f t)) = lasting env t" for f
    using keeps_lasting_verdict by (simp add: keeps_def)
  ultimately show "lasting env (snd (mirror_identity env m s)) = lasting env s"
    using run by (auto simp: mirror_identity_def split: sum.splits exn.splits)
qed

lemma keeps_mirror_body: "keeps (lasting env) (mirror_body env m)"
  unfolding mirror_body_def mirror_content_def
  by (intro keeps_intros lasting.keeps_inspect_metadata lasting.keeps_signatures
      lasting.keeps_redact_plain keeps_lasting_verdict keeps_mirror_identity)

lemma mirror_stores:
  assumes "inspect_request env Mirror m s = (vd, s')"
  shows "lasting env s' = lasting env s"
proof -
  obtain r s1 where run: "request_body env Mirror m
      (s\<lparr>es_verdict := new_verdict V_allow ''policy_allowed'' Mirror\<rparr>) = (r, s1)"
    by fastforce
  have reset: "lasting env (t\<lparr>es_verdict := x\<rparr>) = lasting env t" for t x by (simp add: lasting_def)
  have one: "lasting env s1 = lasting env s"
    using keepsD [OF keeps_request_observed run] by (simp add: reset)
  have two: "lasting env (snd (inspect_unmapped_mirror env m why s1)) = lasting env s" for why
  proof -
    obtain r2 s2 where run2: "mirror_body env m (s1\<lparr>es_verdict := mirror_start env why\<rparr>) = (r2, s2)"
      by fastforce
    have "lasting env s2 = lasting env s"
      using keepsD [OF keeps_mirror_body run2] one by (simp add: reset)
    with run2 show ?thesis
      by (auto simp: inspect_unmapped_mirror_def split: sum.splits exn.splits)
  qed
  show ?thesis
  proof (cases "\<exists>why. r = Inl (Inspection why) \<and> why \<in> set unmapped_reasons")
    case True
    then obtain why where "r = Inl (Inspection why)" "why \<in> set unmapped_reasons" by blast
    with assms run have "s' = snd (inspect_unmapped_mirror env m why s1)"
      by (simp add: inspect_request_def)
    with two show ?thesis by simp
  next
    case False
    with assms run have "s' = s1"
      by (auto simp: inspect_request_def split: sum.splits exn.splits if_splits)
    with one show ?thesis by simp
  qed
qed

end
