(* ===== verification/Ext_Proc.thy ===== *)
theory Ext_Proc
  imports Engine_Safety
begin

text \<open>
  \<open>inspection/server.py\<close>: normalisation of headers, the reply that ends a stream, the stream
  processor of the proxy (\<open>ExternalProcessor.Process\<close>), the capture handler of the mirror and
  the worker slots.  \<open>inspection/audit.py\<close> is here too: the log is the list of the evidence
  written, and a write may fail.

  The processor is stated over any inspector (\<open>inspector\<close>: what it calls on the engine), with
  the events of a stream as a list.  A clean end of the stream lets the proxy go on, so what
  matters is when \<open>process\<close> can end that way.
\<close>

subsection \<open>Headers\<close>

definition bad_header_char :: "nat \<Rightarrow> bool" where
  "bad_header_char c \<longleftrightarrow> c = 13 \<or> c = 10 \<or> c = 0"

fun collect_headers :: "(pystr \<times> pystr) list \<Rightarrow> (pystr, pystr) dict \<Rightarrow> (pystr, pystr) dict result" where
  "collect_headers [] hs = Inr hs"
| "collect_headers ((k, v) # kvs) hs =
     (if map_of hs (py_lower k) \<noteq> None \<or> list_ex bad_header_char (py_lower k @ v)
      then fails ''ambiguous_headers''
      else collect_headers kvs (dset (py_lower k) v hs))"

definition connection_tokens :: "pystr \<Rightarrow> pystr list" where
  "connection_tokens v = map (\<lambda>w. py_lower (py_strip w)) (split_on 44 v)"

definition normalized_headers :: "(pystr \<times> pystr) list \<Rightarrow> (pystr, pystr) dict result" where
  "normalized_headers kvs =
     rbind (collect_headers kvs []) (\<lambda>hs.
       let get = (\<lambda>k. map_of hs (uni k)) in
       if get '':authority'' \<noteq> None \<and> get ''host'' \<noteq> None \<and> get '':authority'' \<noteq> get ''host''
       then fails ''authority_host_mismatch''
       else if get ''content-length'' \<noteq> None \<and> get ''transfer-encoding'' \<noteq> None
       then fails ''ambiguous_framing''
       else case get ''connection'' of
         Some v \<Rightarrow>
           if list_all (\<lambda>t. t = uni ''keep-alive'' \<or> t = uni ''close'') (connection_tokens v)
           then Inr hs else fails ''unsupported_connection_tokens''
       | None \<Rightarrow> Inr hs)"

record proto_header =
  ph_key :: pystr
  ph_raw :: bytes
  ph_value :: pystr

text \<open>\<open>raw_value.decode("latin-1") if raw_value else value\<close>.\<close>

definition proto_value :: "proto_header \<Rightarrow> pystr" where
  "proto_value h = (if ph_raw h \<noteq> [] then map unat (ph_raw h) else ph_value h)"

definition proto_headers :: "proto_header list \<Rightarrow> (pystr, pystr) dict result" where
  "proto_headers hs = normalized_headers (map (\<lambda>h. (ph_key h, proto_value h)) hs)"

definition remove_context :: "(pystr, pystr) dict \<Rightarrow> pystr list" where
  "remove_context hs = filter reserved_header (dkeys hs)"

subsection \<open>The reply that ends a stream\<close>

definition malformed_reasons :: "string list" where
  "malformed_reasons = [''mcp_header_body_mismatch'', ''unsupported_mcp_version'', ''missing_mcp_headers'',
     ''invalid_mcp_header_encoding'']"

definition busy_reasons :: "string list" where
  "busy_reasons = [''inspection_unavailable'', ''inspection_deadline'', ''signature_timeout'']"

definition status_code :: "verdict \<Rightarrow> nat" where
  "status_code vd =
     (if vd_action vd = V_approval_required then 428
      else if vd_reason vd \<in> set busy_reasons then 503
      else if vd_reason vd \<in> set malformed_reasons then 400 else 403)"

fun action_text :: "verdict_action \<Rightarrow> string" where
  "action_text V_allow = ''allow''"
| "action_text V_block = ''block''"
| "action_text V_redact = ''redact''"
| "action_text V_approval_required = ''approval_required''"
| "action_text V_unknown = ''unknown''"

definition immediate_body :: "verdict \<Rightarrow> json" where
  "immediate_body vd = JObj
     [(uni ''error'', JStr (uni (vd_reason vd))), (uni ''decision'', JStr (uni (action_text (vd_action vd)))),
      (uni ''approval_id'', case vd_approval_id vd of None \<Rightarrow> JNull | Some i \<Rightarrow> JStr i)]"

subsection \<open>The stream processor\<close>

datatype ext_event =
    Request_headers "proto_header list" bool
  | Request_body bytes bool
  | Response_headers "proto_header list" bool
  | Response_body bytes bool
  | Observability_event
  | Unknown_event
  | Stream_timeout

text \<open>The replies: the headers to remove, and the body to put in place of the one inspected.\<close>

datatype ext_reply =
    Pass_request_headers "pystr list"
  | Pass_request_body "bytes option"
  | Pass_response_headers "pystr list"
  | Pass_response_body "bytes option"
  | Immediate nat bytes

datatype stream_end = Clean | Abort_incomplete | Abort_deadline | Abort_unavailable | Crash

text \<open>What the processor calls on its engine.\<close>

record 's inspector =
  in_request :: "http_message \<Rightarrow> 's \<Rightarrow> verdict result \<times> 's"
  in_metadata :: "http_message \<Rightarrow> 's \<Rightarrow> unit result \<times> 's"
  in_response :: "pii_choice option \<Rightarrow> pii_scope option \<Rightarrow> http_message \<Rightarrow> 's \<Rightarrow> verdict result \<times> 's"
  in_route :: "(http_message \<Rightarrow> route_rule result) option"
  in_audit_ok :: "nat \<Rightarrow> bool"

record 's stream =
  sm_request_headers :: "(pystr, pystr) dict option"
  sm_response_headers :: "(pystr, pystr) dict option"
  sm_request_checked :: bool
  sm_response_checked :: bool
  sm_verdict :: "verdict option"
  sm_method :: pystr
  sm_authority :: pystr
  sm_path :: pystr
  sm_audit :: "evidence list"
  sm_engine :: 's

type_synonym ('s, 'a) stream_act = "('s stream, 'a) act"

definition call_engine :: "('s \<Rightarrow> 'a result \<times> 's) \<Rightarrow> ('s, 'a) stream_act" where
  "call_engine f st = (case f (sm_engine st) of (r, s) \<Rightarrow> (r, st\<lparr>sm_engine := s\<rparr>))"

definition record_audit :: "'s inspector \<Rightarrow> verdict \<Rightarrow> string \<Rightarrow> ('s, unit) stream_act" where
  "record_audit ins vd phase st =
     (if in_audit_ok ins (length (sm_audit st))
      then (Inr (), st\<lparr>sm_audit := sm_audit st @ [evidence_of vd phase False]\<rparr>)
      else (Inl Os_error, st))"

definition stream_message :: "'s stream \<Rightarrow> (pystr, pystr) dict \<Rightarrow> bytes \<Rightarrow> bool \<Rightarrow> http_message" where
  "stream_message st hs body whole =
     \<lparr>hm_method = sm_method st, hm_authority = sm_authority st, hm_path = sm_path st, hm_headers = hs,
      hm_body = body, hm_complete = whole\<rparr>"

definition protocol_error :: "('s, 'a) stream_act" where
  "protocol_error = raise (Inspection ''unexpected_protocol_sequence'')"

definition let_through :: "verdict \<Rightarrow> bool" where
  "let_through vd \<longleftrightarrow> vd_action vd = V_allow \<or> vd_action vd = V_redact"

text \<open>An event is answered by a reply, or ends the stream with one.\<close>

definition immediate :: "verdict \<Rightarrow> (ext_reply \<times> bool) result" where
  "immediate vd = rbind (encode_json (immediate_body vd)) (\<lambda>b. Inr (Immediate (status_code vd) b, True))"

definition inspect_stream_request :: "'s inspector \<Rightarrow> http_message \<Rightarrow> ('s, verdict) stream_act" where
  "inspect_stream_request ins m =
     seq (call_engine (in_request ins m)) (\<lambda>vd.
     seq (modify (\<lambda>st. st\<lparr>sm_verdict := Some vd\<rparr>)) (\<lambda>_.
     seq (record_audit ins vd ''request'') (\<lambda>_.
     seq (modify (\<lambda>st. st\<lparr>sm_request_checked := True\<rparr>)) (\<lambda>_. ret vd))))"

definition request_headers_event ::
  "'s inspector \<Rightarrow> proto_header list \<Rightarrow> bool \<Rightarrow> ('s, ext_reply \<times> bool) stream_act" where
  "request_headers_event ins phs eos =
     seq (gets sm_request_headers) (\<lambda>old. if old \<noteq> None then protocol_error else
     seq (lift_result (proto_headers phs)) (\<lambda>hs.
     seq (modify (\<lambda>st. st\<lparr>sm_request_headers := Some hs, sm_method := get_or hs (uni '':method'') [],
       sm_authority := get_or hs (uni '':authority'') (get_or hs (uni ''host'') []),
       sm_path := get_or hs (uni '':path'') []\<rparr>)) (\<lambda>_.
       if eos then
         seq (gets (\<lambda>st. stream_message st hs [] True)) (\<lambda>m.
         seq (inspect_stream_request ins m) (\<lambda>vd.
           if let_through vd then ret (Pass_request_headers (remove_context hs), False)
           else lift_result (immediate vd)))
       else ret (Pass_request_headers (remove_context hs), False))))"

definition request_body_event ::
  "'s inspector \<Rightarrow> bytes \<Rightarrow> bool \<Rightarrow> ('s, ext_reply \<times> bool) stream_act" where
  "request_body_event ins body eos =
     seq (gets (\<lambda>st. st)) (\<lambda>st.
       case sm_request_headers st of
         None \<Rightarrow> protocol_error
       | Some hs \<Rightarrow>
           if sm_request_checked st then protocol_error
           else seq (inspect_stream_request ins (stream_message st hs body eos)) (\<lambda>vd.
                  if let_through vd then ret (Pass_request_body (vd_body vd), False)
                  else lift_result (immediate vd)))"

text \<open>The cookies of a native model API are dropped before the headers are scanned.\<close>

definition drops_cookies :: "'s inspector \<Rightarrow> 's stream \<Rightarrow> bool result" where
  "drops_cookies ins st =
     (case in_route ins of
        None \<Rightarrow> Inr False
      | Some route \<Rightarrow>
          rbind (route (stream_message st (the (sm_request_headers st)) [] True)) (\<lambda>r.
            Inr (rr_llm_provider r \<noteq> None)))"

definition response_headers_event ::
  "'s inspector \<Rightarrow> proto_header list \<Rightarrow> bool \<Rightarrow> ('s, ext_reply \<times> bool) stream_act" where
  "response_headers_event ins phs eos =
     seq (gets (\<lambda>st. st)) (\<lambda>st.
       if \<not> sm_request_checked st \<or> sm_response_headers st \<noteq> None then protocol_error
       else seq (lift_result (drops_cookies ins st)) (\<lambda>drop_cookie.
            seq (lift_result (proto_headers
                  (if drop_cookie then filter (\<lambda>h. py_lower (ph_key h) \<noteq> uni ''set-cookie'') phs else phs))) (\<lambda>hs.
            seq (modify (\<lambda>st. st\<lparr>sm_response_headers := Some hs\<rparr>)) (\<lambda>_.
              if py_lower (get_or hs (uni ''content-encoding'') (uni ''identity'')) \<noteq> uni ''identity''
              then raise (Inspection ''unsupported_content_encoding'')
              else seq (call_engine (in_metadata ins (stream_message st hs [] True))) (\<lambda>_.
                   seq (modify (\<lambda>st. if eos then st\<lparr>sm_response_checked := True\<rparr> else st)) (\<lambda>_.
                     ret (Pass_response_headers (if drop_cookie then [uni ''set-cookie''] else []), False)))))))"

definition response_body_event ::
  "'s inspector \<Rightarrow> bytes \<Rightarrow> bool \<Rightarrow> ('s, ext_reply \<times> bool) stream_act" where
  "response_body_event ins body eos =
     seq (gets (\<lambda>st. st)) (\<lambda>st.
       case sm_response_headers st of
         None \<Rightarrow> protocol_error
       | Some hs \<Rightarrow>
           if sm_response_checked st then protocol_error
           else (case sm_verdict st of
             None \<Rightarrow> raise Failure
           | Some rv \<Rightarrow>
               seq (call_engine (in_response ins (vd_pii_policy_action rv) (vd_pii_policy_scope rv)
                     (stream_message st hs body eos))) (\<lambda>vd.
               seq (record_audit ins vd ''response'') (\<lambda>_.
               seq (modify (\<lambda>st. st\<lparr>sm_response_checked := True\<rparr>)) (\<lambda>_.
                 if let_through vd then ret (Pass_response_body (vd_body vd), False)
                 else lift_result (immediate vd))))))"

fun process_event :: "'s inspector \<Rightarrow> ext_event \<Rightarrow> ('s, ext_reply \<times> bool) stream_act" where
  "process_event ins (Request_headers hs eos) = request_headers_event ins hs eos"
| "process_event ins (Request_body b eos) = request_body_event ins b eos"
| "process_event ins (Response_headers hs eos) = response_headers_event ins hs eos"
| "process_event ins (Response_body b eos) = response_body_event ins b eos"
| "process_event ins Observability_event = raise (Inspection ''extproc_observability_not_supported'')"
| "process_event ins Unknown_event = raise (Inspection ''unsupported_extproc_message'')"
| "process_event ins Stream_timeout = raise Timeout_error"

text \<open>The \<open>except\<close> clauses.  An exception in the handler of an \<open>InspectionError\<close> leaves the
  method.\<close>

definition handle_exception ::
  "'s inspector \<Rightarrow> exn \<Rightarrow> 's stream \<Rightarrow> ext_reply list \<times> stream_end \<times> 's stream" where
  "handle_exception ins e st =
     (case e of
        Inspection reason \<Rightarrow>
          (let vd = (new_verdict V_block reason Inline)\<lparr>vd_coverage := ''incomplete''\<rparr> in
           case seq (record_audit ins vd ''transport'') (\<lambda>_. lift_result (immediate vd)) st of
             (Inr (reply, _), st') \<Rightarrow> ([reply], Clean, st')
           | (Inl _, st') \<Rightarrow> ([], Crash, st'))
      | Timeout_error \<Rightarrow> ([], Abort_deadline, st)
      | _ \<Rightarrow> ([], Abort_unavailable, st))"

fun process_events ::
  "'s inspector \<Rightarrow> ext_event list \<Rightarrow> 's stream \<Rightarrow> ext_reply list \<times> stream_end \<times> 's stream" where
  "process_events ins [] st =
     ([], if sm_request_checked st \<and> sm_response_checked st then Clean else Abort_incomplete, st)"
| "process_events ins (ev # evs) st =
     (case process_event ins ev st of
        (Inl e, st') \<Rightarrow> handle_exception ins e st'
      | (Inr (reply, True), st') \<Rightarrow> ([reply], Clean, st')
      | (Inr (reply, False), st') \<Rightarrow>
          (case process_events ins evs st' of (replies, fin, st'') \<Rightarrow> (reply # replies, fin, st'')))"

definition stream_start :: "'s \<Rightarrow> 's stream" where
  "stream_start s = \<lparr>sm_request_headers = None, sm_response_headers = None, sm_request_checked = False,
     sm_response_checked = False, sm_verdict = None, sm_method = [], sm_authority = [], sm_path = [],
     sm_audit = [], sm_engine = s\<rparr>"

definition process ::
  "'s inspector \<Rightarrow> ext_event list \<Rightarrow> 's \<Rightarrow> ext_reply list \<times> stream_end \<times> 's stream" where
  "process ins evs s = process_events ins evs (stream_start s)"

text \<open>The inspection engine as an inspector.\<close>

definition engine_inspector :: "engine_env \<Rightarrow> (nat \<Rightarrow> bool) \<Rightarrow> engine_state inspector" where
  "engine_inspector env audit_ok =
     \<lparr>in_request = (\<lambda>m s. case inspect_request env Inline m s of (vd, s') \<Rightarrow> (Inr vd, s')),
      in_metadata = inspect_metadata env True,
      in_response = (\<lambda>pii scope m. inspect_response env Inline (map_option (\<lambda>p. (p, scope)) pii) m),
      in_route = Some (\<lambda>m. route_for (ee_url env) m (ee_config env)),
      in_audit_ok = audit_ok\<rparr>"

subsection \<open>The capture handler of the mirror\<close>

fun bounded_body :: "nat \<Rightarrow> bytes list \<Rightarrow> bytes \<Rightarrow> bytes result" where
  "bounded_body limit [] body = Inr body"
| "bounded_body limit (chunk # chunks) body =
     (if limit < length body + length chunk then fails ''body_limit_exceeded''
      else bounded_body limit chunks (body @ chunk))"

text \<open>\<open>mirror_raw\<close> on the raw headers, path and query of the connection and the chunks of its
  body: the evidence written.\<close>

definition capture_message ::
  "inspection_config \<Rightarrow> pystr \<Rightarrow> (bytes \<times> bytes) list \<Rightarrow> bytes \<Rightarrow> bytes \<Rightarrow> bytes list \<Rightarrow> http_message result"
  where
  "capture_message c meth raw_headers raw_path query chunks =
     rbind (normalized_headers (map (\<lambda>(k, v). (map unat k, map unat v)) raw_headers)) (\<lambda>hs.
     rbind (bounded_body (ic_max_body_bytes c) chunks []) (\<lambda>body.
     rbind (if is_ascii (map unat (raw_path @ query)) then Inr () else Inl Unicode_error) (\<lambda>_.
       Inr \<lparr>hm_method = meth, hm_authority = get_or hs (uni ''host'') [],
            hm_path = map unat raw_path @ (if query = [] then [] else 63 # map unat query),
            hm_headers = hs, hm_body = body, hm_complete = True\<rparr>)))"

definition mirror_raw ::
  "engine_env \<Rightarrow> http_message result \<Rightarrow> engine_state \<Rightarrow> evidence result \<times> engine_state" where
  "mirror_raw env captured s =
     (case captured of
        Inr m \<Rightarrow> (case inspect_request env Mirror m s of (vd, s') \<Rightarrow> (Inr (evidence_of vd ''request'' False), s'))
      | Inl (Inspection _) \<Rightarrow>
          (Inr (evidence_of ((new_verdict V_unknown ''invalid_or_oversized_capture'' Mirror)
             \<lparr>vd_coverage := ''incomplete''\<rparr>) ''request'' False), s)
      | Inl Unicode_error \<Rightarrow>
          (Inr (evidence_of ((new_verdict V_unknown ''invalid_or_oversized_capture'' Mirror)
             \<lparr>vd_coverage := ''incomplete''\<rparr>) ''request'' False), s)
      | Inl e \<Rightarrow> (Inl e, s))"

end
