(* ===== verification/Ext_Proc_Safety.thy ===== *)
theory Ext_Proc_Safety
  imports Ext_Proc
begin

text \<open>
  The stream processor fails closed: what it passes was inspected and let through, it ends a
  stream cleanly only after both inspections or after an immediate reply, and with the
  engine behind it every body it passes was admitted in the sense of \<open>Engine_Safety\<close>.

  What the processor needs of its inspector is the locale \<open>request_inspector\<close>: a verdict
  that lets a request through implies a judgement \<open>admitted\<close>.  The engine provides it.
\<close>

lemma let_through_eq [simp]: "let_through = lets_through"
  by (simp add: fun_eq_iff let_through_def lets_through_def)

subsection \<open>One event\<close>

text \<open>An inspection of a request that let it through.\<close>

definition request_passed :: "'s inspector \<Rightarrow> http_message \<Rightarrow> verdict \<Rightarrow> 's \<Rightarrow> 's \<Rightarrow> bool" where
  "request_passed ins m vd s s' \<longleftrightarrow> in_request ins m s = (Inr vd, s') \<and> lets_through vd"

lemma inspect_stream_request_Inr:
  "inspect_stream_request ins m st = (Inr vd, st') \<Longrightarrow>
     \<exists>s'. in_request ins m (sm_engine st) = (Inr vd, s') \<and>
       st' = st\<lparr>sm_engine := s', sm_verdict := Some vd, sm_request_checked := True,
         sm_audit := sm_audit st @ [evidence_of vd ''request'' False]\<rparr>"
  by (auto simp: inspect_stream_request_def seq_Inr_iff call_engine_def record_audit_def
      split: prod.splits if_splits)

lemma immediate_Inr: "immediate vd = Inr (reply, fin) \<Longrightarrow> fin \<and> (\<exists>b. reply = Immediate (status_code vd) b)"
  by (auto simp: immediate_def rbind_Inr_iff)

text \<open>The state while the stream runs: an inspected request was let through.\<close>

definition stream_ok :: "'s stream \<Rightarrow> bool" where
  "stream_ok st \<longleftrightarrow>
     (sm_request_checked st \<longrightarrow> (\<exists>vd. sm_verdict st = Some vd \<and> lets_through vd \<and>
        evidence_of vd ''request'' False \<in> set (sm_audit st))) \<and>
     (sm_response_headers st \<noteq> None \<longrightarrow> sm_request_checked st)"

definition refusal_code :: "nat \<Rightarrow> bool" where
  "refusal_code c \<longleftrightarrow> c \<in> {400, 403, 428, 503}"

definition reply_ok :: "'s inspector \<Rightarrow> ext_reply \<Rightarrow> bool" where
  "reply_ok ins r \<longleftrightarrow>
     (case r of
        Pass_request_headers names \<Rightarrow> list_all reserved_header names
      | Pass_request_body b \<Rightarrow> (\<exists>m vd s s'. request_passed ins m vd s s' \<and> b = vd_body vd)
      | Pass_response_headers names \<Rightarrow>
          (\<exists>m s s'. in_metadata ins m s = (Inr (), s')) \<and> set names \<subseteq> {uni ''set-cookie''}
      | Pass_response_body b \<Rightarrow>
          (\<exists>p sc m vd s s'. in_response ins p sc m s = (Inr vd, s') \<and> lets_through vd \<and> b = vd_body vd)
      | Immediate code b \<Rightarrow> refusal_code code)"

lemma status_code_range [simp]: "refusal_code (status_code vd)"
  by (simp add: status_code_def refusal_code_def)

lemma request_headers_step:
  assumes "request_headers_event ins phs eos st = (Inr (reply, fin), st')"
  shows "reply_ok ins reply \<and> (fin \<longrightarrow> (\<exists>c b. reply = Immediate c b)) \<and>
    (\<not> fin \<longrightarrow> (stream_ok st \<longrightarrow> stream_ok st'))"
proof (cases eos)
  case False
  with assms show ?thesis
    by (auto simp: request_headers_event_def protocol_error_def seq_Inr_iff reply_ok_def remove_context_def
        stream_ok_def list_all_iff split: if_splits)
next
  case True
  with assms obtain hs st1 m vd st2 where
      st1: "st1 = st\<lparr>sm_request_headers := Some hs, sm_method := get_or hs (uni '':method'') [],
         sm_authority := get_or hs (uni '':authority'') (get_or hs (uni ''host'') []),
         sm_path := get_or hs (uni '':path'') []\<rparr>"
      and run: "inspect_stream_request ins m st1 = (Inr vd, st2)"
      and rest: "(if lets_through vd then ret (Pass_request_headers (remove_context hs), False)
           else lift_result (immediate vd)) st2 = (Inr (reply, fin), st')"
    by (auto simp: request_headers_event_def protocol_error_def seq_Inr_iff split: if_splits)
  show ?thesis
    using inspect_stream_request_Inr [OF run] rest
    by (auto simp: reply_ok_def remove_context_def stream_ok_def list_all_iff st1
        split: if_splits dest!: immediate_Inr)
qed

lemma request_body_step:
  assumes "request_body_event ins body eos st = (Inr (reply, fin), st')"
  shows "reply_ok ins reply \<and> (fin \<longrightarrow> (\<exists>c b. reply = Immediate c b)) \<and>
    (\<not> fin \<longrightarrow> (stream_ok st \<longrightarrow> stream_ok st'))"
proof -
  from assms obtain hs vd st2 where
      run: "inspect_stream_request ins (stream_message st hs body eos) st = (Inr vd, st2)"
      and rest: "(if lets_through vd then ret (Pass_request_body (vd_body vd), False)
           else lift_result (immediate vd)) st2 = (Inr (reply, fin), st')"
    by (auto simp: request_body_event_def protocol_error_def seq_Inr_iff split: if_splits option.splits)
  obtain s' where s': "in_request ins (stream_message st hs body eos) (sm_engine st) = (Inr vd, s')"
      and st2: "st2 = st\<lparr>sm_engine := s', sm_verdict := Some vd, sm_request_checked := True,
         sm_audit := sm_audit st @ [evidence_of vd ''request'' False]\<rparr>"
    using inspect_stream_request_Inr [OF run] by blast
  show ?thesis
  proof (cases "lets_through vd")
    case True
    then have "request_passed ins (stream_message st hs body eos) vd (sm_engine st) s'"
      using s' by (simp add: request_passed_def)
    then have "reply_ok ins (Pass_request_body (vd_body vd))" by (auto simp: reply_ok_def)
    with True rest st2 show ?thesis by (auto simp: stream_ok_def)
  next
    case False
    with rest show ?thesis
      by (auto simp: reply_ok_def dest!: immediate_Inr)
  qed
qed

lemma response_headers_step:
  assumes "response_headers_event ins phs eos st = (Inr (reply, fin), st')"
  shows "reply_ok ins reply \<and> \<not> fin \<and> (stream_ok st \<longrightarrow> stream_ok st')"
proof -
  from assms obtain d hs s s' where rq: "sm_request_checked st"
      and meta: "in_metadata ins (stream_message st hs [] True) s = (Inr (), s')"
      and reply: "reply = Pass_response_headers (if d then [uni ''set-cookie''] else [])" "\<not> fin"
      and st': "st' = (if eos then (st\<lparr>sm_response_headers := Some hs, sm_engine := s'\<rparr>)\<lparr>sm_response_checked := True\<rparr>
        else st\<lparr>sm_response_headers := Some hs, sm_engine := s'\<rparr>)"
    by (auto simp: response_headers_event_def protocol_error_def seq_Inr_iff call_engine_def
        split: if_splits prod.splits)
  then show ?thesis by (auto simp: reply_ok_def stream_ok_def)
qed

lemma response_body_step:
  assumes "response_body_event ins body eos st = (Inr (reply, fin), st')"
  shows "reply_ok ins reply \<and> (fin \<longrightarrow> (\<exists>c b. reply = Immediate c b)) \<and>
    (\<not> fin \<longrightarrow> (stream_ok st \<longrightarrow> stream_ok st'))"
proof -
  from assms obtain hs p sc vd s s' st2 where
      run: "in_response ins p sc (stream_message st hs body eos) s = (Inr vd, s')"
      and st2: "st2 = st\<lparr>sm_engine := s', sm_audit := sm_audit st @ [evidence_of vd ''response'' False],
         sm_response_checked := True\<rparr>"
      and rest: "(if lets_through vd then ret (Pass_response_body (vd_body vd), False)
           else lift_result (immediate vd)) st2 = (Inr (reply, fin), st')"
    by (auto simp: response_body_event_def protocol_error_def seq_Inr_iff call_engine_def record_audit_def
        split: if_splits option.splits prod.splits)
  show ?thesis
  proof (cases "lets_through vd")
    case True
    with run have "reply_ok ins (Pass_response_body (vd_body vd))"
      unfolding reply_ok_def ext_reply.case by blast
    with True rest st2 show ?thesis by (auto simp: stream_ok_def)
  next
    case False
    with rest show ?thesis
      by (auto simp: reply_ok_def dest!: immediate_Inr)
  qed
qed

lemma process_event_step:
  assumes "process_event ins ev st = (Inr (reply, fin), st')"
  shows "reply_ok ins reply \<and> (fin \<longrightarrow> (\<exists>c b. reply = Immediate c b)) \<and>
    (\<not> fin \<longrightarrow> (stream_ok st \<longrightarrow> stream_ok st'))"
proof (cases ev)
  case (Request_headers hs eos)
  with assms show ?thesis using request_headers_step by simp
next
  case (Request_body b eos)
  with assms show ?thesis using request_body_step by simp
next
  case (Response_headers hs eos)
  with assms show ?thesis using response_headers_step [of ins hs eos st reply fin st'] by simp
next
  case (Response_body b eos)
  with assms show ?thesis using response_body_step by simp
qed (use assms in simp_all)

subsection \<open>A whole stream\<close>

lemma handle_exception_ok:
  assumes "handle_exception ins e st = (replies, fin, st')"
  shows "list_all (reply_ok ins) replies \<and> (fin = Clean \<longrightarrow> (\<exists>c b. replies = [Immediate c b]))"
  using assms
  by (auto simp: handle_exception_def Let_def reply_ok_def seq_app record_audit_def
      split: exn.splits sum.splits prod.splits if_splits dest!: immediate_Inr
     )

lemma process_events_ok:
  assumes "stream_ok st" and "process_events ins evs st = (replies, fin, st')"
  shows "list_all (reply_ok ins) replies \<and>
    (fin = Clean \<longrightarrow> (\<exists>c b. replies \<noteq> [] \<and> last replies = Immediate c b) \<or>
       stream_ok st' \<and> sm_request_checked st' \<and> sm_response_checked st')"
  using assms
proof (induction evs arbitrary: st replies)
  case Nil
  then show ?case by (auto split: if_splits)
next
  case (Cons ev evs)
  obtain r st1 where step: "process_event ins ev st = (r, st1)" by fastforce
  show ?case
  proof (cases r)
    case (Inl e)
    with step Cons.prems(2) have "handle_exception ins e st1 = (replies, fin, st')" by simp
    from handle_exception_ok [OF this] show ?thesis by auto
  next
    case (Inr rf)
    obtain reply done_now where rf: "rf = (reply, done_now)" by fastforce
    have ok: "reply_ok ins reply \<and> (done_now \<longrightarrow> (\<exists>c b. reply = Immediate c b)) \<and>
        (\<not> done_now \<longrightarrow> (stream_ok st \<longrightarrow> stream_ok st1))"
      using process_event_step step Inr rf by blast
    show ?thesis
    proof (cases done_now)
      case True
      with step Inr rf Cons.prems(2) have "replies = [reply]" by simp
      with ok True show ?thesis by auto
    next
      case False
      with step Inr rf Cons.prems(2) obtain rest where
          rest: "process_events ins evs st1 = (rest, fin, st')" and replies: "replies = reply # rest"
        by (auto split: prod.splits)
      have "stream_ok st1" using ok False Cons.prems(1) by blast
      from Cons.IH [OF this rest] ok replies show ?thesis by auto
    qed
  qed
qed

lemma stream_start_ok: "stream_ok (stream_start s)"
  by (simp add: stream_ok_def stream_start_def)

subsection \<open>The messages of a stream\<close>

text \<open>What the proxy has sent of a request and of its response, and the message it stands for.\<close>

fun request_heads :: "ext_event list \<Rightarrow> proto_header list list" where
  "request_heads [] = []"
| "request_heads (Request_headers phs eos # evs) = phs # request_heads evs"
| "request_heads (ev # evs) = request_heads evs"

fun response_heads :: "ext_event list \<Rightarrow> proto_header list list" where
  "response_heads [] = []"
| "response_heads (Response_headers phs eos # evs) = phs # response_heads evs"
| "response_heads (ev # evs) = response_heads evs"

definition message_of :: "proto_header list \<Rightarrow> bytes \<Rightarrow> bool \<Rightarrow> http_message \<Rightarrow> bool" where
  "message_of phs body whole m \<longleftrightarrow>
     (\<exists>hs. proto_headers phs = Inr hs \<and>
        m = \<lparr>hm_method = get_or hs (uni '':method'') [], hm_authority = get_or hs (uni '':authority'') (get_or hs (uni ''host'') []),
             hm_path = get_or hs (uni '':path'') [], hm_headers = hs, hm_body = body, hm_complete = whole\<rparr>)"

text \<open>A response belongs to the request; its cookies may have been dropped.\<close>

definition response_of ::
  "proto_header list \<Rightarrow> proto_header list \<Rightarrow> bytes \<Rightarrow> bool \<Rightarrow> http_message \<Rightarrow> bool" where
  "response_of phs rhs body whole m \<longleftrightarrow>
     (\<exists>q hs. message_of phs [] True q \<and>
        (proto_headers rhs = Inr hs \<or> proto_headers (filter (\<lambda>h. py_lower (ph_key h) \<noteq> uni ''set-cookie'') rhs) = Inr hs) \<and>
        m = q\<lparr>hm_headers := hs, hm_body := body, hm_complete := whole\<rparr>)"

lemma heads_append [simp]:
  "request_heads (evs @ evs') = request_heads evs @ request_heads evs'"
  "response_heads (evs @ evs') = response_heads evs @ response_heads evs'"
  by (induction evs rule: request_heads.induct) auto

text \<open>The events that the processor has taken, up to a state in which the stream goes on.\<close>

inductive stream_runs :: "'s inspector \<Rightarrow> 's stream \<Rightarrow> ext_event list \<Rightarrow> 's stream \<Rightarrow> bool" for ins and st0 where
  begun: "stream_runs ins st0 [] st0"
| taken: "stream_runs ins st0 evs st \<Longrightarrow> process_event ins ev st = (Inr (reply, False), st') \<Longrightarrow>
    stream_runs ins st0 (evs @ [ev]) st'"

lemma stream_runs_Cons:
  "stream_runs ins st1 evs st2 \<Longrightarrow> process_event ins ev st0 = (Inr (reply, False), st1) \<Longrightarrow> stream_runs ins st0 (ev # evs) st2"
proof (induction rule: stream_runs.induct)
  case begun
  then show ?case using taken [OF stream_runs.begun] by fastforce
next
  case (taken evs st ev' reply' st')
  then show ?case using stream_runs.taken [of ins st0 "ev # evs"] by simp
qed

lemma handle_exception_replies:
  "handle_exception ins e st = (replies, fin, st') \<Longrightarrow> reply \<in> set replies \<Longrightarrow>
     \<exists>c b why. reply = Immediate c b \<and> e = Inspection why \<and>
       immediate ((new_verdict V_block why Inline)\<lparr>vd_coverage := ''incomplete''\<rparr>) = Inr (Immediate c b, True)"
  by (auto simp: handle_exception_def Let_def immediate_def rbind_Inr_iff seq_app record_audit_def
      split: exn.splits sum.splits prod.splits if_splits)

lemma reply_at:
  "process_events ins evs st = (replies, fin, st') \<Longrightarrow> i < length replies \<Longrightarrow>
     \<exists>st1. i < length evs \<and> stream_runs ins st (take i evs) st1 \<and>
       ((\<exists>d st2. process_event ins (evs ! i) st1 = (Inr (replies ! i, d), st2)) \<or>
        (\<exists>c b why st2. replies ! i = Immediate c b \<and> process_event ins (evs ! i) st1 = (Inl (Inspection why), st2) \<and>
           immediate ((new_verdict V_block why Inline)\<lparr>vd_coverage := ''incomplete''\<rparr>) = Inr (Immediate c b, True)))"
proof (induction evs arbitrary: st replies i)
  case Nil
  then show ?case by (auto split: if_splits)
next
  case (Cons ev evs)
  obtain r st1 where step: "process_event ins ev st = (r, st1)" by fastforce
  show ?case
  proof (cases r)
    case (Inl e)
    with step Cons.prems(1) have h: "handle_exception ins e st1 = (replies, fin, st')" by simp
    have "length replies \<le> 1" using h
      by (auto simp: handle_exception_def Let_def split: exn.splits sum.splits prod.splits)
    then have "i = 0" using Cons.prems(2) by simp
    then show ?thesis
      using handle_exception_replies [OF h nth_mem [OF Cons.prems(2)]] step Inl stream_runs.begun by fastforce
  next
    case (Inr rf)
    obtain reply done_now where rf: "rf = (reply, done_now)" by fastforce
    obtain rest where replies: "replies = reply # rest"
        and rest: "\<not> done_now \<Longrightarrow> process_events ins evs st1 = (rest, fin, st')" "done_now \<Longrightarrow> rest = []"
      using step Inr rf Cons.prems(1) by (cases done_now) (auto split: prod.splits)
    show ?thesis
    proof (cases i)
      case 0
      then show ?thesis using step Inr rf replies stream_runs.begun by fastforce
    next
      case (Suc j)
      then have go: "\<not> done_now" "j < length rest" using Cons.prems(2) replies rest(2) by auto
      from Cons.IH [OF rest(1) [OF go(1)] go(2)] obtain st2 where
          "j < length evs" "stream_runs ins st1 (take j evs) st2" and
          at: "(\<exists>d st3. process_event ins (evs ! j) st2 = (Inr (rest ! j, d), st3)) \<or>
            (\<exists>c b why st3. rest ! j = Immediate c b \<and> process_event ins (evs ! j) st2 = (Inl (Inspection why), st3) \<and>
               immediate ((new_verdict V_block why Inline)\<lparr>vd_coverage := ''incomplete''\<rparr>) = Inr (Immediate c b, True))"
        by blast
      moreover have "stream_runs ins st (ev # take j evs) st2"
        using calculation(2) step Inr rf go(1) stream_runs_Cons by fastforce
      ultimately show ?thesis using Suc replies by auto
    qed
  qed
qed

text \<open>The state of a stream agrees with what was sent.\<close>

definition agrees :: "ext_event list \<Rightarrow> 's stream \<Rightarrow> bool" where
  "agrees evs st \<longleftrightarrow>
     (case sm_request_headers st of
        None \<Rightarrow> request_heads evs = []
      | Some hs \<Rightarrow> \<exists>phs. request_heads evs = [phs] \<and> (\<forall>body whole. message_of phs body whole (stream_message st hs body whole))) \<and>
     (case sm_response_headers st of
        None \<Rightarrow> response_heads evs = []
      | Some hs \<Rightarrow> \<exists>phs rhs. request_heads evs = [phs] \<and> response_heads evs = [rhs] \<and>
          (\<forall>body whole. response_of phs rhs body whole (stream_message st hs body whole))) \<and>
     (sm_request_checked st \<longrightarrow> sm_request_headers st \<noteq> None)"

lemma agrees_start: "agrees [] (stream_start s)"
  by (simp add: agrees_def stream_start_def)

text \<open>The parts of the state that \<open>agrees\<close> looks at.\<close>

definition same_heads :: "'s stream \<Rightarrow> 's stream \<Rightarrow> bool" where
  "same_heads st st' \<longleftrightarrow> sm_request_headers st' = sm_request_headers st \<and> sm_response_headers st' = sm_response_headers st \<and>
     sm_method st' = sm_method st \<and> sm_authority st' = sm_authority st \<and> sm_path st' = sm_path st"

lemma stream_message_same: "same_heads st st' \<Longrightarrow> stream_message st' = stream_message st"
  by (simp add: same_heads_def stream_message_def fun_eq_iff)

lemma agrees_same:
  assumes "agrees evs st" and "same_heads st st'" and "sm_request_headers st \<noteq> None"
    and "request_heads (evs @ [ev]) = request_heads evs" and "response_heads (evs @ [ev]) = response_heads evs"
  shows "agrees (evs @ [ev]) st'"
  unfolding agrees_def
  using assms(1,3-5) stream_message_same [OF assms(2)] assms(2)
  by (auto simp: agrees_def same_heads_def split: option.splits)

lemma inspect_same: "inspect_stream_request ins m st = (Inr vd, st') \<Longrightarrow> same_heads st st'"
  using inspect_stream_request_Inr by (fastforce simp: same_heads_def)

lemma request_headers_agrees:
  assumes "request_headers_event ins phs eos st = (Inr (reply, d), st')" and "agrees evs st"
  shows "agrees (evs @ [Request_headers phs eos]) st'"
proof -
  obtain hs where none: "sm_request_headers st = None" and hs: "proto_headers phs = Inr hs"
    using assms(1) by (auto simp: request_headers_event_def protocol_error_def seq_Inr_iff split: if_splits)
  define st1 where "st1 = st\<lparr>sm_request_headers := Some hs, sm_method := get_or hs (uni '':method'') [],
       sm_authority := get_or hs (uni '':authority'') (get_or hs (uni ''host'') []), sm_path := get_or hs (uni '':path'') []\<rparr>"
  have heads: "request_heads evs = []" "sm_response_headers st = None" "response_heads evs = []"
    using assms(2) none by (auto simp: agrees_def split: option.splits)
  have "same_heads st1 st'"
    using assms(1) none hs inspect_same
    by (auto simp: request_headers_event_def seq_Inr_iff st1_def [symmetric] split: if_splits)
      (auto simp: same_heads_def dest!: inspect_same)
  moreover have "message_of phs body whole (stream_message st1 hs body whole)" for body whole
    by (simp add: message_of_def hs stream_message_def st1_def)
  moreover have "sm_request_headers st1 = Some hs" "sm_response_headers st1 = None" by (simp_all add: st1_def heads)
  ultimately show ?thesis
    using heads stream_message_same [of st1 st'] by (simp add: agrees_def same_heads_def)
qed

lemma request_body_Inr:
  assumes "request_body_event ins body eos st = (Inr (reply, d), st')"
  shows "\<exists>hs vd. sm_request_headers st = Some hs \<and> same_heads st st' \<and>
    (\<exists>s'. in_request ins (stream_message st hs body eos) (sm_engine st) = (Inr vd, s')) \<and>
    (\<forall>b. reply = Pass_request_body b \<longrightarrow> lets_through vd \<and> b = vd_body vd)"
proof -
  obtain hs where hs: "sm_request_headers st = Some hs"
    using assms by (auto simp: request_body_event_def protocol_error_def seq_Inr_iff split: option.splits)
  then obtain vd st2 where run: "inspect_stream_request ins (stream_message st hs body eos) st = (Inr vd, st2)"
    and rest: "(if lets_through vd then ret (Pass_request_body (vd_body vd), False) else lift_result (immediate vd)) st2 =
      (Inr (reply, d), st')"
    using assms by (auto simp: request_body_event_def protocol_error_def seq_Inr_iff split: if_splits)
  have "st' = st2" using rest by (auto split: if_splits)
  then show ?thesis
    using hs inspect_same [OF run] inspect_stream_request_Inr [OF run] rest
    by (auto split: if_splits dest!: immediate_Inr)
qed

lemma response_headers_agrees:
  assumes "response_headers_event ins rhs eos st = (Inr (reply, d), st')" and "agrees evs st"
  shows "agrees (evs @ [Response_headers rhs eos]) st'"
proof -
  obtain hs where ok: "sm_request_checked st" "sm_response_headers st = None"
      and hs: "proto_headers rhs = Inr hs \<or> proto_headers (filter (\<lambda>h. py_lower (ph_key h) \<noteq> uni ''set-cookie'') rhs) = Inr hs"
      and st': "same_heads (st\<lparr>sm_response_headers := Some hs\<rparr>) st'"
    using assms(1)
    by (auto simp: response_headers_event_def protocol_error_def seq_Inr_iff call_engine_def same_heads_def
        split: if_splits prod.splits)
  obtain hs0 phs where req: "sm_request_headers st = Some hs0" "request_heads evs = [phs]"
      and msg: "\<And>body whole. message_of phs body whole (stream_message st hs0 body whole)"
    using assms(2) ok by (auto simp: agrees_def)
  have "response_heads evs = []" using assms(2) ok(2) by (simp add: agrees_def)
  moreover have "response_of phs rhs body whole (stream_message st hs body whole)" for body whole
    unfolding response_of_def using msg [of "[]" True] hs
    by (intro exI [of _ "stream_message st hs0 [] True"] exI [of _ hs])
      (auto simp: stream_message_def split: if_splits)
  moreover have "stream_message st' = stream_message st"
    using st' by (simp add: same_heads_def stream_message_def fun_eq_iff)
  ultimately show ?thesis
    using req msg st' by (simp add: agrees_def same_heads_def)
qed

lemma response_body_Inr:
  assumes "response_body_event ins body eos st = (Inr (reply, d), st')"
  shows "\<exists>hs p sc vd s s'. sm_response_headers st = Some hs \<and> same_heads st st' \<and>
    in_response ins p sc (stream_message st hs body eos) s = (Inr vd, s') \<and>
    (\<forall>b. reply = Pass_response_body b \<longrightarrow> lets_through vd \<and> b = vd_body vd)"
proof -
  obtain hs p sc vd s s' st2 where hs: "sm_response_headers st = Some hs"
      and run: "in_response ins p sc (stream_message st hs body eos) s = (Inr vd, s')"
      and st2: "st2 = st\<lparr>sm_engine := s', sm_audit := sm_audit st @ [evidence_of vd ''response'' False],
         sm_response_checked := True\<rparr>"
      and rest: "(if lets_through vd then ret (Pass_response_body (vd_body vd), False)
           else lift_result (immediate vd)) st2 = (Inr (reply, d), st')"
    using assms
    by (auto simp: response_body_event_def protocol_error_def seq_Inr_iff call_engine_def record_audit_def
        split: if_splits option.splits prod.splits)
  have same: "same_heads st st2" by (simp add: same_heads_def st2)
  have "st' = st2" using rest by (auto split: if_splits)
  then show ?thesis
    using hs run same rest by (fastforce split: if_splits dest!: immediate_Inr)
qed

lemma process_event_agrees:
  assumes "process_event ins ev st = (Inr (reply, d), st')" and "agrees evs st"
  shows "agrees (evs @ [ev]) st'"
proof (cases ev)
  case (Request_headers phs eos)
  with assms show ?thesis using request_headers_agrees by simp
next
  case (Request_body body eos)
  with assms request_body_Inr [of ins body eos st reply d st'] show ?thesis
    by (auto intro!: agrees_same [OF assms(2)])
next
  case (Response_headers rhs eos)
  with assms show ?thesis using response_headers_agrees [of ins rhs eos st reply d st'] by simp
next
  case (Response_body body eos)
  with assms obtain hs where "sm_response_headers st = Some hs" "same_heads st st'"
    using response_body_Inr [of ins body eos st reply d st'] by auto
  moreover from this have "sm_request_headers st \<noteq> None" using assms(2) by (auto simp: agrees_def split: option.splits)
  ultimately show ?thesis using Response_body by (intro agrees_same [OF assms(2)]) simp_all
qed (use assms in simp_all)

text \<open>A reply that passes something answers an event of that kind.\<close>

lemma process_event_kind:
  "process_event ins ev st = (Inr (reply, d), st') \<Longrightarrow>
     (\<forall>b. reply = Pass_request_body b \<longrightarrow> (\<exists>body eos. ev = Request_body body eos)) \<and>
     (\<forall>b. reply = Pass_response_body b \<longrightarrow> (\<exists>body eos. ev = Response_body body eos))"
  by (cases ev)
    (auto simp: request_headers_event_def request_body_event_def response_headers_event_def response_body_event_def
      protocol_error_def seq_Inr_iff split: if_splits option.splits dest!: immediate_Inr)

lemma stream_runs_agrees: "stream_runs ins (stream_start s) evs st \<Longrightarrow> agrees evs st"
  by (induction rule: stream_runs.induct) (auto simp: agrees_start dest: process_event_agrees)

text \<open>What was inspected for a reply is the message the proxy had sent up to then.\<close>

lemma request_body_at:
  assumes "process ins evs s = (replies, fin, st)" and "i < length replies" and "replies ! i = Pass_request_body b"
  shows "\<exists>phs body whole m vd t t'. request_heads (take i evs) = [phs] \<and> evs ! i = Request_body body whole \<and>
    message_of phs body whole m \<and> request_passed ins m vd t t' \<and> b = vd_body vd"
proof -
  obtain st1 d st2 where runs: "stream_runs ins (stream_start s) (take i evs) st1"
    and step: "process_event ins (evs ! i) st1 = (Inr (Pass_request_body b, d), st2)"
    using reply_at [OF assms(1) [unfolded process_def] assms(2)] assms(3) by auto
  have agr: "agrees (take i evs) st1" using stream_runs_agrees [OF runs] .
  obtain body eos where ev: "evs ! i = Request_body body eos"
    using process_event_kind [OF step] by (cases "evs ! i") auto
  obtain hs vd s' where "sm_request_headers st1 = Some hs" "lets_through vd" "b = vd_body vd"
      "in_request ins (stream_message st1 hs body eos) (sm_engine st1) = (Inr vd, s')"
    using request_body_Inr [OF step [unfolded ev process_event.simps]] by auto
  then show ?thesis using agr ev unfolding agrees_def request_passed_def by fastforce
qed

lemma request_headers_at:
  assumes "process ins evs s = (replies, fin, st)" and "i < length replies"
    and "evs ! i = Request_headers phs True" and "replies ! i = Pass_request_headers names"
  shows "\<exists>m vd t t'. message_of phs [] True m \<and> request_passed ins m vd t t'"
proof -
  obtain st1 d st2 where
    step: "request_headers_event ins phs True st1 = (Inr (Pass_request_headers names, d), st2)"
    using reply_at [OF assms(1) [unfolded process_def] assms(2)] assms(3,4) by auto
  then obtain hs st3 vd st4 where hs: "proto_headers phs = Inr hs"
      and st3: "st3 = st1\<lparr>sm_request_headers := Some hs, sm_method := get_or hs (uni '':method'') [],
         sm_authority := get_or hs (uni '':authority'') (get_or hs (uni ''host'') []),
         sm_path := get_or hs (uni '':path'') []\<rparr>"
      and run: "inspect_stream_request ins (stream_message st3 hs [] True) st3 = (Inr vd, st4)" and "lets_through vd"
    by (auto simp: request_headers_event_def protocol_error_def seq_Inr_iff split: if_splits dest!: immediate_Inr)
  moreover have "message_of phs [] True (stream_message st3 hs [] True)"
    by (simp add: message_of_def hs stream_message_def st3)
  ultimately show ?thesis
    using inspect_stream_request_Inr [OF run] unfolding request_passed_def by blast
qed

lemma response_body_at:
  assumes "process ins evs s = (replies, fin, st)" and "i < length replies" and "replies ! i = Pass_response_body b"
  shows "\<exists>phs rhs body whole m p sc vd t t'. request_heads (take i evs) = [phs] \<and> response_heads (take i evs) = [rhs] \<and>
    evs ! i = Response_body body whole \<and> response_of phs rhs body whole m \<and>
    in_response ins p sc m t = (Inr vd, t') \<and> lets_through vd \<and> b = vd_body vd"
proof -
  obtain st1 d st2 where runs: "stream_runs ins (stream_start s) (take i evs) st1"
    and step: "process_event ins (evs ! i) st1 = (Inr (Pass_response_body b, d), st2)"
    using reply_at [OF assms(1) [unfolded process_def] assms(2)] assms(3) by auto
  have agr: "agrees (take i evs) st1" using stream_runs_agrees [OF runs] .
  obtain body eos where ev: "evs ! i = Response_body body eos"
    using process_event_kind [OF step] by (cases "evs ! i") auto
  obtain hs p sc vd t t' where "sm_response_headers st1 = Some hs" "lets_through vd" "b = vd_body vd"
      "in_response ins p sc (stream_message st1 hs body eos) t = (Inr vd, t')"
    using response_body_Inr [OF step [unfolded ev process_event.simps]] by auto
  then show ?thesis using agr ev unfolding agrees_def by fastforce
qed

subsection \<open>The interface to the engine\<close>

locale request_inspector =
  fixes ins :: "'s inspector"
    and admitted :: "http_message \<Rightarrow> verdict \<Rightarrow> 's \<Rightarrow> 's \<Rightarrow> bool"
  assumes sound: "in_request ins m s = (Inr vd, s') \<Longrightarrow> lets_through vd \<Longrightarrow> admitted m vd s s'"
begin

lemma passed_body_admitted:
  assumes "process ins evs s = (replies, fin, st)" and "i < length replies" and "replies ! i = Pass_request_body b"
  shows "\<exists>phs body whole m vd t t'. request_heads (take i evs) = [phs] \<and> evs ! i = Request_body body whole \<and>
    message_of phs body whole m \<and> admitted m vd t t' \<and> b = vd_body vd"
  using request_body_at [OF assms] sound unfolding request_passed_def by metis

lemma passed_headers_admitted:
  assumes "process ins evs s = (replies, fin, st)" and "i < length replies"
    and "evs ! i = Request_headers phs True" and "replies ! i = Pass_request_headers names"
  shows "\<exists>m vd t t'. message_of phs [] True m \<and> admitted m vd t t'"
  using request_headers_at [OF assms] sound unfolding request_passed_def by metis

end

definition request_admitted ::
  "engine_env \<Rightarrow> http_message \<Rightarrow> verdict \<Rightarrow> engine_state \<Rightarrow> engine_state \<Rightarrow> bool" where
  "request_admitted env m vd s s' \<longleftrightarrow>
     (\<exists>sd. content_admitted env m sd \<and> redaction_admitted env m sd vd \<and> authority_admitted env m sd vd s s')"

interpretation engine: request_inspector "engine_inspector env audit_ok" "request_admitted env" for env audit_ok
proof
  fix m s vd s'
  assume "in_request (engine_inspector env audit_ok) m s = (Inr vd, s')" and "lets_through vd"
  then show "request_admitted env m vd s s'"
    unfolding request_admitted_def
    by (intro inline_forward) (auto simp: engine_inspector_def split: prod.splits)
qed

end
