(* ===== verification/Providers.thy ===== *)
theory Providers
  imports Contracts
begin

text \<open>
  \<open>selfhost/providers.py\<close>: the profiles of the native model providers, the routes and the
  target credentials a profile generates, and the separation of the caller's credential from
  the headers that are forwarded (\<open>gateway_headers\<close>).  The routes are the records pydantic
  makes of the dictionaries of the source, with the defaults of \<open>RouteRule\<close> and \<open>ToolRule\<close>.
\<close>

subsection \<open>Character classes of the regular expressions\<close>

definition is_alnum :: "nat \<Rightarrow> bool" where
  "is_alnum c \<longleftrightarrow> is_alpha c \<or> is_digit c"

definition class_match :: "(nat \<Rightarrow> bool) \<Rightarrow> nat \<Rightarrow> nat \<Rightarrow> pystr \<Rightarrow> bool" where
  "class_match p lo hi s \<longleftrightarrow> lo \<le> length s \<and> length s \<le> hi \<and> list_all p s"

definition any_of :: "string \<Rightarrow> nat \<Rightarrow> bool" where
  "any_of cs c \<longleftrightarrow> c \<in> set (uni cs)"

text \<open>\<open>s.split()\<close>: the runs of characters that are not white space.\<close>

fun py_words :: "pystr \<Rightarrow> pystr list" where
  "py_words [] = []"
| "py_words (c # s) =
     (if is_space c then py_words s
      else case s of
        [] \<Rightarrow> [[c]]
      | d # _ \<Rightarrow> if is_space d then [c] # py_words s
                 else (case py_words s of [] \<Rightarrow> [[c]] | w # ws \<Rightarrow> (c # w) # ws))"

subsection \<open>Profiles\<close>

definition ORIGINS :: "llm_provider \<Rightarrow> pystr" where
  "ORIGINS p = uni (case p of
     Openai \<Rightarrow> ''https://api.openai.com'' | Anthropic \<Rightarrow> ''https://api.anthropic.com''
   | Google \<Rightarrow> ''https://generativelanguage.googleapis.com'' | Openrouter \<Rightarrow> ''https://openrouter.ai'')"

definition SDK_HEADERS :: "pystr list" where
  "SDK_HEADERS = [uni ''authorization'', uni ''x-api-key'', uni ''x-goog-api-key'', uni ''x-td-client-key'']"

record provider_profile =
  pp_provider :: llm_provider
  pp_models :: "pystr list"
  pp_timeout_seconds :: nat

definition model_char :: "nat \<Rightarrow> bool" where
  "model_char c \<longleftrightarrow> is_alnum c \<or> any_of ''._/-'' c"

definition model_name_ok :: "pystr \<Rightarrow> bool" where
  "model_name_ok s \<longleftrightarrow>
     (case s of [] \<Rightarrow> False | c # r \<Rightarrow> is_alnum c \<and> class_match model_char 0 127 r) \<and>
     \<not> contains_sub s (uni ''..'') \<and> \<not> contains_sub s (uni ''//'')"

definition validate_models :: "provider_profile \<Rightarrow> unit result" where
  "validate_models p =
     (if \<not> (1 \<le> length (pp_models p) \<and> length (pp_models p) \<le> 20 \<and>
          10 \<le> pp_timeout_seconds p \<and> pp_timeout_seconds p \<le> 300)
      then Inl (Value_error ''field_constraint'')
      else if \<not> distinct (pp_models p) \<or> \<not> list_all model_name_ok (pp_models p)
      then Inl (Value_error ''Configure unique explicit model identifiers'')
      else if pp_provider p = Google \<and> list_ex (\<lambda>m. 47 \<in> set m) (pp_models p)
      then Inl (Value_error ''Gemini models use bare model names'')
      else Inr ())"

definition default_mcp_versions :: "pystr list" where
  "default_mcp_versions = [uni ''2025-03-26'', uni ''2025-06-18'', uni ''2025-11-25'', uni ''2026-07-28'']"

definition provider_authority :: "llm_provider \<Rightarrow> pystr" where
  "provider_authority p = drop (length (uni ''https://'')) (ORIGINS p)"

definition provider_route ::
  "provider_profile \<Rightarrow> pystr \<Rightarrow> string \<Rightarrow> string list \<Rightarrow> pystr option \<Rightarrow> route_rule" where
  "provider_route p path tool redacted resource =
     \<lparr>rr_authority = provider_authority (pp_provider p), rr_path = path, rr_method = uni ''POST'',
      rr_required_headers = [], rr_protocol = Http, rr_pii_action = None,
      rr_mcp_versions = default_mcp_versions, rr_tool = uni tool,
      rr_rule = Some
        \<lparr>tr_action = uni ''invoke'', tr_effect = Allow_rule, tr_pii_action = None, tr_resource = resource,
         tr_resource_pointer = (if resource = None then Some (uni ''/model'') else None),
         tr_header_parameters = []\<rparr>,
      rr_tools = [], rr_llm_provider = Some (pp_provider p), rr_allowed_models = pp_models p,
      rr_redact_fields = map uni redacted\<rparr>"

definition chat_fields :: "string list" where
  "chat_fields = [''/messages/*/content'', ''/messages/*/content/*/text'',
     ''/messages/*/tool_calls/*/function/arguments'', ''/messages/*/function_call/arguments'']"

definition gemini_route :: "provider_profile \<Rightarrow> pystr \<Rightarrow> string \<Rightarrow> route_rule" where
  "gemini_route p model meth =
     provider_route p (uni ''/v1beta/models/'' @ model @ uni '':'' @ uni meth) ''llm.generate''
       [''/contents/*/parts/*/text'', ''/systemInstruction/parts/*/text''] (Some model)"

definition provider_routes :: "provider_profile \<Rightarrow> route_rule list" where
  "provider_routes p =
     (case pp_provider p of
        Openai \<Rightarrow>
          [provider_route p (uni ''/v1/chat/completions'') ''llm.chat'' chat_fields None,
           provider_route p (uni ''/v1/responses'') ''llm.responses''
             [''/input'', ''/instructions'', ''/input/*/content'', ''/input/*/content/*/text'',
              ''/input/*/arguments'', ''/input/*/output''] None]
      | Anthropic \<Rightarrow>
          [provider_route p (uni ''/v1/messages'') ''llm.messages''
             [''/system'', ''/system/*/text'', ''/messages/*/content'', ''/messages/*/content/*/text'',
              ''/messages/*/content/*/content'', ''/messages/*/content/*/content/*/text''] None]
      | Openrouter \<Rightarrow> [provider_route p (uni ''/api/v1/chat/completions'') ''llm.chat'' chat_fields None]
      | Google \<Rightarrow>
          provider_route p (uni ''/v1beta/openai/chat/completions'') ''llm.chat'' chat_fields None #
          concat (map (\<lambda>model. map (gemini_route p model) [''generateContent'', ''streamGenerateContent''])
            (pp_models p)))"

subsection \<open>The caller's credential\<close>

datatype gateway_mode = Mode_client_key | Mode_agent_key | Mode_jwt

definition credential_slots :: "llm_provider \<Rightarrow> pystr list" where
  "credential_slots p =
     [uni ''authorization'', uni ''x-td-client-key''] @
     (if p = Anthropic then [uni ''x-api-key''] else []) @
     (if p = Google then [uni ''x-goog-api-key''] else [])"

definition sdk_values :: "(pystr, pystr) dict \<Rightarrow> (pystr \<times> pystr) list" where
  "sdk_values hs =
     concat (map (\<lambda>k. case map_of hs k of None \<Rightarrow> [] | Some v \<Rightarrow> if v = [] then [] else [(k, v)]) SDK_HEADERS)"

definition without_sdk :: "(pystr, pystr) dict \<Rightarrow> (pystr, pystr) dict" where
  "without_sdk hs = filter (\<lambda>(k, v). k \<notin> set SDK_HEADERS) hs"

definition gateway_credential :: "pystr \<Rightarrow> pystr \<Rightarrow> pystr result" where
  "gateway_credential name credential =
     (if name \<noteq> uni ''authorization'' then Inr credential
      else if \<not> startswith credential (uni ''Bearer '') \<or> length (py_words credential) \<noteq> 2
      then Inl (Value_error ''invalid_gateway_credential'')
      else Inr (drop 7 credential))"

definition admission_slot :: "gateway_mode \<Rightarrow> pystr \<Rightarrow> pystr \<times> pystr" where
  "admission_slot mode c =
     (if mode = Mode_client_key then (uni ''x-td-client-key'', c) else (uni ''authorization'', uni ''Bearer '' @ c))"

definition gateway_headers ::
  "(pystr, pystr) dict \<Rightarrow> provider_profile \<Rightarrow> gateway_mode
     \<Rightarrow> ((pystr, pystr) dict \<times> (pystr, pystr) dict) result" where
  "gateway_headers hs p mode =
     (case sdk_values hs of
        [(name, credential)] \<Rightarrow>
          if name \<notin> set (credential_slots (pp_provider p))
          then Inl (Value_error ''unsupported_gateway_credential_header'')
          else rbind (gateway_credential name credential) (\<lambda>c.
            Inr (without_sdk hs, dset (fst (admission_slot mode c)) (snd (admission_slot mode c)) (without_sdk hs)))
      | _ \<Rightarrow> Inl (Value_error ''ambiguous_gateway_credentials''))"

subsection \<open>No credential of the caller is forwarded\<close>

lemma without_sdk_free: "k \<in> set SDK_HEADERS \<Longrightarrow> map_of (without_sdk hs) k = None"
  by (auto simp: without_sdk_def map_of_eq_None_iff)

lemma without_sdk_same: "k \<notin> set SDK_HEADERS \<Longrightarrow> map_of (without_sdk hs) k = map_of hs k"
  by (induction hs) (auto simp: without_sdk_def)

lemma sdk_values_slot: "(k, v) \<in> set (sdk_values hs) \<Longrightarrow> map_of hs k = Some v \<and> k \<in> set SDK_HEADERS"
  by (auto simp: sdk_values_def split: option.splits if_splits)

lemma gateway_headers_Inr:
  assumes "gateway_headers hs p mode = Inr (clean, auth)"
  shows "clean = without_sdk hs \<and>
    (\<exists>name v c. sdk_values hs = [(name, v)] \<and> name \<in> set (credential_slots (pp_provider p)) \<and>
       gateway_credential name v = Inr c \<and>
       auth = dset (fst (admission_slot mode c)) (snd (admission_slot mode c)) clean)"
  using assms
  by (auto simp: gateway_headers_def rbind_Inr_iff split: list.splits if_splits)

lemma sdk_header_members [simp]:
  "uni ''authorization'' \<in> set SDK_HEADERS" "uni ''x-td-client-key'' \<in> set SDK_HEADERS"
  by (simp_all add: SDK_HEADERS_def)

lemma gateway_headers_separates:
  assumes "gateway_headers hs p mode = Inr (clean, auth)"
  shows "(\<forall>k \<in> set SDK_HEADERS. map_of clean k = None) \<and>
    (\<forall>k. k \<notin> set SDK_HEADERS \<longrightarrow> map_of clean k = map_of hs k \<and> map_of auth k = map_of hs k) \<and>
    (\<forall>k \<in> set SDK_HEADERS. map_of auth k \<noteq> None \<longrightarrow>
       k = (if mode = Mode_client_key then uni ''x-td-client-key'' else uni ''authorization''))"
proof -
  obtain c where clean: "clean = without_sdk hs"
      and auth: "auth = dset (fst (admission_slot mode c)) (snd (admission_slot mode c)) clean"
    using gateway_headers_Inr [OF assms] by blast
  have slot: "fst (admission_slot mode c) = (if mode = Mode_client_key then uni ''x-td-client-key''
      else uni ''authorization'')"
    by (simp add: admission_slot_def)
  have "fst (admission_slot mode c) \<in> set SDK_HEADERS" unfolding slot by simp
  then show ?thesis
    using slot unfolding auth clean by (auto simp: without_sdk_free without_sdk_same)
qed

end
