(* ===== verification/Deployment.thy ===== *)
theory Deployment
  imports Providers Identity
begin

text \<open>
  \<open>selfhost/config.py\<close>: the configuration of a fixed-destination deployment.  A pydantic
  model is a record of the fields after their types were parsed; its validators are functions
  that return the (normalised) record or the \<open>ValueError\<close> they raise.  \<open>load\<close> and
  \<open>envoy_config\<close>, which read a YAML file and a YAML template, are not modelled.
\<close>

abbreviation invalid :: "string \<Rightarrow> 'a result" where
  "invalid m \<equiv> Inl (Value_error m)"

definition check :: "bool \<Rightarrow> string \<Rightarrow> unit result" where
  "check b m = (if b then Inr () else invalid m)"

lemma check_Inr [simp]: "check b m = Inr u \<longleftrightarrow> b"
  by (simp add: check_def)

fun check_all :: "(bool \<times> string) list \<Rightarrow> unit result" where
  "check_all [] = Inr ()"
| "check_all ((b, m) # cs) = rbind (check b m) (\<lambda>_. check_all cs)"

lemma check_all_Inr: "check_all cs = Inr u \<longleftrightarrow> (\<forall>(b, m) \<in> set cs. b)"
  by (induction cs) (auto simp: rbind_Inr_iff)

subsection \<open>URLs\<close>

definition url_credentials :: "split_url \<Rightarrow> bool" where
  "url_credentials u \<longleftrightarrow>
     (case url_userinfo u of None \<Rightarrow> False | Some (user, _, password) \<Rightarrow> user \<noteq> [] \<or> password \<noteq> [])"

definition http_scheme :: "split_url \<Rightarrow> bool" where
  "http_scheme u \<longleftrightarrow> u_scheme u = uni ''http'' \<or> u_scheme u = uni ''https''"

definition loopback_names :: "pystr list" where
  "loopback_names = [uni ''localhost'', uni ''127.0.0.1'', uni ''::1'']"

definition network_url :: "url_env \<Rightarrow> pystr \<Rightarrow> string \<Rightarrow> bool \<Rightarrow> bool \<Rightarrow> split_url result" where
  "network_url ue v name allow_loopback resource =
     (case urlsplit ue v of
        None \<Rightarrow> invalid ''invalid_url''
      | Some u \<Rightarrow>
          rbind (check_all
            [(http_scheme u \<and> url_hostname u \<noteq> [] \<and> \<not> url_credentials u \<and> u_fragment u = [] \<and>
               \<not> (u_scheme u = uni ''http'' \<and> \<not> (allow_loopback \<and> url_hostname u \<in> set loopback_names)),
              name @ '' must use HTTPS; explicit synthetic mode permits HTTP loopback only''),
             (\<not> (resource \<and> (u_query u \<noteq> [] \<or> \<not> startswith (u_path u) [47])),
              name @ '' must be an absolute resource URI without query or fragment'')]) (\<lambda>_. Inr u))"

subsection \<open>Caller authentication\<close>

datatype identity_mode = Delegated_identity | Agent_identity

text \<open>The mapped fields in the order of the model; the last two may be absent.\<close>

record agent_identity_claims =
  ai_tenant_id :: pystr
  ai_user_id :: pystr
  ai_agent_id :: pystr
  ai_delegation_id :: pystr
  ai_task_id :: pystr
  ai_agent_instance_id :: "pystr option"
  ai_approval_id :: "pystr option"

definition claim_fields :: "agent_identity_claims \<Rightarrow> (pystr \<times> pystr option) list" where
  "claim_fields c =
     [(uni ''tenant_id'', Some (ai_tenant_id c)), (uni ''user_id'', Some (ai_user_id c)),
      (uni ''agent_id'', Some (ai_agent_id c)), (uni ''delegation_id'', Some (ai_delegation_id c)),
      (uni ''task_id'', Some (ai_task_id c)), (uni ''agent_instance_id'', ai_agent_instance_id c),
      (uni ''approval_id'', ai_approval_id c)]"

definition scope_char :: "nat \<Rightarrow> bool" where
  "scope_char c \<longleftrightarrow> is_alnum c \<or> any_of ''._:/-'' c"

definition validate_claim_names :: "agent_identity_claims \<Rightarrow> unit result" where
  "validate_claim_names c =
     check (list_all (\<lambda>(_, v). case v of None \<Rightarrow> True | Some n \<Rightarrow> class_match scope_char 1 128 n)
         (claim_fields c))
       ''Identity claim names must be explicit JWT claim keys''"

record jwt_config =
  jw_identity_mode :: identity_mode
  jw_issuer :: pystr
  jw_audience :: pystr
  jw_jwks_uri :: pystr
  jw_resource :: pystr
  jw_authorization_servers :: "pystr list"
  jw_required_scopes :: "pystr list"
  jw_authorized_parties :: "pystr list"
  jw_allow_insecure_loopback :: bool
  jw_identity_claims :: "agent_identity_claims option"

fun rstrip_slash :: "pystr \<Rightarrow> pystr" where
  "rstrip_slash s = rev (dropWhile (\<lambda>c. c = 47) (rev s))"

definition jwt_fields_ok :: "jwt_config \<Rightarrow> bool" where
  "jwt_fields_ok j \<longleftrightarrow>
     1 \<le> length (jw_audience j) \<and> length (jw_audience j) \<le> 512 \<and>
     1 \<le> length (jw_authorization_servers j) \<and> length (jw_authorization_servers j) \<le> 5 \<and>
     1 \<le> length (jw_required_scopes j) \<and> length (jw_required_scopes j) \<le> 32 \<and>
     length (jw_authorized_parties j) \<le> 32"

fun check_servers :: "url_env \<Rightarrow> bool \<Rightarrow> pystr list \<Rightarrow> unit result" where
  "check_servers ue loopback [] = Inr ()"
| "check_servers ue loopback (s # ss) =
     rbind (network_url ue s ''authorization_servers'' loopback False) (\<lambda>_. check_servers ue loopback ss)"

definition validate_jwt :: "url_env \<Rightarrow> jwt_config \<Rightarrow> jwt_config result" where
  "validate_jwt ue j =
     (let loopback = jw_allow_insecure_loopback j in
      rbind (check (jwt_fields_ok j) ''field_constraint'') (\<lambda>_.
      rbind (network_url ue (jw_issuer j) ''issuer'' loopback False) (\<lambda>_.
      rbind (network_url ue (jw_jwks_uri j) ''jwks_uri'' loopback False) (\<lambda>_.
      rbind (network_url ue (jw_resource j) ''resource'' loopback True) (\<lambda>resource.
      rbind (check_servers ue loopback (jw_authorization_servers j)) (\<lambda>_.
      rbind (check_all
        [(distinct (jw_authorization_servers j), ''authorization_servers must be unique''),
         (jw_issuer j \<in> set (jw_authorization_servers j), ''authorization_servers must include the token issuer''),
         (distinct (jw_required_scopes j) \<and> list_all (class_match scope_char 1 128) (jw_required_scopes j),
          ''required_scopes must be unique OAuth scope tokens''),
         (distinct (jw_authorized_parties j) \<and>
          list_all (\<lambda>v. v \<noteq> [] \<and> length v \<le> 256 \<and> \<not> list_ex is_space v) (jw_authorized_parties j),
          ''authorized_parties must contain unique non-empty client identifiers''),
         (\<not> list_ex is_space (jw_audience j), ''audience must not contain whitespace'')]) (\<lambda>_.
        Inr (if u_path resource = [] then j\<lparr>jw_resource := rstrip_slash (jw_resource j)\<rparr> else j))))))))"

text \<open>The two properties; \<open>urlsplit\<close> of a validated resource does not fail.\<close>

definition metadata_path :: "url_env \<Rightarrow> jwt_config \<Rightarrow> pystr result" where
  "metadata_path ue j =
     (case urlsplit ue (jw_resource j) of
        None \<Rightarrow> invalid ''invalid_url''
      | Some u \<Rightarrow> Inr (uni ''/.well-known/oauth-protected-resource'' @ rstrip_slash (u_path u)))"

definition metadata_url :: "url_env \<Rightarrow> jwt_config \<Rightarrow> pystr result" where
  "metadata_url ue j =
     (case urlsplit ue (jw_resource j) of
        None \<Rightarrow> invalid ''invalid_url''
      | Some u \<Rightarrow> rbind (metadata_path ue j) (\<lambda>p. Inr (u_scheme u @ uni ''://'' @ u_netloc u @ p)))"

datatype gateway_auth = Client_key_auth | Agent_key_auth | Jwt_auth jwt_config

fun auth_mode :: "gateway_auth \<Rightarrow> gateway_mode" where
  "auth_mode Client_key_auth = Mode_client_key"
| "auth_mode Agent_key_auth = Mode_agent_key"
| "auth_mode (Jwt_auth j) = Mode_jwt"

subsection \<open>The destination's credential\<close>

datatype target_mode = Target_none | Passthrough_bearer | Static_bearer | Static_api_key

record target_auth =
  ta_mode :: target_mode
  ta_secret_file :: "pystr option"
  ta_header :: "pystr option"
  ta_prefix :: pystr

definition truthy :: "pystr option \<Rightarrow> bool" where
  "truthy v \<longleftrightarrow> v \<noteq> None \<and> v \<noteq> Some []"

definition header_char :: "nat \<Rightarrow> bool" where
  "header_char c \<longleftrightarrow> is_alnum c \<or> c \<in> {33, 35, 36, 37, 38, 39, 42, 43, 45, 46, 94, 95, 96, 124, 126}"

definition reserved_target_header :: "pystr \<Rightarrow> bool" where
  "reserved_target_header h \<longleftrightarrow>
     h = uni ''authorization'' \<or> h \<in> set TRANSPORT_HEADERS \<or> reserved_header h"

definition lowered_header :: "target_auth \<Rightarrow> target_auth" where
  "lowered_header t = t\<lparr>ta_header := map_option py_lower (ta_header t)\<rparr>"

definition validate_target :: "target_auth \<Rightarrow> target_auth result" where
  "validate_target t =
     rbind (check_all
       [((ta_mode t = Static_bearer \<or> ta_mode t = Static_api_key) = truthy (ta_secret_file t),
         ''Static target authentication requires one secret_file''),
        (truthy (ta_secret_file t) \<longrightarrow> startswith (the (ta_secret_file t)) [47],
         ''secret_file must be an absolute path'')]) (\<lambda>_.
     rbind
       (if ta_mode t = Static_api_key then
          rbind (check_all
            [(truthy (ta_header t) \<and> class_match header_char 1 64 (the (ta_header t)),
              ''static_api_key requires a valid header''),
             (\<not> reserved_target_header (py_lower (the (ta_header t))),
              ''Target API-key header is reserved'')]) (\<lambda>_. Inr (lowered_header t))
        else rbind (check (ta_header t = None) ''header is supported only for static_api_key'') (\<lambda>_. Inr t)) (\<lambda>t'.
     rbind (check_all
       [(ta_mode t = Static_api_key \<or> ta_prefix t = [], ''prefix is supported only for static_api_key''),
        (length (ta_prefix t) \<le> 64 \<and> 13 \<notin> set (ta_prefix t) \<and> 10 \<notin> set (ta_prefix t),
         ''Invalid target credential prefix'')]) (\<lambda>_. Inr t')))"

text \<open>\<open>ProviderProfile.target\<close>, validated as a \<open>TargetAuth\<close>.\<close>

definition provider_target :: "provider_profile \<Rightarrow> target_auth" where
  "provider_target p =
     (if pp_provider p = Anthropic \<or> pp_provider p = Google then
        \<lparr>ta_mode = Static_api_key, ta_secret_file = Some (uni ''/run/secrets/provider-key''),
         ta_header = Some (if pp_provider p = Anthropic then uni ''x-api-key'' else uni ''x-goog-api-key''),
         ta_prefix = []\<rparr>
      else \<lparr>ta_mode = Static_bearer, ta_secret_file = Some (uni ''/run/secrets/provider-key''),
         ta_header = None, ta_prefix = []\<rparr>)"

definition target_public :: "target_auth \<Rightarrow> target_mode \<times> (pystr option \<times> pystr) option" where
  "target_public t =
     (ta_mode t, if ta_mode t = Static_api_key then Some (ta_header t, ta_prefix t) else None)"

subsection \<open>The deployment\<close>

record access_broker_deployment =
  ab_enabled :: bool
  ab_tenant_id :: "pystr option"

definition validate_tenant :: "access_broker_deployment \<Rightarrow> unit result" where
  "validate_tenant a =
     rbind (check (case ab_tenant_id a of None \<Rightarrow> True | Some t \<Rightarrow> 1 \<le> length t \<and> length t \<le> 256)
       ''field_constraint'') (\<lambda>_.
     check (ab_enabled a = truthy (ab_tenant_id a)) ''Enabled Access Broker requires one tenant_id'')"

record deployment =
  dp_upstream :: pystr
  dp_llm :: "provider_profile option"
  dp_allow_plaintext_upstream :: bool
  dp_console_origin :: pystr
  dp_gateway_auth :: gateway_auth
  dp_access_broker :: access_broker_deployment
  dp_target_auth :: target_auth
  dp_max_body_bytes :: nat
  dp_gateway_max_inflight :: nat
  dp_gateway_admission_wait_ms :: nat
  dp_inspector_replicas :: nat
  dp_routes :: "route_rule list"

text \<open>
  The keys \<open>normalize_legacy_auth\<close> looks at, before validation: \<open>None\<close> for an absent key.
  The result is what the three fields of the deployment are validated from.
\<close>

record raw_deployment =
  rw_upstream :: "pystr option"
  rw_llm :: "provider_profile option"
  rw_routes :: "route_rule list option"
  rw_target_auth :: "target_auth option"
  rw_destination_auth :: "pystr option"
  rw_bearer_file :: "pystr option"

definition setdefault :: "'a option \<Rightarrow> 'a \<Rightarrow> 'a option" where
  "setdefault d v = (case d of None \<Rightarrow> Some v | Some x \<Rightarrow> Some x)"

definition with_profile :: "raw_deployment \<Rightarrow> raw_deployment" where
  "with_profile r =
     (case rw_llm r of
        None \<Rightarrow> r
      | Some p \<Rightarrow> r\<lparr>rw_upstream := setdefault (rw_upstream r) (ORIGINS (pp_provider p)),
          rw_routes := setdefault (rw_routes r) (provider_routes p),
          rw_target_auth := setdefault (rw_target_auth r) (provider_target p)\<rparr>)"

definition normalize_legacy_auth :: "raw_deployment \<Rightarrow> raw_deployment result" where
  "normalize_legacy_auth raw =
     rbind (case rw_llm raw of None \<Rightarrow> Inr () | Some p \<Rightarrow> validate_models p) (\<lambda>_.
     let r = with_profile raw; legacy = rw_destination_auth r; file = rw_bearer_file r;
         bare = r\<lparr>rw_destination_auth := None, rw_bearer_file := None\<rparr> in
     case rw_target_auth r of
       Some t \<Rightarrow>
         if legacy \<noteq> None \<or> file \<noteq> None
         then invalid ''Use target_auth or legacy destination_auth, not both'' else Inr bare
     | None \<Rightarrow>
         if legacy = Some (uni ''static_bearer'') then
           Inr (bare\<lparr>rw_target_auth := Some \<lparr>ta_mode = Static_bearer, ta_secret_file = file,
             ta_header = None, ta_prefix = []\<rparr>\<rparr>)
         else if file \<noteq> None then invalid ''passthrough must not set bearer_file''
         else Inr (bare\<lparr>rw_target_auth := Some \<lparr>ta_mode = Passthrough_bearer, ta_secret_file = None,
             ta_header = None, ta_prefix = []\<rparr>\<rparr>))"

text \<open>\<open>ipaddress.ip_address\<close> accepts a host of the characters allowed here: dotted quads only.\<close>

definition ipv4_part :: "pystr \<Rightarrow> bool" where
  "ipv4_part s \<longleftrightarrow> class_match is_digit 1 3 s \<and> (hd s = 48 \<longrightarrow> s = [48]) \<and> nat_of_digits s \<le> 255"

definition is_ipv4 :: "pystr \<Rightarrow> bool" where
  "is_ipv4 s \<longleftrightarrow> length (split_on 46 s) = 4 \<and> list_all ipv4_part (split_on 46 s)"

definition host_char :: "nat \<Rightarrow> bool" where
  "host_char c \<longleftrightarrow> is_alnum c \<or> any_of ''.-'' c"

definition check_upstream :: "split_url \<Rightarrow> bool \<Rightarrow> unit result" where
  "check_upstream u plaintext =
     rbind (check_all
       [(http_scheme u \<and> url_hostname u \<noteq> [] \<and> \<not> url_credentials u \<and> (u_path u = [] \<or> u_path u = [47]) \<and>
         u_query u = [] \<and> u_fragment u = [],
         ''upstream must be an HTTP(S) origin without credentials, path or query''),
        (class_match host_char 1 (length (url_hostname u)) (url_hostname u),
         ''Use a DNS hostname or IPv4 upstream''),
        (u_scheme u = uni ''http'' \<longrightarrow> plaintext,
         ''HTTP requires allow_plaintext_upstream for a trusted network''),
        (u_scheme u = uni ''https'' \<longrightarrow> \<not> is_ipv4 (url_hostname u),
         ''HTTPS requires a DNS hostname for certificate verification'')]) (\<lambda>_.
     case url_port u of
       None \<Rightarrow> invalid ''invalid_port''
     | Some None \<Rightarrow> Inr ()
     | Some (Some p) \<Rightarrow> check (1 \<le> p \<and> p \<le> 65535) ''Invalid upstream port'')"

definition check_origin :: "split_url \<Rightarrow> unit result" where
  "check_origin u =
     check (http_scheme u \<and> url_hostname u \<noteq> [] \<and> \<not> url_credentials u \<and> u_path u = [] \<and> u_query u = [] \<and>
         u_fragment u = [])
       ''console_origin must be an exact HTTP(S) origin''"

definition maps_identity :: "gateway_auth \<Rightarrow> bool" where
  "maps_identity a \<longleftrightarrow> (case a of Jwt_auth j \<Rightarrow> jw_identity_claims j \<noteq> None | _ \<Rightarrow> False)"

definition check_modes :: "deployment \<Rightarrow> unit result" where
  "check_modes d =
     (let mode = auth_mode (dp_gateway_auth d) in
      check_all
       [(\<not> (mode \<in> {Mode_jwt, Mode_agent_key} \<and> ta_mode (dp_target_auth d) = Passthrough_bearer),
         ''JWT or agent-key gateway authentication cannot use target Bearer passthrough''),
        (mode = Mode_agent_key \<longrightarrow> ab_enabled (dp_access_broker d), ''Agent keys require the Access Broker''),
        (ab_enabled (dp_access_broker d) \<longrightarrow>
           mode = Mode_agent_key \<or> mode = Mode_jwt \<and> maps_identity (dp_gateway_auth d),
         ''Access Broker requires agent_key or JWT gateway authentication with identity_claims'')])"

definition check_profile :: "deployment \<Rightarrow> unit result" where
  "check_profile d =
     (case dp_llm d of
        None \<Rightarrow> Inr ()
      | Some p \<Rightarrow>
          let t = dp_target_auth d; expected = provider_target p in
          check_all
           [(dp_upstream d = ORIGINS (pp_provider p), ''Provider profile requires its fixed HTTPS origin''),
            (ta_mode t = Static_bearer \<or> ta_mode t = Static_api_key,
             ''Provider profiles require separate static target credentials''),
            (ta_mode t = ta_mode expected \<and> ta_header t = ta_header expected \<and> ta_prefix t = [],
             ''Provider authentication does not match its native API''),
            (dp_routes d = provider_routes p, ''Provider profiles use generated exact routes and model scopes'')])"

definition path_char :: "nat \<Rightarrow> bool" where
  "path_char c \<longleftrightarrow> is_alnum c \<or> any_of ''_./~:-'' c"

definition supported_methods :: "pystr list" where
  "supported_methods = [uni ''GET'', uni ''POST'', uni ''PUT'', uni ''PATCH'', uni ''DELETE'', uni ''HEAD'']"

definition path_ok :: "pystr \<Rightarrow> bool" where
  "path_ok s \<longleftrightarrow>
     (case s of [] \<Rightarrow> False | c # r \<Rightarrow> c = 47 \<and> list_all path_char r) \<and>
     uni ''..'' \<notin> set (split_on 47 s) \<and> \<not> contains_sub s (uni ''//'')"

definition route_rules :: "route_rule \<Rightarrow> tool_rule option list" where
  "route_rules r =
     (if rr_protocol r = Mcp then map Some (dvalues (rr_tools r)) else [rr_rule r])"

definition rule_has_resource :: "tool_rule \<Rightarrow> bool" where
  "rule_has_resource t \<longleftrightarrow> truthy (tr_resource t) \<or> truthy (tr_resource_pointer t)"

definition check_route :: "pystr \<Rightarrow> (pystr \<times> pystr) list \<Rightarrow> route_rule \<Rightarrow> unit result" where
  "check_route netloc seen r =
     check_all
       [(rr_authority r = netloc, ''Every route authority must equal the fixed upstream authority''),
        (path_ok (rr_path r) \<and> rr_method r \<in> set supported_methods,
         ''Routes require unambiguous exact paths and supported HTTP methods''),
        ((rr_method r, rr_path r) \<notin> set seen, ''Duplicate method/path mapping''),
        (rr_protocol r = Mcp \<longrightarrow> rr_method r = uni ''POST'',
         ''This profile supports stateless MCP JSON POST only''),
        (route_rules r \<noteq> [] \<and> None \<notin> set (route_rules r), ''Explicit tool/action rules are required''),
        (list_all (\<lambda>t. case t of None \<Rightarrow> False | Some t \<Rightarrow> rule_has_resource t) (route_rules r),
         ''Every rule requires a resource mapping'')]"

fun check_routes :: "pystr \<Rightarrow> (pystr \<times> pystr) list \<Rightarrow> route_rule list \<Rightarrow> unit result" where
  "check_routes netloc seen [] = Inr ()"
| "check_routes netloc seen (r # rs) =
     rbind (check_route netloc seen r) (\<lambda>_. check_routes netloc ((rr_method r, rr_path r) # seen) rs)"

text \<open>The constraints of the fields, \<open>validate_inspector_replicas\<close> among them.\<close>

definition deployment_fields_ok :: "deployment \<Rightarrow> bool" where
  "deployment_fields_ok d \<longleftrightarrow>
     1024 \<le> dp_max_body_bytes d \<and> dp_max_body_bytes d \<le> 1048576 \<and>
     4 \<le> dp_gateway_max_inflight d \<and> dp_gateway_max_inflight d \<le> 64 \<and>
     dp_gateway_admission_wait_ms d \<le> 2000 \<and> dp_inspector_replicas d \<in> {1, 2, 4} \<and>
     1 \<le> length (dp_routes d) \<and> length (dp_routes d) \<le> 100"

definition validate_contract :: "url_env \<Rightarrow> deployment \<Rightarrow> unit result" where
  "validate_contract ue d =
     (case urlsplit ue (dp_upstream d) of
        None \<Rightarrow> invalid ''invalid_url''
      | Some target \<Rightarrow>
          rbind (check_upstream target (dp_allow_plaintext_upstream d)) (\<lambda>_.
          case urlsplit ue (dp_console_origin d) of
            None \<Rightarrow> invalid ''invalid_url''
          | Some origin \<Rightarrow>
              rbind (check_origin origin) (\<lambda>_.
              rbind (check_modes d) (\<lambda>_.
              rbind (check_profile d) (\<lambda>_.
                check_routes (u_netloc target) [] (dp_routes d))))))"

text \<open>\<open>Deployment.model_validate\<close> on a record whose normalised fields were put in place.\<close>

definition validate_gateway_auth :: "url_env \<Rightarrow> gateway_auth \<Rightarrow> gateway_auth result" where
  "validate_gateway_auth ue a =
     (case a of
        Jwt_auth j \<Rightarrow>
          rbind (case jw_identity_claims j of None \<Rightarrow> Inr () | Some c \<Rightarrow> validate_claim_names c) (\<lambda>_.
          rbind (validate_jwt ue j) (\<lambda>j'. Inr (Jwt_auth j')))
      | _ \<Rightarrow> Inr a)"

definition validate_deployment :: "url_env \<Rightarrow> deployment \<Rightarrow> deployment result" where
  "validate_deployment ue d =
     rbind (case dp_llm d of None \<Rightarrow> Inr () | Some p \<Rightarrow> validate_models p) (\<lambda>_.
     rbind (validate_gateway_auth ue (dp_gateway_auth d)) (\<lambda>a.
     rbind (validate_tenant (dp_access_broker d)) (\<lambda>_.
     rbind (validate_target (dp_target_auth d)) (\<lambda>t.
     let d' = d\<lparr>dp_gateway_auth := a, dp_target_auth := t\<rparr> in
     rbind (check (deployment_fields_ok d') ''field_constraint'') (\<lambda>_.
     rbind (validate_contract ue d') (\<lambda>_. Inr d'))))))"

text \<open>\<open>entries\<close>: the rules a policy may switch, by index and name.\<close>

fun entries_from :: "nat \<Rightarrow> route_rule list \<Rightarrow> (pystr \<times> pystr \<times> tool_rule option) list" where
  "entries_from n [] = []"
| "entries_from n (r # rs) =
     map (\<lambda>(name, rule). (dec_nat n @ uni '':'' @ name, name, rule))
       (if rr_protocol r = Mcp then map (\<lambda>(k, v). (k, Some v)) (rr_tools r) else [(rr_tool r, rr_rule r)]) @
     entries_from (Suc n) rs"

definition deployment_entries :: "deployment \<Rightarrow> (pystr \<times> pystr \<times> tool_rule option) list" where
  "deployment_entries d = entries_from 0 (dp_routes d)"

text \<open>What \<open>Deployment.model_validate\<close> reads a dump without nulls (\<open>model_dump(exclude_none=True)\<close>) as: a null that
  was left out comes back as the default of its field.  Two fields that may be null have a default that is not:
  \<open>agent_instance_id\<close> and \<open>approval_id\<close> of the identity claims.\<close>

definition claim_or_default :: "pystr option \<Rightarrow> string \<Rightarrow> pystr option" where
  "claim_or_default v n = (case v of None \<Rightarrow> Some (uni n) | Some c \<Rightarrow> Some c)"

definition redumped_claims :: "agent_identity_claims \<Rightarrow> agent_identity_claims" where
  "redumped_claims c = c\<lparr>ai_agent_instance_id := claim_or_default (ai_agent_instance_id c) ''agent_instance_id'',
     ai_approval_id := claim_or_default (ai_approval_id c) ''approval_id''\<rparr>"

fun redumped_auth :: "gateway_auth \<Rightarrow> gateway_auth" where
  "redumped_auth (Jwt_auth j) = Jwt_auth (j\<lparr>jw_identity_claims := map_option redumped_claims (jw_identity_claims j)\<rparr>)"
| "redumped_auth a = a"

definition redumped :: "deployment \<Rightarrow> deployment" where
  "redumped d = d\<lparr>dp_gateway_auth := redumped_auth (dp_gateway_auth d)\<rparr>"

end
