(* ===== verification/Deployment_Facts.thy ===== *)
theory Deployment_Facts
  imports Deployment
begin

text \<open>
  What a validated deployment guarantees: its routes are mapped without ambiguity
  (\<open>route_for\<close> never finds two), and every provider profile that passes its own checks
  generates routes and target credentials that pass the checks of the deployment.
\<close>

subsection \<open>Routes of a validated deployment\<close>

definition route_key :: "route_rule \<Rightarrow> pystr \<times> pystr" where
  "route_key r = (rr_method r, rr_path r)"

definition route_contract :: "pystr \<Rightarrow> route_rule \<Rightarrow> bool" where
  "route_contract netloc r \<longleftrightarrow>
     rr_authority r = netloc \<and> path_ok (rr_path r) \<and> rr_method r \<in> set supported_methods \<and>
     (rr_protocol r = Mcp \<longrightarrow> rr_method r = uni ''POST'') \<and> route_rules r \<noteq> [] \<and>
     (\<forall>o' \<in> set (route_rules r). \<exists>t. o' = Some t \<and> rule_has_resource t)"

lemma check_route_Inr:
  "check_route netloc seen r = Inr u \<longleftrightarrow> route_contract netloc r \<and> route_key r \<notin> set seen"
  unfolding check_route_def check_all_Inr
  by (auto simp: route_contract_def route_key_def list_all_iff split: option.splits)

lemma check_routes_Inr:
  "check_routes netloc seen rs = Inr u \<longleftrightarrow>
     list_all (route_contract netloc) rs \<and> distinct (map route_key rs) \<and>
     set (map route_key rs) \<inter> set seen = {}"
proof (induction rs arbitrary: seen)
  case (Cons r rs)
  have "check_routes netloc seen (r # rs) = Inr u \<longleftrightarrow>
      check_route netloc seen r = Inr () \<and> check_routes netloc (route_key r # seen) rs = Inr u"
    by (simp add: rbind_Inr_iff route_key_def)
  with Cons.IH show ?case by (auto simp: check_route_Inr)
qed simp

lemma validate_deployment_contract: "validate_deployment ue d = Inr d' \<Longrightarrow> validate_contract ue d' = Inr ()"
  by (auto simp: validate_deployment_def rbind_Inr_iff Let_def)

lemma validate_deployment_routes:
  assumes "validate_deployment ue d = Inr d'"
  obtains u where "urlsplit ue (dp_upstream d') = Some u" and
    "list_all (route_contract (u_netloc u)) (dp_routes d')" and "distinct (map route_key (dp_routes d'))"
proof -
  note valid = validate_deployment_contract [OF assms]
  show ?thesis
  proof (cases "urlsplit ue (dp_upstream d')")
    case None
    with valid show ?thesis by (simp add: validate_contract_def)
  next
    case (Some u)
    with valid have "check_routes (u_netloc u) [] (dp_routes d') = Inr ()"
      by (auto simp: validate_contract_def rbind_Inr_iff split: option.splits)
    with Some that show ?thesis by (simp add: check_routes_Inr)
  qed
qed

lemma one_match:
  assumes "distinct (map route_key rs)"
  shows "length (filter (route_matches m p) rs) \<le> 1"
  using assms
proof (induction rs)
  case (Cons r rs)
  show ?case
  proof (cases "route_matches m p r")
    case True
    have "\<not> route_matches m p r'" if "r' \<in> set rs" for r'
      using that True Cons.prems by (force simp: route_matches_def route_key_def)
    then have "filter (route_matches m p) rs = []" by (simp add: filter_empty_conv)
    then show ?thesis by simp
  next
    case False
    then show ?thesis using Cons by simp
  qed
qed simp

lemma validated_routes_unambiguous:
  assumes "validate_deployment ue d = Inr d'" and "ic_routes c = dp_routes d'"
    and "route_for ue m c = fails ''unmapped_route''" and "urlsplit ue (hm_path m) = Some u"
  shows "\<forall>r \<in> set (dp_routes d'). \<not> route_matches m (u_path u) r"
proof -
  obtain v where "distinct (map route_key (dp_routes d'))"
    using validate_deployment_routes [OF assms(1)] by blast
  then have "length (filter (route_matches m (u_path u)) (dp_routes d')) \<le> 1" by (rule one_match)
  then have "filter (route_matches m (u_path u)) (dp_routes d') = []"
    using assms(2,3,4)
    by (cases "filter (route_matches m (u_path u)) (dp_routes d')")
      (auto simp: route_for_def Let_def split: if_splits)
  then show ?thesis by (simp add: filter_empty_conv)
qed

subsection \<open>Generated routes\<close>

lemma contains_pair_free: "a \<notin> set s \<Longrightarrow> \<not> contains_sub s (a # p)"
  by (induction s) auto

lemma split_on_free: "sep \<notin> set s \<Longrightarrow> split_on sep s = [s]"
  by (induction s) auto

lemma split_on_append:
  "sep \<notin> set s \<Longrightarrow> split_on sep (s @ sep # r) = s # split_on sep r"
  by (induction s) auto

lemma model_name_chars: "model_name_ok m \<Longrightarrow> m \<noteq> [] \<and> list_all model_char m"
  by (auto simp: model_name_ok_def class_match_def model_char_def split: list.splits)

lemma model_path_char: "model_char c \<Longrightarrow> path_char c"
  by (auto simp: model_char_def path_char_def any_of_def uni_def)

lemma gemini_path_ok:
  assumes "model_name_ok m" and "47 \<notin> set m" and "meth = ''generateContent'' \<or> meth = ''streamGenerateContent''"
  shows "path_ok (rr_path (gemini_route p m meth))"
proof -
  have chars: "list_all path_char m" "m \<noteq> []"
    using model_name_chars [OF assms(1)] model_path_char by (auto simp: list_all_iff)
  have tail: "list_all path_char (uni ('':'' @ meth))" "47 \<notin> set (uni ('':'' @ meth))"
    using assms(3) by (auto simp: path_char_def is_alnum_def is_alpha_def is_digit_def any_of_def uni_def)
  define r where "r = m @ uni ('':'' @ meth)"
  have r: "47 \<notin> set r" "list_all path_char r" "58 \<in> set r" "r \<noteq> []"
    using chars tail assms(2) by (auto simp: r_def list_all_iff uni_def)
  have path: "rr_path (gemini_route p m meth) =
      47 # uni ''v1beta'' @ 47 # uni ''models'' @ 47 # r"
    by (simp add: gemini_route_def provider_route_def r_def uni_def)
  have "split_on 47 (rr_path (gemini_route p m meth)) = [[], uni ''v1beta'', uni ''models'', r]"
    unfolding path by (simp add: split_on_append split_on_free r uni_def)
  moreover have "uni ''..'' \<noteq> r" using r(3) by (auto simp: uni_def)
  moreover have "\<not> contains_sub (rr_path (gemini_route p m meth)) (uni ''//'')"
    unfolding path using r contains_pair_free [OF r(1), of "[47]"]
    by (cases r) (auto simp: uni_def)
  moreover have "list_all path_char (uni ''v1beta'' @ 47 # uni ''models'' @ 47 # r)"
    using r(2) by (simp add: path_char_def is_alnum_def is_alpha_def is_digit_def any_of_def uni_def)
  ultimately show ?thesis
    unfolding path_ok_def path by (auto simp: uni_def)
qed

definition gemini_methods :: "string list" where
  "gemini_methods = [''generateContent'', ''streamGenerateContent'']"

lemma gemini_path_parts:
  assumes "model_name_ok m" and "meth \<in> set gemini_methods"
  shows "split_on 58 (rr_path (gemini_route p m meth)) = [uni ''/v1beta/models/'' @ m, uni meth]"
proof -
  have "58 \<notin> set m"
    using model_name_chars [OF assms(1)]
    by (auto simp: list_all_iff model_char_def is_alnum_def is_alpha_def is_digit_def any_of_def uni_def)
  then have free: "58 \<notin> set (uni ''/v1beta/models/'' @ m)" by (simp add: uni_def)
  have rest: "58 \<notin> set (uni meth)" using assms(2) by (auto simp: gemini_methods_def uni_def)
  have "rr_path (gemini_route p m meth) = (uni ''/v1beta/models/'' @ m) @ 58 # uni meth"
    by (simp add: gemini_route_def provider_route_def uni_def)
  then show ?thesis using split_on_append [OF free, of "uni meth"] split_on_free [OF rest] by simp
qed

lemma gemini_key_inject:
  assumes "model_name_ok m" "model_name_ok m'" "a \<in> set gemini_methods" "b \<in> set gemini_methods"
    and "route_key (gemini_route p m a) = route_key (gemini_route p m' b)"
  shows "m = m' \<and> a = b"
proof -
  have "[uni ''/v1beta/models/'' @ m, uni a] = [uni ''/v1beta/models/'' @ m', uni b]"
    using assms(5) gemini_path_parts [OF assms(1,3), of p] gemini_path_parts [OF assms(2,4), of p]
    unfolding route_key_def prod.inject by metis
  then show ?thesis by simp
qed

lemma gemini_keys_distinct:
  assumes "distinct ms" and "list_all model_name_ok ms"
  shows "distinct (map route_key (concat (map (\<lambda>m. map (gemini_route p m) gemini_methods) ms)))"
  using assms
proof (induction ms)
  case (Cons m ms)
  have two: "distinct (map route_key (map (gemini_route p m) gemini_methods))"
    using Cons.prems(2) gemini_key_inject [of m m _ _ p]
    by (auto simp: distinct_map inj_on_def gemini_methods_def list_all_iff)
  have "route_key (gemini_route p m a) \<noteq> route_key (gemini_route p m' b)"
    if "m' \<in> set ms" "a \<in> set gemini_methods" "b \<in> set gemini_methods" for m' a b
    using that Cons.prems gemini_key_inject [of m m' a b p] by (auto simp: list_all_iff)
  then have "set (map route_key (map (gemini_route p m) gemini_methods)) \<inter>
      set (map route_key (concat (map (\<lambda>m. map (gemini_route p m) gemini_methods) ms))) = {}"
    by (fastforce simp del: map_map)
  with two Cons show ?case by simp
qed simp

lemma gemini_contract:
  assumes "model_name_ok m" and "47 \<notin> set m" and "meth \<in> set gemini_methods"
  shows "route_contract (provider_authority (pp_provider p)) (gemini_route p m meth)"
proof -
  have "path_ok (rr_path (gemini_route p m meth))"
    using gemini_path_ok assms by (auto simp: gemini_methods_def)
  then show ?thesis
    using model_name_chars [OF assms(1)]
    by (auto simp: route_contract_def gemini_route_def provider_route_def supported_methods_def
        route_rules_def rule_has_resource_def truthy_def)
qed

lemma fixed_route_contract:
  assumes "path_ok path"
  shows "route_contract (provider_authority (pp_provider p)) (provider_route p path tool redacted None)"
  using assms
  by (auto simp: route_contract_def provider_route_def supported_methods_def route_rules_def
      rule_has_resource_def truthy_def)

lemma fixed_paths_ok [simp]:
  "path_ok (uni ''/v1/chat/completions'')" "path_ok (uni ''/v1/responses'')" "path_ok (uni ''/v1/messages'')"
  "path_ok (uni ''/api/v1/chat/completions'')" "path_ok (uni ''/v1beta/openai/chat/completions'')"
  by (simp_all add: path_ok_def uni_def path_char_def is_alnum_def is_alpha_def is_digit_def any_of_def)

lemma chat_key_fresh:
  assumes "model_name_ok m" and "meth \<in> set gemini_methods"
  shows "route_key (provider_route p (uni ''/v1beta/openai/chat/completions'') t f r) \<noteq>
    route_key (gemini_route p m meth)"
proof
  assume "route_key (provider_route p (uni ''/v1beta/openai/chat/completions'') t f r) =
    route_key (gemini_route p m meth)"
  then have "split_on 58 (uni ''/v1beta/openai/chat/completions'') =
      [uni ''/v1beta/models/'' @ m, uni meth]"
    using gemini_path_parts [OF assms, of p] by (simp add: route_key_def provider_route_def)
  then show False by (simp add: uni_def)
qed

lemma provider_routes_contract:
  assumes "validate_models p = Inr ()"
  shows "check_routes (provider_authority (pp_provider p)) [] (provider_routes p) = Inr ()"
proof -
  have models: "distinct (pp_models p)" "list_all model_name_ok (pp_models p)"
      "pp_provider p = Google \<Longrightarrow> m \<in> set (pp_models p) \<Longrightarrow> 47 \<notin> set m" for m
    using assms by (auto simp: validate_models_def list_ex_iff split: if_splits)
  show ?thesis
  proof (cases "pp_provider p")
    case Google
    have "list_all (route_contract (provider_authority (pp_provider p)))
        (concat (map (\<lambda>m. map (gemini_route p m) gemini_methods) (pp_models p)))"
      using gemini_contract [of _ _ p] models Google by (simp add: list_all_iff)
    moreover have "route_key (provider_route p (uni ''/v1beta/openai/chat/completions'') ''llm.chat'' chat_fields None) \<notin>
        set (map route_key (concat (map (\<lambda>m. map (gemini_route p m) gemini_methods) (pp_models p))))"
      using chat_key_fresh models(2) by (force simp: list_all_iff)
    ultimately show ?thesis
      unfolding check_routes_Inr provider_routes_def Google llm_provider.case gemini_methods_def [symmetric]
      using gemini_keys_distinct [OF models(1,2)] fixed_route_contract [of _ p] Google
      by simp
  qed (use fixed_route_contract [of _ p] in
      \<open>simp_all only: check_routes_Inr, simp_all add: provider_routes_def route_key_def, simp_all add: provider_route_def\<close>)
qed

lemma provider_target_valid: "validate_target (provider_target p) = Inr (provider_target p)"
  by (cases "pp_provider p")
    (simp_all add: validate_target_def provider_target_def truthy_def class_match_def header_char_def
      reserved_target_header_def reserved_header_def TRANSPORT_HEADERS_def lowered_header_def
      is_alnum_def is_alpha_def is_digit_def uni_def py_lower_def lower_char_def check_def)

subsection \<open>Validating twice\<close>

text \<open>Validation leaves what it returned alone; so it does with the deployment that a dump without nulls is read
  as, in which no claim name is null.\<close>

lemma resource_path: "network_url ue v n loopback True = Inr u \<Longrightarrow> u_path u \<noteq> []"
  by (auto simp: network_url_def rbind_Inr_iff check_all_Inr split: option.splits)

lemma validate_jwt_same:
  assumes "validate_jwt ue j = Inr j'"
  shows "j' = j"
proof -
  obtain resource where "network_url ue (jw_resource j) ''resource'' (jw_allow_insecure_loopback j) True = Inr resource"
      "j' = (if u_path resource = [] then j\<lparr>jw_resource := rstrip_slash (jw_resource j)\<rparr> else j)"
    using assms unfolding validate_jwt_def Let_def rbind_Inr_iff by blast
  then show ?thesis using resource_path by auto
qed

lemma validate_gateway_auth_same: "validate_gateway_auth ue a = Inr a' \<Longrightarrow> a' = a"
  by (auto simp: validate_gateway_auth_def rbind_Inr_iff dest!: validate_jwt_same split: gateway_auth.splits)

lemma validate_jwt_claims:
  assumes "validate_jwt ue j = Inr j"
  shows "validate_jwt ue (j\<lparr>jw_identity_claims := c\<rparr>) = Inr (j\<lparr>jw_identity_claims := c\<rparr>)"
proof -
  let ?k = "j\<lparr>jw_identity_claims := c\<rparr>"
  have same: "jwt_fields_ok ?k = jwt_fields_ok j" "jw_allow_insecure_loopback ?k = jw_allow_insecure_loopback j"
      "jw_issuer ?k = jw_issuer j" "jw_jwks_uri ?k = jw_jwks_uri j" "jw_resource ?k = jw_resource j"
      "jw_authorization_servers ?k = jw_authorization_servers j" "jw_required_scopes ?k = jw_required_scopes j"
      "jw_authorized_parties ?k = jw_authorized_parties j" "jw_audience ?k = jw_audience j"
    by (simp_all add: jwt_fields_ok_def)
  obtain u1 u2 u3 u4 u5 resource where v: "check (jwt_fields_ok j) ''field_constraint'' = Inr u1"
      "network_url ue (jw_issuer j) ''issuer'' (jw_allow_insecure_loopback j) False = Inr u2"
      "network_url ue (jw_jwks_uri j) ''jwks_uri'' (jw_allow_insecure_loopback j) False = Inr u3"
      "network_url ue (jw_resource j) ''resource'' (jw_allow_insecure_loopback j) True = Inr resource"
      "check_servers ue (jw_allow_insecure_loopback j) (jw_authorization_servers j) = Inr u4"
      "check_all
        [(distinct (jw_authorization_servers j), ''authorization_servers must be unique''),
         (jw_issuer j \<in> set (jw_authorization_servers j), ''authorization_servers must include the token issuer''),
         (distinct (jw_required_scopes j) \<and> list_all (class_match scope_char 1 128) (jw_required_scopes j),
          ''required_scopes must be unique OAuth scope tokens''),
         (distinct (jw_authorized_parties j) \<and>
          list_all (\<lambda>v. v \<noteq> [] \<and> length v \<le> 256 \<and> \<not> list_ex is_space v) (jw_authorized_parties j),
          ''authorized_parties must contain unique non-empty client identifiers''),
         (\<not> list_ex is_space (jw_audience j), ''audience must not contain whitespace'')] = Inr u5"
    using assms unfolding validate_jwt_def Let_def rbind_Inr_iff by blast
  show ?thesis
    unfolding validate_jwt_def Let_def same rbind_Inr_iff if_not_P [OF resource_path [OF v(4)]]
    by (intro exI conjI) (rule v, rule v, rule v, rule v, rule v, rule v, simp add: resource_path [OF v(4)])
qed

lemma default_names_ok:
  "class_match scope_char 1 128 (uni ''agent_instance_id'')" "class_match scope_char 1 128 (uni ''approval_id'')"
  by (simp_all add: class_match_def scope_char_def is_alnum_def is_alpha_def is_digit_def any_of_def uni_def)

lemma validate_redumped_claims: "validate_claim_names c = Inr u \<Longrightarrow> validate_claim_names (redumped_claims c) = Inr ()"
  using default_names_ok
  by (auto simp: validate_claim_names_def redumped_claims_def claim_or_default_def claim_fields_def split: option.splits)

lemma validate_redumped_auth:
  assumes "validate_gateway_auth ue a = Inr a"
  shows "validate_gateway_auth ue (redumped_auth a) = Inr (redumped_auth a)"
proof (cases a)
  case (Jwt_auth j)
  then have j: "validate_jwt ue j = Inr j" "\<forall>c. jw_identity_claims j = Some c \<longrightarrow> validate_claim_names c = Inr ()"
    using assms validate_jwt_same by (auto simp: validate_gateway_auth_def rbind_Inr_iff)
  then show ?thesis
    using validate_jwt_claims [OF j(1)] validate_redumped_claims Jwt_auth
    by (cases "jw_identity_claims j") (auto simp: validate_gateway_auth_def)
qed (simp_all add: validate_gateway_auth_def)

lemma header_char_lower: "list_all header_char s \<Longrightarrow> list_all header_char (py_lower s) \<and> length (py_lower s) = length s"
  by (induction s) (auto simp: py_lower_def lower_char_def header_char_def is_alnum_def is_alpha_def is_digit_def)

lemma validate_target_twice: "validate_target t = Inr t' \<Longrightarrow> validate_target t' = Inr t'"
proof (cases "ta_mode t = Static_api_key")
  case False
  moreover assume "validate_target t = Inr t'"
  ultimately show ?thesis by (auto simp: validate_target_def rbind_Inr_iff split: if_splits)
next
  case True
  moreover assume v: "validate_target t = Inr t'"
  ultimately obtain h where h: "ta_header t = Some h" "class_match header_char 1 64 h"
    by (auto simp: validate_target_def rbind_Inr_iff check_all_Inr truthy_def)
  have l: "list_all header_char (py_lower h)" "length (py_lower h) = length h"
    using header_char_lower h(2) by (auto simp: class_match_def)
  then have "class_match header_char 1 64 (py_lower h)" "py_lower h \<noteq> []" using h(2) by (auto simp: class_match_def)
  then show ?thesis
    using v True h by (auto simp: validate_target_def rbind_Inr_iff check_all_Inr truthy_def lowered_header_def)
qed

lemma redumped_auth_facts [simp]:
  "auth_mode (redumped_auth a) = auth_mode a" "maps_identity (redumped_auth a) = maps_identity a"
  by (cases a; simp add: maps_identity_def)+

lemma redumped_fields [simp]:
  "dp_upstream (redumped d) = dp_upstream d" "dp_llm (redumped d) = dp_llm d"
  "dp_allow_plaintext_upstream (redumped d) = dp_allow_plaintext_upstream d"
  "dp_console_origin (redumped d) = dp_console_origin d" "dp_access_broker (redumped d) = dp_access_broker d"
  "dp_target_auth (redumped d) = dp_target_auth d" "dp_max_body_bytes (redumped d) = dp_max_body_bytes d"
  "dp_gateway_max_inflight (redumped d) = dp_gateway_max_inflight d"
  "dp_gateway_admission_wait_ms (redumped d) = dp_gateway_admission_wait_ms d"
  "dp_inspector_replicas (redumped d) = dp_inspector_replicas d" "dp_routes (redumped d) = dp_routes d"
  "dp_gateway_auth (redumped d) = redumped_auth (dp_gateway_auth d)"
  by (simp_all add: redumped_def)

lemma validate_redumped:
  assumes "validate_deployment ue d0 = Inr d"
  shows "validate_deployment ue d = Inr d" "validate_deployment ue (redumped d) = Inr (redumped d)"
proof -
  obtain a t where v: "(case dp_llm d0 of None \<Rightarrow> Inr () | Some p \<Rightarrow> validate_models p) = Inr ()"
      "validate_gateway_auth ue (dp_gateway_auth d0) = Inr a" "validate_tenant (dp_access_broker d0) = Inr ()"
      "validate_target (dp_target_auth d0) = Inr t" "d = d0\<lparr>dp_gateway_auth := a, dp_target_auth := t\<rparr>"
      "deployment_fields_ok d" "validate_contract ue d = Inr ()"
    using assms by (auto simp: validate_deployment_def rbind_Inr_iff Let_def)
  note a = v(2) [folded validate_gateway_auth_same [OF v(2)]]
  have d: "validate_gateway_auth ue (dp_gateway_auth d) = Inr (dp_gateway_auth d)"
      "validate_target (dp_target_auth d) = Inr (dp_target_auth d)" "dp_llm d = dp_llm d0"
      "dp_access_broker d = dp_access_broker d0"
    using v(2,4,5) validate_gateway_auth_same [OF v(2)] validate_target_twice by auto
  then show "validate_deployment ue d = Inr d"
    using v(1,3,6,7) by (simp add: validate_deployment_def Let_def check_def)
  have "check_modes (redumped d) = check_modes d" "check_profile (redumped d) = check_profile d"
    by (simp_all only: check_modes_def check_profile_def redumped_fields redumped_auth_facts)
  then have "validate_contract ue (redumped d) = Inr ()" "deployment_fields_ok (redumped d)"
    using v(6,7) by (cases "urlsplit ue (dp_upstream d)"; cases "urlsplit ue (dp_console_origin d)";
      simp add: validate_contract_def deployment_fields_ok_def)+
  then show "validate_deployment ue (redumped d) = Inr (redumped d)"
    using v(1,3) d validate_redumped_auth [OF d(1)]
    by (simp add: validate_deployment_def Let_def check_def redumped_def)
qed

end
