(* ===== verification/Agent_Credentials.thy ===== *)
theory Agent_Credentials
  imports Broker_Store Identity
begin

text \<open>
  \<open>selfhost/agent_credentials.py\<close>: opaque credentials of local agents.  The table of the SQLite
  file is a list of rows; an operation that raises leaves it as it was (\<open>with db\<close> rolls back).
  Parameters: SHA-256, the agent lookup of the broker's store, the random parts of a new
  credential (\<open>tail\<close>, 43 characters, and \<open>uid\<close>), and the clock, in seconds as a rational.
  Adding the lifetime to a clock reading is exact here; the code rounds to a float.

  Several processes use one file: the control plane issues and revokes, the data plane
  authenticates.  \<open>credential_step\<close> is a step of any of them, and the lemmas on
  \<open>credential_step**\<close> hold over every interleaving.
\<close>

record credential_row =
  cr_id :: pystr
  cr_tenant :: pystr
  cr_agent :: pystr
  cr_digest :: pystr
  cr_created :: rat
  cr_expires :: rat
  cr_revoked :: bool

record credential_state =
  cs_rows :: "credential_row list"
  cs_broker :: bstate

record credential_env =
  ce_broker :: "broker_env option"
  ce_tenant :: pystr
  ce_sha256 :: "bytes \<Rightarrow> pystr"
  ce_db_ok :: bool

type_synonym 'a credential_act = "(credential_state, 'a) act"

definition broker_lookup :: "'a broker_act \<Rightarrow> 'a credential_act" where
  "broker_lookup m s = (case m (cs_broker s) of (r, b) \<Rightarrow> (r, s\<lparr>cs_broker := b\<rparr>))"

definition agent_of :: "credential_env \<Rightarrow> pystr \<Rightarrow> agent_record option credential_act" where
  "agent_of env agent =
     (case ce_broker env of
        None \<Rightarrow> ret None
      | Some benv \<Rightarrow>
          seq (broker_lookup (read_transaction benv (gets (get_agent agent)))) (\<lambda>found.
            ret (case found of
              None \<Rightarrow> None
            | Some a \<Rightarrow> if ag_tenant_id a = Some (ce_tenant env) \<and> ag_enabled a then Some a else None)))"

text \<open>Opening the file and binding the parameters of a statement.\<close>

definition with_db :: "credential_env \<Rightarrow> pystr list \<Rightarrow> unit credential_act" where
  "with_db env args =
     (if \<not> ce_db_ok env then raise Failure
      else if list_ex (\<lambda>a. utf8_encode a = None) args then raise Unicode_error else ret ())"

definition set_rows :: "credential_row list \<Rightarrow> unit credential_act" where
  "set_rows rows = modify (\<lambda>s. s\<lparr>cs_rows := rows\<rparr>)"

definition token_prefix :: pystr where
  "token_prefix = uni ''td_agent_''"

definition token_digest :: "credential_env \<Rightarrow> pystr \<Rightarrow> pystr result" where
  "token_digest env token =
     (case utf8_encode token of None \<Rightarrow> Inl Unicode_error | Some b \<Rightarrow> Inr (ce_sha256 env b))"

definition rotatable :: "credential_env \<Rightarrow> pystr \<Rightarrow> pystr \<Rightarrow> credential_row \<Rightarrow> bool" where
  "rotatable env i agent r \<longleftrightarrow>
     cr_id r = i \<and> cr_tenant r = ce_tenant env \<and> cr_agent r = agent \<and> \<not> cr_revoked r"

definition revoke_id :: "pystr \<Rightarrow> credential_row list \<Rightarrow> credential_row list" where
  "revoke_id i rows = map (\<lambda>r. if cr_id r = i then r\<lparr>cr_revoked := True\<rparr> else r) rows"

definition rotate :: "credential_env \<Rightarrow> pystr \<Rightarrow> pystr option \<Rightarrow> credential_row list \<Rightarrow> credential_row list result"
  where
  "rotate env agent rotate_id rows =
     (case rotate_id of
        None \<Rightarrow> Inr rows
      | Some i \<Rightarrow>
          if i = [] then Inr rows
          else if list_ex (rotatable env i agent) rows then Inr (revoke_id i rows)
          else Inl (Value_error ''Active credential was not found.''))"

text \<open>The \<open>PRIMARY KEY\<close> and the \<open>UNIQUE\<close> constraint.\<close>

definition insert_row :: "credential_row \<Rightarrow> credential_row list \<Rightarrow> credential_row list result" where
  "insert_row r rows =
     (if list_ex (\<lambda>q. cr_id q = cr_id r \<or> cr_digest q = cr_digest r) rows then Inl Failure
      else Inr (rows @ [r]))"

record issued_credential =
  ix_credential_id :: pystr
  ix_agent_id :: pystr
  ix_credential :: pystr
  ix_expires_at :: rat

definition lifetime :: "json \<Rightarrow> int result" where
  "lifetime ttl =
     (case ttl of
        JInt n \<Rightarrow> if 60 \<le> n \<and> n \<le> 2592000 then Inr n
          else Inl (Value_error ''Credential lifetime must be between 60 seconds and 30 days.'')
      | _ \<Rightarrow> Inl (Value_error ''Credential lifetime must be between 60 seconds and 30 days.''))"

definition issue ::
  "credential_env \<Rightarrow> rat \<Rightarrow> pystr \<Rightarrow> pystr \<Rightarrow> pystr \<Rightarrow> json \<Rightarrow> pystr option \<Rightarrow> issued_credential credential_act"
  where
  "issue env now tail uid agent ttl rotate_id =
     seq (lift_result (lifetime ttl)) (\<lambda>n.
     seq (agent_of env agent) (\<lambda>found.
       if found = None then raise (Value_error ''Enabled agent was not found.'')
       else
         seq (with_db env ([agent, ce_tenant env] @ (case rotate_id of None \<Rightarrow> [] | Some i \<Rightarrow> [i]))) (\<lambda>_.
         seq (gets cs_rows) (\<lambda>rows.
         seq (lift_result (rotate env agent rotate_id rows)) (\<lambda>kept.
         seq (lift_result (token_digest env (token_prefix @ tail))) (\<lambda>digest.
         seq (lift_result (insert_row
             \<lparr>cr_id = uni ''key_'' @ uid, cr_tenant = ce_tenant env, cr_agent = agent, cr_digest = digest,
              cr_created = now, cr_expires = now + of_int n, cr_revoked = False\<rparr> kept)) (\<lambda>rows'.
         seq (set_rows rows') (\<lambda>_.
           ret \<lparr>ix_credential_id = uni ''key_'' @ uid, ix_agent_id = agent,
             ix_credential = token_prefix @ tail, ix_expires_at = now + of_int n\<rparr>))))))))"

datatype credential_status = Revoked | Expired | Active

text \<open>\<open>list\<close>: newest first.  The clock is read once for each row that is not revoked.\<close>

definition listed ::
  "credential_env \<Rightarrow> (nat \<Rightarrow> rat) \<Rightarrow> pystr
     \<Rightarrow> (pystr \<times> pystr \<times> rat \<times> rat \<times> credential_status) list credential_act" where
  "listed env clk agent =
     seq (with_db env [ce_tenant env, agent]) (\<lambda>_.
       gets (\<lambda>s. map (\<lambda>(i, r). (cr_id r, cr_agent r, cr_created r, cr_expires r,
           if cr_revoked r then Revoked else if cr_expires r \<le> clk i then Expired else Active))
         (enumerate 0 (sort_key (\<lambda>r. - cr_created r)
           (filter (\<lambda>r. cr_tenant r = ce_tenant env \<and> cr_agent r = agent) (cs_rows s))))))"

definition owned :: "credential_env \<Rightarrow> pystr \<Rightarrow> pystr \<Rightarrow> credential_row \<Rightarrow> bool" where
  "owned env agent i r \<longleftrightarrow> cr_id r = i \<and> cr_tenant r = ce_tenant env \<and> cr_agent r = agent"

definition revoke :: "credential_env \<Rightarrow> pystr \<Rightarrow> pystr \<Rightarrow> unit credential_act" where
  "revoke env agent i =
     seq (with_db env [i, ce_tenant env, agent]) (\<lambda>_.
     seq (gets cs_rows) (\<lambda>rows.
       if list_ex (owned env agent i) rows then
         set_rows (map (\<lambda>r. if owned env agent i r then r\<lparr>cr_revoked := True\<rparr> else r) rows)
       else raise (Value_error ''Credential was not found.'')))"

definition live_row :: "credential_env \<Rightarrow> pystr \<Rightarrow> rat \<Rightarrow> credential_row \<Rightarrow> bool" where
  "live_row env digest now r \<longleftrightarrow>
     cr_digest r = digest \<and> cr_tenant r = ce_tenant env \<and> \<not> cr_revoked r \<and> now < cr_expires r"

definition agent_identity :: "credential_env \<Rightarrow> pystr \<Rightarrow> (pystr, pystr) dict" where
  "agent_identity env agent =
     [(uni ''tenant_id'', ce_tenant env), (uni ''agent_id'', agent), (uni ''authorization_mode'', uni ''agent'')]"

definition authenticate_token ::
  "credential_env \<Rightarrow> rat \<Rightarrow> pystr \<Rightarrow> (pystr, pystr) dict option credential_act" where
  "authenticate_token env now token =
     (if \<not> startswith token token_prefix \<or> length token \<noteq> 52 then ret None
      else
        seq (with_db env [ce_tenant env]) (\<lambda>_.
        seq (lift_result (token_digest env token)) (\<lambda>digest.
        seq (gets (\<lambda>s. List.find (live_row env digest now) (cs_rows s))) (\<lambda>row.
          case row of
            None \<Rightarrow> ret None
          | Some r \<Rightarrow>
              seq (agent_of env (cr_agent r)) (\<lambda>found.
                ret (if found = None then None else Some (agent_identity env (cr_agent r))))))))"

subsection \<open>What an operation does to the table\<close>

text \<open>One entry added, or entries revoked; nothing is removed or renewed.\<close>

definition revoked_in :: "credential_row list \<Rightarrow> credential_row list \<Rightarrow> bool" where
  "revoked_in rows rows' \<longleftrightarrow>
     list_all2 (\<lambda>r r'. r' = r \<or> r' = r\<lparr>cr_revoked := True\<rparr>) rows rows'"

lemma revoked_in_refl [simp]: "revoked_in rows rows"
  by (simp add: revoked_in_def list_all2_refl)

lemma revoked_in_map: "revoked_in rows (map (\<lambda>r. if p r then r\<lparr>cr_revoked := True\<rparr> else r) rows)"
  by (simp add: revoked_in_def list_all2_conv_all_nth)

definition grown :: "credential_row list \<Rightarrow> credential_row list \<Rightarrow> bool" where
  "grown rows rows' \<longleftrightarrow>
     (\<exists>mid. revoked_in rows mid \<and>
        (rows' = mid \<or> (\<exists>r. rows' = mid @ [r] \<and> cr_digest r \<notin> cr_digest ` set mid \<and> cr_id r \<notin> cr_id ` set mid)))"

lemma revoked_in_grown: "revoked_in rows rows' \<Longrightarrow> grown rows rows'"
  by (auto simp: grown_def)

lemma grown_refl [simp]: "grown rows rows"
  by (simp add: revoked_in_grown)

lemma agent_of_rows: "agent_of env a s = (r, s') \<Longrightarrow> cs_rows s' = cs_rows s"
  by (auto simp: agent_of_def broker_lookup_def seq_app split: option.splits prod.splits sum.splits)

lemma with_db_state: "with_db env args s = (r, s') \<Longrightarrow> s' = s"
  by (auto simp: with_db_def split: if_splits)

lemma with_db_Inr:
  "with_db env args s = (Inr u, s') \<longleftrightarrow>
     s' = s \<and> ce_db_ok env \<and> (\<forall>a \<in> set args. utf8_encode a \<noteq> None)"
  by (auto simp: with_db_def list_ex_iff)

lemma rotate_grows: "rotate env agent i rows = Inr kept \<Longrightarrow> revoked_in rows kept"
  by (auto simp: rotate_def revoke_id_def revoked_in_map split: option.splits if_splits)

lemma insert_row_grows:
  "revoked_in rows kept \<Longrightarrow> insert_row r kept = Inr rows' \<Longrightarrow> grown rows rows'"
  by (force simp: insert_row_def grown_def list_ex_iff split: if_splits)

lemma issue_Inr:
  assumes "issue env now tail uid agent ttl rotate_id s = (Inr c, s')"
  shows "\<exists>n kept digest. lifetime ttl = Inr n \<and> rotate env agent rotate_id (cs_rows s) = Inr kept \<and>
    token_digest env (token_prefix @ tail) = Inr digest \<and> ix_credential c = token_prefix @ tail \<and>
    insert_row \<lparr>cr_id = uni ''key_'' @ uid, cr_tenant = ce_tenant env, cr_agent = agent, cr_digest = digest,
      cr_created = now, cr_expires = now + of_int n, cr_revoked = False\<rparr> kept = Inr (cs_rows s') \<and>
    ix_agent_id c = agent \<and> ix_expires_at c = now + of_int n \<and> ix_credential_id c = uni ''key_'' @ uid"
  using assms unfolding issue_def seq_Inr_iff
  by (auto simp: seq_Inr_iff set_rows_def dest!: agent_of_rows with_db_state split: if_splits)

lemma issue_grows: "issue env now tail uid agent ttl rotate_id s = (r, s') \<Longrightarrow> grown (cs_rows s) (cs_rows s')"
proof (cases r)
  case (Inl e)
  assume "issue env now tail uid agent ttl rotate_id s = (r, s')"
  with Inl have "cs_rows s' = cs_rows s"
    by (auto simp: issue_def seq_app set_rows_def split: sum.splits prod.splits if_splits
        dest!: agent_of_rows with_db_state)
  then show ?thesis by simp
next
  case (Inr c)
  assume "issue env now tail uid agent ttl rotate_id s = (r, s')"
  with Inr show ?thesis using issue_Inr rotate_grows insert_row_grows by blast
qed

lemma revoke_grows: "revoke env agent i s = (r, s') \<Longrightarrow> grown (cs_rows s) (cs_rows s')"
  by (auto simp: revoke_def seq_app set_rows_def revoked_in_grown revoked_in_map
      split: sum.splits prod.splits if_splits dest!: with_db_state)

lemma authenticate_rows: "authenticate_token env now token s = (r, s') \<Longrightarrow> cs_rows s' = cs_rows s"
  by (auto simp: authenticate_token_def seq_app split: sum.splits prod.splits if_splits option.splits
      dest!: with_db_state agent_of_rows)

subsection \<open>Any interleaving of processes\<close>

inductive credential_step :: "credential_state \<Rightarrow> credential_state \<Rightarrow> bool" where
  step_issue: "issue env now tail uid agent ttl rotate_id s = (r, s') \<Longrightarrow> credential_step s s'"
| step_revoke: "revoke env agent i s = (r', s') \<Longrightarrow> credential_step s s'"
| step_authenticate: "authenticate_token env now token s = (r'', s') \<Longrightarrow> credential_step s s'"
| step_broker: "credential_step s (s\<lparr>cs_broker := b\<rparr>)"

abbreviation credential_run :: "credential_state \<Rightarrow> credential_state \<Rightarrow> bool" where
  "credential_run \<equiv> credential_step\<^sup>*\<^sup>*"

lemma step_grows: "credential_step s s' \<Longrightarrow> grown (cs_rows s) (cs_rows s')"
  by (induction rule: credential_step.induct)
    (auto dest: issue_grows revoke_grows authenticate_rows)

text \<open>No two rows share an id or a digest.\<close>

definition rows_ok :: "credential_row list \<Rightarrow> bool" where
  "rows_ok rows \<longleftrightarrow> distinct (map cr_id rows) \<and> distinct (map cr_digest rows)"

lemma revoked_in_keys:
  assumes "revoked_in rows rows'"
  shows "map cr_id rows' = map cr_id rows \<and> map cr_digest rows' = map cr_digest rows"
  using assms unfolding revoked_in_def
  by (induction rule: list_all2_induct) auto

lemma revoked_in_ok: "revoked_in rows rows' \<Longrightarrow> rows_ok rows' = rows_ok rows"
  by (simp add: rows_ok_def revoked_in_keys)

lemma grown_ok: "grown rows rows' \<Longrightarrow> rows_ok rows \<Longrightarrow> rows_ok rows'"
  using revoked_in_ok by (auto simp: grown_def) (simp add: rows_ok_def)

lemma grown_keeps_revoked:
  assumes "grown rows rows'" and "r \<in> set rows" and "cr_revoked r"
  shows "r \<in> set rows'"
proof -
  have "r \<in> set mid" if "revoked_in rows mid" for mid
    using that assms(2,3) unfolding revoked_in_def
    by (induction rule: list_all2_induct) auto
  then show ?thesis using assms(1) by (auto simp: grown_def)
qed

lemma run_keeps_revoked:
  "credential_run s s' \<Longrightarrow> rows_ok (cs_rows s) \<Longrightarrow> r \<in> set (cs_rows s) \<Longrightarrow> cr_revoked r \<Longrightarrow>
     rows_ok (cs_rows s') \<and> r \<in> set (cs_rows s')"
  by (induction rule: rtranclp_induct) (auto dest: step_grows grown_ok grown_keeps_revoked)

lemma digest_row:
  assumes "rows_ok rows" and "r \<in> set rows" and "q \<in> set rows" and "cr_digest r = cr_digest q"
  shows "r = q"
  using assms by (auto simp: rows_ok_def distinct_map inj_on_def)

definition found_row :: "credential_env \<Rightarrow> rat \<Rightarrow> pystr \<Rightarrow> credential_row list \<Rightarrow> credential_row option" where
  "found_row env now token rows =
     (case token_digest env token of
        Inl _ \<Rightarrow> None
      | Inr digest \<Rightarrow> List.find (live_row env digest now) rows)"

lemma authenticate_Some_iff:
  "authenticate_token env now token s = (Inr (Some ident), s') \<longleftrightarrow>
     startswith token token_prefix \<and> length token = 52 \<and> ce_db_ok env \<and> utf8_encode (ce_tenant env) \<noteq> None \<and>
     (\<exists>r a. found_row env now token (cs_rows s) = Some r \<and>
        agent_of env (cr_agent r) s = (Inr (Some a), s') \<and> ident = agent_identity env (cr_agent r))"
proof (cases "token_digest env token")
  case (Inl e)
  then show ?thesis
    by (auto simp: authenticate_token_def seq_Inr_iff found_row_def with_db_Inr split: if_splits)
next
  case (Inr digest)
  then show ?thesis
    by (cases "List.find (live_row env digest now) (cs_rows s)")
      (auto simp: authenticate_token_def seq_Inr_iff found_row_def with_db_Inr split: if_splits)
qed

text \<open>A revoked credential authenticates nobody, in no later state.\<close>

lemma revoked_is_final:
  assumes "rows_ok (cs_rows s)" and "r \<in> set (cs_rows s)" and "cr_revoked r"
    and "token_digest env token = Inr (cr_digest r)" and "credential_run s s'"
  shows "\<forall>ident s''. authenticate_token env now token s' \<noteq> (Inr (Some ident), s'')"
proof (intro allI notI)
  fix ident s''
  assume "authenticate_token env now token s' = (Inr (Some ident), s'')"
  then obtain q where "List.find (live_row env (cr_digest r) now) (cs_rows s') = Some q"
    using assms(4) by (auto simp: authenticate_Some_iff found_row_def)
  then have q: "q \<in> set (cs_rows s')" "cr_digest q = cr_digest r" "\<not> cr_revoked q"
    by (auto simp: find_Some_iff live_row_def)
  have "rows_ok (cs_rows s') \<and> r \<in> set (cs_rows s')" using run_keeps_revoked assms by blast
  then have "r = q" using digest_row q by metis
  with q(3) assms(3) show False by simp
qed

text \<open>\<open>revoke\<close> and the rotation of \<open>issue\<close> revoke what they name.\<close>

lemma revoke_revokes:
  assumes "revoke env agent i s = (Inr u, s')" and "r' \<in> set (cs_rows s')" and "owned env agent i r'"
  shows "cr_revoked r'"
proof -
  have "cs_rows s' = map (\<lambda>r. if owned env agent i r then r\<lparr>cr_revoked := True\<rparr> else r) (cs_rows s)"
    using assms(1) unfolding revoke_def seq_Inr_iff with_db_Inr set_rows_def by (auto split: if_split_asm)
  then have "set (cs_rows s') = (\<lambda>r. if owned env agent i r then r\<lparr>cr_revoked := True\<rparr> else r) ` set (cs_rows s)"
    by (simp only: set_map)
  with assms(2) obtain r where "r' = (if owned env agent i r then r\<lparr>cr_revoked := True\<rparr> else r)" by blast
  with assms(3) show ?thesis by (cases "owned env agent i r") simp_all
qed

text \<open>A credential stays in the table.  The row with its digest is the only one, and no operation changes
  it but for revoking it.\<close>

definition digest_rows :: "pystr \<Rightarrow> credential_row list \<Rightarrow> credential_row list" where
  "digest_rows d rows = filter (\<lambda>p. cr_digest p = d) rows"

lemma digest_rows_revoked: "revoked_in rows rows' \<Longrightarrow> revoked_in (digest_rows d rows) (digest_rows d rows')"
  unfolding revoked_in_def by (induction rule: list_all2_induct) (auto simp: digest_rows_def)

lemma digest_rows_grown:
  assumes "grown rows rows'" and "digest_rows d rows = [q]"
  shows "digest_rows d rows' = [q] \<or> digest_rows d rows' = [q\<lparr>cr_revoked := True\<rparr>]"
proof -
  obtain mid where mid: "revoked_in rows mid" "rows' = mid \<or>
      (\<exists>r. rows' = mid @ [r] \<and> cr_digest r \<notin> cr_digest ` set mid \<and> cr_id r \<notin> cr_id ` set mid)"
    using assms(1) by (auto simp: grown_def)
  have q: "digest_rows d mid = [q] \<or> digest_rows d mid = [q\<lparr>cr_revoked := True\<rparr>]"
    using digest_rows_revoked [OF mid(1), of d] assms(2) by (auto simp: revoked_in_def list_all2_Cons1)
  then have "set (digest_rows d mid) \<noteq> {}" by auto
  then have "d \<in> cr_digest ` set mid" by (auto simp: digest_rows_def)
  with mid(2) have "digest_rows d rows' = digest_rows d mid" by (auto simp: digest_rows_def)
  with q show ?thesis by simp
qed

lemma run_keeps_row:
  assumes "credential_run s t" and "digest_rows d (cs_rows s) = [q]"
  shows "digest_rows d (cs_rows t) = [q] \<or> digest_rows d (cs_rows t) = [q\<lparr>cr_revoked := True\<rparr>]"
  using assms(1)
proof (induction rule: rtranclp_induct)
  case (step t u)
  then show ?case using digest_rows_grown [OF step_grows [OF step(2)]] by fastforce
qed (use assms(2) in simp)

lemma find_filter: "(\<And>x. p x \<Longrightarrow> q x) \<Longrightarrow> List.find p xs = List.find p (filter q xs)"
  by (induction xs) auto

lemma find_live:
  assumes "digest_rows d rows = [q]"
  shows "List.find (live_row env d now) rows = (if live_row env d now q then Some q else None)"
proof -
  have "List.find (live_row env d now) rows = List.find (live_row env d now) (digest_rows d rows)"
    unfolding digest_rows_def by (rule find_filter) (simp add: live_row_def)
  then show ?thesis by (simp add: assms)
qed

text \<open>A step of a process that neither revokes nor rotates the credential named \<open>i\<close>.\<close>

inductive sparing_step :: "pystr \<Rightarrow> credential_state \<Rightarrow> credential_state \<Rightarrow> bool" for i where
  spare_issue: "issue env now tail uid agent ttl rotate_id s = (r, s') \<Longrightarrow> rotate_id \<noteq> Some i \<Longrightarrow> sparing_step i s s'"
| spare_revoke: "revoke env agent j s = (r', s') \<Longrightarrow> j \<noteq> i \<Longrightarrow> sparing_step i s s'"
| spare_authenticate: "authenticate_token env now token s = (r'', s') \<Longrightarrow> sparing_step i s s'"
| spare_broker: "sparing_step i s (s\<lparr>cs_broker := b\<rparr>)"

lemma sparing_is_step: "sparing_step i s t \<Longrightarrow> credential_step s t"
  by (induction rule: sparing_step.induct) (blast intro: credential_step.intros)+

lemma sparing_is_run: "(sparing_step i)\<^sup>*\<^sup>* s t \<Longrightarrow> credential_run s t"
  by (induction rule: rtranclp_induct) (auto intro: sparing_is_step rtranclp.rtrancl_into_rtrancl)

lemma digest_rows_map:
  assumes "digest_rows d rows = [q]" and "\<not> p q"
  shows "digest_rows d (map (\<lambda>r. if p r then r\<lparr>cr_revoked := True\<rparr> else r) rows) = [q]"
proof -
  have "digest_rows d (map (\<lambda>r. if p r then r\<lparr>cr_revoked := True\<rparr> else r) rows) =
      map (\<lambda>r. if p r then r\<lparr>cr_revoked := True\<rparr> else r) (digest_rows d rows)"
    unfolding digest_rows_def by (induction rows) auto
  then show ?thesis using assms by simp
qed

lemma issue_spares:
  assumes "issue env now tail uid agent ttl rotate_id s = (r, s')" and "rotate_id \<noteq> Some (cr_id q)"
    and "digest_rows d (cs_rows s) = [q]"
  shows "digest_rows d (cs_rows s') = [q]"
proof (cases r)
  case (Inl e)
  then have "cs_rows s' = cs_rows s"
    using assms(1) by (auto simp: issue_def seq_app set_rows_def split: sum.splits prod.splits if_splits
        dest!: agent_of_rows with_db_state)
  then show ?thesis using assms(3) by simp
next
  case (Inr c)
  then obtain kept new where kept: "rotate env agent rotate_id (cs_rows s) = Inr kept"
      and new: "insert_row new kept = Inr (cs_rows s')"
    using issue_Inr assms(1) by blast
  have q: "digest_rows d kept = [q]"
    using kept assms(2,3) by (auto simp: rotate_def revoke_id_def digest_rows_map split: option.splits if_splits)
  then have "set (digest_rows d kept) = {q}" by simp
  then have "q \<in> set kept" "cr_digest q = d" by (auto simp: digest_rows_def)
  moreover have "cs_rows s' = kept @ [new]" "\<forall>p \<in> set kept. cr_digest p \<noteq> cr_digest new"
    using new by (auto simp: insert_row_def list_ex_iff split: if_splits)
  ultimately show ?thesis using q by (auto simp: digest_rows_def)
qed

lemma revoke_spares:
  assumes "revoke env agent j s = (r, s')" and "j \<noteq> cr_id q" and "digest_rows d (cs_rows s) = [q]"
  shows "digest_rows d (cs_rows s') = [q]"
proof -
  have "\<not> owned env agent j q" using assms(2) by (auto simp: owned_def)
  then show ?thesis
    using assms(1,3) digest_rows_map [OF assms(3)]
    by (auto simp: revoke_def seq_app set_rows_def split: sum.splits prod.splits if_splits dest!: with_db_state)
qed

lemma sparing_run_keeps:
  assumes "(sparing_step (cr_id q))\<^sup>*\<^sup>* s t" and "digest_rows d (cs_rows s) = [q]"
  shows "digest_rows d (cs_rows t) = [q]"
  using assms(1)
proof (induction rule: rtranclp_induct)
  case (step t u)
  from step(2,3) show ?case
    by (cases rule: sparing_step.cases) (auto simp: issue_spares revoke_spares dest: authenticate_rows)
qed (use assms(2) in simp)

text \<open>The row of an issued credential.\<close>

definition issued_row :: "credential_env \<Rightarrow> rat \<Rightarrow> pystr \<Rightarrow> issued_credential \<Rightarrow> credential_row" where
  "issued_row env now digest c = \<lparr>cr_id = ix_credential_id c, cr_tenant = ce_tenant env, cr_agent = ix_agent_id c,
     cr_digest = digest, cr_created = now, cr_expires = ix_expires_at c, cr_revoked = False\<rparr>"

lemma issue_adds_row:
  assumes "issue env now tail uid agent ttl rotate_id s = (Inr c, s')"
  shows "\<exists>digest. token_digest env (ix_credential c) = Inr digest \<and> ix_credential c = token_prefix @ tail \<and>
    ix_agent_id c = agent \<and> digest_rows digest (cs_rows s') = [issued_row env now digest c]"
proof -
  obtain n kept digest where i: "token_digest env (token_prefix @ tail) = Inr digest" "ix_credential c = token_prefix @ tail"
      "ix_agent_id c = agent" "ix_expires_at c = now + of_int n" "ix_credential_id c = uni ''key_'' @ uid"
      and ins: "insert_row \<lparr>cr_id = uni ''key_'' @ uid, cr_tenant = ce_tenant env, cr_agent = agent,
        cr_digest = digest, cr_created = now, cr_expires = now + of_int n, cr_revoked = False\<rparr> kept
        = Inr (cs_rows s')"
    using issue_Inr [OF assms] by blast
  have "cs_rows s' = kept @ [issued_row env now digest c]" "\<forall>p \<in> set kept. cr_digest p \<noteq> digest"
    using ins i by (auto simp: insert_row_def list_ex_iff issued_row_def split: if_splits)
  then have "digest_rows digest (cs_rows s') = [issued_row env now digest c]"
    by (simp add: digest_rows_def issued_row_def filter_False)
  then show ?thesis using i by auto
qed

lemma authenticate_row:
  assumes "token_digest env token = Inr d" and "digest_rows d (cs_rows t) = [q]" and "cr_tenant q = ce_tenant env"
    and "startswith token token_prefix" and "length token = 52" and "ce_db_ok env" and "utf8_encode (ce_tenant env) \<noteq> None"
  shows "authenticate_token env now token t = (Inr (Some ident), t') \<longleftrightarrow>
    \<not> cr_revoked q \<and> now < cr_expires q \<and> (\<exists>a. agent_of env (cr_agent q) t = (Inr (Some a), t')) \<and>
    ident = agent_identity env (cr_agent q)"
proof -
  have "set (digest_rows d (cs_rows t)) = {q}" using assms(2) by simp
  then have "cr_digest q = d" by (auto simp: digest_rows_def)
  then have "found_row env now token (cs_rows t) = (if \<not> cr_revoked q \<and> now < cr_expires q then Some q else None)"
    using find_live [OF assms(2)] assms(1,3) by (auto simp: found_row_def live_row_def)
  then show ?thesis using assms(4-7) by (auto simp: authenticate_Some_iff split: if_splits)
qed

end
