(* ===== verification/Gateway_Auth.thy ===== *)
theory Gateway_Auth
  imports Agent_Credentials Deployment
begin

text \<open>
  \<open>selfhost/auth.py\<close> (who may call the gateway) and \<open>selfhost/credentials.py\<close> (what the
  destination is shown).  PyJWT is a parameter: \<open>je_claims\<close> fetches the signing key and decodes
  the token for the audience, issuer and required claims of the configuration; \<open>Inr None\<close> is
  its \<open>PyJWTError\<close>.  An \<open>AuthError\<close> is the value \<open>Auth_failed\<close> with its code and status; other
  exceptions leave the method.
\<close>

record jwt_env =
  je_claims :: "jwt_config \<Rightarrow> pystr \<Rightarrow> (pystr, json) dict option result"

record gateway_identity =
  gi_subject :: pystr
  gi_scopes :: "pystr list"
  gi_identity :: "(pystr, pystr) dict"

datatype auth_outcome = Authenticated gateway_identity | Auth_failed string nat

definition auth_bytes :: "pystr \<Rightarrow> bytes result" where
  "auth_bytes s = (case utf8_encode s of None \<Rightarrow> Inl Unicode_error | Some b \<Rightarrow> Inr b)"

subsection \<open>Client key\<close>

definition client_key_auth :: "pystr \<Rightarrow> (pystr, pystr) dict \<Rightarrow> auth_outcome result" where
  "client_key_auth client_key hs =
     rbind (auth_bytes (get_or hs (uni ''x-td-client-key'') [])) (\<lambda>supplied.
     rbind (auth_bytes client_key) (\<lambda>expected.
       Inr (if supplied = expected
            then Authenticated \<lparr>gi_subject = uni ''client-key'', gi_scopes = [], gi_identity = []\<rparr>
            else Auth_failed ''invalid_client_key'' 401)))"

subsection \<open>Agent key\<close>

definition approval_id_ok :: "pystr \<Rightarrow> bool" where
  "approval_id_ok s \<longleftrightarrow> startswith s (uni ''apv_'') \<and> class_match is_hex 12 12 (drop 4 s)"

definition agent_result :: "(pystr, pystr) dict \<Rightarrow> (pystr, pystr) dict \<Rightarrow> auth_outcome" where
  "agent_result hs ident =
     (let approval = get_or hs (uni ''x-td-approval-id'') [] in
      if approval = [] then
        Authenticated \<lparr>gi_subject = get_or ident (uni ''agent_id'') [], gi_scopes = [], gi_identity = ident\<rparr>
      else if \<not> approval_id_ok approval then Auth_failed ''invalid_approval_id'' 400
      else
        Authenticated \<lparr>gi_subject = get_or ident (uni ''agent_id'') [], gi_scopes = [],
          gi_identity = dset (uni ''approval_id'') approval ident\<rparr>)"

definition agent_key_auth ::
  "credential_env option \<Rightarrow> rat \<Rightarrow> (pystr, pystr) dict \<Rightarrow> auth_outcome credential_act" where
  "agent_key_auth cenv now hs =
     (let v = get_or hs (uni ''authorization'') [] in
      case cenv of
        None \<Rightarrow> ret (Auth_failed ''invalid_agent_key'' 401)
      | Some env \<Rightarrow>
          if \<not> startswith v (uni ''Bearer '') then ret (Auth_failed ''invalid_agent_key'' 401)
          else seq (authenticate_token env now (drop 7 v)) (\<lambda>ident.
                 ret (case ident of
                   None \<Rightarrow> Auth_failed ''invalid_agent_key'' 401
                 | Some i \<Rightarrow> agent_result hs i)))"

subsection \<open>JSON Web Tokens\<close>

definition scopes_of :: "json \<Rightarrow> pystr list option" where
  "scopes_of v =
     (case v of
        JStr s \<Rightarrow> Some (py_words s)
      | JArr vs \<Rightarrow> those (map (\<lambda>v. case v of JStr s \<Rightarrow> Some s | _ \<Rightarrow> None) vs)
      | _ \<Rightarrow> None)"

fun first_claim :: "(pystr, json) dict \<Rightarrow> string list \<Rightarrow> json option" where
  "first_claim claims [] = None"
| "first_claim claims (n # ns) =
     (case map_of claims (uni n) of None \<Rightarrow> first_claim claims ns | Some v \<Rightarrow> Some v)"

definition party_ok :: "jwt_config \<Rightarrow> (pystr, json) dict \<Rightarrow> bool" where
  "party_ok j claims \<longleftrightarrow>
     jw_authorized_parties j = [] \<or>
     (case first_claim claims [''azp'', ''appid'', ''cid''] of
        Some (JStr p) \<Rightarrow> p \<in> set (jw_authorized_parties j)
      | _ \<Rightarrow> False)"

text \<open>The subject and scopes of verified claims, \<open>None\<close> for an exception the code catches.\<close>

definition subject_scopes :: "jwt_config \<Rightarrow> (pystr, json) dict \<Rightarrow> (pystr \<times> pystr list) option" where
  "subject_scopes j claims =
     (case map_of claims (uni ''sub'') of
        Some (JStr subject) \<Rightarrow>
          if subject = [] then None
          else (case scopes_of (get_or claims (uni ''scope'') (get_or claims (uni ''scp'') (JStr []))) of
            None \<Rightarrow> None
          | Some scopes \<Rightarrow> if party_ok j claims then Some (subject, scopes) else None)
      | _ \<Rightarrow> None)"

definition required_fields :: "identity_mode \<Rightarrow> pystr list" where
  "required_fields mode =
     (if mode = Agent_identity then [uni ''tenant_id'', uni ''agent_id'']
      else [uni ''tenant_id'', uni ''user_id'', uni ''agent_id'', uni ''delegation_id'', uni ''task_id''])"

definition skipped_field :: "identity_mode \<Rightarrow> pystr \<Rightarrow> bool" where
  "skipped_field mode f \<longleftrightarrow>
     mode = Agent_identity \<and> f \<in> {uni ''user_id'', uni ''task_id'', uni ''delegation_id''}"

text \<open>\<open>claims.get(name)\<close>, \<open>None\<close> for an absent claim and for a null one.\<close>

definition claim_value :: "(pystr, json) dict \<Rightarrow> pystr \<Rightarrow> json option" where
  "claim_value claims n = (case map_of claims n of None \<Rightarrow> None | Some JNull \<Rightarrow> None | Some v \<Rightarrow> Some v)"

definition identity_value :: "json \<Rightarrow> pystr option" where
  "identity_value v =
     (case v of JStr s \<Rightarrow> if s \<noteq> [] \<and> length s \<le> 256 then Some s else None | _ \<Rightarrow> None)"

fun map_claims ::
  "identity_mode \<Rightarrow> (pystr, json) dict \<Rightarrow> (pystr \<times> pystr option) list \<Rightarrow> (pystr, pystr) dict option" where
  "map_claims mode claims [] = Some []"
| "map_claims mode claims ((field, name) # rest) =
     (if skipped_field mode field then map_claims mode claims rest
      else case name of
        None \<Rightarrow> map_claims mode claims rest
      | Some n \<Rightarrow>
          (case claim_value claims n of
             None \<Rightarrow> if field \<in> set (required_fields mode) then None else map_claims mode claims rest
           | Some v \<Rightarrow>
               (case identity_value v of
                  None \<Rightarrow> None
                | Some s \<Rightarrow> map_option (\<lambda>d. (field, s) # d) (map_claims mode claims rest))))"

definition jwt_identity :: "jwt_config \<Rightarrow> (pystr, json) dict \<Rightarrow> (pystr, pystr) dict option" where
  "jwt_identity j claims =
     (case jw_identity_claims j of
        None \<Rightarrow> Some []
      | Some c \<Rightarrow>
          map_option (\<lambda>d. if jw_identity_mode j = Agent_identity
              then dset (uni ''authorization_mode'') (uni ''agent'') d else d)
            (map_claims (jw_identity_mode j) claims (claim_fields c)))"

definition claims_outcome :: "jwt_config \<Rightarrow> (pystr, json) dict \<Rightarrow> auth_outcome" where
  "claims_outcome j claims =
     (case subject_scopes j claims of
        None \<Rightarrow> Auth_failed ''invalid_token'' 401
      | Some (subject, scopes) \<Rightarrow>
          if \<not> set (jw_required_scopes j) \<subseteq> set scopes then Auth_failed ''insufficient_scope'' 403
          else (case jwt_identity j claims of
            None \<Rightarrow> Auth_failed ''invalid_agent_identity'' 401
          | Some ident \<Rightarrow>
              Authenticated \<lparr>gi_subject = subject, gi_scopes = scopes, gi_identity = ident\<rparr>))"

fun caught_by_jwt :: "exn \<Rightarrow> bool" where
  "caught_by_jwt (Value_error m) = True"
| "caught_by_jwt (Inspection m) = True"
| "caught_by_jwt Type_error = True"
| "caught_by_jwt Key_error = True"
| "caught_by_jwt Unicode_error = True"
| "caught_by_jwt _ = False"

definition jwt_auth :: "jwt_env \<Rightarrow> jwt_config \<Rightarrow> (pystr, pystr) dict \<Rightarrow> auth_outcome result" where
  "jwt_auth jenv j hs =
     (case split_on 32 (get_or hs (uni ''authorization'') []) of
        [scheme, token] \<Rightarrow>
          if scheme \<noteq> uni ''Bearer'' \<or> token = [] then Inr (Auth_failed ''invalid_token'' 401)
          else (case je_claims jenv j token of
            Inl e \<Rightarrow> if caught_by_jwt e then Inr (Auth_failed ''invalid_token'' 401) else Inl e
          | Inr None \<Rightarrow> Inr (Auth_failed ''invalid_token'' 401)
          | Inr (Some claims) \<Rightarrow> Inr (claims_outcome j claims))
      | _ \<Rightarrow> Inr (Auth_failed ''invalid_token'' 401))"

subsection \<open>The authenticator\<close>

record authenticator =
  au_config :: gateway_auth
  au_client_key :: pystr
  au_jwt :: jwt_env
  au_agents :: "credential_env option"

definition authenticate ::
  "authenticator \<Rightarrow> rat \<Rightarrow> (pystr, pystr) dict \<Rightarrow> auth_outcome credential_act" where
  "authenticate au now hs =
     (case au_config au of
        Client_key_auth \<Rightarrow> lift_result (client_key_auth (au_client_key au) hs)
      | Agent_key_auth \<Rightarrow> agent_key_auth (au_agents au) now hs
      | Jwt_auth j \<Rightarrow> lift_result (jwt_auth (au_jwt au) j hs))"

definition auth_metadata :: "gateway_auth \<Rightarrow> json option" where
  "auth_metadata a =
     (case a of
        Jwt_auth j \<Rightarrow> Some (JObj
          [(uni ''resource'', JStr (jw_resource j)),
           (uni ''authorization_servers'', JArr (map JStr (jw_authorization_servers j))),
           (uni ''bearer_methods_supported'', JArr [JStr (uni ''header'')]),
           (uni ''scopes_supported'', JArr (map JStr (jw_required_scopes j)))])
      | _ \<Rightarrow> None)"

definition challenge :: "url_env \<Rightarrow> gateway_auth \<Rightarrow> string option \<Rightarrow> pystr option result" where
  "challenge ue a error =
     (case a of
        Jwt_auth j \<Rightarrow>
          rbind (metadata_url ue j) (\<lambda>url.
            Inr (Some (uni ''Bearer resource_metadata='' @ [34] @ url @ [34] @
              (case error of
                 None \<Rightarrow> []
               | Some code \<Rightarrow>
                   uni '', error='' @ [34] @ uni code @ [34] @
                   (if code = ''insufficient_scope''
                    then uni '', scope='' @ [34] @ join_with [32] (jw_required_scopes j) @ [34] else []))))) 
      | _ \<Rightarrow> Inr None)"

subsection \<open>The destination's credential\<close>

record target_provider =
  tp_config :: target_auth
  tp_gateway_mode :: gateway_mode
  tp_secret :: "pystr option"

definition target_provider_of :: "target_auth \<Rightarrow> gateway_mode \<Rightarrow> pystr option \<Rightarrow> target_provider result" where
  "target_provider_of t mode secret =
     (if truthy (ta_secret_file t) \<noteq> truthy secret then Inl (Value_error ''Configured target secret is unavailable'')
      else Inr \<lparr>tp_config = t, tp_gateway_mode = mode, tp_secret = secret\<rparr>)"

definition passthrough :: "pystr option \<Rightarrow> (pystr, pystr) dict \<Rightarrow> (pystr, pystr) dict result" where
  "passthrough inbound hs =
     (case inbound of
        None \<Rightarrow> Inr hs
      | Some a \<Rightarrow>
          if a = [] then Inr hs
          else if \<not> startswith a (uni ''Bearer '') \<or> length (split_on 32 a) \<noteq> 2
          then Inl (Value_error ''unsupported_destination_auth'')
          else Inr (dset (uni ''authorization'') a hs))"

definition apply_credential ::
  "target_provider \<Rightarrow> (pystr, pystr) dict \<Rightarrow> pystr option \<Rightarrow> (pystr, pystr) dict result" where
  "apply_credential tp hs inbound =
     (let r = AList.delete (uni ''authorization'') hs; t = tp_config tp;
          secret = (case tp_secret tp of None \<Rightarrow> [] | Some s \<Rightarrow> s) in
      if ta_mode t = Passthrough_bearer then passthrough inbound r
      else if tp_gateway_mode tp = Mode_client_key \<and> truthy inbound
      then Inl (Value_error ''destination_auth_conflict'')
      else if ta_mode t = Target_none then Inr r
      else if ta_mode t = Static_bearer then Inr (dset (uni ''authorization'') (uni ''Bearer '' @ secret) r)
      else (case ta_header t of
          None \<Rightarrow> Inl Type_error
        | Some h \<Rightarrow>
            if map_of r h \<noteq> None then Inl (Value_error ''destination_auth_conflict'')
            else Inr (dset h (ta_prefix t @ secret) r)))"

end
