(* ===== verification/Gateway.thy ===== *)
theory Gateway
  imports Gateway_Auth Ext_Proc
begin

text \<open>
  \<open>selfhost/gateway.py\<close>: the adapter that authenticates a caller, drops what the caller may
  not decide, attests the request and sends it into the inspected path.

  A stage of the handler returns a value or stops, by a reply or by an exception.  Parameters:
  the serialisation of a request by \<open>httpx\<close> (\<open>ge_build\<close>), the exchange with Envoy
  (\<open>ge_send\<close>; \<open>Timeout_error\<close> stands for its \<open>HTTPError\<close> too), the data plane's admission
  check, whether a slot was free in time, the identifiers and
  the clock.  Outcome counters and the timeline are left out; the connection to Envoy is the
  constant origin of the source.
\<close>

record gateway_request =
  gr_method :: pystr
  gr_headers :: "(bytes \<times> bytes) list"
  gr_raw_path :: bytes
  gr_query :: bytes
  gr_url_path :: pystr
  gr_body :: "bytes list result"

record upstream_reply =
  up_status :: nat
  up_headers :: "(pystr, pystr) dict"
  up_chunks :: "bytes list result"

record gateway_env =
  ge_deployment :: deployment
  ge_url :: url_env
  ge_auth :: authenticator
  ge_target :: target_provider
  ge_crypto :: crypto
  ge_key :: bytes
  ge_unavailable :: bool
  ge_admitted :: bool
  ge_build :: "pystr \<Rightarrow> pystr \<Rightarrow> (pystr, pystr) dict \<Rightarrow> bytes \<Rightarrow> pystr \<times> (pystr, pystr) dict"
  ge_send :: "http_message \<Rightarrow> upstream_reply result"
  ge_run_id :: pystr
  ge_nonce :: pystr
  ge_issued :: int
  ge_now :: rat

datatype gateway_reply =
    Error_reply string nat
  | Forwarded_reply nat "(pystr, pystr) dict" bytes

datatype gateway_stop = Reply gateway_reply | Raised exn

type_synonym 'a stage = "gateway_stop + 'a"

abbreviation stop :: "string \<Rightarrow> nat \<Rightarrow> 'a stage" where
  "stop code status \<equiv> Inl (Reply (Error_reply code status))"

definition latin1 :: "bytes \<Rightarrow> pystr" where
  "latin1 b = map unat b"

definition ascii_text :: "bytes \<Rightarrow> pystr stage" where
  "ascii_text b = (if is_ascii (latin1 b) then Inr (latin1 b) else Inl (Raised Unicode_error))"

subsection \<open>The caller's headers\<close>

fun read_headers :: "(bytes \<times> bytes) list \<Rightarrow> (pystr, pystr) dict \<Rightarrow> (pystr, pystr) dict stage" where
  "read_headers [] hs = Inr hs"
| "read_headers ((k, v) # kvs) hs =
     (let name = py_lower (latin1 k) in
      if map_of hs name \<noteq> None then stop ''duplicate_header'' 400
      else read_headers kvs (dset name (latin1 v) hs))"

definition streaming_query :: "provider_profile \<Rightarrow> pystr \<Rightarrow> pystr \<Rightarrow> bool" where
  "streaming_query p query url_path \<longleftrightarrow>
     pp_provider p = Google \<and> query = uni ''alt=sse'' \<and> endswith url_path (uni '':streamGenerateContent'')"

definition caller_headers ::
  "gateway_env \<Rightarrow> gateway_request \<Rightarrow> (pystr, pystr) dict
     \<Rightarrow> ((pystr, pystr) dict \<times> (pystr, pystr) dict) stage" where
  "caller_headers env rq hs =
     (case dp_llm (ge_deployment env) of
        None \<Rightarrow> Inr (hs, hs)
      | Some p \<Rightarrow>
          (case gateway_headers hs p (auth_mode (dp_gateway_auth (ge_deployment env))) of
             Inl (Value_error code) \<Rightarrow> stop code 401
           | Inl e \<Rightarrow> Inl (Raised e)
           | Inr pair \<Rightarrow>
               rbind (ascii_text (gr_query rq)) (\<lambda>query.
                 if query \<noteq> [] \<and> \<not> streaming_query p query (gr_url_path rq)
                 then stop ''unsupported_provider_query'' 400 else Inr pair)))"

subsection \<open>Checks before the exchange\<close>

definition refused_headers :: "pystr list" where
  "refused_headers = [uni ''upgrade'', uni ''cookie'', uni ''mcp-session-id'', uni ''proxy-authorization'']"

definition check_mapping :: "deployment \<Rightarrow> pystr \<Rightarrow> pystr \<Rightarrow> unit stage" where
  "check_mapping d meth path =
     (if (meth, path) \<in> (\<lambda>r. (rr_method r, rr_path r)) ` set (dp_routes d) then Inr ()
      else if (meth = uni ''GET'' \<or> meth = uni ''DELETE'') \<and>
          list_ex (\<lambda>r. rr_path r = path \<and> rr_protocol r = Mcp) (dp_routes d)
      then stop ''method_not_supported'' 405
      else stop ''unmapped_route'' 403)"

definition check_request :: "gateway_env \<Rightarrow> gateway_request \<Rightarrow> (pystr, pystr) dict \<Rightarrow> pystr stage" where
  "check_request env rq hs =
     rbind (ascii_text (gr_raw_path rq)) (\<lambda>path.
     rbind (check_mapping (ge_deployment env) (gr_method rq) path) (\<lambda>_.
       if list_ex (\<lambda>n. map_of hs n \<noteq> None) refused_headers then stop ''unsupported_session_or_upgrade'' 400
       else if py_lower (get_or hs (uni ''content-encoding'') (uni ''identity'')) \<noteq> uni ''identity''
       then stop ''unsupported_content_encoding'' 415
       else if ge_unavailable env then stop ''dataplane_unavailable'' 503
       else Inr path))"

definition forwardable :: "(pystr, pystr) dict \<Rightarrow> (pystr, pystr) dict" where
  "forwardable hs = filter (\<lambda>(k, v). k \<notin> set TRANSPORT_HEADERS \<and> \<not> reserved_header k) hs"

definition destination_headers ::
  "gateway_env \<Rightarrow> (pystr, pystr) dict \<Rightarrow> (pystr, pystr) dict \<Rightarrow> (pystr, pystr) dict stage" where
  "destination_headers env outbound hs =
     (case apply_credential (ge_target env) (forwardable outbound)
         (if dp_llm (ge_deployment env) = None then map_of hs (uni ''authorization'') else None) of
        Inl (Value_error code) \<Rightarrow> stop code 400
      | Inl e \<Rightarrow> Inl (Raised e)
      | Inr clean \<Rightarrow> Inr clean)"

text \<open>The \<open>except\<close> clauses around the exchange.\<close>

fun exchange_error :: "exn \<Rightarrow> gateway_stop" where
  "exchange_error (Inspection r) = Reply (Error_reply ''request_limit_exceeded'' 413)"
| "exchange_error Timeout_error = Reply (Error_reply ''inspection_path_unavailable'' 503)"
| "exchange_error e = Raised e"

definition in_exchange :: "'a result \<Rightarrow> 'a stage" where
  "in_exchange r = (case r of Inl e \<Rightarrow> Inl (exchange_error e) | Inr x \<Rightarrow> Inr x)"

definition media_of :: "(pystr, pystr) dict \<Rightarrow> pystr" where
  "media_of hs = py_strip (before_sep 59 (get_or hs (uni ''content-type'') []))"

definition nominated :: "(pystr, pystr) dict \<Rightarrow> pystr list" where
  "nominated hs = map (\<lambda>w. py_lower (py_strip w)) (split_on 44 (get_or hs (uni ''connection'') []))"

definition read_body :: "gateway_env \<Rightarrow> gateway_request \<Rightarrow> (pystr, pystr) dict \<Rightarrow> bytes stage" where
  "read_body env rq hs =
     rbind (if ge_admitted env then Inr () else stop ''gateway_busy'' 503) (\<lambda>_.
     rbind (in_exchange (rbind (gr_body rq) (\<lambda>chunks.
         bounded_body (dp_max_body_bytes (ge_deployment env)) chunks []))) (\<lambda>body.
       if body \<noteq> [] \<and> media_of hs \<noteq> uni ''application/json'' \<and> media_of hs \<noteq> uni ''application/json-rpc''
       then stop ''unsupported_request_media_type'' 415
       else if \<not> list_all (\<lambda>t. t = [] \<or> t = uni ''close'' \<or> t = uni ''keep-alive'') (nominated hs)
       then stop ''unsupported_connection_header'' 400
       else Inr body))"

subsection \<open>The exchange\<close>

definition upstream_authority :: "gateway_env \<Rightarrow> pystr stage" where
  "upstream_authority env =
     (case urlsplit (ge_url env) (dp_upstream (ge_deployment env)) of
        None \<Rightarrow> Inl (Raised (Value_error ''invalid_url''))
      | Some u \<Rightarrow> Inr (u_netloc u))"

text \<open>What is attested: the source, the run and the identity of the caller.\<close>

definition attested_identity :: "gateway_env \<Rightarrow> gateway_identity \<Rightarrow> (pystr, json) dict" where
  "attested_identity env who =
     fold (\<lambda>(k, v). dset k (JStr v)) (gi_identity who)
       [(uni ''source_id'', JStr (uni ''selfhost-adapter'')), (uni ''run_id'', JStr (ge_run_id env))]"

definition attestation_ttl :: int where
  "attestation_ttl = 60"

definition attested_message ::
  "gateway_env \<Rightarrow> gateway_request \<Rightarrow> gateway_identity \<Rightarrow> pystr \<Rightarrow> (pystr, pystr) dict \<Rightarrow> bytes
     \<Rightarrow> http_message stage" where
  "attested_message env rq who path clean body =
     rbind (upstream_authority env) (\<lambda>authority.
     rbind (ascii_text (gr_query rq)) (\<lambda>query.
       let hs = dset (uni ''accept-encoding'') (uni ''identity'') (dset (uni ''host'') authority clean);
           target = path @ (if gr_query rq = [] then [] else 63 # query);
           (raw, sent) = ge_build env (gr_method rq) target hs body;
           m = \<lparr>hm_method = gr_method rq, hm_authority = authority, hm_path = raw, hm_headers = sent,
                hm_body = body, hm_complete = True\<rparr>
       in Inr (m\<lparr>hm_headers := dset ATTESTATION_HEADER
             (sign_attestation (ge_crypto env) m (attested_identity env who) (ge_key env) (ge_nonce env)
               (ge_issued env) attestation_ttl) sent\<rparr>)))"

definition check_reply :: "gateway_env \<Rightarrow> upstream_reply \<Rightarrow> unit stage" where
  "check_reply env up =
     (if 300 \<le> up_status up \<and> up_status up < 400 then stop ''upstream_redirect_not_supported'' 502
      else if before_sep 59 (get_or (up_headers up) (uni ''content-type'') []) = uni ''text/event-stream'' \<and>
          dp_llm (ge_deployment env) = None
      then stop ''streaming_not_supported'' 502
      else if map_of (up_headers up) (uni ''set-cookie'') \<noteq> None \<or>
          map_of (up_headers up) (uni ''mcp-session-id'') \<noteq> None
      then stop ''upstream_session_not_supported'' 502
      else Inr ())"

definition reply_headers :: "(pystr, pystr) dict \<Rightarrow> (pystr, pystr) dict" where
  "reply_headers hs =
     filter (\<lambda>(k, v). k \<noteq> uni ''server'' \<and> k \<noteq> uni ''www-authenticate'') (forwardable hs)"

definition reply_body :: "nat \<Rightarrow> upstream_reply \<Rightarrow> bytes stage" where
  "reply_body limit up =
     rbind (in_exchange (up_chunks up)) (\<lambda>chunks.
       case bounded_body limit chunks [] of
         Inl _ \<Rightarrow> stop ''response_limit_exceeded'' 502
       | Inr data \<Rightarrow> Inr data)"

definition exchange :: "gateway_env \<Rightarrow> http_message \<Rightarrow> gateway_reply stage" where
  "exchange env m =
     rbind (in_exchange (ge_send env m)) (\<lambda>up.
     rbind (check_reply env up) (\<lambda>_.
     rbind (reply_body (dp_max_body_bytes (ge_deployment env)) up) (\<lambda>data.
       Inr (Forwarded_reply (up_status up) (reply_headers (up_headers up)) data))))"

text \<open>Everything after authentication up to the exchange: the message that is sent.\<close>

definition prepare ::
  "gateway_env \<Rightarrow> gateway_request \<Rightarrow> (pystr, pystr) dict \<Rightarrow> (pystr, pystr) dict \<Rightarrow> gateway_identity
     \<Rightarrow> http_message stage" where
  "prepare env rq hs outbound who =
     rbind (check_request env rq hs) (\<lambda>path.
     rbind (destination_headers env outbound hs) (\<lambda>clean.
     rbind (read_body env rq hs) (\<lambda>body.
       attested_message env rq who path clean body)))"

subsection \<open>The handler\<close>

fun stage_reply :: "gateway_reply stage \<Rightarrow> gateway_reply result" where
  "stage_reply (Inr r) = Inr r"
| "stage_reply (Inl (Reply r)) = Inr r"
| "stage_reply (Inl (Raised e)) = Inl e"

text \<open>The reply and the message sent into the inspected path, if any.\<close>

definition answer :: "gateway_env \<Rightarrow> http_message stage \<Rightarrow> gateway_reply result \<times> http_message option" where
  "answer env prepared =
     (case prepared of
        Inl stopped \<Rightarrow> (stage_reply (Inl stopped), None)
      | Inr m \<Rightarrow> (stage_reply (exchange env m), Some m))"

definition forward ::
  "gateway_env \<Rightarrow> gateway_request \<Rightarrow> credential_state
     \<Rightarrow> (gateway_reply result \<times> http_message option) \<times> credential_state" where
  "forward env rq s =
     (case rbind (read_headers (gr_headers rq) []) (\<lambda>hs.
           rbind (caller_headers env rq hs) (\<lambda>(outbound, auth). Inr (hs, outbound, auth))) of
        Inl stopped \<Rightarrow> ((stage_reply (Inl stopped), None), s)
      | Inr (hs, outbound, auth) \<Rightarrow>
          (case authenticate (ge_auth env) (ge_now env) auth s of
             (Inl e, s') \<Rightarrow> ((Inl e, None), s')
           | (Inr (Auth_failed code status), s') \<Rightarrow> ((Inr (Error_reply code status), None), s')
           | (Inr (Authenticated who), s') \<Rightarrow> (answer env (prepare env rq hs outbound who), s')))"

end
