(* ===== verification/Py_Eval.thy ===== *)
theory Py_Eval
  imports Protocol_Json
begin

text \<open>
  Evaluation on concrete texts by the simplifier: what encoding, decoding and \<open>unquote\<close> do to
  plain ASCII, the equations of the JSON parser for a numeral as fuel, and a weak congruence
  rule that keeps the simplifier out of continuations until their argument is a value.
\<close>

lemmas parse_value_numeral =
  parse_value.simps(2) [of je st "pred_numeral k" d for je st k d, folded numeral_eq_Suc]
  parse_value.simps(3) [of je st "pred_numeral k" d c r for je st k d c r, folded numeral_eq_Suc]

lemmas parse_elements_numeral =
  parse_elements.simps(2) [of je st "pred_numeral k" d s for je st k d s, folded numeral_eq_Suc]

lemmas parse_members_numeral =
  parse_members.simps(2) [of je st "pred_numeral k" d for je st k d, folded numeral_eq_Suc]
  parse_members.simps(3) [of je st "pred_numeral k" d q s for je st k d q s, folded numeral_eq_Suc]

text \<open>ASCII text is its own encoding.\<close>

lemma ascii_chars: "is_ascii s \<Longrightarrow> list_all is_scalar s \<and> concat (map utf8_char s) = s"
  by (induction s) (auto simp: is_ascii_def is_scalar_def is_surrogate_def utf8_char_def)

lemma encode_ascii: "is_ascii s \<Longrightarrow> utf8_encode s = Some (map of_nat s)"
  by (simp add: utf8_encode_def ascii_chars)

lemma ascii_codes: "is_ascii s \<Longrightarrow> map unat (map of_nat s :: bytes) = s"
  unfolding map_map by (intro map_idI) (auto simp: is_ascii_def list_all_iff)

lemma decode_ascii: "is_ascii s \<Longrightarrow> utf8_decode (map of_nat s) = Some s"
  by (rule decode_encode) (simp add: encode_ascii)

lemma decode_replace_ascii: "is_ascii s \<Longrightarrow> decode_replace s = s"
  using utf8_units_encoded [of s] ascii_chars [of s] by (simp add: decode_replace_def comp_def)

lemma percent_bytes_plain: "37 \<notin> set s \<Longrightarrow> percent_bytes s = s"
  by (induction s rule: percent_bytes.induct) auto

lemma unquote_run_plain:
  "is_ascii (rev acc @ s) \<Longrightarrow> 37 \<notin> set (rev acc @ s) \<Longrightarrow> unquote_run acc s = rev acc @ s"
  by (induction acc s rule: unquote_run.induct)
    (auto simp: is_ascii_def percent_bytes_plain decode_replace_ascii)

lemma unquote_plain: "is_ascii s \<Longrightarrow> 37 \<notin> set s \<Longrightarrow> unquote s = s"
  using unquote_run_plain [of "[]" s] by (simp add: unquote_def)

lemma rbind_weak_cong: "m = m' \<Longrightarrow> rbind m f = rbind m' f"
  by simp

lemma scan_string_plain: "c \<noteq> 34 \<Longrightarrow> c \<noteq> 92 \<Longrightarrow> 32 \<le> c \<Longrightarrow>
  scan_string (c # s) = rbind (scan_string s) (\<lambda>(t, r). Inr (c # t, r))"
  by simp

lemmas json_eval = json_loads_def parse_value_numeral parse_elements_numeral parse_members_numeral
  skip_ws_def scan_word_def scan_number_def scan_sign_def scan_integer_def scan_fraction_def
  scan_exponent_def number_value_def int_of_numeral_def nat_of_digits_def is_digit_def build_object_def
  constant_value_def uni_def

declare parse_value.simps [simp del] parse_elements.simps [simp del] parse_members.simps [simp del]

end
