(* ===== verification/Sorted_Keys.thy ===== *)
theory Sorted_Keys
  imports Py_Json_Print "HOL-Library.Multiset"
begin

text \<open>
  \<open>sort_keys=True\<close>: sorting the members of an object is a permutation, keeps the lookups of distinct
  keys and gives a normal form (\<open>sort_keys_idem\<close>).
\<close>

subsection \<open>Sorting keys is idempotent\<close>

definition str_le :: "pystr \<Rightarrow> pystr \<Rightarrow> bool" where
  "str_le a b \<longleftrightarrow> \<not> str_less b a"

lemma str_le_trans: "str_le a b \<Longrightarrow> str_le b c \<Longrightarrow> str_le a c"
  unfolding str_le_def
proof (induction b a arbitrary: c rule: str_less.induct)
  case (3 x s y t)
  then show ?case by (cases c) auto
qed (auto elim: str_less.elims)

lemma str_le_total: "str_le a b \<or> str_le b a"
  unfolding str_le_def by (induction a b rule: str_less.induct) auto

abbreviation pairs_sorted :: "(pystr \<times> 'a) list \<Rightarrow> bool" where
  "pairs_sorted \<equiv> sorted_wrt (\<lambda>p q. str_le (fst p) (fst q))"

lemma insert_pair_sorted: "pairs_sorted qs \<Longrightarrow> pairs_sorted (insert_pair p qs)"
proof (induction qs)
  case (Cons q qs)
  show ?case
  proof (cases "str_less (fst q) (fst p)")
    case True
    then have "str_le (fst q) (fst p)" using str_le_total [of "fst q" "fst p"] by (auto simp: str_le_def)
    then show ?thesis using Cons True by (auto simp: set_insert_pair)
  next
    case False
    then have "str_le (fst p) (fst q)" by (simp add: str_le_def)
    then show ?thesis using Cons.prems False by (auto intro: str_le_trans)
  qed
qed simp

lemma sort_pairs_sorted: "pairs_sorted (sort_pairs ps)"
  by (induction ps) (auto simp: sort_pairs_def insert_pair_sorted)

lemma insert_pair_front: "\<forall>q \<in> set qs. str_le (fst p) (fst q) \<Longrightarrow> insert_pair p qs = p # qs"
  by (cases qs) (auto simp: str_le_def)

lemma sort_pairs_same: "pairs_sorted ps \<Longrightarrow> sort_pairs ps = ps"
  by (induction ps) (auto simp: sort_pairs_def insert_pair_front)

lemma insert_pair_map:
  "insert_pair (k, f v) (map (\<lambda>(k, v). (k, f v)) qs) = map (\<lambda>(k, v). (k, f v)) (insert_pair (k, v) qs)"
  by (induction qs) auto

lemma sort_pairs_map: "sort_pairs (map (\<lambda>(k, v). (k, f v)) ps) = map (\<lambda>(k, v). (k, f v)) (sort_pairs ps)"
proof (induction ps)
  case (Cons p ps)
  then show ?case by (cases p) (simp add: sort_pairs_def insert_pair_map)
qed (simp add: sort_pairs_def)

lemma insert_pair_mset: "mset (insert_pair p qs) = add_mset p (mset qs)"
  by (induction qs) auto

lemma sort_pairs_mset: "mset (sort_pairs ps) = mset ps"
  by (induction ps) (auto simp: sort_pairs_def insert_pair_mset)

lemma sort_pairs_distinct [simp]: "distinct (map fst (sort_pairs ps)) \<longleftrightarrow> distinct (map fst ps)"
  by (metis sort_pairs_mset mset_map mset_eq_imp_distinct_iff)

lemma map_of_sort_pairs: "distinct (map fst ps) \<Longrightarrow> map_of (sort_pairs ps) = map_of ps"
proof (rule ext)
  fix k assume d: "distinct (map fst ps)"
  then have same: "map_of (sort_pairs ps) k = Some v \<longleftrightarrow> map_of ps k = Some v" for v by simp
  show "map_of (sort_pairs ps) k = map_of ps k"
  proof (cases "map_of (sort_pairs ps) k")
    case None
    then have "map_of ps k \<noteq> Some v" for v using same [of v] by simp
    then show ?thesis using None by (cases "map_of ps k") auto
  next
    case (Some v)
    then have "map_of ps k = Some v" using same [of v] by simp
    then show ?thesis using Some by (simp only:)
  qed
qed

lemma sort_keys_idem: "sort_keys (sort_keys v) = sort_keys v"
proof (induction v)
  case (JObj ps)
  have "map (\<lambda>(k, v). (k, sort_keys v)) (sort_pairs (map (\<lambda>(k, v). (k, sort_keys v)) ps)) =
      sort_pairs (map (\<lambda>(k, v). (k, sort_keys v)) ps)"
    using JObj by (intro map_idI) auto
  then show ?case by (simp add: sort_pairs_same [OF sort_pairs_sorted])
qed simp_all

lemma printable_sort_keys: "printable je n v \<Longrightarrow> printable je n (sort_keys v)"
proof (induction v arbitrary: n)
  case (JArr vs)
  then obtain m where "n = Suc m" by (cases n) auto
  with JArr show ?case by (auto simp: list_all_iff)
next
  case (JObj ps)
  then obtain m where n: "n = Suc m" by (cases n) auto
  have "printable je m (sort_keys v)" if "(k, v) \<in> set ps" for k v
    using JObj.IH [of "(k, v)" v m] JObj.prems that by (auto simp: n list_all_iff)
  moreover have "map fst (map (\<lambda>(k, v). (k, sort_keys v)) ps) = map fst ps"
    by (simp add: comp_def case_prod_beta)
  ultimately show ?case using JObj.prems by (auto simp: n list_all_iff simp del: map_map)
qed simp_all

end
