(* ===== verification/Identity_Facts.thy ===== *)
theory Identity_Facts
  imports Py_Eval Identity Sorted_Keys
begin

text \<open>
  Lemmas on attestations: base64 reads back what it wrote, a payload of plain ASCII strings and
  integers prints the same with and without \<open>ensure_ascii\<close>, sorting its keys keeps what is
  stored under them, and an attestation header does not change the digest it signs.
\<close>

subsection \<open>Base64\<close>

lemma b64_char_value: "v < 64 \<Longrightarrow> b64_value (b64_char v) = Some v"
  by (auto simp: b64_value_def b64_char_def)

lemma b64_char_range:
  "v < 64 \<Longrightarrow> b64_char v \<notin> {61, 45, 95, 46} \<and> b64_char v < 128 \<and> 43 \<le> b64_char v"
  by (auto simp: b64_char_def)

definition b64_pad :: "nat \<Rightarrow> pystr" where
  "b64_pad n = replicate ((4 - n mod 4) mod 4) 61"

lemma a2b_steps:
  assumes "v < 64"
  shows "a2b 0 left pads False (b64_char v # s) = a2b 1 v 0 False s"
    and "a2b 1 left pads False (b64_char v # s) = map_option ((#) (left * 4 + v div 16)) (a2b 2 (v mod 16) 0 False s)"
    and "a2b 2 left pads False (b64_char v # s) = map_option ((#) (left * 16 + v div 4)) (a2b 3 (v mod 4) 0 False s)"
    and "a2b 3 left pads False (b64_char v # s) = map_option ((#) (left * 64 + v)) (a2b 0 0 0 False s)"
  using b64_char_range [OF assms] b64_char_value [OF assms] by simp_all

lemma a2b_ends:
  "a2b 0 left pads False [] = Some []" "a2b 2 left 0 False [61, 61] = Some []" "a2b 3 left 0 False [61] = Some []"
  by simp_all

lemma b64_pads: "b64_pad 0 = []" "b64_pad 2 = [61, 61]" "b64_pad 3 = [61]" "b64_pad (n + 4) = b64_pad n"
  by (simp_all add: b64_pad_def numeral_2_eq_2)

lemma byte_list_less: "\<forall>n \<in> set (map unat (bs :: bytes)). n < 256"
proof
  fix n
  assume "n \<in> set (map unat bs)"
  then obtain b :: "8 word" where "n = unat b" by auto
  then show "n < 256" using unsigned_less [of b, where 'a = nat] by simp
qed

lemma a2b_groups:
  "\<forall>n \<in> set ns. n < 256 \<Longrightarrow> a2b 0 0 0 False (b64_groups ns @ b64_pad (length (b64_groups ns))) = Some ns"
proof (induction ns rule: b64_groups.induct)
  case 1
  then show ?case by (simp only: b64_groups.simps b64_pads list.size append_Nil a2b_ends)
next
  case (2 a)
  then have r: "a div 4 < 64" "a mod 4 * 16 < 64" "a div 4 * 4 + a mod 4 * 16 div 16 = a" by auto
  have len: "length (b64_groups [a]) = 2" by simp
  show ?case
    by (subst len, unfold b64_groups.simps b64_pads append_Cons append_Nil
        a2b_steps(1) [OF r(1)] a2b_steps(2) [OF r(2)] a2b_ends) (use r(3) in simp)
next
  case (3 a b)
  then have r: "a div 4 < 64" "a mod 4 * 16 + b div 16 < 64" "b mod 16 * 4 < 64" by auto
  have "b div 16 < 16" using 3 by auto
  then have d: "(a mod 4 * 16 + b div 16) div 16 = a mod 4" "(a mod 4 * 16 + b div 16) mod 16 = b div 16" by auto
  have len: "length (b64_groups [a, b]) = 3" by simp
  show ?case
    by (subst len, unfold b64_groups.simps b64_pads append_Cons append_Nil
        a2b_steps(1) [OF r(1)] a2b_steps(2) [OF r(2)] a2b_steps(3) [OF r(3)] a2b_ends d) simp
next
  case (4 a b c r)
  then have l: "a div 4 < 64" "a mod 4 * 16 + b div 16 < 64" "b mod 16 * 4 + c div 64 < 64" "c mod 64 < 64" by auto
  have "b div 16 < 16" "c div 64 < 4" using 4(2) by auto
  then have d: "(a mod 4 * 16 + b div 16) div 16 = a mod 4" "(a mod 4 * 16 + b div 16) mod 16 = b div 16"
      "(b mod 16 * 4 + c div 64) div 4 = b mod 16" "(b mod 16 * 4 + c div 64) mod 4 = c div 64" by auto
  have len: "length (b64_groups (a # b # c # r)) = length (b64_groups r) + 4" by simp
  have "a2b 0 0 0 False (b64_groups r @ b64_pad (length (b64_groups r))) = Some r" using 4 by simp
  then show ?case
    by (subst len, unfold b64_groups.simps b64_pads append_Cons
        a2b_steps(1) [OF l(1)] a2b_steps(2) [OF l(2)] a2b_steps(3) [OF l(3)] a2b_steps(4) [OF l(4)] d) simp
qed

lemma b64_groups_chars:
  "\<forall>n \<in> set ns. n < 256 \<Longrightarrow> c \<in> set (b64_groups ns) \<Longrightarrow> c \<notin> {61, 45, 95, 46} \<and> c < 128 \<and> 43 \<le> c"
proof (induction ns rule: b64_groups.induct)
  case (4 a b c' r)
  have "c' div 64 < 4" "b div 16 < 16" using 4(2) by auto
  then have "a div 4 < 64" "a mod 4 * 16 + b div 16 < 64" "b mod 16 * 4 + c' div 64 < 64" "c' mod 64 < 64"
    using 4(2) by auto
  with 4 b64_char_range show ?case by auto
next
  case (3 a b)
  have "b div 16 < 16" using 3 by auto
  then have "a div 4 < 64" "a mod 4 * 16 + b div 16 < 64" "b mod 16 * 4 < 64" using 3 by auto
  with 3(2) b64_char_range show ?case by auto
next
  case (2 a)
  then have "a div 4 < 64" "a mod 4 * 16 < 64" by auto
  with 2(2) b64_char_range show ?case by auto
qed simp

lemma urlsafe_round_trip: "urlsafe_decode (urlsafe_encode bs) = Some bs"
proof -
  let ?g = "b64_groups (map unat bs)"
  have bytes: "\<forall>n \<in> set (map unat bs). n < 256"
    by (rule byte_list_less)
  note chars = b64_groups_chars [OF bytes]
  have inv: "map (\<lambda>c. if c = 45 then 43 else if c = 95 then 47 else c) (urlsafe_encode bs) = ?g"
    unfolding urlsafe_encode_def map_map using chars by (intro map_idI) (auto simp: comp_def)
  have len: "length (urlsafe_encode bs) = length ?g" by (simp add: urlsafe_encode_def)
  have pads: "map (\<lambda>c. if c = 45 then 43 else if c = 95 then 47 else c) (b64_pad n) = b64_pad n" for n
    by (simp add: b64_pad_def)
  have "is_ascii (urlsafe_encode bs)"
    using chars by (force simp: is_ascii_def list_all_iff urlsafe_encode_def)
  moreover have "?g @ b64_pad (length ?g) = [] \<or> hd (?g @ b64_pad (length ?g)) \<noteq> 61"
    using chars by (cases ?g) (auto simp: b64_pads)
  ultimately show ?thesis
    using a2b_groups [OF bytes] unfolding urlsafe_decode_def len b64_pad_def [symmetric] map_append inv pads b64decode_def
    by (auto simp: comp_def)
qed

lemma urlsafe_no_dot: "46 \<notin> set (urlsafe_encode bs)" "is_ascii (urlsafe_encode bs)"
  "\<forall>c \<in> set (urlsafe_encode bs). 43 \<le> c"
proof -
  have bytes: "\<forall>n \<in> set (map unat bs). n < 256"
    by (rule byte_list_less)
  note chars = b64_groups_chars [OF bytes]
  show "46 \<notin> set (urlsafe_encode bs)" using chars by (auto simp: urlsafe_encode_def split: if_splits)
  show "is_ascii (urlsafe_encode bs)"
    using chars by (force simp: is_ascii_def list_all_iff urlsafe_encode_def)
  show "\<forall>c \<in> set (urlsafe_encode bs). 43 \<le> c"
    using chars by (force simp: urlsafe_encode_def split: if_splits)
qed


subsection \<open>Plain payloads\<close>

text \<open>Text without escapes, controls and characters beyond ASCII; claims made of it and of integers.\<close>

definition plain_text :: "pystr \<Rightarrow> bool" where
  "plain_text s \<longleftrightarrow> list_all (\<lambda>c. 32 \<le> c \<and> c < 127) s"

fun plain_claim :: "json \<Rightarrow> bool" where
  "plain_claim (JStr s) = plain_text s"
| "plain_claim (JInt i) = (length (dec_nat (nat \<bar>i\<bar>)) \<le> 4300)"
| "plain_claim _ = False"

definition plain_claims :: "(pystr, json) dict \<Rightarrow> bool" where
  "plain_claims ps \<longleftrightarrow> distinct (dkeys ps) \<and> (\<forall>(k, v) \<in> set ps. plain_text k \<and> plain_claim v)"

lemma dump_string_plain: "plain_text s \<Longrightarrow> dump_string True s = dump_string False s"
proof -
  assume "plain_text s"
  then have "map (escape_char True) s = map (escape_char False) s"
    by (auto simp: plain_text_def list_all_iff escape_char_def)
  then show ?thesis by (simp only: dump_string_def)
qed

lemma dumps_plain: "plain_claim v \<Longrightarrow> dumps True v = dumps False v"
  by (cases v) (simp_all add: dump_string_plain)

lemma dumps_plain_claims:
  assumes "plain_claims ps"
  shows "dumps True (JObj ps) = dumps False (JObj ps)"
proof -
  have "map (\<lambda>(k, v). dump_string True k @ 58 # dumps True v) ps =
      map (\<lambda>(k, v). dump_string False k @ 58 # dumps False v) ps"
    using assms by (auto simp: plain_claims_def dump_string_plain dumps_plain)
  then show ?thesis by (simp only: dumps.simps)
qed

definition visible :: "pystr \<Rightarrow> bool" where
  "visible s \<longleftrightarrow> list_all (\<lambda>c. 0 < c \<and> c < 128) s"

lemma visible_append [simp]: "visible (s @ t) \<longleftrightarrow> visible s \<and> visible t" "visible []"
  "visible (c # s) \<longleftrightarrow> 0 < c \<and> c < 128 \<and> visible s"
  by (simp_all add: visible_def)

lemma visible_join: "visible sep \<Longrightarrow> \<forall>w \<in> set ws. visible w \<Longrightarrow> visible (join_with sep ws)"
  by (induction sep ws rule: join_with.induct) auto

lemma visible_dump_string: "plain_text s \<Longrightarrow> visible (dump_string a s)"
  by (induction s) (auto simp: plain_text_def dump_string_def escape_char_def)

lemma visible_claim: "plain_claim v \<Longrightarrow> visible (dumps a v)"
proof (cases v)
  case (JInt i)
  have "\<forall>c \<in> set (dec_nat n). 0 < c \<and> c < 128" for n
    using dec_nat_all_digits [of n] by (auto simp: list_all_iff is_digit_def)
  then show ?thesis by (auto simp: JInt dec_int_def visible_def list_all_iff)
qed (simp_all add: visible_dump_string)

lemma visible_claims:
  assumes "plain_claims ps"
  shows "visible (dumps a (JObj ps))"
proof -
  have "visible (dump_string a k @ 58 # dumps a v)" if "(k, v) \<in> set ps" for k v
  proof -
    from assms that have "plain_text k" "plain_claim v" by (auto simp: plain_claims_def)
    then show ?thesis by (simp add: visible_dump_string visible_claim)
  qed
  then have "visible (join_with [44] (map (\<lambda>(k, v). dump_string a k @ 58 # dumps a v) ps))"
    by (intro visible_join) auto
  then show ?thesis by simp
qed

lemma plain_claims_sorted: "plain_claims ps \<Longrightarrow> plain_claims (sort_pairs ps)"
  by (simp add: plain_claims_def)

lemma sort_keys_plain: "plain_claims ps \<Longrightarrow> sort_keys (JObj ps) = JObj (sort_pairs ps)"
proof -
  assume "plain_claims ps"
  then have "\<forall>(k, v) \<in> set ps. sort_keys v = v" by (auto simp: plain_claims_def elim!: plain_claim.elims)
  then have "map (\<lambda>(k, v). (k, sort_keys v)) ps = ps" by (intro map_idI) auto
  then show ?thesis by simp
qed

lemma plain_claims_dset:
  assumes "plain_claims ps" "plain_text k" "plain_claim v"
  shows "plain_claims (dset k v ps)"
proof -
  have "set (dset k v ps) \<subseteq> insert (k, v) (set ps)" by (induction ps) auto
  with assms show ?thesis unfolding plain_claims_def by fastforce
qed

lemma printable_claims: "plain_claims ps \<Longrightarrow> printable je (Suc d) (JObj ps)"
  by (auto simp: plain_claims_def list_all_iff elim!: plain_claim.elims)

lemma loads_claims:
  assumes "plain_claims ps" "0 < nest_limit je"
  shows "json_loads je st (dumps True (JObj ps)) = Inr (JObj ps)"
proof -
  obtain n where n: "nest_limit je = Suc n" using assms(2) gr0_implies_Suc by blast
  show ?thesis
    unfolding dumps_plain_claims [OF assms(1)]
    by (rule loads_dumps) (simp only: n printable_claims [OF assms(1)])
qed

text \<open>How long an encoded payload is at most.\<close>

fun claim_size :: "json \<Rightarrow> nat" where
  "claim_size (JStr s) = 2 * length s + 2"
| "claim_size (JInt i) = Suc (length (dec_nat (nat \<bar>i\<bar>)))"
| "claim_size _ = 0"

lemma length_dump_string: "plain_text s \<Longrightarrow> length (dump_string a s) \<le> 2 * length s + 2"
  by (induction s) (auto simp: plain_text_def dump_string_def escape_char_def)

lemma length_dumps_claim: "plain_claim v \<Longrightarrow> length (dumps a v) \<le> claim_size v"
  using length_dump_string by (cases v) (auto simp: dec_int_def)

lemma length_join_with: "length (join_with [c] ws) \<le> (\<Sum>w \<leftarrow> ws. Suc (length w))"
  by (induction "[c]" ws rule: join_with.induct) auto

lemma sum_sort_pairs: "(\<Sum>p \<leftarrow> sort_pairs ps. f p :: nat) = (\<Sum>p \<leftarrow> ps. f p)"
proof -
  have "(\<Sum>q \<leftarrow> insert_pair p qs. f q) = f p + (\<Sum>q \<leftarrow> qs. f q)" for p qs by (induction qs) auto
  then show ?thesis by (induction ps) (simp_all add: sort_pairs_def)
qed

lemma length_b64_groups: "length (b64_groups ns) \<le> 2 * length ns"
  by (induction ns rule: b64_groups.induct) auto

lemma short_attestation:
  assumes "plain_claims ps" and "(\<Sum>(k, v) \<leftarrow> ps. 2 * length k + claim_size v + 5) \<le> 4000"
  shows "length (urlsafe_encode (canonical_json (JObj ps))) \<le> 8192"
proof -
  let ?f = "\<lambda>(k, v). dump_string True k @ 58 # dumps True v"
  have size: "Suc (length (?f p)) \<le> (case p of (k, v) \<Rightarrow> 2 * length k + claim_size v + 5)" if "p \<in> set ps" for p
  proof -
    obtain k v where p: "p = (k, v)" by fastforce
    then have "plain_text k" "plain_claim v" using assms(1) that by (auto simp: plain_claims_def)
    then show ?thesis using length_dump_string [of k True] length_dumps_claim [of v True] by (simp add: p)
  qed
  have "length (dumps True (JObj (sort_pairs ps))) \<le> 2 + (\<Sum>w \<leftarrow> map ?f (sort_pairs ps). Suc (length w))"
    using length_join_with [of 44 "map ?f (sort_pairs ps)"] by simp
  also have "(\<Sum>w \<leftarrow> map ?f (sort_pairs ps). Suc (length w)) = (\<Sum>p \<leftarrow> ps. Suc (length (?f p)))"
    unfolding map_map comp_def by (rule sum_sort_pairs)
  also have "\<dots> \<le> (\<Sum>(k, v) \<leftarrow> ps. 2 * length k + claim_size v + 5)"
    by (rule sum_list_mono) (rule size)
  finally have "length (dumps True (JObj (sort_pairs ps))) \<le> 2 + 4000"
    using assms(2) by linarith
  then have "length (canonical_json (JObj ps)) \<le> 4002"
    by (simp add: canonical_json_def sort_keys_plain [OF assms(1)] del: dumps.simps sort_keys.simps)
  then show ?thesis
    using length_b64_groups [of "map unat (canonical_json (JObj ps))"] by (simp add: urlsafe_encode_def)
qed

subsection \<open>Reading an attestation\<close>

text \<open>
  What is assumed of the libraries: a MAC and a digest are 64 hexadecimal digits, and the encoding
  of an ASCII text without NUL is detected as such.
\<close>

definition crypto_ok :: "crypto \<Rightarrow> bool" where
  "crypto_ok cr \<longleftrightarrow>
     (\<forall>k b. length (hmac_sha256 cr k b) = 64 \<and> list_all is_hex (hmac_sha256 cr k b)) \<and>
     (\<forall>b. length (sha256 cr b) = 64 \<and> list_all is_hex (sha256 cr b)) \<and>
     (\<forall>s. visible s \<longrightarrow> json_text cr (map of_nat s) = Some s) \<and> 0 < nest_limit (crypto_json cr)"

lemma split_dot: "46 \<notin> set a \<Longrightarrow> 46 \<notin> set b \<Longrightarrow> split_on 46 (a @ uni ''.'' @ b) = [a, b]"
proof (induction a)
  case Nil
  then have "split_on 46 b = [b]" by (induction b) auto
  then show ?case by (simp add: uni_def)
qed auto

lemma hex_no_dot: "list_all is_hex s \<Longrightarrow> 46 \<notin> set s"
  by (auto simp: list_all_iff is_hex_def)

text \<open>An attestation header is not among the headers that are signed.\<close>

lemma application_headers_reserved:
  "reserved_header k \<Longrightarrow> application_headers (dset k v hs) = application_headers hs"
  by (induction hs) (auto simp: application_headers_def is_application_header_def)

lemma attestation_reserved: "reserved_header ATTESTATION_HEADER"
  by (simp add: reserved_header_def ATTESTATION_HEADER_def uni_def)

lemma request_digest_attested [simp]:
  "request_digest cr (m\<lparr>hm_headers := dset ATTESTATION_HEADER v hs\<rparr>) = request_digest cr (m\<lparr>hm_headers := hs\<rparr>)"
  by (simp add: request_digest_def digest_input_def application_headers_reserved [OF attestation_reserved])

lemma signed_payload_signed:
  assumes ok: "crypto_ok cr" and plain: "plain_claims ps"
    and enc: "encoded = urlsafe_encode (canonical_json (JObj ps))" and len: "length encoded \<le> 8192"
    and h: "map_of (hm_headers m) ATTESTATION_HEADER = Some (encoded @ uni ''.'' @ hmac_sha256 cr (vr_key av) (ascii_bytes encoded))"
  shows "signed_payload cr av m = Inr (JObj (sort_pairs ps))"
proof -
  let ?mac = "hmac_sha256 cr (vr_key av) (ascii_bytes encoded)"
  have mac: "length ?mac = 64" "list_all is_hex ?mac" using ok by (auto simp: crypto_ok_def)
  have parts: "split_on 46 (encoded @ uni ''.'' @ ?mac) = [encoded, ?mac]"
    using urlsafe_no_dot(1) hex_no_dot [OF mac(2)] by (intro split_dot) (simp_all add: enc)
  have raw: "utf8_encode encoded = Some (ascii_bytes encoded)"
    using encode_ascii [OF urlsafe_no_dot(2)] by (simp add: enc ascii_bytes_def)
  have "canonical_json (JObj ps) = map of_nat (dumps True (JObj (sort_pairs ps)))"
    by (simp only: canonical_json_def sort_keys_plain [OF plain])
  moreover have "visible (dumps True (JObj (sort_pairs ps)))"
    by (rule visible_claims [OF plain_claims_sorted [OF plain]])
  ultimately have "Option.bind (urlsafe_decode encoded) (json_text cr) = Some (dumps True (JObj (sort_pairs ps)))"
    using ok by (simp only: enc urlsafe_round_trip Option.bind.bind_lunit crypto_ok_def)
  moreover have "json_loads (crypto_json cr) False (dumps True (JObj (sort_pairs ps))) = Inr (JObj (sort_pairs ps))"
    using ok by (intro loads_claims plain_claims_sorted [OF plain]) (simp add: crypto_ok_def)
  ultimately show ?thesis
    using mac len by (simp add: signed_payload_def h parts raw del: dumps.simps)
qed

end
