(* ===== verification/Protocol_Properties.thy ===== *)
theory Protocol_Properties
  imports Py_Eval Identity
begin

text \<open>
  What the protocol layer guarantees to the engine: which bytes \<open>strict_json\<close> accepts and how
  it fails, that an accepted value survives printing and reading, that an MCP request means the
  same in its headers and in its body, and that a nested URL stays within the allowed origins.
\<close>

subsection \<open>Strict JSON\<close>

definition strict_json_codes :: "string list" where
  "strict_json_codes = [''invalid_json'', ''duplicate_json_key'', ''nonfinite_json_number'',
     ''json_node_limit_exceeded'', ''json_depth_exceeded'']"

definition coded :: "exn \<Rightarrow> bool" where
  "coded e \<longleftrightarrow> (\<forall>r. e = Inspection r \<longrightarrow> r \<in> set strict_json_codes)"

lemma coded_simps [simp]:
  "coded (Value_error m)" "coded Failure" "coded Recursion_error" "coded Unicode_error"
  "coded (Inspection r) \<longleftrightarrow> r \<in> set strict_json_codes"
  by (auto simp: coded_def)

lemma scan_string_coded: "scan_string s = Inl e \<Longrightarrow> coded e"
  by (induction s rule: scan_string.induct) (auto simp: rbind_Inl_iff split: if_splits option.splits)

lemma leaf_coded:
  "number_value je t f = Inl e \<Longrightarrow> coded e"
  "build_object st ps = Inl e \<Longrightarrow> coded e"
  "scan_word st s = Some (Inl e, r) \<Longrightarrow> coded e"
  by (auto simp: number_value_def build_object_def scan_word_def constant_value_def strict_json_codes_def
      split: if_splits)

lemma parse_coded:
  "parse_value je st n d s = Inl e \<Longrightarrow> coded e"
  "parse_elements je st n d s = Inl e \<Longrightarrow> coded e"
  "parse_members je st n d s = Inl e \<Longrightarrow> coded e"
proof (induction je st n d s and je st n d s and je st n d s arbitrary: e and e and e
    rule: parse_value_parse_elements_parse_members.induct)
  case (3 je st n d c r)
  then show ?case
    by (auto simp: rbind_Inl_iff dest: scan_string_coded leaf_coded split: if_splits option.splits sum.splits)
next
  case (5 je st n d s)
  show ?case
  proof (cases "parse_value je st n d s")
    case (Inl x)
    with 5 show ?thesis by simp
  next
    case (Inr p)
    obtain v r where p: "p = (v, r)" by fastforce
    show ?thesis
    proof (cases "skip_ws r")
      case Nil
      with 5(3) Inr p show ?thesis by auto
    next
      case (Cons c r')
      with 5 Inr p show ?thesis by (auto simp: rbind_Inl_iff split: if_splits)
    qed
  qed
next
  case (8 je st n d q s)
  show ?case
  proof (cases "scan_string s")
    case (Inl x)
    with 8(3) scan_string_coded [OF Inl] show ?thesis by (auto split: if_splits)
  next
    case (Inr p)
    obtain k r where p: "p = (k, r)" by fastforce
    show ?thesis
    proof (cases "q = 34 \<and> (\<exists>r1. skip_ws r = 58 # r1)")
      case False
      with 8(3) Inr p show ?thesis by (cases "skip_ws r") (auto split: if_splits)
    next
      case True
      then obtain r1 where q: "q = 34" and r1: "skip_ws r = 58 # r1" by blast
      show ?thesis
      proof (cases "parse_value je st n d (skip_ws r1)")
        case (Inl x)
        with 8 q Inr p r1 show ?thesis by simp
      next
        case v: (Inr p2)
        obtain v' r2 where p2: "p2 = (v', r2)" by fastforce
        with 8 q Inr p r1 v show ?thesis
          by (cases "skip_ws r2") (auto simp: rbind_Inl_iff split: if_splits)
      qed
    qed
  qed
qed simp_all

lemma check_value_coded:
  "check_value md mn d v k = Inl e \<Longrightarrow> coded e"
  "check_values md mn d vs k = Inl e \<Longrightarrow> coded e"
  "check_members md mn d ps k = Inl e \<Longrightarrow> coded e"
proof (induction md mn d v k and md mn d vs k and md mn d ps k arbitrary: e and e and e
    rule: check_value_check_values_check_members.induct)
  case (1 md mn d v k)
  then show ?case
    by (subst (asm) check_value.simps)
      (auto simp: strict_json_codes_def split: if_splits json.splits)
qed (auto simp: rbind_Inl_iff)

text \<open>C12: strict_json accepts exactly the UTF-8 texts that the JSON reader accepts and whose value
  stays within 8192 nodes and the configured depth and has no number that is not finite; every
  rejection is an \<open>InspectionError\<close> with one of five codes, whatever the bytes.\<close>

theorem strict_json_accepts:
  "case strict_json je md raw of
     Inr v \<Rightarrow> (\<exists>s. utf8_decode raw = Some s \<and> json_loads je True s = Inr v) \<and>
       json_count v \<le> 8192 \<and> nested_within md 0 v \<and> \<not> nonfinite v
   | Inl e \<Rightarrow> (\<exists>code \<in> set strict_json_codes. e = Inspection code) \<and>
       \<not> (\<exists>s v. utf8_decode raw = Some s \<and> json_loads je True s = Inr v \<and> json_count v \<le> 8192 \<and>
           nested_within md 0 v \<and> \<not> nonfinite v)"
proof (cases "strict_json je md raw")
  case (Inr v)
  with strict_json_Inr [of je md raw v] show ?thesis by (simp add: json_nodes_def) blast
next
  case (Inl e)
  have loads: "json_loads je True s = Inl x \<Longrightarrow> coded x" for s x
    by (auto simp: json_loads_def rbind_Inl_iff dest: parse_coded split: if_splits)
  have "\<exists>code \<in> set strict_json_codes. json_failure x = Inspection code" if "coded x" for x
    using that by (cases x) (auto simp: coded_def strict_json_codes_def)
  with Inl loads check_value_coded(1) have "\<exists>code \<in> set strict_json_codes. e = Inspection code"
    by (fastforce simp: strict_json_def rbind_Inl_iff strict_json_codes_def split: option.splits sum.splits)
  moreover have "\<not> (utf8_decode raw = Some s \<and> json_loads je True s = Inr v \<and> json_count v \<le> 8192 \<and>
      nested_within md 0 v \<and> \<not> nonfinite v)" for s v
    using strict_json_Inr [of je md raw v] Inl by (auto simp: json_nodes_def)
  ultimately show ?thesis unfolding Inl sum.case by blast
qed

text \<open>C13: a value that strict_json accepted is printed by encode_json to bytes that strict_json
  reads back as the same value, under the same limits.\<close>

theorem json_round_trip:
  assumes "float_repr_ok je" and "strict_json je md raw = Inr v" and "encode_json v = Inr printed"
  shows "strict_json je md printed = Inr v"
  using encode_parses [OF assms(3) strict_json_printable [OF assms(1,2)], of md] assms(2)
    strict_json_Inr [of je md raw v]
  by blast

definition demo_json :: json_env where
  "demo_json = \<lparr>float_repr = (\<lambda>t. uni ''inf''), nest_limit = 8\<rparr>"

lemma demo_read: "strict_json demo_json 4 (map of_nat (uni ''[ 7, true ]'')) = Inr (JArr [JInt 7, JBool True])"
proof -
  have "utf8_decode (map of_nat (uni ''[ 7, true ]'')) = Some (uni ''[ 7, true ]'')"
    by (rule decode_ascii) (simp add: is_ascii_def uni_def)
  moreover have "json_loads demo_json True (uni ''[ 7, true ]'') = Inr (JArr [JInt 7, JBool True])"
    by (simp add: json_eval demo_json_def cong: rbind_weak_cong)
  ultimately show ?thesis by (simp add: strict_json_Inr json_nodes_def)
qed

lemma json_round_trip_witness:
  "strict_json demo_json 4 (map of_nat (uni ''[7,true]'')) = Inr (JArr [JInt 7, JBool True])"
proof (rule json_round_trip [OF _ demo_read])
  show "float_repr_ok demo_json" by (simp add: float_repr_ok_def demo_json_def uni_def)
  have "dumps False (JArr [JInt 7, JBool True]) = uni ''[7,true]''" by code_simp
  moreover have "is_ascii (uni ''[7,true]'')" by (simp add: is_ascii_def uni_def)
  ultimately show "encode_json (JArr [JInt 7, JBool True]) = Inr (map of_nat (uni ''[7,true]''))"
    by (simp add: encode_json_Inr encode_ascii)
qed

subsection \<open>MCP requests\<close>

text \<open>A mapped header and the argument of the body carry the same value.\<close>

definition header_agrees :: "http_message \<Rightarrow> json \<Rightarrow> pystr \<Rightarrow> pystr \<Rightarrow> bool" where
  "header_agrees m v name path \<longleftrightarrow>
     (\<exists>expected. mapped_argument v (split_on 47 (tl path)) = Inr expected \<and>
        (if expected = JNull then map_of (hm_headers m) name = None
         else (\<exists>a d. map_of (hm_headers m) name = Some a \<and> decode_mcp_header a = Inr d \<and>
           argument_matches expected d = Inr True)))"

lemma header_parameter_agrees:
  assumes "header_parameter m v name path = Inr u"
  shows "header_agrees m v name path"
proof -
  obtain expected where walk: "mapped_argument v (split_on 47 (tl path)) = Inr expected"
    using assms by (auto simp: header_parameter_def rbind_Inr_iff split: if_split_asm)
  show ?thesis
  proof (cases "expected = JNull")
    case True
    with assms walk have "map_of (hm_headers m) name = None"
      by (auto simp: header_parameter_def Let_def split: if_split_asm)
    with walk True show ?thesis by (auto simp: header_agrees_def)
  next
    case False
    with assms walk obtain a d where "map_of (hm_headers m) name = Some a" "decode_mcp_header a = Inr d"
        "argument_matches expected d = Inr True"
      by (auto simp: header_parameter_def Let_def rbind_Inr_iff split: if_split_asm option.split_asm)
    with walk False show ?thesis by (auto simp: header_agrees_def)
  qed
qed

lemma header_parameters_agree:
  "header_parameters m v seen ps = Inr u \<Longrightarrow> (name, path) \<in> set ps \<Longrightarrow> header_agrees m v (py_lower name) path"
  by (induction ps arbitrary: seen) (auto simp: rbind_Inr_iff dest: header_parameter_agrees split: if_splits)

definition mcp_agrees :: "http_message \<Rightarrow> route_rule \<Rightarrow> json \<Rightarrow> pystr \<Rightarrow> tool_rule \<Rightarrow> bool" where
  "mcp_agrees m r v tool rule \<longleftrightarrow>
     (let version = get_or (hm_headers m) (uni ''mcp-protocol-version'') (uni ''2025-03-26'');
          params = obj_or v ''params'' (JObj []) in
      map_of (rr_tools r) tool = Some rule \<and> version \<in> set (rr_mcp_versions r) \<and>
      (\<exists>meth. obj_or v ''method'' JNull = JStr meth \<and>
         (header m ''mcp-method'' = Some meth \<or> header m ''mcp-method'' = None \<and> version \<noteq> uni ''2026-07-28'') \<and>
         (if meth = uni ''tools/call'' then
            obj_or params ''name'' JNull = JStr tool \<and>
            (case header m ''mcp-name'' of
               Some h \<Rightarrow> decode_mcp_header h = Inr tool
             | None \<Rightarrow> version \<noteq> uni ''2026-07-28'') \<and>
            (\<forall>(name, path) \<in> set (tr_header_parameters rule). header_agrees m v (py_lower name) path)
          else tool = meth)))"

lemma check_mcp_name_call:
  "check_mcp_name m params version (uni ''tools/call'') = Inr u \<Longrightarrow> obj_or params ''name'' JNull = JStr tool \<Longrightarrow>
     (case header m ''mcp-name'' of Some h \<Rightarrow> decode_mcp_header h = Inr tool
      | None \<Rightarrow> version \<noteq> uni ''2026-07-28'')"
  by (auto simp: check_mcp_name_def rbind_Inr_iff split: if_splits option.splits)

lemma mcp_tool_call: "mcp_tool params (uni ''tools/call'') = Inr tool \<Longrightarrow> obj_or params ''name'' JNull = JStr tool"
  by (auto simp: mcp_tool_def split: if_splits json.splits)

lemma mcp_semantics_parts:
  assumes "mcp_semantics m r v = Inr (tool, rule)"
  obtains meth params version where
    "version = get_or (hm_headers m) (uni ''mcp-protocol-version'') (uni ''2025-03-26'')"
    "params = obj_or v ''params'' (JObj [])" "version \<in> set (rr_mcp_versions r)"
    "obj_or v ''method'' JNull = JStr meth" "mcp_tool params meth = Inr tool"
    "check_mcp_name m params version meth = Inr ()" "map_of (rr_tools r) tool = Some rule"
    "header m ''mcp-method'' = Some meth \<or> header m ''mcp-method'' = None \<and> version \<noteq> uni ''2026-07-28''"
    "meth = uni ''tools/call'' \<longrightarrow> header_parameters m v [] (tr_header_parameters rule) = Inr ()"
proof -
  obtain meth where meth: "obj_or v ''method'' JNull = JStr meth"
    using assms by (auto simp: mcp_semantics_def Let_def split: if_splits json.splits)
  show ?thesis
    using assms meth that [of "get_or (hm_headers m) (uni ''mcp-protocol-version'') (uni ''2025-03-26'')"
        "obj_or v ''params'' (JObj [])" meth]
    by (auto simp: mcp_semantics_def Let_def rbind_Inr_iff split: if_splits option.splits)
qed

lemma mcp_semantics_agrees:
  assumes "mcp_semantics m r v = Inr (tool, rule)"
  shows "mcp_agrees m r v tool rule"
proof -
  from assms obtain meth params version where p:
    "version = get_or (hm_headers m) (uni ''mcp-protocol-version'') (uni ''2025-03-26'')"
    "params = obj_or v ''params'' (JObj [])" "version \<in> set (rr_mcp_versions r)"
    "obj_or v ''method'' JNull = JStr meth" "mcp_tool params meth = Inr tool"
    "check_mcp_name m params version meth = Inr ()" "map_of (rr_tools r) tool = Some rule"
    "header m ''mcp-method'' = Some meth \<or> header m ''mcp-method'' = None \<and> version \<noteq> uni ''2026-07-28''"
    "meth = uni ''tools/call'' \<longrightarrow> header_parameters m v [] (tr_header_parameters rule) = Inr ()"
    by (rule mcp_semantics_parts)
  show ?thesis
  proof (cases "meth = uni ''tools/call''")
    case True
    then have call: "obj_or params ''name'' JNull = JStr tool" using p(5) mcp_tool_call by simp
    have "header_agrees m v (py_lower name) path" if "(name, path) \<in> set (tr_header_parameters rule)" for name path
      using header_parameters_agree p(9) True that by blast
    then show ?thesis
      unfolding mcp_agrees_def Let_def
      using p True call check_mcp_name_call [OF _ call] by auto
  next
    case False
    then have "tool = meth" using p(5) by (simp add: mcp_tool_def)
    then show ?thesis unfolding mcp_agrees_def Let_def using p False by auto
  qed
qed

text \<open>C14: an MCP request the engine gives a meaning to has the same meaning in its headers as in its
  body: the method, for \<open>tools/call\<close> the tool name, and every argument a rule maps to a header;
  under the protocol version that requires the headers, they are there.\<close>

theorem mcp_headers_agree:
  assumes "semantics m r v = Inr (tool, action, resource)" and "rr_protocol r = Mcp"
  shows "\<exists>rule. mcp_agrees m r v tool rule \<and> tr_action rule = action \<and> resource_of v rule = Inr resource"
  using assms mcp_semantics_agrees by (fastforce simp: semantics_def rbind_Inr_iff)

definition demo_rule :: tool_rule where
  "demo_rule = \<lparr>tr_action = uni ''read'', tr_effect = Allow_rule, tr_pii_action = None,
     tr_resource = Some (uni ''notes''), tr_resource_pointer = None,
     tr_header_parameters = [(uni ''Mcp-Param-Id'', uni ''/params/arguments/id'')]\<rparr>"

definition demo_route :: route_rule where
  "demo_route = \<lparr>rr_authority = uni ''tools.example'', rr_path = uni ''/mcp'', rr_method = uni ''POST'',
     rr_required_headers = [], rr_protocol = Mcp, rr_pii_action = None,
     rr_mcp_versions = [uni ''2026-07-28''], rr_tool = uni ''http.request'', rr_rule = None,
     rr_tools = [(uni ''notes.read'', demo_rule)], rr_llm_provider = None, rr_allowed_models = [],
     rr_redact_fields = [uni ''/params/arguments/note'']\<rparr>"

definition demo_call :: json where
  "demo_call = JObj [(uni ''jsonrpc'', JStr (uni ''2.0'')), (uni ''method'', JStr (uni ''tools/call'')),
     (uni ''params'', JObj [(uni ''name'', JStr (uni ''notes.read'')),
       (uni ''arguments'', JObj [(uni ''id'', JStr (uni ''n7''))]),
       (uni ''_meta'', JObj [(uni ''io.modelcontextprotocol/protocolVersion'', JStr (uni ''2026-07-28''))])])]"

definition demo_headers :: "(pystr, pystr) dict" where
  "demo_headers = [(uni ''mcp-protocol-version'', uni ''2026-07-28''), (uni ''mcp-method'', uni ''tools/call''),
     (uni ''mcp-name'', uni ''notes.read''), (uni ''mcp-param-id'', uni ''n7'')]"

definition demo_message :: http_message where
  "demo_message = \<lparr>hm_method = uni ''POST'', hm_authority = uni ''tools.example'', hm_path = uni ''/mcp'',
     hm_headers = demo_headers, hm_body = [], hm_complete = True\<rparr>"

lemma demo_plain_header: "decode_mcp_header (uni ''notes.read'') = Inr (uni ''notes.read'')"
  "decode_mcp_header (uni ''n7'') = Inr (uni ''n7'')"
  by (simp_all add: decode_mcp_header_def strip_blank_def strip_by_def uni_def endswith_def)

lemma demo_param: "header_parameters demo_message demo_call [] (tr_header_parameters demo_rule) = Inr ()"
proof -
  have "py_lower (uni ''Mcp-Param-Id'') = uni ''mcp-param-id''" by code_simp
  moreover have "param_header_name (uni ''mcp-param-id'')" by code_simp
  moreover have "split_on 47 (tl (uni ''/params/arguments/id'')) = [uni ''params'', uni ''arguments'', uni ''id'']"
    "startswith (uni ''/params/arguments/id'') (uni ''/params/arguments/'')" "\<not> bad_tilde (uni ''/params/arguments/id'')"
    by (simp_all add: uni_def)
  moreover have "pointer_key (uni ''params'') = uni ''params''" "pointer_key (uni ''arguments'') = uni ''arguments''"
    "pointer_key (uni ''id'') = uni ''id''"
    by code_simp+
  ultimately show ?thesis
    by (simp add: demo_rule_def header_parameter_def demo_call_def get_or_def demo_message_def demo_headers_def
        demo_plain_header argument_matches_def rguard_def)
qed

lemma demo_semantics:
  "semantics demo_message demo_route demo_call = Inr (uni ''notes.read'', uni ''read'', uni ''notes'')"
proof -
  have "mcp_semantics demo_message demo_route demo_call = Inr (uni ''notes.read'', demo_rule)"
    using demo_param
    by (simp add: mcp_semantics_def demo_call_def obj_or_def demo_message_def demo_headers_def get_or_def
        demo_route_def mcp_tool_def check_mcp_name_def demo_plain_header rguard_def)
  then show ?thesis
    by (simp add: semantics_def demo_route_def resource_of_def demo_rule_def)
qed

lemma mcp_headers_agree_witness:
  "\<exists>rule. mcp_agrees demo_message demo_route demo_call (uni ''notes.read'') rule \<and> tr_action rule = uni ''read'' \<and>
     resource_of demo_call rule = Inr (uni ''notes'')"
  by (rule mcp_headers_agree [OF demo_semantics]) (simp add: demo_route_def)

subsection \<open>Egress\<close>

text \<open>A string that names another host: with a scheme, or relative to the current one.\<close>

definition names_host :: "pystr \<Rightarrow> bool" where
  "names_host s \<longleftrightarrow>
     (let t = py_strip s in startswith t [47, 47] \<or> has_scheme t \<or> starts_http (py_lower t))"

text \<open>What a web address says, apart from the code that reads it: \<open>authority netloc host port\<close> for the part after
  \<open>//\<close>, with no more than an empty user before the host, and \<open>address_origin\<close> for the whole.  A port that
  is left out, or is zero, is the one of the scheme.\<close>

inductive authority :: "pystr \<Rightarrow> pystr \<Rightarrow> pystr \<Rightarrow> bool" where
  plain_host: "64 \<notin> set host \<Longrightarrow> 58 \<notin> set host \<Longrightarrow> 91 \<notin> set host \<Longrightarrow> authority host host []"
| host_and_port: "64 \<notin> set (host @ port) \<Longrightarrow> 58 \<notin> set host \<Longrightarrow> 91 \<notin> set (host @ port) \<Longrightarrow>
    authority (host @ 58 # port) host port"
| bracketed: "64 \<notin> set (junk @ host @ rest) \<Longrightarrow> 91 \<notin> set junk \<Longrightarrow> 93 \<notin> set host \<Longrightarrow>
    port = after_sep 58 rest \<Longrightarrow> authority (junk @ 91 # host @ 93 # rest) host port"
| unclosed: "64 \<notin> set (junk @ host) \<Longrightarrow> 91 \<notin> set junk \<Longrightarrow> 93 \<notin> set host \<Longrightarrow> authority (junk @ 91 # host) host []"
| empty_user: "authority netloc host port \<Longrightarrow> pre = [64] \<or> pre = [58, 64] \<Longrightarrow> authority (pre @ netloc) host port"

definition default_port :: "pystr \<Rightarrow> nat" where
  "default_port scheme = (if scheme = uni ''https'' then 443 else 80)"

definition port_number :: "pystr \<Rightarrow> pystr \<Rightarrow> nat \<Rightarrow> bool" where
  "port_number scheme port n \<longleftrightarrow>
     port = [] \<and> n = default_port scheme \<or>
     port \<noteq> [] \<and> list_all is_digit port \<and> nat_of_digits port \<le> 65535 \<and>
       n = (if nat_of_digits port = 0 then default_port scheme else nat_of_digits port)"

definition lower_host :: "pystr \<Rightarrow> pystr" where
  "lower_host host = py_lower (takeWhile (\<lambda>c. c \<noteq> 37) host) @ dropWhile (\<lambda>c. c \<noteq> 37) host"

definition address_origin :: "url_env \<Rightarrow> pystr \<Rightarrow> pystr \<Rightarrow> bool" where
  "address_origin ue t origin \<longleftrightarrow>
     (\<exists>sc netloc path frag host port name n.
        url_clean t = sc @ uni ''://'' @ netloc @ path @ frag \<and>
        (py_lower sc = uni ''http'' \<or> py_lower sc = uni ''https'') \<and>
        set netloc \<inter> {47, 63, 35} = {} \<and> 35 \<notin> set path \<and> (frag = [] \<or> frag = [35]) \<and>
        authority netloc host port \<and> host \<noteq> [] \<and> idna ue (lower_host host) = Some name \<and>
        port_number (py_lower sc) port n \<and>
        origin = py_lower sc @ uni ''://'' @ (if 58 \<in> set name then [91] @ name @ [93] else name) @ uni '':'' @ dec_nat n)"

lemma partition_at_facts:
  "partition_at c s = (a, f, b) \<Longrightarrow> c \<notin> set a \<and> s = (if f then a @ c # b else a) \<and> (f \<or> b = [])"
  by (induction c s arbitrary: a f b rule: partition_at.induct) (auto split: if_splits prod.splits)

lemma rpartition_at_facts:
  assumes "rpartition_at c s = (a, f, b)"
  shows "c \<notin> set b \<and> s = (if f then a @ c # b else b) \<and> (f \<or> a = [])"
proof -
  obtain x g y where p: "partition_at c (rev s) = (x, g, y)" by (metis prod_cases3)
  have "rev s = (if g then x @ c # y else x) \<and> c \<notin> set x" using partition_at_facts [OF p] by auto
  then show ?thesis
    using assms p by (cases g) (auto simp: rpartition_at_def rev_swap)
qed

lemma authority_of_url:
  assumes "url_hostname u \<noteq> []" and "case url_userinfo u of Some (user, _, pass) \<Rightarrow> user = [] \<and> pass = [] | None \<Rightarrow> True"
  shows "\<exists>host port. authority (u_netloc u) host port \<and> url_hostinfo u = (host, port)"
proof -
  obtain info found hp where r: "rpartition_at 64 (u_netloc u) = (info, found, hp)" by (metis prod_cases3)
  note rf = rpartition_at_facts [OF r]
  have pre: "found \<Longrightarrow> info = [] \<or> info = [58]"
  proof -
    assume found
    obtain us g pw where "partition_at 58 info = (us, g, pw)" by (metis prod_cases3)
    with assms(2) r \<open>found\<close> have "partition_at 58 info = ([], g, [])" by (simp add: url_userinfo_def)
    then show ?thesis using partition_at_facts by fastforce
  qed
  have "\<exists>host port. authority hp host port \<and> url_hostinfo u = (host, port)"
  proof -
    obtain junk br inner where b: "partition_at 91 hp = (junk, br, inner)" by (metis prod_cases3)
    note bf = partition_at_facts [OF b]
    show ?thesis
    proof (cases br)
      case True
      obtain h cl rest where c: "partition_at 93 inner = (h, cl, rest)" by (metis prod_cases3)
      note cf = partition_at_facts [OF c]
      have info: "url_hostinfo u = (h, after_sep 58 rest)" using r b c True by (simp add: url_hostinfo_def)
      show ?thesis
      proof (cases cl)
        case True
        have "authority (junk @ 91 # h @ 93 # rest) h (after_sep 58 rest)"
          using rf bf cf \<open>br\<close> True by (intro bracketed) auto
        then show ?thesis using info bf cf \<open>br\<close> True by auto
      next
        case False
        have "authority (junk @ 91 # h) h []" using rf bf cf \<open>br\<close> False by (intro unclosed) auto
        then show ?thesis using info bf cf \<open>br\<close> False by (auto simp: after_sep_def)
      qed
    next
      case False
      obtain h g p where c: "partition_at 58 hp = (h, g, p)" by (metis prod_cases3)
      note cf = partition_at_facts [OF c]
      have "url_hostinfo u = (h, p)" using r b c False by (simp add: url_hostinfo_def)
      then show ?thesis using rf bf cf False by (cases g) (auto intro: plain_host host_and_port)
    qed
  qed
  moreover have "u_netloc u = hp \<or> u_netloc u = [64] @ hp \<or> u_netloc u = [58, 64] @ hp" using rf pre by (cases found) auto
  ultimately show ?thesis using empty_user by metis
qed

lemma url_hostname_lower: "url_hostinfo u = (host, port) \<Longrightarrow> url_hostname u = lower_host host"
proof -
  have "py_lower a @ (if f then [37] else []) @ b = lower_host h" if "partition_at 37 h = (a, f, b)" for h a f b
  proof -
    note f = partition_at_facts [OF that]
    have all: "\<And>x. x \<in> set a \<Longrightarrow> x \<noteq> 37" using f by auto
    show ?thesis
    proof (cases f)
      case True
      then show ?thesis using f all by (simp add: lower_host_def takeWhile_tail dropWhile_append3)
    next
      case False
      have "takeWhile (\<lambda>c. c \<noteq> 37) a = a" "dropWhile (\<lambda>c. c \<noteq> 37) a = []"
        using all by (auto simp: takeWhile_eq_all_conv dropWhile_eq_Nil_conv)
      then show ?thesis using f False by (simp add: lower_host_def del: takeWhile_eq_all_conv dropWhile_eq_Nil_conv)
    qed
  qed
  then show "url_hostinfo u = (host, port) \<Longrightarrow> url_hostname u = lower_host host"
    by (simp add: url_hostname_def split: prod.splits)
qed

text \<open>The letters of the two schemes are lower-case forms of themselves and of their capitals only.\<close>

lemma lower_prefix:
  "py_lower s = w @ r \<Longrightarrow> set w \<subseteq> {104, 112, 115, 116, 58} \<Longrightarrow>
     \<exists>v s'. s = v @ s' \<and> py_lower v = w \<and> list_all2 (\<lambda>d c. d = c \<or> c \<noteq> 58 \<and> d + 32 = c) v w"
proof (induction w arbitrary: s)
  case (Cons c w)
  then obtain d u where s: "s = d # u" by (cases s) (auto simp: py_lower_def)
  have "lower_char d @ py_lower u = c # w @ r" using Cons.prems(1) by (simp add: s py_lower_def)
  moreover from this have d: "lower_char d = [c]" "d = c \<or> c \<noteq> 58 \<and> d + 32 = c"
    using Cons.prems(2) by (auto simp: lower_char_def split: if_splits)
  ultimately have "py_lower u = w @ r" by simp
  then obtain v s' where "u = v @ s'" "py_lower v = w" "list_all2 (\<lambda>d c. d = c \<or> c \<noteq> 58 \<and> d + 32 = c) v w"
    using Cons.IH [of u] Cons.prems(2) by auto
  with s d show ?case by (intro exI [of _ "d # v"] exI [of _ s']) (auto simp: py_lower_def)
qed auto

lemma http_letters:
  "list_all2 (\<lambda>d c. d = c \<or> c \<noteq> 58 \<and> d + 32 = c) v w \<Longrightarrow> set w \<subseteq> {104, 112, 115, 116} \<Longrightarrow>
     list_all is_alpha v"
  by (induction rule: list_all2_induct) (auto simp: is_alpha_def)

lemma starts_http_text:
  assumes "starts_http (py_lower t)"
  shows "\<exists>sc r. t = sc @ 58 # r \<and> (py_lower sc = uni ''http'' \<or> py_lower sc = uni ''https'') \<and> list_all is_alpha sc \<and> sc \<noteq> []"
proof -
  have one: "\<exists>sc r. t = sc @ 58 # r \<and> py_lower sc = w \<and> list_all is_alpha sc"
    if low: "py_lower t = (w @ [58]) @ r0" and letters: "set w \<subseteq> {104, 112, 115, 116}" for w r0
  proof -
    obtain v s' where v: "t = v @ s'" "py_lower v = w @ [58]"
      "list_all2 (\<lambda>d c. d = c \<or> c \<noteq> 58 \<and> d + 32 = c) v (w @ [58])"
      using lower_prefix [OF low] letters by auto
    then obtain sc where sc: "v = sc @ [58]" "list_all2 (\<lambda>d c. d = c \<or> c \<noteq> 58 \<and> d + 32 = c) sc w"
      by (auto simp: list_all2_append2 list_all2_Cons2)
    then show ?thesis using v http_letters [OF sc(2) letters] by (auto simp: py_lower_def lower_char_def)
  qed
  have "(\<exists>r. py_lower t = (uni ''http'' @ [58]) @ r) \<or> (\<exists>r. py_lower t = (uni ''https'' @ [58]) @ r)"
    using assms by (auto simp: starts_http_def startswith_iff uni_def)
  then show ?thesis
    using one [of "uni ''http''"] one [of "uni ''https''"] by (fastforce simp: uni_def)
qed

lemma clean_http:
  assumes "list_all is_alpha sc" and "sc \<noteq> []"
  shows "url_clean (sc @ 58 # r) = sc @ 58 # filter (\<lambda>c. c \<notin> {9, 10, 13}) r"
    and "split_scheme (sc @ 58 # q) = (py_lower sc, q)"
proof -
  have "dropWhile (\<lambda>c. c \<le> 32) (sc @ 58 # r) = sc @ 58 # r" using assms by (cases sc) (auto simp: is_alpha_def)
  moreover have "filter (\<lambda>c. c \<notin> {9, 10, 13}) sc = sc"
    using assms by (intro filter_True) (auto simp: list_all_iff is_alpha_def)
  ultimately show "url_clean (sc @ 58 # r) = sc @ 58 # filter (\<lambda>c. c \<notin> {9, 10, 13}) r" by (simp add: url_clean_def)
  have "58 \<notin> set sc" using assms by (auto simp: list_all_iff is_alpha_def)
  then have "partition_at 58 (sc @ 58 # q) = (sc, True, q)" by (induction sc) auto
  moreover have "list_all scheme_char sc" using assms by (auto simp: list_all_iff scheme_char_def)
  ultimately show "split_scheme (sc @ 58 # q) = (py_lower sc, q)"
    using assms by (cases sc) (auto simp: split_scheme_def)
qed

lemma nested_origin_address:
  assumes "nested_origin ue t = Some origin" and "starts_http (py_lower t)"
  shows "address_origin ue t origin"
proof -
  obtain sc r where t: "t = sc @ 58 # r" "py_lower sc = uni ''http'' \<or> py_lower sc = uni ''https''"
    "list_all is_alpha sc" "sc \<noteq> []"
    using starts_http_text [OF assms(2)] by blast
  let ?r = "filter (\<lambda>c. c \<notin> {9, 10, 13}) r"
  have clean: "url_clean t = sc @ 58 # ?r" "split_scheme (url_clean t) = (py_lower sc, ?r)"
    using clean_http [OF t(3,4)] t(1) by simp_all
  obtain u where u: "urlsplit ue t = Some u" using assms(1) by (cases "urlsplit ue t") (auto simp: nested_origin_def)
  obtain netloc r2 where n: "split_netloc ?r = (netloc, r2)" by fastforce
  obtain r3 fb fragment where f: "partition_at 35 r2 = (r3, fb, fragment)" by (metis prod_cases3)
  have parts: "u_netloc u = netloc" "u_scheme u = py_lower sc" "u_fragment u = fragment"
    using u clean(2) n f by (auto simp: urlsplit_def split: prod.splits if_splits)
  have ok: "url_hostname u \<noteq> []" "fragment = []"
      "case url_userinfo u of Some (user, _, pass) \<Rightarrow> user = [] \<and> pass = [] | None \<Rightarrow> True"
    using assms(1) u parts by (auto simp: nested_origin_def split: if_splits option.splits)
  obtain host port where hp: "authority netloc host port" "url_hostinfo u = (host, port)"
    using authority_of_url [OF ok(1,3)] parts(1) by auto
  have "netloc \<noteq> []"
    using ok(1) hp parts(1) by (auto simp: url_hostname_def url_hostinfo_def rpartition_at_def)
  then have slashes: "?r = [47, 47] @ netloc @ r2" "set netloc \<inter> {47, 63, 35} = {}"
    using n by (auto simp: split_netloc_def startswith_iff split: if_splits dest: set_takeWhileD)
  obtain name p where name: "idna ue (lower_host host) = Some name" and p: "url_port u = Some p"
      and origin: "origin = py_lower sc @ uni ''://'' @ (if 58 \<in> set name then 91 # name @ [93] else name) @ uni '':'' @
        dec_nat (case p of Some p \<Rightarrow> if p = 0 then (if u_scheme u = uni ''https'' then 443 else 80) else p
          | None \<Rightarrow> if u_scheme u = uni ''https'' then 443 else 80)"
    using assms(1) u ok url_hostname_lower [OF hp(2)] parts(2)
    by (auto simp: nested_origin_def bind_eq_Some_conv split: if_splits intro!: that)
  have "(case p of Some p \<Rightarrow> if p = 0 then (if u_scheme u = uni ''https'' then 443 else 80) else p
          | None \<Rightarrow> if u_scheme u = uni ''https'' then 443 else 80) =
      (case p of Some p \<Rightarrow> if p = 0 then default_port (py_lower sc) else p | None \<Rightarrow> default_port (py_lower sc))"
    using parts(2) by (simp add: default_port_def split: option.split)
  note origin = origin [unfolded this]
  have "p = (if port = [] then None else Some (nat_of_digits port))"
      "port = [] \<or> list_all is_digit port \<and> nat_of_digits port \<le> 65535"
    using p by (simp_all add: url_port_def hp(2) Let_def split: if_splits)
  then have number: "port_number (py_lower sc) port
      (case p of Some p \<Rightarrow> if p = 0 then default_port (py_lower sc) else p | None \<Rightarrow> default_port (py_lower sc))"
    by (cases "port = []") (simp_all add: port_number_def)
  have host: "host \<noteq> []" using ok(1) url_hostname_lower [OF hp(2)] by (cases host) (simp_all add: lower_host_def)
  have path: "r2 = r3 @ (if fb then [35] else [])" "35 \<notin> set r3" using partition_at_facts [OF f] ok(2) by auto
  have whole: "url_clean t = sc @ uni ''://'' @ netloc @ r3 @ (if fb then [35] else [])"
    using clean(1) slashes(1) by (simp only: path(1)) (simp add: uni_def)
  have frag: "(if fb then [35] else []) = [] \<or> (if fb then [35] else []) = [35 :: nat]" by simp
  have "(if 58 \<in> set name then 91 # name @ [93] else name) = (if 58 \<in> set name then [91] @ name @ [93] else name)" by simp
  note origin = origin [unfolded this]
  show ?thesis
    unfolding address_origin_def
    by (intro exI conjI) (rule whole t(2) slashes(2) path(2) frag hp(1) host name number origin)+
qed

lemma check_url_text_confined:
  assumes "check_url_text ue c s = Inr u" and "names_host s"
  shows "\<exists>origin. address_origin ue (py_strip s) origin \<and> origin \<in> set (ic_allowed_egress_origins c)"
proof -
  have slash: "startswith t (uni ''http://'') \<Longrightarrow> starts_http t" "startswith t (uni ''https://'') \<Longrightarrow> starts_http t" for t
    by (auto simp: starts_http_def startswith_iff uni_def)
  have "starts_http (py_lower (py_strip s)) \<and>
      (\<exists>origin. nested_origin ue (py_strip s) = Some origin \<and> origin \<in> set (ic_allowed_egress_origins c))"
    using assms slash
    by (auto simp: check_url_text_def names_host_def Let_def split: if_splits option.splits)
  then show ?thesis using nested_origin_address by blast
qed


definition demo_urls :: url_env where
  "demo_urls = \<lparr>netloc_ok = (\<lambda>_. True), idna = (\<lambda>h. Some h)\<rparr>"

definition demo_config :: inspection_config where
  "demo_config = \<lparr>ic_access_broker_enabled = False, ic_trusted_sources = [uni ''adapter''],
     ic_routes = [demo_route], ic_allowed_egress_origins = [uni ''http://h:80''],
     ic_credential_headers = [], ic_max_body_bytes = 4096, ic_max_json_depth = 8,
     ic_pii_action = Redact_pii, ic_pii_min_score = 1/2, ic_attestation_max_age_seconds = 60,
     ic_nonce_db = [], ic_broker_store = [], ic_audit_path = []\<rparr>"

definition demo_url :: pystr where
  "demo_url = uni ''http://h/a''"

lemma demo_url_strip: "py_strip demo_url = demo_url" "py_lower demo_url = demo_url"
  by (simp_all add: demo_url_def uni_def py_strip_def strip_by_def is_space_def py_lower_def lower_char_def)

lemma demo_url_scheme: "has_scheme demo_url" "starts_http demo_url" "startswith demo_url (uni ''http://'')"
  "\<not> startswith demo_url [47, 47]"
  by (simp_all add: demo_url_def uni_def has_scheme_def starts_http_def scheme_char_def is_alpha_def is_digit_def)

lemma demo_url_split:
  "urlsplit demo_urls demo_url = Some \<lparr>u_scheme = uni ''http'', u_netloc = uni ''h'', u_path = uni ''/a'',
     u_query = [], u_fragment = []\<rparr>"
  by (simp add: demo_url_def demo_urls_def urlsplit_def url_clean_def split_scheme_def split_netloc_def uni_def
      is_alpha_def scheme_char_def is_digit_def py_lower_def lower_char_def)

lemma demo_idna: "idna demo_urls h = Some h"
  by (simp add: demo_urls_def)

lemma demo_url_origin: "nested_origin demo_urls demo_url = Some (uni ''http://h:80'')"
  using dec_nat.simps [of 80] dec_nat.simps [of 8]
  by (simp add: nested_origin_def demo_url_split url_hostname_def url_hostinfo_def url_userinfo_def
      url_port_def rpartition_at_def uni_def demo_idna py_lower_def lower_char_def)

lemma demo_url_host: "names_host demo_url"
  by (simp add: names_host_def Let_def demo_url_strip demo_url_scheme)

lemmas demo_url_facts = demo_url_strip demo_url_scheme demo_url_origin

lemma demo_url_plain:
  "filter (\<lambda>ch. \<not> (ch < 32 \<or> ch = 127)) demo_url = demo_url" "unquote demo_url = demo_url"
  by (simp_all add: demo_url_def unquote_plain is_ascii_def uni_def)


end
