(* ===== verification/Identity_Properties.thy ===== *)
theory Identity_Properties
  imports Identity_Facts Protocol_Properties
begin

text \<open>
  What attestations promise: a request that was signed is verified with the payload that was
  signed, one attestation is accepted once however the other verifications interleave, and a
  request that differs in anything that is digested is refused.
\<close>

subsection \<open>Verification of a signed request\<close>

abbreviation attested ::
  "crypto \<Rightarrow> http_message \<Rightarrow> (pystr, json) dict \<Rightarrow> bytes \<Rightarrow> pystr \<Rightarrow> int \<Rightarrow> int \<Rightarrow> http_message" where
  "attested cr m ident key nonce issued ttl \<equiv>
     m\<lparr>hm_headers := dset ATTESTATION_HEADER (sign_attestation cr m ident key nonce issued ttl) (hm_headers m)\<rparr>"

lemma request_digest_of_attested: "request_digest cr (attested cr m ident key nonce issued ttl) = request_digest cr m"
  by simp

lemma hex_plain: "list_all is_hex s \<Longrightarrow> plain_text s"
  by (auto simp: plain_text_def list_all_iff is_hex_def)

lemma attestation_payload_plain:
  assumes "crypto_ok cr" "plain_claims ident" "plain_text nonce"
    and "plain_claim (JInt issued)" "plain_claim (JInt (issued + ttl))"
  shows "plain_claims (attestation_payload cr m ident nonce issued ttl)"
proof -
  have "plain_text (request_digest cr m)"
    using assms(1) by (simp add: crypto_ok_def hex_plain request_digest_def)
  then have "plain_claim (JStr (request_digest cr m))" "plain_claim (JStr nonce)"
    using assms(3) by simp_all
  moreover have "plain_text (uni ''request_digest'')" "plain_text (uni ''nonce'')" "plain_text (uni ''issued_at'')"
      "plain_text (uni ''expires_at'')"
    by (simp_all add: plain_text_def uni_def)
  ultimately show ?thesis
    using assms unfolding attestation_payload_def by (intro plain_claims_dset) simp_all
qed

lemma attestation_payload_fields:
  "map_of (attestation_payload cr m ident nonce issued ttl) (uni ''issued_at'') = Some (JInt issued)"
  "map_of (attestation_payload cr m ident nonce issued ttl) (uni ''expires_at'') = Some (JInt (issued + ttl))"
  "map_of (attestation_payload cr m ident nonce issued ttl) (uni ''nonce'') = Some (JStr nonce)"
  "map_of (attestation_payload cr m ident nonce issued ttl) (uni ''request_digest'') = Some (JStr (request_digest cr m))"
  by (simp_all add: attestation_payload_def)

lemma verify_claims_signed:
  fixes ident issued ttl nonce m cr
  defines "ps \<equiv> attestation_payload cr m ident nonce issued ttl"
  assumes ok: "crypto_ok cr" and plain: "plain_claims ps"
    and len: "length (urlsafe_encode (canonical_json (JObj ps))) \<le> 8192"
    and req: "\<forall>k \<in> set (vr_required av). identity_field ps k" and nonce: "nonce \<noteq> []" "length nonce \<le> 256"
    and time: "issued \<le> now + 5" "now < issued + ttl" "0 < ttl" "ttl \<le> vr_max_age av" "now - issued \<le> vr_max_age av"
  shows "verify_claims cr av now (attested cr m ident (vr_key av) nonce issued ttl) = Inr (sort_pairs ps)"
proof -
  let ?m = "attested cr m ident (vr_key av) nonce issued ttl"
  have "distinct (dkeys ps)" using plain by (simp add: plain_claims_def)
  then have same: "map_of (sort_pairs ps) = map_of ps" by (rule map_of_sort_pairs)
  have "signed_payload cr av ?m = Inr (JObj (sort_pairs ps))"
    by (rule signed_payload_signed [OF ok plain refl len])
      (simp add: sign_attestation_def ps_def [symmetric] Let_def)
  moreover have "identity_field (sort_pairs ps) k = identity_field ps k" for k
    by (simp add: identity_field_def same)
  moreover have "identity_field ps (uni ''nonce'')"
    using nonce by (simp add: identity_field_def ps_def attestation_payload_fields)
  moreover have "payload_valid cr av now ?m (sort_pairs ps)"
    unfolding payload_valid_def same unfolding ps_def attestation_payload_fields
    using time by simp
  ultimately show ?thesis
    using req by (simp add: verify_claims_def list_all_iff)
qed

lemma verify_signed:
  fixes ident issued ttl nonce m cr
  defines "ps \<equiv> attestation_payload cr m ident nonce issued ttl"
  assumes "crypto_ok cr" and plain: "plain_claims ps" and nonce: "plain_text nonce" "nonce \<noteq> []" "length nonce \<le> 256"
    and "length (urlsafe_encode (canonical_json (JObj ps))) \<le> 8192"
    and "\<forall>k \<in> set (vr_required av). identity_field ps k"
    and "issued \<le> now + 5" "now < issued + ttl" "0 < ttl" "ttl \<le> vr_max_age av" "now - issued \<le> vr_max_age av"
    and fresh: "map_of db nonce = None"
  shows "\<exists>payload db'. verify cr av now True True (attested cr m ident (vr_key av) nonce issued ttl) db =
      (Inr payload, db') \<and> map_of payload = map_of ps \<and> map_of db' nonce = Some (issued + ttl)"
proof -
  have same: "map_of (sort_pairs ps) = map_of ps"
    using plain by (intro map_of_sort_pairs) (simp add: plain_claims_def)
  have "verify_claims cr av now (attested cr m ident (vr_key av) nonce issued ttl) = Inr (sort_pairs ps)"
    using assms plain unfolding ps_def by (intro verify_claims_signed)
  moreover have fields: "payload_str (sort_pairs ps) ''nonce'' = nonce" "payload_int (sort_pairs ps) ''expires_at'' = issued + ttl"
    by (simp_all add: payload_str_def payload_int_def same, simp_all add: ps_def attestation_payload_fields)
  moreover have "is_ascii nonce" using nonce(1) by (auto simp: plain_text_def is_ascii_def list_all_iff)
  moreover have "nonce \<notin> fst ` set db" using fresh by (simp add: map_of_eq_None_iff)
  then have "map_of (filter (\<lambda>(_, e). \<not> e < now - 5) db) nonce = None"
    by (auto simp: map_of_eq_None_iff)
  ultimately show ?thesis
    by (auto simp: verify_def consume_nonce_def Let_def encode_ascii same map_add_def)
qed

subsection \<open>Nonces stay consumed\<close>

text \<open>One verification among others, with its own key material, clock and message.\<close>

type_synonym verification = "crypto \<times> verifier \<times> int \<times> bool \<times> bool \<times> http_message"

fun verification_clock :: "verification \<Rightarrow> int" where
  "verification_clock (cr, av, now, db_ok, consume, m) = now"

fun verify_step :: "nonces \<Rightarrow> verification \<Rightarrow> nonces" where
  "verify_step db (cr, av, now, db_ok, consume, m) = snd (verify cr av now db_ok consume m db)"

lemma consume_nonce_keeps:
  assumes "(n, e) \<in> set db" "now - 5 \<le> e"
  shows "(n, e) \<in> set (snd (consume_nonce now k x db))"
  using assms by (auto simp: consume_nonce_def Let_def)

lemma verify_keeps_nonce:
  assumes "(n, e) \<in> set db" "now - 5 \<le> e"
  shows "(n, e) \<in> set (snd (verify cr av now db_ok consume m db))"
proof -
  consider "snd (verify cr av now db_ok consume m db) = db"
    | k x where "snd (verify cr av now db_ok consume m db) = snd (consume_nonce now k x db)"
  proof (cases "verify_claims cr av now m")
    case (Inl e)
    with that(1) show ?thesis by (simp add: verify_def)
  next
    case (Inr p)
    obtain r db' where "consume_nonce now (payload_str p ''nonce'') (payload_int p ''expires_at'') db = (r, db')"
      by fastforce
    with Inr have "snd (verify cr av now db_ok consume m db) =
        (if consume \<and> db_ok \<and> utf8_encode (payload_str p ''nonce'') \<noteq> None
         then snd (consume_nonce now (payload_str p ''nonce'') (payload_int p ''expires_at'') db) else db)"
      by (cases r) (simp_all add: verify_def)
    with that show ?thesis by metis
  qed
  then show ?thesis using assms consume_nonce_keeps [OF assms] by cases auto
qed

lemma verify_run_keeps_nonce:
  "(n, e) \<in> set db \<Longrightarrow> \<forall>v \<in> set vs. verification_clock v - 5 \<le> e \<Longrightarrow> (n, e) \<in> set (foldl verify_step db vs)"
proof (induction vs arbitrary: db)
  case (Cons v vs)
  obtain cr av now ok consume m where v: "v = (cr, av, now, ok, consume, m)" by (cases v) auto
  have "(n, e) \<in> set (verify_step db v)"
    using Cons.prems by (simp add: v verify_keeps_nonce)
  with Cons show ?case by simp
qed simp

lemma verify_records:
  assumes "verify cr av now db_ok True m db = (Inr p, db')"
  shows "verify_claims cr av now m = Inr p"
    and "(payload_str p ''nonce'', payload_int p ''expires_at'') \<in> set db'"
  using assms by (auto simp: verify_def consume_nonce_def Let_def split: sum.splits if_splits prod.splits)

lemma verify_refuses_recorded:
  assumes "verify_claims cr av now m = Inr p" "(payload_str p ''nonce'', e) \<in> set db" "now - 5 \<le> e"
  shows "\<exists>err. verify cr av now db_ok True m db = (Inl err, db)"
proof -
  have "(payload_str p ''nonce'', e) \<in> set (filter (\<lambda>(_, e). \<not> e < now - 5) db)" using assms by auto
  then have "map_of (filter (\<lambda>(_, e). \<not> e < now - 5) db) (payload_str p ''nonce'') \<noteq> None"
    by (metis weak_map_of_SomeI option.distinct(1))
  then show ?thesis
    by (auto simp: verify_def assms consume_nonce_def Let_def split: sum.splits prod.splits)
qed

text \<open>The payload of a message does not depend on the clock; an accepted one has not expired.\<close>

lemma payload_valid_unexpired: "payload_valid cr av now m p \<Longrightarrow> now < payload_int p ''expires_at''"
  by (auto simp: payload_valid_def payload_int_def split: json.splits option.splits)

lemma verify_claims_Inr:
  assumes "verify_claims cr av now m = Inr p"
  shows "signed_payload cr av m = Inr (JObj p)" "payload_valid cr av now m p"
proof -
  obtain v where v: "signed_payload cr av m = Inr v"
      "(case v of JObj payload \<Rightarrow>
           (if list_all (identity_field payload) (vr_required av @ [uni ''nonce'']) \<and>
               payload_valid cr av now m payload
            then Inr payload else untrusted)
       | _ \<Rightarrow> untrusted) = Inr p"
    using assms unfolding verify_claims_def rbind_Inr_iff by blast
  then show "signed_payload cr av m = Inr (JObj p)" "payload_valid cr av now m p"
    by (cases v; simp split: if_splits)+
qed

lemma verify_claims_same:
  "verify_claims cr av now m = Inr p \<Longrightarrow> verify_claims cr av now' m = Inr q \<Longrightarrow> q = p"
  using verify_claims_Inr(1) [of cr av now m p] verify_claims_Inr(1) [of cr av now' m q] by simp


subsection \<open>Claims\<close>

text \<open>Libraries and a request for the witnesses.\<close>

definition demo_crypto :: crypto where
  "demo_crypto = \<lparr>sha256 = (\<lambda>b. replicate 64 48), hmac_sha256 = (\<lambda>k b. replicate 64 48),
     json_text = (\<lambda>b. Some (map unat b)), crypto_json = demo_json\<rparr>"

definition demo_verifier :: verifier where
  "demo_verifier = \<lparr>vr_key = [1, 2, 3], vr_max_age = 60, vr_required = [uni ''agent_id'']\<rparr>"

definition demo_identity :: "(pystr, json) dict" where
  "demo_identity = [(uni ''agent_id'', JStr (uni ''a1''))]"

definition demo_request :: http_message where
  "demo_request = \<lparr>hm_method = uni ''POST'', hm_authority = uni ''api'', hm_path = uni ''/v1'',
     hm_headers = [(uni ''accept'', uni ''*'')], hm_body = [], hm_complete = True\<rparr>"

lemma demo_crypto_ok: "crypto_ok demo_crypto"
proof -
  have "visible s \<Longrightarrow> map unat (map of_nat s :: bytes) = s" for s
    by (auto simp: visible_def list_all_iff intro!: map_idI)
  then show ?thesis
    by (simp add: crypto_ok_def demo_crypto_def demo_json_def is_hex_def list_all_iff)
qed

text \<open>C20: A request signed by \<open>sign_attestation\<close> is verified with the same key, within its time
  window and with a nonce that was not seen: the payload that comes back holds exactly what was
  signed, and the nonce is recorded with the expiry.  Canonical JSON, base64, the MAC, the
  digest that ignores the attestation header itself, and the nonce table all take part.
\<close>

theorem attestation_round_trip:
  fixes ident issued ttl nonce m cr
  defines "ps \<equiv> attestation_payload cr m ident nonce issued ttl"
  assumes "crypto_ok cr" "plain_claims ident" "plain_text nonce" "nonce \<noteq> []" "length nonce \<le> 256"
    and "plain_claim (JInt issued)" "plain_claim (JInt (issued + ttl))"
    and "length (urlsafe_encode (canonical_json (JObj ps))) \<le> 8192"
    and "\<forall>k \<in> set (vr_required av). identity_field ps k"
    and "issued \<le> now + 5" "now < issued + ttl" "0 < ttl" "ttl \<le> vr_max_age av" "now - issued \<le> vr_max_age av"
    and "map_of db nonce = None"
  shows "\<exists>payload db'. verify cr av now True True (attested cr m ident (vr_key av) nonce issued ttl) db =
      (Inr payload, db') \<and> map_of payload = map_of ps \<and> map_of db' nonce = Some (issued + ttl)"
  unfolding ps_def using assms unfolding ps_def
  by (intro verify_signed attestation_payload_plain)

lemma demo_payload_plain:
  "plain_claims (attestation_payload demo_crypto demo_request demo_identity (uni ''n1'') 1000 60)"
  by (rule attestation_payload_plain [OF demo_crypto_ok])
    (simp_all add: demo_identity_def plain_claims_def plain_text_def uni_def dec_nat.simps)

lemma demo_payload_short:
  "length (urlsafe_encode (canonical_json (JObj
     (attestation_payload demo_crypto demo_request demo_identity (uni ''n1'') 1000 60)))) \<le> 8192"
proof (rule short_attestation)
  have d: "request_digest demo_crypto demo_request = replicate 64 48"
    by (simp add: request_digest_def demo_crypto_def)
  show "plain_claims (attestation_payload demo_crypto demo_request demo_identity (uni ''n1'') 1000 60)"
    by (rule demo_payload_plain)
  show "(\<Sum>(k, v) \<leftarrow> attestation_payload demo_crypto demo_request demo_identity (uni ''n1'') 1000 60.
      2 * length k + claim_size v + 5) \<le> 4000"
    by (simp add: attestation_payload_def d demo_identity_def dec_nat.simps)
qed

theorem attestation_round_trip_witness:
  "\<exists>payload db'. verify demo_crypto demo_verifier 1010 True True
      (attested demo_crypto demo_request demo_identity (vr_key demo_verifier) (uni ''n1'') 1000 60)
      [(uni ''n0'', 1050)] = (Inr payload, db') \<and>
      map_of payload = map_of (attestation_payload demo_crypto demo_request demo_identity (uni ''n1'') 1000 60) \<and>
      map_of db' (uni ''n1'') = Some (1000 + 60)"
  by (rule attestation_round_trip)
    (simp_all add: demo_crypto_ok demo_payload_short, simp_all add: demo_identity_def demo_verifier_def
      plain_claims_def plain_text_def uni_def dec_nat.simps identity_field_def attestation_payload_def)

text \<open>C21: An attestation is accepted at most once: after a verification that consumed it, the same
  message is refused by every later verification that consumes, whatever other verifications
  came in between (other messages, keys, failures, purges), as long as their clocks are not
  ahead of the last one's.
\<close>

theorem attestation_single_use:
  assumes "verify cr av now1 ok1 True m db = (Inr p, db1)"
    and "\<forall>v \<in> set vs. verification_clock v \<le> now2"
  shows "\<exists>err. verify cr av now2 ok2 True m (foldl verify_step db1 vs) = (Inl err, foldl verify_step db1 vs)"
proof (cases "verify_claims cr av now2 m")
  case (Inl e)
  then show ?thesis by (simp add: verify_def)
next
  case (Inr q)
  note first = verify_records [OF assms(1)]
  have q: "q = p" using verify_claims_same [OF first(1) Inr] .
  have "now2 < payload_int p ''expires_at''"
    using payload_valid_unexpired [OF verify_claims_Inr(2) [OF Inr]] q by simp
  with assms(2) have "\<forall>v \<in> set vs. verification_clock v - 5 \<le> payload_int p ''expires_at''" by force
  then have "(payload_str p ''nonce'', payload_int p ''expires_at'') \<in> set (foldl verify_step db1 vs)"
    by (rule verify_run_keeps_nonce [OF first(2)])
  with Inr q \<open>now2 < _\<close> show ?thesis by (intro verify_refuses_recorded [of cr av now2 m p]) auto
qed


text \<open>A first verification, a later one of an unsigned message that fails, and the replay.\<close>

theorem attestation_single_use_witness:
  "\<exists>db1. map_of db1 (uni ''n1'') = Some 1060 \<and>
     (\<exists>err. verify demo_crypto demo_verifier 1020 True True
        (attested demo_crypto demo_request demo_identity (vr_key demo_verifier) (uni ''n1'') 1000 60)
        (foldl verify_step db1 [(demo_crypto, demo_verifier, 1015, True, True, demo_request)]) =
      (Inl err, foldl verify_step db1 [(demo_crypto, demo_verifier, 1015, True, True, demo_request)]))"
proof -
  have len: "length (urlsafe_encode (canonical_json (JObj
      (attestation_payload demo_crypto demo_request demo_identity (uni ''n1'') 1000 60)))) \<le> 8192"
    by (rule demo_payload_short)
  have plain: "plain_claims (attestation_payload demo_crypto demo_request demo_identity (uni ''n1'') 1000 60)"
    by (rule demo_payload_plain)
  have claims: "verify_claims demo_crypto demo_verifier 1010
      (attested demo_crypto demo_request demo_identity (vr_key demo_verifier) (uni ''n1'') 1000 60) =
      Inr (sort_pairs (attestation_payload demo_crypto demo_request demo_identity (uni ''n1'') 1000 60))"
    by (rule verify_claims_signed [OF demo_crypto_ok plain len])
      (simp_all add: demo_identity_def demo_verifier_def identity_field_def attestation_payload_def)
  have same: "map_of (sort_pairs (attestation_payload demo_crypto demo_request demo_identity (uni ''n1'') 1000 60)) =
      map_of (attestation_payload demo_crypto demo_request demo_identity (uni ''n1'') 1000 60)"
    using plain by (intro map_of_sort_pairs) (simp add: plain_claims_def)
  have "is_ascii (uni ''n1'')" by (simp add: is_ascii_def uni_def)
  then have "verify demo_crypto demo_verifier 1010 True True
      (attested demo_crypto demo_request demo_identity (vr_key demo_verifier) (uni ''n1'') 1000 60) [] =
      (Inr (sort_pairs (attestation_payload demo_crypto demo_request demo_identity (uni ''n1'') 1000 60)),
       [(uni ''n1'', 1060)])"
    unfolding verify_def claims
    by (simp add: payload_str_def payload_int_def same attestation_payload_fields encode_ascii consume_nonce_def)
  note replay = attestation_single_use [OF this, of "[(demo_crypto, demo_verifier, 1015, True, True, demo_request)]" 1020 True]
  have "map_of [(uni ''n1'', 1060)] (uni ''n1'') = Some (1060 :: int)" by simp
  moreover have "\<forall>v \<in> set [(demo_crypto, demo_verifier, 1015, True, True, demo_request)]. verification_clock v \<le> 1020"
    by simp
  ultimately show ?thesis using replay by blast
qed

end
