(* ===== verification/Gateway_Properties.thy ===== *)
theory Gateway_Properties
  imports Gateway Identity_Properties
begin

text \<open>
  What the gateway promises to the inspected path: it sends nothing before the caller is
  authenticated on a mapped route, what it sends is attested, and the inspector's verifier
  accepts that attestation; credentials of the caller stay out; local agent credentials work
  until they expire and never again once they are revoked.
\<close>

subsection \<open>The message the gateway sends\<close>

lemma bounded_body_Inr:
  "bounded_body limit chunks acc = Inr b \<Longrightarrow> b = acc @ concat chunks \<and> (length acc \<le> limit \<longrightarrow> length b \<le> limit)"
  by (induction limit chunks acc rule: bounded_body.induct) (auto split: if_splits)

lemma in_exchange_Inr: "in_exchange r = Inr x \<longleftrightarrow> r = Inr x"
  by (auto simp: in_exchange_def split: sum.splits)

lemma read_body_Inr:
  assumes "read_body env rq hs = Inr body"
  shows "ge_admitted env \<and> length body \<le> dp_max_body_bytes (ge_deployment env) \<and>
    (\<exists>chunks. gr_body rq = Inr chunks \<and> body = concat chunks)"
proof -
  have "rbind (gr_body rq) (\<lambda>chunks. bounded_body (dp_max_body_bytes (ge_deployment env)) chunks []) = Inr body"
    and admitted: "ge_admitted env"
    using assms by (auto simp: read_body_def rbind_Inr_iff in_exchange_Inr split: if_splits)
  then obtain chunks where "gr_body rq = Inr chunks"
      and "bounded_body (dp_max_body_bytes (ge_deployment env)) chunks [] = Inr body"
    unfolding rbind_Inr_iff by blast
  with bounded_body_Inr [OF this(2)] admitted show ?thesis by (metis append_Nil le0 list.size(3))
qed

lemma check_request_Inr:
  assumes "check_request env rq hs = Inr path"
  shows "path = latin1 (gr_raw_path rq) \<and> \<not> ge_unavailable env \<and>
    (gr_method rq, path) \<in> (\<lambda>r. (rr_method r, rr_path r)) ` set (dp_routes (ge_deployment env))"
  using assms
  by (auto simp: check_request_def rbind_Inr_iff ascii_text_def check_mapping_def split: if_splits)

lemma attested_message_Inr:
  assumes "attested_message env rq who path clean body = Inr m"
  shows "\<exists>m0. m = attested (ge_crypto env) m0 (attested_identity env who) (ge_key env) (ge_nonce env) (ge_issued env) 60 \<and>
    hm_method m0 = gr_method rq \<and> hm_body m0 = body \<and> hm_complete m0 \<and> upstream_authority env = Inr (hm_authority m0)"
proof -
  obtain authority query where a: "upstream_authority env = Inr authority" and q: "ascii_text (gr_query rq) = Inr query"
    using assms unfolding attested_message_def rbind_Inr_iff by blast
  obtain raw sent where b: "ge_build env (gr_method rq) (path @ (if gr_query rq = [] then [] else 63 # query))
      (dset (uni ''accept-encoding'') (uni ''identity'') (dset (uni ''host'') authority clean)) body = (raw, sent)"
    by fastforce
  show ?thesis
    using assms unfolding attested_message_def a q rbind_simps Let_def b
    by (intro exI [of _ "\<lparr>hm_method = gr_method rq, hm_authority = authority, hm_path = raw, hm_headers = sent,
        hm_body = body, hm_complete = True\<rparr>"]) (auto simp: attestation_ttl_def)
qed

lemma prepare_Inr:
  assumes "prepare env rq hs outbound who = Inr m"
  shows "(gr_method rq, latin1 (gr_raw_path rq)) \<in> (\<lambda>r. (rr_method r, rr_path r)) ` set (dp_routes (ge_deployment env)) \<and>
    \<not> ge_unavailable env \<and> ge_admitted env \<and> length (hm_body m) \<le> dp_max_body_bytes (ge_deployment env) \<and>
    (\<exists>chunks. gr_body rq = Inr chunks \<and> hm_body m = concat chunks) \<and>
    (\<exists>m0. m = attested (ge_crypto env) m0 (attested_identity env who) (ge_key env) (ge_nonce env) (ge_issued env) 60 \<and>
      hm_method m0 = gr_method rq \<and> upstream_authority env = Inr (hm_authority m0))"
proof -
  obtain path clean body where path: "check_request env rq hs = Inr path" and body: "read_body env rq hs = Inr body"
      and msg: "attested_message env rq who path clean body = Inr m"
    using assms unfolding prepare_def rbind_Inr_iff by blast
  show ?thesis
    using check_request_Inr [OF path] read_body_Inr [OF body] attested_message_Inr [OF msg] by auto
qed

subsection \<open>Its attestation is accepted\<close>

lemma sum_dset: "(\<Sum>(k, v) \<leftarrow> dset k' v' ps. f k v :: nat) \<le> (\<Sum>(k, v) \<leftarrow> ps. f k v) + f k' v'"
  by (induction ps) auto

lemma attestation_payload_short:
  assumes ok: "crypto_ok cr" and plain: "plain_claims (attestation_payload cr m ident nonce issued ttl)"
    and "(\<Sum>(k, v) \<leftarrow> ident. 2 * length k + claim_size v + 5) \<le> 2500" "length nonce \<le> 256"
    and "claim_size (JInt issued) \<le> 256" "claim_size (JInt (issued + ttl)) \<le> 256"
  shows "length (urlsafe_encode (canonical_json (JObj (attestation_payload cr m ident nonce issued ttl)))) \<le> 8192"
proof (rule short_attestation [OF plain])
  let ?f = "\<lambda>(k :: pystr) v. 2 * length k + claim_size v + 5"
  have "length (request_digest cr m) = 64" using ok by (simp add: crypto_ok_def request_digest_def)
  then have sizes: "?f (uni ''request_digest'') (JStr (request_digest cr m)) \<le> 200" "?f (uni ''nonce'') (JStr nonce) \<le> 600"
      "?f (uni ''issued_at'') (JInt issued) \<le> 300" "?f (uni ''expires_at'') (JInt (issued + ttl)) \<le> 300"
    using assms(4,5,6) by simp_all
  let ?a = "dset (uni ''request_digest'') (JStr (request_digest cr m)) ident"
  let ?b = "dset (uni ''nonce'') (JStr nonce) ?a"
  let ?c = "dset (uni ''issued_at'') (JInt issued) ?b"
  show "(\<Sum>(k, v) \<leftarrow> attestation_payload cr m ident nonce issued ttl. 2 * length k + claim_size v + 5) \<le> 4000"
    using assms(3) sum_dset [of ?f "uni ''request_digest''" "JStr (request_digest cr m)" ident]
      sum_dset [of ?f "uni ''nonce''" "JStr nonce" ?a] sum_dset [of ?f "uni ''issued_at''" "JInt issued" ?b]
      sum_dset [of ?f "uni ''expires_at''" "JInt (issued + ttl)" ?c] sizes
    unfolding attestation_payload_def by linarith
qed


subsection \<open>A call of the gateway\<close>

definition demo_served :: route_rule where
  "demo_served = \<lparr>rr_authority = uni ''h'', rr_path = uni ''/'', rr_method = uni ''GET'',
     rr_required_headers = [], rr_protocol = Http, rr_pii_action = None, rr_mcp_versions = [],
     rr_tool = uni ''http.request'', rr_rule = None, rr_tools = [], rr_llm_provider = None,
     rr_allowed_models = [], rr_redact_fields = []\<rparr>"

definition demo_target :: target_auth where
  "demo_target = \<lparr>ta_mode = Target_none, ta_secret_file = None, ta_header = None, ta_prefix = []\<rparr>"

definition demo_deployment :: deployment where
  "demo_deployment = \<lparr>dp_upstream = uni ''http://h'', dp_llm = None, dp_allow_plaintext_upstream = True,
     dp_console_origin = [], dp_gateway_auth = Client_key_auth,
     dp_access_broker = \<lparr>ab_enabled = False, ab_tenant_id = None\<rparr>,
     dp_target_auth = demo_target, dp_max_body_bytes = 1024, dp_gateway_max_inflight = 1,
     dp_gateway_admission_wait_ms = 0, dp_inspector_replicas = 1, dp_routes = [demo_served]\<rparr>"

definition demo_gateway :: gateway_env where
  "demo_gateway = \<lparr>ge_deployment = demo_deployment, ge_url = demo_urls,
     ge_auth = \<lparr>au_config = Client_key_auth, au_client_key = uni ''k'', au_jwt = \<lparr>je_claims = (\<lambda>_ _. Inr None)\<rparr>,
       au_agents = None\<rparr>,
     ge_target = \<lparr>tp_config = demo_target, tp_gateway_mode = Mode_client_key, tp_secret = None\<rparr>,
     ge_crypto = demo_crypto, ge_key = [1, 2, 3], ge_unavailable = False, ge_admitted = True,
     ge_build = (\<lambda>meth target hs body. (target, hs)), ge_send = (\<lambda>_. Inl Timeout_error),
     ge_run_id = uni ''r1'', ge_nonce = uni ''n1'', ge_issued = 1000, ge_now = 1000\<rparr>"

definition demo_call_in :: gateway_request where
  "demo_call_in = \<lparr>gr_method = uni ''GET'', gr_headers = [(map of_nat (uni ''x-td-client-key''), map of_nat (uni ''k''))],
     gr_raw_path = map of_nat (uni ''/''), gr_query = [], gr_url_path = uni ''/'', gr_body = Inr []\<rparr>"

definition demo_caller :: gateway_identity where
  "demo_caller = \<lparr>gi_subject = uni ''client-key'', gi_scopes = [], gi_identity = []\<rparr>"

definition demo_inbound :: "(pystr, pystr) dict" where
  "demo_inbound = [(uni ''x-td-client-key'', uni ''k'')]"

definition demo_credentials :: credential_state where
  "demo_credentials = \<lparr>cs_rows = [], cs_broker = \<lparr>mem = empty_tables, disk = Missing, depth = 0, dirty = False,
     clock_reads = 0, uuids_used = 0, tokens_used = 0, writes = 0\<rparr>\<rparr>"

lemma latin1_ascii: "is_ascii s \<Longrightarrow> latin1 (map of_nat s) = s"
  by (simp only: latin1_def ascii_codes)

lemma demo_latin1: "latin1 (map of_nat (uni ''x-td-client-key'')) = uni ''x-td-client-key''"
  "latin1 (map of_nat (uni ''k'')) = uni ''k''" "latin1 (map of_nat (uni ''/'')) = uni ''/''" "latin1 [] = []"
  by (rule latin1_ascii, simp add: is_ascii_def uni_def)+ (simp add: latin1_def)

lemma demo_read_headers: "read_headers (gr_headers demo_call_in) [] = Inr demo_inbound"
  by (simp add: demo_call_in_def demo_latin1 demo_inbound_def)
    (simp add: py_lower_def lower_char_def uni_def)

lemma demo_forwardable: "forwardable demo_inbound = []"
  by (simp add: forwardable_def demo_inbound_def reserved_header_def uni_def)

lemma demo_authority: "upstream_authority demo_gateway = Inr (uni ''h'')"
  by (simp add: upstream_authority_def demo_gateway_def demo_deployment_def urlsplit_def url_clean_def split_scheme_def
      split_netloc_def uni_def is_alpha_def scheme_char_def is_digit_def demo_urls_def)

lemma demo_prepare: "\<exists>m. prepare demo_gateway demo_call_in demo_inbound demo_inbound demo_caller = Inr m"
proof -
  have path: "ascii_text (gr_raw_path demo_call_in) = Inr (uni ''/'')"
    by (simp add: ascii_text_def demo_call_in_def demo_latin1) (simp add: is_ascii_def uni_def)
  have map: "check_mapping demo_deployment (uni ''GET'') (uni ''/'') = Inr ()"
    by (simp add: check_mapping_def demo_deployment_def demo_served_def)
  have meth: "gr_method demo_call_in = uni ''GET''" by (simp add: demo_call_in_def)
  have same: "py_lower (uni ''identity'') = uni ''identity''" by (simp add: py_lower_def lower_char_def uni_def)
  have check: "check_request demo_gateway demo_call_in demo_inbound = Inr (uni ''/'')"
    by (simp add: check_request_def path demo_gateway_def map meth refused_headers_def demo_inbound_def get_or_def same)
  have dest: "destination_headers demo_gateway demo_inbound demo_inbound = Inr []"
    by (simp add: destination_headers_def demo_forwardable)
      (simp add: demo_gateway_def demo_deployment_def apply_credential_def demo_target_def demo_inbound_def truthy_def)
  have body: "read_body demo_gateway demo_call_in demo_inbound = Inr []"
    by (simp add: read_body_def demo_gateway_def demo_deployment_def demo_call_in_def in_exchange_def media_of_def
        nominated_def demo_inbound_def get_or_def py_lower_def py_strip_def strip_by_def)
  have query: "ascii_text (gr_query demo_call_in) = Inr []"
    by (simp add: ascii_text_def demo_call_in_def demo_latin1 is_ascii_def)
  show ?thesis
    by (simp add: prepare_def check dest body attested_message_def demo_authority query split: prod.splits)
qed
subsection \<open>Claims on the gateway\<close>

text \<open>C27: the gateway sends nothing into the inspected path before it authenticated the caller from the
  headers meant for it, on a mapped route, within the body limit; what it sends is the request
  signed with the identity that authentication returned.\<close>

theorem gateway_sends_attested:
  assumes "forward env rq s = ((r, Some m), s')"
  shows "\<exists>hs outbound auth who m0. read_headers (gr_headers rq) [] = Inr hs \<and>
    caller_headers env rq hs = Inr (outbound, auth) \<and>
    authenticate (ge_auth env) (ge_now env) auth s = (Inr (Authenticated who), s') \<and>
    (gr_method rq, latin1 (gr_raw_path rq)) \<in> (\<lambda>r. (rr_method r, rr_path r)) ` set (dp_routes (ge_deployment env)) \<and>
    length (hm_body m) \<le> dp_max_body_bytes (ge_deployment env) \<and>
    (\<exists>chunks. gr_body rq = Inr chunks \<and> hm_body m = concat chunks) \<and>
    m = attested (ge_crypto env) m0 (attested_identity env who) (ge_key env) (ge_nonce env) (ge_issued env) 60 \<and>
    hm_method m0 = gr_method rq \<and> upstream_authority env = Inr (hm_authority m0)"
proof -
  obtain parts where parts: "rbind (read_headers (gr_headers rq) []) (\<lambda>hs.
      rbind (caller_headers env rq hs) (\<lambda>(outbound, auth). Inr (hs, outbound, auth))) = Inr parts"
    using assms by (cases "rbind (read_headers (gr_headers rq) []) (\<lambda>hs.
      rbind (caller_headers env rq hs) (\<lambda>(outbound, auth). Inr (hs, outbound, auth)))") (auto simp: forward_def)
  then obtain hs outbound auth where p: "parts = (hs, outbound, auth)" "read_headers (gr_headers rq) [] = Inr hs"
      "caller_headers env rq hs = Inr (outbound, auth)"
    by (auto simp: rbind_Inr_iff)
  obtain out s1 where au: "authenticate (ge_auth env) (ge_now env) auth s = (out, s1)" by fastforce
  with assms parts p(1) obtain who where "out = Inr (Authenticated who)" "s1 = s'"
      "answer env (prepare env rq hs outbound who) = (r, Some m)"
    by (auto simp: forward_def split: sum.splits auth_outcome.splits)
  moreover from this(3) have "prepare env rq hs outbound who = Inr m"
    by (auto simp: answer_def split: sum.splits)
  ultimately show ?thesis using p au prepare_Inr by blast
qed

theorem gateway_sends_attested_witness:
  "\<exists>r m s' (m0 :: http_message). forward demo_gateway demo_call_in demo_credentials = ((r, Some m), s') \<and>
     length (hm_body m) \<le> dp_max_body_bytes (ge_deployment demo_gateway) \<and> hm_method m0 = gr_method demo_call_in"
proof -
  obtain m where m: "prepare demo_gateway demo_call_in demo_inbound demo_inbound demo_caller = Inr m"
    using demo_prepare by blast
  have hs: "caller_headers demo_gateway demo_call_in demo_inbound = Inr (demo_inbound, demo_inbound)"
    by (simp add: caller_headers_def demo_gateway_def demo_deployment_def)
  have bytes: "auth_bytes (uni ''k'') = Inr [107]"
    by (simp add: auth_bytes_def encode_ascii is_ascii_def uni_def)
  have au: "authenticate (ge_auth demo_gateway) (ge_now demo_gateway) demo_inbound s = (Inr (Authenticated demo_caller), s)" for s
    by (simp add: authenticate_def demo_gateway_def client_key_auth_def demo_inbound_def get_or_def bytes demo_caller_def)
  have "\<exists>r. forward demo_gateway demo_call_in demo_credentials = ((r, Some m), demo_credentials)"
    by (simp add: forward_def demo_read_headers hs au m answer_def)
  then obtain r where run: "forward demo_gateway demo_call_in demo_credentials = ((r, Some m), demo_credentials)" by blast
  from gateway_sends_attested [OF run] have
      "length (hm_body m) \<le> dp_max_body_bytes (ge_deployment demo_gateway) \<and> (\<exists>m0 :: http_message. hm_method m0 = gr_method demo_call_in)"
    by meson
  with run show ?thesis by blast
qed

text \<open>C28: the two hops agree: a message the gateway prepares is accepted by the inspector's verifier that
  holds the same key, while the attestation is fresh; the identity it reads is the one the
  gateway attested, and the nonce is consumed.  The hypotheses bound the sizes of the identity
  (printable ASCII) and relate the clocks; the verifier accepts attestations of 60 seconds.\<close>

theorem gateway_message_verified:
  assumes "prepare env rq hs outbound who = Inr m" and "crypto_ok (ge_crypto env)"
    and "plain_claims (attested_identity env who)"
    and "(\<Sum>(k, v) \<leftarrow> attested_identity env who. 2 * length k + claim_size v + 5) \<le> 2500"
    and "plain_text (ge_nonce env)" "ge_nonce env \<noteq> []" "length (ge_nonce env) \<le> 256"
    and "claim_size (JInt (ge_issued env)) \<le> 256" "claim_size (JInt (ge_issued env + 60)) \<le> 256"
    and "vr_key av = ge_key env" "60 \<le> vr_max_age av" "ge_issued env \<le> now + 5" "now < ge_issued env + 60"
    and "\<forall>k \<in> set (vr_required av). identity_field (attested_identity env who) k \<and>
      k \<notin> uni ` {''request_digest'', ''nonce'', ''issued_at'', ''expires_at''}"
    and "map_of db (ge_nonce env) = None"
  shows "\<exists>payload db'. verify (ge_crypto env) av now True True m db = (Inr payload, db') \<and>
    (\<forall>k. k \<notin> uni ` {''request_digest'', ''nonce'', ''issued_at'', ''expires_at''} \<longrightarrow>
       map_of payload k = map_of (attested_identity env who) k) \<and>
    map_of db' (ge_nonce env) = Some (ge_issued env + 60)"
proof -
  obtain m0 where m: "m = attested (ge_crypto env) m0 (attested_identity env who) (vr_key av) (ge_nonce env) (ge_issued env) 60"
    using prepare_Inr [OF assms(1)] assms(10) by auto
  let ?ps = "attestation_payload (ge_crypto env) m0 (attested_identity env who) (ge_nonce env) (ge_issued env) 60"
  have plain: "plain_claims ?ps"
    using assms(2,3,5,8,9) by (intro attestation_payload_plain) simp_all
  have short: "length (urlsafe_encode (canonical_json (JObj ?ps))) \<le> 8192"
    using attestation_payload_short [OF assms(2) plain assms(4,7,8,9)] .
  have other: "k \<notin> uni ` {''request_digest'', ''nonce'', ''issued_at'', ''expires_at''} \<Longrightarrow>
      map_of ?ps k = map_of (attested_identity env who) k" for k
    by (simp add: attestation_payload_def)
  have "\<forall>k \<in> set (vr_required av). identity_field ?ps k"
    using assms(14) other by (simp add: identity_field_def)
  then have "\<exists>payload db'. verify (ge_crypto env) av now True True m db = (Inr payload, db') \<and>
      map_of payload = map_of ?ps \<and> map_of db' (ge_nonce env) = Some (ge_issued env + 60)"
    unfolding m using assms plain short by (intro verify_signed) simp_all
  then show ?thesis using other by metis
qed


theorem gateway_message_verified_witness:
  "\<exists>m payload db'. prepare demo_gateway demo_call_in demo_inbound demo_inbound demo_caller = Inr m \<and>
     verify demo_crypto (demo_verifier\<lparr>vr_required := [uni ''run_id'']\<rparr>) 1010 True True m [] = (Inr payload, db') \<and>
     map_of payload (uni ''source_id'') = Some (JStr (uni ''selfhost-adapter''))"
proof -
  obtain m where m: "prepare demo_gateway demo_call_in demo_inbound demo_inbound demo_caller = Inr m"
    using demo_prepare by blast
  have ident: "attested_identity demo_gateway demo_caller =
      [(uni ''source_id'', JStr (uni ''selfhost-adapter'')), (uni ''run_id'', JStr (uni ''r1''))]"
    by (simp add: attested_identity_def demo_caller_def demo_gateway_def)
  have f: "ge_crypto demo_gateway = demo_crypto" "ge_nonce demo_gateway = uni ''n1''" "ge_issued demo_gateway = 1000"
      "ge_key demo_gateway = [1, 2, 3]"
    by (simp_all add: demo_gateway_def)
  have plain: "plain_claims (attested_identity demo_gateway demo_caller)" "plain_text (uni ''n1'')"
    by (simp_all add: ident plain_claims_def plain_text_def uni_def)
  have "\<exists>payload db'. verify (ge_crypto demo_gateway) (demo_verifier\<lparr>vr_required := [uni ''run_id'']\<rparr>) 1010 True True m [] =
      (Inr payload, db') \<and>
      (\<forall>k. k \<notin> uni ` {''request_digest'', ''nonce'', ''issued_at'', ''expires_at''} \<longrightarrow>
         map_of payload k = map_of (attested_identity demo_gateway demo_caller) k) \<and>
      map_of db' (ge_nonce demo_gateway) = Some (ge_issued demo_gateway + 60)"
    using m by (rule gateway_message_verified)
      (simp_all add: f demo_crypto_ok plain, simp_all add: ident demo_verifier_def identity_field_def dec_nat.simps)
  then show ?thesis using m by (auto simp: f ident)
qed

end
