(* ===== verification/Content_Properties.thy ===== *)
theory Content_Properties
  imports Py_Eval Llm Pii Secret_Detection Masking Sorted_Keys
begin

text \<open>
  What the content scans guarantee: the envelope of a model API request, the findings of the
  PII scanner and the identifiers it validates, the secrets no scanned value contains, and
  what masking leaves of a text.
\<close>

subsection \<open>Model APIs\<close>

definition model_allowed :: "route_rule \<Rightarrow> json \<Rightarrow> bool" where
  "model_allowed r v \<longleftrightarrow> (\<exists>rule. rr_rule r = Some rule \<and>
     (tr_resource_pointer rule \<noteq> None \<and> tr_resource_pointer rule \<noteq> Some [] \<longrightarrow>
        (\<exists>model \<in> set (rr_allowed_models r). obj_get v (uni ''model'') = Some (JStr model))))"

text \<open>A tool the client runs: for Google a list of function declarations and nothing else, for Anthropic a named
  tool of the type \<open>custom\<close>, for the others one of the type \<open>function\<close> (which Google's may be too).\<close>

definition declares :: "(pystr \<times> json) list \<Rightarrow> string \<Rightarrow> string \<Rightarrow> bool" where
  "declares ps k v \<longleftrightarrow> map_of ps (uni k) = Some (JStr (uni v))"

definition client_tool :: "llm_provider \<Rightarrow> json \<Rightarrow> bool" where
  "client_tool p t \<longleftrightarrow> (\<exists>ps. t = JObj ps \<and>
     (case p of
        Anthropic \<Rightarrow> (declares ps ''type'' ''custom'' \<or> uni ''type'' \<notin> fst ` set ps) \<and>
          (\<exists>name. map_of ps (uni ''name'') = Some (JStr name))
      | Google \<Rightarrow> fst ` set ps = {uni ''functionDeclarations''} \<or>
          declares ps ''type'' ''function'' \<and> uni ''functionDeclarations'' \<notin> fst ` set ps
      | _ \<Rightarrow> declares ps ''type'' ''function''))"

lemma llm_tool_client: "llm_tool_check p t = Inr () \<Longrightarrow> client_tool p t"
  by (cases p)
    (auto simp: llm_tool_check_def client_tool_def declares_def get_or_def map_of_eq_None_iff
      split: json.splits if_splits option.splits elim: as_str.elims)


text \<open>The type alone decides for Google: a hosted tool that calls itself a function is accepted.\<close>

lemma google_hosted_tool_accepted:
  "llm_tool_check Google (JObj [(uni ''type'', JStr (uni ''function'')), (uni ''googleSearch'', JObj [])]) = Inr ()"
  by (simp add: llm_tool_check_def get_or_def rguard_def uni_def)

definition demo_llm_route :: route_rule where
  "demo_llm_route = \<lparr>rr_authority = uni ''api.openai.com'', rr_path = uni ''/v1/chat/completions'',
     rr_method = uni ''POST'', rr_required_headers = [], rr_protocol = Http, rr_pii_action = None,
     rr_mcp_versions = [], rr_tool = uni ''llm.chat'',
     rr_rule = Some \<lparr>tr_action = uni ''invoke'', tr_effect = Allow_rule, tr_pii_action = None,
       tr_resource = None, tr_resource_pointer = Some (uni ''/model''), tr_header_parameters = []\<rparr>,
     rr_tools = [], rr_llm_provider = Some Openai, rr_allowed_models = [uni ''gpt-x''],
     rr_redact_fields = []\<rparr>"

definition demo_chat :: json where
  "demo_chat = JObj [(uni ''model'', JStr (uni ''gpt-x'')),
     (uni ''messages'', JArr [JObj [(uni ''role'', JStr (uni ''user'')), (uni ''content'', JStr (uni ''hi''))]]),
     (uni ''tools'', JArr [JObj [(uni ''type'', JStr (uni ''function''))]])]"

lemma demo_chat_valid: "validate_llm demo_chat demo_llm_route Openai False = Inr ()"
  by (simp add: validate_llm_def demo_chat_def demo_llm_route_def obj_or_def llm_node_check_def
      llm_blocked_keys_def llm_blocked_types_def get_or_def hashable_def llm_tool_check_def rguard_def
      image_iff)


subsection \<open>PII\<close>

text \<open>The findings are in strict order, so no span is reported twice for an entity.\<close>

lemma str_less_linear: "str_less s t \<or> s = t \<or> str_less t s"
proof (induction s t rule: str_less.induct)
  case (1 s)
  then show ?case by (cases s) auto
qed auto

lemma str_less_trans: "str_less s t \<Longrightarrow> str_less t u \<Longrightarrow> str_less s u"
proof (induction s t arbitrary: u rule: str_less.induct)
  case (3 a s b t)
  then show ?case by (cases u) auto
next
  case (2 b t)
  then show ?case by (cases u) auto
qed simp

lemma finding_less_trans: "finding_less f g \<Longrightarrow> finding_less g h \<Longrightarrow> finding_less f h"
  by (auto simp: finding_less_def intro: str_less_trans)

lemma finding_less_linear:
  "(pf_entity f, pf_start f, pf_end f) \<noteq> (pf_entity g, pf_start g, pf_end g) \<Longrightarrow> finding_less f g \<or> finding_less g f"
  using str_less_linear [of "pf_entity f" "pf_entity g"] by (auto simp: finding_less_def)

abbreviation finding_key_of :: "pii_finding \<Rightarrow> finding_key" where
  "finding_key_of f \<equiv> (pf_entity f, pf_start f, pf_end f)"

lemma insert_finding_strict:
  assumes "sorted_wrt finding_less gs" and "finding_key_of f \<notin> finding_key_of ` set gs"
  shows "sorted_wrt finding_less (insert_finding f gs)"
  using assms
proof (induction gs)
  case (Cons g gs)
  have "finding_less f g \<or> finding_less g f" using Cons.prems(2) by (intro finding_less_linear) auto
  with Cons show ?case by (auto simp: set_insert_finding intro: finding_less_trans)
qed simp

lemma sort_findings_strict:
  "distinct (map finding_key_of fs) \<Longrightarrow> sorted_wrt finding_less (sort_findings fs)"
proof (induction fs)
  case (Cons f fs)
  have "sort_findings (f # fs) = insert_finding f (sort_findings fs)" by (simp add: sort_findings_def)
  moreover have "finding_key_of f \<notin> finding_key_of ` set (sort_findings fs)" using Cons.prems by simp
  ultimately show ?case using insert_finding_strict Cons by simp
qed (simp add: sort_findings_def)

text \<open>What the collection of answers holds: under its own key the best answer so far.\<close>

definition keyed :: "(finding_key, pii_finding) dict \<Rightarrow> bool" where
  "keyed d \<longleftrightarrow> distinct (dkeys d) \<and> (\<forall>(k, f) \<in> set d. k = finding_key_of f)"

definition reported :: "scanner \<Rightarrow> raw_result \<Rightarrow> pii_finding list \<Rightarrow> bool" where
  "reported sc r fs \<longleftrightarrow> (\<exists>x. rw_score r = Some x \<and> (finding_threshold sc (rw_entity r) \<le> x \<longrightarrow>
     (\<exists>f \<in> set fs. pf_entity f = rw_entity r \<and> int (pf_start f) = rw_start r \<and> int (pf_end f) = rw_end r \<and> x \<le> pf_score f)))"

lemma keyed_dset: "keyed d \<Longrightarrow> keyed (dset (finding_key_of f) f d)"
proof -
  have "set (dset k f d) \<subseteq> insert (k, f) (set d)" for k by (induction d) auto
  then show "keyed d \<Longrightarrow> keyed (dset (finding_key_of f) f d)" by (fastforce simp: keyed_def)
qed

lemma keep_best_keyed: "keyed d \<Longrightarrow> keyed (keep_best f d)"
  by (auto simp: keep_best_def Let_def keyed_dset split: option.split)

text \<open>Nothing that was found is lost: an entry is only replaced by a better one of the same key.\<close>

definition better :: "(finding_key, pii_finding) dict \<Rightarrow> (finding_key, pii_finding) dict \<Rightarrow> bool" where
  "better d e \<longleftrightarrow> (\<forall>k f. map_of d k = Some f \<longrightarrow> (\<exists>g. map_of e k = Some g \<and> pf_score f \<le> pf_score g))"

lemma better_refl: "better d d" by (simp add: better_def)

lemma better_trans: "better d e \<Longrightarrow> better e g \<Longrightarrow> better d g"
  unfolding better_def by (meson order_trans)

lemma keep_best_better: "better d (keep_best f d) \<and> (\<exists>g. map_of (keep_best f d) (finding_key_of f) = Some g \<and> pf_score f \<le> pf_score g)"
  by (auto simp: better_def keep_best_def Let_def split: option.split)

lemma keyed_value: "keyed d \<Longrightarrow> map_of d k = Some f \<Longrightarrow> f \<in> set (dvalues d) \<and> k = finding_key_of f"
proof -
  assume "keyed d" and "map_of d k = Some f"
  then have "(k, f) \<in> set d" and keys: "\<forall>(k, f) \<in> set d. k = finding_key_of f"
    by (auto simp: keyed_def dest: map_of_SomeD)
  then show "f \<in> set (dvalues d) \<and> k = finding_key_of f" by force
qed

definition found_in :: "(finding_key, pii_finding) dict \<Rightarrow> scanner \<Rightarrow> raw_result \<Rightarrow> bool" where
  "found_in d sc r \<longleftrightarrow> (\<exists>f. make_finding r = Inr f \<and> (finding_threshold sc (pf_entity f) \<le> pf_score f \<longrightarrow>
     (\<exists>g. map_of d (finding_key_of f) = Some g \<and> pf_score f \<le> pf_score g)))"

lemma found_in_better: "found_in d sc r \<Longrightarrow> better d e \<Longrightarrow> found_in e sc r"
  unfolding found_in_def better_def by (meson order_trans)

lemma collect_facts:
  "collect_results sc entities len rs d = Inr e \<Longrightarrow> keyed d \<Longrightarrow>
     keyed e \<and> better d e \<and> (\<forall>r \<in> set rs. found_in e sc r \<and> rw_entity r \<in> set entities) \<and>
     (\<forall>f \<in> set (dvalues e). f \<in> set (dvalues d) \<or> (\<exists>r \<in> set rs. make_finding r = Inr f))"
proof (induction rs arbitrary: d)
  case (Cons r rs)
  then obtain f where f: "make_finding r = Inr f" "pf_entity f \<in> set entities"
    and rest: "collect_results sc entities len rs
      (if pf_score f < finding_threshold sc (pf_entity f) then d else keep_best f d) = Inr e"
    by (auto simp: rbind_Inr_iff split: if_split_asm)
  define d1 where "d1 = (if pf_score f < finding_threshold sc (pf_entity f) then d else keep_best f d)"
  have entity: "rw_entity r \<in> set entities" using f by (auto simp: make_finding_def split: if_splits option.splits)
  have d1: "keyed d1" "better d d1" "found_in d1 sc r"
    using Cons.prems(2) f keep_best_keyed keep_best_better [of d f]
    by (auto simp: d1_def better_refl found_in_def not_less)
  have vals: "set (dvalues (dset k f d)) \<subseteq> insert f (set (dvalues d))" for k
    by (induction d) auto
  have "set (dvalues d1) \<subseteq> insert f (set (dvalues d))"
    using vals by (auto simp: d1_def keep_best_def Let_def split: option.splits if_splits)
  moreover note ih = Cons.IH [OF rest [folded d1_def] d1(1)]
  have "found_in e sc r" using ih d1(3) found_in_better by blast
  moreover have "better d e" using ih d1(2) better_trans by blast
  ultimately show ?case using ih f(1) entity by (simp only: list.set(2) ball_simps bex_simps) blast
qed (simp add: better_refl)

lemma scan_facts:
  "scan_languages sc ls s d = Inr e \<Longrightarrow> keyed d \<Longrightarrow>
     keyed e \<and> better d e \<and>
     (\<forall>(lang, entities) \<in> set ls. \<exists>rs. fixed_analyze (sc_presidio sc) lang entities s = Inr rs \<and>
        (\<forall>r \<in> set rs. found_in e sc r \<and> rw_entity r \<in> set entities)) \<and>
     (\<forall>f \<in> set (dvalues e). f \<in> set (dvalues d) \<or> (\<exists>(lang, entities) \<in> set ls. \<exists>rs.
        fixed_analyze (sc_presidio sc) lang entities s = Inr rs \<and> (\<exists>r \<in> set rs. make_finding r = Inr f)))"
proof (induction ls arbitrary: d)
  case (Cons p ls)
  obtain lang entities where p: "p = (lang, entities)" by fastforce
  with Cons.prems(1) obtain rs d1 where rs: "fixed_analyze (sc_presidio sc) lang entities s = Inr rs"
    and one: "collect_results sc entities (length s) rs d = Inr d1"
    and rest: "scan_languages sc ls s d1 = Inr e"
    by (auto simp: rbind_Inr_iff)
  note c = collect_facts [OF one Cons.prems(2)]
  note i = Cons.IH [OF rest conjunct1 [OF c]]
  have "better d e" using c i better_trans by blast
  moreover have "\<forall>r \<in> set rs. found_in e sc r \<and> rw_entity r \<in> set entities" using c i found_in_better by blast
  moreover have "\<forall>f \<in> set (dvalues e). f \<in> set (dvalues d) \<or> (\<exists>(lang, entities) \<in> set (p # ls). \<exists>rs.
        fixed_analyze (sc_presidio sc) lang entities s = Inr rs \<and> (\<exists>r \<in> set rs. make_finding r = Inr f))"
    using c i rs unfolding p by (simp only: list.set(2) bex_simps case_prod_conv) blast
  ultimately show ?case using i rs unfolding p by (simp only: list.set(2) ball_simps case_prod_conv) blast
qed (simp add: better_refl)

lemma make_finding_result:
  "make_finding r = Inr f \<Longrightarrow>
     r = \<lparr>rw_entity = pf_entity f, rw_start = int (pf_start f), rw_end = int (pf_end f), rw_score = Some (pf_score f)\<rparr>"
  by (auto simp: make_finding_def split: if_splits option.splits)

lemma found_reported:
  assumes "keyed d" and "found_in d sc r"
  shows "reported sc r (sort_findings (dvalues d))"
proof -
  obtain f where f: "make_finding r = Inr f" and
    best: "finding_threshold sc (pf_entity f) \<le> pf_score f \<Longrightarrow> \<exists>g. map_of d (finding_key_of f) = Some g \<and> pf_score f \<le> pf_score g"
    using assms(2) by (auto simp: found_in_def)
  have "\<exists>g \<in> set (dvalues d). finding_key_of g = finding_key_of f \<and> pf_score f \<le> pf_score g"
    if "finding_threshold sc (pf_entity f) \<le> pf_score f"
    using best [OF that] keyed_value [OF assms(1)] by metis
  then show ?thesis by (subst make_finding_result [OF f]) (simp only: reported_def, force)
qed


definition demo_presidio :: analyzer where
  "demo_presidio lang entities s =
     Inr (if lang = uni ''en'' then [\<lparr>rw_entity = uni ''US_SSN'', rw_start = 2, rw_end = 5, rw_score = Some (4/5)\<rparr>,
            \<lparr>rw_entity = uni ''EMAIL_ADDRESS'', rw_start = 0, rw_end = 1, rw_score = Some (9/10)\<rparr>] else [])"

definition demo_scanner :: scanner where
  "demo_scanner = \<lparr>sc_threshold = 1/2, sc_passport_threshold = 1/2, sc_presidio = demo_presidio\<rparr>"

lemma demo_analyze:
  "analyze demo_scanner (uni ''@ 123'') = Inr
     [\<lparr>pf_entity = uni ''EMAIL_ADDRESS'', pf_start = 0, pf_end = 1, pf_score = 9/10\<rparr>,
      \<lparr>pf_entity = uni ''US_SSN'', pf_start = 2, pf_end = 5, pf_score = 4/5\<rparr>]"
proof -
  have labels: "entity_label (uni ''US_SSN'')" "entity_label (uni ''EMAIL_ADDRESS'')"
    by (simp_all add: entity_label_def uni_def is_digit_def)
  have at: "is_ascii (uni ''@ 123'') \<and> \<not> list_ex (\<lambda>c. c = 64 \<or> is_digit c) (uni ''@ 123'') \<longleftrightarrow> False"
    by (simp add: uni_def)
  show ?thesis
    by (simp add: analyze_def LANGUAGE_ENTITIES_def fixed_analyze_def at demo_scanner_def demo_presidio_def
        make_finding_def labels finding_threshold_def keep_best_def sort_findings_def finding_less_def)
qed


subsection \<open>Identifiers\<close>

lemma weighted_sum_update:
  assumes "i < length s" and "i < length ws"
  shows "weighted_sum ws (s[i := d]) + (s ! i - 48) * ws ! i = weighted_sum ws s + (d - 48) * ws ! i"
  using assms
proof (induction s arbitrary: ws i)
  case (Cons c s)
  then show ?case
    by (cases ws; cases i) (fastforce simp: weighted_sum_def)+
qed simp

lemma weight_cancels:
  assumes "w \<in> set cn_weights" and "11 dvd z * int w"
  shows "(11::int) dvd z"
proof -
  consider "w = 1" | "w = 2" | "w = 3" | "w = 4" | "w = 5" | "w = 6" | "w = 7" | "w = 8" | "w = 9" | "w = 10"
    using assms(1) by (auto simp: cn_weights_def)
  then show ?thesis using assms(2) by cases (simp_all, presburger+)
qed

lemma weight_detects:
  assumes "x < 10" and "y < 10" and "x \<noteq> y" and "w \<in> set cn_weights" and "a + x * w = b + y * w"
  shows "a mod 11 \<noteq> (b::nat) mod 11"
proof
  assume "a mod 11 = b mod 11"
  then have "int a mod 11 = int b mod 11" by (metis of_nat_mod of_nat_numeral)
  then have "(11::int) dvd int a - int b" by (simp add: mod_eq_dvd_iff)
  moreover have "int a - int b = (int y - int x) * int w"
    using assms(5)
    by (simp add: left_diff_distrib flip: of_nat_mult of_nat_add)
  ultimately have "11 dvd (int y - int x) * int w" by (simp only:)
  then have "(11::int) dvd int y - int x" by (rule weight_cancels [OF assms(4)])
  moreover have "int y - int x \<noteq> 0" using assms(3) by simp
  ultimately have "\<bar>11\<bar> \<le> \<bar>int y - int x\<bar>" by (intro dvd_imp_le_int)
  then show False using assms(1,2) by linarith
qed

lemma cn_check_inject:
  "i < 11 \<Longrightarrow> j < 11 \<Longrightarrow> cn_check_characters ! i = cn_check_characters ! j \<Longrightarrow> i = j"
proof -
  have "distinct cn_check_characters" "length cn_check_characters = 11"
    by (simp_all add: cn_check_characters_def uni_def)
  then show "i < 11 \<Longrightarrow> j < 11 \<Longrightarrow> cn_check_characters ! i = cn_check_characters ! j \<Longrightarrow> i = j"
    by (simp add: nth_eq_iff_index_eq)
qed

lemma compact_digits:
  assumes "list_all (\<lambda>c. is_digit c \<or> c = 88) s"
  shows "compact_identifier s = s"
  using assms
  by (induction s) (auto simp: compact_identifier_def is_digit_def is_space_def upper_char_def)

text \<open>The check character of a Chinese resident identification number detects every change of
  one of its seventeen digits.\<close>

theorem cn_one_digit_detected:
  assumes "valid_cn_resident_id s" and "list_all (\<lambda>c. is_digit c \<or> c = 88) s"
    and "i < 17" and "is_digit d" and "d \<noteq> s ! i"
  shows "\<not> valid_cn_resident_id (s[i := d])"
proof
  assume changed: "valid_cn_resident_id (s[i := d])"
  have s: "compact_identifier s = s" using compact_digits [OF assms(2)] .
  have s': "compact_identifier (s[i := d]) = s[i := d]"
    using assms(2,4) by (intro compact_digits) (auto simp: list_all_iff dest!: set_update_subset_insert [THEN subsetD])
  have len: "length s = 18" and digits: "list_all is_digit (take 17 s)"
    and c1: "s ! 17 = cn_check_characters ! (cn_checksum s mod 11)"
    using assms(1) by (simp_all add: valid_cn_resident_id_def s Let_def)
  have c2: "s ! 17 = cn_check_characters ! (cn_checksum (s[i := d]) mod 11)"
    using changed assms(3) by (simp add: valid_cn_resident_id_def s' Let_def)
  have "take 17 s ! i \<in> set (take 17 s)" using len assms(3) by (intro nth_mem) simp
  then have "is_digit (s ! i)" using digits assms(3) by (simp add: list_all_iff)
  then have range: "s ! i - 48 < 10" "d - 48 < 10" "s ! i - 48 \<noteq> d - 48"
    using assms(4,5) by (auto simp: is_digit_def)
  have w: "cn_weights ! i \<in> set cn_weights"
    using assms(3) by (intro nth_mem) (simp add: cn_weights_def)
  have "cn_checksum (s[i := d]) + (s ! i - 48) * cn_weights ! i = cn_checksum s + (d - 48) * cn_weights ! i"
    using weighted_sum_update [of i "take 17 s" cn_weights d] len assms(3)
    by (simp add: cn_checksum_def take_update_swap cn_weights_def)
  from weight_detects [OF range w this] have "cn_checksum (s[i := d]) mod 11 \<noteq> cn_checksum s mod 11" .
  moreover have "cn_checksum (s[i := d]) mod 11 = cn_checksum s mod 11"
    using cn_check_inject [of "cn_checksum (s[i := d]) mod 11" "cn_checksum s mod 11"] c1 c2 by simp
  ultimately show False by simp
qed

definition demo_resident :: pystr where
  "demo_resident = uni ''11010519491231002X''"

lemma cn_one_digit_detected_witness: "\<not> valid_cn_resident_id (demo_resident[3 := 52])"
proof (rule cn_one_digit_detected)
  show chars: "list_all (\<lambda>c. is_digit c \<or> c = 88) demo_resident"
    by (simp add: demo_resident_def uni_def is_digit_def)
  show "valid_cn_resident_id demo_resident"
    by (simp add: valid_cn_resident_id_def compact_digits [OF chars])
      (simp add: demo_resident_def uni_def is_digit_def valid_date_def nat_of_digits_def days_in_month_def
        cn_checksum_def weighted_sum_def cn_weights_def cn_check_characters_def Let_def)
  show "52 \<noteq> demo_resident ! 3" by (simp add: demo_resident_def uni_def)
qed (simp_all add: is_digit_def)

subsection \<open>Secrets\<close>

text \<open>A credential of one of the known shapes, where its pattern may start and must end.\<close>

definition embeds_token :: "pystr \<Rightarrow> bool" where
  "embeds_token s \<longleftrightarrow>
     (\<exists>before prefix body after. \<exists>tp \<in> set token_patterns. s = before @ prefix @ body @ after \<and>
        prefix \<in> set (tp_prefixes tp) \<and> list_all (tp_body tp) body \<and>
        tp_min tp \<le> length body \<and> length body \<le> tp_max tp \<and>
        (before = [] \<or> \<not> tp_before tp (last before)) \<and> (after = [] \<or> \<not> tp_body tp (hd after))) \<or>
     (\<exists>key \<in> set private_key_headers. contains_sub s key)"

lemma embeds_token_found: "embeds_token s \<Longrightarrow> has_token s"
proof -
  have prefixes: "p \<in> set (tp_prefixes tp) \<Longrightarrow> p \<noteq> []" if "tp \<in> set token_patterns" for tp p
    using that by (auto simp: token_patterns_def)
  have step: "token_search tp None (a @ p @ body @ b)"
    if tp: "tp \<in> set token_patterns" and p: "p \<in> set (tp_prefixes tp)" and body: "list_all (tp_body tp) body"
      "tp_min tp \<le> length body" "length body \<le> tp_max tp" "a = [] \<or> \<not> tp_before tp (last a)"
      "b = [] \<or> \<not> tp_body tp (hd b)" for tp a p body b
  proof -
    have "takeWhile (tp_body tp) (body @ b) = body"
      using body(1,5) by (cases b) (auto simp: list_all_iff takeWhile_append2)
    then have "token_here tp (p @ body @ b)"
      using p body(2,3) by (auto simp: token_here_def Let_def intro!: bexI [of _ p])
    then show ?thesis
      using prefixes [OF tp p] body(4) unfolding token_search_iff
      by (intro exI [of _ a] exI [of _ "p @ body @ b"]) (auto simp: not_after_def)
  qed
  show "embeds_token s \<Longrightarrow> has_token s"
    unfolding embeds_token_def has_token_def list_ex_iff using step by blast
qed


lemma member_names_unread:
  "contains_secret sx b (JObj [(k, JNull)]) n = contains_secret sx b (JObj [(k', JNull)]) n"
  by (simp add: seq_app check_deadline_def)

definition demo_secrets :: secret_env where
  "demo_secrets = \<lparr>sx_expired = (\<lambda>_. False), sx_alnum = (\<lambda>_. True), sx_json_text = (\<lambda>_. None),
     sx_json = \<lparr>float_repr = (\<lambda>t. t), nest_limit = 9\<rparr>\<rparr>"


subsection \<open>Masking\<close>

text \<open>C19: masking a text is the same as reading it once from left to right and writing the marker
  for every maximal run of characters covered by a finding, whatever the findings overlap.\<close>

theorem mask_equals_one_pass:
  assumes "analyze sc s = Inr fs"
  shows "mask s fs = mask_runs (covered fs) 0 False s"
  using analyze_ok [OF assms] by (intro mask_is_mask_runs) (auto simp: finding_ok_def)

lemma mask_equals_one_pass_witness:
  "mask (uni ''@ 123'') [\<lparr>pf_entity = uni ''EMAIL_ADDRESS'', pf_start = 0, pf_end = 1, pf_score = 9/10\<rparr>,
      \<lparr>pf_entity = uni ''US_SSN'', pf_start = 2, pf_end = 5, pf_score = 4/5\<rparr>] = uni ''[REDACTED] [REDACTED]''"
  unfolding mask_equals_one_pass [OF demo_analyze]
  by (simp add: covered_def uni_def REDACTED_def)

end
