(* ===== verification/Engine_Properties.thy ===== *)
theory Engine_Properties
  imports Ext_Proc_Safety Identity_Properties Content_Properties
begin

text \<open>
  What the engine and the stream processor promise, with a request that goes through the whole
  of it as the example: \<open>demo_env\<close> has one route, no broker and one trusted source.
\<close>

subsection \<open>A request that passes\<close>

definition demo_get_rule :: tool_rule where
  "demo_get_rule = \<lparr>tr_action = uni ''read'', tr_effect = Allow_rule, tr_pii_action = None,
     tr_resource = Some (uni ''status''), tr_resource_pointer = None, tr_header_parameters = []\<rparr>"

definition demo_get_route :: route_rule where
  "demo_get_route = \<lparr>rr_authority = uni ''api'', rr_path = uni ''/'', rr_method = uni ''GET'',
     rr_required_headers = [], rr_protocol = Http, rr_pii_action = None, rr_mcp_versions = [],
     rr_tool = uni ''http.request'', rr_rule = Some demo_get_rule, rr_tools = [], rr_llm_provider = None,
     rr_allowed_models = [], rr_redact_fields = []\<rparr>"

definition demo_env :: engine_env where
  "demo_env = \<lparr>ee_config = demo_config\<lparr>ic_routes := [demo_get_route]\<rparr>, ee_url = demo_urls,
     ee_crypto = demo_crypto, ee_alnum = (\<lambda>_. False), ee_repr = (\<lambda>_. []), ee_expired = (\<lambda>_. False),
     ee_pii = (\<lambda>_ _. Inr []), ee_search = (\<lambda>_ _ _. Some False),
     ee_verifier = demo_verifier\<lparr>vr_required := []\<rparr>, ee_now = 1010, ee_db_ok = True, ee_broker = None\<rparr>"

definition demo_plain_get :: http_message where
  "demo_plain_get = \<lparr>hm_method = uni ''GET'', hm_authority = uni ''api'', hm_path = uni ''/'',
     hm_headers = [(uni '':method'', uni ''GET''), (uni '':authority'', uni ''api''), (uni '':path'', uni ''/'')],
     hm_body = [], hm_complete = True\<rparr>"

lemma demo_plain_fields [simp]:
  "hm_method demo_plain_get = uni ''GET''" "hm_authority demo_plain_get = uni ''api''"
  "hm_path demo_plain_get = uni ''/''" "hm_body demo_plain_get = []" "hm_complete demo_plain_get"
  by (simp_all add: demo_plain_get_def)

definition demo_source :: "(pystr, json) dict" where
  "demo_source = [(uni ''source_id'', JStr (uni ''adapter''))]"

abbreviation demo_get :: http_message where
  "demo_get \<equiv> attested demo_crypto demo_plain_get demo_source (vr_key demo_verifier) (uni ''n1'') 1000 60"

definition demo_engine :: engine_state where
  "demo_engine = \<lparr>es_checks = 0, es_verdict = new_verdict V_unknown [] Inline, es_nonces = [],
     es_broker = \<lparr>mem = empty_tables, disk = Missing, depth = 0, dirty = False, clock_reads = 0, uuids_used = 0,
       tokens_used = 0, writes = 0\<rparr>\<rparr>"

text \<open>Nothing is found in the texts of that request.\<close>

lemma demo_no_token: "\<not> has_token []" "\<not> has_token [47]"
  by (simp_all add: has_token_def private_key_headers_def token_patterns_def token_here_def not_after_def uni_def)

lemma demo_no_jwt: "jwt_matches None [] = []" "jwt_matches None [47] = []"
  by (simp_all add: jwt_here_def uni_def)

lemma demo_no_query: "query_candidate [] = None" "query_candidate [47] = None"
  "split_runs query_separator False [] = [[]]" "split_runs query_separator False [47] = [[47]]"
  by (simp_all add: query_candidate_def strip_by_def token_edge_def query_separator_def is_space_def is_quote_def)

lemma demo_no_assignment: "assignment_values [] = []" "assignment_values [47] = []"
  by (simp_all add: assignment_here_def assignment_name_def assignment_names_def strip_pair_def strip_word_def
      drop_if_def is_quote_def fold_case_def is_upper_def uni_def)

lemma demo_env_fields [simp]:
  "ee_config demo_env = demo_config\<lparr>ic_routes := [demo_get_route]\<rparr>" "ee_url demo_env = demo_urls"
  "ee_crypto demo_env = demo_crypto" "ee_expired demo_env n = False" "ee_pii demo_env n t = Inr []"
  "ee_verifier demo_env = demo_verifier\<lparr>vr_required := []\<rparr>" "ee_now demo_env = 1010" "ee_db_ok demo_env"
  "ee_broker demo_env = None"
  by (simp_all add: demo_env_def)

lemma plain_leaf:
  assumes "\<not> has_token t" "jwt_matches None t = []" "split_runs query_separator False t = [t]"
    and "query_candidate t = None" "assignment_values t = []" "\<And>n. \<not> sx_expired sx n"
  shows "contains_secret sx False (JStr t) n = (Inr False, n + 3)"
  using assms
  by (simp add: contains_secret_text_def contains_valid_jwt_def contains_azure_sas_def act_simps check_deadline_def)

lemma demo_secret_text:
  assumes "t \<in> {[], [47]}"
  shows "contains_secret (secrets_of demo_env) False (JStr t) n = (Inr False, n + 3)"
proof (rule plain_leaf)
  show "\<not> has_token t" using assms demo_no_token by auto
  show "jwt_matches None t = []" using assms demo_no_jwt by auto
  show "split_runs query_separator False t = [t]" "query_candidate t = None" using assms demo_no_query by auto
  show "assignment_values t = []" using assms demo_no_assignment by auto
qed (simp add: secrets_of_def)

lemma demo_search:
  assumes "t \<in> {[], [47]}"
  shows "search_patterns demo_env n signature_patterns t = Some False"
  using assms
  by (auto simp: signature_patterns_def DEFAULT_PATTERNS_def bounded_search_def demo_env_def)

lemma demo_text:
  assumes "t \<in> {[], [47]}"
  shows "inspect_text demo_env r t s = (Inr (), s\<lparr>es_checks := es_checks s + 5\<rparr>)"
  using demo_secret_text [OF assms] demo_search [OF assms]
  by (simp add: inspect_text_def signatures_def with_checks_def act_simps check_signature_def check_time_def
      check_deadline_def find_pii_def del: contains_secret.simps)

lemma demo_texts:
  assumes "\<forall>t \<in> set ts. t \<in> {[], [47]}"
  shows "inspect_texts demo_env r ts s = (Inr (), s\<lparr>es_checks := es_checks s + 5 * length ts\<rparr>)"
  using assms by (induction ts arbitrary: s) (simp_all add: demo_text act_simps)

lemma demo_get_headers: "application_headers (hm_headers demo_get) = []"
  using attestation_reserved
  by (simp add: application_headers_def is_application_header_def demo_plain_get_def ATTESTATION_HEADER_def uni_def
      TRANSPORT_HEADERS_def)

lemma demo_split: "urlsplit demo_urls (uni ''/'') = Some \<lparr>u_scheme = [], u_netloc = [], u_path = uni ''/'',
     u_query = [], u_fragment = []\<rparr>"
  by (simp add: demo_urls_def urlsplit_def url_clean_def split_scheme_def split_netloc_def uni_def)

lemma demo_unquote: "unquote (uni ''/'') = uni ''/''" "unquote [] = []"
  by (simp_all add: unquote_plain is_ascii_def uni_def)

lemma demo_metadata: "\<exists>n. inspect_metadata demo_env False demo_get s = (Inr (), s\<lparr>es_checks := n\<rparr>)"
proof -
  have "target_candidates demo_env demo_get = Inr [[47], [], []]"
    using demo_unquote by (simp add: target_candidates_def demo_plain_get_def demo_split parse_qsl_def) (simp add: uni_def)
  moreover have "inspected_headers demo_env False demo_get = []"
    by (simp only: inspected_headers_def demo_get_headers) simp
  ultimately show ?thesis
    by (simp add: inspect_metadata_def act_simps demo_texts del: inspect_texts.simps(2)) blast
qed


text \<open>The stages of the request, and the verdict.\<close>

lemma demo_validate: "validate_message demo_get (ic\<lparr>ic_routes := rs\<rparr>) = Inr ()"
  by (simp add: validate_message_def demo_plain_get_def get_or_def ATTESTATION_HEADER_def uni_def
      py_lower_def lower_char_def)

lemma demo_route: "route_for demo_urls demo_get (demo_config\<lparr>ic_routes := [demo_get_route]\<rparr>) = Inr demo_get_route"
proof -
  have "route_matches demo_get (uni ''/'') demo_get_route"
    by (simp add: route_matches_def demo_get_route_def)
  moreover have "\<not> unmapped_overrides demo_get demo_get_route"
    by (simp add: unmapped_overrides_def override_headers_def demo_get_route_def demo_plain_get_def ATTESTATION_HEADER_def
        uni_def)
  moreover have "split_on 47 (uni ''/'') = [[], []]" "\<not> contains_sub (uni ''/'') [47, 47]" "92 \<notin> set (uni ''/'')"
    by (simp_all add: uni_def)
  ultimately show ?thesis
    using demo_unquote by (simp add: route_for_def demo_split)
qed

lemma demo_get_semantics: "semantics demo_get demo_get_route v = Inr (uni ''http.request'', uni ''read'', uni ''status'')"
  by (simp add: semantics_def demo_get_route_def demo_get_rule_def resource_of_def)

lemma demo_no_provider: "rr_llm_provider demo_get_route = None"
  by (simp add: demo_get_route_def)

lemma demo_allowed: "tr_effect demo_get_rule = Allow_rule"
  by (simp add: demo_get_rule_def)

definition demo_screened :: screened where
  "demo_screened = \<lparr>sd_route = demo_get_route, sd_value = JObj [], sd_tool = uni ''http.request'',
     sd_action = uni ''read'', sd_resource = uni ''status'', sd_pii = Redact_pii\<rparr>"

lemma demo_screen:
  "\<exists>s'. screen_request demo_env demo_get s = (Inr demo_screened, s') \<and> es_nonces s' = es_nonces s \<and>
     vd_action (es_verdict s') = vd_action (es_verdict s)"
proof -
  obtain n where n: "inspect_metadata demo_env False demo_get s = (Inr (), s\<lparr>es_checks := n\<rparr>)"
    using demo_metadata by blast
  have "request_value demo_env demo_get = Inr (JObj [])"
    by (simp add: request_value_def demo_plain_get_def)
  then have r: "read_request demo_env demo_get s =
      (Inr (demo_get_route, JObj [], uni ''http.request'', uni ''read'', uni ''status''), s\<lparr>es_checks := n\<rparr>)"
    by (simp add: read_request_def act_simps n demo_validate demo_route demo_get_semantics demo_no_provider)
  have rule: "rule_of demo_get_route (uni ''http.request'') = Some demo_get_rule"
    by (simp add: rule_of_def demo_get_route_def)
  have pol: "pii_policy demo_env (Some demo_get_route) (Some demo_get_rule) = (Redact_pii, Scope_global)"
    by (simp add: pii_policy_def demo_get_route_def demo_get_rule_def demo_config_def)
  have "check_egress demo_urls c (JObj []) = Inr ()" for c by (simp add: check_egress_def)
  then have "\<exists>s'. judge_request demo_env (demo_get_route, JObj [], uni ''http.request'', uni ''read'', uni ''status'') t =
      (Inr demo_screened, s') \<and> es_nonces s' = es_nonces t \<and> vd_action (es_verdict s') = vd_action (es_verdict t)" for t
    by (simp add: judge_request_def rule pol act_simps set_verdict_def signatures_def with_checks_def
        check_deadline_def secrets_of_def demo_screened_def demo_allowed Let_def)
  from this [of "s\<lparr>es_checks := n\<rparr>"] show ?thesis
    by (simp add: screen_request_def seq_app r)
qed

lemma demo_digest: "request_digest demo_crypto m = replicate 64 48"
  by (simp add: request_digest_def demo_crypto_def)

lemma demo_redact:
  "redact_request demo_env demo_get demo_screened s = (Inr (), s\<lparr>es_verdict := (es_verdict s)
     \<lparr>vd_request_digest := Some (request_digest demo_crypto demo_get), vd_body := None\<rparr>\<rparr>)"
  by (simp add: redact_request_def demo_screened_def redact_json_def redact_plain_def act_simps
      demo_get_semantics sd_semantics_def set_verdict_def demo_no_provider demo_digest)

lemma demo_source_plain: "plain_claims (attestation_payload demo_crypto demo_plain_get demo_source (uni ''n1'') 1000 60)"
  by (rule attestation_payload_plain [OF demo_crypto_ok])
    (simp_all add: demo_source_def plain_claims_def plain_text_def uni_def dec_nat.simps)

lemma demo_source_short:
  "length (urlsafe_encode (canonical_json (JObj
     (attestation_payload demo_crypto demo_plain_get demo_source (uni ''n1'') 1000 60)))) \<le> 8192"
proof (rule short_attestation [OF demo_source_plain])
  show "(\<Sum>(k, v) \<leftarrow> attestation_payload demo_crypto demo_plain_get demo_source (uni ''n1'') 1000 60.
      2 * length k + claim_size v + 5) \<le> 4000"
    by (simp add: attestation_payload_def demo_digest demo_source_def dec_nat.simps)
qed

lemma demo_verified:
  "\<exists>ident. verify demo_crypto (demo_verifier\<lparr>vr_required := []\<rparr>) 1010 True c demo_get [] =
     (Inr ident, if c then [(uni ''n1'', 1060)] else []) \<and> map_of ident (uni ''source_id'') = Some (JStr (uni ''adapter''))"
proof -
  let ?ps = "attestation_payload demo_crypto demo_plain_get demo_source (uni ''n1'') 1000 60"
  have "verify_claims demo_crypto (demo_verifier\<lparr>vr_required := []\<rparr>) 1010
      (attested demo_crypto demo_plain_get demo_source (vr_key (demo_verifier\<lparr>vr_required := []\<rparr>)) (uni ''n1'') 1000 60) =
      Inr (sort_pairs ?ps)"
    by (rule verify_claims_signed [OF demo_crypto_ok demo_source_plain demo_source_short])
      (simp_all add: demo_verifier_def)
  then have claims: "verify_claims demo_crypto (demo_verifier\<lparr>vr_required := []\<rparr>) 1010 demo_get = Inr (sort_pairs ?ps)"
    by simp
  have same: "map_of (sort_pairs ?ps) = map_of ?ps"
    using demo_source_plain by (intro map_of_sort_pairs) (simp add: plain_claims_def)
  have "is_ascii (uni ''n1'')" by (simp add: is_ascii_def uni_def)
  moreover have "map_of (sort_pairs ?ps) (uni ''source_id'') = Some (JStr (uni ''adapter''))"
    unfolding same by (simp add: attestation_payload_def demo_source_def)
  ultimately show ?thesis
    unfolding verify_def claims
    by (simp add: payload_str_def payload_int_def same attestation_payload_fields encode_ascii consume_nonce_def)
qed

lemma demo_verdict:
  "\<exists>vd s. inspect_request demo_env mode demo_get demo_engine = (vd, s) \<and> lets_through vd \<and> vd_body vd = None"
proof -
  let ?s = "demo_engine\<lparr>es_verdict := new_verdict V_allow ''policy_allowed'' mode\<rparr>"
  obtain s' where "screen_request demo_env demo_get ?s = (Inr demo_screened, s')"
      and "es_nonces s' = []" "vd_action (es_verdict s') = V_allow"
    using demo_screen [of ?s] by (auto simp: new_verdict_def demo_engine_def)
  moreover obtain ident where "verify demo_crypto (demo_verifier\<lparr>vr_required := []\<rparr>) 1010 True (mode = Inline) demo_get [] =
     (Inr ident, if mode = Inline then [(uni ''n1'', 1060)] else [])"
      and "map_of ident (uni ''source_id'') = Some (JStr (uni ''adapter''))"
    using demo_verified by blast
  ultimately show ?thesis
    by (simp add: inspect_request_def request_body_def act_simps demo_redact verify_identity_def
        with_nonces_def local_policy_def get_or_def demo_config_def set_verdict_def
        lets_through_def mark_redacted_def)
qed


subsection \<open>Claims on requests\<close>

text \<open>C22: an inline request that is let through passed every check: message, route, headers and target
  (\<open>metadata_clean\<close>), content, policy, secrets, signatures and egress (\<open>content_admitted\<close>); what is forwarded is its redaction and
  stands for the same action (\<open>redaction_admitted\<close>); a fresh attestation was consumed, and local
  policy trusts the source or the broker authorized this very digest (\<open>authority_admitted\<close>).\<close>

theorem inline_forward_sound:
  assumes "inspect_request env Inline m s = (vd, s')" and "vd_action vd = V_allow \<or> vd_action vd = V_redact"
  shows "\<exists>sd. content_admitted env m sd \<and> redaction_admitted env m sd vd \<and> authority_admitted env m sd vd s s'"
  using inline_forward [OF assms(1)] assms(2) by (simp add: lets_through_def)

theorem inline_forward_sound_witness:
  "\<exists>vd s'. inspect_request demo_env Inline demo_get demo_engine = (vd, s') \<and> vd_body vd = None \<and>
     (\<exists>sd. content_admitted demo_env demo_get sd \<and> redaction_admitted demo_env demo_get sd vd \<and>
       authority_admitted demo_env demo_get sd vd demo_engine s')"
proof -
  obtain vd s' where "inspect_request demo_env Inline demo_get demo_engine = (vd, s')" "lets_through vd" "vd_body vd = None"
    using demo_verdict by blast
  with inline_forward_sound [of demo_env demo_get demo_engine vd s'] show ?thesis
    by (auto simp: lets_through_def)
qed

text \<open>C23: whatever a request makes the inspection raise, inline mode blocks it, forwards no body and
  names the code of the error, or that inspection is unavailable.\<close>

theorem inline_errors_block:
  assumes "request_body env Inline m (s\<lparr>es_verdict := new_verdict V_allow ''policy_allowed'' Inline\<rparr>) = (Inl e, s')"
  shows "\<exists>vd s'. inspect_request env Inline m s = (vd, s') \<and> vd_action vd = V_block \<and> vd_body vd = None \<and>
    vd_reason vd = (case e of Inspection r \<Rightarrow> r | _ \<Rightarrow> ''inspection_unavailable'')"
  using assms by (cases e) (simp_all add: inspect_request_def refused_def unavailable_def new_verdict_def Let_def)

theorem inline_errors_block_witness:
  "\<exists>vd s'. inspect_request demo_env Inline (demo_get\<lparr>hm_complete := False\<rparr>) demo_engine = (vd, s') \<and>
     vd_action vd = V_block \<and> vd_body vd = None \<and> vd_reason vd = ''incomplete_capture''"
  using inline_errors_block [of demo_env "demo_get\<lparr>hm_complete := False\<rparr>" demo_engine "Inspection ''incomplete_capture''"
      "demo_engine\<lparr>es_verdict := new_verdict V_allow ''policy_allowed'' Inline\<rparr>"]
  by (simp add: request_body_def screen_request_def read_request_def validate_message_def act_simps)

text \<open>C24: mirror mode observes: whatever the message, the nonces and the broker's file, its write
  count and its tables are what they were.\<close>

theorem mirror_observes: "lasting env (snd (inspect_request env Mirror m s)) = lasting env s"
  using mirror_stores [of env m s] by (cases "inspect_request env Mirror m s") simp

end
