(* ===== verification/Stream_Properties.thy ===== *)
theory Stream_Properties
  imports Engine_Properties
begin

text \<open>
  What the stream processor promises with the engine behind it, and what redaction forwards.
  The example stream carries the request of \<open>Engine_Properties\<close> as the proxy sends it.
\<close>

subsection \<open>The example stream\<close>

definition plain_header :: "string \<Rightarrow> pystr \<Rightarrow> proto_header" where
  "plain_header k v = \<lparr>ph_key = uni k, ph_raw = [], ph_value = v\<rparr>"

definition demo_signature :: pystr where
  "demo_signature = sign_attestation demo_crypto demo_plain_get demo_source (vr_key demo_verifier) (uni ''n1'') 1000 60"

definition demo_stream :: "ext_event list" where
  "demo_stream = [Request_headers [plain_header '':method'' (uni ''GET''), plain_header '':authority'' (uni ''api''),
      plain_header '':path'' (uni ''/''), plain_header ''x-td-attestation'' demo_signature] False,
     Request_body [] True]"


lemma demo_signature_chars: "\<not> list_ex bad_header_char demo_signature"
proof -
  have "hmac_sha256 demo_crypto k b = replicate 64 48" for k b by (simp add: demo_crypto_def)
  moreover have "\<not> bad_header_char c" if "c \<in> set (urlsafe_encode bs)" for c bs
    using bspec [OF urlsafe_no_dot(3) that] by (simp add: bad_header_char_def)
  ultimately show ?thesis
    by (auto simp: demo_signature_def sign_attestation_def Let_def list_ex_iff) (auto simp: bad_header_char_def uni_def)
qed

lemma demo_names:
  "py_lower (uni '':method'') = uni '':method''" "py_lower (uni '':authority'') = uni '':authority''"
  "py_lower (uni '':path'') = uni '':path''" "py_lower (uni ''x-td-attestation'') = uni ''x-td-attestation''"
  by (simp_all add: py_lower_def lower_char_def uni_def)

lemma demo_no_control: "\<not> list_ex bad_header_char (uni ''GET'')" "\<not> list_ex bad_header_char (uni ''api'')"
  "\<not> list_ex bad_header_char (uni ''/'')" "\<not> list_ex bad_header_char (uni '':method'')"
  "\<not> list_ex bad_header_char (uni '':authority'')" "\<not> list_ex bad_header_char (uni '':path'')"
  "\<not> list_ex bad_header_char (uni ''x-td-attestation'')"
  by (simp_all add: bad_header_char_def uni_def)

lemma demo_proto_headers:
  "proto_headers [plain_header '':method'' (uni ''GET''), plain_header '':authority'' (uni ''api''),
      plain_header '':path'' (uni ''/''), plain_header ''x-td-attestation'' demo_signature] = Inr (hm_headers demo_get)"
  by (simp add: proto_headers_def plain_header_def proto_value_def normalized_headers_def demo_names
      demo_no_control demo_signature_chars)
    (simp add: demo_plain_get_def ATTESTATION_HEADER_def demo_signature_def [symmetric, unfolded demo_plain_get_def])


lemma demo_stream_runs:
  "\<exists>names fin st. process (engine_inspector demo_env (\<lambda>_. True)) demo_stream demo_engine =
     ([Pass_request_headers names, Pass_request_body None], fin, st)"
proof -
  obtain vd s where v: "inspect_request demo_env Inline demo_get demo_engine = (vd, s)" "lets_through vd" "vd_body vd = None"
    using demo_verdict by blast
  let ?ins = "engine_inspector demo_env (\<lambda>_. True)"
  obtain hs where hs: "hs = hm_headers demo_get" by blast
  let ?st = "(stream_start demo_engine)\<lparr>sm_request_headers := Some hs, sm_method := uni ''GET'',
      sm_authority := uni ''api'', sm_path := uni ''/''\<rparr>"
  have fields: "get_or hs (uni '':method'') [] = uni ''GET''"
      "get_or hs (uni '':authority'') (get_or hs (uni ''host'') []) = uni ''api''"
      "get_or hs (uni '':path'') [] = uni ''/''"
    by (simp_all add: hs get_or_def demo_plain_get_def ATTESTATION_HEADER_def)
  have h: "process_event ?ins (hd demo_stream) (stream_start demo_engine) =
      (Inr (Pass_request_headers (remove_context hs), False), ?st)"
    unfolding demo_stream_def list.sel process_event.simps request_headers_event_def demo_proto_headers hs [symmetric]
    by (simp add: seq_app stream_start_def fields)
  have m: "sm_method st = uni ''GET'' \<Longrightarrow> sm_authority st = uni ''api'' \<Longrightarrow> sm_path st = uni ''/'' \<Longrightarrow>
      stream_message st hs [] True = demo_get" for st :: "engine_state stream"
    by (simp add: stream_message_def hs demo_plain_get_def)
  have "\<exists>st'. process_event ?ins (Request_body [] True) ?st = (Inr (Pass_request_body None, False), st')"
    using v by (simp add: request_body_event_def seq_app m inspect_stream_request_def call_engine_def
        engine_inspector_def record_audit_def stream_start_def)
  then show ?thesis
    using h by (auto simp: process_def demo_stream_def split: prod.splits)
qed


subsection \<open>Claims\<close>




text \<open>C26: redaction refines its specification: what is written for a JSON body is read back by the next
  hop as a value of the same shape in which keys and numbers are free of findings and every
  string has each maximal run of covered characters replaced by the marker, and nothing else
  changed (\<open>redacted\<close>); a finding is only masked where the policy redacts and the field is allowed.\<close>

theorem redaction_refines:
  assumes "uses_analyzer env" and "float_repr_ok (crypto_json (ee_crypto env))"
    and "engine_json env raw = Inr v" and "redact_json env allowed pii False v t = (Inr w, t')"
    and "encode_json w = Inr b"
  shows "engine_json env b = Inr w \<and>
    redacted env (\<lambda>path. pii = Redact_pii \<and> redactable allowed path) [] v w"
  using assms redacted_reads_back [OF assms(3,2,4,5)]
  by (auto simp: redact_json_def intro: redact_plain_redacted)

definition demo_scan_env :: engine_env where
  "demo_scan_env = demo_env\<lparr>ee_pii := (\<lambda>_. analyze demo_scanner)\<rparr>"

text \<open>The texts of the one-element arrays before and after.\<close>

definition demo_text_in :: pystr where
  "demo_text_in = 91 # 34 # uni ''@ 123'' @ [34, 93]"

definition demo_text_out :: pystr where
  "demo_text_out = 91 # 34 # uni ''[REDACTED] [REDACTED]'' @ [34, 93]"

lemma demo_scan_read:
  "engine_json demo_scan_env (map of_nat demo_text_in) = Inr (JArr [JStr (uni ''@ 123'')])"
proof -
  have "utf8_decode (map of_nat demo_text_in) = Some demo_text_in"
    by (rule decode_ascii) (simp add: is_ascii_def uni_def demo_text_in_def)
  moreover have "json_loads demo_json True demo_text_in = Inr (JArr [JStr (uni ''@ 123'')])"
    by (simp add: json_eval demo_json_def demo_text_in_def cong: rbind_weak_cong)
  ultimately show ?thesis
    by (simp add: engine_json_def demo_scan_env_def demo_crypto_def demo_config_def strict_json_Inr json_nodes_def)
qed

lemma demo_scan_redact:
  "\<exists>t'. redact_json demo_scan_env None Redact_pii False (JArr [JStr (uni ''@ 123'')]) demo_engine =
     (Inr (JArr [JStr (uni ''[REDACTED] [REDACTED]'')]), t')"
proof -
  have "mask (uni ''@ 123'') [\<lparr>pf_entity = uni ''EMAIL_ADDRESS'', pf_start = 0, pf_end = 1, pf_score = 9/10\<rparr>,
      \<lparr>pf_entity = uni ''US_SSN'', pf_start = 2, pf_end = 5, pf_score = 4/5\<rparr>] = uni ''[REDACTED] [REDACTED]''"
    by (simp add: mask_is_mask_runs covered_def uni_def REDACTED_def)
  then show ?thesis
    by (simp add: redact_json_def redact_plain_def act_simps redact_leaf_def find_pii_def check_time_def with_checks_def
        check_deadline_def demo_scan_env_def demo_analyze demo_config_def add_entities_def set_verdict_def redactable_def)
qed

lemma demo_scan_encode:
  "encode_json (JArr [JStr (uni ''[REDACTED] [REDACTED]'')]) = Inr (map of_nat demo_text_out)"
proof -
  have "dumps False (JArr [JStr (uni ''[REDACTED] [REDACTED]'')]) = demo_text_out"
    by (simp add: dump_string_def escape_char_def uni_def demo_text_out_def)
  moreover have "is_ascii demo_text_out" by (simp add: is_ascii_def uni_def demo_text_out_def)
  ultimately show ?thesis by (simp add: encode_json_Inr encode_ascii)
qed

theorem redaction_refines_witness:
  "engine_json demo_scan_env (map of_nat demo_text_out) = Inr (JArr [JStr (uni ''[REDACTED] [REDACTED]'')]) \<and>
   redacted demo_scan_env (\<lambda>path. Redact_pii = Redact_pii \<and> redactable None path) []
     (JArr [JStr (uni ''@ 123'')]) (JArr [JStr (uni ''[REDACTED] [REDACTED]'')])"
proof -
  obtain t' where run: "redact_json demo_scan_env None Redact_pii False (JArr [JStr (uni ''@ 123'')]) demo_engine =
     (Inr (JArr [JStr (uni ''[REDACTED] [REDACTED]'')]), t')"
    using demo_scan_redact by blast
  have "uses_analyzer demo_scan_env" by (auto simp: uses_analyzer_def demo_scan_env_def)
  moreover have "float_repr_ok (crypto_json (ee_crypto demo_scan_env))"
    by (simp add: float_repr_ok_def demo_scan_env_def demo_crypto_def demo_json_def uni_def)
  ultimately show ?thesis
    using redaction_refines [OF _ _ demo_scan_read run demo_scan_encode] by blast
qed

end
