(* ===== verification/Credential_Properties.thy ===== *)
theory Credential_Properties
  imports Gateway_Auth Deployment_Facts Py_Eval
begin

text \<open>
  What credentials promise: those issued to local agents, those of the provider SDKs that the
  gateway takes off a request, and those generated for a provider.
\<close>

subsection \<open>Credentials of local agents\<close>

definition demo_local_agent :: agent_record where
  "demo_local_agent = \<lparr>ag_agent_id = uni ''a1'', ag_tenant_id = Some (uni ''t1''), ag_owner_id = uni ''o'',
     ag_sponsor_id = None, ag_runtime = [], ag_model = None, ag_allow_autonomous = True, ag_allowed_actions = [],
     ag_allowed_tools = [], ag_allowed_resources = [], ag_risk_tier = Risk_low, ag_enabled = True, ag_metadata = [],
     ag_created_at = Aware 0\<rparr>"

definition demo_memory_broker :: broker_env where
  "demo_memory_broker = \<lparr>file_store = False, token_ttl_seconds = 60, approval_ttl_seconds = 60, clock = (\<lambda>_. 0),
     uuid_hex = (\<lambda>_. []), token_bytes = (\<lambda>_. []), write_outcome_of = (\<lambda>_. Write_ok)\<rparr>"

definition demo_issuer :: credential_env where
  "demo_issuer = \<lparr>ce_broker = Some demo_memory_broker, ce_tenant = uni ''t1'', ce_sha256 = map unat, ce_db_ok = True\<rparr>"

definition demo_issuer_state :: credential_state where
  "demo_issuer_state = \<lparr>cs_rows = [], cs_broker = \<lparr>mem = \<lparr>agents = [(uni ''a1'', demo_local_agent)],
     delegations = [], approvals = [], audit_events = []\<rparr>, disk = Missing, depth = 0, dirty = False,
     clock_reads = 0, uuids_used = 0, tokens_used = 0, writes = 0\<rparr>\<rparr>"

definition demo_tail :: pystr where
  "demo_tail = replicate 43 65"

definition demo_row :: credential_row where
  "demo_row = \<lparr>cr_id = uni ''key_'' @ uni ''1'', cr_tenant = uni ''t1'', cr_agent = uni ''a1'',
     cr_digest = token_prefix @ demo_tail, cr_created = 100, cr_expires = 160, cr_revoked = False\<rparr>"

lemma demo_agent_of: "agent_of demo_issuer (uni ''a1'') (demo_issuer_state\<lparr>cs_rows := rows\<rparr>) =
    (Inr (Some demo_local_agent), demo_issuer_state\<lparr>cs_rows := rows\<rparr>)"
  by (simp add: agent_of_def demo_issuer_def demo_memory_broker_def seq_app broker_lookup_def read_transaction_def
      get_agent_def demo_issuer_state_def demo_local_agent_def)

lemma demo_token: "is_ascii (token_prefix @ demo_tail)"
  by (simp add: is_ascii_def token_prefix_def demo_tail_def uni_def list_all_iff)

lemma demo_digest_value: "token_digest demo_issuer (token_prefix @ demo_tail) = Inr (token_prefix @ demo_tail)"
  using ascii_codes [OF demo_token] encode_ascii [OF demo_token] by (simp add: token_digest_def demo_issuer_def)

lemma demo_tenant_text: "utf8_encode (uni ''t1'') \<noteq> None" "utf8_encode (uni ''a1'') \<noteq> None" "utf8_encode (uni ''key_1'') \<noteq> None"
  by (simp_all add: encode_ascii is_ascii_def uni_def)

lemma demo_issue: "issue demo_issuer 100 demo_tail (uni ''1'') (uni ''a1'') (JInt 60) None demo_issuer_state =
    (Inr \<lparr>ix_credential_id = uni ''key_'' @ uni ''1'', ix_agent_id = uni ''a1'', ix_credential = token_prefix @ demo_tail,
       ix_expires_at = 160\<rparr>, demo_issuer_state\<lparr>cs_rows := [demo_row]\<rparr>)"
proof -
  have "demo_issuer_state\<lparr>cs_rows := []\<rparr> = demo_issuer_state" by (simp add: demo_issuer_state_def)
  then have found: "agent_of demo_issuer (uni ''a1'') demo_issuer_state = (Inr (Some demo_local_agent), demo_issuer_state)"
    using demo_agent_of [of "[]"] by simp
  have f: "ce_tenant demo_issuer = uni ''t1''" "ce_db_ok demo_issuer" "cs_rows demo_issuer_state = []"
    by (simp_all add: demo_issuer_def demo_issuer_state_def)
  show ?thesis
    using demo_tenant_text
    by (simp add: issue_def seq_app found f lifetime_def with_db_def rotate_def demo_digest_value insert_row_def
        set_rows_def demo_row_def)
qed

text \<open>C29: after a credential was issued and any processes sharing the file issued, revoked and authenticated
  credentials and changed the broker in any order, its row is still in the table, with the agent, tenant and expiry it was
  issued for, and it authenticates exactly while that row is not revoked, its expiry has not come and its agent is found enabled in the tenant;
  it then stands for that agent and tenant, in the mode of an agent.  The row is revoked only if one of these operations named the
  credential in a revocation or a rotation.\<close>

theorem issued_credential_works:
  assumes "issue env now tail uid agent ttl rotate_id s = (Inr c, s')" and "length tail = 43"
    and "ce_db_ok env" and "utf8_encode (ce_tenant env) \<noteq> None" and "credential_run s' t"
  shows "\<exists>row \<in> set (cs_rows t). cr_id row = ix_credential_id c \<and> cr_tenant row = ce_tenant env \<and> cr_agent row = agent \<and>
    cr_expires row = ix_expires_at c \<and>
    ((sparing_step (ix_credential_id c))\<^sup>*\<^sup>* s' t \<longrightarrow> \<not> cr_revoked row) \<and>
    (\<forall>now' ident t'. authenticate_token env now' (ix_credential c) t = (Inr (Some ident), t') \<longleftrightarrow>
       \<not> cr_revoked row \<and> now' < ix_expires_at c \<and> (\<exists>a. agent_of env agent t = (Inr (Some a), t')) \<and>
       ident = [(uni ''tenant_id'', ce_tenant env), (uni ''agent_id'', agent), (uni ''authorization_mode'', uni ''agent'')])"
proof -
  obtain digest where d: "token_digest env (ix_credential c) = Inr digest" "ix_credential c = token_prefix @ tail"
      "ix_agent_id c = agent" and start: "digest_rows digest (cs_rows s') = [issued_row env now digest c]"
    using issue_adds_row [OF assms(1)] by blast
  let ?q = "issued_row env now digest c"
  obtain row where row: "digest_rows digest (cs_rows t) = [row]" "row = ?q \<or> row = ?q\<lparr>cr_revoked := True\<rparr>"
    using run_keeps_row [OF assms(5) start] by auto
  have "set (digest_rows digest (cs_rows t)) = {row}" using row(1) by simp
  then have member: "row \<in> set (cs_rows t)" by (auto simp: digest_rows_def)
  have fields: "cr_id row = ix_credential_id c" "cr_tenant row = ce_tenant env" "cr_agent row = agent"
      "cr_expires row = ix_expires_at c"
    using row(2) d(3) by (auto simp: issued_row_def)
  have spared: "\<not> cr_revoked row" if "(sparing_step (ix_credential_id c))\<^sup>*\<^sup>* s' t"
    using sparing_run_keeps [of ?q s' t digest] that start row(1) by (simp add: issued_row_def)
  have "startswith (ix_credential c) token_prefix" "length (ix_credential c) = 52"
    using d(2) assms(2) by (simp_all add: token_prefix_def uni_def)
  note iff = authenticate_row [OF d(1) row(1) fields(2) this assms(3,4), unfolded fields agent_identity_def]
  show ?thesis by (rule bexI [OF _ member]) (simp add: fields spared iff)
qed

text \<open>A second credential of the agent does not disturb the first.\<close>

definition demo_tail_2 :: pystr where
  "demo_tail_2 = replicate 43 66"

definition demo_row_2 :: credential_row where
  "demo_row_2 = \<lparr>cr_id = uni ''key_'' @ uni ''2'', cr_tenant = uni ''t1'', cr_agent = uni ''a1'',
     cr_digest = token_prefix @ demo_tail_2, cr_created = 110, cr_expires = 170, cr_revoked = False\<rparr>"

lemma demo_issue_2: "issue demo_issuer 110 demo_tail_2 (uni ''2'') (uni ''a1'') (JInt 60) None
      (demo_issuer_state\<lparr>cs_rows := [demo_row]\<rparr>) =
    (Inr \<lparr>ix_credential_id = uni ''key_'' @ uni ''2'', ix_agent_id = uni ''a1'', ix_credential = token_prefix @ demo_tail_2,
       ix_expires_at = 170\<rparr>, demo_issuer_state\<lparr>cs_rows := [demo_row, demo_row_2]\<rparr>)"
proof -
  have ascii: "is_ascii (token_prefix @ demo_tail_2)"
    by (simp add: is_ascii_def token_prefix_def demo_tail_2_def uni_def list_all_iff)
  have digest: "token_digest demo_issuer (token_prefix @ demo_tail_2) = Inr (token_prefix @ demo_tail_2)"
    using ascii_codes [OF ascii] encode_ascii [OF ascii] by (simp add: token_digest_def demo_issuer_def)
  have f: "ce_tenant demo_issuer = uni ''t1''" "ce_db_ok demo_issuer" by (simp_all add: demo_issuer_def)
  have fresh: "cr_id demo_row \<noteq> uni ''key_'' @ uni ''2''" "cr_digest demo_row \<noteq> token_prefix @ demo_tail_2"
    by (simp_all add: demo_row_def demo_tail_def demo_tail_2_def uni_def)
  show ?thesis
    using demo_tenant_text fresh
    by (simp add: issue_def seq_app demo_agent_of f lifetime_def with_db_def rotate_def digest insert_row_def
        set_rows_def demo_row_2_def)
qed

theorem issued_credential_works_witness:
  "authenticate_token demo_issuer 159 (token_prefix @ demo_tail) (demo_issuer_state\<lparr>cs_rows := [demo_row, demo_row_2]\<rparr>) =
     (Inr (Some [(uni ''tenant_id'', uni ''t1''), (uni ''agent_id'', uni ''a1''), (uni ''authorization_mode'', uni ''agent'')]),
      demo_issuer_state\<lparr>cs_rows := [demo_row, demo_row_2]\<rparr>)"
proof -
  let ?s = "demo_issuer_state\<lparr>cs_rows := [demo_row]\<rparr>" and ?t = "demo_issuer_state\<lparr>cs_rows := [demo_row, demo_row_2]\<rparr>"
  have f: "ce_tenant demo_issuer = uni ''t1''" "ce_db_ok demo_issuer" by (simp_all add: demo_issuer_def)
  have "sparing_step (uni ''key_'' @ uni ''1'') ?s ?t" using demo_issue_2 by (rule spare_issue) simp
  then have spared: "(sparing_step (uni ''key_'' @ uni ''1''))\<^sup>*\<^sup>* ?s ?t" by blast
  have "length demo_tail = 43" by (simp add: demo_tail_def)
  then show ?thesis
    using issued_credential_works [OF demo_issue _ _ _ sparing_is_run [OF spared]] spared demo_tenant_text demo_agent_of
    by (auto simp: f)
qed

text \<open>C30: a revoked credential authenticates nobody, ever: not after any sequence of issues, rotations,
  revocations, authentications and changes of the broker by any process sharing the file.\<close>

theorem revoked_never_authenticates:
  assumes "rows_ok (cs_rows s)" and "revoke env agent i s = (Inr u, s1)"
    and "r \<in> set (cs_rows s1)" and "owned env agent i r" and "token_digest env token = Inr (cr_digest r)"
    and "credential_run s1 s2"
  shows "fst (authenticate_token env now token s2) \<noteq> Inr (Some ident)"
proof -
  have "credential_step s s1" using assms(2) by (rule step_revoke)
  then have "rows_ok (cs_rows s1)" using assms(1) step_grows grown_ok by blast
  moreover have "cr_revoked r" using revoke_revokes assms(2,3,4) by blast
  ultimately show ?thesis
    using revoked_is_final [OF _ assms(3) _ assms(5,6)] by (metis prod.collapse)
qed

theorem revoked_never_authenticates_witness:
  "fst (authenticate_token demo_issuer 150 (token_prefix @ demo_tail)
     (demo_issuer_state\<lparr>cs_rows := [demo_row\<lparr>cr_revoked := True\<rparr>]\<rparr>)) \<noteq> Inr (Some [])"
proof -
  have o': "owned demo_issuer (uni ''a1'') (uni ''key_1'') demo_row"
      "owned demo_issuer (uni ''a1'') (uni ''key_1'') (demo_row\<lparr>cr_revoked := True\<rparr>)"
    by (simp_all add: owned_def demo_row_def demo_issuer_def uni_def)
  have f: "ce_tenant demo_issuer = uni ''t1''" "ce_db_ok demo_issuer" by (simp_all add: demo_issuer_def)
  have run: "revoke demo_issuer (uni ''a1'') (uni ''key_1'') (demo_issuer_state\<lparr>cs_rows := [demo_row]\<rparr>) =
      (Inr (), demo_issuer_state\<lparr>cs_rows := [demo_row\<lparr>cr_revoked := True\<rparr>]\<rparr>)"
    using demo_tenant_text by (simp add: revoke_def seq_app with_db_def f o' set_rows_def)
  have "token_digest demo_issuer (token_prefix @ demo_tail) = Inr (cr_digest (demo_row\<lparr>cr_revoked := True\<rparr>))"
    by (simp add: demo_digest_value demo_row_def)
  then show ?thesis
    by (intro revoked_never_authenticates [OF _ run _ o'(2)]) (simp_all add: rows_ok_def)
qed


subsection \<open>Credentials of provider SDKs\<close>

text \<open>The headers that may carry a credential, and those in which an SDK of the provider sends it.\<close>

definition carries_credential :: "pystr \<Rightarrow> bool" where
  "carries_credential k \<longleftrightarrow> k \<in> {uni ''authorization'', uni ''x-api-key'', uni ''x-goog-api-key'', uni ''x-td-client-key''}"

definition sdk_slot :: "llm_provider \<Rightarrow> pystr \<Rightarrow> bool" where
  "sdk_slot p k \<longleftrightarrow> k = uni ''authorization'' \<or> k = uni ''x-td-client-key'' \<or>
     p = Anthropic \<and> k = uni ''x-api-key'' \<or> p = Google \<and> k = uni ''x-goog-api-key''"

lemma carries_credential_SDK: "carries_credential k \<longleftrightarrow> k \<in> set SDK_HEADERS"
  by (auto simp: carries_credential_def SDK_HEADERS_def)

lemma sdk_values_member: "(k, v) \<in> set (sdk_values hs) \<longleftrightarrow> k \<in> set SDK_HEADERS \<and> map_of hs k = Some v \<and> v \<noteq> []"
  unfolding sdk_values_def by (force split: option.splits if_splits)

lemma bearer_alone: "length (py_words (uni ''Bearer '')) = 1"
  by (simp add: uni_def is_space_def)

lemma gateway_credential_shape:
  assumes "gateway_credential name v = Inr c" and "v \<noteq> []"
  shows "c \<noteq> [] \<and> v = (if name = uni ''authorization'' then uni ''Bearer '' @ c else c)"
proof (cases "name = uni ''authorization''")
  case True
  then have v: "startswith v (uni ''Bearer '')" "length (py_words v) = 2" "c = drop 7 v"
    using assms(1) by (auto simp: gateway_credential_def split: if_splits)
  have shape: "v = uni ''Bearer '' @ c"
    using v(1) unfolding v(3) startswith_iff by (auto simp: uni_def)
  then have "c \<noteq> []" using v(2) bearer_alone by (cases "c = []") simp_all
  then show ?thesis using True shape by simp
qed (use assms in \<open>simp add: gateway_credential_def\<close>)

text \<open>C31: on a deployment for a model API the caller's credential goes to admission and nowhere else.  A request is
  taken only if exactly one of the headers that may carry a credential is filled, and it is one in which an SDK of this provider sends
  it.  Its credential, without the word Bearer, is what admission is given, in the slot of the mode of the gateway and in no
  other; no header that may carry a credential is among those forwarded; all others are passed to both unchanged.\<close>

theorem caller_credentials_stripped:
  assumes "gateway_headers hs p mode = Inr (outbound, auth)"
  shows "\<exists>name v c. carries_credential name \<and> sdk_slot (pp_provider p) name \<and> map_of hs name = Some v \<and> c \<noteq> [] \<and>
    v = (if name = uni ''authorization'' then uni ''Bearer '' @ c else c) \<and>
    (\<forall>k. carries_credential k \<and> k \<noteq> name \<longrightarrow> map_of hs k = None \<or> map_of hs k = Some []) \<and>
    (\<forall>k. map_of outbound k = (if carries_credential k then None else map_of hs k)) \<and>
    (\<forall>k. map_of auth k =
       (if k = uni ''x-td-client-key'' \<and> mode = Mode_client_key then Some c
        else if k = uni ''authorization'' \<and> mode \<noteq> Mode_client_key then Some (uni ''Bearer '' @ c)
        else map_of outbound k))"
proof -
  obtain name v c where out: "outbound = without_sdk hs" and one: "sdk_values hs = [(name, v)]"
    and slot: "name \<in> set (credential_slots (pp_provider p))" and cred: "gateway_credential name v = Inr c"
    and auth: "auth = dset (fst (admission_slot mode c)) (snd (admission_slot mode c)) outbound"
    using gateway_headers_Inr [OF assms] by blast
  have name: "name \<in> set SDK_HEADERS" "map_of hs name = Some v" "v \<noteq> []"
    using sdk_values_member [of name v hs] one by auto
  have alone: "map_of hs k = None \<or> map_of hs k = Some []" if "carries_credential k \<and> k \<noteq> name" for k
    using sdk_values_member [of k "the (map_of hs k)" hs] one that
    by (cases "map_of hs k") (auto simp: carries_credential_SDK)
  have sdk: "sdk_slot (pp_provider p) name"
    using slot by (auto simp: credential_slots_def sdk_slot_def split: if_splits)
  have stripped: "map_of outbound k = (if carries_credential k then None else map_of hs k)" for k
    by (simp add: out carries_credential_SDK without_sdk_free without_sdk_same)
  have given: "map_of auth k =
       (if k = uni ''x-td-client-key'' \<and> mode = Mode_client_key then Some c
        else if k = uni ''authorization'' \<and> mode \<noteq> Mode_client_key then Some (uni ''Bearer '' @ c)
        else map_of outbound k)" for k
    by (cases "mode = Mode_client_key")
      (simp_all only: auth admission_slot_def if_True if_False fst_conv snd_conv map_of_dset simp_thms)
  have "carries_credential name" using name(1) by (simp only: carries_credential_SDK)
  note shape = gateway_credential_shape [OF cred name(3)]
  show ?thesis
    by (rule exI [of _ name], rule exI [of _ v], rule exI [of _ c], intro conjI allI impI)
      (fact \<open>carries_credential name\<close> sdk name(2) shape [THEN conjunct1] shape [THEN conjunct2] alone stripped given)+
qed

definition demo_profile :: provider_profile where
  "demo_profile = \<lparr>pp_provider = Anthropic, pp_models = [uni ''m1''], pp_timeout_seconds = 60\<rparr>"

theorem caller_credentials_stripped_witness:
  "\<exists>outbound auth. gateway_headers [(uni ''x-api-key'', uni ''s3''), (uni ''accept'', uni ''a'')] demo_profile Mode_client_key =
     Inr (outbound, auth) \<and> map_of outbound (uni ''x-api-key'') = None \<and> map_of auth (uni ''accept'') = Some (uni ''a'') \<and>
     map_of auth (uni ''x-td-client-key'') = Some (uni ''s3'')"
proof -
  obtain outbound auth where run: "gateway_headers [(uni ''x-api-key'', uni ''s3''), (uni ''accept'', uni ''a'')] demo_profile
      Mode_client_key = Inr (outbound, auth)"
    by (simp add: gateway_headers_def sdk_values_def SDK_HEADERS_def demo_profile_def credential_slots_def
        gateway_credential_def)
  have c: "carries_credential (uni ''x-api-key'')" "\<not> carries_credential (uni ''accept'')"
      "uni ''accept'' \<noteq> uni ''x-td-client-key''" "uni ''accept'' \<noteq> uni ''authorization''"
      "uni ''x-api-key'' \<noteq> uni ''authorization''"
    by (simp_all add: carries_credential_def)
  obtain name v d where n: "carries_credential name" "map_of [(uni ''x-api-key'', uni ''s3''), (uni ''accept'', uni ''a'')] name = Some v"
      "v = (if name = uni ''authorization'' then uni ''Bearer '' @ d else d)"
      "map_of outbound (uni ''x-api-key'') = None" "map_of auth (uni ''x-td-client-key'') = Some d"
      "map_of auth (uni ''accept'') = Some (uni ''a'')"
    using caller_credentials_stripped [OF run] c by auto
  then have "name = uni ''x-api-key''" using c by (auto split: if_splits)
  then show ?thesis using n run c by auto
qed

text \<open>Every provider profile that passes its own checks yields a deployment the gateway accepts: its
  generated routes are mapped without ambiguity on supported paths with a resource each, and its
  target credential is valid.\<close>

theorem provider_profile_deploys:
  assumes "validate_models p = Inr ()"
  shows "check_routes (provider_authority (pp_provider p)) [] (provider_routes p) = Inr () \<and>
    validate_target (provider_target p) = Inr (provider_target p) \<and>
    distinct (map (\<lambda>r. (rr_method r, rr_path r)) (provider_routes p))"
proof -
  have "distinct (map route_key (provider_routes p))"
    using provider_routes_contract [OF assms] by (simp add: check_routes_Inr)
  then show ?thesis
    using provider_routes_contract [OF assms] provider_target_valid by (simp add: route_key_def [abs_def])
qed

theorem provider_profile_deploys_witness:
  "check_routes (provider_authority Google) []
     (provider_routes \<lparr>pp_provider = Google, pp_models = [uni ''gemini-2'', uni ''gemini-3''], pp_timeout_seconds = 60\<rparr>) = Inr ()"
proof -
  have "validate_models \<lparr>pp_provider = Google, pp_models = [uni ''gemini-2'', uni ''gemini-3''], pp_timeout_seconds = 60\<rparr> = Inr ()"
    by (simp add: validate_models_def model_name_ok_def class_match_def model_char_def is_alnum_def is_alpha_def
        is_digit_def any_of_def uni_def)
  from provider_profile_deploys [OF this] show ?thesis by simp
qed

end
