(* ===== verification/Spool.thy ===== *)
theory Spool
  imports Identity
begin

text \<open>
  \<open>selfhost/spool.py\<close>: the evidence spool.  One writing process owns one directory: it appends a
  line per event to the active file and seals the file under a time stamp when it would grow past
  its limit.  The reader follows each writer with a position, the inode of a file and an offset.

  A directory is the list of its entries.  What the operating system answers is a parameter of
  every operation (\<open>spool_os\<close>): which calls raise \<open>OSError\<close>, how many bytes \<open>os.write\<close> writes, the
  clock and the inode of a created file.  Sealed files have the names the writer gives them.
  The text that \<open>json.loads\<close> finds in the bytes of a line is \<open>json_text\<close>, as in \<open>Identity\<close>.

  \<open>read_pending\<close> lists a directory first and opens the files by name afterwards, so it takes the
  directories twice: as they are listed and as they are when the files are opened.
\<close>

subsection \<open>Files\<close>

datatype file_name = Active | Sealed nat

record spool_file =
  sf_name :: file_name
  sf_inode :: nat
  sf_data :: bytes

type_synonym spool_dir = "spool_file list"

record spool_os =
  os_stamp :: nat
  os_inode :: nat
  os_stat_ok :: bool
  os_replace_ok :: bool
  os_open_ok :: bool
  os_written :: "nat option"
  os_fsync_ok :: bool

record spool =
  sp_files :: spool_dir
  sp_max :: nat
  sp_healthy :: bool
  sp_failures :: nat

definition MAX_READ_BYTES :: nat where
  "MAX_READ_BYTES = 4 * 1024 * 1024"

definition MAX_ACTIVE_BYTES :: nat where
  "MAX_ACTIVE_BYTES = 64 * 1024 * 1024"

definition file_active :: "spool_file \<Rightarrow> bool" where
  "file_active f \<longleftrightarrow> sf_name f = Active"

definition active_file :: "spool_dir \<Rightarrow> spool_file option" where
  "active_file fs = find file_active fs"

text \<open>\<open>os.replace\<close>: a file that has the new name is gone.\<close>

definition seal_active :: "nat \<Rightarrow> spool_dir \<Rightarrow> spool_dir" where
  "seal_active stamp fs =
     map (\<lambda>f. if file_active f then f\<lparr>sf_name := Sealed stamp\<rparr> else f)
       (filter (\<lambda>f. sf_name f \<noteq> Sealed stamp) fs)"

text \<open>\<open>os.open\<close> with \<open>O_CREAT\<close>, and \<open>os.write\<close> at the end of the file.\<close>

definition ensure_active :: "nat \<Rightarrow> spool_dir \<Rightarrow> spool_dir" where
  "ensure_active inode fs =
     (if active_file fs = None then fs @ [\<lparr>sf_name = Active, sf_inode = inode, sf_data = []\<rparr>] else fs)"

definition write_active :: "bytes \<Rightarrow> spool_dir \<Rightarrow> spool_dir" where
  "write_active bs fs = map (\<lambda>f. if file_active f then f\<lparr>sf_data := sf_data f @ bs\<rparr> else f) fs"

subsection \<open>Appending\<close>

text \<open>\<open>json.dumps(event, separators=(",", ":"), ensure_ascii=False).encode()\<close> and the line feed.\<close>

definition event_line :: "json \<Rightarrow> bytes option" where
  "event_line v = map_option (\<lambda>bs. bs @ [10]) (utf8_encode (dumps False v))"

definition must_rotate :: "nat \<Rightarrow> bytes \<Rightarrow> spool_dir \<Rightarrow> bool" where
  "must_rotate mx line fs =
     (case active_file fs of None \<Rightarrow> False | Some f \<Rightarrow> mx < length (sf_data f) + length line)"

text \<open>The body of \<open>append\<close>: whether it went without \<open>OSError\<close>, and the directory after it.\<close>

definition write_line :: "spool_os \<Rightarrow> nat \<Rightarrow> bytes \<Rightarrow> spool_dir \<Rightarrow> bool \<times> spool_dir" where
  "write_line os mx line fs =
     (let rotate = must_rotate mx line fs;
          sealed = (if rotate then seal_active (os_stamp os) fs else fs);
          opened = ensure_active (os_inode os) sealed in
      if \<not> os_stat_ok os then (False, fs)
      else if rotate \<and> \<not> os_replace_ok os then (False, fs)
      else if \<not> os_open_ok os then (False, sealed)
      else (case os_written os of
              None \<Rightarrow> (False, opened)
            | Some n \<Rightarrow>
                if n < length line then (False, write_active (take n line) opened)
                else (os_fsync_ok os, write_active line opened)))"

definition append_event :: "spool_os \<Rightarrow> json \<Rightarrow> (spool, unit) act" where
  "append_event os v sp =
     (case event_line v of
        None \<Rightarrow> (Inl Unicode_error, sp)
      | Some line \<Rightarrow>
          (case write_line os (sp_max sp) line (sp_files sp) of
             (True, fs) \<Rightarrow> (Inr (), sp\<lparr>sp_files := fs, sp_healthy := True\<rparr>)
           | (False, fs) \<Rightarrow>
               (Inl Os_error, sp\<lparr>sp_files := fs, sp_healthy := False, sp_failures := sp_failures sp + 1\<rparr>)))"

text \<open>\<open>probe\<close> writes and removes a file that is no evidence file; \<open>works\<close>: no call raised.\<close>

definition probe :: "bool \<Rightarrow> (spool, bool) act" where
  "probe works sp = (Inr works, sp\<lparr>sp_healthy := works\<rparr>)"

definition new_spool :: "spool_dir \<Rightarrow> nat \<Rightarrow> spool" where
  "new_spool fs mx = \<lparr>sp_files = fs, sp_max = mx, sp_healthy = True, sp_failures = 0\<rparr>"

subsection \<open>Reading\<close>

fun seal_stamp :: "spool_file \<Rightarrow> nat" where
  "seal_stamp f = (case sf_name f of Sealed t \<Rightarrow> t | Active \<Rightarrow> 0)"

text \<open>\<open>_files\<close>: the sealed files by stamp, then the active one.\<close>

definition spool_files :: "spool_dir \<Rightarrow> spool_file list" where
  "spool_files fs = sort_key seal_stamp (filter (\<lambda>f. \<not> file_active f) fs) @ filter file_active fs"

text \<open>One past the last line feed, 0 when there is none.\<close>

definition line_end :: "bytes \<Rightarrow> nat" where
  "line_end data = length (dropWhile (\<lambda>b. b \<noteq> 10) (rev data))"

text \<open>\<open>bytes.splitlines\<close>: line feeds, carriage returns, and the pair as one.\<close>

fun skip_lf :: "bytes \<Rightarrow> bytes" where
  "skip_lf [] = []"
| "skip_lf (b # r) = (if b = 10 then r else b # r)"

lemma skip_lf_le: "length (skip_lf r) \<le> length r"
  by (cases r) auto

function byte_lines :: "bytes \<Rightarrow> bytes list" where
  "byte_lines [] = []"
| "byte_lines (b # r) =
     (if b = 10 then [] # byte_lines r
      else if b = 13 then [] # byte_lines (skip_lf r)
      else case byte_lines r of [] \<Rightarrow> [[b]] | l # ls \<Rightarrow> (b # l) # ls)"
  by pat_completeness auto
termination
  by (relation "measure length") (auto simp: less_Suc_eq_le skip_lf_le)

text \<open>\<open>json.loads(raw)\<close>: a \<open>ValueError\<close> skips the line, a value that is no object is dropped.\<close>

definition line_value :: "crypto \<Rightarrow> bytes \<Rightarrow> json option result" where
  "line_value cr raw =
     (case json_text cr raw of
        None \<Rightarrow> Inr None
      | Some s \<Rightarrow>
          (case json_loads (crypto_json cr) False s of
             Inl Recursion_error \<Rightarrow> Inl Recursion_error
           | Inl e \<Rightarrow> Inr None
           | Inr v \<Rightarrow> Inr (if is_obj v then Some v else None)))"

fun line_values :: "crypto \<Rightarrow> bytes list \<Rightarrow> json list result" where
  "line_values cr [] = Inr []"
| "line_values cr (raw # ls) =
     rbind (line_value cr raw) (\<lambda>v. rbind (line_values cr ls) (\<lambda>vs.
       Inr (case v of None \<Rightarrow> vs | Some x \<Rightarrow> x # vs)))"

type_synonym position = "nat \<times> nat"  \<comment> \<open>inode, offset\<close>

text \<open>
  The loop over the files of one writer: the events, the position, the files that are drained and
  what is left of the budget.  \<open>cur\<close> is the directory in which the names are opened.
\<close>

fun read_files ::
  "crypto \<Rightarrow> spool_dir \<Rightarrow> spool_file list \<Rightarrow> nat \<Rightarrow> nat \<Rightarrow>
   (json list \<times> position option \<times> file_name list \<times> nat) result" where
  "read_files cr cur [] off budget = Inr ([], None, [], budget)"
| "read_files cr cur (f # fs) off budget =
     (case find (\<lambda>g. sf_name g = sf_name f) cur of
        None \<Rightarrow> Inl Os_error
      | Some g \<Rightarrow>
          let data = take budget (drop off (sf_data g));
              len = line_end data in
          rbind (line_values cr (byte_lines (take len data))) (\<lambda>evs.
            if \<not> file_active f \<and> length (sf_data g) \<le> off + len \<and> fs \<noteq> [] then
              rbind (read_files cr cur fs 0 (budget - len)) (\<lambda>(evs', pos, drained, left).
                Inr (evs @ evs', pos, sf_name f # drained, left))
            else Inr (evs, Some (sf_inode f, off + len), [], budget - len)))"

text \<open>Where the files of a writer are taken up: the files before the cursor were committed earlier.\<close>

fun index_of :: "'a \<Rightarrow> 'a list \<Rightarrow> nat" where
  "index_of x [] = 0"
| "index_of x (y # ys) = (if x = y then 0 else Suc (index_of x ys))"

definition resume :: "position option \<Rightarrow> spool_file list \<Rightarrow> nat \<times> nat" where
  "resume pos fs =
     (case pos of
        None \<Rightarrow> (0, 0)
      | Some (inode, off) \<Rightarrow>
          if inode \<in> sf_inode ` set fs then (index_of inode (map sf_inode fs), off) else (0, 0))"

definition read_writer ::
  "crypto \<Rightarrow> spool_dir \<Rightarrow> spool_dir \<Rightarrow> position option \<Rightarrow> nat \<Rightarrow>
   (json list \<times> position option \<times> file_name list \<times> nat) result" where
  "read_writer cr listing cur pos budget =
     (let fs = spool_files listing in
      case resume pos fs of (start, off) \<Rightarrow>
        rbind (read_files cr cur (drop start fs) off budget) (\<lambda>(evs, pos', drained, left).
          Inr (evs, pos', map sf_name (take start fs) @ drained, left)))"

type_synonym spool_dirs = "(pystr, spool_dir) dict"
type_synonym cursor = "(pystr, position) dict"

fun read_writers ::
  "crypto \<Rightarrow> spool_dirs \<Rightarrow> spool_dirs \<Rightarrow> cursor \<Rightarrow> nat \<Rightarrow>
   (json list \<times> cursor \<times> (pystr \<times> file_name) list) result" where
  "read_writers cr opened [] cursor budget = Inr ([], cursor, [])"
| "read_writers cr opened ((w, listing) # ws) cursor budget =
     rbind (read_writer cr listing (get_or opened w []) (map_of cursor w) budget)
       (\<lambda>(evs, pos, drained, left).
          let cursor' = (case pos of None \<Rightarrow> cursor | Some p \<Rightarrow> dset w p cursor);
              gone = map (Pair w) drained in
          if left = 0 then Inr (evs, cursor', gone)
          else rbind (read_writers cr opened ws cursor' left) (\<lambda>(evs', cursor'', gone').
            Inr (evs @ evs', cursor'', gone @ gone')))"

text \<open>\<open>read_pending\<close>, the writers in the order of their names.  No directory: an empty listing.\<close>

definition read_pending ::
  "crypto \<Rightarrow> spool_dirs \<Rightarrow> spool_dirs \<Rightarrow> cursor \<Rightarrow> nat \<Rightarrow>
   (json list \<times> cursor \<times> (pystr \<times> file_name) list) result" where
  "read_pending cr listing opened cursor limit =
     read_writers cr opened (sort_pairs listing) cursor limit"

end
