(* ===== verification/Spool_Facts.thy ===== *)
theory Spool_Facts
  imports Spool Sorted_Keys
begin

text \<open>
  The spool's lines: what \<open>append\<close> writes for an event is one line (\<open>event_line_shape\<close>), reading a
  prefix of a file made of whole lines gives back exactly the events whose lines fit
  (\<open>read_files_takes\<close>), and the position it leaves is again between two lines.
\<close>

subsection \<open>Printed values have no control characters\<close>

definition printing :: "pystr \<Rightarrow> bool" where
  "printing s \<longleftrightarrow> list_all (\<lambda>c. 32 \<le> c) s"

lemma printing_simps [simp]:
  "printing []" "printing (c # s) \<longleftrightarrow> 32 \<le> c \<and> printing s" "printing (s @ t) \<longleftrightarrow> printing s \<and> printing t"
  by (auto simp: printing_def)

lemma printing_join: "\<forall>w \<in> set ws. printing w \<Longrightarrow> printing (join_with [44] ws)"
proof (induction ws)
  case (Cons w ws)
  then have "printing w" "printing (join_with [44] ws)" by simp_all
  then show ?case by (cases "ws = []") (simp_all add: join_with_Cons)
qed simp

lemma hex_digit_printing: "32 \<le> hex_digit v"
  by (simp add: hex_digit_def)

lemma u_escape_printing: "printing (u_escape c)"
  by (simp only: u_escape_def printing_simps hex_digit_printing) simp

lemma printing_escape: "printing (escape_char a c)"
  by (simp add: escape_char_def u_escape_printing)

lemma printing_string: "printing (dump_string a s)"
proof -
  have "printing (concat (map (escape_char a) s))"
    by (induction s) (simp_all add: printing_escape)
  then show ?thesis by (simp add: dump_string_def)
qed

lemma printing_digits: "list_all is_digit s \<Longrightarrow> printing s"
  by (auto simp: printing_def list_all_iff is_digit_def)

lemma printing_takeWhile [simp]: "printing (takeWhile is_digit s)"
  by (rule printing_digits) (auto simp: list_all_iff dest: set_takeWhileD)

lemma printing_number: "scan_number s = Some (t, f, r) \<Longrightarrow> printing t"
proof -
  assume num: "scan_number s = Some (t, f, r)"
  obtain sign s1 where s1: "scan_sign s = (sign, s1)" by fastforce
  with num obtain i s2 where s2: "scan_integer s1 = Some (i, s2)"
    by (cases "scan_integer s1") (auto simp: scan_number_def)
  obtain fr s3 where s3: "scan_fraction s2 = (fr, s3)" by fastforce
  obtain ex s4 where s4: "scan_exponent s3 = (ex, s4)" by fastforce
  have t: "t = sign @ i @ fr @ ex" using num s1 s2 s3 s4 by (simp add: scan_number_def)
  have "printing sign" using s1 by (auto simp: scan_sign_def split: if_splits)
  moreover have "printing i" using s2 by (auto simp: scan_integer_def split: list.splits if_splits)
  moreover have "printing fr" using s3 by (auto simp: scan_fraction_def is_digit_def split: list.splits if_splits)
  moreover have "printing ex" using s4 by (auto simp: scan_exponent_def is_digit_def split: list.splits if_splits)
  ultimately show ?thesis by (simp add: t)
qed

lemma printing_float: "float_ok je r \<Longrightarrow> printing r"
  using printing_number by (auto simp: float_ok_def)

lemma printing_dumps: "printable je d v \<Longrightarrow> printing (dumps a v)"
proof (induction v arbitrary: d)
  case (JInt i)
  have "printing (dec_nat n)" for n by (rule printing_digits [OF dec_nat_all_digits])
  then show ?case by (simp add: dec_int_def)
next
  case (JFloat r)
  then have "printing r" by (auto dest: printing_float)
  then show ?case by (auto simp: dump_float_def uni_def)
next
  case (JArr vs)
  then obtain e where d: "d = Suc e" by (cases d) auto
  have "\<forall>w \<in> set (map (dumps a) vs). printing w" using JArr by (auto simp: d list_all_iff)
  then show ?case by (simp add: printing_join)
next
  case (JObj ps)
  then obtain e where d: "d = Suc e" by (cases d) auto
  have "printing (dumps a v)" if "(k, v) \<in> set ps" for k v
    using JObj.IH [of "(k, v)" v e] JObj.prems that by (auto simp: d list_all_iff)
  then have "\<forall>w \<in> set (map (\<lambda>(k, v). dump_string a k @ 58 # dumps a v) ps). printing w"
    by (auto simp: printing_string)
  then show ?case by (simp add: printing_join)
qed (auto simp: uni_def printing_string)

subsection \<open>The line of an event\<close>

text \<open>
  Assumed of \<open>json.loads\<close> on bytes: UTF-8 that starts with a brace, followed by a character that is
  not NUL, is detected as UTF-8.  An event that can be recorded is an object the scanner reads back.
\<close>

definition reads_utf8 :: "crypto \<Rightarrow> bool" where
  "reads_utf8 cr \<longleftrightarrow> (\<forall>c s b. c \<noteq> 0 \<longrightarrow> utf8_encode (123 # c # s) = Some b \<longrightarrow> json_text cr b = Some (123 # c # s))"

definition recordable :: "crypto \<Rightarrow> json \<Rightarrow> bool" where
  "recordable cr v \<longleftrightarrow> is_obj v \<and> printable (crypto_json cr) (nest_limit (crypto_json cr)) v \<and>
     utf8_encode (dumps False v) \<noteq> None"

definition line_of :: "json \<Rightarrow> bytes" where
  "line_of v = the (event_line v)"

definition is_line :: "bytes \<Rightarrow> bool" where
  "is_line l \<longleftrightarrow> (\<exists>b. l = b @ [10] \<and> 10 \<notin> set b \<and> 13 \<notin> set b)"

lemma utf8_char_no_control: "32 \<le> c \<Longrightarrow> b \<in> set (utf8_char c) \<Longrightarrow> 32 \<le> b"
  by (auto simp: utf8_char_def split: if_splits)

lemma encode_no_control:
  assumes "printing s" and "utf8_encode s = Some bs" and "n < 32"
  shows "of_nat n \<notin> set bs"
proof
  assume "of_nat n \<in> set bs"
  with assms(2) obtain c b where c: "c \<in> set s" "is_scalar c" "b \<in> set (utf8_char c)" "of_nat n = (of_nat b :: 8 word)"
    by (auto simp: utf8_encode_def list_all_iff split: if_splits)
  have "b < 256" "32 \<le> b"
    using utf8_char_byte [OF c(2,3)] utf8_char_no_control [OF _ c(3)] c(1) assms(1)
    by (auto simp: printing_def list_all_iff)
  moreover have "unat (of_nat n :: 8 word) = unat (of_nat b :: 8 word)" using c(4) by simp
  ultimately show False using assms(3) by simp
qed

lemma event_line_shape:
  assumes "recordable cr v"
  shows "\<exists>b. utf8_encode (dumps False v) = Some b \<and> event_line v = Some (b @ [10]) \<and> line_of v = b @ [10] \<and>
    10 \<notin> set b \<and> 13 \<notin> set b"
proof -
  obtain b where b: "utf8_encode (dumps False v) = Some b" using assms by (auto simp: recordable_def)
  have "printing (dumps False v)" using assms by (auto simp: recordable_def intro: printing_dumps)
  then have "of_nat 10 \<notin> set b" "of_nat 13 \<notin> set b" by (rule encode_no_control [OF _ b]; simp)+
  then show ?thesis using b by (auto simp: event_line_def line_of_def)
qed

lemma line_is_line: "recordable cr v \<Longrightarrow> is_line (line_of v)"
  using event_line_shape [of cr v] by (auto simp: is_line_def)

lemma object_start: "\<exists>c s. c \<noteq> 0 \<and> dumps False (JObj ps) = 123 # c # s"
proof (cases ps)
  case (Cons p qs)
  obtain k v where "p = (k, v)" by fastforce
  then show ?thesis by (cases qs) (auto simp: Cons join_with_Cons dump_string_def)
qed simp

lemma line_value_event:
  assumes "reads_utf8 cr" and "recordable cr v" and "utf8_encode (dumps False v) = Some b"
  shows "line_value cr b = Inr (Some v)"
proof -
  from assms(2) obtain ps where v: "v = JObj ps" by (cases v) (auto simp: recordable_def)
  obtain c s where "c \<noteq> 0" "dumps False v = 123 # c # s" using object_start v by blast
  then have "json_text cr b = Some (dumps False v)"
    using assms(1,3) by (simp add: reads_utf8_def)
  moreover have "json_loads (crypto_json cr) False (dumps False v) = Inr v"
    using assms(2) by (intro loads_dumps) (simp add: recordable_def)
  ultimately show ?thesis by (simp add: line_value_def v del: dumps.simps)
qed

subsection \<open>Files made of whole lines\<close>

lemma byte_lines_cons: "10 \<notin> set b \<Longrightarrow> 13 \<notin> set b \<Longrightarrow> byte_lines (b @ 10 # r) = b # byte_lines r"
  by (induction b) auto

lemma line_end_snoc [simp]: "line_end (xs @ [10]) = length xs + 1"
  by (simp add: line_end_def)

lemma line_end_none: "10 \<notin> set xs \<Longrightarrow> line_end xs = 0"
  by (auto simp: line_end_def dropWhile_eq_Nil_conv)

lemma line_end_append: "is_line l \<Longrightarrow> line_end (l @ ys) = length l + line_end ys"
proof -
  assume "is_line l"
  then obtain b where l: "l = b @ [10]" by (auto simp: is_line_def)
  show ?thesis
  proof (cases "10 \<in> set ys")
    case True
    then have "dropWhile (\<lambda>b. b \<noteq> 10) (rev ys) \<noteq> []" by (auto simp: dropWhile_eq_Nil_conv)
    then show ?thesis using True by (simp add: line_end_def dropWhile_append1)
  next
    case False
    then have "dropWhile (\<lambda>b. b \<noteq> 10) (rev ys @ rev l) = rev l"
      by (subst dropWhile_append2) (auto simp: l)
    moreover have "\<forall>x \<in> set ys. x \<noteq> 10" using False by auto
    ultimately show ?thesis by (simp add: line_end_def dropWhile_eq_Nil_conv)
  qed
qed

fun fitting :: "nat \<Rightarrow> bytes list \<Rightarrow> nat" where
  "fitting n [] = 0"
| "fitting n (l # ls) = (if length l \<le> n then Suc (fitting (n - length l) ls) else 0)"

lemma fitting_le: "fitting n ls \<le> length ls"
  by (induction ls arbitrary: n) auto

lemma fitting_bytes: "length (concat (take (fitting n ls) ls)) \<le> n"
  by (induction ls arbitrary: n) (auto, metis add.commute le_diff_conv2)

lemma fitting_all: "length (concat ls) \<le> n \<Longrightarrow> fitting n ls = length ls"
  by (induction ls arbitrary: n) auto

lemma line_end_take:
  assumes "\<forall>l \<in> set ls. is_line l"
  shows "line_end (take n (concat ls)) = length (concat (take (fitting n ls) ls))"
  using assms
proof (induction ls arbitrary: n)
  case (Cons l ls)
  show ?case
  proof (cases "length l \<le> n")
    case True
    then have "take n (concat (l # ls)) = l @ take (n - length l) (concat ls)" by simp
    then show ?thesis using Cons True line_end_append [of l] by simp
  next
    case False
    from Cons.prems obtain b where "l = b @ [10]" "10 \<notin> set b" by (auto simp: is_line_def)
    with False have "10 \<notin> set (take n l)" by (auto dest: in_set_takeD)
    then show ?thesis using False by (simp add: line_end_none)
  qed
qed (simp add: line_end_none)

lemma take_fitting:
  "take (length (concat (take (fitting n ls) ls))) (take n (concat ls)) = concat (take (fitting n ls) ls)"
proof -
  have "take (length (concat (take k ls))) (concat ls) = concat (take k ls)" for k
    by (induction ls arbitrary: k) (auto simp: take_Cons')
  then show ?thesis using fitting_bytes [of n ls] by (simp add: min_absorb1)
qed

lemma lines_values:
  assumes "reads_utf8 cr" and "list_all (recordable cr) es"
  shows "line_values cr (byte_lines (concat (map line_of es))) = Inr es"
  using assms(2)
proof (induction es)
  case (Cons v es)
  then obtain b where b: "utf8_encode (dumps False v) = Some b" "line_of v = b @ [10]" "10 \<notin> set b" "13 \<notin> set b"
    using event_line_shape [of cr v] by auto
  then have "byte_lines (concat (map line_of (v # es))) = b # byte_lines (concat (map line_of es))"
    using byte_lines_cons [of b] by simp
  moreover have "line_value cr b = Inr (Some v)"
    using Cons.prems b(1) by (intro line_value_event [OF assms(1)]) auto
  ultimately show ?case using Cons by simp
qed simp

text \<open>Reading from an offset between two lines: the events whose lines fit the budget.\<close>

definition fit_events :: "nat \<Rightarrow> json list \<Rightarrow> nat" where
  "fit_events n es = fitting n (map line_of es)"

abbreviation bytes_of :: "json list \<Rightarrow> bytes" where
  "bytes_of es \<equiv> concat (map line_of es)"

lemma read_lines:
  fixes n :: nat
  assumes "reads_utf8 cr" and "list_all (recordable cr) es"
  defines "k \<equiv> fit_events n es"
  shows "line_end (take n (bytes_of es)) = length (bytes_of (take k es))"
    and "line_values cr (byte_lines (take (line_end (take n (bytes_of es))) (take n (bytes_of es)))) = Inr (take k es)"
    and "length (bytes_of (take k es)) \<le> n"
    and "k \<le> length es"
    and "length (bytes_of es) \<le> n \<Longrightarrow> k = length es"
    and "es \<noteq> [] \<Longrightarrow> length (line_of (hd es)) \<le> n \<Longrightarrow> 0 < k"
proof -
  have lines: "\<forall>l \<in> set (map line_of es). is_line l"
    using assms(2) line_is_line by (auto simp: list_all_iff)
  have tk: "take (fitting n (map line_of es)) (map line_of es) = map line_of (take k es)"
    by (simp add: k_def fit_events_def take_map)
  show len: "line_end (take n (bytes_of es)) = length (bytes_of (take k es))"
    using line_end_take [OF lines, of n] by (simp only: tk)
  have "take (length (bytes_of (take k es))) (take n (bytes_of es)) = bytes_of (take k es)"
    using take_fitting [of n "map line_of es"] by (simp only: tk)
  moreover have "list_all (recordable cr) (take k es)"
    using assms(2) by (auto simp: list_all_iff dest: in_set_takeD)
  ultimately show "line_values cr (byte_lines (take (line_end (take n (bytes_of es))) (take n (bytes_of es)))) = Inr (take k es)"
    using lines_values [OF assms(1)] by (simp only: len)
  show "length (bytes_of (take k es)) \<le> n"
    using fitting_bytes [of n "map line_of es"] by (simp only: tk)
  show "k \<le> length es" using fitting_le [of n "map line_of es"] by (simp add: k_def fit_events_def)
  show "length (bytes_of es) \<le> n \<Longrightarrow> k = length es"
    using fitting_all [of "map line_of es" n] by (simp add: k_def fit_events_def)
  show "es \<noteq> [] \<Longrightarrow> length (line_of (hd es)) \<le> n \<Longrightarrow> 0 < k"
    by (cases es) (auto simp: k_def fit_events_def)
qed

end
