(* ===== verification/Console_Store.thy ===== *)
theory Console_Store
  imports Identity
begin

text \<open>
  \<open>console/store.py\<close>: the console's SQLite file.  A table is a dictionary by its primary key, or
  the list of its rows where the key is an AUTOINCREMENT id.  Every method is one transaction;
  \<open>change_password\<close> and what the handlers do after it are several.

  Parameters (\<open>console_env\<close>): \<open>scrypt\<close>, SHA-256 and whether the file can be opened and written;
  random values and clock readings are arguments.  Values of settings and payloads of events are
  stored as JSON text and read back; here they are the values.  Adding to a clock reading is exact.
\<close>

record account_row =
  ac_username :: pystr
  ac_salt :: pystr
  ac_password_hash :: pystr
  ac_changed :: bool

record session_row =
  se_expires :: rat
  se_principal :: "json option"

record attempt_row =
  at_failures :: nat
  at_until :: rat

record console_audit_row =
  ca_ts :: rat
  ca_actor :: pystr
  ca_event :: pystr
  ca_detail :: pystr

record console =
  co_account :: account_row
  co_sessions :: "(pystr, session_row) dict"
  co_attempts :: "(pystr, attempt_row) dict"
  co_settings :: "(pystr, json) dict"
  co_events :: "(nat \<times> json) list"
  co_next_event :: nat
  co_audit :: "console_audit_row list"

record console_env =
  cn_scrypt :: "bytes \<Rightarrow> pystr \<Rightarrow> pystr"   \<comment> \<open>password, salt; hex\<close>
  cn_sha256 :: "bytes \<Rightarrow> pystr"             \<comment> \<open>hexdigest\<close>
  cn_db_ok :: bool

type_synonym 'a console_act = "(console, 'a) act"

text \<open>One connection: opened, committed or rolled back, closed.\<close>

definition connect :: "console_env \<Rightarrow> 'a console_act \<Rightarrow> 'a console_act" where
  "connect env m s =
     (if \<not> cn_db_ok env then (Inl Failure, s)
      else case m s of (Inl e, _) \<Rightarrow> (Inl e, s) | (Inr x, s') \<Rightarrow> (Inr x, s'))"

definition encoded :: "pystr \<Rightarrow> bytes result" where
  "encoded s = (case utf8_encode s of None \<Rightarrow> Inl Unicode_error | Some b \<Rightarrow> Inr b)"

definition password_hash :: "console_env \<Rightarrow> pystr \<Rightarrow> pystr \<Rightarrow> pystr result" where
  "password_hash env pw salt = rbind (encoded pw) (\<lambda>b. Inr (cn_scrypt env b salt))"

definition session_digest :: "console_env \<Rightarrow> pystr \<Rightarrow> pystr result" where
  "session_digest env token = rbind (encoded token) (\<lambda>b. Inr (cn_sha256 env b))"

subsection \<open>Creation\<close>

definition initial_console :: "console_env \<Rightarrow> pystr \<Rightarrow> pystr \<Rightarrow> console result" where
  "initial_console env bootstrap salt =
     rbind (password_hash env bootstrap salt) (\<lambda>h.
       Inr \<lparr>co_account = \<lparr>ac_username = uni ''admin'', ac_salt = salt, ac_password_hash = h,
               ac_changed = (bootstrap \<noteq> uni ''1234'')\<rparr>,
            co_sessions = [], co_attempts = [], co_settings = [], co_events = [],
            co_next_event = 1, co_audit = []\<rparr>)"

text \<open>Opening the file: one that exists holds an account.  A service requires one.\<close>

definition open_console :: "console_env \<Rightarrow> bool \<Rightarrow> pystr \<Rightarrow> pystr \<Rightarrow> console option \<Rightarrow> console result" where
  "open_console env require_existing bootstrap salt existing =
     (case existing of
        Some c \<Rightarrow> if cn_db_ok env then Inr c else Inl Failure
      | None \<Rightarrow>
          if require_existing then Inl (Value_error ''Run selfhost init before starting the service'')
          else if \<not> cn_db_ok env then Inl Failure
          else initial_console env bootstrap salt)"

subsection \<open>The account and its sessions\<close>

definition check_password :: "console_env \<Rightarrow> pystr \<Rightarrow> bool console_act" where
  "check_password env pw =
     seq (connect env (gets co_account)) (\<lambda>row.
     seq (lift_result (password_hash env pw (ac_salt row))) (\<lambda>h. ret (h = ac_password_hash row)))"

definition changed :: "console_env \<Rightarrow> bool console_act" where
  "changed env = connect env (gets (\<lambda>s. ac_changed (co_account s)))"

definition local_principal :: json where
  "local_principal = JObj [(uni ''username'', JStr (uni ''admin'')), (uni ''role'', JStr (uni ''admin'')),
     (uni ''authentication'', JStr (uni ''local''))]"

definition session_ttl :: rat where
  "session_ttl = 8 * 3600"

text \<open>\<open>token\<close> is the random text of 43 ASCII characters; the two readings of the clock are \<open>t1\<close> and \<open>t2\<close>.
  \<open>principal or ...\<close>: an empty dictionary is no principal.\<close>

definition create_session ::
  "console_env \<Rightarrow> pystr \<Rightarrow> rat \<Rightarrow> rat \<Rightarrow> json option \<Rightarrow> rat \<Rightarrow> pystr console_act" where
  "create_session env token t1 t2 who ttl =
     connect env
       (seq (modify (\<lambda>s. s\<lparr>co_sessions := filter (\<lambda>(_, r). \<not> se_expires r < t1) (co_sessions s)\<rparr>)) (\<lambda>_.
        seq (lift_result (session_digest env token)) (\<lambda>d.
        seq (gets (\<lambda>s. map_of (co_sessions s) d)) (\<lambda>old.
          if old \<noteq> None then raise Failure
          else seq (modify (\<lambda>s. s\<lparr>co_sessions := co_sessions s @
              [(d, \<lparr>se_expires = t2 + min ttl session_ttl,
                   se_principal = Some (if who = None \<or> who = Some (JObj [])
                     then local_principal else the who)\<rparr>)]\<rparr>)) (\<lambda>_.
            ret token)))))"

definition principal_of :: "console_env \<Rightarrow> rat \<Rightarrow> pystr option \<Rightarrow> json option console_act" where
  "principal_of env now token =
     (if token = None \<or> token = Some [] then ret None
      else connect env
        (seq (lift_result (session_digest env (the token))) (\<lambda>d.
         seq (gets co_sessions) (\<lambda>rows.
           ret (case map_of rows d of
             None \<Rightarrow> None
           | Some r \<Rightarrow> if now < se_expires r then se_principal r else None)))))"

definition authenticated :: "console_env \<Rightarrow> rat \<Rightarrow> pystr option \<Rightarrow> bool console_act" where
  "authenticated env now token = seq (principal_of env now token) (\<lambda>p. ret (p \<noteq> None))"

definition logout :: "console_env \<Rightarrow> pystr option \<Rightarrow> unit console_act" where
  "logout env token =
     connect env
       (seq (lift_result (session_digest env (case token of None \<Rightarrow> [] | Some t \<Rightarrow> t))) (\<lambda>d.
        modify (\<lambda>s. s\<lparr>co_sessions := filter (\<lambda>(k, _). k \<noteq> d) (co_sessions s)\<rparr>)))"

definition console_audit :: "console_env \<Rightarrow> rat \<Rightarrow> pystr \<Rightarrow> pystr \<Rightarrow> pystr \<Rightarrow> unit console_act" where
  "console_audit env ts event detail actor =
     connect env (modify (\<lambda>s. s\<lparr>co_audit := co_audit s @
       [\<lparr>ca_ts = ts, ca_actor = actor, ca_event = event, ca_detail = detail\<rparr>]\<rparr>))"

text \<open>The password and every session in one transaction; the audit line in another, whose
  connection may fail (\<open>audit_env\<close>).  A wrong password returns inside the transaction.\<close>

definition change_password ::
  "console_env \<Rightarrow> console_env \<Rightarrow> rat \<Rightarrow> pystr \<Rightarrow> pystr \<Rightarrow> pystr \<Rightarrow> bool console_act" where
  "change_password env audit_env ts salt current new =
     seq (connect env
       (seq (gets co_account) (\<lambda>row.
        seq (lift_result (password_hash env current (ac_salt row))) (\<lambda>h.
          if h \<noteq> ac_password_hash row then ret False
          else seq (lift_result (password_hash env new salt)) (\<lambda>h'.
            seq (modify (\<lambda>s. s\<lparr>co_account := (co_account s)\<lparr>ac_salt := salt, ac_password_hash := h', ac_changed := True\<rparr>,
                  co_sessions := []\<rparr>)) (\<lambda>_. ret True)))))) (\<lambda>done.
       if \<not> done then ret False
       else seq (console_audit audit_env ts (uni ''account.password_changed'') (uni ''All sessions revoked'')
              (uni ''system'')) (\<lambda>_. ret True))"

subsection \<open>Login attempts\<close>

text \<open>\<open>success=None\<close> asks whether the identity is locked; otherwise the result is recorded.\<close>

definition login_attempt ::
  "console_env \<Rightarrow> rat \<Rightarrow> pystr \<Rightarrow> bool option \<Rightarrow> bool console_act" where
  "login_attempt env now ident success =
     connect env
       (seq (gets (\<lambda>s. map_of (co_attempts s) ident)) (\<lambda>row.
          case success of
            None \<Rightarrow> ret (case row of None \<Rightarrow> False | Some r \<Rightarrow> 5 \<le> at_failures r \<and> now < at_until r)
          | Some True \<Rightarrow>
              seq (modify (\<lambda>s. s\<lparr>co_attempts := filter (\<lambda>(k, _). k \<noteq> ident) (co_attempts s)\<rparr>)) (\<lambda>_. ret False)
          | Some False \<Rightarrow>
              (let n = (case row of None \<Rightarrow> 1 | Some r \<Rightarrow> if now < at_until r then at_failures r + 1 else 1) in
               seq (modify (\<lambda>s. s\<lparr>co_attempts := dset ident \<lparr>at_failures = n, at_until = now + 60\<rparr> (co_attempts s)\<rparr>))
                 (\<lambda>_. ret False))))"

subsection \<open>Settings, audit and events\<close>

definition get_setting :: "console_env \<Rightarrow> pystr \<Rightarrow> json option console_act" where
  "get_setting env key = connect env (gets (\<lambda>s. map_of (co_settings s) key))"

definition set_setting :: "console_env \<Rightarrow> pystr \<Rightarrow> json \<Rightarrow> unit console_act" where
  "set_setting env key v = connect env (modify (\<lambda>s. s\<lparr>co_settings := dset key v (co_settings s)\<rparr>))"

definition audits :: "console_env \<Rightarrow> console_audit_row list console_act" where
  "audits env = connect env (gets (\<lambda>s. take 1000 (rev (co_audit s))))"

definition insert_event :: "json \<Rightarrow> nat console_act" where
  "insert_event v s =
     (Inr (co_next_event s),
      s\<lparr>co_events := co_events s @ [(co_next_event s, v)], co_next_event := co_next_event s + 1\<rparr>)"

text \<open>\<open>{**event, "id": id}\<close>.\<close>

definition with_id :: "nat \<Rightarrow> (pystr, json) dict \<Rightarrow> (pystr, json) dict" where
  "with_id n ev = dset (uni ''id'') (JInt (int n)) ev"

definition add_event :: "console_env \<Rightarrow> (pystr, json) dict \<Rightarrow> (pystr, json) dict console_act" where
  "add_event env ev = connect env (seq (insert_event (JObj ev)) (\<lambda>n. ret (with_id n ev)))"

fun insert_events :: "json list \<Rightarrow> unit console_act" where
  "insert_events [] = ret ()"
| "insert_events (v # vs) = seq (insert_event v) (\<lambda>_. insert_events vs)"

definition ingest_events :: "console_env \<Rightarrow> json list \<Rightarrow> json \<Rightarrow> unit console_act" where
  "ingest_events env evs cursor =
     connect env (seq (insert_events evs) (\<lambda>_.
       modify (\<lambda>s. s\<lparr>co_settings := dset (uni ''event_spool_cursor'') cursor (co_settings s)\<rparr>)))"

definition update_event :: "console_env \<Rightarrow> nat \<Rightarrow> (pystr, json) dict \<Rightarrow> unit console_act" where
  "update_event env n ev =
     connect env (modify (\<lambda>s. s\<lparr>co_events :=
       map (\<lambda>(k, v). if k = n then (k, JObj (filter (\<lambda>(f, _). f \<noteq> uni ''id'') ev)) else (k, v)) (co_events s)\<rparr>))"

fun event_fields :: "json \<Rightarrow> (pystr, json) dict" where
  "event_fields (JObj ev) = ev"
| "event_fields v = []"

definition recent_events :: "console_env \<Rightarrow> (pystr, json) dict list console_act" where
  "recent_events env =
     connect env (gets (\<lambda>s. take 2000 (map (\<lambda>(n, v). with_id n (event_fields v)) (rev (co_events s)))))"

definition save_policy :: "console_env \<Rightarrow> rat \<Rightarrow> json \<Rightarrow> pystr \<Rightarrow> unit console_act" where
  "save_policy env ts policy detail =
     connect env (modify (\<lambda>s. s\<lparr>co_settings := dset (uni ''policy'') policy (co_settings s),
       co_audit := co_audit s @ [\<lparr>ca_ts = ts, ca_actor = uni ''system'', ca_event = uni ''policy.applied'',
         ca_detail = detail\<rparr>]\<rparr>))"

end
