(* ===== verification/Evidence.thy ===== *)
theory Evidence
  imports Spool_Facts Console_Store
begin

text \<open>
  The way of the evidence from the data plane to the console: \<open>SelfhostRuntime.ingest_events\<close> of
  \<open>selfhost/runtime.py\<close> drains the spools of all writers into the console's store.

  The state is the spool of every writing process and the store.  \<open>evidence_run\<close> is any sequence of
  the steps of the writers and of the control plane: a writer starts (again), appends, probes; the
  control plane ingests and unlinks, and may crash between the commit and the unlinking.
  It records in a log which lines were written, in which order.
\<close>

record evidence_state =
  ev_spools :: "(pystr, spool) dict"
  ev_store :: console

definition spool_dirs_of :: "evidence_state \<Rightarrow> spool_dirs" where
  "spool_dirs_of s = map (\<lambda>(w, sp). (w, sp_files sp)) (ev_spools s)"

definition on_store :: "'a console_act \<Rightarrow> (evidence_state, 'a) act" where
  "on_store m s = (case m (ev_store s) of (r, st) \<Rightarrow> (r, s\<lparr>ev_store := st\<rparr>))"

subsection \<open>The cursor as it is stored\<close>

definition position_json :: "position \<Rightarrow> json" where
  "position_json p = JObj [(uni ''inode'', JInt (int (fst p))), (uni ''offset'', JInt (int (snd p)))]"

definition cursor_json :: "cursor \<Rightarrow> json" where
  "cursor_json c = JObj (map (\<lambda>(w, p). (w, position_json p)) c)"

definition json_position :: "json \<Rightarrow> position" where
  "json_position v =
     (case (obj_get v (uni ''inode''), obj_get v (uni ''offset'')) of
        (Some (JInt i), Some (JInt n)) \<Rightarrow> (nat i, nat n)
      | _ \<Rightarrow> (0, 0))"

fun json_cursor :: "json \<Rightarrow> cursor" where
  "json_cursor (JObj ps) = map (\<lambda>(w, v). (w, json_position v)) ps"
| "json_cursor v = []"

lemma json_cursor_back [simp]: "json_cursor (cursor_json c) = c"
  by (induction c) (auto simp: cursor_json_def position_json_def json_position_def)

subsection \<open>Ingestion\<close>

definition cursor_key :: pystr where
  "cursor_key = uni ''event_spool_cursor''"

definition stored_cursor :: "console \<Rightarrow> cursor" where
  "stored_cursor c = json_cursor (get_or (co_settings c) cursor_key (JObj []))"

text \<open>
  Up to the commit: how many events, and the files to unlink.  The files are opened in \<open>opened\<close>,
  what the directories are by then.
\<close>

definition ingest ::
  "crypto \<Rightarrow> console_env \<Rightarrow> nat \<Rightarrow> spool_dirs \<Rightarrow> (evidence_state, nat \<times> (pystr \<times> file_name) list) act" where
  "ingest cr env limit opened s =
     seq (on_store (get_setting env cursor_key)) (\<lambda>saved.
       let cursor = json_cursor (case saved of None \<Rightarrow> JObj [] | Some v \<Rightarrow> v) in
       seq (lift_result (read_pending cr (spool_dirs_of s) opened cursor limit)) (\<lambda>(evs, cursor', drained).
         if evs = [] \<and> cursor' = cursor then ret (0, [])
         else seq (on_store (ingest_events env evs (cursor_json cursor'))) (\<lambda>_.
           ret (length evs, drained)))) s"

text \<open>\<open>path.unlink(missing_ok=True)\<close>.\<close>

definition unlink_file :: "pystr \<times> file_name \<Rightarrow> evidence_state \<Rightarrow> evidence_state" where
  "unlink_file d s =
     s\<lparr>ev_spools := map (\<lambda>(w, sp).
         (w, if w = fst d then sp\<lparr>sp_files := filter (\<lambda>f. sf_name f \<noteq> snd d) (sp_files sp)\<rparr> else sp))
       (ev_spools s)\<rparr>"

subsection \<open>Runs\<close>

definition files_of :: "pystr \<Rightarrow> evidence_state \<Rightarrow> spool_dir" where
  "files_of w s = (case map_of (ev_spools s) w of None \<Rightarrow> [] | Some sp \<Rightarrow> sp_files sp)"

text \<open>A created file has an inode of its own, and the clock is past the stamps of the sealed files.\<close>

definition os_sane :: "spool_os \<Rightarrow> spool_dir \<Rightarrow> bool" where
  "os_sane os fs \<longleftrightarrow> (\<forall>f \<in> set fs. sf_inode f \<noteq> os_inode os \<and> (\<not> file_active f \<longrightarrow> seal_stamp f < os_stamp os))"

text \<open>\<open>os.write\<close> raised or wrote the whole line.\<close>

definition whole_write :: "spool_os \<Rightarrow> bytes \<Rightarrow> bool" where
  "whole_write os line \<longleftrightarrow> (case os_written os of None \<Rightarrow> True | Some n \<Rightarrow> length line \<le> n)"

text \<open>The line of the event is in the file when the call is over.\<close>

definition recorded :: "spool_os \<Rightarrow> spool \<Rightarrow> json \<Rightarrow> bool" where
  "recorded os sp v \<longleftrightarrow> os_stat_ok os \<and> os_open_ok os \<and>
     (must_rotate (sp_max sp) (line_of v) (sp_files sp) \<longrightarrow> os_replace_ok os) \<and>
     (case os_written os of None \<Rightarrow> False | Some n \<Rightarrow> length (line_of v) \<le> n)"

text \<open>A run takes whatever the operating system answers and whatever the files are by the time the reader opens
  them.  It keeps account of what the code does not expect: a stamp or an inode that is not new, a write of part of a line, and a
  directory that changed between being listed and being read.\<close>

datatype evidence_fault = Stale_stamp | Short_write | Overtaken_reader

definition append_faults :: "spool_os \<Rightarrow> spool \<Rightarrow> json \<Rightarrow> evidence_fault list" where
  "append_faults os sp v = (if os_sane os (sp_files sp) then [] else [Stale_stamp]) @
     (if whole_write os (line_of v) then [] else [Short_write])"

definition ingest_faults :: "spool_dirs \<Rightarrow> evidence_state \<Rightarrow> evidence_fault list" where
  "ingest_faults opened s = (if opened = spool_dirs_of s then [] else [Overtaken_reader])"

inductive evidence_run ::
  "crypto \<Rightarrow> nat \<Rightarrow> evidence_fault list \<Rightarrow> (pystr \<times> json) list \<Rightarrow> evidence_state \<Rightarrow> bool" for cr limit where
  run_start:
    "co_events c = [] \<Longrightarrow> map_of (co_settings c) cursor_key = None \<Longrightarrow>
     evidence_run cr limit [] [] \<lparr>ev_spools = [], ev_store = c\<rparr>"
| run_open:
    "evidence_run cr limit fl lg s \<Longrightarrow>
     evidence_run cr limit fl lg (s\<lparr>ev_spools := dset w (new_spool (files_of w s) mx) (ev_spools s)\<rparr>)"
| run_append:
    "evidence_run cr limit fl lg s \<Longrightarrow> map_of (ev_spools s) w = Some sp \<Longrightarrow> recordable cr v \<Longrightarrow>
     append_event os v sp = (r, sp') \<Longrightarrow>
     evidence_run cr limit (fl @ append_faults os sp v) (if recorded os sp v then lg @ [(w, v)] else lg)
       (s\<lparr>ev_spools := dset w sp' (ev_spools s)\<rparr>)"
| run_probe:
    "evidence_run cr limit fl lg s \<Longrightarrow> map_of (ev_spools s) w = Some sp \<Longrightarrow> probe works sp = (r, sp') \<Longrightarrow>
     evidence_run cr limit fl lg (s\<lparr>ev_spools := dset w sp' (ev_spools s)\<rparr>)"
| run_ingest:
    "evidence_run cr limit fl lg s \<Longrightarrow> ingest cr env limit opened s = (r, s') \<Longrightarrow>
     evidence_run cr limit (fl @ ingest_faults opened s) lg
       (fold unlink_file (take k (case r of Inl _ \<Rightarrow> [] | Inr (n, drained) \<Rightarrow> drained)) s')"

text \<open>The events a writer wrote, those stored, and the bytes that are not read yet.\<close>

definition events_of :: "pystr \<Rightarrow> (pystr \<times> json) list \<Rightarrow> json list" where
  "events_of w lg = map snd (filter (\<lambda>(w', v). w' = w) lg)"

definition stored_events :: "evidence_state \<Rightarrow> json list" where
  "stored_events s = map snd (co_events (ev_store s))"

definition unread_bytes :: "position option \<Rightarrow> spool_dir \<Rightarrow> nat" where
  "unread_bytes pos fs =
     (case resume pos (spool_files fs) of (start, off) \<Rightarrow>
        sum_list (map (\<lambda>f. length (sf_data f)) (drop start (spool_files fs))) - off)"

definition backlog :: "evidence_state \<Rightarrow> nat" where
  "backlog s = sum_list (map (\<lambda>(w, fs). unread_bytes (map_of (stored_cursor (ev_store s)) w) fs) (spool_dirs_of s))"

end
