(* ===== verification/Evidence_Facts.thy ===== *)
theory Evidence_Facts
  imports Evidence "HOL-Library.Sublist"
begin

text \<open>
  The reader's invariant.  For one writer (\<open>writer_at\<close>): the files from the cursor on, cut at its
  offset, hold exactly the lines of the events that are still to be stored.  Appending extends it
  (\<open>writer_append\<close>), reading takes a prefix off it (\<open>read_writer_takes\<close>), and unlinking files before
  the cursor leaves it alone (\<open>writer_unlink\<close>).
\<close>

subsection \<open>What is unread\<close>

definition lines_in :: "crypto \<Rightarrow> bytes \<Rightarrow> json list \<Rightarrow> bool" where
  "lines_in cr d es \<longleftrightarrow> d = bytes_of es \<and> list_all (recordable cr) es"

definition unread :: "crypto \<Rightarrow> bytes list \<Rightarrow> nat \<Rightarrow> json list \<Rightarrow> bool" where
  "unread cr ds off pend \<longleftrightarrow> ds = [] \<and> off = 0 \<and> pend = [] \<or>
     (\<exists>pre es ess. list_all2 (lines_in cr) ds ((pre @ es) # ess) \<and> off = length (bytes_of pre) \<and>
        pend = es @ concat ess)"

lemma line_nonempty: "recordable cr v \<Longrightarrow> 0 < length (line_of v)"
  using line_is_line [of cr v] by (auto simp: is_line_def)

lemma bytes_all_read:
  assumes "list_all (recordable cr) es" and "length (bytes_of es) \<le> length (bytes_of (take k es))"
  shows "take k es = es"
  using assms
proof (induction es arbitrary: k)
  case (Cons v es)
  then have "0 < length (line_of v)" using line_nonempty by auto
  with Cons show ?case by (cases k) auto
qed simp

lemma unread_new_file: "unread cr ds off pend \<Longrightarrow> unread cr (ds @ [[]]) off pend"
proof (cases "ds = []")
  case True
  moreover assume "unread cr ds off pend"
  ultimately have "off = 0" "pend = []" by (auto simp: unread_def)
  then show ?thesis using True
    by (auto simp: unread_def lines_in_def intro!: exI [of _ "[]"])
next
  case False
  assume "unread cr ds off pend"
  with False obtain pre es ess where u: "list_all2 (lines_in cr) ds ((pre @ es) # ess)"
    "off = length (bytes_of pre)" "pend = es @ concat ess" by (auto simp: unread_def)
  then have "list_all2 (lines_in cr) (ds @ [[]]) ((pre @ es) # ess @ [[]])"
    using list_all2_appendI [of "lines_in cr" ds "(pre @ es) # ess" "[[]]" "[[]]"] by (auto simp: lines_in_def)
  moreover have "pend = es @ concat (ess @ [[]])" using u(3) by simp
  ultimately show ?thesis using u(2) unfolding unread_def by blast
qed

lemma unread_written:
  assumes "unread cr (ds @ [d]) off pend" and "recordable cr v"
  shows "unread cr (ds @ [d @ line_of v]) off (pend @ [v])"
proof -
  obtain pre es ess where u: "list_all2 (lines_in cr) (ds @ [d]) ((pre @ es) # ess)"
    "off = length (bytes_of pre)" "pend = es @ concat ess" using assms(1) by (auto simp: unread_def)
  show ?thesis
  proof (cases ess rule: rev_cases)
    case Nil
    then have "ds = []" using u(1) by (auto dest: list_all2_lengthD)
    then have "lines_in cr d (pre @ es)" using u(1) Nil by simp
    with \<open>ds = []\<close> have "list_all2 (lines_in cr) (ds @ [d @ line_of v]) ((pre @ (es @ [v])) # [])"
      using assms(2) by (auto simp: lines_in_def)
    moreover have "pend @ [v] = (es @ [v]) @ concat []" using u(3) Nil by simp
    ultimately show ?thesis using u(2) unfolding unread_def by blast
  next
    case (snoc ess' e)
    then have "list_all2 (lines_in cr) (ds @ [d]) (((pre @ es) # ess') @ [e])" using u(1) by simp
    then have "list_all2 (lines_in cr) ds ((pre @ es) # ess')" "lines_in cr d e"
      by (simp_all only: list_all2_append1 list_all2_append2 list_all2_Cons1 list_all2_Cons2) (auto simp: append_eq_append_conv2 dest: list_all2_lengthD)
    then have "list_all2 (lines_in cr) (ds @ [d @ line_of v]) (((pre @ es) # ess') @ [e @ [v]])"
      using assms(2) by (intro list_all2_appendI) (auto simp: lines_in_def)
    moreover have "pend @ [v] = es @ concat (ess' @ [e @ [v]])" using u(3) snoc by simp
    ultimately show ?thesis using u(2) unfolding unread_def by (metis append_Cons)
  qed
qed

subsection \<open>The loop over the files\<close>

lemma find_self:
  "distinct (map sf_name cur) \<Longrightarrow> f \<in> set cur \<Longrightarrow> find (\<lambda>g. sf_name g = sf_name f) cur = Some f"
  by (induction cur) (auto simp: image_iff)

definition takes ::
  "crypto \<Rightarrow> spool_dir \<Rightarrow> spool_file list \<Rightarrow> nat \<Rightarrow> nat \<Rightarrow> json list \<Rightarrow>
   nat \<Rightarrow> spool_file list \<Rightarrow> spool_file \<Rightarrow> spool_file list \<Rightarrow> nat \<Rightarrow> bool" where
  "takes cr cur fs off b pend n fs1 g fs2 off' \<longleftrightarrow>
     read_files cr cur fs off b =
        Inr (take n pend, Some (sf_inode g, off'), map sf_name fs1, b - length (bytes_of (take n pend))) \<and>
     fs = fs1 @ g # fs2 \<and> unread cr (map sf_data (g # fs2)) off' (drop n pend) \<and>
     length (bytes_of (take n pend)) \<le> b \<and> (length (bytes_of pend) \<le> b \<longrightarrow> length pend \<le> n)"

lemma takesD:
  assumes "takes cr cur fs off b pend n fs1 g fs2 off'"
  shows "read_files cr cur fs off b =
      Inr (take n pend, Some (sf_inode g, off'), map sf_name fs1, b - length (bytes_of (take n pend)))"
    and "fs = fs1 @ g # fs2" and "unread cr (map sf_data (g # fs2)) off' (drop n pend)"
    and "length (bytes_of (take n pend)) \<le> b" and "length (bytes_of pend) \<le> b \<longrightarrow> length pend \<le> n"
  using assms unfolding takes_def by blast+

lemma read_files_takes:
  assumes "reads_utf8 cr" and "distinct (map sf_name cur)"
  shows "set fs \<subseteq> set cur \<Longrightarrow> fs \<noteq> [] \<Longrightarrow> unread cr (map sf_data fs) off pend \<Longrightarrow>
    \<forall>f \<in> set (butlast fs). \<not> file_active f \<Longrightarrow>
    \<exists>n fs1 g fs2 off'. takes cr cur fs off b pend n fs1 g fs2 off'"
proof (induction fs arbitrary: off pend b)
  case (Cons f fs)
  from Cons.prems(3) obtain pre es ess where u: "lines_in cr (sf_data f) (pre @ es)"
    "list_all2 (lines_in cr) (map sf_data fs) ess" "off = length (bytes_of pre)" "pend = es @ concat ess"
    by (auto simp: unread_def)
  then have es: "list_all (recordable cr) es" and data: "sf_data f = bytes_of pre @ bytes_of es"
    by (auto simp: lines_in_def)
  have rest: "drop off (sf_data f) = bytes_of es" using u(3) data by simp
  define k where "k = fit_events b es"
  note rl = read_lines [OF assms(1) es, of b, folded k_def]
  have self: "find (\<lambda>g. sf_name g = sf_name f) cur = Some f"
    using find_self [OF assms(2)] Cons.prems(1) by auto
  let ?more = "\<not> file_active f \<and> length (sf_data f) \<le> off + length (bytes_of (take k es)) \<and> fs \<noteq> []"
  have step: "read_files cr cur (f # fs) off b =
     (if ?more then rbind (read_files cr cur fs 0 (b - length (bytes_of (take k es)))) (\<lambda>(evs', pos, drained, left).
        Inr (take k es @ evs', pos, sf_name f # drained, left))
      else Inr (take k es, Some (sf_inode f, off + length (bytes_of (take k es))), [], b - length (bytes_of (take k es))))"
    using rl(2) by (simp only: read_files.simps self option.simps Let_def rest rl(1) rbind_simps)
  show ?case
  proof (cases ?more)
    case True
    then have all: "take k es = es" using bytes_all_read [OF es, of k] u(3) data by simp
    have "unread cr (map sf_data fs) 0 (concat ess)"
    proof (cases ess)
      case Nil
      then show ?thesis using u(2) by (simp add: unread_def)
    next
      case (Cons e es')
      then show ?thesis using u(2) unfolding unread_def by (intro disjI2 exI [of _ "[]"] exI [of _ e] exI [of _ es']) simp
    qed
    moreover have "set fs \<subseteq> set cur" "fs \<noteq> []" "\<forall>f \<in> set (butlast fs). \<not> file_active f"
      using True Cons.prems(1,4) by auto
    ultimately obtain n fs1 g fs2 off' where "takes cr cur fs 0 (b - length (bytes_of es)) (concat ess) n fs1 g fs2 off'"
      using Cons.IH [of 0 "concat ess" "b - length (bytes_of es)"] by blast
    note ih = takesD [OF this]
    have tk: "take (length es + n) pend = es @ take n (concat ess)" "drop (length es + n) pend = drop n (concat ess)"
      by (simp_all add: u(4))
    have fits: "length (bytes_of es) \<le> b" using rl(3) by (simp add: all)
    have len: "length (bytes_of (take (length es + n) pend)) = length (bytes_of es) + length (bytes_of (take n (concat ess)))"
      by (simp only: tk map_append concat_append length_append)
    have "takes cr cur (f # fs) off b pend (length es + n) (f # fs1) g fs2 off'"
      unfolding takes_def
    proof (intro conjI)
      show "read_files cr cur (f # fs) off b = Inr (take (length es + n) pend, Some (sf_inode g, off'),
          map sf_name (f # fs1), b - length (bytes_of (take (length es + n) pend)))"
        using True by (simp only: step if_True all ih(1) rbind_simps case_prod_conv tk(1) len)
          (simp add: u(4))
      show "f # fs = (f # fs1) @ g # fs2" using ih(2) by simp
      show "unread cr (map sf_data (g # fs2)) off' (drop (length es + n) pend)" using ih(3) by (simp only: tk)
      show "length (bytes_of (take (length es + n) pend)) \<le> b" using ih(4) fits by (simp add: len)
      show "length (bytes_of pend) \<le> b \<longrightarrow> length pend \<le> length es + n"
        using ih(5) fits by (simp add: u(4))
    qed
    then show ?thesis by blast
  next
    case False
    have tk: "take k pend = take k es" "drop k pend = drop k es @ concat ess" using rl(4) by (simp_all add: u(4))
    have "takes cr cur (f # fs) off b pend k [] f fs (off + length (bytes_of (take k es)))"
      unfolding takes_def
    proof (intro conjI)
      show "read_files cr cur (f # fs) off b = Inr (take k pend, Some (sf_inode f, off + length (bytes_of (take k es))),
          map sf_name [], b - length (bytes_of (take k pend)))"
        using False by (simp only: step if_False tk list.map)
      show "f # fs = [] @ f # fs" by simp
      have "lines_in cr (sf_data f) ((pre @ take k es) @ drop k es)" using u(1) by simp
      moreover have "off + length (bytes_of (take k es)) = length (bytes_of (pre @ take k es))" using u(3) by simp
      ultimately show "unread cr (map sf_data (f # fs)) (off + length (bytes_of (take k es))) (drop k pend)"
        unfolding unread_def using u(2)
        by (intro disjI2 exI [of _ "pre @ take k es"] exI [of _ "drop k es"] exI [of _ ess]) (simp add: tk)
      show "length (bytes_of (take k pend)) \<le> b" using rl(3) by (simp only: tk)
      show "length (bytes_of pend) \<le> b \<longrightarrow> length pend \<le> k"
      proof
        assume "length (bytes_of pend) \<le> b"
        then have k: "k = length es" using rl(5) by (simp add: u(4))
        with False u(3) data have "file_active f \<or> fs = []" by auto
        with Cons.prems(4) have "fs = []" by (cases fs) auto
        with u(2) have "ess = []" by simp
        then show "length pend \<le> k" by (simp add: u(4) k)
      qed
    qed
    then show ?thesis by blast
  qed
qed simp

subsection \<open>One writer\<close>

text \<open>The files before the cursor, and those from it on.\<close>

definition at_position :: "position option \<Rightarrow> spool_file list \<Rightarrow> spool_file list \<Rightarrow> nat \<Rightarrow> bool" where
  "at_position pos A B off \<longleftrightarrow>
     pos = None \<and> A = [] \<and> off = 0 \<or> B \<noteq> [] \<and> pos = Some (sf_inode (hd B), off)"

definition writer_at :: "crypto \<Rightarrow> spool_dir \<Rightarrow> position option \<Rightarrow> json list \<Rightarrow> bool" where
  "writer_at cr fs pos pend \<longleftrightarrow> distinct (map sf_name fs) \<and> distinct (map sf_inode fs) \<and>
     (\<exists>A B off. spool_files fs = A @ B \<and> at_position pos A B off \<and> unread cr (map sf_data B) off pend)"

lemma set_listed [simp]: "set (spool_files fs) = set fs"
  by (auto simp: spool_files_def)

lemma mset_listed: "mset (spool_files fs) = mset fs"
  by (simp add: spool_files_def)

lemma distinct_listed: "distinct (map f (spool_files fs)) \<longleftrightarrow> distinct (map f fs)"
  by (metis mset_listed mset_map mset_eq_imp_distinct_iff)

lemma filter_listed: "spool_files (filter P fs) = filter P (spool_files fs)"
  by (simp add: spool_files_def filter_sort filter_filter conj_commute)

lemma active_last:
  assumes "distinct (map sf_name fs)" and "f \<in> set (butlast (spool_files fs))"
  shows "\<not> file_active f"
proof
  assume act: "file_active f"
  have one: "length (filter file_active fs) \<le> 1"
  proof (rule ccontr)
    assume "\<not> length (filter file_active fs) \<le> 1"
    then obtain a b r where r: "filter file_active fs = a # b # r"
      by (cases "filter file_active fs" rule: remdups_adj.cases) auto
    have "list_all file_active (filter file_active fs)" by (auto simp: list_all_iff)
    then have "sf_name a = sf_name b" by (simp add: r file_active_def)
    moreover have "distinct (map sf_name (filter file_active fs))" using assms(1) by (rule distinct_map_filter)
    ultimately show False using r by simp
  qed
  have "f \<in> set (butlast (sort_key seal_stamp (filter (\<lambda>f. \<not> file_active f) fs) @ filter file_active fs))"
    using assms(2) by (simp only: spool_files_def)
  then show False using act one
    by (cases "filter file_active fs") (auto simp: butlast_append dest: in_set_butlastD)
qed

lemma resume_at:
  assumes "distinct (map sf_inode (A @ B))" and "at_position pos A B off"
  shows "resume pos (A @ B) = (length A, off)"
proof (cases pos)
  case (Some p)
  then obtain g B' where B: "B = g # B'" "pos = Some (sf_inode g, off)"
    using assms(2) by (cases B) (auto simp: at_position_def)
  then have "sf_inode g \<notin> set (map sf_inode A)" using assms(1) by auto
  then have "index_of (sf_inode g) (map sf_inode A @ sf_inode g # x) = length A" for x
    by (induction A) auto
  then show ?thesis using B by (simp add: resume_def)
qed (use assms(2) in \<open>auto simp: resume_def at_position_def\<close>)

text \<open>The files that may be unlinked: those before the position.\<close>

definition drained_names :: "spool_dir \<Rightarrow> position option \<Rightarrow> file_name set" where
  "drained_names fs pos =
     {n. \<exists>A B off. spool_files fs = A @ B \<and> B \<noteq> [] \<and> pos = Some (sf_inode (hd B), off) \<and> n \<in> sf_name ` set A}"

lemma drained_namesI:
  "spool_files fs = A @ B \<Longrightarrow> B \<noteq> [] \<Longrightarrow> pos = Some (sf_inode (hd B), off) \<Longrightarrow> n \<in> sf_name ` set A \<Longrightarrow>
   n \<in> drained_names fs pos"
  unfolding drained_names_def by blast

lemma read_writer_takes:
  assumes "reads_utf8 cr" and "writer_at cr fs pos pend"
  shows "\<exists>n pos' drained. read_writer cr fs fs pos b =
      Inr (take n pend, pos', drained, b - length (bytes_of (take n pend))) \<and>
    (case pos' of None \<Rightarrow> fs = [] \<and> drained = [] | Some p \<Rightarrow> writer_at cr fs (Some p) (drop n pend)) \<and>
    set drained \<subseteq> drained_names fs pos' \<and> length (bytes_of (take n pend)) \<le> b \<and>
    (length (bytes_of pend) \<le> b \<longrightarrow> length pend \<le> n)"
proof -
  obtain A B off where w: "distinct (map sf_name fs)" "distinct (map sf_inode fs)" "spool_files fs = A @ B"
    "at_position pos A B off" "unread cr (map sf_data B) off pend"
    using assms(2) by (auto simp: writer_at_def)
  have res: "resume pos (A @ B) = (length A, off)"
    using resume_at [OF _ w(4)] w(2) distinct_listed [of sf_inode fs] by (simp add: w(3))
  show ?thesis
  proof (cases "B = []")
    case True
    then have e: "A = []" "pend = []" "off = 0" using w(4,5) by (auto simp: at_position_def unread_def)
    then have "fs = []" using w(3) True set_listed [of fs] by (metis append_Nil set_empty)
    then have "read_writer cr fs fs pos b = Inr (take 0 pend, None, [], b - length (bytes_of (take 0 pend)))"
      using res e True by (simp add: read_writer_def spool_files_def)
    then show ?thesis using \<open>fs = []\<close> e by (intro exI [of _ 0] exI [of _ None] exI [of _ "[]"]) simp
  next
    case False
    have "\<forall>f \<in> set (butlast B). \<not> file_active f"
      using active_last [OF w(1)] False by (simp add: w(3) butlast_append)
    moreover have "set B \<subseteq> set fs" using set_listed [of fs] by (auto simp: w(3))
    ultimately obtain n fs1 g fs2 off' where t: "takes cr fs B off b pend n fs1 g fs2 off'"
      using read_files_takes [OF assms(1) w(1) _ False w(5)] by blast
    note t = takesD [OF t]
    have "writer_at cr fs (Some (sf_inode g, off')) (drop n pend)"
      unfolding writer_at_def
    proof (intro conjI exI)
      show "spool_files fs = (A @ fs1) @ g # fs2" by (simp add: w(3) t(2))
      show "unread cr (map sf_data (g # fs2)) off' (drop n pend)" by (rule t(3))
    qed (use w in \<open>auto simp: at_position_def\<close>)
    moreover have "read_writer cr fs fs pos b = Inr (take n pend, Some (sf_inode g, off'),
        map sf_name (A @ fs1), b - length (bytes_of (take n pend)))"
      by (simp add: read_writer_def res w(3) t(1))
    moreover have "set (map sf_name (A @ fs1)) \<subseteq> drained_names fs (Some (sf_inode g, off'))"
      using drained_namesI [of fs "A @ fs1" "g # fs2"] w(3) t(2) by auto
    ultimately show ?thesis using t(4,5)
      by (intro exI [of _ n] exI [of _ "Some (sf_inode g, off')"] exI [of _ "map sf_name (A @ fs1)"]) simp
  qed
qed

subsection \<open>Appending\<close>

lemma active_cases:
  assumes "distinct (map sf_name fs)"
  obtains "active_file fs = None" "filter file_active fs = []"
    | a where "active_file fs = Some a" "filter file_active fs = [a]" "file_active a" "a \<in> set fs"
proof (cases "filter file_active fs")
  case Nil
  then have "active_file fs = None" by (auto simp: active_file_def find_None_iff filter_empty_conv)
  with Nil that(1) show thesis by blast
next
  case (Cons a r)
  have "f \<in> set (filter file_active fs) \<Longrightarrow> sf_name f = Active" for f by (simp add: file_active_def)
  then have "sf_name ` set r \<subseteq> {Active}" "sf_name a = Active" by (auto simp: Cons)
  moreover have "distinct (map sf_name (a # r))"
    using assms distinct_map_filter [of sf_name fs file_active] by (simp only: Cons)
  ultimately have r: "r = []" by (cases r) auto
  have "a \<in> set (filter file_active fs)" by (simp only: Cons list.set_intros)
  then have "file_active a" "a \<in> set fs" by simp_all
  moreover have "active_file fs = Some a"
    using find_self [OF assms \<open>a \<in> set fs\<close>] \<open>file_active a\<close>
    by (simp add: active_file_def file_active_def [abs_def])
  ultimately show thesis using Cons r that(2) by blast
qed

text \<open>Sealing moves the active file to the end of the sealed ones: the reader sees the same bytes.\<close>

lemma seal_listed:
  assumes "distinct (map sf_name fs)" and "\<forall>f \<in> set fs. \<not> file_active f \<longrightarrow> seal_stamp f < t"
  shows "map sf_data (spool_files (seal_active t fs)) = map sf_data (spool_files fs)"
    and "map sf_inode (spool_files (seal_active t fs)) = map sf_inode (spool_files fs)"
    and "distinct (map sf_name (seal_active t fs))"
    and "map sf_inode (seal_active t fs) = map sf_inode fs"
    and "active_file (seal_active t fs) = None"
proof -
  define seal where "seal f = (if file_active f then f\<lparr>sf_name := Sealed t\<rparr> else f)" for f
  have other: "sf_name f \<noteq> Sealed t" if "f \<in> set fs" for f
    using assms(2) that by (auto simp: file_active_def split: file_name.splits)
  then have g: "seal_active t fs = map seal fs"
    by (simp add: seal_active_def seal_def [abs_def] cong: filter_cong)
  have same: "sf_inode (seal f) = sf_inode f" "sf_data (seal f) = sf_data f" "\<not> file_active (seal f)" for f
    by (auto simp: seal_def file_active_def)
  show "map sf_inode (seal_active t fs) = map sf_inode fs" by (simp add: g same comp_def)
  show "active_file (seal_active t fs) = None" by (simp add: g active_file_def find_None_iff same)
  have inj: "inj_on (\<lambda>f. sf_name (seal f)) (set fs)"
  proof (rule inj_onI)
    fix f f' assume m: "f \<in> set fs" "f' \<in> set fs" "sf_name (seal f) = sf_name (seal f')"
    then have "sf_name f = sf_name f'" using other by (auto simp: seal_def file_active_def split: if_splits)
    then show "f = f'" using assms(1) m by (auto simp: distinct_map inj_on_def)
  qed
  then show names: "distinct (map sf_name (seal_active t fs))"
    using assms(1) by (simp add: g distinct_map comp_def inj_on_def)
  let ?S = "sort_key seal_stamp (filter (\<lambda>f. \<not> file_active f) fs)" and ?A = "filter file_active fs"
  have stamps: "seal_stamp (seal f) = t" if "file_active f" for f using that by (simp add: seal_def)
  have "sort_key seal_stamp (map seal fs) = ?S @ map seal ?A"
  proof (rule sort_key_inj_key_eq)
    have "map seal (filter (\<lambda>f. \<not> file_active f) fs) = filter (\<lambda>f. \<not> file_active f) fs"
      by (intro map_idI) (auto simp: seal_def)
    moreover have "mset (map seal fs) = mset (map seal (filter (\<lambda>f. \<not> file_active f) fs)) + mset (map seal ?A)"
      by (induction fs) auto
    ultimately show "mset (map seal fs) = mset (?S @ map seal ?A)" by (simp only: mset_append mset_sort)
    have "sf_name f = Sealed (seal_stamp f)" if "\<not> file_active f" for f
      using that by (auto simp: file_active_def split: file_name.splits)
    then have "sf_name (seal f) = Sealed (seal_stamp (seal f))" for f using same(3) by blast
    then show "inj_on seal_stamp (set (map seal fs))" using inj by (auto simp: inj_on_def) metis
    have "sorted (map seal_stamp ?S)" by simp
    moreover have "\<forall>x \<in> set (map seal_stamp ?S). x < t" using assms(2) by auto
    moreover have "map seal_stamp (map seal ?A) = replicate (length ?A) t"
      by (intro replicate_eqI) (auto simp: stamps simp del: seal_stamp.simps)
    ultimately show "sorted (map seal_stamp (?S @ map seal ?A))"
      by (auto simp: sorted_append simp del: set_map)
  qed
  moreover have "spool_files (seal_active t fs) = sort_key seal_stamp (map seal fs)"
    by (simp add: spool_files_def g same filter_map comp_def)
  ultimately have l: "spool_files (seal_active t fs) = ?S @ map seal ?A" by simp
  show "map sf_data (spool_files (seal_active t fs)) = map sf_data (spool_files fs)"
    "map sf_inode (spool_files (seal_active t fs)) = map sf_inode (spool_files fs)"
    unfolding l by (simp_all add: spool_files_def same)
qed

lemma ensure_listed:
  assumes "active_file fs = None"
  shows "spool_files (ensure_active i fs) = spool_files fs @ [\<lparr>sf_name = Active, sf_inode = i, sf_data = []\<rparr>]"
    and "set (ensure_active i fs) = insert \<lparr>sf_name = Active, sf_inode = i, sf_data = []\<rparr> (set fs)"
    and "distinct (map sf_name fs) \<Longrightarrow> distinct (map sf_name (ensure_active i fs))"
    and "distinct (map sf_inode fs) \<Longrightarrow> \<forall>f \<in> set fs. sf_inode f \<noteq> i \<Longrightarrow> distinct (map sf_inode (ensure_active i fs))"
proof -
  have none: "filter file_active fs = []" "Active \<notin> sf_name ` set fs"
    using assms by (auto simp: active_file_def find_None_iff filter_empty_conv file_active_def)
  then show "spool_files (ensure_active i fs) = spool_files fs @ [\<lparr>sf_name = Active, sf_inode = i, sf_data = []\<rparr>]"
    using assms by (simp add: ensure_active_def spool_files_def file_active_def)
  show "set (ensure_active i fs) = insert \<lparr>sf_name = Active, sf_inode = i, sf_data = []\<rparr> (set fs)"
    using assms by (auto simp: ensure_active_def)
  show "distinct (map sf_name fs) \<Longrightarrow> distinct (map sf_name (ensure_active i fs))"
    using assms none by (simp add: ensure_active_def)
  show "distinct (map sf_inode fs) \<Longrightarrow> \<forall>f \<in> set fs. sf_inode f \<noteq> i \<Longrightarrow> distinct (map sf_inode (ensure_active i fs))"
    using assms by (auto simp: ensure_active_def)
qed

lemma write_listed:
  assumes "filter file_active fs = [a]"
  shows "spool_files (write_active bs fs) = butlast (spool_files fs) @ [a\<lparr>sf_data := sf_data a @ bs\<rparr>]"
    and "spool_files fs = butlast (spool_files fs) @ [a]"
    and "map sf_name (write_active bs fs) = map sf_name fs" "map sf_inode (write_active bs fs) = map sf_inode fs"
proof -
  define h where "h f = (if file_active f then f\<lparr>sf_data := sf_data f @ bs\<rparr> else f)" for f
  have w: "write_active bs fs = map h fs" by (simp add: write_active_def h_def [abs_def])
  have same: "file_active (h f) = file_active f" "sf_name (h f) = sf_name f" "sf_inode (h f) = sf_inode f" for f
    by (auto simp: h_def file_active_def)
  have "map h (filter (\<lambda>f. \<not> file_active f) fs) = filter (\<lambda>f. \<not> file_active f) fs"
    by (intro map_idI) (auto simp: h_def)
  moreover have "a \<in> set (filter file_active fs)" using assms by simp
  then have "h a = a\<lparr>sf_data := sf_data a @ bs\<rparr>" by (simp add: h_def)
  ultimately show "spool_files (write_active bs fs) = butlast (spool_files fs) @ [a\<lparr>sf_data := sf_data a @ bs\<rparr>]"
    using assms by (simp add: spool_files_def w filter_map comp_def same)
  show "spool_files fs = butlast (spool_files fs) @ [a]" using assms by (simp add: spool_files_def)
  show "map sf_name (write_active bs fs) = map sf_name fs" "map sf_inode (write_active bs fs) = map sf_inode fs"
    by (simp_all add: w same comp_def)
qed

text \<open>The invariant over the inodes and the contents alone.\<close>

definition at_index :: "nat list \<Rightarrow> position option \<Rightarrow> nat \<Rightarrow> nat \<Rightarrow> bool" where
  "at_index ns pos k off \<longleftrightarrow> pos = None \<and> k = 0 \<and> off = 0 \<or> k < length ns \<and> pos = Some (ns ! k, off)"

lemma writer_at_iff:
  "writer_at cr fs pos pend \<longleftrightarrow> distinct (map sf_name fs) \<and> distinct (map sf_inode fs) \<and>
     (\<exists>k off. at_index (map sf_inode (spool_files fs)) pos k off \<and> unread cr (drop k (map sf_data (spool_files fs))) off pend)"
proof -
  have "\<exists>k off. at_index (map sf_inode (spool_files fs)) pos k off \<and> unread cr (drop k (map sf_data (spool_files fs))) off pend"
    if "spool_files fs = A @ B" "at_position pos A B off" "unread cr (map sf_data B) off pend" for A B off
    using that by (intro exI [of _ "length A"] exI [of _ off]) (cases B; auto simp: at_position_def at_index_def nth_append)
  moreover have "\<exists>A B off. spool_files fs = A @ B \<and> at_position pos A B off \<and> unread cr (map sf_data B) off pend"
    if "at_index (map sf_inode (spool_files fs)) pos k off" "unread cr (drop k (map sf_data (spool_files fs))) off pend" for k off
    using that
    by (intro exI [of _ "take k (spool_files fs)"] exI [of _ "drop k (spool_files fs)"] exI [of _ off])
      (auto simp: at_position_def at_index_def drop_map hd_drop_conv_nth)
  ultimately show ?thesis unfolding writer_at_def by blast
qed

lemma at_index_snoc: "at_index ns pos k off \<Longrightarrow> at_index (ns @ [i]) pos k off"
  by (auto simp: at_index_def nth_append)

lemma at_index_le: "at_index ns pos k off \<Longrightarrow> k \<le> length ns - 1"
  by (auto simp: at_index_def)

lemma writer_seal:
  assumes "writer_at cr fs pos pend" and "\<forall>f \<in> set fs. \<not> file_active f \<longrightarrow> seal_stamp f < t"
  shows "writer_at cr (seal_active t fs) pos pend"
  using assms seal_listed [OF _ assms(2)] by (simp add: writer_at_iff)

lemma writer_ensure:
  assumes "writer_at cr fs pos pend" and "\<forall>f \<in> set fs. sf_inode f \<noteq> i"
  shows "writer_at cr (ensure_active i fs) pos pend"
proof (cases "active_file fs = None")
  case True
  obtain k off where k: "at_index (map sf_inode (spool_files fs)) pos k off" "unread cr (drop k (map sf_data (spool_files fs))) off pend"
    using assms(1) by (auto simp: writer_at_iff)
  have "unread cr (drop k (map sf_data (spool_files fs)) @ [[]]) off pend" by (rule unread_new_file [OF k(2)])
  moreover have "k \<le> length (spool_files fs)" using at_index_le [OF k(1)] by simp
  ultimately show ?thesis
    using assms k(1) by (auto simp: writer_at_iff ensure_listed [OF True] intro!: exI at_index_snoc)
next
  case False
  then show ?thesis using assms(1) by (auto simp: ensure_active_def)
qed

lemma writer_write:
  assumes "writer_at cr fs pos pend" and "active_file fs \<noteq> None" and "recordable cr v"
  shows "writer_at cr (write_active (line_of v) fs) pos (pend @ [v])"
proof -
  obtain a where a: "filter file_active fs = [a]"
    using assms(1,2) by (auto simp: writer_at_def elim: active_cases)
  note w = write_listed [OF a]
  let ?S = "butlast (spool_files fs)"
  obtain k off where k: "at_index (map sf_inode (spool_files fs)) pos k off" "unread cr (drop k (map sf_data (spool_files fs))) off pend"
    using assms(1) by (auto simp: writer_at_iff)
  have le: "k \<le> length ?S" using at_index_le [OF k(1)] by simp
  have "map sf_data (spool_files fs) = map sf_data ?S @ [sf_data a]" using w(2) by (metis map_append list.map)
  then have "unread cr (drop k (map sf_data ?S) @ [sf_data a]) off pend" using k(2) le by simp
  then have "unread cr (drop k (map sf_data ?S) @ [sf_data a @ line_of v]) off (pend @ [v])"
    by (rule unread_written [OF _ assms(3)])
  then have "unread cr (drop k (map sf_data (spool_files (write_active (line_of v) fs)))) off (pend @ [v])"
    using le by (simp add: w(1))
  moreover have "map sf_inode (spool_files (write_active (line_of v) fs)) = map sf_inode (spool_files fs)"
    using w(1,2) by (metis (no_types, lifting) map_append list.map spool_file.select_convs(2) spool_file.surjective spool_file.update_convs(3))
  ultimately show ?thesis using assms(1) k(1) by (auto simp: writer_at_iff w(3,4))
qed

lemma writer_append:
  assumes "writer_at cr (sp_files sp) pos pend" and "recordable cr v" and "os_sane os (sp_files sp)"
    and "whole_write os (line_of v)" and "append_event os v sp = (r, sp')"
  shows "writer_at cr (sp_files sp') pos (if recorded os sp v then pend @ [v] else pend)"
proof -
  let ?l = "line_of v" and ?fs = "sp_files sp"
  define sealed where "sealed = (if must_rotate (sp_max sp) ?l ?fs then seal_active (os_stamp os) ?fs else ?fs)"
  have line: "event_line v = Some ?l" using event_line_shape [OF assms(2)] by auto
  have files: "sp_files sp' = snd (write_line os (sp_max sp) ?l ?fs)"
    using assms(5) by (cases "write_line os (sp_max sp) ?l ?fs") (auto simp: append_event_def line split: bool.splits)
  have s1: "writer_at cr sealed pos pend"
    using assms(1,3) by (auto simp: sealed_def os_sane_def intro: writer_seal)
  have "sf_inode ` set sealed = sf_inode ` set ?fs"
    using seal_listed(4) [where fs = ?fs and t = "os_stamp os"] assms(1,3)
    by (auto simp: sealed_def os_sane_def writer_at_def simp flip: set_map)
  then have "\<forall>f \<in> set sealed. sf_inode f \<noteq> os_inode os"
    using assms(3) by (metis (no_types, lifting) image_iff os_sane_def)
  then have s2: "writer_at cr (ensure_active (os_inode os) sealed) pos pend" by (rule writer_ensure [OF s1])
  have "active_file (ensure_active (os_inode os) sealed) \<noteq> None"
    by (auto simp: ensure_active_def active_file_def find_None_iff file_active_def)
  then have s3: "writer_at cr (write_active ?l (ensure_active (os_inode os) sealed)) pos (pend @ [v])"
    by (rule writer_write [OF s2 _ assms(2)])
  show ?thesis
    using assms(1,4) s1 s2 s3 unfolding sealed_def
    by (cases "must_rotate (sp_max sp) ?l ?fs"; cases "os_written os")
      (auto simp: files write_line_def Let_def recorded_def whole_write_def)
qed

subsection \<open>Unlinking\<close>

lemma writer_unlink:
  assumes "writer_at cr fs pos pend" and "D \<subseteq> drained_names fs pos"
  shows "writer_at cr (filter (\<lambda>f. sf_name f \<notin> D) fs) pos pend"
proof (cases "D = {}")
  case False
  then obtain n where n: "n \<in> drained_names fs pos" using assms(2) by blast
  then obtain A B off where d: "spool_files fs = A @ B" "B \<noteq> []" "pos = Some (sf_inode (hd B), off)"
    by (auto simp: drained_names_def)
  have dist: "distinct (map sf_inode (A @ B))" "distinct (map sf_name (A @ B))"
    using assms(1) distinct_listed [of sf_inode fs] distinct_listed [of sf_name fs] by (auto simp: writer_at_def d(1))
  have only: "A' = A \<and> B' = B" if "A @ B = A' @ B'" "B' \<noteq> []" "sf_inode (hd B') = sf_inode (hd B)" for A' B'
  proof -
    have "resume pos (A @ B) = (length A, off)" by (rule resume_at) (use dist d in \<open>auto simp: at_position_def\<close>)
    moreover have "resume pos (A' @ B') = (length A', off)"
      by (rule resume_at) (use dist d that in \<open>auto simp: at_position_def\<close>)
    ultimately show ?thesis using that(1) by (metis append_eq_append_conv fst_conv)
  qed
  have D: "D \<subseteq> sf_name ` set A"
  proof
    fix m assume "m \<in> D"
    with assms(2) have "m \<in> drained_names fs pos" by blast
    then obtain A' B' off' where m: "spool_files fs = A' @ B'" "B' \<noteq> []" "pos = Some (sf_inode (hd B'), off')"
        "m \<in> sf_name ` set A'"
      unfolding drained_names_def by blast
    have "A @ B = A' @ B'" "sf_inode (hd B') = sf_inode (hd B)"
      using trans [OF sym [OF d(1)] m(1)] d(3) m(3) by simp_all
    then have "A' = A" using only [OF _ m(2)] by blast
    with m(4) show "m \<in> sf_name ` set A" by simp
  qed
  obtain A' B' off' where w: "spool_files fs = A' @ B'" "at_position pos A' B' off'" "unread cr (map sf_data B') off' pend"
    using assms(1) by (auto simp: writer_at_def)
  then have "B' \<noteq> []" "sf_inode (hd B') = sf_inode (hd B)" using d(3) by (auto simp: at_position_def)
  then have same: "A' = A" "B' = B" using only [OF trans [OF sym [OF d(1)] w(1)]] by blast+
  have "filter (\<lambda>f. sf_name f \<notin> D) B = B"
    using dist(2) D by (intro filter_True) (auto simp: image_iff)
  then have l: "spool_files (filter (\<lambda>f. sf_name f \<notin> D) fs) = filter (\<lambda>f. sf_name f \<notin> D) A @ B"
    by (simp add: filter_listed d(1))
  show ?thesis
    unfolding writer_at_def
  proof (intro conjI exI)
    show "spool_files (filter (\<lambda>f. sf_name f \<notin> D) fs) = filter (\<lambda>f. sf_name f \<notin> D) A @ B" by (rule l)
    show "at_position pos (filter (\<lambda>f. sf_name f \<notin> D) A) B off'" using w(2) same d(2,3) by (auto simp: at_position_def)
    show "unread cr (map sf_data B) off' pend" using w(3) same by simp
  qed (use assms(1) in \<open>auto simp: writer_at_def intro: distinct_map_filter\<close>)
qed (use assms(1) in simp)

end
