(* ===== verification/Evidence_Runs.thy ===== *)
theory Evidence_Runs
  imports Evidence_Facts
begin

text \<open>
  Every run of the writers and of the control plane keeps \<open>evidence_ok\<close>: the log of each writer is
  what was stored of it followed by what is still unread, and nothing else is stored, as long as no fault is on
  the account of the run.
\<close>

subsection \<open>All writers\<close>

definition writers_taken ::
  "crypto \<Rightarrow> spool_dirs \<Rightarrow> cursor \<Rightarrow> (pystr \<Rightarrow> json list) \<Rightarrow> nat \<Rightarrow> (pystr \<Rightarrow> nat) \<Rightarrow> json list \<Rightarrow> cursor \<Rightarrow>
   (pystr \<times> file_name) list \<Rightarrow> bool" where
  "writers_taken cr ws cur pend b k evs cur' gone \<longleftrightarrow>
     evs = concat (map (\<lambda>(w, fs). take (k w) (pend w)) ws) \<and>
     (\<forall>(w, fs) \<in> set ws. writer_at cr fs (map_of cur' w) (drop (k w) (pend w)) \<and>
        {n. (w, n) \<in> set gone} \<subseteq> drained_names fs (map_of cur' w)) \<and>
     (\<forall>w. w \<notin> fst ` set ws \<longrightarrow> map_of cur' w = map_of cur w \<and> (\<forall>n. (w, n) \<notin> set gone)) \<and>
     (sum_list (map (\<lambda>(w, fs). length (bytes_of (pend w))) ws) < b \<longrightarrow> (\<forall>w \<in> fst ` set ws. length (pend w) \<le> k w))"

lemma writers_taken_cong:
  "(\<And>w. w \<in> fst ` set ws \<Longrightarrow> k w = k' w) \<Longrightarrow>
   writers_taken cr ws cur pend b k evs cur' gone \<longleftrightarrow> writers_taken cr ws cur pend b k' evs cur' gone"
proof -
  assume same: "\<And>w. w \<in> fst ` set ws \<Longrightarrow> k w = k' w"
  have eq: "k w = k' w" if "(w, fs) \<in> set ws" for w fs using that by (intro same) force
  then have "map (\<lambda>(w, fs). take (k w) (pend w)) ws = map (\<lambda>(w, fs). take (k' w) (pend w)) ws"
    by auto
  moreover have "(\<forall>(w, fs) \<in> set ws. writer_at cr fs (map_of cur' w) (drop (k w) (pend w)) \<and>
        {n. (w, n) \<in> set gone} \<subseteq> drained_names fs (map_of cur' w)) \<longleftrightarrow>
      (\<forall>(w, fs) \<in> set ws. writer_at cr fs (map_of cur' w) (drop (k' w) (pend w)) \<and>
        {n. (w, n) \<in> set gone} \<subseteq> drained_names fs (map_of cur' w))"
    using eq by fastforce
  moreover have "(\<forall>w \<in> fst ` set ws. length (pend w) \<le> k w) \<longleftrightarrow> (\<forall>w \<in> fst ` set ws. length (pend w) \<le> k' w)"
    using same by auto
  ultimately show ?thesis unfolding writers_taken_def by (simp only:)
qed

lemma empty_dir: "writer_at cr [] pos pend \<Longrightarrow> pos = None \<and> pend = []"
  by (auto simp: writer_at_def at_position_def unread_def spool_files_def)

lemma read_writers_takes:
  assumes "reads_utf8 cr"
  shows "distinct (map fst ws) \<Longrightarrow>
    \<forall>(w, fs) \<in> set ws. writer_at cr fs (map_of cur w) (pend w) \<and> map_of opened w = Some fs \<Longrightarrow>
    \<exists>k evs cur' gone. read_writers cr opened ws cur b = Inr (evs, cur', gone) \<and>
      writers_taken cr ws cur pend b k evs cur' gone"
proof (induction ws arbitrary: cur b)
  case Nil
  show ?case by (simp add: writers_taken_def)
next
  case (Cons p ws)
  obtain w fs where p: "p = (w, fs)" by fastforce
  have wa: "writer_at cr fs (map_of cur w) (pend w)" and op: "get_or opened w [] = fs"
    using Cons.prems(2) by (auto simp: p get_or_def)
  obtain n pos drained where r: "read_writer cr fs fs (map_of cur w) b =
      Inr (take n (pend w), pos, drained, b - length (bytes_of (take n (pend w))))"
    "case pos of None \<Rightarrow> fs = [] \<and> drained = [] | Some q \<Rightarrow> writer_at cr fs (Some q) (drop n (pend w))"
    "set drained \<subseteq> drained_names fs pos" "length (bytes_of (take n (pend w))) \<le> b"
    "length (bytes_of (pend w)) \<le> b \<longrightarrow> length (pend w) \<le> n"
    using read_writer_takes [OF assms wa, of b] by blast
  define cur1 where "cur1 = (case pos of None \<Rightarrow> cur | Some q \<Rightarrow> dset w q cur)"
  have other: "map_of cur1 w' = map_of cur w'" if "w' \<noteq> w" for w'
    using that by (simp add: cur1_def split: option.splits)
  have here: "writer_at cr fs (map_of cur1 w) (drop n (pend w)) \<and> set drained \<subseteq> drained_names fs (map_of cur1 w)"
    using r(2,3) wa empty_dir [of cr "map_of cur w" "pend w"]
    by (cases pos) (auto simp: cur1_def)
  show ?case
  proof (cases "b - length (bytes_of (take n (pend w))) = 0")
    case True
    then have "read_writers cr opened (p # ws) cur b = Inr (take n (pend w), cur1, map (Pair w) drained)"
      by (simp add: p op r(1) cur1_def)
    moreover have "writers_taken cr (p # ws) cur pend b (\<lambda>w'. if w' = w then n else 0)
        (take n (pend w)) cur1 (map (Pair w) drained)"
    proof -
      have *: "w' \<noteq> w" "writer_at cr fs' (map_of cur1 w') (pend w')" if "(w', fs') \<in> set ws" for w' fs'
        using Cons.prems that other by (auto simp: p image_iff split: prod.splits)
      have "concat (map (\<lambda>(w', fs). take (if w' = w then n else 0) (pend w')) ws) = []" using *(1) by fastforce
      moreover have "\<not> length (bytes_of (pend w)) < b"
      proof
        assume lt: "length (bytes_of (pend w)) < b"
        then have "take n (pend w) = pend w" using r(5) by simp
        with lt True show False by simp
      qed
      moreover have "take n (pend w) = concat (map (\<lambda>(w', fs). take (if w' = w then n else 0) (pend w')) (p # ws))"
        using calculation(1) by (simp add: p)
      ultimately show ?thesis
        unfolding writers_taken_def using here * other by (auto simp: p)
    qed
    ultimately show ?thesis by blast
  next
    case False
    let ?b = "b - length (bytes_of (take n (pend w)))"
    have prems: "distinct (map fst ws)" "\<forall>(w', fs') \<in> set ws. writer_at cr fs' (map_of cur1 w') (pend w') \<and> map_of opened w' = Some fs'"
      and fresh: "w \<notin> fst ` set ws"
      using Cons.prems other by (auto simp: p image_iff split: prod.splits)
    obtain k evs cur' gone where ih: "read_writers cr opened ws cur1 ?b = Inr (evs, cur', gone)"
      "writers_taken cr ws cur1 pend ?b k evs cur' gone"
      using Cons.IH [OF prems] by blast
    have "read_writers cr opened (p # ws) cur b =
        Inr (take n (pend w) @ evs, cur', map (Pair w) drained @ gone)"
      using False ih(1) by (simp add: p op r(1) cur1_def)
    moreover have "writers_taken cr (p # ws) cur pend b (k(w := n)) (take n (pend w) @ evs) cur'
        (map (Pair w) drained @ gone)"
    proof -
      have t: "writers_taken cr ws cur1 pend ?b (k(w := n)) evs cur' gone"
        using ih(2) fresh by (subst writers_taken_cong [where k' = k]) auto
      note t = t [unfolded writers_taken_def]
      have w: "map_of cur' w = map_of cur1 w" "\<forall>m. (w, m) \<notin> set gone" using t fresh by auto
      show ?thesis
        unfolding writers_taken_def
      proof (intro conjI)
        show "take n (pend w) @ evs = concat (map (\<lambda>(w', fs). take ((k(w := n)) w') (pend w')) (p # ws))"
          using t by (simp add: p)
        show "\<forall>(w', fs') \<in> set (p # ws). writer_at cr fs' (map_of cur' w') (drop ((k(w := n)) w') (pend w')) \<and>
            {m. (w', m) \<in> set (map (Pair w) drained @ gone)} \<subseteq> drained_names fs' (map_of cur' w')"
        proof (clarify, rule conjI)
          fix w' fs' assume m: "(w', fs') \<in> set (p # ws)"
          show "writer_at cr fs' (map_of cur' w') (drop ((k(w := n)) w') (pend w'))"
            using m t here w fresh by (auto simp: p)
          show "{m. (w', m) \<in> set (map (Pair w) drained @ gone)} \<subseteq> drained_names fs' (map_of cur' w')"
            using m t here w fresh by (auto simp: p image_iff)
        qed
        show "\<forall>w'. w' \<notin> fst ` set (p # ws) \<longrightarrow> map_of cur' w' = map_of cur w' \<and>
            (\<forall>m. (w', m) \<notin> set (map (Pair w) drained @ gone))"
          using t other by (auto simp: p)
        show "sum_list (map (\<lambda>(w, fs). length (bytes_of (pend w))) (p # ws)) < b \<longrightarrow>
            (\<forall>w' \<in> fst ` set (p # ws). length (pend w') \<le> (k(w := n)) w')"
        proof
          assume lt: "sum_list (map (\<lambda>(w, fs). length (bytes_of (pend w))) (p # ws)) < b"
          then have "length (pend w) \<le> n" using r(5) by (simp add: p)
          moreover from this have "take n (pend w) = pend w" by simp
          then have "sum_list (map (\<lambda>(w, fs). length (bytes_of (pend w))) ws) < ?b" using lt by (simp add: p)
          ultimately show "\<forall>w' \<in> fst ` set (p # ws). length (pend w') \<le> (k(w := n)) w'"
            using t by (auto simp: p)
        qed
      qed
    qed
    ultimately show ?thesis by blast
  qed
qed

subsection \<open>The invariant of a run\<close>

definition log_kept :: "crypto \<Rightarrow> (pystr \<times> json) list \<Rightarrow> (pystr, spool) dict \<Rightarrow> cursor \<Rightarrow> json list \<Rightarrow> (pystr \<Rightarrow> nat) \<Rightarrow> bool" where
  "log_kept cr lg sps cur stored cnt \<longleftrightarrow> distinct (map fst sps) \<and>
     (\<forall>w sp. (w, sp) \<in> set sps \<longrightarrow> writer_at cr (sp_files sp) (map_of cur w) (drop (cnt w) (events_of w lg))) \<and>
     (\<forall>w. w \<notin> fst ` set sps \<longrightarrow> events_of w lg = [] \<and> map_of cur w = None) \<and>
     (\<forall>w. cnt w \<le> length (events_of w lg) \<and> subseq (take (cnt w) (events_of w lg)) stored) \<and>
     mset stored + (\<Sum>w \<in> fst ` set sps. mset (drop (cnt w) (events_of w lg))) = mset (map snd lg)"

definition evidence_ok :: "crypto \<Rightarrow> (pystr \<times> json) list \<Rightarrow> evidence_state \<Rightarrow> bool" where
  "evidence_ok cr lg s \<longleftrightarrow>
     (\<exists>cnt. log_kept cr lg (ev_spools s) (stored_cursor (ev_store s)) (stored_events s) cnt)"

lemma events_of_snoc [simp]:
  "events_of w (lg @ [(w', v)]) = events_of w lg @ (if w' = w then [v] else [])"
  by (simp add: events_of_def)

lemma new_writer: "writer_at cr [] None []"
  by (simp add: writer_at_def spool_files_def at_position_def unread_def)

lemma dset_members:
  "distinct (map fst d) \<Longrightarrow> (w', x) \<in> set (dset w v d) \<longleftrightarrow> (if w' = w then x = v else (w', x) \<in> set d)"
  using map_of_eq_Some_iff [of "dset w v d" w' x] map_of_eq_Some_iff [of d w' x] by auto

lemma dset_keys: "fst ` set (dset w v d) = insert w (fst ` set d)"
  using set_dkeys_dset [of w v d] by simp

text \<open>A step of one writer: what is unread grows by what is logged.\<close>

lemma writer_step:
  assumes "log_kept cr lg sps cur stored cnt"
    and "writer_at cr (sp_files sp') (map_of cur w) (drop (cnt w) (events_of w lg) @ new)"
    and "lg' = lg @ map (Pair w) new" and "length new \<le> 1"
  shows "log_kept cr lg' (dset w sp' sps) cur stored cnt"
proof -
  have d: "distinct (map fst sps)" using assms(1) by (simp add: log_kept_def)
  have ev: "events_of w' lg' = events_of w' lg @ (if w' = w then new else [])" for w'
    using assms(4) by (cases new) (auto simp: assms(3))
  have le: "cnt w' \<le> length (events_of w' lg)" for w' using assms(1) by (simp add: log_kept_def)
  let ?f = "\<lambda>w'. mset (drop (cnt w') (events_of w' lg))"
  have f': "mset (drop (cnt w') (events_of w' lg')) = ?f w' + (if w' = w then mset new else {#})" for w'
    using le [of w'] by (simp add: ev)
  have zero: "?f w = {#}" if "w \<notin> fst ` set sps" using assms(1) that by (simp add: log_kept_def)
  have "(\<Sum>w' \<in> insert w (fst ` set sps). mset (drop (cnt w') (events_of w' lg'))) =
      (\<Sum>w' \<in> insert w (fst ` set sps). ?f w') + mset new"
    by (simp only: f' sum.distrib sum.delta finite_insert finite_imageI finite_set) simp
  also have "(\<Sum>w' \<in> insert w (fst ` set sps). ?f w') = (\<Sum>w' \<in> fst ` set sps. ?f w')"
    using zero by (cases "w \<in> fst ` set sps") (simp_all add: insert_absorb)
  finally have sum: "(\<Sum>w' \<in> insert w (fst ` set sps). mset (drop (cnt w') (events_of w' lg'))) =
      (\<Sum>w' \<in> fst ` set sps. ?f w') + mset new" .
  have total: "mset stored + ((\<Sum>w' \<in> fst ` set sps. ?f w') + mset new) = mset (map snd lg')"
    using assms(1) by (simp add: log_kept_def assms(3) comp_def)
  show ?thesis
    unfolding log_kept_def dset_keys sum
  proof (intro conjI allI impI)
    show "distinct (map fst (dset w sp' sps))" using d by simp
    show "writer_at cr (sp_files sp1) (map_of cur w1) (drop (cnt w1) (events_of w1 lg'))"
      if "(w1, sp1) \<in> set (dset w sp' sps)" for w1 sp1
      using that assms(1,2) le [of w1] by (cases "w1 = w") (auto simp: dset_members [OF d] ev log_kept_def)
    show "events_of w1 lg' = []" "map_of cur w1 = None" if "w1 \<notin> insert w (fst ` set sps)" for w1
      using that assms(1) by (auto simp: ev log_kept_def)
    show "cnt w1 \<le> length (events_of w1 lg')" "subseq (take (cnt w1) (events_of w1 lg')) stored" for w1
      using assms(1) le [of w1] by (auto simp: ev log_kept_def intro: trans_le_add1)
    show "mset stored + ((\<Sum>w' \<in> fst ` set sps. ?f w') + mset new) = mset (map snd lg')" by (rule total)
  qed
qed

text \<open>Unlinking files that are drained.\<close>

definition without :: "(pystr \<times> file_name) set \<Rightarrow> pystr \<times> spool \<Rightarrow> pystr \<times> spool" where
  "without D = (\<lambda>(w, sp). (w, sp\<lparr>sp_files := filter (\<lambda>f. (w, sf_name f) \<notin> D) (sp_files sp)\<rparr>))"

lemma without_empty: "without {} p = p"
  by (cases p) (simp add: without_def)

lemma without_without: "without A (without B p) = without (B \<union> A) p"
  by (cases p) (simp add: without_def conj_commute)

lemma unlink_file_eq: "unlink_file d s = s\<lparr>ev_spools := map (without {d}) (ev_spools s)\<rparr>"
proof -
  have fl: "filter (\<lambda>f. (w, sf_name f) \<noteq> d) fs = (if w = fst d then filter (\<lambda>f. sf_name f \<noteq> snd d) fs else fs)" for w fs
    by (cases d) (auto intro: filter_cong)
  then have "(\<lambda>(w, sp). (w, if w = fst d then sp\<lparr>sp_files := filter (\<lambda>f. sf_name f \<noteq> snd d) (sp_files sp)\<rparr> else sp)) =
      without {d}"
    by (auto simp: without_def fun_eq_iff fl)
  then show ?thesis by (simp add: unlink_file_def)
qed

lemma fold_unlink: "fold unlink_file ds s = s\<lparr>ev_spools := map (without (set ds)) (ev_spools s)\<rparr>"
proof (induction ds arbitrary: s)
  case Nil
  show ?case by (simp add: without_empty)
next
  case (Cons d ds)
  have "fold unlink_file (d # ds) s = fold unlink_file ds (unlink_file d s)" by simp
  also have "\<dots> = s\<lparr>ev_spools := map (without (set ds)) (map (without {d}) (ev_spools s))\<rparr>"
    by (simp add: Cons.IH unlink_file_eq)
  finally show ?case by (simp add: without_without)
qed

lemma unlink_kept:
  assumes "log_kept cr lg sps cur stored cnt"
    and "\<forall>w sp. (w, sp) \<in> set sps \<longrightarrow> {n. (w, n) \<in> D} \<subseteq> drained_names (sp_files sp) (map_of cur w)"
  shows "log_kept cr lg (map (without D) sps) cur stored cnt"
proof -
  have keys: "map fst (map (without D) sps) = map fst sps" by (simp add: without_def comp_def case_prod_beta)
  then have keys': "fst ` set (map (without D) sps) = fst ` set sps" by (metis set_map)
  have "writer_at cr (sp_files sp') (map_of cur w) (drop (cnt w) (events_of w lg))"
    if m: "(w, sp') \<in> set (map (without D) sps)" for w sp'
  proof -
    obtain sp where sp: "(w, sp) \<in> set sps" "sp' = sp\<lparr>sp_files := filter (\<lambda>f. (w, sf_name f) \<notin> D) (sp_files sp)\<rparr>"
      using m by (auto simp: without_def)
    then have "writer_at cr (sp_files sp) (map_of cur w) (drop (cnt w) (events_of w lg))"
      using assms(1) by (auto simp: log_kept_def)
    from writer_unlink [OF this, of "{n. (w, n) \<in> D}"] show ?thesis using assms(2) sp by simp
  qed
  then show ?thesis using assms(1) unfolding log_kept_def keys keys' by blast
qed

subsection \<open>Ingestion\<close>

lemma insert_events_run:
  "\<exists>c'. insert_events evs c = (Inr (), c') \<and> map snd (co_events c') = map snd (co_events c) @ evs \<and>
     co_settings c' = co_settings c"
proof (induction evs arbitrary: c)
  case (Cons v evs)
  obtain c1 where c1: "insert_event v c = (Inr (co_next_event c), c1)"
    "map snd (co_events c1) = map snd (co_events c) @ [v]" "co_settings c1 = co_settings c"
    by (simp add: insert_event_def)
  with Cons [of c1] show ?case by (auto simp: seq_Inr)
qed simp

lemma ingest_cases:
  assumes "ingest cr env limit opened s = (r, s')"
  obtains e where "r = Inl e" "s' = s"
      "\<not> cn_db_ok env \<or> read_pending cr (spool_dirs_of s) opened (stored_cursor (ev_store s)) limit = Inl e"
    | evs cur' gone where "cn_db_ok env" "read_pending cr (spool_dirs_of s) opened (stored_cursor (ev_store s)) limit = Inr (evs, cur', gone)"
      "evs = []" "cur' = stored_cursor (ev_store s)" "r = Inr (0, [])" "s' = s"
    | evs cur' gone where "cn_db_ok env" "read_pending cr (spool_dirs_of s) opened (stored_cursor (ev_store s)) limit = Inr (evs, cur', gone)"
      "r = Inr (length evs, gone)" "ev_spools s' = ev_spools s" "stored_events s' = stored_events s @ evs"
      "stored_cursor (ev_store s') = cur'"
proof (cases "cn_db_ok env")
  case False
  then have "r = Inl Failure" "s' = s"
    using assms by (auto simp: ingest_def on_store_def get_setting_def connect_def seq_def)
  then show thesis using that(1) False by blast
next
  case True
  define cur where "cur = stored_cursor (ev_store s)"
  have saved: "json_cursor (case map_of (co_settings (ev_store s)) cursor_key of None \<Rightarrow> JObj [] | Some v \<Rightarrow> v) = cur"
    by (simp add: cur_def stored_cursor_def get_or_def)
  have eq: "ingest cr env limit opened s =
      (case read_pending cr (spool_dirs_of s) opened cur limit of
         Inl e \<Rightarrow> (Inl e, s)
       | Inr (evs, cur', gone) \<Rightarrow>
           if evs = [] \<and> cur' = cur then (Inr (0, []), s)
           else (case ingest_events env evs (cursor_json cur') (ev_store s) of
             (Inl e, st) \<Rightarrow> (Inl e, s\<lparr>ev_store := st\<rparr>) | (Inr _, st) \<Rightarrow> (Inr (length evs, gone), s\<lparr>ev_store := st\<rparr>)))"
    using True by (auto simp: ingest_def on_store_def get_setting_def connect_def seq_app saved Let_def split: sum.splits prod.splits)
  show thesis
  proof (cases "read_pending cr (spool_dirs_of s) opened cur limit")
    case (Inl e)
    then show thesis using assms eq that(1) [of e] by (simp add: cur_def)
  next
    case (Inr t)
    obtain evs cur' gone where t: "t = (evs, cur', gone)" by (cases t) auto
    show thesis
    proof (cases "evs = [] \<and> cur' = cur")
      case True2: True
      then show thesis using assms eq Inr t that(2) [OF True, of evs cur' gone] by (simp add: cur_def)
    next
      case False
      obtain c' where c': "insert_events evs (ev_store s) = (Inr (), c')"
        "map snd (co_events c') = map snd (co_events (ev_store s)) @ evs"
        using insert_events_run by blast
      let ?st = "c'\<lparr>co_settings := dset cursor_key (cursor_json cur') (co_settings c')\<rparr>"
      have "ingest_events env evs (cursor_json cur') (ev_store s) = (Inr (), ?st)"
        using True c'(1) by (simp add: ingest_events_def connect_def seq_app cursor_key_def)
      then have "r = Inr (length evs, gone)" "s' = s\<lparr>ev_store := ?st\<rparr>"
        using assms eq False Inr t by auto
      then show thesis using that(3) [OF True, of evs cur' gone] Inr t c'(2)
        by (simp add: cur_def stored_events_def stored_cursor_def get_or_def)
    qed
  qed
qed

lemma members_distinct_map_of: "distinct (map fst d) \<Longrightarrow> (w, x) \<in> set d \<longleftrightarrow> map_of d w = Some x"
  by simp

lemma spool_dirs_keys [simp]: "map fst (spool_dirs_of s) = map fst (ev_spools s)"
  by (simp add: spool_dirs_of_def comp_def case_prod_beta)

lemma set_spool_dirs: "(w, fs) \<in> set (spool_dirs_of s) \<longleftrightarrow> (\<exists>sp. (w, sp) \<in> set (ev_spools s) \<and> fs = sp_files sp)"
  by (auto simp: spool_dirs_of_def)

lemma mset_concat_map:
  assumes "distinct (map fst ws)"
  shows "mset (concat (map (\<lambda>(w, fs). g w) ws)) = (\<Sum>w \<in> fst ` set ws. mset (g w))"
  using assms
proof (induction ws)
  case (Cons p ws)
  then show ?case by (cases p) simp
qed simp

lemma subseq_concat_map: "(w, fs) \<in> set ws \<Longrightarrow> subseq (g w) (concat (map (\<lambda>(w, fs). g w) ws))"
  by (induction ws) (auto intro: list_emb_append2 subseq_order.trans)

text \<open>What \<open>read_pending\<close> returns in a state that keeps the log.\<close>

definition all_read :: "(pystr \<times> json) list \<Rightarrow> (pystr, spool) dict \<Rightarrow> (pystr \<Rightarrow> nat) \<Rightarrow> bool" where
  "all_read lg sps cnt \<longleftrightarrow> (\<forall>w \<in> fst ` set sps. length (events_of w lg) \<le> cnt w)"

definition pending_bytes :: "(pystr \<times> json) list \<Rightarrow> evidence_state \<Rightarrow> (pystr \<Rightarrow> nat) \<Rightarrow> nat" where
  "pending_bytes lg s cnt =
     sum_list (map (\<lambda>(w, fs). length (bytes_of (drop (cnt w) (events_of w lg)))) (spool_dirs_of s))"

definition may_unlink :: "(pystr, spool) dict \<Rightarrow> cursor \<Rightarrow> (pystr \<times> file_name) list \<Rightarrow> bool" where
  "may_unlink sps cur gone \<longleftrightarrow>
     (\<forall>w sp. (w, sp) \<in> set sps \<longrightarrow> {n. (w, n) \<in> set gone} \<subseteq> drained_names (sp_files sp) (map_of cur w))"

lemma read_pending_takes:
  assumes "reads_utf8 cr" and "log_kept cr lg (ev_spools s) cur stored cnt"
  shows "\<exists>cnt' evs cur' gone. read_pending cr (spool_dirs_of s) (spool_dirs_of s) cur limit = Inr (evs, cur', gone) \<and>
    log_kept cr lg (ev_spools s) cur' (stored @ evs) cnt' \<and> may_unlink (ev_spools s) cur' gone \<and>
    (pending_bytes lg s cnt < limit \<longrightarrow> all_read lg (ev_spools s) cnt')"
proof -
  define pend where "pend w = drop (cnt w) (events_of w lg)" for w
  let ?ws = "sort_pairs (spool_dirs_of s)"
  have d: "distinct (map fst (ev_spools s))" using assms(2) by (simp add: log_kept_def)
  have dw: "distinct (map fst ?ws)" by (simp add: d)
  have keys: "fst ` set ?ws = fst ` set (ev_spools s)"
    by (metis set_sort_pairs set_map spool_dirs_keys)
  have mem: "(w, fs) \<in> set ?ws \<longleftrightarrow> (\<exists>sp. (w, sp) \<in> set (ev_spools s) \<and> fs = sp_files sp)" for w fs
    by (simp add: set_spool_dirs)
  have "distinct (map fst (spool_dirs_of s))" by (simp add: d)
  then have "map_of (spool_dirs_of s) w = Some fs" if "(w, fs) \<in> set ?ws" for w fs
    using that by simp
  moreover have "writer_at cr fs (map_of cur w) (pend w)" if "(w, fs) \<in> set ?ws" for w fs
    using that assms(2) by (auto simp: set_spool_dirs log_kept_def pend_def)
  ultimately obtain k evs cur' gone where r: "read_writers cr (spool_dirs_of s) ?ws cur limit = Inr (evs, cur', gone)"
    "writers_taken cr ?ws cur pend limit k evs cur' gone"
    using read_writers_takes [OF assms(1) dw, of cur pend "spool_dirs_of s" limit] by blast
  note t = r(2) [unfolded writers_taken_def]
  define cnt' where "cnt' w = cnt w + min (k w) (length (pend w))" for w
  have le: "cnt w \<le> length (events_of w lg)" for w using assms(2) by (simp add: log_kept_def)
  have drop': "drop (cnt' w) (events_of w lg) = drop (k w) (pend w)" for w
    by (cases "k w \<le> length (pend w)") (auto simp: cnt'_def pend_def add.commute min_def)
  have take': "take (cnt' w) (events_of w lg) = take (cnt w) (events_of w lg) @ take (k w) (pend w)" for w
    by (simp add: cnt'_def pend_def take_add min_def)
  have evs: "evs = concat (map (\<lambda>(w, fs). take (k w) (pend w)) ?ws)" using t by blast
  have kept: "log_kept cr lg (ev_spools s) cur' (stored @ evs) cnt'"
    unfolding log_kept_def
  proof (intro conjI allI impI)
    show "distinct (map fst (ev_spools s))" by (rule d)
    show "writer_at cr (sp_files sp) (map_of cur' w) (drop (cnt' w) (events_of w lg))"
      if "(w, sp) \<in> set (ev_spools s)" for w sp
      unfolding drop' using t mem [of w "sp_files sp"] that by blast
    show "events_of w lg = []" "map_of cur' w = None" if "w \<notin> fst ` set (ev_spools s)" for w
    proof -
      have "map_of cur' w = map_of cur w" using t that unfolding keys by blast
      then show "events_of w lg = []" "map_of cur' w = None" using that assms(2) unfolding log_kept_def by auto
    qed
    show "cnt' w \<le> length (events_of w lg)" for w using le [of w] by (simp add: cnt'_def pend_def)
    show "subseq (take (cnt' w) (events_of w lg)) (stored @ evs)" for w
    proof -
      have "subseq (take (cnt w) (events_of w lg)) stored" using assms(2) by (simp add: log_kept_def)
      moreover have "subseq (take (k w) (pend w)) evs"
      proof (cases "w \<in> fst ` set (ev_spools s)")
        case True
        then obtain sp where "(w, sp) \<in> set (ev_spools s)" by auto
        then have "(w, sp_files sp) \<in> set ?ws" using mem by blast
        then show ?thesis unfolding evs by (rule subseq_concat_map)
      next
        case False
        then show ?thesis using assms(2) by (simp add: log_kept_def pend_def)
      qed
      ultimately show ?thesis unfolding take' by (rule list_emb_append_mono)
    qed
    have "mset evs = (\<Sum>w \<in> fst ` set (ev_spools s). mset (take (k w) (pend w)))"
      unfolding evs mset_concat_map [OF dw] keys ..
    then have "mset evs + (\<Sum>w \<in> fst ` set (ev_spools s). mset (drop (k w) (pend w))) =
        (\<Sum>w \<in> fst ` set (ev_spools s). mset (pend w))"
      by (simp only: sum.distrib [symmetric] mset_append [symmetric] append_take_drop_id)
    then show "mset (stored @ evs) + (\<Sum>w \<in> fst ` set (ev_spools s). mset (drop (cnt' w) (events_of w lg))) = mset (map snd lg)"
      using assms(2) unfolding drop' by (simp add: log_kept_def pend_def add.assoc)
  qed
  have gone: "may_unlink (ev_spools s) cur' gone"
    unfolding may_unlink_def
  proof (intro allI impI)
    fix w sp assume "(w, sp) \<in> set (ev_spools s)"
    then have "(w, sp_files sp) \<in> set ?ws" using mem by blast
    then show "{n. (w, n) \<in> set gone} \<subseteq> drained_names (sp_files sp) (map_of cur' w)" using t by blast
  qed
  have "sum_list (map (\<lambda>(w, fs). length (bytes_of (pend w))) ?ws) = pending_bytes lg s cnt"
    by (simp add: pending_bytes_def pend_def sort_pairs_mset flip: sum_mset_sum_list)
  then have "\<forall>w \<in> fst ` set (ev_spools s). length (pend w) \<le> k w" if "pending_bytes lg s cnt < limit"
    using t that unfolding keys by simp
  then have "pending_bytes lg s cnt < limit \<longrightarrow> all_read lg (ev_spools s) cnt'"
    using le by (simp add: all_read_def cnt'_def min_absorb2) (simp add: pend_def)
  moreover have "read_pending cr (spool_dirs_of s) (spool_dirs_of s) cur limit = Inr (evs, cur', gone)"
    unfolding read_pending_def by (rule r(1))
  ultimately show ?thesis using kept gone by blast
qed

lemma evidence_okI:
  "log_kept cr lg (ev_spools s) (stored_cursor (ev_store s)) (stored_events s) cnt \<Longrightarrow> evidence_ok cr lg s"
  unfolding evidence_ok_def by blast

lemma ingest_keeps:
  assumes "evidence_ok cr lg s" and "reads_utf8 cr" and "ingest cr env limit (spool_dirs_of s) s = (r, s')"
  shows "evidence_ok cr lg (fold unlink_file (take m (case r of Inl _ \<Rightarrow> [] | Inr (n, drained) \<Rightarrow> drained)) s')"
proof -
  obtain cnt where k: "log_kept cr lg (ev_spools s) (stored_cursor (ev_store s)) (stored_events s) cnt"
    using assms(1) by (auto simp: evidence_ok_def)
  show ?thesis
  using assms(3)
  proof (cases rule: ingest_cases)
    case (3 evs cur' gone)
    obtain cnt' where k': "log_kept cr lg (ev_spools s) cur' (stored_events s @ evs) cnt'" "may_unlink (ev_spools s) cur' gone"
      using read_pending_takes [OF assms(2) k, of limit] unfolding 3(2) by blast
    have "log_kept cr lg (map (without (set (take m gone))) (ev_spools s)) cur' (stored_events s @ evs) cnt'"
      by (rule unlink_kept [OF k'(1)]) (use k'(2) in \<open>unfold may_unlink_def, blast dest: in_set_takeD\<close>)
    then show ?thesis
      unfolding evidence_ok_def fold_unlink using 3 by (auto simp: stored_events_def)
  qed (use assms(1) in simp_all)
qed

theorem run_evidence_ok:
  assumes "evidence_run cr limit fl lg s" and "reads_utf8 cr" and "fl = []"
  shows "evidence_ok cr lg s"
  using assms(1,3)
proof induction
  case (run_start c)
  then have "log_kept cr [] [] [] [] (\<lambda>w. 0)" by (simp add: log_kept_def events_of_def)
  then show ?case
    using run_start by (auto simp: evidence_ok_def stored_events_def stored_cursor_def get_or_def)
next
  case (run_open fl lg s w mx)
  then obtain cnt where k: "log_kept cr lg (ev_spools s) (stored_cursor (ev_store s)) (stored_events s) cnt"
    by (auto simp: evidence_ok_def)
  have "writer_at cr (files_of w s) (map_of (stored_cursor (ev_store s)) w) (drop (cnt w) (events_of w lg) @ [])"
  proof (cases "map_of (ev_spools s) w")
    case None
    then have "w \<notin> fst ` set (ev_spools s)" by (simp add: map_of_eq_None_iff)
    then show ?thesis using k None by (simp add: log_kept_def files_of_def new_writer)
  next
    case (Some sp)
    then show ?thesis using k by (auto simp: log_kept_def files_of_def dest: map_of_SomeD)
  qed
  then have "log_kept cr (lg @ map (Pair w) []) (dset w (new_spool (files_of w s) mx) (ev_spools s))
      (stored_cursor (ev_store s)) (stored_events s) cnt"
    by (intro writer_step [OF k]) (auto simp: new_spool_def)
  then show ?case by (intro evidence_okI) (simp add: stored_events_def)
next
  case (run_append fl lg s w sp v os r sp')
  then obtain cnt where k: "log_kept cr lg (ev_spools s) (stored_cursor (ev_store s)) (stored_events s) cnt"
    by (auto simp: evidence_ok_def)
  define new where "new = (if recorded os sp v then [v] else [])"
  have "writer_at cr (sp_files sp) (map_of (stored_cursor (ev_store s)) w) (drop (cnt w) (events_of w lg))"
    using k run_append.hyps(2) by (auto simp: log_kept_def dest: map_of_SomeD)
  moreover have "os_sane os (sp_files sp)" "whole_write os (line_of v)"
    using run_append.prems by (auto simp: append_faults_def split: if_splits)
  note writer_append [OF calculation run_append.hyps(3) this run_append.hyps(4)]
  then
  have "writer_at cr (sp_files sp') (map_of (stored_cursor (ev_store s)) w) (drop (cnt w) (events_of w lg) @ new)"
    by (simp add: new_def split: if_splits)
  then have "log_kept cr (lg @ map (Pair w) new) (dset w sp' (ev_spools s))
      (stored_cursor (ev_store s)) (stored_events s) cnt"
    by (intro writer_step [OF k]) (auto simp: new_def)
  moreover have "lg @ map (Pair w) new = (if recorded os sp v then lg @ [(w, v)] else lg)" by (simp add: new_def)
  ultimately show ?case by (intro evidence_okI) (simp add: stored_events_def)
next
  case (run_probe fl lg s w sp works r sp')
  then obtain cnt where k: "log_kept cr lg (ev_spools s) (stored_cursor (ev_store s)) (stored_events s) cnt"
    by (auto simp: evidence_ok_def)
  have "writer_at cr (sp_files sp') (map_of (stored_cursor (ev_store s)) w) (drop (cnt w) (events_of w lg) @ [])"
    using k run_probe.hyps(2,3) by (auto simp: log_kept_def probe_def dest: map_of_SomeD)
  then have "log_kept cr (lg @ map (Pair w) []) (dset w sp' (ev_spools s)) (stored_cursor (ev_store s)) (stored_events s) cnt"
    by (intro writer_step [OF k]) auto
  then show ?case by (intro evidence_okI) (simp add: stored_events_def)
next
  case (run_ingest fl lg s env opened r s' k)
  then have "opened = spool_dirs_of s" by (auto simp: ingest_faults_def split: if_splits)
  then show ?case using run_ingest by (intro ingest_keeps [OF _ assms(2)]) auto
qed

subsection \<open>Catching up\<close>

lemma unread_length:
  assumes "writer_at cr fs pos pend"
  shows "unread_bytes pos fs = length (bytes_of pend)"
proof -
  obtain A B off where w: "distinct (map sf_inode (spool_files fs))" "spool_files fs = A @ B" "at_position pos A B off"
      "unread cr (map sf_data B) off pend"
    using assms distinct_listed [of sf_inode fs] by (auto simp: writer_at_def)
  have len: "length (bytes_of (concat ess)) = sum_list (map length ds)" if "list_all2 (lines_in cr) ds ess" for ds ess
    using that by induction (auto simp: lines_in_def)
  have "sum_list (map length (map sf_data B)) = off + length (bytes_of pend)"
    using w(4) len by (auto simp: unread_def list_all2_Cons2 lines_in_def)
  moreover have "resume pos (spool_files fs) = (length A, off)" using resume_at w(1,3) by (simp only: w(2))
  ultimately show ?thesis by (simp add: unread_bytes_def w(2) comp_def)
qed

text \<open>With less than the read budget unread, one ingestion that reaches the store stores everything.\<close>

lemma ingest_catches_up:
  assumes "evidence_ok cr lg s" and "reads_utf8 cr" and "backlog s < limit" and "cn_db_ok env"
  shows "\<exists>out s'. ingest cr env limit (spool_dirs_of s) s = (Inr out, s') \<and>
    mset (stored_events s') = mset (map snd lg) \<and> (\<forall>w. subseq (events_of w lg) (stored_events s'))"
proof -
  obtain cnt where k: "log_kept cr lg (ev_spools s) (stored_cursor (ev_store s)) (stored_events s) cnt"
    using assms(1) by (auto simp: evidence_ok_def)
  have "unread_bytes (map_of (stored_cursor (ev_store s)) w) fs = length (bytes_of (drop (cnt w) (events_of w lg)))"
    if "(w, fs) \<in> set (spool_dirs_of s)" for w fs
    using that k by (auto simp: set_spool_dirs log_kept_def intro!: unread_length)
  then have "map (\<lambda>(w, fs). unread_bytes (map_of (stored_cursor (ev_store s)) w) fs) (spool_dirs_of s) =
      map (\<lambda>(w, fs). length (bytes_of (drop (cnt w) (events_of w lg)))) (spool_dirs_of s)" by auto
  then have small: "pending_bytes lg s cnt < limit"
    using assms(3) by (simp only: backlog_def pending_bytes_def)
  obtain cnt' evs cur' gone where r: "read_pending cr (spool_dirs_of s) (spool_dirs_of s) (stored_cursor (ev_store s)) limit =
      Inr (evs, cur', gone)" "log_kept cr lg (ev_spools s) cur' (stored_events s @ evs) cnt'"
    "all_read lg (ev_spools s) cnt'"
    using read_pending_takes [OF assms(2) k, of limit] small by blast
  have all: "length (events_of w lg) \<le> cnt' w" for w
    using r(2,3) by (cases "w \<in> fst ` set (ev_spools s)") (auto simp: log_kept_def all_read_def)
  from r(2) have stored: "mset (stored_events s @ evs) = mset (map snd lg)"
    "\<forall>w. subseq (events_of w lg) (stored_events s @ evs)"
    using all by (simp_all add: log_kept_def)
  obtain r' s' where i: "ingest cr env limit (spool_dirs_of s) s = (r', s')" by fastforce
  from i show ?thesis
  proof (cases rule: ingest_cases)
    case (1 e)
    then show ?thesis using assms(4) r(1) by simp
  next
    case 2
    then show ?thesis using r(1) stored i by auto
  next
    case 3
    then show ?thesis using r(1) stored i by auto
  qed
qed

subsection \<open>The log by writer\<close>

lemma events_of_cons [simp]: "events_of w ((w', v) # lg) = (if w' = w then [v] else []) @ events_of w lg"
  by (simp add: events_of_def)

lemma mset_log:
  assumes "finite W" and "fst ` set lg \<subseteq> W"
  shows "mset (map snd lg) = (\<Sum>w \<in> W. mset (events_of w lg))"
  using assms(2)
proof (induction lg)
  case Nil
  show ?case by (simp add: events_of_def)
next
  case (Cons p lg)
  obtain w v where p: "p = (w, v)" by fastforce
  have "mset (events_of w' (p # lg)) = (if w' = w then {#v#} else {#}) + mset (events_of w' lg)" for w'
    by (simp add: p)
  then show ?case
    using Cons assms(1) by (simp add: p sum.distrib sum.delta')
qed

lemma stored_prefixes:
  assumes "log_kept cr lg sps cur stored cnt"
  shows "mset stored = (\<Sum>w \<in> fst ` set lg. mset (take (cnt w) (events_of w lg)))"
proof -
  let ?W = "fst ` set sps"
  have none: "events_of w lg = []" if "w \<notin> ?W" for w using assms that by (simp add: log_kept_def)
  have sub: "fst ` set lg \<subseteq> ?W"
  proof
    fix w assume "w \<in> fst ` set lg"
    then have "events_of w lg \<noteq> []" by (auto simp: events_of_def filter_empty_conv)
    with none show "w \<in> ?W" by blast
  qed
  have "mset stored + (\<Sum>w \<in> ?W. mset (drop (cnt w) (events_of w lg))) = (\<Sum>w \<in> ?W. mset (events_of w lg))"
    using assms mset_log [OF _ sub] by (simp add: log_kept_def)
  also have "\<dots> = (\<Sum>w \<in> ?W. mset (take (cnt w) (events_of w lg))) + (\<Sum>w \<in> ?W. mset (drop (cnt w) (events_of w lg)))"
    by (simp only: sum.distrib [symmetric] mset_append [symmetric] append_take_drop_id)
  finally have "mset stored = (\<Sum>w \<in> ?W. mset (take (cnt w) (events_of w lg)))" by simp
  also have "\<dots> = (\<Sum>w \<in> fst ` set lg. mset (take (cnt w) (events_of w lg)))"
  proof (rule sum.mono_neutral_right)
    have "events_of w lg = []" if "w \<notin> fst ` set lg" for w
      using that by (force simp: events_of_def filter_empty_conv)
    then show "\<forall>w \<in> ?W - fst ` set lg. mset (take (cnt w) (events_of w lg)) = {#}" by simp
  qed (use sub in simp_all)
  finally show ?thesis .
qed

end
