(* ===== verification/Evidence_Properties.thy ===== *)
theory Evidence_Properties
  imports Evidence_Runs
begin

text \<open>
  The property of the evidence path, with a run of one writer through a rotation as its witness, and
  what happens outside its hypotheses: a reader overtaken by a rotation, a clock that stepped back, and a short write.
\<close>


subsection \<open>A run\<close>

definition demo_reader :: crypto where
  "demo_reader = \<lparr>sha256 = (\<lambda>_. []), hmac_sha256 = (\<lambda>_ _. []), json_text = utf8_decode,
     crypto_json = \<lparr>float_repr = id, nest_limit = 10\<rparr>\<rparr>"

lemma demo_reader_ok: "reads_utf8 demo_reader"
  using decode_encode by (auto simp: reads_utf8_def demo_reader_def)

abbreviation gateway_writer :: pystr where
  "gateway_writer \<equiv> [103]"

definition os_answers :: "nat \<Rightarrow> nat \<Rightarrow> nat option \<Rightarrow> spool_os" where
  "os_answers stamp inode written =
     \<lparr>os_stamp = stamp, os_inode = inode, os_stat_ok = True, os_replace_ok = True, os_open_ok = True,
      os_written = written, os_fsync_ok = True\<rparr>"

definition empty_console :: console where
  "empty_console = \<lparr>co_account = \<lparr>ac_username = [], ac_salt = [], ac_password_hash = [], ac_changed = False\<rparr>,
     co_sessions = [], co_attempts = [], co_settings = [], co_events = [], co_next_event = 1, co_audit = []\<rparr>"

definition empty_line :: bytes where
  "empty_line = [123, 125, 10]"

lemma printable_10 [simp]: "printable je 10 (JObj ps) \<longleftrightarrow> distinct (map fst ps) \<and> list_all (\<lambda>(k, v). printable je 9 v) ps"
  using printable.simps(6) [of je 9 ps] by simp

lemma empty_line_facts: "recordable demo_reader (JObj [])" "line_of (JObj []) = empty_line" "event_line (JObj []) = Some empty_line"
proof -
  have "utf8_encode (dumps False (JObj [])) = Some [123, 125]"
    by (simp add: utf8_encode_def is_scalar_def is_surrogate_def utf8_char_def)
  then show "recordable demo_reader (JObj [])" "line_of (JObj []) = empty_line" "event_line (JObj []) = Some empty_line"
    by (simp_all add: recordable_def line_of_def event_line_def empty_line_def demo_reader_def)
qed

text \<open>Two events under a limit of four bytes: the second one seals the first file.\<close>

definition demo_evidence :: evidence_state where
  "demo_evidence = \<lparr>ev_spools = [(gateway_writer,
       \<lparr>sp_files = [\<lparr>sf_name = Sealed 7, sf_inode = 1, sf_data = empty_line\<rparr>,
                    \<lparr>sf_name = Active, sf_inode = 2, sf_data = empty_line\<rparr>],
        sp_max = 4, sp_healthy = True, sp_failures = 0\<rparr>)],
     ev_store = empty_console\<rparr>"

definition demo_log :: "(pystr \<times> json) list" where
  "demo_log = [(gateway_writer, JObj []), (gateway_writer, JObj [])]"

lemma demo_evidence_run: "evidence_run demo_reader 100 [] demo_log demo_evidence"
proof -
  define w where "w = gateway_writer"
  let ?e = "\<lambda>sp. \<lparr>ev_spools = [(w, sp)], ev_store = empty_console\<rparr>"
  let ?sp = "\<lambda>fs. \<lparr>sp_files = fs, sp_max = 4, sp_healthy = True, sp_failures = 0\<rparr>"
  let ?f1 = "\<lparr>sf_name = Active, sf_inode = 1, sf_data = empty_line\<rparr>"
  let ?f2 = "\<lparr>sf_name = Active, sf_inode = 2, sf_data = empty_line\<rparr>"
  have "evidence_run demo_reader 100 [] [] \<lparr>ev_spools = [], ev_store = empty_console\<rparr>"
    by (rule run_start) (simp_all add: empty_console_def)
  from run_open [OF this, of w 4] have r0: "evidence_run demo_reader 100 [] [] (?e (?sp []))"
    by (simp add: new_spool_def files_of_def)
  have "append_event (os_answers 5 1 (Some 3)) (JObj []) (?sp []) = (Inr (), ?sp [?f1])"
    by (simp add: append_event_def empty_line_facts write_line_def must_rotate_def active_file_def os_answers_def
        ensure_active_def write_active_def file_active_def Let_def empty_line_def)
  from run_append [where w = w, OF r0 _ empty_line_facts(1) this]
  have r1: "evidence_run demo_reader 100 [] [(w, JObj [])] (?e (?sp [?f1]))"
    by (simp add: append_faults_def os_sane_def whole_write_def os_answers_def recorded_def empty_line_facts must_rotate_def
        active_file_def empty_line_def)
  have "append_event (os_answers 7 2 (Some 3)) (JObj []) (?sp [?f1]) =
      (Inr (), ?sp [?f1\<lparr>sf_name := Sealed 7\<rparr>, ?f2])"
    by (simp add: append_event_def empty_line_facts write_line_def must_rotate_def active_file_def os_answers_def
        ensure_active_def write_active_def seal_active_def file_active_def Let_def empty_line_def)
  from run_append [where w = w, OF r1 _ empty_line_facts(1) this]
  have "evidence_run demo_reader 100 [] ([(w, JObj [])] @ [(w, JObj [])]) (?e (?sp [?f1\<lparr>sf_name := Sealed 7\<rparr>, ?f2]))"
    by (simp add: append_faults_def os_sane_def whole_write_def os_answers_def recorded_def empty_line_facts must_rotate_def
        active_file_def file_active_def empty_line_def)
  then show ?thesis by (simp add: demo_log_def demo_evidence_def w_def)
qed

lemma demo_backlog: "backlog demo_evidence = 6"
  by (simp add: backlog_def spool_dirs_of_def demo_evidence_def unread_bytes_def resume_def spool_files_def file_active_def
      stored_cursor_def empty_console_def get_or_def empty_line_def)


subsection \<open>Outside the hypotheses\<close>

definition other_event :: json where
  "other_event = JObj [([97], JNull)]"

definition other_line :: bytes where
  "other_line = [123, 34, 97, 34, 58, 110, 117, 108, 108, 125, 10]"

lemma other_line_facts: "recordable demo_reader other_event" "line_of other_event = other_line"
proof -
  have "utf8_encode (dumps False other_event) = Some (butlast other_line)"
    by (simp add: other_event_def other_line_def utf8_encode_def is_scalar_def is_surrogate_def utf8_char_def
        dump_string_def escape_char_def uni_def)
  then show "recordable demo_reader other_event" "line_of other_event = other_line"
    by (simp_all add: recordable_def line_of_def event_line_def other_line_def)
      (simp add: other_event_def demo_reader_def)
qed

lemma demo_lines:
  "line_values demo_reader (byte_lines empty_line) = Inr [JObj []]"
  "line_values demo_reader (byte_lines other_line) = Inr [other_event]"
  using lines_values [OF demo_reader_ok, of "[JObj []]"] lines_values [OF demo_reader_ok, of "[other_event]"]
    empty_line_facts(1,2) other_line_facts by simp_all

text \<open>A rotation between the listing and the opening: the reader books the new file's event under the
  old file's inode.  The old event is never read, and the next reading delivers the new one again.\<close>

lemma overtaken_reader:
  fixes old sealed new :: spool_file
  defines "old \<equiv> \<lparr>sf_name = Active, sf_inode = 1, sf_data = empty_line\<rparr>"
    and "sealed \<equiv> \<lparr>sf_name = Sealed 7, sf_inode = 1, sf_data = empty_line\<rparr>"
    and "new \<equiv> \<lparr>sf_name = Active, sf_inode = 2, sf_data = other_line\<rparr>"
  shows "read_pending demo_reader [(w, [old])] [(w, [sealed, new])] [] 100 =
      Inr ([other_event], [(w, (1, 11))], [])"
    and "read_pending demo_reader [(w, [sealed, new])] [(w, [sealed, new])] [(w, (1, 11))] 100 =
      Inr ([other_event], [(w, (2, 11))], [(w, Sealed 7)])"
proof -
  have l: "length empty_line = 3" "length other_line = 11" "line_end other_line = 11" "line_end [] = 0"
    by (simp_all add: empty_line_def other_line_def line_end_def)
  have t: "take 100 other_line = other_line" "drop 11 empty_line = []" "take 11 other_line = other_line"
    using l(1,2) by simp_all
  show "read_pending demo_reader [(w, [old])] [(w, [sealed, new])] [] 100 =
      Inr ([other_event], [(w, (1, 11))], [])"
    by (simp add: read_pending_def sort_pairs_def read_writer_def spool_files_def file_active_def old_def sealed_def new_def
        resume_def get_or_def Let_def l t demo_lines)
  show "read_pending demo_reader [(w, [sealed, new])] [(w, [sealed, new])] [(w, (1, 11))] 100 =
      Inr ([other_event], [(w, (2, 11))], [(w, Sealed 7)])"
    by (simp add: read_pending_def sort_pairs_def read_writer_def spool_files_def file_active_def sealed_def new_def
        resume_def get_or_def Let_def l t demo_lines)
qed

text \<open>The clock stepped back when the second file was sealed: it is listed before the file that the reader is
  at, taken as committed earlier and handed over to be unlinked, and its event is never read.\<close>

lemma stale_stamp_unlinks:
  fixes first second active :: spool_file
  defines "first \<equiv> \<lparr>sf_name = Sealed 9, sf_inode = 1, sf_data = empty_line\<rparr>"
    and "second \<equiv> \<lparr>sf_name = Sealed 7, sf_inode = 2, sf_data = other_line\<rparr>"
    and "active \<equiv> \<lparr>sf_name = Active, sf_inode = 3, sf_data = empty_line\<rparr>"
  shows "read_pending demo_reader [(w, [first, second, active])] [(w, [first, second, active])] [(w, (1, 3))] 100 =
      Inr ([JObj []], [(w, (3, 3))], [(w, Sealed 7), (w, Sealed 9)])"
proof -
  have l: "length empty_line = 3" "length other_line = 11" "line_end empty_line = 3" "line_end [] = 0"
    by (simp_all add: empty_line_def other_line_def line_end_def)
  have t: "take 100 empty_line = empty_line" "drop 3 empty_line = []" "take 3 empty_line = empty_line"
    using l(1) by simp_all
  show ?thesis
    by (simp add: read_pending_def sort_pairs_def read_writer_def spool_files_def file_active_def first_def second_def active_def
        resume_def get_or_def Let_def l t demo_lines)
qed

text \<open>A short write leaves half a line: the next event, written and acknowledged, is unreadable.\<close>

lemma short_write_swallows:
  assumes "append_event (os_answers 5 1 (Some 1)) (JObj []) (new_spool [] 100) = (r1, s1)"
    and "append_event (os_answers 6 2 (Some 3)) (JObj []) s1 = (r2, s2)"
  shows "r1 = Inl Os_error" "r2 = Inr ()"
    "sp_files s2 = [\<lparr>sf_name = Active, sf_inode = 1, sf_data = 123 # empty_line\<rparr>]"
  using assms
  by (auto simp: append_event_def empty_line_facts write_line_def must_rotate_def active_file_def os_answers_def new_spool_def
      ensure_active_def write_active_def file_active_def Let_def empty_line_def)

end
