(* ===== verification/Policy_Config.thy ===== *)
theory Policy_Config
  imports Deployment
begin

text \<open>
  The operator's policy (\<open>Policy\<close> of \<open>console/scenarios.py\<close>) and how it is compiled with the
  deployment into the configuration of the engine (\<open>inspection_config\<close> and \<open>seed_policy\<close> of
  \<open>selfhost/runtime.py\<close>).

  pydantic's conversion of a JSON value to \<open>int\<close> is a parameter (\<open>as_int\<close>); an unknown key is
  refused, a missing one takes its default.
\<close>

subsection \<open>The policy\<close>

record policy =
  po_version :: int
  po_mode :: inspection_mode
  po_pii_action :: pii_choice
  po_rules :: "(pystr, rule_effect) dict"
  po_pii_rules :: "(pystr, pii_choice option) dict"  \<comment> \<open>\<open>None\<close>: inherit\<close>

definition default_policy :: policy where
  "default_policy = \<lparr>po_version = 1, po_mode = Inline, po_pii_action = Redact_pii,
     po_rules = [(uni ''notes.read'', Allow_rule), (uni ''notes.delete'', Block_rule), (uni ''infra.deploy'', Allow_rule)],
     po_pii_rules = [(uni ''notes.read'', None), (uni ''notes.delete'', None), (uni ''infra.deploy'', None)]\<rparr>"

fun mode_name :: "inspection_mode \<Rightarrow> pystr" where
  "mode_name Inline = uni ''inline''"
| "mode_name Mirror = uni ''mirror''"

fun pii_name :: "pii_choice \<Rightarrow> pystr" where
  "pii_name Redact_pii = uni ''redact''"
| "pii_name Block_pii = uni ''block''"

fun effect_name :: "rule_effect \<Rightarrow> pystr" where
  "effect_name Allow_rule = uni ''allow''"
| "effect_name Block_rule = uni ''block''"

definition pii_rule_name :: "pii_choice option \<Rightarrow> pystr" where
  "pii_rule_name r = (case r of None \<Rightarrow> uni ''inherit'' | Some c \<Rightarrow> pii_name c)"

text \<open>\<open>model_dump\<close>.\<close>

definition str_dict :: "('a \<Rightarrow> pystr) \<Rightarrow> (pystr, 'a) dict \<Rightarrow> json" where
  "str_dict f d = JObj (map (\<lambda>(k, v). (k, JStr (f v))) d)"

definition policy_json :: "policy \<Rightarrow> json" where
  "policy_json p = JObj
     [(uni ''version'', JInt (po_version p)), (uni ''mode'', JStr (mode_name (po_mode p))),
      (uni ''pii_action'', JStr (pii_name (po_pii_action p))),
      (uni ''rules'', str_dict effect_name (po_rules p)),
      (uni ''pii_rules'', str_dict pii_rule_name (po_pii_rules p))]"

text \<open>\<open>model_validate\<close>.  A literal is the one string it names.\<close>

definition literal :: "('a \<times> pystr) list \<Rightarrow> json \<Rightarrow> 'a option" where
  "literal vs j = (case j of JStr s \<Rightarrow> map_of (map (\<lambda>(a, b). (b, a)) vs) s | _ \<Rightarrow> None)"

fun literal_dict :: "(json \<Rightarrow> 'a option) \<Rightarrow> json \<Rightarrow> (pystr, 'a) dict option" where
  "literal_dict f (JObj ps) = those (map (\<lambda>(k, v). map_option (Pair k) (f v)) ps)"
| "literal_dict f _ = None"

definition mode_literal :: "json \<Rightarrow> inspection_mode option" where
  "mode_literal = literal [(Inline, mode_name Inline), (Mirror, mode_name Mirror)]"

definition pii_literal :: "json \<Rightarrow> pii_choice option" where
  "pii_literal = literal [(Redact_pii, pii_name Redact_pii), (Block_pii, pii_name Block_pii)]"

definition effect_literal :: "json \<Rightarrow> rule_effect option" where
  "effect_literal = literal [(Allow_rule, effect_name Allow_rule), (Block_rule, effect_name Block_rule)]"

definition pii_rule_literal :: "json \<Rightarrow> pii_choice option option" where
  "pii_rule_literal = literal [(None, uni ''inherit''), (Some Redact_pii, uni ''redact''), (Some Block_pii, uni ''block'')]"

definition field_or :: "json \<Rightarrow> string \<Rightarrow> 'a \<Rightarrow> (json \<Rightarrow> 'a option) \<Rightarrow> 'a option" where
  "field_or j k dflt f = (case obj_get j (uni k) of None \<Rightarrow> Some dflt | Some v \<Rightarrow> f v)"

definition policy_fields :: "pystr list" where
  "policy_fields = [uni ''version'', uni ''mode'', uni ''pii_action'', uni ''rules'', uni ''pii_rules'']"

definition policy_ok :: "policy \<Rightarrow> bool" where
  "policy_ok p \<longleftrightarrow> 1 \<le> po_version p"

definition read_policy :: "(json \<Rightarrow> int option) \<Rightarrow> json \<Rightarrow> policy option" where
  "read_policy as_int j =
     (case (field_or j ''version'' 1 as_int, field_or j ''mode'' Inline mode_literal,
            field_or j ''pii_action'' Redact_pii pii_literal,
            field_or j ''rules'' (po_rules default_policy) (literal_dict effect_literal),
            field_or j ''pii_rules'' (po_pii_rules default_policy) (literal_dict pii_rule_literal)) of
        (Some v, Some m, Some a, Some r, Some pr) \<Rightarrow>
          Some \<lparr>po_version = v, po_mode = m, po_pii_action = a, po_rules = r, po_pii_rules = pr\<rparr>
      | _ \<Rightarrow> None)"

definition validate_policy :: "(json \<Rightarrow> int option) \<Rightarrow> json \<Rightarrow> policy result" where
  "validate_policy as_int j =
     (case j of
        JObj ps \<Rightarrow>
          if \<not> set (map fst ps) \<subseteq> set policy_fields then Inl (Value_error ''validation'')
          else (case read_policy as_int j of
                  None \<Rightarrow> Inl (Value_error ''validation'')
                | Some p \<Rightarrow> if policy_ok p then Inr p else Inl (Value_error ''validation''))
      | _ \<Rightarrow> Inl (Value_error ''validation''))"

subsection \<open>Compilation\<close>

definition switched :: "policy \<Rightarrow> pystr \<Rightarrow> tool_rule \<Rightarrow> tool_rule result" where
  "switched p key rule =
     (case (map_of (po_rules p) key, map_of (po_pii_rules p) key) of
        (Some eff, Some pii) \<Rightarrow> Inr (rule\<lparr>tr_effect := eff, tr_pii_action := pii\<rparr>)
      | _ \<Rightarrow> Inl Key_error)"

fun switch_tools :: "policy \<Rightarrow> nat \<Rightarrow> (pystr, tool_rule) dict \<Rightarrow> (pystr, tool_rule) dict result" where
  "switch_tools p n [] = Inr []"
| "switch_tools p n ((name, rule) # ts) =
     rbind (switched p (dec_nat n @ uni '':'' @ name) rule) (\<lambda>rule'.
     rbind (switch_tools p n ts) (\<lambda>ts'. Inr ((name, rule') # ts')))"

text \<open>A route that is not MCP has one rule; \<open>None\<close> has no attribute to assign.\<close>

definition switch_route :: "policy \<Rightarrow> nat \<Rightarrow> route_rule \<Rightarrow> route_rule result" where
  "switch_route p n r =
     (if rr_protocol r = Mcp then
        rbind (switch_tools p n (rr_tools r)) (\<lambda>ts. Inr (r\<lparr>rr_tools := ts\<rparr>))
      else (case rr_rule r of
              None \<Rightarrow> Inl Failure
            | Some rule \<Rightarrow> rbind (switched p (dec_nat n @ uni '':'' @ rr_tool r) rule) (\<lambda>rule'.
                Inr (r\<lparr>rr_rule := Some rule'\<rparr>))))"

fun switch_routes :: "policy \<Rightarrow> nat \<Rightarrow> route_rule list \<Rightarrow> route_rule list result" where
  "switch_routes p n [] = Inr []"
| "switch_routes p n (r # rs) =
     rbind (switch_route p n r) (\<lambda>r'. rbind (switch_routes p (Suc n) rs) (\<lambda>rs'. Inr (r' # rs')))"

definition entry_keys :: "deployment \<Rightarrow> pystr list" where
  "entry_keys d = map fst (deployment_entries d)"

definition same_keys :: "deployment \<Rightarrow> policy \<Rightarrow> bool" where
  "same_keys d p \<longleftrightarrow> set (map fst (po_rules p)) = set (entry_keys d) \<and> set (map fst (po_pii_rules p)) = set (entry_keys d)"

definition credential_header_list :: "deployment \<Rightarrow> pystr list" where
  "credential_header_list d =
     (if ta_mode (dp_target_auth d) = Static_api_key
      then (case ta_header (dp_target_auth d) of None \<Rightarrow> [] | Some h \<Rightarrow> [h]) else [])"

text \<open>The fields that are not given keep the defaults of \<open>InspectionConfig\<close>.\<close>

definition inspection_config_of :: "deployment \<Rightarrow> policy \<Rightarrow> pystr \<Rightarrow> inspection_config result" where
  "inspection_config_of d p dir =
     (if \<not> same_keys d p then
        Inl (Value_error ''Route mappings changed. Migrate the saved policy explicitly before startup.'')
      else rbind (switch_routes p 0 (dp_routes d)) (\<lambda>routes.
        let c = \<lparr>ic_access_broker_enabled = ab_enabled (dp_access_broker d),
              ic_trusted_sources = [uni ''selfhost-adapter''], ic_routes = routes,
              ic_allowed_egress_origins = [], ic_credential_headers = credential_header_list d,
              ic_max_body_bytes = dp_max_body_bytes d, ic_max_json_depth = 32,
              ic_pii_action = po_pii_action p, ic_pii_min_score = 7 / 20,
              ic_attestation_max_age_seconds = 60,
              ic_nonce_db = dir @ uni ''/nonces.sqlite'', ic_broker_store = dir @ uni ''/broker.json'',
              ic_audit_path = dir @ uni ''/inspection.jsonl''\<rparr> in
        if inspection_config_ok c then Inr c else Inl (Value_error ''validation'')))"

text \<open>\<open>seed_policy\<close>: the first policy takes every effect from the deployment.\<close>

definition seeded_policy :: "deployment \<Rightarrow> policy result" where
  "seeded_policy d =
     (if list_ex (\<lambda>(k, n, rule). rule = None) (deployment_entries d) then Inl Failure
      else Inr (default_policy
        \<lparr>po_rules := fold (\<lambda>(k, n, rule) acc. dset k (tr_effect (the rule)) acc) (deployment_entries d) [],
         po_pii_rules := fold (\<lambda>(k, n, rule) acc. dset k (tr_pii_action (the rule)) acc) (deployment_entries d) []\<rparr>))"

end
