(* ===== verification/Snapshot.thy ===== *)
theory Snapshot
  imports Policy_Config
begin

text \<open>
  \<open>selfhost/snapshot.py\<close>: signed policy snapshots, from the control plane's publisher to the data
  plane's loader, over one directory with a history file per revision and the current snapshot.

  Parameters (\<open>snapshot_env\<close>): Ed25519 (\<open>se_sign\<close> under the private key, \<open>se_verify\<close> under the
  public key the loader reads), SHA-256, what pydantic reads a deployment from (\<open>se_fields\<close>, after
  \<open>normalize_legacy_auth\<close>) and writes it as (\<open>se_dump\<close>), \<open>str\<close> of a JSON value and the decoding of
  bytes by \<open>json.loads\<close> (\<open>json_text\<close>).  Base64 is \<open>Py_Url\<close>'s.  A write is atomic: it replaces the
  file or raises and leaves it.
\<close>

record snapshot_env =
  se_crypto :: crypto
  se_url :: url_env
  se_as_int :: "json \<Rightarrow> int option"
  se_fields :: "json \<Rightarrow> deployment option"
  se_dump :: "deployment \<Rightarrow> json"
  se_sign :: "bytes \<Rightarrow> bytes"
  se_verify :: "bytes \<Rightarrow> bytes \<Rightarrow> bool"   \<comment> \<open>signature, message\<close>
  se_key_id :: pystr
  se_str :: "json \<Rightarrow> pystr"

definition MAX_SNAPSHOT_BYTES :: nat where
  "MAX_SNAPSHOT_BYTES = 4 * 1024 * 1024"

definition canonical :: "json \<Rightarrow> bytes result" where
  "canonical v = (case utf8_encode (dumps False (sort_keys v)) of None \<Rightarrow> Inl Unicode_error | Some b \<Rightarrow> Inr b)"

definition connection_digest :: "snapshot_env \<Rightarrow> deployment \<Rightarrow> pystr result" where
  "connection_digest env d = rbind (canonical (se_dump env d)) (\<lambda>b. Inr (sha256 (se_crypto env) b))"

definition b64encode :: "bytes \<Rightarrow> pystr" where
  "b64encode bs = (let g = b64_groups (map unat bs) in g @ replicate ((4 - length g mod 4) mod 4) 61)"

subsection \<open>The directory\<close>

record snapshot_dir =
  sd_history :: "(nat \<times> bytes) list"
  sd_current :: "bytes option"

text \<open>\<open>_latest\<close>: the highest revision in the history, 0 for none.\<close>

definition latest :: "snapshot_dir \<Rightarrow> nat" where
  "latest d = fold max (map fst (sd_history d)) 0"

definition json_bytes :: "crypto \<Rightarrow> bytes \<Rightarrow> json result" where
  "json_bytes cr b =
     (case json_text cr b of None \<Rightarrow> Inl Unicode_error | Some s \<Rightarrow> json_loads (crypto_json cr) False s)"

definition dict_item :: "json \<Rightarrow> string \<Rightarrow> json result" where
  "dict_item v k =
     (case v of JObj ps \<Rightarrow> (case map_of ps (uni k) of None \<Rightarrow> Inl Key_error | Some x \<Rightarrow> Inr x) | _ \<Rightarrow> Inl Type_error)"

text \<open>\<open>_current_payload\<close> reads the file as UTF-8 text: \<open>None\<close> when it is missing or malformed.\<close>

fun none_on_error :: "json result \<Rightarrow> json option result" where
  "none_on_error (Inr v) = Inr (Some v)"
| "none_on_error (Inl Recursion_error) = Inl Recursion_error"
| "none_on_error (Inl e) = Inr None"

definition current_payload :: "snapshot_env \<Rightarrow> snapshot_dir \<Rightarrow> json option result" where
  "current_payload env d =
     (case sd_current d of
        None \<Rightarrow> Inr None
      | Some b \<Rightarrow>
          (case utf8_decode b of
             None \<Rightarrow> Inr None
           | Some chars \<Rightarrow> none_on_error (rbind (json_loads (crypto_json (se_crypto env)) False chars)
               (\<lambda>v. dict_item v ''payload''))))"

text \<open>Equality of Python values built by \<open>json.loads\<close>: dictionaries compare without order.\<close>

definition same_value :: "json \<Rightarrow> json \<Rightarrow> bool" where
  "same_value a b \<longleftrightarrow> sort_keys a = sort_keys b"

definition falsy :: "json \<Rightarrow> bool" where
  "falsy v \<longleftrightarrow> v \<in> {JNull, JBool False, JInt 0, JStr [], JArr [], JObj []}"

subsection \<open>Publishing\<close>

text \<open>\<open>current and current.get(...) == ... and current.get(...) == ...\<close>; a payload that is no
  dictionary has no \<open>get\<close>.\<close>

definition unchanged :: "json option \<Rightarrow> pystr \<Rightarrow> json \<Rightarrow> bool result" where
  "unchanged current digest policy =
     (case current of
        None \<Rightarrow> Inr False
      | Some v \<Rightarrow>
          if falsy v then Inr False
          else if \<not> is_obj v then Inl Failure
          else Inr (obj_get v (uni ''connection_digest'') = Some (JStr digest) \<and>
                    (case obj_get v (uni ''policy'') of None \<Rightarrow> False | Some q \<Rightarrow> same_value q policy)))"

definition payload_of :: "snapshot_env \<Rightarrow> nat \<Rightarrow> pystr \<Rightarrow> pystr \<Rightarrow> deployment \<Rightarrow> policy \<Rightarrow> json" where
  "payload_of env revision digest created d p = JObj
     [(uni ''format'', JInt 1), (uni ''revision'', JInt (int revision)), (uni ''connection_digest'', JStr digest),
      (uni ''created_at'', JStr created), (uni ''key_id'', JStr (se_key_id env)),
      (uni ''deployment'', se_dump env d), (uni ''policy'', policy_json p)]"

definition envelope_of :: "snapshot_env \<Rightarrow> json \<Rightarrow> bytes result" where
  "envelope_of env payload =
     rbind (canonical payload) (\<lambda>b.
       canonical (JObj [(uni ''payload'', payload), (uni ''signature'', JStr (b64encode (se_sign env b)))]))"

definition write_history :: "nat \<Rightarrow> bytes \<Rightarrow> snapshot_dir \<Rightarrow> snapshot_dir" where
  "write_history revision b d = d\<lparr>sd_history := dset revision b (sd_history d)\<rparr>"

text \<open>\<open>ok1\<close> and \<open>ok2\<close>: the two writes; the process may also die after the first (\<open>ok2\<close> false).
  The result is the effective revision, as JSON when it is the one of the current file.\<close>

definition publish ::
  "snapshot_env \<Rightarrow> pystr \<Rightarrow> bool \<Rightarrow> bool \<Rightarrow> deployment \<Rightarrow> json \<Rightarrow> (snapshot_dir, json) act" where
  "publish env created ok1 ok2 d policy_value s =
     (case rbind (validate_policy (se_as_int env) policy_value) (\<lambda>p.
           rbind (connection_digest env d) (\<lambda>digest.
           rbind (current_payload env s) (\<lambda>current.
           rbind (unchanged current digest (policy_json p)) (\<lambda>same.
             if same then rbind (dict_item (the current) ''revision'') (\<lambda>r. Inr (Inl r))
             else
               let revision = latest s + 1 in
               rbind (envelope_of env (payload_of env revision digest created d p)) (\<lambda>b.
                 if MAX_SNAPSHOT_BYTES < length b then Inl (Value_error ''Policy snapshot is too large.'')
                 else Inr (Inr (revision, b))))))) of
        Inl e \<Rightarrow> (Inl e, s)
      | Inr (Inl r) \<Rightarrow> (Inr r, s)
      | Inr (Inr (revision, b)) \<Rightarrow>
          if \<not> ok1 then (Inl Os_error, s)
          else if \<not> ok2 then (Inl Os_error, write_history revision b s)
          else (Inr (JInt (int revision)), (write_history revision b s)\<lparr>sd_current := Some b\<rparr>))"

subsection \<open>Loading\<close>

record snapshot =
  sn_revision :: int
  sn_connection_digest :: pystr
  sn_deployment :: deployment
  sn_policy :: policy
  sn_created_at :: pystr
  sn_key_id :: pystr

datatype load_error = Snapshot_error string | Escaped exn

type_synonym 'a loaded = "load_error + 'a"

datatype file_read = File_missing | File_unreadable | File_bytes bytes

text \<open>\<open>except (ValueError, KeyError, TypeError)\<close>: a \<open>UnicodeError\<close> is a \<open>ValueError\<close>.\<close>

fun caught_as :: "string \<Rightarrow> 'a result \<Rightarrow> 'a loaded" where
  "caught_as code (Inr x) = Inr x"
| "caught_as code (Inl (Value_error m)) = Inl (Snapshot_error code)"
| "caught_as code (Inl Unicode_error) = Inl (Snapshot_error code)"
| "caught_as code (Inl (Inspection m)) = Inl (Snapshot_error code)"
| "caught_as code (Inl Key_error) = Inl (Snapshot_error code)"
| "caught_as code (Inl Type_error) = Inl (Snapshot_error code)"
| "caught_as code (Inl e) = Inl (Escaped e)"

definition decode_signature :: "json \<Rightarrow> bytes result" where
  "decode_signature v =
     (case v of
        JStr s \<Rightarrow> if \<not> is_ascii s then Inl (Value_error ''ascii'')
                  else (case b64decode s of None \<Rightarrow> Inl (Value_error ''base64'') | Some b \<Rightarrow> Inr b)
      | _ \<Rightarrow> Inl Type_error)"

definition open_envelope :: "snapshot_env \<Rightarrow> bytes \<Rightarrow> (json \<times> bytes) result" where
  "open_envelope env raw =
     rbind (json_bytes (se_crypto env) raw) (\<lambda>envelope.
     rbind (dict_item envelope ''payload'') (\<lambda>payload.
     rbind (dict_item envelope ''signature'') (\<lambda>sig.
     rbind (decode_signature sig) (\<lambda>b. Inr (payload, b)))))"

text \<open>\<open>value == 1\<close> in Python, and \<open>isinstance(value, int)\<close>: a \<open>bool\<close> is an \<open>int\<close>.\<close>

fun is_one :: "json \<Rightarrow> bool" where
  "is_one (JInt i) = (i = 1)"
| "is_one (JBool b) = b"
| "is_one (JFloat r) = (r = uni ''1.0'')"
| "is_one _ = False"

fun int_value :: "json \<Rightarrow> int option" where
  "int_value (JInt i) = Some i"
| "int_value (JBool b) = Some (if b then 1 else 0)"
| "int_value _ = None"

definition load_deployment :: "snapshot_env \<Rightarrow> json \<Rightarrow> deployment result" where
  "load_deployment env v =
     (case se_fields env v of None \<Rightarrow> Inl (Value_error ''validation'') | Some d \<Rightarrow> validate_deployment (se_url env) d)"

definition load_contents :: "snapshot_env \<Rightarrow> json \<Rightarrow> (int \<times> deployment \<times> policy) result" where
  "load_contents env payload =
     rbind (dict_item payload ''deployment'') (\<lambda>dv.
     rbind (load_deployment env dv) (\<lambda>d.
     rbind (dict_item payload ''policy'') (\<lambda>pv.
     rbind (validate_policy (se_as_int env) pv) (\<lambda>p.
     rbind (dict_item payload ''revision'') (\<lambda>rv.
       case int_value rv of
         Some r \<Rightarrow> if r < 1 then Inl (Value_error ''revision'') else Inr (r, d, p)
       | None \<Rightarrow> Inl (Value_error ''revision''))))))"

definition created_text :: "snapshot_env \<Rightarrow> json \<Rightarrow> pystr" where
  "created_text env payload =
     (case obj_get payload (uni ''created_at'') of None \<Rightarrow> [] | Some (JStr s) \<Rightarrow> s | Some v \<Rightarrow> se_str env v)"

definition escaping :: "'a result \<Rightarrow> 'a loaded" where
  "escaping r = (case r of Inl e \<Rightarrow> Inl (Escaped e) | Inr x \<Rightarrow> Inr x)"

text \<open>\<open>key_ok\<close>: the public key file holds an Ed25519 key.\<close>

definition check_signed_payload :: "snapshot_env \<Rightarrow> json \<Rightarrow> bytes \<Rightarrow> snapshot loaded" where
  "check_signed_payload env payload sig =
     rbind (rguard (is_obj payload) (Snapshot_error ''policy_snapshot_malformed'')) (\<lambda>_.
     rbind (escaping (canonical payload)) (\<lambda>msg.
     rbind (rguard (se_verify env sig msg) (Snapshot_error ''policy_snapshot_signature_invalid'')) (\<lambda>_.
     rbind (rguard (case obj_get payload (uni ''format'') of None \<Rightarrow> False | Some v \<Rightarrow> is_one v)
        (Snapshot_error ''policy_snapshot_format_unsupported'')) (\<lambda>_.
     rbind (caught_as ''policy_snapshot_invalid'' (load_contents env payload)) (\<lambda>(revision, d, p).
     rbind (escaping (connection_digest env d)) (\<lambda>digest.
     rbind (rguard (obj_get payload (uni ''connection_digest'') = Some (JStr digest))
        (Snapshot_error ''policy_snapshot_invalid'')) (\<lambda>_.
       Inr \<lparr>sn_revision = revision, sn_connection_digest = digest, sn_deployment = d, sn_policy = p,
         sn_created_at = created_text env payload, sn_key_id = se_key_id env\<rparr>)))))))"

definition read_snapshot :: "snapshot_env \<Rightarrow> bool \<Rightarrow> file_read \<Rightarrow> snapshot loaded" where
  "read_snapshot env key_ok file =
     (if \<not> key_ok then Inl (Snapshot_error ''policy_trust_key_unavailable'')
      else case file of
        File_missing \<Rightarrow> Inl (Snapshot_error ''policy_snapshot_missing'')
      | File_unreadable \<Rightarrow> Inl (Snapshot_error ''policy_snapshot_unreadable'')
      | File_bytes content \<Rightarrow>
          if MAX_SNAPSHOT_BYTES < length content then Inl (Snapshot_error ''policy_snapshot_too_large'')
          else rbind (caught_as ''policy_snapshot_malformed'' (open_envelope env content)) (\<lambda>(payload, sig).
            check_signed_payload env payload sig))"

definition current_file :: "snapshot_dir \<Rightarrow> file_read" where
  "current_file d = (case sd_current d of None \<Rightarrow> File_missing | Some b \<Rightarrow> File_bytes b)"

end
