(* ===== verification/Policy_Facts.thy ===== *)
theory Policy_Facts
  imports Policy_Config
begin

text \<open>
  What compiling a policy does to a deployment: every rule takes effect and PII action from the
  policy's entry of the same key, and nothing else of a route changes.  A policy survives its JSON form.
\<close>

subsection \<open>Compilation\<close>

definition decided :: "policy \<Rightarrow> pystr \<Rightarrow> tool_rule \<Rightarrow> tool_rule" where
  "decided p k rule =
     rule\<lparr>tr_effect := the (map_of (po_rules p) k), tr_pii_action := the (map_of (po_pii_rules p) k)\<rparr>"

definition decided_entry :: "policy \<Rightarrow> pystr \<times> pystr \<times> tool_rule option \<Rightarrow> pystr \<times> pystr \<times> tool_rule option" where
  "decided_entry p = (\<lambda>(k, name, rule). (k, name, map_option (decided p k) rule))"

definition without_rules :: "route_rule \<Rightarrow> route_rule" where
  "without_rules r = r\<lparr>rr_rule := None, rr_tools := []\<rparr>"

definition route_names :: "nat \<Rightarrow> route_rule \<Rightarrow> (pystr \<times> pystr \<times> tool_rule option) list" where
  "route_names n r = map (\<lambda>(name, rule). (dec_nat n @ uni '':'' @ name, name, rule))
     (if rr_protocol r = Mcp then map (\<lambda>(k, v). (k, Some v)) (rr_tools r) else [(rr_tool r, rr_rule r)])"

lemma entries_from_names: "entries_from n (r # rs) = route_names n r @ entries_from (Suc n) rs"
  by (simp add: route_names_def)

lemma switched_Inr: "switched p k rule = Inr rule' \<Longrightarrow> rule' = decided p k rule"
  by (auto simp: switched_def decided_def split: option.splits)

definition decides :: "policy \<Rightarrow> pystr \<Rightarrow> bool" where
  "decides p k \<longleftrightarrow> map_of (po_rules p) k \<noteq> None \<and> map_of (po_pii_rules p) k \<noteq> None"

lemma decides_iff: "decides p k \<longleftrightarrow> k \<in> fst ` set (po_rules p) \<and> k \<in> fst ` set (po_pii_rules p)"
  by (simp add: decides_def map_of_eq_None_iff)

lemma switched_total: "decides p k \<Longrightarrow> switched p k rule = Inr (decided p k rule)"
  by (auto simp: switched_def decided_def decides_def)

lemma switch_tools_Inr:
  "switch_tools p n ts = Inr ts' \<Longrightarrow> ts' = map (\<lambda>(name, rule). (name, decided p (dec_nat n @ uni '':'' @ name) rule)) ts"
  by (induction ts arbitrary: ts') (auto simp: rbind_Inr_iff dest!: switched_Inr)

lemma switch_route_Inr:
  assumes "switch_route p n r = Inr r'"
  shows "route_names n r' = map (decided_entry p) (route_names n r) \<and> without_rules r' = without_rules r"
proof (cases "rr_protocol r = Mcp")
  case True
  with assms obtain ts where ts: "switch_tools p n (rr_tools r) = Inr ts" "r' = r\<lparr>rr_tools := ts\<rparr>"
    by (auto simp: switch_route_def rbind_Inr_iff)
  then show ?thesis
    using True switch_tools_Inr [OF ts(1)]
    by (auto simp: route_names_def decided_entry_def without_rules_def comp_def)
next
  case False
  with assms obtain rule rule' where "rr_rule r = Some rule" "switched p (dec_nat n @ uni '':'' @ rr_tool r) rule = Inr rule'"
      "r' = r\<lparr>rr_rule := Some rule'\<rparr>"
    by (auto simp: switch_route_def rbind_Inr_iff split: option.splits)
  then show ?thesis
    using False by (auto simp: route_names_def decided_entry_def without_rules_def dest!: switched_Inr)
qed

lemma switch_routes_Inr:
  "switch_routes p n rs = Inr rs' \<Longrightarrow>
   entries_from n rs' = map (decided_entry p) (entries_from n rs) \<and> map without_rules rs' = map without_rules rs"
proof (induction rs arbitrary: n rs')
  case (Cons r rs)
  then obtain r' rs1 where r: "switch_route p n r = Inr r'" "switch_routes p (Suc n) rs = Inr rs1" "rs' = r' # rs1"
    by (auto simp: rbind_Inr_iff)
  show ?case
    using switch_route_Inr [OF r(1)] Cons.IH [OF r(2)] by (simp add: r(3) entries_from_names del: entries_from.simps)
qed simp

text \<open>Every key of the deployment decided, every rule present: compilation returns.\<close>

lemma switch_tools_total:
  "\<forall>name rule. (name, rule) \<in> set ts \<longrightarrow> decides p (dec_nat n @ uni '':'' @ name) \<Longrightarrow>
   \<exists>ts'. switch_tools p n ts = Inr ts'"
proof (induction ts)
  case (Cons t ts)
  obtain name rule where t: "t = (name, rule)" by fastforce
  with Cons.prems have "decides p (dec_nat n @ uni '':'' @ name)" by simp
  moreover obtain ts' where "switch_tools p n ts = Inr ts'" using Cons by auto
  ultimately show ?case by (simp add: t switched_total)
qed simp

lemma switch_route_total:
  assumes "\<forall>k name rule. (k, name, rule) \<in> set (route_names n r) \<longrightarrow> rule \<noteq> None \<and> decides p k"
  shows "\<exists>r'. switch_route p n r = Inr r'"
proof (cases "rr_protocol r = Mcp")
  case True
  have "decides p (dec_nat n @ uni '':'' @ name)" if "(name, rule) \<in> set (rr_tools r)" for name rule
  proof -
    have "(dec_nat n @ uni '':'' @ name, name, Some rule) \<in> set (route_names n r)"
      using True that by (force simp: route_names_def)
    with assms show ?thesis by blast
  qed
  then obtain ts' where "switch_tools p n (rr_tools r) = Inr ts'" using switch_tools_total by blast
  then show ?thesis using True by (simp add: switch_route_def)
next
  case False
  then have "(dec_nat n @ uni '':'' @ rr_tool r, rr_tool r, rr_rule r) \<in> set (route_names n r)"
    by (simp add: route_names_def)
  with assms have "rr_rule r \<noteq> None" "decides p (dec_nat n @ uni '':'' @ rr_tool r)" by blast+
  then show ?thesis using False by (auto simp: switch_route_def switched_total)
qed

lemma switch_routes_total:
  "\<forall>k name rule. (k, name, rule) \<in> set (entries_from n rs) \<longrightarrow> rule \<noteq> None \<and> decides p k \<Longrightarrow>
   \<exists>rs'. switch_routes p n rs = Inr rs'"
proof (induction rs arbitrary: n)
  case (Cons r rs)
  then have all: "\<forall>k name rule. (k, name, rule) \<in> set (route_names n r) \<union> set (entries_from (Suc n) rs) \<longrightarrow>
      rule \<noteq> None \<and> decides p k"
    unfolding entries_from_names set_append by blast
  obtain r' where "switch_route p n r = Inr r'" using switch_route_total all by blast
  moreover obtain rs' where "switch_routes p (Suc n) rs = Inr rs'" using Cons.IH all by blast
  ultimately show ?case by simp
qed simp

subsection \<open>The JSON form\<close>

lemma literal_names [simp]:
  "mode_literal (JStr (mode_name m)) = Some m"
  "pii_literal (JStr (pii_name c)) = Some c"
  "effect_literal (JStr (effect_name e)) = Some e"
  "pii_rule_literal (JStr (pii_rule_name r)) = Some r"
proof -
  show "mode_literal (JStr (mode_name m)) = Some m" by (cases m) (simp_all add: mode_literal_def literal_def)
  show "pii_literal (JStr (pii_name c)) = Some c" by (cases c) (simp_all add: pii_literal_def literal_def)
  show "effect_literal (JStr (effect_name e)) = Some e" by (cases e) (simp_all add: effect_literal_def literal_def)
  show "pii_rule_literal (JStr (pii_rule_name r)) = Some r"
  proof (cases r)
    case (Some c)
    then show ?thesis by (cases c) (simp_all add: pii_rule_literal_def literal_def pii_rule_name_def)
  qed (simp add: pii_rule_literal_def literal_def pii_rule_name_def)
qed

lemma literal_dict_str:
  "(\<And>v. f (JStr (g v)) = Some v) \<Longrightarrow> literal_dict f (str_dict g d) = Some d"
  by (induction d) (auto simp: str_dict_def)

end
