(* ===== verification/Snapshot_Facts.thy ===== *)
theory Snapshot_Facts
  imports Snapshot Spool_Facts Policy_Facts Identity_Facts Deployment_Facts
begin

text \<open>
  A snapshot that was published is read back: canonical JSON is a normal form (\<open>sort_keys_idem\<close>), so
  the loader recomputes the very bytes that were signed.
\<close>

subsection \<open>Canonical bytes\<close>

lemma canonical_again: "canonical (sort_keys v) = canonical v"
  by (simp add: canonical_def sort_keys_idem)

lemma canonical_encoded:
  assumes "canonical (JObj ps) = Inr b"
    and "printable je (nest_limit je) (JObj ps)"
  shows "utf8_encode (dumps False (sort_keys (JObj ps))) = Some b"
    "json_loads je False (dumps False (sort_keys (JObj ps))) = Inr (sort_keys (JObj ps))"
proof -
  show "utf8_encode (dumps False (sort_keys (JObj ps))) = Some b"
    using assms(1) by (simp add: canonical_def del: dumps.simps sort_keys.simps split: option.splits)
  show "json_loads je False (dumps False (sort_keys (JObj ps))) = Inr (sort_keys (JObj ps))"
    using assms(2) by (intro loads_dumps printable_sort_keys)
qed

lemma canonical_text:
  assumes "canonical (JObj ps) = Inr b" and "printable je (nest_limit je) (JObj ps)"
  shows "\<exists>t. utf8_decode b = Some t \<and> json_loads je False t = Inr (sort_keys (JObj ps))"
  using canonical_encoded [OF assms] decode_encode by blast

lemma canonical_read:
  assumes "reads_utf8 cr" and "canonical (JObj ps) = Inr b"
    and "printable (crypto_json cr) (nest_limit (crypto_json cr)) (JObj ps)"
  shows "json_bytes cr b = Inr (sort_keys (JObj ps))"
proof -
  obtain qs where qs: "sort_keys (JObj ps) = JObj qs" by simp
  note enc = canonical_encoded [OF assms(2,3), unfolded qs]
  obtain c s where "c \<noteq> 0" "dumps False (JObj qs) = 123 # c # s" using object_start by blast
  then have "json_text cr b = Some (dumps False (JObj qs))"
    using assms(1) enc(1) by (simp add: reads_utf8_def del: dumps.simps)
  then show ?thesis using enc(2) by (simp only: json_bytes_def option.simps qs)
qed

lemma b64_round_trip: "b64decode (b64encode bs) = Some bs" "is_ascii (b64encode bs)"
proof -
  let ?g = "b64_groups (map unat bs)"
  have bytes: "\<forall>n \<in> set (map unat bs). n < 256" by (rule byte_list_less)
  note chars = b64_groups_chars [OF bytes]
  have enc: "b64encode bs = ?g @ b64_pad (length ?g)" by (simp add: b64encode_def b64_pad_def Let_def)
  have "?g @ b64_pad (length ?g) = [] \<or> hd (?g @ b64_pad (length ?g)) \<noteq> 61"
    using chars by (cases ?g) (auto simp: b64_pads)
  then show "b64decode (b64encode bs) = Some bs"
    using a2b_groups [OF bytes] unfolding enc b64decode_def by (auto simp: comp_def)
  show "is_ascii (b64encode bs)"
    using chars by (auto simp: enc is_ascii_def list_all_iff b64_pad_def dest!: in_set_replicate [THEN iffD1])
qed

subsection \<open>A published envelope is accepted\<close>

text \<open>The dictionaries of a policy come back in the order of their keys.\<close>

definition sorted_policy :: "policy \<Rightarrow> policy" where
  "sorted_policy p = p\<lparr>po_rules := sort_pairs (po_rules p), po_pii_rules := sort_pairs (po_pii_rules p)\<rparr>"

lemma sort_keys_str_dict: "sort_keys (str_dict g d) = str_dict g (sort_pairs d)"
proof -
  let ?f = "\<lambda>v. JStr (g v)"
  have "map (\<lambda>(k, v). (k, sort_keys v)) (map (\<lambda>(k, v). (k, ?f v)) d) = map (\<lambda>(k, v). (k, ?f v)) d" by auto
  then show ?thesis by (simp only: str_dict_def sort_keys.simps sort_pairs_map [where f = ?f])
qed

lemma obj_get_sort_keys:
  assumes "distinct (map fst ps)"
  shows "obj_get (sort_keys (JObj ps)) k = map_option sort_keys (map_of ps k)"
proof -
  let ?qs = "map (\<lambda>(k, v). (k, sort_keys v)) ps"
  have "distinct (map fst ?qs)" using assms by (simp add: comp_def case_prod_beta)
  then have "map_of (sort_pairs ?qs) = map_of ?qs" by (rule map_of_sort_pairs)
  then show ?thesis by (simp add: map_of_map)
qed

lemma validate_sorted_policy:
  assumes "policy_ok p" and "\<And>i. as_int (JInt i) = Some i"
  shows "validate_policy as_int (sort_keys (policy_json p)) = Inr (sorted_policy p)"
proof -
  let ?ps = "[(uni ''version'', JInt (po_version p)), (uni ''mode'', JStr (mode_name (po_mode p))),
      (uni ''pii_action'', JStr (pii_name (po_pii_action p))),
      (uni ''rules'', str_dict effect_name (po_rules p)),
      (uni ''pii_rules'', str_dict pii_rule_name (po_pii_rules p))]"
  have ps: "policy_json p = JObj ?ps" by (simp add: policy_json_def)
  obtain qs where qs: "sort_keys (JObj ?ps) = JObj qs" by simp
  have "set (map fst qs) = set (map fst ?ps)"
  proof -
    have "qs = sort_pairs (map (\<lambda>(k, v). (k, sort_keys v)) ?ps)" using qs by (simp only: sort_keys.simps json.inject)
    then show ?thesis by (simp only: set_map set_sort_pairs) (simp add: image_image)
  qed
  then have keys: "set (map fst qs) \<subseteq> set policy_fields" by (simp add: policy_fields_def)
  have get: "obj_get (JObj qs) k = map_option sort_keys (map_of ?ps k)" for k
    unfolding qs [symmetric] by (rule obj_get_sort_keys) simp
  have "read_policy as_int (JObj qs) = Some (sorted_policy p)"
    unfolding read_policy_def field_or_def get
    by (simp add: sort_keys_str_dict literal_dict_str assms(2) sorted_policy_def)
  moreover have "policy_ok (sorted_policy p)" using assms(1) by (simp add: policy_ok_def sorted_policy_def)
  ultimately show ?thesis using keys by (simp only: ps qs validate_policy_def json.simps if_False not_True_eq_False simp_thms option.simps if_True)
qed

text \<open>A deployment whose dictionaries are in the order of their keys, as canonical JSON lists them.\<close>

definition ordered_rule :: "tool_rule \<Rightarrow> tool_rule" where
  "ordered_rule t = t\<lparr>tr_header_parameters := sort_pairs (tr_header_parameters t)\<rparr>"

definition ordered_route :: "route_rule \<Rightarrow> route_rule" where
  "ordered_route r = r\<lparr>rr_required_headers := sort_pairs (rr_required_headers r),
     rr_rule := map_option ordered_rule (rr_rule r),
     rr_tools := sort_pairs (map (\<lambda>(k, t). (k, ordered_rule t)) (rr_tools r))\<rparr>"

definition ordered :: "deployment \<Rightarrow> deployment" where
  "ordered d = d\<lparr>dp_routes := map ordered_route (dp_routes d)\<rparr>"

lemma ordered_fields [simp]:
  "dp_upstream (ordered d) = dp_upstream d" "dp_llm (ordered d) = dp_llm d"
  "dp_allow_plaintext_upstream (ordered d) = dp_allow_plaintext_upstream d"
  "dp_console_origin (ordered d) = dp_console_origin d" "dp_access_broker (ordered d) = dp_access_broker d"
  "dp_target_auth (ordered d) = dp_target_auth d" "dp_max_body_bytes (ordered d) = dp_max_body_bytes d"
  "dp_gateway_max_inflight (ordered d) = dp_gateway_max_inflight d"
  "dp_gateway_admission_wait_ms (ordered d) = dp_gateway_admission_wait_ms d"
  "dp_inspector_replicas (ordered d) = dp_inspector_replicas d"
  "dp_gateway_auth (ordered d) = dp_gateway_auth d" "dp_routes (ordered d) = map ordered_route (dp_routes d)"
  by (simp_all add: ordered_def)

lemma ordered_route_fields [simp]:
  "rr_authority (ordered_route r) = rr_authority r" "rr_path (ordered_route r) = rr_path r"
  "rr_method (ordered_route r) = rr_method r" "rr_protocol (ordered_route r) = rr_protocol r"
  by (simp_all add: ordered_route_def)

lemma ordered_route_rules: "set (route_rules (ordered_route r)) = map_option ordered_rule ` set (route_rules r)"
proof (cases "rr_protocol r = Mcp")
  case True
  then show ?thesis by (simp add: route_rules_def ordered_route_def image_image case_prod_beta)
qed (simp add: route_rules_def ordered_route_def)

lemma check_ordered_route: "check_route netloc seen (ordered_route r) = check_route netloc seen r"
proof -
  have "route_rules (ordered_route r) = [] \<longleftrightarrow> route_rules r = []"
    using ordered_route_rules [of r] by (metis set_empty image_is_empty)
  moreover have "None \<in> set (route_rules (ordered_route r)) \<longleftrightarrow> None \<in> set (route_rules r)"
    unfolding ordered_route_rules by auto
  moreover have "list_all (\<lambda>t. case t of None \<Rightarrow> False | Some t \<Rightarrow> rule_has_resource t) (route_rules (ordered_route r)) \<longleftrightarrow>
      list_all (\<lambda>t. case t of None \<Rightarrow> False | Some t \<Rightarrow> rule_has_resource t) (route_rules r)"
    unfolding list_all_iff ordered_route_rules
    by (auto simp: rule_has_resource_def ordered_rule_def split: option.splits)
  ultimately show ?thesis by (simp add: check_route_def)
qed

lemma check_ordered_routes: "check_routes netloc seen (map ordered_route rs) = check_routes netloc seen rs"
  by (induction rs arbitrary: seen) (simp_all add: check_ordered_route)

lemma ordered_provider_route: "r \<in> set (provider_routes p) \<Longrightarrow> ordered_route r = r"
  by (cases "pp_provider p")
    (auto simp: provider_routes_def provider_route_def gemini_route_def ordered_route_def ordered_rule_def sort_pairs_def)

lemma ordered_provider_routes: "map ordered_route (provider_routes p) = provider_routes p"
  using ordered_provider_route by (intro map_idI)

lemma validate_ordered:
  assumes "validate_deployment ue d = Inr d"
  shows "validate_deployment ue (ordered d) = Inr (ordered d)"
proof -
  have v: "(case dp_llm d of None \<Rightarrow> Inr () | Some p \<Rightarrow> validate_models p) = Inr ()"
      "validate_gateway_auth ue (dp_gateway_auth d) = Inr (dp_gateway_auth d)" "validate_tenant (dp_access_broker d) = Inr ()"
      "validate_target (dp_target_auth d) = Inr (dp_target_auth d)" "deployment_fields_ok d" "validate_contract ue d = Inr ()"
    using assms by (auto simp: validate_deployment_def rbind_Inr_iff Let_def
        dest: validate_gateway_auth_same arg_cong [of _ d dp_target_auth])
  have "check_modes (ordered d) = check_modes d" by (simp only: check_modes_def ordered_fields)
  moreover have "check_profile (ordered d) = Inr ()" if "check_profile d = Inr ()"
    using that by (cases "dp_llm d")
      (auto simp: check_profile_def Let_def check_def ordered_provider_routes rbind_Inr_iff split: if_splits)
  ultimately have "validate_contract ue (ordered d) = Inr ()"
    using v(6) by (auto simp: validate_contract_def rbind_Inr_iff check_ordered_routes split: option.splits)
  moreover have "deployment_fields_ok (ordered d)" using v(5) by (simp add: deployment_fields_ok_def)
  moreover have same: "(ordered d)\<lparr>dp_gateway_auth := dp_gateway_auth d, dp_target_auth := dp_target_auth d\<rparr> = ordered d"
    by (simp add: ordered_def)
  ultimately show ?thesis
    using v(1-4) by (simp add: validate_deployment_def Let_def check_def same)
qed

lemma ordered_entry_keys: "set (map fst (entries_from n (map ordered_route rs))) = set (map fst (entries_from n rs))"
proof (induction rs arbitrary: n)
  case (Cons r rs)
  have keys: "(\<lambda>x. dec_nat n @ uni '':'' @ fst x) ` A = (\<lambda>k. dec_nat n @ uni '':'' @ k) ` fst ` A" for A :: "(pystr \<times> tool_rule) set"
    by (simp add: image_image)
  have "fst ` set (sort_pairs (map (\<lambda>(k, t). (k, ordered_rule t)) (rr_tools r))) = fst ` set (rr_tools r)"
    by (force simp: image_iff)
  then have names: "(\<lambda>x. dec_nat n @ uni '':'' @ fst x) ` set (sort_pairs (map (\<lambda>(k, t). (k, ordered_rule t)) (rr_tools r))) =
      (\<lambda>x. dec_nat n @ uni '':'' @ fst x) ` set (rr_tools r)"
    by (simp only: keys)
  show ?case
    using Cons names by (simp add: ordered_route_def image_Un image_image case_prod_beta)
qed simp

lemma same_keys_ordered [simp]:
  "same_keys (ordered d) p \<longleftrightarrow> same_keys d p" "same_keys d (sorted_policy p) \<longleftrightarrow> same_keys d p"
  by (simp_all only: same_keys_def entry_keys_def deployment_entries_def ordered_fields ordered_entry_keys)
    (simp add: sorted_policy_def)

text \<open>Hypotheses: a signature verifies, integers are read as themselves, and of pydantic what it documents: the JSON
  of a deployment holds its fields that are not null, dictionaries in their order, and reading it gives these fields back and
  its default to every other.  What the modelled validators then make of it is proved (\<open>load_dumped\<close>).\<close>

definition signing_ok :: "snapshot_env \<Rightarrow> bool" where
  "signing_ok env \<longleftrightarrow> reads_utf8 (se_crypto env) \<and> (\<forall>m. se_verify env (se_sign env m) m) \<and>
     (\<forall>i. se_as_int env (JInt i) = Some i)"

definition dumps_fields :: "snapshot_env \<Rightarrow> deployment \<Rightarrow> bool" where
  "dumps_fields env d \<longleftrightarrow> se_fields env (sort_keys (se_dump env d)) = Some (ordered (redumped d)) \<and>
     sort_keys (se_dump env (ordered (redumped d))) = sort_keys (se_dump env (redumped d))"

text \<open>A validated deployment, and values that fit into JSON as deep as the parser goes.\<close>

definition publishable :: "snapshot_env \<Rightarrow> deployment \<Rightarrow> policy \<Rightarrow> bool" where
  "publishable env d p \<longleftrightarrow> (let je = crypto_json (se_crypto env); n = nest_limit je - 2 in
     2 \<le> nest_limit je \<and> printable je n (se_dump env d) \<and> printable je n (policy_json p) \<and>
     validate_deployment (se_url env) d = Inr d \<and> dumps_fields env d)"

lemma load_dumped:
  assumes "publishable env d p"
  shows "load_deployment env (sort_keys (se_dump env d)) = Inr (ordered (redumped d))"
    "connection_digest env (ordered (redumped d)) = connection_digest env (redumped d)"
proof -
  have d: "validate_deployment (se_url env) d = Inr d" "dumps_fields env d"
    using assms by (simp_all add: publishable_def Let_def)
  show "load_deployment env (sort_keys (se_dump env d)) = Inr (ordered (redumped d))"
    using d(2) validate_ordered [OF validate_redumped(2) [OF d(1)]] by (simp add: load_deployment_def dumps_fields_def)
  show "connection_digest env (ordered (redumped d)) = connection_digest env (redumped d)"
    using d(2) by (simp add: connection_digest_def canonical_def dumps_fields_def)
qed

definition small_revision :: "nat \<Rightarrow> bool" where
  "small_revision r \<longleftrightarrow> length (dec_nat r) \<le> 4300"

lemma payload_printable:
  assumes "publishable env d p" and "small_revision r"
  shows "printable (crypto_json (se_crypto env)) (nest_limit (crypto_json (se_crypto env)))
    (JObj [(uni ''payload'', payload_of env r digest created d p), (uni ''signature'', JStr sig)])"
proof -
  let ?je = "crypto_json (se_crypto env)"
  obtain n where n: "nest_limit ?je = Suc (Suc n)" "printable ?je n (se_dump env d)" "printable ?je n (policy_json p)"
    using assms(1) by (auto simp: publishable_def Let_def dest: le_Suc_ex)
  have "length (dec_nat 1) \<le> 4300" by (simp add: dec_nat.simps)
  then show ?thesis using assms(2) n by (simp add: payload_of_def small_revision_def)
qed

text \<open>The payload as it is read back: the canonical order of its keys.\<close>

lemma payload_items:
  fixes env r dig cr d p
  defines "q \<equiv> sort_keys (payload_of env r dig cr d p)"
  shows "is_obj q" "obj_get q (uni ''format'') = Some (JInt 1)" "obj_get q (uni ''revision'') = Some (JInt (int r))"
    "obj_get q (uni ''connection_digest'') = Some (JStr dig)" "obj_get q (uni ''created_at'') = Some (JStr cr)"
    "obj_get q (uni ''deployment'') = Some (sort_keys (se_dump env d))"
    "obj_get q (uni ''policy'') = Some (sort_keys (policy_json p))"
proof -
  show "is_obj q" by (simp add: q_def payload_of_def)
  have get: "obj_get q k = map_option sort_keys (map_of [(uni ''format'', JInt 1), (uni ''revision'', JInt (int r)),
     (uni ''connection_digest'', JStr dig), (uni ''created_at'', JStr cr), (uni ''key_id'', JStr (se_key_id env)),
     (uni ''deployment'', se_dump env d), (uni ''policy'', policy_json p)] k)" for k
    unfolding q_def payload_of_def by (rule obj_get_sort_keys) simp
  show "obj_get q (uni ''format'') = Some (JInt 1)" "obj_get q (uni ''revision'') = Some (JInt (int r))"
    "obj_get q (uni ''connection_digest'') = Some (JStr dig)" "obj_get q (uni ''created_at'') = Some (JStr cr)"
    "obj_get q (uni ''deployment'') = Some (sort_keys (se_dump env d))"
    "obj_get q (uni ''policy'') = Some (sort_keys (policy_json p))"
    by (simp_all add: get)
qed

lemma dict_item_obj_get: "is_obj v \<Longrightarrow> dict_item v k = (case obj_get v (uni k) of None \<Rightarrow> Inl Key_error | Some x \<Rightarrow> Inr x)"
  by (cases v) (simp_all add: dict_item_def)

lemma load_contents_payload:
  assumes "signing_ok env" "publishable env d p" "policy_ok p" "1 \<le> r"
  shows "load_contents env (sort_keys (payload_of env r dig cr d p)) = Inr (int r, ordered (redumped d), sorted_policy p)"
proof -
  let ?q = "sort_keys (payload_of env r dig cr d p)"
  note get = payload_items [of env r dig cr d p]
  have int: "\<And>i. se_as_int env (JInt i) = Some i" using assms(1) by (simp add: signing_ok_def)
  note dep = load_dumped(1) [OF assms(2)]
  note pol = validate_sorted_policy [OF assms(3) int]
  show ?thesis
    using assms(4) by (simp add: load_contents_def dict_item_obj_get [OF get(1)] get(2-) dep pol del: sort_keys.simps)
qed

lemma published_is_read:
  assumes "signing_ok env" "publishable env d p" "policy_ok p" "small_revision r" "1 \<le> r"
    and dig: "connection_digest env d = Inr dig"
    and b: "envelope_of env (payload_of env r dig cr d p) = Inr b" and "length b \<le> MAX_SNAPSHOT_BYTES"
  shows "read_snapshot env True (File_bytes b) =
    (case connection_digest env (redumped d) of
      Inl e \<Rightarrow> Inl (Escaped e)
    | Inr g \<Rightarrow> if g = dig then Inr \<lparr>sn_revision = int r, sn_connection_digest = dig,
        sn_deployment = ordered (redumped d), sn_policy = sorted_policy p, sn_created_at = cr, sn_key_id = se_key_id env\<rparr>
        else Inl (Snapshot_error ''policy_snapshot_invalid''))"
proof -
  let ?p = "payload_of env r dig cr d p" and ?q = "sort_keys (payload_of env r dig cr d p)"
  obtain m where m: "canonical ?p = Inr m" and env: "canonical (JObj [(uni ''payload'', ?p),
      (uni ''signature'', JStr (b64encode (se_sign env m)))]) = Inr b"
    using b by (auto simp: envelope_of_def rbind_Inr_iff)
  let ?sig = "b64encode (se_sign env m)"
  let ?E = "JObj [(uni ''payload'', ?p), (uni ''signature'', JStr ?sig)]"
  have utf8: "reads_utf8 (se_crypto env)" using assms(1) by (simp add: signing_ok_def)
  have read: "json_bytes (se_crypto env) b = Inr (sort_keys ?E)"
    by (rule canonical_read [OF utf8 env payload_printable [OF assms(2,4)]])
  have get: "obj_get (sort_keys ?E) k = map_option sort_keys (map_of [(uni ''payload'', ?p),
      (uni ''signature'', JStr ?sig)] k)" for k
    by (rule obj_get_sort_keys) simp
  have obj: "is_obj (sort_keys ?E)" by simp
  have items: "dict_item (sort_keys ?E) ''payload'' = Inr ?q" "dict_item (sort_keys ?E) ''signature'' = Inr (JStr ?sig)"
    by (simp_all add: dict_item_obj_get [OF obj] get del: sort_keys.simps) simp
  have opened: "open_envelope env b = Inr (?q, se_sign env m)"
    by (simp add: open_envelope_def read items decode_signature_def b64_round_trip del: sort_keys.simps)
  note q = payload_items [of env r dig cr d p]
  have verified: "se_verify env (se_sign env m) m" using assms(1) by (simp add: signing_ok_def)
  have "check_signed_payload env ?q (se_sign env m) =
    (case connection_digest env (redumped d) of
      Inl e \<Rightarrow> Inl (Escaped e)
    | Inr g \<Rightarrow> if g = dig then Inr \<lparr>sn_revision = int r, sn_connection_digest = dig,
        sn_deployment = ordered (redumped d), sn_policy = sorted_policy p, sn_created_at = cr, sn_key_id = se_key_id env\<rparr>
        else Inl (Snapshot_error ''policy_snapshot_invalid''))"
    using dig
    by (auto simp: check_signed_payload_def canonical_again m q verified escaping_def rguard_def created_text_def
        load_contents_payload [OF assms(1-3,5)] load_dumped(2) [OF assms(2)] simp del: sort_keys.simps split: sum.splits)
  then show ?thesis using assms(8) by (simp add: read_snapshot_def opened)
qed

text \<open>Without null claim names the snapshot is accepted.  With one, the deployment read back has another connection
  digest, and the snapshot that the publisher just wrote is refused: it can never be enforced.\<close>

lemma null_claim_refused:
  assumes "signing_ok env" "publishable env d p" "policy_ok p" "small_revision r" "1 \<le> r"
    and "connection_digest env d = Inr dig" and "connection_digest env (redumped d) = Inr g" and "g \<noteq> dig"
    and "envelope_of env (payload_of env r dig cr d p) = Inr b" and "length b \<le> MAX_SNAPSHOT_BYTES"
  shows "read_snapshot env True (File_bytes b) = Inl (Snapshot_error ''policy_snapshot_invalid'')"
  using published_is_read [OF assms(1-6,9,10)] assms(7,8) by simp

end
