(* ===== verification/Dataplane.thy ===== *)
theory Dataplane
  imports Snapshot Spool
begin

text \<open>
  \<open>DataplaneRuntime\<close> of \<open>selfhost/dataplane.py\<close>: the data plane runs with the last snapshot that
  was valid, newer than the one before and on the same connection.

  The engine is represented by the configuration it was built from (\<open>inspection_config_of\<close>).  What a
  polling step sees is an argument: the fingerprint of the current file, whether the public key can be
  read, the file, and whether building the verifier and the broker raised (\<open>built\<close>).
\<close>

type_synonym fingerprint = "(nat \<times> nat \<times> nat) option"  \<comment> \<open>inode, size, modification time\<close>

record dataplane =
  dl_snapshot :: "snapshot option"
  dl_engine :: "inspection_config option"
  dl_policy :: "policy option"
  dl_fingerprint :: fingerprint
  dl_rejection :: "(string \<times> int option) option"
  dl_restart_required :: bool
  dl_inspector_ready :: bool
  dl_spool :: spool
  dl_outcomes :: "(string \<times> nat, nat) dict"

record dataplane_env =
  de_snapshot :: snapshot_env
  de_expected :: "pystr option"
  de_directory :: pystr

definition kept_revision :: "dataplane \<Rightarrow> int option" where
  "kept_revision st = map_option sn_revision (dl_snapshot st)"

definition reject :: "string \<Rightarrow> fingerprint \<Rightarrow> (dataplane, bool) act" where
  "reject reason fp st =
     (Inr False, st\<lparr>dl_fingerprint := fp, dl_rejection := Some (reason, kept_revision st)\<rparr>)"

subsection \<open>Refreshing\<close>

text \<open>\<open>except (ValueError, OSError)\<close>.\<close>

fun value_or_os_error :: "exn \<Rightarrow> bool" where
  "value_or_os_error (Value_error m) = True"
| "value_or_os_error (Inspection m) = True"
| "value_or_os_error Unicode_error = True"
| "value_or_os_error Os_error = True"
| "value_or_os_error Timeout_error = True"
| "value_or_os_error e = False"

definition accept :: "snapshot \<Rightarrow> inspection_config \<Rightarrow> fingerprint \<Rightarrow> (dataplane, bool) act" where
  "accept sn engine fp st =
     (Inr True, st\<lparr>dl_snapshot := Some sn, dl_engine := Some engine, dl_policy := Some (sn_policy sn),
        dl_fingerprint := fp\<rparr>)"

definition build_and_accept ::
  "dataplane_env \<Rightarrow> exn option \<Rightarrow> snapshot \<Rightarrow> fingerprint \<Rightarrow> (dataplane, bool) act" where
  "build_and_accept env built sn fp st =
     (case rbind (inspection_config_of (sn_deployment sn) (sn_policy sn) (de_directory env)) (\<lambda>c.
           case built of None \<Rightarrow> Inr c | Some e \<Rightarrow> Inl e) of
        Inl e \<Rightarrow> if value_or_os_error e then reject ''policy_snapshot_invalid'' fp st else (Inl e, st)
      | Inr c \<Rightarrow> accept sn c fp st)"

definition consider_snapshot ::
  "dataplane_env \<Rightarrow> exn option \<Rightarrow> snapshot \<Rightarrow> fingerprint \<Rightarrow> (dataplane, bool) act" where
  "consider_snapshot env built sn fp st =
     (if truthy (de_expected env) \<and> Some (sn_connection_digest sn) \<noteq> de_expected env
      then reject ''connection_changed_restart_required'' fp (st\<lparr>dl_restart_required := True\<rparr>)
      else case dl_snapshot st of
        None \<Rightarrow> build_and_accept env built sn fp st
      | Some cur \<Rightarrow>
          if sn_revision sn = sn_revision cur then (Inr False, st\<lparr>dl_fingerprint := fp\<rparr>)
          else if sn_revision sn < sn_revision cur
          then reject ''policy_snapshot_revision_regressed'' fp st
          else if sn_connection_digest sn \<noteq> sn_connection_digest cur
          then reject ''connection_changed_restart_required'' fp (st\<lparr>dl_restart_required := True\<rparr>)
          else build_and_accept env built sn fp st)"

definition unchanged_file :: "bool \<Rightarrow> fingerprint \<Rightarrow> dataplane \<Rightarrow> bool" where
  "unchanged_file force fp st \<longleftrightarrow>
     \<not> force \<and> fp = dl_fingerprint st \<and> (dl_snapshot st \<noteq> None \<or> fp \<noteq> None)"

definition refresh ::
  "dataplane_env \<Rightarrow> bool \<Rightarrow> fingerprint \<Rightarrow> bool \<Rightarrow> file_read \<Rightarrow> exn option \<Rightarrow> (dataplane, bool) act" where
  "refresh env force fp key_ok file built st =
     (if unchanged_file force fp st then (Inr False, st)
      else case read_snapshot (de_snapshot env) key_ok file of
        Inl (Snapshot_error code) \<Rightarrow> reject code fp st
      | Inl (Escaped e) \<Rightarrow> (Inl e, st)
      | Inr sn \<Rightarrow> consider_snapshot env built sn fp st)"

subsection \<open>Evidence and admission\<close>

definition stream_snapshot :: "(dataplane, inspection_config \<times> policy) act" where
  "stream_snapshot st =
     (case (dl_engine st, dl_policy st) of
        (Some c, Some p) \<Rightarrow> (Inr (c, p), st)
      | (Some c, None) \<Rightarrow> (Inl Failure, st)
      | (None, _) \<Rightarrow> (Inl (Inspection ''policy_snapshot_unavailable''), st))"

text \<open>An event that cannot be written fails its stream closed, unless it only observes.\<close>

definition record_event :: "spool_os \<Rightarrow> json \<Rightarrow> (dataplane, json) act" where
  "record_event os event st =
     (case append_event os event (dl_spool st) of
        (Inr _, sp) \<Rightarrow> (Inr event, st\<lparr>dl_spool := sp\<rparr>)
      | (Inl Os_error, sp) \<Rightarrow>
          (if obj_get event (uni ''mode'') = Some (JStr (uni ''mirror'')) then Inr event else Inl Os_error,
           st\<lparr>dl_spool := sp\<rparr>)
      | (Inl e, sp) \<Rightarrow> (Inl e, st\<lparr>dl_spool := sp\<rparr>))"

text \<open>\<open>None\<close> when a request may enter the inspection path.  The policy is set with the engine.\<close>

definition admission :: "dataplane \<Rightarrow> string option" where
  "admission st =
     (if dl_engine st = None then Some ''policy_snapshot_unavailable''
      else if \<not> dl_inspector_ready st then Some ''inspector_unavailable''
      else if map_option po_mode (dl_policy st) = Some Inline \<and> \<not> sp_healthy (dl_spool st)
      then Some ''evidence_unavailable''
      else None)"

definition observe_gateway :: "string \<Rightarrow> nat \<Rightarrow> dataplane \<Rightarrow> dataplane" where
  "observe_gateway phase status st =
     st\<lparr>dl_outcomes := dset (phase, status) (get_or (dl_outcomes st) (phase, status) 0 + 1) (dl_outcomes st)\<rparr>"

text \<open>\<open>status\<close>: the revision that every process inspecting traffic has loaded.\<close>

definition applied_revision :: "int option list option \<Rightarrow> dataplane \<Rightarrow> int option" where
  "applied_revision workers st =
     (case kept_revision st of
        None \<Rightarrow> None
      | Some r \<Rightarrow>
          (case workers of
             None \<Rightarrow> Some r
           | Some ws \<Rightarrow> if None \<in> set ws then None else Some (fold min (map the ws) r)))"

subsection \<open>Maintenance\<close>

text \<open>One round of \<open>maintain\<close>: an exception of the refresh skips the probe; nothing stops the loop.\<close>

definition maintain_tick ::
  "dataplane_env \<Rightarrow> fingerprint \<Rightarrow> bool \<Rightarrow> file_read \<Rightarrow> exn option \<Rightarrow> bool \<Rightarrow> nat \<Rightarrow> dataplane \<Rightarrow> dataplane" where
  "maintain_tick env fp key_ok file built works tick st =
     (case refresh env False fp key_ok file built st of
        (Inl e, st') \<Rightarrow> st'
      | (Inr b, st') \<Rightarrow>
          if \<not> sp_healthy (dl_spool st') \<or> tick mod 20 = 0
          then st'\<lparr>dl_spool := snd (probe works (dl_spool st'))\<rparr> else st')"

definition new_dataplane :: "spool \<Rightarrow> dataplane" where
  "new_dataplane sp = \<lparr>dl_snapshot = None, dl_engine = None, dl_policy = None, dl_fingerprint = None,
     dl_rejection = None, dl_restart_required = False, dl_inspector_ready = False, dl_spool = sp, dl_outcomes = []\<rparr>"

end
