(* ===== verification/Snapshot_Runs.thy ===== *)
theory Snapshot_Runs
  imports Snapshot_Facts Dataplane
begin

text \<open>
  The snapshot directory over the life of a control plane: publishing again and again, with any of the
  two writes failing or the process dying between them, the current file is always absent or a whole
  signed envelope of a revision of the history (\<open>dir_kept\<close>).
\<close>

subsection \<open>The history\<close>

lemma latest_Max: "latest s = Max (insert 0 (fst ` set (sd_history s)))"
  using Max.set_eq_fold [of 0 "map fst (sd_history s)"] by (simp add: latest_def)

lemma latest_write [simp]: "latest (write_history (latest s + 1) b s) = latest s + 1"
proof -
  have "insert 0 (fst ` set (dset (latest s + 1) b (sd_history s))) =
      insert (latest s + 1) (insert 0 (fst ` set (sd_history s)))"
    using set_dkeys_dset [of "latest s + 1" b "sd_history s"] by auto
  then have "latest (write_history (latest s + 1) b s) = max (latest s + 1) (latest s)"
    unfolding latest_Max [of "write_history _ _ _"] by (simp add: write_history_def latest_Max)
  then show ?thesis by simp
qed

lemma latest_current [simp]: "latest (s\<lparr>sd_current := c\<rparr>) = latest s"
  by (simp add: latest_def)

subsection \<open>What publishing does\<close>

text \<open>The bytes of an envelope that the publisher writes.\<close>

definition written_envelope ::
  "snapshot_env \<Rightarrow> nat \<Rightarrow> pystr \<Rightarrow> pystr \<Rightarrow> deployment \<Rightarrow> policy \<Rightarrow> bytes \<Rightarrow> bool" where
  "written_envelope env r dig cr d p b \<longleftrightarrow>
     envelope_of env (payload_of env r dig cr d p) = Inr b \<and> connection_digest env d = Inr dig \<and>
     publishable env d p \<and> redumped d = d \<and> policy_ok p \<and> small_revision r \<and> 1 \<le> r \<and> length b \<le> MAX_SNAPSHOT_BYTES"

lemma written_is_read:
  assumes "signing_ok env" and "written_envelope env r dig cr d p b"
  shows "read_snapshot env True (File_bytes b) = Inr \<lparr>sn_revision = int r, sn_connection_digest = dig,
    sn_deployment = ordered d, sn_policy = sorted_policy p, sn_created_at = cr, sn_key_id = se_key_id env\<rparr>"
  using assms published_is_read [of env d p r dig cr b] by (simp add: written_envelope_def)

definition dir_kept :: "snapshot_env \<Rightarrow> snapshot_dir \<Rightarrow> bool" where
  "dir_kept env s \<longleftrightarrow> (\<forall>b. sd_current s = Some b \<longrightarrow>
     (\<exists>r dig cr d p. written_envelope env r dig cr d p b \<and> r \<le> latest s))"

lemma validated_policy_ok: "validate_policy f pv = Inr p \<Longrightarrow> policy_ok p"
  by (auto simp: validate_policy_def split: json.splits option.splits if_splits)

definition publish_writes ::
  "snapshot_env \<Rightarrow> pystr \<Rightarrow> bool \<Rightarrow> bool \<Rightarrow> deployment \<Rightarrow> policy \<Rightarrow> snapshot_dir \<Rightarrow> json result \<Rightarrow> snapshot_dir \<Rightarrow> bool" where
  "publish_writes env cr ok1 ok2 d p s r s' \<longleftrightarrow>
     (\<exists>dig b. connection_digest env d = Inr dig \<and>
       envelope_of env (payload_of env (latest s + 1) dig cr d p) = Inr b \<and> length b \<le> MAX_SNAPSHOT_BYTES \<and>
       (r, s') =
         (if \<not> ok1 then (Inl Os_error, s)
          else if \<not> ok2 then (Inl Os_error, write_history (latest s + 1) b s)
          else (Inr (JInt (int (latest s + 1))), (write_history (latest s + 1) b s)\<lparr>sd_current := Some b\<rparr>)))"

definition publish_keeps :: "snapshot_env \<Rightarrow> deployment \<Rightarrow> policy \<Rightarrow> snapshot_dir \<Rightarrow> json \<Rightarrow> bool" where
  "publish_keeps env d p s rv \<longleftrightarrow>
     (\<exists>dig cur. connection_digest env d = Inr dig \<and> current_payload env s = Inr (Some cur) \<and>
       unchanged (Some cur) dig (policy_json p) = Inr True \<and> dict_item cur ''revision'' = Inr rv)"

lemma publish_outcome:
  assumes "publish env cr ok1 ok2 d pv s = (r, s')" and p: "validate_policy (se_as_int env) pv = Inr p"
  shows "(\<exists>e. r = Inl e \<and> s' = s) \<or> (\<exists>rv. r = Inr rv \<and> s' = s \<and> publish_keeps env d p s rv) \<or>
    publish_writes env cr ok1 ok2 d p s r s'"
proof (cases "connection_digest env d")
  case (Inl e)
  then show ?thesis using assms by (auto simp: publish_def)
next
  case dig: (Inr dig)
  show ?thesis
  proof (cases "current_payload env s")
    case (Inl e)
    then show ?thesis using assms dig by (auto simp: publish_def)
  next
    case cur: (Inr cur)
    show ?thesis
    proof (cases "unchanged cur dig (policy_json p)")
      case (Inl e)
      then show ?thesis using assms dig cur by (auto simp add: publish_def)
    next
      case same: (Inr same)
      show ?thesis
      proof (cases same)
        case True
        then obtain v where v: "cur = Some v" using same by (cases cur) (simp_all add: unchanged_def)
        have out: "r = dict_item v ''revision''" "s' = s"
          using assms dig cur same True v by (cases "dict_item v ''revision''"; simp add: publish_def)+
        show ?thesis
        proof (cases r)
          case (Inr rv)
          then have "publish_keeps env d p s rv"
            using dig cur same True v out by (simp add: publish_keeps_def)
          then show ?thesis using Inr out by simp
        qed (simp add: out)
      next
        case False
        define e where "e = envelope_of env (payload_of env (Suc (latest s)) dig cr d p)"
        show ?thesis
        proof (cases e)
          case (Inl x)
          then show ?thesis using assms dig cur same False by (auto simp: publish_def Let_def simp flip: e_def)
        next
          case (Inr b)
          then show ?thesis
            using assms dig cur same False
            by (auto simp: publish_def publish_writes_def Let_def simp flip: e_def split: if_splits)
        qed
      qed
    qed
  qed
qed

subsection \<open>Runs\<close>

definition empty_dir :: snapshot_dir where
  "empty_dir = \<lparr>sd_history = [], sd_current = None\<rparr>"

inductive published_dir :: "snapshot_env \<Rightarrow> snapshot_dir \<Rightarrow> bool" for env where
  Start: "published_dir env empty_dir"
| Publish: "published_dir env s \<Longrightarrow> validate_policy (se_as_int env) pv = Inr p \<Longrightarrow> publishable env d p \<Longrightarrow>
    redumped d = d \<Longrightarrow> small_revision (latest s + 1) \<Longrightarrow> publish env cr ok1 ok2 d pv s = (r, s') \<Longrightarrow> published_dir env s'"

lemma dir_kept_write:
  assumes "dir_kept env s"
  shows "dir_kept env (write_history (latest s + 1) b s)"
proof -
  have "sd_current (write_history (latest s + 1) b s) = sd_current s" by (simp add: write_history_def)
  moreover have "latest (write_history (latest s + 1) b s) = latest s + 1" by (rule latest_write)
  ultimately show ?thesis using assms unfolding dir_kept_def by (metis le_add1 le_trans)
qed

lemma published_dir_kept: "published_dir env s \<Longrightarrow> dir_kept env s"
proof (induction rule: published_dir.induct)
  case Start
  show ?case by (simp add: dir_kept_def empty_dir_def)
next
  case (Publish s pv p d cr ok1 ok2 r s')
  consider "s' = s" | "publish_writes env cr ok1 ok2 d p s r s'"
    using publish_outcome [OF Publish.hyps(6,2)] by blast
  then show ?case
  proof cases
    case 1
    then show ?thesis using Publish.IH by simp
  next
    case 2
    then obtain dig b where b: "connection_digest env d = Inr dig"
        "envelope_of env (payload_of env (latest s + 1) dig cr d p) = Inr b" "length b \<le> MAX_SNAPSHOT_BYTES"
      and s': "s' \<in> {s, write_history (latest s + 1) b s, (write_history (latest s + 1) b s)\<lparr>sd_current := Some b\<rparr>}"
      by (auto simp: publish_writes_def split: if_splits)
    have "written_envelope env (latest s + 1) dig cr d p b"
      using b Publish.hyps(2-5) validated_policy_ok by (auto simp: written_envelope_def)
    then have "dir_kept env ((write_history (latest s + 1) b s)\<lparr>sd_current := Some b\<rparr>)"
      unfolding dir_kept_def latest_current latest_write by (simp del: add_Suc_right) blast
    then show ?thesis using s' Publish.IH dir_kept_write [OF Publish.IH] by blast
  qed
qed

subsection \<open>Publishing again what is current\<close>

lemma written_payload:
  assumes "signing_ok env" and "written_envelope env r dig cr d p b" and "sd_current s = Some b"
  shows "current_payload env s = Inr (Some (sort_keys (payload_of env r dig cr d p)))"
proof -
  let ?p = "payload_of env r dig cr d p"
  obtain m where "canonical (JObj [(uni ''payload'', ?p), (uni ''signature'', JStr (b64encode (se_sign env m)))]) = Inr b"
    using assms(2) by (auto simp: written_envelope_def envelope_of_def rbind_Inr_iff)
  moreover have "publishable env d p" "small_revision r" using assms(2) by (simp_all add: written_envelope_def)
  ultimately obtain t where t: "utf8_decode b = Some t" "json_loads (crypto_json (se_crypto env)) False t =
      Inr (sort_keys (JObj [(uni ''payload'', ?p), (uni ''signature'', JStr (b64encode (se_sign env m)))]))"
    using canonical_text [OF _ payload_printable] by blast
  have "obj_get (sort_keys (JObj [(uni ''payload'', ?p), (uni ''signature'', JStr (b64encode (se_sign env m)))])) k =
      map_option sort_keys (map_of [(uni ''payload'', ?p), (uni ''signature'', JStr (b64encode (se_sign env m)))] k)" for k
    by (rule obj_get_sort_keys) simp
  then show ?thesis
    using assms(3) t by (simp add: current_payload_def dict_item_obj_get del: sort_keys.simps(6))
qed

lemma publish_keeps_read:
  assumes "dir_kept env s" "signing_ok env" "policy_ok p" and "publish_keeps env d p s rv"
  shows "\<exists>sn. read_snapshot env True (current_file s) = Inr sn \<and> rv = JInt (sn_revision sn) \<and>
    sn_policy sn = sorted_policy p \<and> connection_digest env d = Inr (sn_connection_digest sn)"
proof -
  obtain dig cur where k: "connection_digest env d = Inr dig" "current_payload env s = Inr (Some cur)"
      "unchanged (Some cur) dig (policy_json p) = Inr True" "dict_item cur ''revision'' = Inr rv"
    using assms(4) by (auto simp: publish_keeps_def)
  obtain b where b: "sd_current s = Some b" using k(2) by (cases "sd_current s") (simp_all add: current_payload_def)
  obtain r dig0 cr d0 p0 where w: "written_envelope env r dig0 cr d0 p0 b"
    using assms(1) b by (auto simp: dir_kept_def)
  have cur: "cur = sort_keys (payload_of env r dig0 cr d0 p0)"
    using written_payload [OF assms(2) w b] k(2) by simp
  note get = payload_items [of env r dig0 cr d0 p0, folded cur]
  have "dig0 = dig" and same: "same_value (sort_keys (policy_json p0)) (policy_json p)"
    using k(3) get(1,4,7) by (auto simp: unchanged_def split: if_splits)
  have rv: "rv = JInt (int r)" using k(4) get(1,3) by (simp add: dict_item_obj_get)
  have "policy_ok p0" using w by (simp add: written_envelope_def)
  have int: "\<And>i. se_as_int env (JInt i) = Some i" using assms(2) by (simp add: signing_ok_def)
  have "sort_keys (policy_json p0) = sort_keys (policy_json p)" using same by (simp add: same_value_def sort_keys_idem)
  then have "Inr (sorted_policy p0) = (Inr (sorted_policy p) :: policy result)"
    using validate_sorted_policy [OF \<open>policy_ok p0\<close> int] validate_sorted_policy [OF assms(3) int] by simp
  then have "sorted_policy p0 = sorted_policy p" by simp
  then show ?thesis
    using written_is_read [OF assms(2) w] k(1) \<open>dig0 = dig\<close> rv b by (simp add: current_file_def)
qed

text \<open>Whatever branch publishing takes, what it returned is what the loader then reads.\<close>

definition reads_as :: "snapshot_env \<Rightarrow> snapshot_dir \<Rightarrow> snapshot \<Rightarrow> bool" where
  "reads_as env s sn \<longleftrightarrow> read_snapshot env True (current_file s) = Inr sn"

lemma publish_read_back:
  assumes "published_dir env s" "signing_ok env" and p: "validate_policy (se_as_int env) pv = Inr p"
    and "publishable env d p" "redumped d = d" "small_revision (latest s + 1)" and "publish env cr ok1 ok2 d pv s = (Inr rv, s')"
  shows "\<exists>sn. reads_as env s' sn \<and> rv = JInt (sn_revision sn) \<and> sn_policy sn = sorted_policy p \<and>
    connection_digest env d = Inr (sn_connection_digest sn) \<and>
    (s' = s \<or> sn_deployment sn = ordered d \<and> sn_revision sn = int (latest s) + 1 \<and> latest s' = latest s + 1)"
proof -
  have ok: "policy_ok p" using p by (rule validated_policy_ok)
  consider "s' = s" "publish_keeps env d p s rv" | "publish_writes env cr ok1 ok2 d p s (Inr rv) s'"
    using publish_outcome [OF assms(7) p] by blast
  then show ?thesis
  proof cases
    case 1
    then show ?thesis
      using publish_keeps_read [OF published_dir_kept [OF assms(1)] assms(2) ok] by (auto simp: reads_as_def)
  next
    case 2
    then obtain dig b where b: "connection_digest env d = Inr dig"
        "envelope_of env (payload_of env (latest s + 1) dig cr d p) = Inr b" "length b \<le> MAX_SNAPSHOT_BYTES"
        "rv = JInt (int (latest s + 1))" "s' = (write_history (latest s + 1) b s)\<lparr>sd_current := Some b\<rparr>"
      by (auto simp: publish_writes_def split: if_splits)
    have w: "written_envelope env (latest s + 1) dig cr d p b"
      using b(1-3) assms(4-6) ok by (simp add: written_envelope_def)
    have cur: "current_file s' = File_bytes b" by (simp add: b(5) current_file_def)
    have "latest s' = latest s + 1" unfolding b(5) latest_current by (rule latest_write)
    then show ?thesis using written_is_read [OF assms(2) w] b(1,4) by (simp add: reads_as_def cur)
  qed
qed

end
