(* ===== verification/Dataplane_Facts.thy ===== *)
theory Dataplane_Facts
  imports Snapshot_Runs
begin

text \<open>
  What one refresh of the data plane can do (\<open>refresh_outcome\<close>), and what stays true of the state over
  any sequence of refreshes of whatever the directory holds (\<open>refresh_run\<close>).
\<close>

subsection \<open>Signed snapshots\<close>

text \<open>What a snapshot that was taken from a file rests on: the file is an envelope with a payload and a signature,
  the signature is one of the canonical bytes of that payload under the trusted key, and every field of the
  snapshot is read from it.\<close>

definition signed_in :: "snapshot_env \<Rightarrow> file_read \<Rightarrow> snapshot \<Rightarrow> bool" where
  "signed_in env file sn \<longleftrightarrow>
     (\<exists>raw envelope payload coded sig msg dv pv rv. file = File_bytes raw \<and> json_bytes (se_crypto env) raw = Inr envelope \<and>
        obj_get envelope (uni ''payload'') = Some payload \<and> obj_get envelope (uni ''signature'') = Some (JStr coded) \<and>
        b64decode coded = Some sig \<and> canonical payload = Inr msg \<and> se_verify env sig msg \<and>
        obj_get payload (uni ''revision'') = Some rv \<and> int_value rv = Some (sn_revision sn) \<and> 1 \<le> sn_revision sn \<and>
        obj_get payload (uni ''deployment'') = Some dv \<and> load_deployment env dv = Inr (sn_deployment sn) \<and>
        obj_get payload (uni ''policy'') = Some pv \<and> validate_policy (se_as_int env) pv = Inr (sn_policy sn) \<and>
        obj_get payload (uni ''connection_digest'') = Some (JStr (sn_connection_digest sn)) \<and>
        connection_digest env (sn_deployment sn) = Inr (sn_connection_digest sn))"

lemma dict_item_Inr: "dict_item v k = Inr x \<Longrightarrow> obj_get v (uni k) = Some x"
  by (cases v) (auto simp: dict_item_def split: option.splits)

lemma caught_as_Inr: "caught_as code r = Inr x \<longleftrightarrow> r = Inr x"
  by (cases "(code, r)" rule: caught_as.cases) simp_all

lemma escaping_Inr: "escaping r = Inr x \<longleftrightarrow> r = Inr x"
  by (cases r) (simp_all add: escaping_def)

lemma check_signed:
  assumes "check_signed_payload env payload sig = Inr sn"
  shows "(\<exists>msg. canonical payload = Inr msg \<and> se_verify env sig msg) \<and>
    load_contents env payload = Inr (sn_revision sn, sn_deployment sn, sn_policy sn) \<and>
    obj_get payload (uni ''connection_digest'') = Some (JStr (sn_connection_digest sn)) \<and>
    connection_digest env (sn_deployment sn) = Inr (sn_connection_digest sn)"
  using assms
  by (auto simp: check_signed_payload_def rbind_Inr_iff rguard_def escaping_Inr caught_as_Inr split: if_splits)

lemma loaded_contents:
  assumes "load_contents env payload = Inr (r, d, p)"
  shows "\<exists>dv pv rv. obj_get payload (uni ''revision'') = Some rv \<and> int_value rv = Some r \<and> 1 \<le> r \<and>
    obj_get payload (uni ''deployment'') = Some dv \<and> load_deployment env dv = Inr d \<and>
    obj_get payload (uni ''policy'') = Some pv \<and> validate_policy (se_as_int env) pv = Inr p"
proof -
  obtain dv pv rv where i: "dict_item payload ''deployment'' = Inr dv" "load_deployment env dv = Inr d"
      "dict_item payload ''policy'' = Inr pv" "validate_policy (se_as_int env) pv = Inr p"
      "dict_item payload ''revision'' = Inr rv"
      and rv: "(case int_value rv of Some r \<Rightarrow> if r < 1 then Inl (Value_error ''revision'') else Inr (r, d, p)
        | None \<Rightarrow> Inl (Value_error ''revision'')) = Inr (r, d, p)"
    using assms unfolding load_contents_def rbind_Inr_iff by (auto split: option.splits if_splits)
  have "int_value rv = Some r \<and> 1 \<le> r" using rv by (cases "int_value rv") (auto split: if_splits)
  then show ?thesis using i dict_item_Inr by blast
qed

lemma decoded_signature: "decode_signature v = Inr b \<Longrightarrow> \<exists>coded. v = JStr coded \<and> b64decode coded = Some b"
  by (cases v) (auto simp: decode_signature_def split: if_splits option.splits)

lemma opened_envelope:
  assumes "open_envelope env raw = Inr (payload, sig)"
  shows "\<exists>envelope coded. json_bytes (se_crypto env) raw = Inr envelope \<and>
    obj_get envelope (uni ''payload'') = Some payload \<and> obj_get envelope (uni ''signature'') = Some (JStr coded) \<and>
    b64decode coded = Some sig"
proof -
  obtain envelope v where e: "json_bytes (se_crypto env) raw = Inr envelope" "dict_item envelope ''payload'' = Inr payload"
      "dict_item envelope ''signature'' = Inr v" "decode_signature v = Inr sig"
    using assms unfolding open_envelope_def rbind_Inr_iff by auto
  then show ?thesis using dict_item_Inr decoded_signature by blast
qed

lemma read_snapshot_signed:
  assumes "read_snapshot env key_ok file = Inr sn"
  shows "signed_in env file sn"
proof -
  obtain raw payload sig where raw: "file = File_bytes raw" "open_envelope env raw = Inr (payload, sig)"
      "check_signed_payload env payload sig = Inr sn"
    using assms by (auto simp: read_snapshot_def rbind_Inr_iff caught_as_Inr split: if_splits file_read.splits)
  note checked = check_signed [OF raw(3)]
  obtain envelope coded where e: "json_bytes (se_crypto env) raw = Inr envelope"
      "obj_get envelope (uni ''payload'') = Some payload" "obj_get envelope (uni ''signature'') = Some (JStr coded)"
      "b64decode coded = Some sig"
    using opened_envelope [OF raw(2)] by blast
  obtain dv pv rv where l: "obj_get payload (uni ''revision'') = Some rv \<and> int_value rv = Some (sn_revision sn) \<and>
      1 \<le> sn_revision sn \<and> obj_get payload (uni ''deployment'') = Some dv \<and> load_deployment env dv = Inr (sn_deployment sn) \<and>
      obj_get payload (uni ''policy'') = Some pv \<and> validate_policy (se_as_int env) pv = Inr (sn_policy sn)"
    using loaded_contents checked by blast
  obtain msg where "canonical payload = Inr msg" "se_verify env sig msg" using checked by blast
  then show ?thesis
    unfolding signed_in_def using raw(1) e l checked by blast
qed

subsection \<open>One refresh\<close>

text \<open>The fields that decide about requests.\<close>

definition enforcing :: "dataplane \<Rightarrow> snapshot option \<times> inspection_config option \<times> policy option" where
  "enforcing st = (dl_snapshot st, dl_engine st, dl_policy st)"

text \<open>A snapshot that may replace the current one: it verifies, is on the expected connection and newer,
  and its policy compiles.\<close>

definition acceptable :: "dataplane_env \<Rightarrow> file_read \<Rightarrow> dataplane \<Rightarrow> snapshot \<Rightarrow> inspection_config \<Rightarrow> bool" where
  "acceptable env file st sn c \<longleftrightarrow>
     read_snapshot (de_snapshot env) True file = Inr sn \<and>
     (truthy (de_expected env) \<longrightarrow> Some (sn_connection_digest sn) = de_expected env) \<and>
     (\<forall>cur. dl_snapshot st = Some cur \<longrightarrow>
        sn_revision cur < sn_revision sn \<and> sn_connection_digest sn = sn_connection_digest cur) \<and>
     inspection_config_of (sn_deployment sn) (sn_policy sn) (de_directory env) = Inr c"

lemma read_snapshot_key: "read_snapshot env key_ok file = Inr sn \<Longrightarrow> key_ok"
  by (cases key_ok) (simp_all add: read_snapshot_def)

lemma build_outcome:
  assumes "build_and_accept env built sn fp st = (r, st')"
  shows "r \<noteq> Inr True \<and> enforcing st' = enforcing st \<or>
    (\<exists>c. r = Inr True \<and> inspection_config_of (sn_deployment sn) (sn_policy sn) (de_directory env) = Inr c \<and>
       enforcing st' = (Some sn, Some c, Some (sn_policy sn)))"
proof (cases "rbind (inspection_config_of (sn_deployment sn) (sn_policy sn) (de_directory env))
    (\<lambda>c. case built of None \<Rightarrow> Inr c | Some e \<Rightarrow> Inl e)")
  case (Inl e)
  then show ?thesis
    using assms by (cases "value_or_os_error e") (auto simp: build_and_accept_def reject_def enforcing_def)
next
  case (Inr c)
  then have "inspection_config_of (sn_deployment sn) (sn_policy sn) (de_directory env) = Inr c"
    by (cases built) (auto simp: rbind_Inr_iff)
  then show ?thesis
    using assms Inr by (auto simp: build_and_accept_def accept_def enforcing_def)
qed

lemma refresh_outcome:
  assumes "refresh env force fp key_ok file built st = (r, st')"
  shows "r \<noteq> Inr True \<and> enforcing st' = enforcing st \<or>
    (\<exists>sn c. r = Inr True \<and> acceptable env file st sn c \<and> enforcing st' = (Some sn, Some c, Some (sn_policy sn)))"
proof (cases "unchanged_file force fp st")
  case True
  then show ?thesis using assms by (auto simp: refresh_def)
next
  case False
  note ref = assms [unfolded refresh_def if_not_P [OF False]]
  show ?thesis
  proof (cases "read_snapshot (de_snapshot env) key_ok file")
    case (Inl e)
    then show ?thesis using ref by (cases e) (auto simp: reject_def enforcing_def)
  next
    case sn: (Inr sn)
    have read: "read_snapshot (de_snapshot env) True file = Inr sn" using sn read_snapshot_key [OF sn] by simp
    show ?thesis
    proof (cases "consider_snapshot env built sn fp st = build_and_accept env built sn fp st \<and>
        (truthy (de_expected env) \<longrightarrow> Some (sn_connection_digest sn) = de_expected env) \<and>
        (\<forall>cur. dl_snapshot st = Some cur \<longrightarrow>
          sn_revision cur < sn_revision sn \<and> sn_connection_digest sn = sn_connection_digest cur)")
      case True
      then have "build_and_accept env built sn fp st = (r, st')" using ref sn by simp
      from build_outcome [OF this] show ?thesis using True read unfolding acceptable_def by blast
    next
      case False
      have "consider_snapshot env built sn fp st = (r, st')" using ref sn by simp
      then show ?thesis
        using False
        by (auto simp: consider_snapshot_def reject_def enforcing_def split: if_splits option.splits)
    qed
  qed
qed

lemma refresh_acceptable:
  assumes "acceptable env file st sn c" and "\<not> unchanged_file force fp st"
  shows "\<exists>st'. refresh env force fp True file None st = (Inr True, st') \<and>
    enforcing st' = (Some sn, Some c, Some (sn_policy sn))"
proof -
  have read: "read_snapshot (de_snapshot env) True file = Inr sn"
    and exp: "\<not> (truthy (de_expected env) \<and> Some (sn_connection_digest sn) \<noteq> de_expected env)"
    and new: "\<And>cur. dl_snapshot st = Some cur \<Longrightarrow>
        sn_revision cur < sn_revision sn \<and> sn_connection_digest sn = sn_connection_digest cur"
    and c: "inspection_config_of (sn_deployment sn) (sn_policy sn) (de_directory env) = Inr c"
    using assms(1) by (auto simp: acceptable_def)
  have "consider_snapshot env None sn fp st = accept sn c fp st"
    unfolding consider_snapshot_def if_not_P [OF exp]
    using new by (cases "dl_snapshot st") (auto simp: build_and_accept_def c)
  then show ?thesis using assms(2) by (simp add: refresh_def read accept_def enforcing_def)
qed

subsection \<open>Runs\<close>

text \<open>Any number of refreshes: forced or not, with any file, any state of the trust key and any failure
  to build the engine; \<open>fs\<close> are the files that were looked at.\<close>

inductive refresh_run :: "dataplane_env \<Rightarrow> dataplane \<Rightarrow> file_read list \<Rightarrow> dataplane \<Rightarrow> bool" for env where
  Done: "refresh_run env st [] st"
| Tick: "refresh_run env st fs st1 \<Longrightarrow> refresh env force fp key_ok file built st1 = (r, st2) \<Longrightarrow>
    refresh_run env st (fs @ [file]) st2"

text \<open>The state is new, or enforces a snapshot that one of the files holds under a valid signature.\<close>

definition enforces_one_of :: "dataplane_env \<Rightarrow> file_read list \<Rightarrow> dataplane \<Rightarrow> bool" where
  "enforces_one_of env fs st \<longleftrightarrow>
     enforcing st = (None, None, None) \<or>
     (\<exists>file sn c. file \<in> set fs \<and> signed_in (de_snapshot env) file sn \<and>
        inspection_config_of (sn_deployment sn) (sn_policy sn) (de_directory env) = Inr c \<and>
        enforcing st = (Some sn, Some c, Some (sn_policy sn)))"

lemma enforces_one_of_mono: "enforces_one_of env fs st \<Longrightarrow> set fs \<subseteq> set gs \<Longrightarrow> enforces_one_of env gs st"
  unfolding enforces_one_of_def by blast

lemma enforces_one_of_cong: "enforces_one_of env fs st \<Longrightarrow> enforcing st' = enforcing st \<Longrightarrow> enforces_one_of env fs st'"
  unfolding enforces_one_of_def by simp

text \<open>The order between two states of one run.\<close>

definition not_older :: "dataplane \<Rightarrow> dataplane \<Rightarrow> bool" where
  "not_older st st' \<longleftrightarrow>
     (case dl_snapshot st of
        None \<Rightarrow> True
      | Some sn \<Rightarrow> (case dl_snapshot st' of
          None \<Rightarrow> False
        | Some sn' \<Rightarrow> sn' = sn \<or>
            sn_revision sn < sn_revision sn' \<and> sn_connection_digest sn' = sn_connection_digest sn))"

lemma not_older_refl: "dl_snapshot st' = dl_snapshot st \<Longrightarrow> not_older st st'"
  by (simp add: not_older_def split: option.splits)

lemma not_older_trans: "not_older a b \<Longrightarrow> not_older b c \<Longrightarrow> not_older a c"
  by (auto simp: not_older_def split: option.splits)

lemma refresh_not_older:
  assumes "refresh env force fp key_ok file built st = (r, st')"
  shows "not_older st st'"
proof -
  consider "dl_snapshot st' = dl_snapshot st"
    | sn c where "acceptable env file st sn c" "dl_snapshot st' = Some sn"
    using refresh_outcome [OF assms] by (auto simp: enforcing_def)
  then show ?thesis
  proof cases
    case 2
    then show ?thesis by (simp add: not_older_def acceptable_def split: option.splits)
  qed (rule not_older_refl)
qed

lemma run_not_older: "refresh_run env st fs st' \<Longrightarrow> not_older st st'"
  by (induction rule: refresh_run.induct) (blast intro: not_older_refl not_older_trans refresh_not_older)+

lemma run_enforces:
  "refresh_run env st fs st' \<Longrightarrow> enforcing st = (None, None, None) \<Longrightarrow> enforces_one_of env fs st'"
proof (induction rule: refresh_run.induct)
  case (Done st)
  then show ?case by (simp add: enforces_one_of_def)
next
  case (Tick st fs st1 force fp key_ok f built r st2)
  have old: "enforces_one_of env (fs @ [f]) st1" using Tick.IH Tick.prems by (auto intro: enforces_one_of_mono)
  consider "enforcing st2 = enforcing st1"
    | sn c where "acceptable env f st1 sn c" "enforcing st2 = (Some sn, Some c, Some (sn_policy sn))"
    using refresh_outcome [OF Tick.hyps(2)] by blast
  then show ?case
  proof cases
    case 1
    then show ?thesis using old by (rule enforces_one_of_cong [rotated])
  next
    case 2
    then have "signed_in (de_snapshot env) f sn" using read_snapshot_signed by (auto simp: acceptable_def)
    then show ?thesis using 2 unfolding acceptable_def enforces_one_of_def by auto
  qed
qed

lemma refresh_run_trans: "refresh_run env b gs c \<Longrightarrow> refresh_run env a fs b \<Longrightarrow> refresh_run env a (fs @ gs) c"
  by (induction rule: refresh_run.induct) (auto simp flip: append_assoc intro: refresh_run.Tick)

end
