(* ===== verification/Policy_Properties.thy ===== *)
theory Policy_Properties
  imports Policy_Facts Deployment_Facts Py_Eval
begin

text \<open>
  Compiling a policy with a validated deployment: it succeeds exactly when the policy decides the rules of
  that deployment, and the first policy that is seeded reproduces the deployment's own rules.
\<close>

subsection \<open>Entries of a validated deployment\<close>

lemma route_names_ruled:
  assumes "route_contract nl r" and "(k, name, rule) \<in> set (route_names n r)"
  shows "rule \<noteq> None"
proof (cases "rr_protocol r = Mcp")
  case True
  then show ?thesis using assms(2) by (auto simp: route_names_def)
next
  case False
  then have "rule = rr_rule r" "route_rules r = [rr_rule r]" using assms(2) by (auto simp: route_names_def route_rules_def)
  then show ?thesis using assms(1) by (auto simp: route_contract_def)
qed

lemma entries_ruled:
  "list_all (route_contract nl) rs \<Longrightarrow> (k, name, rule) \<in> set (entries_from n rs) \<Longrightarrow> rule \<noteq> None"
proof (induction rs arbitrary: n)
  case (Cons r rs)
  then show ?case
    unfolding entries_from_names set_append using route_names_ruled by (auto simp del: entries_from.simps)
qed simp

lemma validated_fields:
  assumes "validate_deployment ue d = Inr d'"
  shows "deployment_fields_ok d'"
proof -
  obtain x where "deployment_fields_ok x" "x = d'"
    using assms by (auto simp: validate_deployment_def rbind_Inr_iff Let_def check_def split: if_splits)
  then show ?thesis by simp
qed

subsection \<open>Compilation is total\<close>

lemma same_keys_decides: "same_keys d p \<Longrightarrow> (k, name, rule) \<in> set (deployment_entries d) \<Longrightarrow> decides p k"
  by (force simp: same_keys_def entry_keys_def decides_iff)

lemma compile_cases:
  "inspection_config_of d p dir =
     (if \<not> same_keys d p then
        Inl (Value_error ''Route mappings changed. Migrate the saved policy explicitly before startup.'')
      else rbind (switch_routes p 0 (dp_routes d)) (\<lambda>routes.
        if 1024 \<le> dp_max_body_bytes d \<and> dp_max_body_bytes d \<le> 16777216
        then Inr \<lparr>ic_access_broker_enabled = ab_enabled (dp_access_broker d),
              ic_trusted_sources = [uni ''selfhost-adapter''], ic_routes = routes,
              ic_allowed_egress_origins = [], ic_credential_headers = credential_header_list d,
              ic_max_body_bytes = dp_max_body_bytes d, ic_max_json_depth = 32,
              ic_pii_action = po_pii_action p, ic_pii_min_score = 7 / 20,
              ic_attestation_max_age_seconds = 60,
              ic_nonce_db = dir @ uni ''/nonces.sqlite'', ic_broker_store = dir @ uni ''/broker.json'',
              ic_audit_path = dir @ uni ''/inspection.jsonl''\<rparr>
        else Inl (Value_error ''validation'')))"
  by (simp add: inspection_config_of_def Let_def inspection_config_ok_def)

lemma compile_validated:
  assumes "validate_deployment ue d0 = Inr d" and "same_keys d p"
  obtains c where "inspection_config_of d p dir = Inr c" "switch_routes p 0 (dp_routes d) = Inr (ic_routes c)"
    "inspection_config_ok c"
proof -
  obtain nl where contract: "list_all (route_contract nl) (dp_routes d)"
    using validate_deployment_routes [OF assms(1)] by blast
  have "\<forall>k name rule. (k, name, rule) \<in> set (entries_from 0 (dp_routes d)) \<longrightarrow> rule \<noteq> None \<and> decides p k"
    using entries_ruled [OF contract] same_keys_decides [OF assms(2)] by (simp add: deployment_entries_def)
  then obtain rs where rs: "switch_routes p 0 (dp_routes d) = Inr rs" using switch_routes_total by blast
  have "1024 \<le> dp_max_body_bytes d \<and> dp_max_body_bytes d \<le> 16777216"
    using validated_fields [OF assms(1)] by (simp add: deployment_fields_ok_def)
  then obtain c where c: "inspection_config_of d p dir = Inr c" "ic_routes c = rs"
    using assms(2) rs by (simp add: compile_cases)
  moreover have "inspection_config_ok c"
    using c(1) by (auto simp: inspection_config_of_def rbind_Inr_iff Let_def split: if_splits)
  ultimately show ?thesis using that rs by blast
qed

lemma credential_header_cases:
  "ta_mode (dp_target_auth d) \<noteq> Static_api_key \<Longrightarrow> credential_header_list d = []"
  "ta_header (dp_target_auth d) = None \<Longrightarrow> credential_header_list d = []"
  "ta_mode (dp_target_auth d) = Static_api_key \<Longrightarrow> ta_header (dp_target_auth d) = Some h \<Longrightarrow>
     credential_header_list d = [h]"
  by (simp_all add: credential_header_list_def)

lemma credential_header_member:
  "h \<in> set (credential_header_list d) \<longleftrightarrow>
     ta_mode (dp_target_auth d) = Static_api_key \<and> ta_header (dp_target_auth d) = Some h"
  by (cases "ta_mode (dp_target_auth d) = Static_api_key"; cases "ta_header (dp_target_auth d)")
    (auto simp: credential_header_cases)

lemma compiled_fields:
  assumes "inspection_config_of d p dir = Inr c"
  shows "ic_access_broker_enabled c = ab_enabled (dp_access_broker d) \<and> ic_max_body_bytes c = dp_max_body_bytes d \<and>
    ic_credential_headers c = credential_header_list d \<and> ic_pii_action c = po_pii_action p \<and>
    ic_nonce_db c = dir @ uni ''/nonces.sqlite'' \<and> ic_broker_store c = dir @ uni ''/broker.json'' \<and>
    ic_audit_path c = dir @ uni ''/inspection.jsonl'' \<and>
    ic_trusted_sources c = [uni ''selfhost-adapter''] \<and> ic_allowed_egress_origins c = [] \<and>
    ic_max_json_depth c = 32 \<and> ic_pii_min_score c = 7 / 20 \<and> ic_attestation_max_age_seconds c = 60"
  using assms by (auto simp: inspection_config_of_def rbind_Inr_iff Let_def split: if_splits)

subsection \<open>The seeded policy\<close>

lemma switched_own:
  assumes "decides p k" "decided p k rule = rule"
  shows "switched p k rule = Inr rule"
  using assms by (simp add: switched_total)

lemma switch_tools_own:
  "\<forall>name rule. (name, rule) \<in> set ts \<longrightarrow> decides p (dec_nat n @ uni '':'' @ name) \<and>
     decided p (dec_nat n @ uni '':'' @ name) rule = rule \<Longrightarrow> switch_tools p n ts = Inr ts"
proof (induction ts)
  case (Cons t ts)
  obtain name rule where t: "t = (name, rule)" by fastforce
  have "switch_tools p n ts = Inr ts" using Cons by auto
  moreover have "switched p (dec_nat n @ uni '':'' @ name) rule = Inr rule" using Cons.prems t by (simp add: switched_own)
  ultimately show ?case by (simp add: t)
qed simp

definition own_entry :: "policy \<Rightarrow> pystr \<times> pystr \<times> tool_rule option \<Rightarrow> bool" where
  "own_entry p = (\<lambda>(k, name, rule). decides p k \<and> (\<exists>t. rule = Some t \<and> decided p k t = t))"

lemma switch_route_own:
  assumes "\<forall>e \<in> set (route_names n r). own_entry p e"
  shows "switch_route p n r = Inr r"
proof (cases "rr_protocol r = Mcp")
  case True
  have "\<forall>name rule. (name, rule) \<in> set (rr_tools r) \<longrightarrow> decides p (dec_nat n @ uni '':'' @ name) \<and>
     decided p (dec_nat n @ uni '':'' @ name) rule = rule"
  proof (intro allI impI)
    fix name rule assume "(name, rule) \<in> set (rr_tools r)"
    then have "(dec_nat n @ uni '':'' @ name, name, Some rule) \<in> set (route_names n r)"
      using True by (force simp: route_names_def)
    from bspec [OF assms this] show "decides p (dec_nat n @ uni '':'' @ name) \<and>
       decided p (dec_nat n @ uni '':'' @ name) rule = rule" by (simp add: own_entry_def)
  qed
  then show ?thesis using True by (simp add: switch_route_def switch_tools_own)
next
  case False
  then have "own_entry p (dec_nat n @ uni '':'' @ rr_tool r, rr_tool r, rr_rule r)"
    using assms by (simp add: route_names_def)
  then show ?thesis using False by (auto simp: switch_route_def own_entry_def switched_own)
qed

lemma switch_routes_own: "\<forall>e \<in> set (entries_from n rs). own_entry p e \<Longrightarrow> switch_routes p n rs = Inr rs"
proof (induction rs arbitrary: n)
  case (Cons r rs)
  then have "switch_route p n r = Inr r" "switch_routes p (Suc n) rs = Inr rs"
    by (auto simp: entries_from_names switch_route_own simp del: entries_from.simps)
  then show ?case by simp
qed simp

text \<open>The keys of two entries differ: the index ends at the first colon.\<close>

lemma index_keys:
  assumes "dec_nat m @ uni '':'' @ a = dec_nat n @ uni '':'' @ b"
  shows "m = n \<and> a = b"
proof -
  have stop: "takeWhile is_digit (dec_nat i @ uni '':'' @ s) = dec_nat i" for i s
  proof -
    have "takeWhile is_digit (dec_nat i @ uni '':'' @ s) = dec_nat i @ takeWhile is_digit (uni '':'' @ s)"
      by (rule takeWhile_append2) (rule dec_nat_digits)
    then show ?thesis by (simp add: uni_def is_digit_def)
  qed
  have "dec_nat m = dec_nat n" using stop [of m a] stop [of n b] assms by simp
  then show ?thesis using assms by (simp add: dec_nat_inj)
qed

lemma entry_index: "e \<in> set (entries_from n rs) \<Longrightarrow> \<exists>m name. n \<le> m \<and> fst e = dec_nat m @ uni '':'' @ name"
proof (induction rs arbitrary: n)
  case (Cons r rs)
  then consider "e \<in> set (route_names n r)" | "e \<in> set (entries_from (Suc n) rs)"
    unfolding entries_from_names by auto
  then show ?case
  proof cases
    case 1
    then show ?thesis by (auto simp: route_names_def split: if_splits)
  next
    case 2
    then show ?thesis using Cons.IH by (metis Suc_leD)
  qed
qed simp

lemma distinct_entry_keys:
  "list_all (\<lambda>r. distinct (dkeys (rr_tools r))) rs \<Longrightarrow> distinct (map fst (entries_from n rs))"
proof (induction rs arbitrary: n)
  case (Cons r rs)
  have own: "distinct (map fst (route_names n r))"
  proof -
    have "map fst (route_names n r) = map (\<lambda>name. dec_nat n @ uni '':'' @ name)
        (if rr_protocol r = Mcp then dkeys (rr_tools r) else [rr_tool r])"
      by (simp add: route_names_def comp_def case_prod_beta)
    then show ?thesis using Cons.prems by (simp add: distinct_map inj_on_def)
  qed
  have "fst e \<noteq> fst e'" if first: "e \<in> set (route_names n r)" and later: "e' \<in> set (entries_from (Suc n) rs)" for e e'
  proof -
    have "\<exists>a. fst e = dec_nat n @ uni '':'' @ a" using first by (auto simp: route_names_def split: if_splits)
    then obtain a where a: "fst e = dec_nat n @ uni '':'' @ a" ..
    obtain m b where b: "Suc n \<le> m" "fst e' = dec_nat m @ uni '':'' @ b" using entry_index [OF later] by blast
    show ?thesis
    proof
      assume "fst e = fst e'"
      then have "dec_nat n @ uni '':'' @ a = dec_nat m @ uni '':'' @ b" by (simp only: a b(2))
      from index_keys [OF this] b(1) show False by simp
    qed
  qed
  then show ?case
    unfolding entries_from_names map_append distinct_append using own Cons by auto
qed simp

lemma fold_dset_entries:
  assumes "distinct (map fst es)"
  shows "fold (\<lambda>(k, n, rule) acc. dset k (f rule) acc) es [] = map (\<lambda>(k, n, rule). (k, f rule)) es"
proof -
  have "fold (\<lambda>(k, v). dset k v) (map (\<lambda>(k, n, rule). (k, f rule)) es) [] = map (\<lambda>(k, n, rule). (k, f rule)) es"
    using fold_dset_fresh [of "[]" "map (\<lambda>(k, n, rule). (k, f rule)) es"] assms
    by (simp add: comp_def case_prod_beta)
  then show ?thesis by (simp add: fold_map comp_def split_def)
qed

lemma map_of_entries:
  assumes "distinct (map fst es)" "(k, n, rule) \<in> set es"
  shows "map_of (map (\<lambda>(k, n, rule). (k, f rule)) es) k = Some (f rule)"
proof (rule map_of_is_SomeI)
  show "distinct (map fst (map (\<lambda>(k, n, rule). (k, f rule)) es))" using assms(1) by (simp add: comp_def case_prod_beta)
  show "(k, f rule) \<in> set (map (\<lambda>(k, n, rule). (k, f rule)) es)" using assms(2) by force
qed

text \<open>What the first policy decides is what the deployment file says.\<close>

lemma seeded_policy_own:
  assumes "validate_deployment ue d0 = Inr d" and tools: "list_all (\<lambda>r. distinct (dkeys (rr_tools r))) (dp_routes d)"
  shows "\<exists>p c. seeded_policy d = Inr p \<and> inspection_config_of d p dir = Inr c \<and> ic_routes c = dp_routes d"
proof -
  let ?es = "deployment_entries d"
  obtain nl where contract: "list_all (route_contract nl) (dp_routes d)"
    using validate_deployment_routes [OF assms(1)] by blast
  have keys: "distinct (map fst ?es)" unfolding deployment_entries_def by (rule distinct_entry_keys [OF tools])
  define p where "p = default_policy
        \<lparr>po_rules := map (\<lambda>(k, n, rule). (k, tr_effect (the rule))) ?es,
         po_pii_rules := map (\<lambda>(k, n, rule). (k, tr_pii_action (the rule))) ?es\<rparr>"
  have "\<not> list_ex (\<lambda>(k, n, rule). rule = None) ?es"
    using entries_ruled [OF contract] by (auto simp: list_ex_iff deployment_entries_def)
  then have seeded: "seeded_policy d = Inr p"
    using fold_dset_entries [OF keys, of "\<lambda>rule. tr_effect (the rule)"]
      fold_dset_entries [OF keys, of "\<lambda>rule. tr_pii_action (the rule)"]
    by (simp add: seeded_policy_def p_def)
  have same: "same_keys d p"
    by (simp add: same_keys_def entry_keys_def p_def image_image case_prod_beta)
  have "own_entry p e" if "e \<in> set ?es" for e
  proof -
    obtain k name rule where e: "e = (k, name, rule)" by (cases e)
    have "rule \<noteq> None" using that by (intro entries_ruled [OF contract]) (simp add: e deployment_entries_def)
    then obtain t where t: "rule = Some t" by blast
    show ?thesis
      using map_of_entries [OF keys, of k name rule "\<lambda>rule. tr_effect (the rule)"] that
        map_of_entries [OF keys, of k name rule "\<lambda>rule. tr_pii_action (the rule)"]
      by (simp add: own_entry_def e t decides_def decided_def p_def)
  qed
  then have "switch_routes p 0 (dp_routes d) = Inr (dp_routes d)"
    by (intro switch_routes_own) (simp add: deployment_entries_def)
  moreover obtain c where "inspection_config_of d p dir = Inr c" "switch_routes p 0 (dp_routes d) = Inr (ic_routes c)"
    using compile_validated [OF assms(1) same] by blast
  ultimately show ?thesis using seeded by auto
qed

subsection \<open>Claims on compilation\<close>

text \<open>C34: compiling a policy with a validated deployment never fails half way: it is refused exactly when
  the keys of the policy are not those of the deployment, and otherwise gives a configuration that
  satisfies the engine's constraints, in which every rule has the effect and PII action the policy
  decides for its key and every other field of every route is the deployment's.  Every other field is pinned as well: the
  access broker and the body limit are the deployment's, the only headers named as credentials are the one of a static API key,
  the PII action is the policy's, the three files are in the given directory, only the gateway is a trusted source, no egress origin
  is allowed, and the JSON depth, the PII score and the age of an attestation are the defaults of the contract.\<close>

theorem policy_compiles:
  assumes "validate_deployment ue d0 = Inr d"
  shows "case inspection_config_of d p dir of
      Inl e \<Rightarrow> \<not> same_keys d p \<and>
        e = Value_error ''Route mappings changed. Migrate the saved policy explicitly before startup.''
    | Inr c \<Rightarrow> same_keys d p \<and> inspection_config_ok c \<and>
        entries_from 0 (ic_routes c) = map (decided_entry p) (deployment_entries d) \<and>
        map without_rules (ic_routes c) = map without_rules (dp_routes d) \<and>
        ic_access_broker_enabled c = ab_enabled (dp_access_broker d) \<and>
        ic_max_body_bytes c = dp_max_body_bytes d \<and>
        (\<forall>h. h \<in> set (ic_credential_headers c) \<longleftrightarrow>
           ta_mode (dp_target_auth d) = Static_api_key \<and> ta_header (dp_target_auth d) = Some h) \<and>
        ic_pii_action c = po_pii_action p \<and>
        ic_nonce_db c = dir @ uni ''/nonces.sqlite'' \<and> ic_broker_store c = dir @ uni ''/broker.json'' \<and>
        ic_audit_path c = dir @ uni ''/inspection.jsonl'' \<and>
        ic_trusted_sources c = [uni ''selfhost-adapter''] \<and> ic_allowed_egress_origins c = [] \<and>
        ic_max_json_depth c = 32 \<and> ic_pii_min_score c = 7 / 20 \<and> ic_attestation_max_age_seconds c = 60"
proof (cases "same_keys d p")
  case False
  then show ?thesis by (simp add: compile_cases)
next
  case True
  obtain c where c: "inspection_config_of d p dir = Inr c" "switch_routes p 0 (dp_routes d) = Inr (ic_routes c)"
      "inspection_config_ok c"
    using compile_validated [OF assms True] by blast
  then show ?thesis
    using True c switch_routes_Inr [OF c(2)] compiled_fields [OF c(1)] by (simp add: deployment_entries_def credential_header_member)
qed

definition demo_rule :: tool_rule where
  "demo_rule = \<lparr>tr_action = uni ''read'', tr_effect = Block_rule, tr_pii_action = None,
     tr_resource = Some (uni ''notes''), tr_resource_pointer = None, tr_header_parameters = []\<rparr>"

definition demo_mapped :: route_rule where
  "demo_mapped = \<lparr>rr_authority = uni ''h'', rr_path = uni ''/'', rr_method = uni ''GET'',
     rr_required_headers = [], rr_protocol = Http, rr_pii_action = None, rr_mcp_versions = [],
     rr_tool = uni ''get'', rr_rule = Some demo_rule, rr_tools = [], rr_llm_provider = None,
     rr_allowed_models = [], rr_redact_fields = []\<rparr>"

definition demo_site :: deployment where
  "demo_site = \<lparr>dp_upstream = uni ''http://h'', dp_llm = None, dp_allow_plaintext_upstream = True,
     dp_console_origin = uni ''http://c'', dp_gateway_auth = Client_key_auth,
     dp_access_broker = \<lparr>ab_enabled = False, ab_tenant_id = None\<rparr>,
     dp_target_auth = \<lparr>ta_mode = Target_none, ta_secret_file = None, ta_header = None, ta_prefix = []\<rparr>,
     dp_max_body_bytes = 1024, dp_gateway_max_inflight = 4,
     dp_gateway_admission_wait_ms = 0, dp_inspector_replicas = 1, dp_routes = [demo_mapped]\<rparr>"

definition demo_site_urls :: url_env where
  "demo_site_urls = \<lparr>netloc_ok = (\<lambda>_. True), idna = (\<lambda>h. Some h)\<rparr>"

definition demo_policy :: policy where
  "demo_policy = default_policy\<lparr>po_rules := [(uni ''0:get'', Allow_rule)],
     po_pii_rules := [(uni ''0:get'', Some Block_pii)]\<rparr>"

lemma demo_site_url: "urlsplit demo_site_urls (uni ''http://h'') =
    Some \<lparr>u_scheme = uni ''http'', u_netloc = uni ''h'', u_path = [], u_query = [], u_fragment = []\<rparr>"
  "urlsplit demo_site_urls (uni ''http://c'') =
    Some \<lparr>u_scheme = uni ''http'', u_netloc = uni ''c'', u_path = [], u_query = [], u_fragment = []\<rparr>"
  by (simp_all add: demo_site_urls_def urlsplit_def url_clean_def split_scheme_def split_netloc_def uni_def
      is_alpha_def scheme_char_def is_digit_def py_lower_def lower_char_def)

lemmas url_parts = http_scheme_def url_hostname_def url_credentials_def url_port_def url_hostinfo_def url_userinfo_def
  rpartition_at_def after_sep_def py_lower_def lower_char_def uni_def

lemma demo_site_valid: "validate_deployment demo_site_urls demo_site = Inr demo_site"
proof -
  have auth: "validate_gateway_auth demo_site_urls Client_key_auth = Inr Client_key_auth"
    by (simp add: validate_gateway_auth_def)
  have tenant: "validate_tenant (dp_access_broker demo_site) = Inr ()"
    by (simp add: validate_tenant_def demo_site_def check_def truthy_def)
  have target: "validate_target (dp_target_auth demo_site) = Inr (dp_target_auth demo_site)"
    by (simp add: validate_target_def demo_site_def check_def truthy_def)
  have upstream: "check_upstream \<lparr>u_scheme = uni ''http'', u_netloc = uni ''h'', u_path = [], u_query = [],
      u_fragment = []\<rparr> True = Inr ()"
    by (simp add: check_upstream_def check_def url_parts
      class_match_def host_char_def is_alnum_def is_alpha_def is_digit_def)
  have origin: "check_origin \<lparr>u_scheme = uni ''http'', u_netloc = uni ''c'', u_path = [], u_query = [],
      u_fragment = []\<rparr> = Inr ()"
    by (simp add: check_origin_def check_def url_parts)
  have routes: "check_routes (uni ''h'') [] (dp_routes demo_site) = Inr ()"
    by (simp add: check_route_def check_def demo_site_def demo_mapped_def demo_rule_def path_ok_def supported_methods_def
      route_rules_def rule_has_resource_def truthy_def uni_def)
  have contract: "validate_contract demo_site_urls demo_site = Inr ()"
    using upstream origin routes demo_site_url
    by (simp add: validate_contract_def demo_site_def check_modes_def check_profile_def check_def)
  have fields: "deployment_fields_ok demo_site" by (simp add: deployment_fields_ok_def demo_site_def)
  have same: "demo_site\<lparr>dp_gateway_auth := Client_key_auth, dp_target_auth := dp_target_auth demo_site\<rparr> = demo_site"
    "demo_site\<lparr>dp_gateway_auth := Client_key_auth\<rparr> = demo_site"
    by (simp_all add: demo_site_def)
  have "dp_llm demo_site = None" "dp_gateway_auth demo_site = Client_key_auth" by (simp_all add: demo_site_def)
  then show ?thesis
    by (simp add: validate_deployment_def auth tenant target Let_def same fields contract check_def)
qed

lemma demo_policy_keys: "same_keys demo_site demo_policy"
  by (simp add: same_keys_def demo_site_def demo_policy_def entry_keys_def deployment_entries_def demo_mapped_def
      uni_def dec_nat.simps)

theorem policy_compiles_witness:
  "\<exists>c. inspection_config_of demo_site demo_policy [] = Inr c \<and>
     entries_from 0 (ic_routes c) = [(uni ''0:get'', uni ''get'',
       Some (demo_rule\<lparr>tr_effect := Allow_rule, tr_pii_action := Some Block_pii\<rparr>))]"
proof -
  note claim = policy_compiles [OF demo_site_valid, of demo_policy "[]"]
  obtain c where c: "inspection_config_of demo_site demo_policy [] = Inr c"
    using claim demo_policy_keys by (cases "inspection_config_of demo_site demo_policy []") simp_all
  with claim have "entries_from 0 (ic_routes c) = map (decided_entry demo_policy) (deployment_entries demo_site)" by simp
  moreover have "map (decided_entry demo_policy) (deployment_entries demo_site) = [(uni ''0:get'', uni ''get'',
       Some (demo_rule\<lparr>tr_effect := Allow_rule, tr_pii_action := Some Block_pii\<rparr>))]"
    by (simp add: deployment_entries_def demo_site_def demo_mapped_def decided_entry_def decided_def demo_policy_def
      uni_def dec_nat.simps)
  ultimately show ?thesis using c by auto
qed

end
