(* ===== verification/Plain_Json.thy ===== *)
theory Plain_Json
  imports Snapshot Identity_Facts Sorted_Keys
begin

text \<open>
  Documents of plain ASCII text and integers: their canonical form is always defined, and how many bytes
  it takes at most (\<open>canonical_plain\<close>).
\<close>

fun plain_tree :: "json \<Rightarrow> bool" where
  "plain_tree (JStr s) = plain_text s"
| "plain_tree (JFloat r) = False"
| "plain_tree (JArr vs) = list_all plain_tree vs"
| "plain_tree (JObj ps) = list_all (\<lambda>(k, v). plain_text k \<and> plain_tree v) ps"
| "plain_tree v = True"

fun text_size :: "json \<Rightarrow> nat" where
  "text_size (JStr s) = 2 * length s + 2"
| "text_size (JInt i) = Suc (length (dec_nat (nat \<bar>i\<bar>)))"
| "text_size (JArr vs) = 2 + (\<Sum>v \<leftarrow> vs. Suc (text_size v))"
| "text_size (JObj ps) = 2 + (\<Sum>(k, v) \<leftarrow> ps. 2 * length k + text_size v + 4)"
| "text_size v = 5"

lemma ascii_append [simp]: "is_ascii (s @ t) \<longleftrightarrow> is_ascii s \<and> is_ascii t"
  "is_ascii (c # s) \<longleftrightarrow> c < 128 \<and> is_ascii s" "is_ascii []"
  by (auto simp: is_ascii_def)

lemma ascii_join: "\<forall>w \<in> set ws. is_ascii w \<Longrightarrow> is_ascii (join_with [44] ws)"
  by (induction "[44 :: nat]" ws rule: join_with.induct) auto

lemma ascii_dump_string: "plain_text s \<Longrightarrow> is_ascii (dump_string a s)"
  by (induction s) (auto simp: plain_text_def dump_string_def escape_char_def)

lemma ascii_digits: "is_ascii (dec_nat n)"
  using dec_nat_digits [of _ n] by (fastforce simp: is_ascii_def list_all_iff is_digit_def)

lemma ascii_dumps: "plain_tree v \<Longrightarrow> is_ascii (dumps a v)"
proof (induction v)
  case (JArr vs)
  then have "is_ascii (join_with [44] (map (dumps a) vs))" by (intro ascii_join) (auto simp: list_all_iff)
  then show ?case by simp
next
  case (JObj ps)
  have "is_ascii (dump_string a k @ 58 # dumps a v)" if "(k, v) \<in> set ps" for k v
    using JObj.IH [of "(k, v)" v] JObj.prems that by (auto simp: list_all_iff ascii_dump_string)
  then have "is_ascii (join_with [44] (map (\<lambda>(k, v). dump_string a k @ 58 # dumps a v) ps))"
    by (intro ascii_join) auto
  then show ?case by simp
qed (auto simp: ascii_dump_string dec_int_def ascii_digits uni_def)

lemma length_dumps: "plain_tree v \<Longrightarrow> length (dumps a v) \<le> text_size v"
proof (induction v)
  case (JArr vs)
  have "length (join_with [44] (map (dumps a) vs)) \<le> (\<Sum>w \<leftarrow> map (dumps a) vs. Suc (length w))"
    by (rule length_join_with)
  also have "\<dots> \<le> (\<Sum>v \<leftarrow> vs. Suc (text_size v))"
    unfolding map_map comp_def by (rule sum_list_mono) (use JArr in \<open>auto simp: list_all_iff\<close>)
  finally show ?case by simp
next
  case (JObj ps)
  let ?f = "\<lambda>(k, v). dump_string a k @ 58 # dumps a v"
  have "Suc (length (?f p)) \<le> (case p of (k, v) \<Rightarrow> 2 * length k + text_size v + 4)" if "p \<in> set ps" for p
  proof -
    obtain k v where p: "p = (k, v)" by fastforce
    then have "plain_text k" "length (dumps a v) \<le> text_size v"
      using JObj.IH [of "(k, v)" v] JObj.prems that by (auto simp: list_all_iff)
    then show ?thesis using length_dump_string [of k a] by (simp add: p)
  qed
  then have "(\<Sum>p \<leftarrow> ps. Suc (length (?f p))) \<le> (\<Sum>(k, v) \<leftarrow> ps. 2 * length k + text_size v + 4)"
    by (rule sum_list_mono)
  moreover have "length (join_with [44] (map ?f ps)) \<le> (\<Sum>p \<leftarrow> ps. Suc (length (?f p)))"
    using length_join_with [of 44 "map ?f ps"] by (simp add: comp_def)
  ultimately show ?case by simp
qed (use length_dump_string in \<open>auto simp: dec_int_def uni_def\<close>)

lemma sort_keys_tree: "plain_tree v \<Longrightarrow> plain_tree (sort_keys v) \<and> text_size (sort_keys v) = text_size v"
proof (induction v)
  case (JArr vs)
  then have "\<forall>v \<in> set vs. plain_tree (sort_keys v) \<and> text_size (sort_keys v) = text_size v" by (auto simp: list_all_iff)
  then show ?case by (auto simp: list_all_iff comp_def cong: map_cong)
next
  case (JObj ps)
  let ?qs = "map (\<lambda>(k, v). (k, sort_keys v)) ps"
  have each: "plain_text k \<and> plain_tree (sort_keys v) \<and> text_size (sort_keys v) = text_size v" if "(k, v) \<in> set ps" for k v
    using JObj.IH [of "(k, v)" v] JObj.prems that by (auto simp: list_all_iff)
  have "(\<Sum>(k, v) \<leftarrow> sort_pairs ?qs. 2 * length k + text_size v + 4) = (\<Sum>(k, v) \<leftarrow> ?qs. 2 * length k + text_size v + 4)"
    by (rule sum_sort_pairs)
  also have "\<dots> = (\<Sum>(k, v) \<leftarrow> ps. 2 * length k + text_size v + 4)"
    unfolding map_map comp_def by (rule arg_cong [of _ _ sum_list], rule map_cong [OF refl]) (use each in auto)
  finally have "text_size (sort_keys (JObj ps)) = text_size (JObj ps)" by simp
  moreover have "plain_tree (sort_keys (JObj ps))" using each by (auto simp: list_all_iff)
  ultimately show ?case by blast
qed auto

lemma canonical_plain:
  assumes "plain_tree v"
  obtains b where "canonical v = Inr b" "length b \<le> text_size v"
proof -
  have t: "plain_tree (sort_keys v)" "text_size (sort_keys v) = text_size v" using sort_keys_tree [OF assms] by auto
  have "canonical v = Inr (map of_nat (dumps False (sort_keys v)))"
    using encode_ascii [OF ascii_dumps [OF t(1)]] by (simp add: canonical_def)
  moreover have "length (map of_nat (dumps False (sort_keys v)) :: bytes) \<le> text_size v"
    using length_dumps [OF t(1), of False] t(2) by simp
  ultimately show ?thesis by (rule that)
qed


lemma plain_b64_char: "32 \<le> b64_char v \<and> b64_char v < 127"
  by (auto simp: b64_char_def)

lemma plain_b64: "plain_text (b64encode bs)" "length (b64encode bs) \<le> 2 * length bs + 3"
proof -
  have "plain_text (b64_groups ns)" for ns
    by (induction ns rule: b64_groups.induct) (auto simp: plain_text_def plain_b64_char)
  then show "plain_text (b64encode bs)" by (auto simp: b64encode_def Let_def plain_text_def list_all_iff)
  have "(4 - length g mod 4) mod 4 \<le> 3" for g :: pystr using mod_less_divisor [of 4 "4 - length g mod 4"] by linarith
  then show "length (b64encode bs) \<le> 2 * length bs + 3"
    using length_b64_groups [of "map unat bs"] by (simp add: b64encode_def Let_def add_mono)
qed

text \<open>So is the envelope of a plain payload.\<close>

lemma envelope_plain:
  assumes "plain_tree payload" and "\<And>m. length (se_sign env m) \<le> k" and "text_size payload + 4 * k + 70 \<le> n"
  obtains b where "envelope_of env payload = Inr b" "length b \<le> n"
proof -
  obtain m where m: "canonical payload = Inr m" using canonical_plain [OF assms(1)] by blast
  let ?s = "b64encode (se_sign env m)"
  let ?e = "JObj [(uni ''payload'', payload), (uni ''signature'', JStr ?s)]"
  have "plain_tree ?e" using assms(1) plain_b64(1) by (simp add: plain_text_def uni_def)
  then obtain b where b: "canonical ?e = Inr b" "length b \<le> text_size ?e" by (rule canonical_plain)
  have "text_size ?e \<le> n" using plain_b64(2) [of "se_sign env m"] assms(2) [of m] assms(3) by simp
  then show ?thesis using that b m by (simp add: envelope_of_def)
qed

end
