(* ===== verification/Dataplane_Properties.thy ===== *)
theory Dataplane_Properties
  imports Dataplane_Facts Policy_Properties Plain_Json
begin

text \<open>
  The claims on the policy channel: a policy that the control plane published is the one that the data
  plane then enforces, and whatever else the directory holds never replaces it.
\<close>

subsection \<open>A published policy\<close>

definition demo_channel :: snapshot_env where
  "demo_channel = \<lparr>se_crypto = \<lparr>sha256 = (\<lambda>_. []), hmac_sha256 = (\<lambda>_ _. []), json_text = utf8_decode,
       crypto_json = \<lparr>float_repr = id, nest_limit = 10\<rparr>\<rparr>,
     se_url = demo_site_urls, se_as_int = (\<lambda>v. case v of JInt i \<Rightarrow> Some i | _ \<Rightarrow> None),
     se_fields = (\<lambda>_. Some demo_site), se_dump = (\<lambda>_. JObj []), se_sign = (\<lambda>m. take 2 m),
     se_verify = (\<lambda>sig m. sig = take 2 m), se_key_id = [], se_str = (\<lambda>_. [])\<rparr>"

lemma demo_site_kept: "redumped demo_site = demo_site"
  by (simp add: redumped_def demo_site_def)

lemma demo_site_ordered: "ordered demo_site = demo_site"
  by (simp add: ordered_def demo_site_def ordered_route_def ordered_rule_def demo_mapped_def demo_rule_def sort_pairs_def)

lemma demo_channel_facts:
  "signing_ok demo_channel" "publishable demo_channel demo_site demo_policy" "small_revision (latest empty_dir + 1)"
  "validate_policy (se_as_int demo_channel) (policy_json demo_policy) = Inr demo_policy"
proof -
  show "signing_ok demo_channel"
    using decode_encode by (auto simp: signing_ok_def reads_utf8_def demo_channel_def)
  have "dumps_fields demo_channel demo_site"
    by (simp add: dumps_fields_def demo_site_kept demo_site_ordered) (simp add: demo_channel_def)
  moreover have "validate_deployment (se_url demo_channel) demo_site = Inr demo_site"
    using demo_site_valid by (simp add: demo_channel_def)
  ultimately show "publishable demo_channel demo_site demo_policy"
    by (simp add: publishable_def Let_def)
      (simp add: demo_channel_def demo_policy_def default_policy_def policy_json_def str_dict_def uni_def eval_nat_numeral dec_nat.simps)
  show "small_revision (latest empty_dir + 1)"
    by (simp add: small_revision_def latest_def empty_dir_def dec_nat.simps)
  have "read_policy (se_as_int demo_channel) (policy_json demo_policy) = Some demo_policy"
    by (simp add: read_policy_def field_or_def policy_json_def literal_dict_str demo_channel_def)
  then show "validate_policy (se_as_int demo_channel) (policy_json demo_policy) = Inr demo_policy"
    by (simp add: validate_policy_def policy_json_def policy_fields_def)
      (simp add: policy_ok_def demo_policy_def default_policy_def)
qed

lemma demo_publish:
  "\<exists>s. publish demo_channel [] True True demo_site (policy_json demo_policy) empty_dir = (Inr (JInt 1), s)"
proof -
  have dig: "connection_digest demo_channel demo_site = Inr []"
    by (simp add: connection_digest_def demo_channel_def canonical_def utf8_encode_def is_scalar_def is_surrogate_def
      sort_pairs_def)
  have cur: "current_payload demo_channel empty_dir = Inr None" by (simp add: current_payload_def empty_dir_def)
  have "\<exists>b. envelope_of demo_channel (payload_of demo_channel (Suc 0) [] [] demo_site demo_policy) = Inr b \<and> length b \<le> MAX_SNAPSHOT_BYTES"
  proof (rule envelope_plain [where k = 2 and n = 4000])
    show "plain_tree (payload_of demo_channel (Suc 0) [] [] demo_site demo_policy)"
      by (simp add: payload_of_def demo_channel_def policy_json_def demo_policy_def default_policy_def str_dict_def
        pii_rule_name_def plain_text_def uni_def)
    show "text_size (payload_of demo_channel (Suc 0) [] [] demo_site demo_policy) + 4 * 2 + 70 \<le> 4000"
      by (simp add: payload_of_def demo_channel_def policy_json_def demo_policy_def default_policy_def str_dict_def
        pii_rule_name_def dec_nat.simps)
    show "length (se_sign demo_channel m) \<le> 2" for m by (simp add: demo_channel_def)
  qed (auto simp: MAX_SNAPSHOT_BYTES_def)
  then show ?thesis
    by (simp add: publish_def demo_channel_facts(4) dig cur unchanged_def Let_def) (auto simp: latest_def empty_dir_def)
qed

text \<open>What a data plane that may still run on an older revision of the connection needs to take a snapshot.\<close>

definition may_follow :: "dataplane_env \<Rightarrow> dataplane \<Rightarrow> snapshot \<Rightarrow> bool" where
  "may_follow env st sn \<longleftrightarrow>
     (truthy (de_expected env) \<longrightarrow> Some (sn_connection_digest sn) = de_expected env) \<and>
     (\<forall>cur. dl_snapshot st = Some cur \<longrightarrow>
        sn_revision cur < sn_revision sn \<and> sn_connection_digest sn = sn_connection_digest cur)"


definition demo_plane :: dataplane_env where
  "demo_plane = \<lparr>de_snapshot = demo_channel, de_expected = None, de_directory = []\<rparr>"

abbreviation demo_start :: dataplane where
  "demo_start \<equiv> new_dataplane (new_spool [] 0)"

lemma demo_policy_sorted: "sorted_policy demo_policy = demo_policy"
  by (simp add: sorted_policy_def demo_policy_def default_policy_def sort_pairs_def)

lemma demo_compiled: "\<exists>c. inspection_config_of demo_site demo_policy [] = Inr c"
  using compile_validated [OF demo_site_valid demo_policy_keys] by blast


subsection \<open>The last known good policy\<close>

text \<open>C36: a data plane that started empty, after any refreshes (forced or not, of absent, unreadable, too
  large, malformed, badly signed, regressed or foreign files, without the trust key, with engines that
  cannot be built) enforces nothing or exactly the compiled policy of one snapshot of one of those
  files, which is an envelope whose signature is one of the canonical bytes of its payload under the trusted key, and every
  field of the snapshot is that payload's (\<open>signed_in\<close>); from then on it is never without one, revisions only grow and the
  connection digest never changes; and a refresh that does not report a new policy leaves snapshot,
  engine and policy as they were.\<close>

theorem last_known_good:
  assumes "refresh_run env (new_dataplane sp) fs st" and "refresh_run env st gs st1"
    and "refresh env force fp key_ok file built st1 = (r, st2)"
  shows "enforces_one_of env fs st \<and> enforces_one_of env (fs @ gs @ [file]) st2 \<and> not_older st st1 \<and> not_older st1 st2 \<and>
    (r \<noteq> Inr True \<longrightarrow> enforcing st2 = enforcing st1)"
proof -
  have start: "enforcing (new_dataplane sp) = (None, None, None)" by (simp add: enforcing_def new_dataplane_def)
  have "refresh_run env (new_dataplane sp) (fs @ gs) st1" by (rule refresh_run_trans [OF assms(2,1)])
  from refresh_run.Tick [OF this assms(3)] have "refresh_run env (new_dataplane sp) (fs @ gs @ [file]) st2" by simp
  then show ?thesis
    using run_enforces [OF assms(1) start] run_enforces [OF _ start] run_not_older [OF assms(2)]
      refresh_not_older [OF assms(3)] refresh_outcome [OF assms(3)] by blast
qed

theorem last_known_good_witness:
  "\<exists>s st st2. refresh_run demo_plane demo_start [current_file s] st \<and> dl_engine st \<noteq> None \<and>
     refresh demo_plane False (Some (1, 2, 3)) True (File_bytes (replicate (MAX_SNAPSHOT_BYTES + 1) 0)) None st =
       (Inr False, st2) \<and> enforcing st2 = enforcing st"
proof -
  obtain s where pub: "publish demo_channel [] True True demo_site (policy_json demo_policy) empty_dir = (Inr (JInt 1), s)"
    using demo_publish by blast
  obtain sn where sn: "reads_as demo_channel s sn" "sn_policy sn = demo_policy" "s = empty_dir \<or> sn_deployment sn = ordered demo_site"
    using publish_read_back [OF published_dir.Start demo_channel_facts(1,4,2) demo_site_kept demo_channel_facts(3) pub]
      demo_policy_sorted by auto
  have "s \<noteq> empty_dir" using sn(1) by (auto simp: reads_as_def current_file_def empty_dir_def read_snapshot_def)
  then have site: "sn_deployment sn = demo_site" using sn(3) demo_site_ordered by simp
  obtain c where c: "inspection_config_of demo_site demo_policy [] = Inr c" using demo_compiled by blast
  have acc: "acceptable demo_plane (current_file s) demo_start sn c"
    using sn(1,2) c site by (simp add: acceptable_def demo_plane_def new_dataplane_def truthy_def reads_as_def)
  obtain st where ref: "refresh demo_plane True None True (current_file s) None demo_start = (Inr True, st)"
      and enf: "enforcing st = (Some sn, Some c, Some demo_policy)"
    using refresh_acceptable [OF acc, of True None] sn(2) by (auto simp: unchanged_file_def)
  have "refresh_run demo_plane demo_start ([] @ [current_file s]) st" by (rule refresh_run.Tick [OF refresh_run.Done ref])
  then have run: "refresh_run demo_plane demo_start [current_file s] st" by simp
  have fp: "dl_fingerprint st = None" using ref acc
    by (auto simp: refresh_def unchanged_file_def acceptable_def consider_snapshot_def new_dataplane_def demo_plane_def
      truthy_def build_and_accept_def accept_def)
  have "unchanged_file False (Some (1, 2, 3)) st = False" by (simp add: unchanged_file_def fp)
  then obtain st2 where bad: "refresh demo_plane False (Some (1, 2, 3)) True
      (File_bytes (replicate (MAX_SNAPSHOT_BYTES + 1) 0)) None st = (Inr False, st2)"
    by (simp add: refresh_def read_snapshot_def reject_def)
  have "enforcing st2 = enforcing st" using last_known_good [OF run refresh_run.Done bad] by simp
  moreover have "dl_engine st \<noteq> None" using enf by (simp add: enforcing_def)
  ultimately show ?thesis using run bad by blast
qed

end
