(* ===== verification/Supervision.thy ===== *)
theory Supervision
  imports Complex_Main Prelude
begin

text \<open>
  Supervision of processes: \<open>InspectorPool\<close> of \<open>inspection/pool.py\<close> (also run by
  \<open>console/workers.py\<close>), \<open>SelfhostInspectorPool\<close> of \<open>selfhost/inspector_pool.py\<close> and
  \<open>Supervisor\<close> of \<open>selfhost/supervisor.py\<close>.

  What a supervisor observes is an argument: whether a process runs (\<open>poll()\<close>), whether it answers its
  health check, whether a new one could be started, and the readings of the monotonic clock, in
  seconds.  Starting, signalling and waiting for a process have no other effect here.
\<close>

subsection \<open>Ports\<close>

record pool_args =
  pa_replicas :: nat
  pa_grpc_base :: int
  pa_health_base :: int
  pa_proxy_port :: int
  pa_upstream_address :: pystr
  pa_upstream_port :: int
  pa_max_restarts :: nat

definition port_range :: "int \<Rightarrow> nat \<Rightarrow> int list" where
  "port_range base n = map (\<lambda>i. base + int i) [0..<n]"

definition port_sets :: "pool_args \<Rightarrow> (int list \<times> int list) result" where
  "port_sets a =
     (let g = port_range (pa_grpc_base a) (pa_replicas a); h = port_range (pa_health_base a) (pa_replicas a);
          ports = g @ h @ [pa_proxy_port a] in
      if \<not> distinct ports \<or> list_ex (\<lambda>p. \<not> (1024 \<le> p \<and> p \<le> 65535)) ports
      then Inl (Value_error ''pool_ports_must_be_distinct_and_unprivileged'')
      else if \<not> (1 \<le> pa_upstream_port a \<and> pa_upstream_port a \<le> 65535) \<or> py_strip (pa_upstream_address a) = []
      then Inl (Value_error ''pool_requires_valid_upstream'')
      else Inr (g, h))"

text \<open>\<open>render_envoy\<close>: the members of the inspector cluster, address with traffic and health port.\<close>

definition pool_endpoints :: "pystr \<Rightarrow> int list \<times> int list \<Rightarrow> (pystr \<times> int \<times> int) list" where
  "pool_endpoints addr = (\<lambda>(g, h). map (\<lambda>(p, q). (addr, p, q)) (zip g h))"

subsection \<open>A member of the inspector pool\<close>

datatype member_state = Starting | Healthy | Unhealthy | Restarting | Stopped

record member =
  mb_state :: member_state
  mb_restarts :: nat
  mb_started :: rat
  mb_misses :: nat
  mb_retry_at :: "rat option"

definition spawn_member :: "rat \<Rightarrow> nat \<Rightarrow> member" where
  "spawn_member started restarts =
     \<lparr>mb_state = Starting, mb_restarts = restarts, mb_started = started, mb_misses = 0, mb_retry_at = None\<rparr>"

definition terminate_member :: "member \<Rightarrow> member" where
  "terminate_member m = m\<lparr>mb_state := Stopped\<rparr>"

text \<open>One look at a member: \<open>lk_now\<close> at its begin, \<open>lk_later\<close> after a spawn or a termination.\<close>

record look =
  lk_now :: rat
  lk_running :: bool
  lk_healthy :: bool
  lk_spawned :: bool
  lk_later :: rat

definition backoff :: "nat \<Rightarrow> rat" where
  "backoff restarts = min (2 ^ restarts) 8"

definition check_member :: "nat \<Rightarrow> look \<Rightarrow> member \<Rightarrow> string option \<times> member" where
  "check_member max_restarts lk m =
     (case mb_retry_at m of
        Some t \<Rightarrow>
          if lk_now lk < t then (None, m)
          else if \<not> lk_spawned lk then (Some ''spawn_failed'', m)
          else (None, spawn_member (lk_later lk) (mb_restarts m + 1))
      | None \<Rightarrow>
          if lk_running lk \<and> lk_healthy lk then (None, m\<lparr>mb_state := Healthy, mb_misses := 0\<rparr>)
          else
            let m1 = m\<lparr>mb_misses := mb_misses m + 1\<rparr>;
                starting = (mb_state m = Starting \<and> lk_now lk - mb_started m < 15) in
            if lk_running lk \<and> (starting \<or> mb_misses m1 < 3)
            then (None, m1\<lparr>mb_state := (if starting then Starting else Unhealthy)\<rparr>)
            else
              let m2 = terminate_member m1 in
              if max_restarts \<le> mb_restarts m then (Some ''pool_recovery_exhausted'', m2)
              else (None, m2\<lparr>mb_state := Restarting, mb_retry_at := Some (lk_later lk + backoff (mb_restarts m))\<rparr>))"

text \<open>One round of \<open>monitor\<close>, member by member; an exception ends it where it is.\<close>

fun check_members :: "nat \<Rightarrow> look list \<Rightarrow> member list \<Rightarrow> string option \<times> member list" where
  "check_members mx (lk # lks) (m # ms) =
     (case check_member mx lk m of
        (Some e, m') \<Rightarrow> (Some e, m' # ms)
      | (None, m') \<Rightarrow> (case check_members mx lks ms of (e, ms') \<Rightarrow> (e, m' # ms')))"
| "check_members mx lks ms = (None, ms)"

definition pool_state :: "member list \<Rightarrow> string" where
  "pool_state ms = (if list_all (\<lambda>m. mb_state m = Healthy) ms then ''healthy'' else ''degraded'')"

text \<open>\<open>monitor\<close> over the rounds before a stop signal, with the states it writes.\<close>

fun monitor :: "nat \<Rightarrow> look list list \<Rightarrow> member list \<Rightarrow> string option \<times> member list \<times> string list" where
  "monitor mx [] ms = (None, ms, [])"
| "monitor mx (r # rs) ms =
     (case check_members mx r ms of
        (Some e, ms') \<Rightarrow> (Some e, ms', [])
      | (None, ms') \<Rightarrow> (case monitor mx rs ms' of (e, ms'', written) \<Rightarrow> (e, ms'', pool_state ms' # written)))"

text \<open>\<open>run\<close> after its checks: start every member, supervise, terminate every member.\<close>

definition run_pool :: "nat \<Rightarrow> rat list \<Rightarrow> look list list \<Rightarrow> string option \<times> member list \<times> string list" where
  "run_pool mx starts rounds =
     (case monitor mx rounds (map (\<lambda>t. spawn_member t 0) starts) of
        (e, ms, written) \<Rightarrow> (e, map terminate_member ms,
          ''starting'' # written @ [if e = None then ''stopped'' else ''failed'']))"

subsection \<open>The self-hosted pool\<close>

text \<open>\<open>members\<close>: whether there is a process; \<open>restarts\<close>, \<open>misses\<close>; what \<open>on_health\<close> was told last.\<close>

record worker =
  wk_present :: bool
  wk_restarts :: nat
  wk_misses :: nat

definition new_worker :: worker where
  "new_worker = \<lparr>wk_present = True, wk_restarts = 0, wk_misses = 0\<rparr>"

text \<open>\<open>pr_ready\<close>: whether the replacement answered within 30 seconds.\<close>

record probe_result =
  pr_healthy :: bool
  pr_ready :: bool

text \<open>\<open>None\<close> continues; otherwise \<open>failed\<close> is set and the monitor returns.\<close>

definition check_worker :: "probe_result \<Rightarrow> worker \<Rightarrow> bool \<times> worker" where
  "check_worker pr w =
     (if wk_present w \<and> pr_healthy pr then (True, w\<lparr>wk_misses := 0\<rparr>)
      else
        let w1 = w\<lparr>wk_misses := wk_misses w + 1\<rparr> in
        if wk_misses w1 < 3 then (True, w1)
        else if 3 \<le> wk_restarts w then (False, w1\<lparr>wk_present := False\<rparr>)
        else if \<not> pr_ready pr then (False, w1\<lparr>wk_present := False, wk_restarts := wk_restarts w + 1\<rparr>)
        else (True, w1\<lparr>wk_present := True, wk_restarts := wk_restarts w + 1, wk_misses := 0\<rparr>))"

fun check_workers :: "probe_result list \<Rightarrow> worker list \<Rightarrow> bool \<times> worker list" where
  "check_workers (pr # prs) (w # ws) =
     (case check_worker pr w of
        (False, w') \<Rightarrow> (False, w' # ws)
      | (True, w') \<Rightarrow> (case check_workers prs ws of (go, ws') \<Rightarrow> (go, w' # ws')))"
| "check_workers prs ws = (True, ws)"

text \<open>The flag of the inspection path: cleared by the first miss of a round, set by a round after which
  no member has misses.\<close>

definition health_after :: "probe_result list \<Rightarrow> worker list \<Rightarrow> bool \<Rightarrow> bool" where
  "health_after prs ws ready =
     (case check_workers prs ws of (go, ws') \<Rightarrow>
        if go \<and> list_all (\<lambda>w. wk_misses w = 0) ws' then True
        else ready \<and> list_all (\<lambda>(pr, w). wk_present w \<and> pr_healthy pr) (zip prs ws))"

fun monitor_workers :: "probe_result list list \<Rightarrow> worker list \<Rightarrow> bool \<Rightarrow> bool \<times> worker list \<times> bool" where
  "monitor_workers [] ws ready = (True, ws, ready)"
| "monitor_workers (r # rs) ws ready =
     (case check_workers r ws of
        (False, ws') \<Rightarrow> (False, ws', health_after r ws ready)
      | (True, ws') \<Rightarrow> monitor_workers rs ws' (health_after r ws ready))"

text \<open>\<open>start\<close>: one after the other, each ready before the next; a failure stops them all.\<close>

fun start_workers :: "bool list \<Rightarrow> worker list result" where
  "start_workers [] = Inr []"
| "start_workers (ready # rs) =
     (if \<not> ready then Inl (Value_error ''inspector_startup_failed'')
      else rbind (start_workers rs) (\<lambda>ws. Inr (new_worker # ws)))"

text \<open>\<open>revisions\<close>: what each health endpoint answered.\<close>

definition worker_revisions :: "(exn + int option) list \<Rightarrow> int option list" where
  "worker_revisions rs = map (\<lambda>r. case r of Inl e \<Rightarrow> None | Inr v \<Rightarrow> v) rs"

subsection \<open>Control plane and data plane in one container\<close>

record plane_env =
  pl_max_backoff :: rat
  pl_stable_after :: rat

record planes =
  pn_restarts :: nat
  pn_started :: rat
  pn_restart_at :: "rat option"
  pn_starts :: nat   \<comment> \<open>how often the control plane was started\<close>

text \<open>One turn of the loop: the exit codes that \<open>poll\<close> gave and three readings of the clock.\<close>

record turn =
  tu_dataplane :: "int option"
  tu_control_exited :: bool
  tu_now :: rat
  tu_then :: rat
  tu_last :: rat

definition new_planes :: "rat \<Rightarrow> planes" where
  "new_planes t = \<lparr>pn_restarts = 0, pn_started = t, pn_restart_at = None, pn_starts = 1\<rparr>"

definition note_exit :: "plane_env \<Rightarrow> turn \<Rightarrow> planes \<Rightarrow> planes" where
  "note_exit env tu s =
     (if pn_restart_at s = None \<and> tu_control_exited tu then
        let n = (if pl_stable_after env \<le> tu_now tu - pn_started s then 0 else pn_restarts s) in
        s\<lparr>pn_restarts := n + 1, pn_restart_at := Some (tu_then tu + min (pl_max_backoff env) (2 ^ n))\<rparr>
      else s)"

definition restart_due :: "turn \<Rightarrow> planes \<Rightarrow> planes" where
  "restart_due tu s =
     (case pn_restart_at s of
        Some t \<Rightarrow> if t \<le> tu_last tu
          then s\<lparr>pn_restart_at := None, pn_started := tu_last tu, pn_starts := pn_starts s + 1\<rparr> else s
      | None \<Rightarrow> s)"

text \<open>The exit code: \<open>code or 1\<close> of the data plane, 0 after a stop signal.\<close>

fun supervise :: "plane_env \<Rightarrow> turn list \<Rightarrow> planes \<Rightarrow> int \<times> planes" where
  "supervise env [] s = (0, s)"
| "supervise env (tu # tus) s =
     (case tu_dataplane tu of
        Some code \<Rightarrow> (if code = 0 then 1 else code, s)
      | None \<Rightarrow> supervise env tus (restart_due tu (note_exit env tu s)))"

end
