(* ===== verification/Supervision_Properties.thy ===== *)
theory Supervision_Properties
  imports Supervision
begin

text \<open>
  Supervision ends: a member that never answers its health check uses up a potential of at most
  \<open>97 / 4\<close> per start, a quarter in every round, so the pool gives up after \<open>97 * (max_restarts + 1)\<close>
  rounds.  The self-hosted pool needs twelve.
\<close>

subsection \<open>One member\<close>

definition member_ok :: "nat \<Rightarrow> member \<Rightarrow> bool" where
  "member_ok mx m \<longleftrightarrow> mb_restarts m \<le> mx \<and> (mb_retry_at m \<noteq> None \<longrightarrow> mb_restarts m < mx)"

definition slack :: "nat \<Rightarrow> rat" where
  "slack misses = of_nat (3 - misses) / 4"

lemma slack_facts: "slack 0 = 3 / 4" "0 \<le> slack k" "slack (Suc k) \<le> slack k" "k < 2 \<Longrightarrow> slack (Suc k) + 1 / 4 = slack k"
proof -
  show "slack (Suc k) + 1 / 4 = slack k" if "k < 2"
    using that by (cases k; cases "k - 1") (simp_all add: slack_def eval_nat_numeral)
qed (simp_all add: slack_def divide_right_mono)

definition potential :: "nat \<Rightarrow> member \<Rightarrow> rat \<Rightarrow> rat" where
  "potential mx m now =
     (of_nat mx - of_nat (mb_restarts m)) * (97 / 4) +
     (case mb_retry_at m of
        Some t \<Rightarrow> max 0 (t - now + 1 / 4)
      | None \<Rightarrow> (if mb_state m = Starting then max 0 (61 / 4 - (now - mb_started m)) else 0) +
                slack (mb_misses m) + 33 / 4)"

lemma potential_nonneg: "member_ok mx m \<Longrightarrow> 0 \<le> potential mx m now"
  by (auto simp: member_ok_def potential_def slack_facts split: option.splits intro!: add_nonneg_nonneg)

lemma potential_later: "now \<le> now' \<Longrightarrow> potential mx m now' \<le> potential mx m now"
  by (auto simp: potential_def split: option.splits)

lemma check_member_ok:
  assumes "check_member mx lk m = (e, m')" and "member_ok mx m"
  shows "mb_restarts m' \<le> mx \<and> (e = None \<longrightarrow> member_ok mx m')"
  using assms
  by (auto simp: check_member_def member_ok_def spawn_member_def terminate_member_def Let_def split: option.splits if_splits)

text \<open>A look at a member that does not answer costs a quarter.\<close>

lemma waiting_costs:
  assumes "mb_retry_at m = Some t" and "check_member mx lk m = (None, m')"
    and "lk_now lk \<le> lk_later lk" and "lk_later lk + 1 / 4 \<le> now'"
  shows "potential mx m' now' + 1 / 4 \<le> potential mx m (lk_now lk)"
proof (cases "lk_now lk < t")
  case True
  then have "m' = m" using assms(1,2) by (simp add: check_member_def)
  then show ?thesis using True assms by (simp add: potential_def)
next
  case False
  then have m': "m' = spawn_member (lk_later lk) (mb_restarts m + 1)"
    using assms(1,2) by (auto simp: check_member_def split: if_splits)
  let ?r = "(of_nat mx - of_nat (mb_restarts m) :: rat) * (97 / 4)"
  define x where "x = max 0 (61 / 4 - (now' - lk_later lk))"
  have "x \<le> 15" using assms(4) by (simp add: x_def)
  moreover have "potential mx m' now' = (of_nat mx - of_nat (mb_restarts m + 1)) * (97 / 4) + (x + 3 / 4 + 33 / 4)"
    by (simp add: m' potential_def spawn_member_def x_def slack_facts del: of_nat_add of_nat_Suc)
  moreover have "(of_nat mx - of_nat (mb_restarts m + 1) :: rat) * (97 / 4) = ?r - 97 / 4"
    by (simp add: field_simps)
  moreover have "?r \<le> potential mx m (lk_now lk)"
    using assms(1) by (simp add: potential_def)
  ultimately show ?thesis by linarith
qed

lemma active_costs:
  assumes act: "mb_retry_at m = None" and dead: "\<not> (lk_running lk \<and> lk_healthy lk)"
    and check: "check_member mx lk m = (None, m')"
    and "lk_now lk \<le> lk_later lk" and later: "lk_later lk + 1 / 4 \<le> now'"
  shows "potential mx m' now' + 1 / 4 \<le> potential mx m (lk_now lk)"
proof -
  let ?starting = "mb_state m = Starting \<and> lk_now lk - mb_started m < 15"
  let ?r = "(of_nat mx - of_nat (mb_restarts m) :: rat) * (97 / 4)"
  show ?thesis
  proof (cases "lk_running lk \<and> (?starting \<or> mb_misses m + 1 < 3)")
    case True
    then have m': "m' = m\<lparr>mb_misses := mb_misses m + 1, mb_state := (if ?starting then Starting else Unhealthy)\<rparr>"
      using act dead check by (auto simp: check_member_def Let_def)
    show ?thesis
    proof (cases ?starting)
      case True
      have "max 0 (61 / 4 - (now' - mb_started m)) + 1 / 4 \<le> max 0 (61 / 4 - (lk_now lk - mb_started m))"
      proof -
        have "61 / 4 - (now' - mb_started m) + 1 / 4 \<le> 61 / 4 - (lk_now lk - mb_started m)"
          "1 / 4 \<le> 61 / 4 - (lk_now lk - mb_started m)"
          using True assms(4) later by linarith+
        then show ?thesis by simp
      qed
      then show ?thesis using True act slack_facts(3) [of "mb_misses m"] by (simp add: m' potential_def)
    next
      case False
      then have "mb_misses m + 1 < 3" using \<open>lk_running lk \<and> (?starting \<or> mb_misses m + 1 < 3)\<close> by blast
      then have "slack (Suc (mb_misses m)) + 1 / 4 = slack (mb_misses m)" by (intro slack_facts(4)) simp
      then show ?thesis using False act by (auto simp: m' potential_def)
    qed
  next
    case False
    then have m': "mb_retry_at m' = Some (lk_later lk + backoff (mb_restarts m))" "mb_restarts m' = mb_restarts m"
      using act dead check by (auto simp: check_member_def Let_def terminate_member_def split: if_splits)
    have "backoff (mb_restarts m) \<le> 8" by (simp add: backoff_def)
    then have "max 0 (lk_later lk + backoff (mb_restarts m) - now' + 1 / 4) \<le> 8" using later by simp
    then have "potential mx m' now' \<le> ?r + 8" by (simp add: potential_def m')
    moreover have "?r + 33 / 4 \<le> potential mx m (lk_now lk)"
      using act slack_facts(2) by (simp add: potential_def add_nonneg_nonneg)
    ultimately show ?thesis by simp
  qed
qed

lemma look_costs:
  assumes "\<not> (lk_running lk \<and> lk_healthy lk)" and "check_member mx lk m = (None, m')"
    and "lk_now lk \<le> lk_later lk" and "lk_later lk + 1 / 4 \<le> now'"
  shows "potential mx m' now' + 1 / 4 \<le> potential mx m (lk_now lk)"
  using waiting_costs [OF _ assms(2-4)] active_costs [OF _ assms] by (cases "mb_retry_at m") simp_all

subsection \<open>All members\<close>

lemma check_members_length: "check_members mx lks ms = (e, ms') \<Longrightarrow> length ms' = length ms"
  by (induction mx lks ms arbitrary: e ms' rule: check_members.induct) (auto split: prod.splits option.splits)

lemma check_members_nth:
  "check_members mx lks ms = (None, ms') \<Longrightarrow> length lks = length ms \<Longrightarrow> i < length ms \<Longrightarrow>
   check_member mx (lks ! i) (ms ! i) = (None, ms' ! i)"
proof (induction mx lks ms arbitrary: ms' i rule: check_members.induct)
  case (1 mx lk lks m ms)
  obtain e m1 where m1: "check_member mx lk m = (e, m1)" by fastforce
  obtain e2 ms2 where ms2: "check_members mx lks ms = (e2, ms2)" by fastforce
  have e: "e = None" "e2 = None" "ms' = m1 # ms2" using 1(2) m1 ms2 by (auto split: option.splits)
  then show ?case using 1(1) [OF m1 [symmetric] e(1)] 1(3,4) m1 ms2 by (cases i) auto
qed auto

lemma check_members_ok:
  "check_members mx lks ms = (e, ms') \<Longrightarrow> list_all (member_ok mx) ms \<Longrightarrow>
   length ms' = length ms \<and> list_all (\<lambda>m. mb_restarts m \<le> mx) ms' \<and> (e = None \<longrightarrow> list_all (member_ok mx) ms')"
proof (induction mx lks ms arbitrary: e ms' rule: check_members.induct)
  case (1 mx lk lks m ms)
  obtain e1 m1 where m1: "check_member mx lk m = (e1, m1)" by fastforce
  have ok: "list_all (member_ok mx) ms" "member_ok mx m" using 1(3) by simp_all
  have rest: "list_all (\<lambda>m. mb_restarts m \<le> mx) ms" using ok(1) by (auto simp: list_all_iff member_ok_def)
  show ?case
  proof (cases e1)
    case None
    obtain e2 ms2 where ms2: "check_members mx lks ms = (e2, ms2)" by fastforce
    note IH = 1(1) [OF m1 [symmetric] None ms2 ok(1)]
    have "e = e2" "ms' = m1 # ms2" using 1(2) m1 ms2 None by simp_all
    then show ?thesis using IH check_member_ok [OF m1 ok(2)] None by auto
  next
    case (Some x)
    then have "e = Some x" "ms' = m1 # ms" using 1(2) m1 by simp_all
    then show ?thesis using rest check_member_ok [OF m1 ok(2)] by auto
  qed
qed (auto simp: list_all_iff member_ok_def)

lemma monitor_ok:
  "monitor mx rounds ms = (e, ms', written) \<Longrightarrow> list_all (member_ok mx) ms \<Longrightarrow>
   length ms' = length ms \<and> list_all (\<lambda>m. mb_restarts m \<le> mx) ms'"
proof (induction rounds arbitrary: ms e ms' written)
  case Nil
  then show ?case by (auto simp: list_all_iff member_ok_def)
next
  case (Cons r rounds)
  obtain e1 ms1 where ms1: "check_members mx r ms = (e1, ms1)" by fastforce
  note ok = check_members_ok [OF ms1 Cons.prems(2)]
  show ?case
  proof (cases e1)
    case None
    obtain e2 ms2 l2 where ms2: "monitor mx rounds ms1 = (e2, ms2, l2)" by (rule prod_cases3)
    have "ms' = ms2" using Cons.prems(1) ms1 ms2 None by simp
    then show ?thesis using Cons.IH [OF ms2] ok None by simp
  next
    case (Some x)
    then show ?thesis using Cons.prems(1) ms1 ok by simp
  qed
qed

text \<open>The clock of a member's looks: a quarter of a second passes between two rounds.\<close>

fun ticking :: "nat \<Rightarrow> rat \<Rightarrow> look list list \<Rightarrow> bool" where
  "ticking i t [] = True"
| "ticking i t (r # rs) =
     (t \<le> lk_now (r ! i) \<and> lk_now (r ! i) \<le> lk_later (r ! i) \<and> ticking i (lk_later (r ! i) + 1 / 4) rs)"

definition never_answers :: "nat \<Rightarrow> nat \<Rightarrow> look list list \<Rightarrow> bool" where
  "never_answers n i rounds \<longleftrightarrow>
     (\<forall>r \<in> set rounds. length r = n \<and> \<not> (lk_running (r ! i) \<and> lk_healthy (r ! i)))"

lemma monitor_bound:
  "monitor mx rounds ms = (None, ms', written) \<Longrightarrow> never_answers (length ms) i rounds \<Longrightarrow> i < length ms \<Longrightarrow>
   ticking i t rounds \<Longrightarrow> list_all (member_ok mx) ms \<Longrightarrow> of_nat (length rounds) / 4 \<le> potential mx (ms ! i) t"
proof (induction rounds arbitrary: ms t written)
  case Nil
  then show ?case using potential_nonneg [of mx "ms ! i" t] by (simp add: list_all_length)
next
  case (Cons r rounds)
  obtain e1 ms1 where ms1: "check_members mx r ms = (e1, ms1)" by fastforce
  obtain e2 ms2 l2 where ms2: "monitor mx rounds ms1 = (e2, ms2, l2)" by (rule prod_cases3)
  have e: "e1 = None" "e2 = None" "ms2 = ms'" using Cons.prems(1) ms1 ms2 by (auto split: option.splits)
  have len: "length r = length ms" and dead: "\<not> (lk_running (r ! i) \<and> lk_healthy (r ! i))"
    and rest: "never_answers (length ms) i rounds"
    using Cons.prems(2) by (auto simp: never_answers_def)
  note step = check_members_nth [OF ms1 [unfolded e(1)] len Cons.prems(3)]
  have len1: "length ms1 = length ms" using check_members_length [OF ms1] .
  have ok: "list_all (member_ok mx) ms1" using check_members_ok [OF ms1 Cons.prems(5)] e(1) by simp
  have t: "t \<le> lk_now (r ! i)" "lk_now (r ! i) \<le> lk_later (r ! i)" "ticking i (lk_later (r ! i) + 1 / 4) rounds"
    using Cons.prems(4) by simp_all
  have "of_nat (length rounds) / 4 \<le> potential mx (ms1 ! i) (lk_later (r ! i) + 1 / 4)"
    using ms2 e len1 rest Cons.prems(3) t(3) ok by (intro Cons.IH [of ms1]) simp_all
  moreover have "potential mx (ms1 ! i) (lk_later (r ! i) + 1 / 4) + 1 / 4 \<le> potential mx (ms ! i) (lk_now (r ! i))"
    using step t(2) by (intro look_costs [OF dead]) simp_all
  moreover have "potential mx (ms ! i) (lk_now (r ! i)) \<le> potential mx (ms ! i) t" by (rule potential_later [OF t(1)])
  ultimately show ?case by simp
qed

text \<open>C37: supervision ends: if one member of the pool never answers its health check, the pool gives up at
  the latest after \<open>97 * (max_restarts + 1)\<close> rounds (rounds are a quarter of a second apart), whatever the
  other members do; then every process is terminated and the state file says so, and no member was ever
  started more than \<open>max_restarts\<close> times again.\<close>

theorem pool_gives_up:
  assumes "i < length starts" and "never_answers (length starts) i rounds" and "ticking i (starts ! i) rounds"
    and "97 * (mx + 1) < length rounds"
  shows "\<exists>e ms written. run_pool mx starts rounds = (Some e, ms, written) \<and> last written = ''failed'' \<and>
    length ms = length starts \<and> list_all (\<lambda>m. mb_state m = Stopped \<and> mb_restarts m \<le> mx) ms"
proof -
  let ?ms = "map (\<lambda>t. spawn_member t 0) starts"
  obtain e ms written where run: "monitor mx rounds ?ms = (e, ms, written)" by (rule prod_cases3)
  have ok: "list_all (member_ok mx) ?ms" by (simp add: list_all_iff member_ok_def spawn_member_def)
  have "e \<noteq> None"
  proof
    assume "e = None"
    then have "of_nat (length rounds) / 4 \<le> potential mx (?ms ! i) (starts ! i)"
      using run assms(1-3) ok by (intro monitor_bound) simp_all
    also have "\<dots> = of_nat (97 * (mx + 1)) / 4"
      using assms(1) by (simp add: potential_def spawn_member_def slack_facts field_simps)
    finally have "length rounds \<le> 97 * (mx + 1)"
      by (metis divide_le_cancel of_nat_le_iff zero_less_numeral not_less_iff_gr_or_eq)
    then show False using assms(4) by simp
  qed
  then obtain x where "e = Some x" by blast
  then show ?thesis
    using run monitor_ok [OF run ok]
    by (auto simp: run_pool_def terminate_member_def list_all_iff)
qed

definition silent_look :: "nat \<Rightarrow> look" where
  "silent_look n = \<lparr>lk_now = of_nat n, lk_running = True, lk_healthy = False, lk_spawned = True, lk_later = of_nat n\<rparr>"

definition silent_rounds :: "nat \<Rightarrow> nat \<Rightarrow> look list list" where
  "silent_rounds k n = map (\<lambda>j. [silent_look j]) [k..<k + n]"

lemma silent_rounds_tick: "t \<le> of_nat k \<Longrightarrow> ticking 0 t (silent_rounds k n)"
proof (induction n arbitrary: t k)
  case (Suc n)
  have "silent_rounds k (Suc n) = [silent_look k] # silent_rounds (Suc k) n"
    by (simp add: silent_rounds_def upt_conv_Cons del: upt_Suc)
  then show ?case using Suc by (simp add: silent_look_def)
qed (simp add: silent_rounds_def)

theorem pool_gives_up_witness:
  "\<exists>e ms written. run_pool 0 [0] (silent_rounds 0 98) = (Some e, ms, written) \<and> last written = ''failed''"
proof -
  have "never_answers (length [0 :: rat]) 0 (silent_rounds 0 98)"
    by (auto simp: never_answers_def silent_rounds_def silent_look_def)
  moreover have "ticking 0 ([0] ! 0) (silent_rounds 0 98)" by (rule silent_rounds_tick) simp
  moreover have "97 * (0 + 1) < length (silent_rounds 0 98)" by (simp add: silent_rounds_def)
  ultimately show ?thesis using pool_gives_up [of 0 "[0]" "silent_rounds 0 98" 0] by auto
qed

subsection \<open>The self-hosted pool\<close>

definition worker_ok :: "worker \<Rightarrow> bool" where
  "worker_ok w \<longleftrightarrow> wk_restarts w \<le> 3 \<and> wk_misses w \<le> 2"

definition worker_rank :: "worker \<Rightarrow> nat" where
  "worker_rank w = 3 * (3 - wk_restarts w) + (3 - wk_misses w)"

lemma check_worker_rank:
  assumes "check_worker pr w = (True, w')" and "worker_ok w"
  shows "worker_ok w'" and "\<not> pr_healthy pr \<Longrightarrow> worker_rank w' < worker_rank w"
  using assms by (auto simp: check_worker_def worker_ok_def worker_rank_def Let_def split: if_splits)

lemma check_workers_length: "length (snd (check_workers prs ws)) = length ws"
proof (induction prs arbitrary: ws)
  case (Cons pr prs)
  show ?case
  proof (cases ws)
    case w: (Cons w ws1)
    obtain g w1 where "check_worker pr w = (g, w1)" by fastforce
    moreover obtain h ws2 where "check_workers prs ws1 = (h, ws2)" by fastforce
    ultimately show ?thesis using Cons.IH [of ws1] by (cases g) (simp_all add: w)
  qed simp
qed simp

lemma check_workers_nth:
  "check_workers prs ws = (True, ws') \<Longrightarrow> length prs = length ws \<Longrightarrow> i < length ws \<Longrightarrow>
   check_worker (prs ! i) (ws ! i) = (True, ws' ! i)"
proof (induction prs ws arbitrary: ws' i rule: check_workers.induct)
  case (1 pr prs w ws)
  obtain g w1 where w1: "check_worker pr w = (g, w1)" by fastforce
  obtain h ws2 where ws2: "check_workers prs ws = (h, ws2)" by fastforce
  have g: g h "ws' = w1 # ws2" using 1(2) w1 ws2 by (auto split: bool.splits)
  have "check_worker (prs ! j) (ws ! j) = (True, ws2 ! j)" if "j < length ws" for j
    using 1(1) [of True w1 ws2 j] w1 ws2 g(1,2) 1(3) that by simp
  then show ?case using 1(3,4) g w1 by (cases i) auto
qed auto

text \<open>Twelve rounds without an answer end the monitor, so that the container is restarted.\<close>

lemma workers_give_up:
  "\<forall>r \<in> set rounds. length r = length ws \<and> \<not> pr_healthy (r ! i) \<Longrightarrow> i < length ws \<Longrightarrow> list_all worker_ok ws \<Longrightarrow>
   worker_rank (ws ! i) \<le> length rounds \<Longrightarrow> fst (monitor_workers rounds ws ready) = False"
proof (induction rounds arbitrary: ws ready)
  case Nil
  then show ?case by (auto simp: worker_rank_def worker_ok_def list_all_length)
next
  case (Cons r rounds)
  obtain g ws1 where ws1: "check_workers r ws = (g, ws1)" by fastforce
  show ?case
  proof (cases g)
    case True
    have ws1': "check_workers r ws = (True, ws1)" using ws1 True by simp
    note nth = check_workers_nth [OF ws1']
    have len: "length ws1 = length ws" using check_workers_length [of r ws] ws1 by simp
    have "worker_ok (ws1 ! j)" if "j < length ws" for j
      using nth [of j] Cons.prems(1,3) that check_worker_rank(1) by (auto simp: list_all_length)
    then have "list_all worker_ok ws1" by (simp add: list_all_length len)
    moreover have "worker_rank (ws1 ! i) < worker_rank (ws ! i)"
      using nth [of i] Cons.prems(1-3) check_worker_rank(2) by (auto simp: list_all_length)
    ultimately show ?thesis using Cons.IH [of ws1] Cons.prems ws1 True len by simp
  qed (use ws1 in simp)
qed

lemma twelve_rounds: "worker_rank new_worker = 12" "worker_ok new_worker"
  by (simp_all add: worker_rank_def new_worker_def worker_ok_def)

subsection \<open>The two planes\<close>

text \<open>The exit code tells whether the data plane ended; the control plane comes back after at most the
  maximal back-off, and only one start is pending at a time.\<close>

lemma supervise_code: "fst (supervise env tus s) = 0 \<longleftrightarrow> (\<forall>tu \<in> set tus. tu_dataplane tu = None)"
  by (induction tus arbitrary: s) (auto split: option.splits)

lemma exit_delay:
  assumes "pn_restart_at s = None" "tu_control_exited tu"
  obtains t where "pn_restart_at (note_exit env tu s) = Some t" "t \<le> tu_then tu + pl_max_backoff env"
  using assms by (auto simp: note_exit_def Let_def)

lemma restart_once: "pn_starts (restart_due tu (note_exit env tu s)) \<le> pn_starts s + 1"
  by (auto simp: restart_due_def note_exit_def Let_def split: option.splits)

lemma restart_comes_back:
  assumes "pn_restart_at s = Some t" "t \<le> tu_last tu"
  shows "pn_starts (restart_due tu (note_exit env tu s)) = pn_starts s + 1 \<and> pn_restart_at (restart_due tu (note_exit env tu s)) = None"
  using assms by (simp add: restart_due_def note_exit_def)

subsection \<open>Ports\<close>

lemma port_sets_distinct:
  assumes "port_sets a = Inr (g, h)"
  shows "distinct (g @ h)" "pa_proxy_port a \<notin> set (g @ h)" "length g = pa_replicas a" "length h = pa_replicas a"
    "\<forall>p \<in> set (g @ h). 1024 \<le> p \<and> p \<le> 65535"
  using assms by (auto simp: port_sets_def Let_def port_range_def list_ex_iff split: if_splits)

end
