(* ===== verification/Stream_Inspection.thy ===== *)
theory Stream_Inspection
  imports Ext_Proc Dataplane
begin

text \<open>
  \<open>console/dataplane.py\<close>: a stream is inspected under the engine and policy it started with
  (\<open>StreamInspection\<close>), by the stream processor of the inspector, and its evidence is written before the
  reply that ends it is sent (\<open>ConsoleProcessor\<close>).

  The inspector of \<open>Ext_Proc\<close> is a parameter of the stream processor; here it is the inspection of the
  stream.  The processor records the refusal of a transport error with its audit; that record is the
  verdict of the stream from then on (\<open>stream_verdict\<close>).
  Arguments: the time and the latency that are written (\<open>ss_now\<close>, \<open>ss_latency\<close>), a random identifier
  for the run and what the system answers to each write of the evidence.
\<close>

subsection \<open>The scenarios\<close>

definition TOOLS :: "(pystr, pystr \<times> pystr) dict" where
  "TOOLS = [(uni ''notes.read'', (uni ''read'', uni ''notes'')), (uni ''notes.delete'', (uni ''delete'', uni ''notes'')),
     (uni ''infra.deploy'', (uni ''deploy'', uni ''environment:staging''))]"

text \<open>Label and tool of each case.\<close>

definition CASES :: "(pystr, pystr \<times> pystr) dict" where
  "CASES =
     [(uni ''read'', (uni ''Read business notes'', uni ''notes.read'')),
      (uni ''pii'', (uni ''Redact customer data'', uni ''notes.read'')),
      (uni ''secret'', (uni ''Block leaked credential'', uni ''notes.read'')),
      (uni ''delete'', (uni ''Delete protected notes'', uni ''notes.delete'')),
      (uni ''injection'', (uni ''Indirect prompt injection'', uni ''notes.read'')),
      (uni ''egress'', (uni ''External data transfer'', uni ''notes.read'')),
      (uni ''response'', (uni ''Redact response PII'', uni ''notes.read'')),
      (uni ''deploy'', (uni ''Approve staged deployment'', uni ''infra.deploy''))]"

subsection \<open>The inspection of one stream\<close>

record stream_setting =
  ss_engine :: engine_env
  ss_policy :: policy
  ss_deployed :: bool
  ss_run_id :: pystr
  ss_now :: pystr
  ss_latency :: pystr

record stream_inspection =
  si_engine :: engine_state
  si_message :: "http_message option"
  si_identity :: "(pystr, json) dict"
  si_verdict :: "verdict option"
  si_response_verdict :: "verdict option"
  si_upstream :: "bool option"
  si_run_id :: pystr

definition new_inspection :: "stream_setting \<Rightarrow> engine_state \<Rightarrow> stream_inspection" where
  "new_inspection env e = \<lparr>si_engine = e, si_message = None, si_identity = [], si_verdict = None,
     si_response_verdict = None, si_upstream = None, si_run_id = ss_run_id env\<rparr>"

fun value_error :: "exn \<Rightarrow> bool" where
  "value_error (Value_error m) = True"
| "value_error (Inspection m) = True"
| "value_error Unicode_error = True"
| "value_error e = False"

definition run_id_ok :: "pystr \<Rightarrow> bool" where
  "run_id_ok s \<longleftrightarrow> length s = 32 \<and> list_all (\<lambda>c. 48 \<le> c \<and> c \<le> 57 \<or> 97 \<le> c \<and> c \<le> 102) s"

text \<open>The identity is read without consuming its nonce; an untrusted one is none.\<close>

definition observe_identity :: "stream_setting \<Rightarrow> http_message \<Rightarrow> (stream_inspection, unit) act" where
  "observe_identity env m s =
     (case verify_identity (ss_engine env) False m (si_engine s) of
        (Inr ident, e) \<Rightarrow>
          (Inr (), s\<lparr>si_engine := e, si_identity := ident,
             si_run_id := (case map_of ident (uni ''run_id'') of
                Some (JStr r) \<Rightarrow> if run_id_ok r then r else si_run_id s | _ \<Rightarrow> si_run_id s)\<rparr>)
      | (Inl x, e) \<Rightarrow>
          (if value_error x then Inr () else Inl x, s\<lparr>si_engine := e, si_identity := (if value_error x then [] else si_identity s)\<rparr>))"

definition observation :: verdict where
  "observation = new_verdict V_allow ''observation_only'' Inline"

definition console_request :: "stream_setting \<Rightarrow> http_message \<Rightarrow> (stream_inspection, verdict) act" where
  "console_request env m =
     seq (modify (\<lambda>s. s\<lparr>si_message := Some m\<rparr>)) (\<lambda>_.
     seq (observe_identity env m) (\<lambda>_ s.
       case inspect_request (ss_engine env) (po_mode (ss_policy env)) m (si_engine s) of
         (vd, e) \<Rightarrow>
           (Inr (if po_mode (ss_policy env) = Mirror then observation else vd),
            s\<lparr>si_engine := e, si_verdict := Some vd,
              si_upstream := (if po_mode (ss_policy env) = Inline \<and> \<not> let_through vd then Some False else si_upstream s)\<rparr>)))"

definition console_metadata :: "stream_setting \<Rightarrow> http_message \<Rightarrow> (stream_inspection, unit) act" where
  "console_metadata env m =
     seq (modify (\<lambda>s. s\<lparr>si_upstream := Some True\<rparr>)) (\<lambda>_ s.
       if po_mode (ss_policy env) = Mirror then (Inr (), s)
       else case inspect_metadata (ss_engine env) True m (si_engine s) of (r, e) \<Rightarrow> (r, s\<lparr>si_engine := e\<rparr>))"

definition console_response :: "stream_setting \<Rightarrow> http_message \<Rightarrow> (stream_inspection, verdict) act" where
  "console_response env m s =
     (case inspect_response (ss_engine env) (po_mode (ss_policy env))
         (case si_verdict s of None \<Rightarrow> None
          | Some vd \<Rightarrow> map_option (\<lambda>p. (p, vd_pii_policy_scope vd)) (vd_pii_policy_action vd)) m (si_engine s) of
        (Inl x, e) \<Rightarrow> (Inl x, s\<lparr>si_engine := e\<rparr>)
      | (Inr vd, e) \<Rightarrow>
          (Inr (if po_mode (ss_policy env) = Mirror then observation else vd),
           s\<lparr>si_engine := e, si_response_verdict := Some vd\<rparr>))"

definition console_inspector :: "stream_setting \<Rightarrow> stream_inspection inspector" where
  "console_inspector env =
     \<lparr>in_request = console_request env, in_metadata = console_metadata env,
      in_response = (\<lambda>pii scope m. console_response env m),
      in_route = (if po_mode (ss_policy env) = Mirror then None
        else Some (\<lambda>m. route_for (ee_url (ss_engine env)) m (ee_config (ss_engine env)))),
      in_audit_ok = (\<lambda>_. True)\<rparr>"

subsection \<open>The event of a stream\<close>

definition transport_verdict :: "evidence \<Rightarrow> verdict" where
  "transport_verdict e = (new_verdict V_block (ed_reason e) Inline)\<lparr>vd_coverage := ''incomplete''\<rparr>"

definition stream_verdict :: "stream_inspection stream \<Rightarrow> verdict option" where
  "stream_verdict st =
     (case filter (\<lambda>e. ed_phase e = ''transport'') (sm_audit st) of
        e # _ \<Rightarrow> Some (transport_verdict e)
      | [] \<Rightarrow> si_verdict (sm_engine st))"

definition failed_verdict :: "stream_setting \<Rightarrow> verdict" where
  "failed_verdict env =
     (new_verdict V_unknown ''inspection_stream_failed'' (po_mode (ss_policy env)))\<lparr>vd_coverage := ''incomplete''\<rparr>"

text \<open>A stream that did not complete is never recorded as allowed.\<close>

definition recorded_verdict :: "stream_setting \<Rightarrow> bool \<Rightarrow> stream_inspection stream \<Rightarrow> verdict" where
  "recorded_verdict env completed st =
     (let v = (case stream_verdict st of None \<Rightarrow> failed_verdict env | Some v \<Rightarrow> v);
          w = (case si_response_verdict (sm_engine st) of
                 Some r \<Rightarrow> if vd_action r \<noteq> V_allow then r else v | None \<Rightarrow> v) in
      if \<not> completed \<and> let_through w then failed_verdict env else w)"

definition mapped_route :: "stream_setting \<Rightarrow> http_message option \<Rightarrow> route_rule option" where
  "mapped_route env m =
     (case m of
        None \<Rightarrow> None
      | Some m \<Rightarrow> find (\<lambda>r. rr_authority r = hm_authority m \<and> rr_path r = hd (split_on 63 (hm_path m)) \<and>
          rr_method r = hm_method m) (ic_routes (ee_config (ss_engine env))))"

definition mapped_rule :: "route_rule option \<Rightarrow> pystr \<Rightarrow> tool_rule option" where
  "mapped_rule r tool =
     (case r of None \<Rightarrow> None
      | Some r \<Rightarrow> if rr_protocol r = Mcp then map_of (rr_tools r) tool else rr_rule r)"

fun scope_name :: "authorization_scope \<Rightarrow> string" where
  "scope_name Scope_none = ''none''"
| "scope_name Scope_local_policy = ''local_policy''"
| "scope_name Scope_access_broker = ''access_broker''"

fun pii_scope_name :: "pii_scope \<Rightarrow> string" where
  "pii_scope_name Scope_global = ''global''"
| "pii_scope_name Scope_route = ''route''"
| "pii_scope_name Scope_tool = ''tool''"

definition optional :: "('a \<Rightarrow> pystr) \<Rightarrow> 'a option \<Rightarrow> json" where
  "optional f x = (case x of None \<Rightarrow> JNull | Some v \<Rightarrow> JStr (f v))"

definition known_methods :: "pystr list" where
  "known_methods = [uni ''POST'', uni ''GET'', uni ''PUT'', uni ''DELETE'', uni ''PATCH'', uni ''HEAD'', uni ''OPTIONS'']"

definition case_entry :: "json \<Rightarrow> (pystr \<times> pystr) option result" where
  "case_entry v = (case v of JStr s \<Rightarrow> Inr (map_of CASES s) | JArr vs \<Rightarrow> Inl Type_error | JObj ps \<Rightarrow> Inl Type_error
     | _ \<Rightarrow> Inr None)"

definition stream_text :: "stream_setting \<Rightarrow> bool \<Rightarrow> stream_inspection \<Rightarrow> json" where
  "stream_text env completed s = JObj
     [(uni ''kind'', JStr (uni ''envoy_http'')), (uni ''run_id'', JStr (si_run_id s)),
      (uni ''upstream_received'', case si_upstream s of None \<Rightarrow> JNull | Some b \<Rightarrow> JBool b),
      (uni ''stream_completed'', JBool completed), (uni ''http_status'', JNull)]"

definition stream_steps :: "stream_setting \<Rightarrow> verdict \<Rightarrow> bool option \<Rightarrow> json" where
  "stream_steps env base up = JArr
     [JObj [(uni ''stage'', JStr (uni ''Envoy '' @ 8594 # uni '' gRPC'')), (uni ''status'', JStr (uni ''actual network stream''))],
      JObj [(uni ''stage'', JStr (uni ''Inspection'')), (uni ''status'', JStr (uni (vd_reason base)))],
      JObj [(uni ''stage'', JStr (if ss_deployed env then uni ''Destination'' else uni ''Synthetic destination'')),
        (uni ''status'', JStr (case up of Some True \<Rightarrow> uni ''received'' | Some False \<Rightarrow> uni ''not forwarded''
           | None \<Rightarrow> uni ''not confirmed''))]]"

text \<open>\<open>base\<close>: what the request was judged as; \<open>vd\<close>: what the stream is recorded as.\<close>

definition event_json ::
  "stream_setting \<Rightarrow> bool \<Rightarrow> stream_inspection stream \<Rightarrow> (pystr \<times> pystr) option \<Rightarrow> bool \<Rightarrow> json" where
  "event_json env completed st entry synthetic =
     (let s = sm_engine st; p = ss_policy env; vd = recorded_verdict env completed st;
          own = stream_verdict st; base = (case own of None \<Rightarrow> vd | Some v \<Rightarrow> v);
          ident = si_identity s; case_id = get_or ident (uni ''scenario'') JNull;
          tool = (case own of
              Some v \<Rightarrow> (case vd_tool v of Some t \<Rightarrow> if t \<noteq> [] then t
                  else (case entry of None \<Rightarrow> uni ''unmapped'' | Some c \<Rightarrow> snd c)
                | None \<Rightarrow> (case entry of None \<Rightarrow> uni ''unmapped'' | Some c \<Rightarrow> snd c))
            | None \<Rightarrow> (case entry of None \<Rightarrow> uni ''unmapped'' | Some c \<Rightarrow> snd c));
          route = mapped_route env (si_message s); rule = mapped_rule route tool in
      JObj
       [(uni ''ts'', JStr (ss_now env)), (uni ''scenario'', if falsy case_id then JStr (uni ''network'') else case_id),
        (uni ''label'', JStr (case entry of None \<Rightarrow> uni ''Proxy network request'' | Some c \<Rightarrow> fst c)),
        (uni ''agent'', get_or ident (uni ''agent_id'') (JStr (uni ''unverified''))), (uni ''tool'', JStr tool),
        (uni ''resource'', JStr (case rule of
            Some r \<Rightarrow> (case tr_resource r of Some x \<Rightarrow> if x \<noteq> [] then x else snd (get_or TOOLS tool ([], uni ''unmapped''))
                | None \<Rightarrow> snd (get_or TOOLS tool ([], uni ''unmapped'')))
          | None \<Rightarrow> snd (get_or TOOLS tool ([], uni ''unmapped'')))),
        (uni ''action'', JStr (uni (action_text (vd_action vd)))), (uni ''reason'', JStr (uni (vd_reason vd))),
        (uni ''mode'', JStr (mode_name (po_mode p))), (uni ''latency_ms'', JFloat (ss_latency env)),
        (uni ''policy_version'', JInt (po_version p)),
        (uni ''source'', if vd_source_verified base then get_or ident (uni ''source_id'') (JStr (uni ''unverified''))
           else JStr (uni ''unverified'')),
        (uni ''synthetic'', JBool synthetic), (uni ''enforcement_applied'', JBool (completed \<and> po_mode p = Inline)),
        (uni ''authorization_scope'', JStr (uni (scope_name (vd_authorization_scope base)))),
        (uni ''approval_id'', optional id (vd_approval_id base)),
        (uni ''pii_policy_action'', optional pii_name (vd_pii_policy_action base)),
        (uni ''pii_policy_scope'', optional (\<lambda>x. uni (pii_scope_name x)) (vd_pii_policy_scope base)),
        (uni ''hypothetical_action'', if po_mode p = Mirror then JStr (uni (''would_'' @ action_text (vd_action vd))) else JNull),
        (uni ''request_digest'', optional id (vd_request_digest base)),
        (uni ''source_verified'', JBool (vd_source_verified base)), (uni ''identity_verified'', JBool False),
        (uni ''entities'', JArr (map JStr (sorted_set (vd_entities base @ vd_entities vd)))),
        (uni ''coverage'', JStr (uni (vd_coverage vd))),
        (uni ''request'', JObj
          [(uni ''method'', JStr (case si_message s of
              Some m \<Rightarrow> if hm_method m \<in> set known_methods then hm_method m else uni ''unknown'' | None \<Rightarrow> uni ''unknown'')),
           (uni ''authority'', JStr (case route of Some r \<Rightarrow> rr_authority r | None \<Rightarrow> uni ''[UNMAPPED]'')),
           (uni ''path'', JStr (case route of Some r \<Rightarrow> rr_path r | None \<Rightarrow> uni ''[UNMAPPED]'')),
           (uni ''tool'', JStr tool), (uni ''arguments'', JStr (uni ''[CONTENT OMITTED]''))]),
        (uni ''transport'', stream_text env completed s), (uni ''steps'', stream_steps env base (si_upstream s))])"

text \<open>\<open>persist\<close>: an identity whose scenario is no string or number cannot be looked up.\<close>

definition stream_event :: "stream_setting \<Rightarrow> bool \<Rightarrow> stream_inspection stream \<Rightarrow> json result" where
  "stream_event env completed st =
     rbind (case_entry (get_or (si_identity (sm_engine st)) (uni ''scenario'') JNull)) (\<lambda>entry.
       Inr (event_json env completed st (if ss_deployed env then None else entry) (entry \<noteq> None)))"

subsection \<open>Serving a stream\<close>

record served =
  sv_stream :: "stream_inspection stream"
  sv_plane :: dataplane
  sv_completed :: bool
  sv_finished :: bool
  sv_events :: "json list"   \<comment> \<open>the events that were taken\<close>
  sv_tries :: nat

definition finish :: "stream_setting \<Rightarrow> (nat \<Rightarrow> spool_os) \<Rightarrow> (served, unit) act" where
  "finish env os s =
     (if sv_finished s then (Inr (), s)
      else case stream_event env (sv_completed s) (sv_stream s) of
        Inl e \<Rightarrow> (Inl e, s)
      | Inr ev \<Rightarrow>
          (case record_event (os (sv_tries s)) ev (sv_plane s) of
             (Inl e, pl) \<Rightarrow> (Inl e, s\<lparr>sv_plane := pl, sv_tries := sv_tries s + 1\<rparr>)
           | (Inr _, pl) \<Rightarrow> (Inr (), s\<lparr>sv_plane := pl, sv_tries := sv_tries s + 1, sv_finished := True,
               sv_events := sv_events s @ [ev]\<rparr>)))"

text \<open>The replies after which Envoy may close the stream.\<close>

definition closing :: "bool \<Rightarrow> ext_reply \<Rightarrow> bool" where
  "closing no_body r =
     (case r of Immediate c b \<Rightarrow> True | Pass_response_body b \<Rightarrow> True | Pass_response_headers ns \<Rightarrow> no_body | _ \<Rightarrow> False)"

definition deliver :: "stream_setting \<Rightarrow> (nat \<Rightarrow> spool_os) \<Rightarrow> bool \<Rightarrow> ext_reply \<Rightarrow> (served, unit) act" where
  "deliver env os no_body r =
     (if closing no_body r then seq (modify (\<lambda>s. s\<lparr>sv_completed := True\<rparr>)) (\<lambda>_. finish env os) else ret ())"

fun no_body_after :: "ext_event \<Rightarrow> bool \<Rightarrow> bool" where
  "no_body_after (Response_headers hs eos) old = eos"
| "no_body_after ev old = old"

fun serve_events ::
  "stream_setting \<Rightarrow> (nat \<Rightarrow> spool_os) \<Rightarrow> ext_event list \<Rightarrow> bool \<Rightarrow> served \<Rightarrow> ext_reply list \<times> stream_end \<times> served" where
  "serve_events env os [] nb s =
     ([], if sm_request_checked (sv_stream s) \<and> sm_response_checked (sv_stream s) then Clean else Abort_incomplete, s)"
| "serve_events env os (ev # evs) nb s =
     (let nb' = no_body_after ev nb in
      case process_event (console_inspector env) ev (sv_stream s) of
        (Inl e, st) \<Rightarrow>
          (case handle_exception (console_inspector env) e st of
             ([], fin, st') \<Rightarrow> ([], fin, s\<lparr>sv_stream := st'\<rparr>)
           | (r # _, fin, st') \<Rightarrow>
               (case deliver env os nb' r (s\<lparr>sv_stream := st'\<rparr>) of
                  (Inl x, s') \<Rightarrow> ([], Crash, s')
                | (Inr _, s') \<Rightarrow> ([r], fin, s')))
      | (Inr (r, last_reply), st) \<Rightarrow>
          (case deliver env os nb' r (s\<lparr>sv_stream := st\<rparr>) of
             (Inl x, s') \<Rightarrow> ([], Crash, s')
           | (Inr _, s') \<Rightarrow>
               if last_reply then ([r], Clean, s')
               else (case serve_events env os evs nb' s' of (rs, fin, s'') \<Rightarrow> (r # rs, fin, s''))))"

text \<open>\<open>Process\<close>: what is left unwritten is written in the end.\<close>

definition serve ::
  "stream_setting \<Rightarrow> (nat \<Rightarrow> spool_os) \<Rightarrow> ext_event list \<Rightarrow> dataplane \<Rightarrow> engine_state \<Rightarrow>
     ext_reply list \<times> stream_end \<times> served" where
  "serve env os evs pl e =
     (case serve_events env os evs False \<lparr>sv_stream = stream_start (new_inspection env e), sv_plane = pl,
         sv_completed = False, sv_finished = False, sv_events = [], sv_tries = 0\<rparr> of
        (replies, fin, s) \<Rightarrow>
          (case finish env os s of
             (Inl x, s') \<Rightarrow> (replies, Crash, s')
           | (Inr _, s') \<Rightarrow> (replies, fin, s')))"

end
