(* ===== verification/Stream_Evidence.thy ===== *)
theory Stream_Evidence
  imports Stream_Inspection Ext_Proc_Safety
begin

text \<open>
  The evidence of a stream comes before the reply that ends it, and is written once; what is passed is
  what the engine admitted, or in mirror mode the request as it came.
\<close>

subsection \<open>The inspection of a stream is an inspector\<close>

definition console_admitted ::
  "stream_setting \<Rightarrow> http_message \<Rightarrow> verdict \<Rightarrow> stream_inspection \<Rightarrow> stream_inspection \<Rightarrow> bool" where
  "console_admitted env m vd s s' \<longleftrightarrow>
     (if po_mode (ss_policy env) = Mirror then vd = observation
      else \<exists>e. request_admitted (ss_engine env) m vd e (si_engine s'))"

lemma inline_verdict:
  assumes "inspect_request env Inline m e = (vd, e')" and "lets_through vd"
  shows "request_admitted env m vd e e'"
  unfolding request_admitted_def by (rule inline_forward [OF assms])

interpretation console: request_inspector "console_inspector env" "console_admitted env" for env
proof
  fix m s vd s'
  assume run: "in_request (console_inspector env) m s = (Inr vd, s')" and thr: "lets_through vd"
  show "console_admitted env m vd s s'"
  proof (cases "po_mode (ss_policy env)")
    case Mirror
    then show ?thesis
      using run by (auto simp: console_inspector_def console_request_def seq_app console_admitted_def split: sum.splits prod.splits)
  next
    case Inline
    obtain o1 s1 where obs: "observe_identity env m (s\<lparr>si_message := Some m\<rparr>) = (o1, s1)" by fastforce
    obtain vd1 e where q: "inspect_request (ss_engine env) Inline m (si_engine s1) = (vd1, e)" by fastforce
    have "vd1 = vd" "si_engine s' = e"
      using run obs q Inline by (cases o1; auto simp: console_inspector_def console_request_def seq_app)+
    then have "inspect_request (ss_engine env) Inline m (si_engine s1) = (vd, si_engine s')" using q by simp
    from inline_verdict [OF this thr] show ?thesis using Inline unfolding console_admitted_def by auto
  qed
qed

subsection \<open>What is sent is what the processor replied\<close>

lemma serve_events_process:
  "serve_events env os evs nb s = (rs, fin, s') \<Longrightarrow>
   \<exists>rs0 fin0 st0. process_events (console_inspector env) evs (sv_stream s) = (rs0, fin0, st0) \<and>
     (\<exists>more. rs0 = rs @ more) \<and> (fin = Crash \<or> fin = fin0 \<and> rs = rs0)"
proof (induction evs arbitrary: nb s rs fin)
  case Nil
  then show ?case by auto
next
  case (Cons ev evs)
  let ?ins = "console_inspector env"
  obtain res st where step: "process_event ?ins ev (sv_stream s) = (res, st)" by fastforce
  show ?case
  proof (cases res)
    case (Inl e)
    obtain hs hfin hst where h: "handle_exception ?ins e st = (hs, hfin, hst)" by (rule prod_cases3)
    have "hs = [] \<or> (\<exists>r. hs = [r])"
      using h by (auto simp: handle_exception_def Let_def split: exn.splits sum.splits prod.splits)
    then show ?thesis
    proof
      assume "hs = []"
      then show ?thesis using Cons.prems step Inl h by (auto simp: Let_def)
    next
      assume "\<exists>r. hs = [r]"
      then obtain r where r: "hs = [r]" by blast
      obtain d s1 where "deliver env os (no_body_after ev nb) r (s\<lparr>sv_stream := hst\<rparr>) = (d, s1)" by fastforce
      then show ?thesis using Cons.prems step Inl h r by (cases d) (auto simp: Let_def)
    qed
  next
    case (Inr p)
    obtain r last_reply where p: "p = (r, last_reply)" by fastforce
    obtain d s1 where d: "deliver env os (no_body_after ev nb) r (s\<lparr>sv_stream := st\<rparr>) = (d, s1)" by fastforce
    have same: "sv_stream s1 = st"
      using d by (auto simp: deliver_def seq_app finish_def split: if_splits sum.splits prod.splits)
    show ?thesis
    proof (cases d)
      case (Inl x)
      obtain rs0 fin0 st0 where "process_events ?ins (ev # evs) (sv_stream s) = (rs0, fin0, st0)" by (rule prod_cases3)
      then show ?thesis using Cons.prems step Inr p d Inl by (auto simp: Let_def)
    next
      case ok: (Inr u)
      show ?thesis
      proof (cases last_reply)
        case True
        then show ?thesis using Cons.prems step Inr p d ok by (auto simp: Let_def)
      next
        case False
        obtain rs2 where rest: "serve_events env os evs (no_body_after ev nb) s1 = (rs2, fin, s')" "rs = r # rs2"
          using Cons.prems step Inr p d ok False by (auto simp: Let_def split: prod.splits)
        obtain rs0 fin0 st0 where IH: "process_events ?ins evs (sv_stream s1) = (rs0, fin0, st0)"
            "\<exists>more. rs0 = rs2 @ more" "fin = Crash \<or> fin = fin0 \<and> rs2 = rs0"
          using Cons.IH [OF rest(1)] by blast
        have "process_events ?ins (ev # evs) (sv_stream s) = (r # rs0, fin0, st0)"
          using step Inr p False IH(1) same by simp
        then show ?thesis using IH(2,3) rest(2) by simp
      qed
    qed
  qed
qed

subsection \<open>The evidence\<close>

text \<open>An event that says the request was let through says that the stream completed.\<close>

definition honest :: "stream_setting \<Rightarrow> json \<Rightarrow> bool" where
  "honest env ev \<longleftrightarrow>
     obj_get ev (uni ''mode'') = Some (JStr (mode_name (po_mode (ss_policy env)))) \<and>
     (obj_get ev (uni ''action'') \<in> {Some (JStr (uni ''allow'')), Some (JStr (uni ''redact''))} \<longrightarrow>
        obj_get ev (uni ''enforcement_applied'') = Some (JBool (po_mode (ss_policy env) = Inline)))"

lemma action_text_inject: "uni (action_text a) = uni (action_text b) \<longleftrightarrow> a = b"
  by (cases a; cases b) (simp_all add: uni_eq_iff)

lemma recorded_incomplete: "\<not> completed \<Longrightarrow> \<not> let_through (recorded_verdict env completed st)"
  by (simp add: recorded_verdict_def Let_def failed_verdict_def new_verdict_def lets_through_def)

lemma event_fields:
  "obj_get (event_json env completed st entry synthetic) (uni ''mode'') = Some (JStr (mode_name (po_mode (ss_policy env))))"
  "obj_get (event_json env completed st entry synthetic) (uni ''action'') =
     Some (JStr (uni (action_text (vd_action (recorded_verdict env completed st)))))"
  "obj_get (event_json env completed st entry synthetic) (uni ''enforcement_applied'') =
     Some (JBool (completed \<and> po_mode (ss_policy env) = Inline))"
  by (simp_all add: event_json_def Let_def)

lemma stream_event_honest: "stream_event env completed st = Inr ev \<Longrightarrow> honest env ev"
proof -
  assume "stream_event env completed st = Inr ev"
  then obtain entry synthetic where ev: "ev = event_json env completed st entry synthetic"
    by (auto simp: stream_event_def rbind_Inr_iff)
  let ?a = "vd_action (recorded_verdict env completed st)"
  show ?thesis
  proof (cases completed)
    case True
    then show ?thesis by (simp add: honest_def ev event_fields)
  next
    case False
    then have "?a \<noteq> V_allow" "?a \<noteq> V_redact" using recorded_incomplete [OF False] by (auto simp: lets_through_def)
    then have "uni (action_text ?a) \<noteq> uni (action_text V_allow)" "uni (action_text ?a) \<noteq> uni (action_text V_redact)"
      by (simp_all only: action_text_inject not_False_eq_True)
    then show ?thesis by (simp add: honest_def ev event_fields)
  qed
qed

text \<open>In inline mode an event was taken by an append that succeeded.\<close>

definition durable :: "stream_setting \<Rightarrow> (nat \<Rightarrow> spool_os) \<Rightarrow> served \<Rightarrow> json \<Rightarrow> bool" where
  "durable env os s ev \<longleftrightarrow>
     (po_mode (ss_policy env) = Inline \<longrightarrow> (\<exists>n sp. append_event (os n) ev sp = (Inr (), dl_spool (sv_plane s))))"

definition evidence_kept :: "stream_setting \<Rightarrow> (nat \<Rightarrow> spool_os) \<Rightarrow> served \<Rightarrow> bool" where
  "evidence_kept env os s \<longleftrightarrow>
     (if sv_finished s then \<exists>ev. sv_events s = [ev] \<and> honest env ev \<and> durable env os s ev else sv_events s = [])"

lemma evidence_kept_stream [simp]:
  "evidence_kept env os (s\<lparr>sv_stream := st\<rparr>) = evidence_kept env os s"
  "evidence_kept env os (s\<lparr>sv_completed := c\<rparr>) = evidence_kept env os s"
  by (simp_all add: evidence_kept_def durable_def)

lemma record_event_durable:
  assumes "record_event os ev pl = (Inr x, pl')" and "honest env ev"
  shows "po_mode (ss_policy env) = Inline \<Longrightarrow> append_event os ev (dl_spool pl) = (Inr (), dl_spool pl')"
proof -
  assume inl: "po_mode (ss_policy env) = Inline"
  obtain a sp where a: "append_event os ev (dl_spool pl) = (a, sp)" by fastforce
  have "obj_get ev (uni ''mode'') \<noteq> Some (JStr (uni ''mirror''))"
    using assms(2) inl by (simp add: honest_def uni_eq_iff)
  then show ?thesis
    using assms(1) a by (auto simp: record_event_def split: sum.splits exn.splits)
qed

lemma finish_kept:
  assumes "finish env os s = (r, s')" and "evidence_kept env os s"
  shows "evidence_kept env os s' \<and> (r = Inr () \<longrightarrow> sv_finished s') \<and> (sv_finished s \<longrightarrow> sv_finished s')"
proof (cases "sv_finished s")
  case True
  then show ?thesis using assms by (auto simp: finish_def)
next
  case False
  note fin = assms(1) [unfolded finish_def if_not_P [OF False]]
  show ?thesis
  proof (cases "stream_event env (sv_completed s) (sv_stream s)")
    case (Inl e)
    then show ?thesis using fin assms(2) False by auto
  next
    case (Inr ev)
    note hon = stream_event_honest [OF Inr]
    obtain rr pl where rec: "record_event (os (sv_tries s)) ev (sv_plane s) = (rr, pl)" by fastforce
    show ?thesis
    proof (cases rr)
      case (Inl e)
      then show ?thesis using fin Inr rec assms(2) False by (auto simp: evidence_kept_def)
    next
      case ok: (Inr x)
      have s': "s' = s\<lparr>sv_plane := pl, sv_tries := sv_tries s + 1, sv_finished := True, sv_events := sv_events s @ [ev]\<rparr>"
          "r = Inr ()"
        using fin Inr rec ok by simp_all
      have "durable env os s' ev"
        using record_event_durable [OF rec [unfolded ok] hon] unfolding durable_def s' by auto
      then show ?thesis using assms(2) False hon s' by (simp add: evidence_kept_def)
    qed
  qed
qed

lemma deliver_kept:
  assumes "deliver env os nb r s = (d, s')" and "evidence_kept env os s"
  shows "evidence_kept env os s' \<and> (d = Inr () \<and> closing nb r \<longrightarrow> sv_finished s') \<and> (sv_finished s \<longrightarrow> sv_finished s')"
proof (cases "closing nb r")
  case True
  then have "finish env os (s\<lparr>sv_completed := True\<rparr>) = (d, s')" using assms(1) by (simp add: deliver_def seq_app)
  from finish_kept [OF this] show ?thesis using assms(2) by simp
next
  case False
  then show ?thesis using assms by (simp add: deliver_def)
qed

text \<open>Whether the response was announced without a body, at an event of the stream.\<close>

definition no_body_at :: "bool \<Rightarrow> ext_event list \<Rightarrow> nat \<Rightarrow> bool" where
  "no_body_at nb evs i = fold no_body_after (take (Suc i) evs) nb"

lemma no_body_at_Suc: "no_body_at nb (ev # evs) (Suc i) = no_body_at (no_body_after ev nb) evs i"
  "no_body_at nb (ev # evs) 0 = no_body_after ev nb"
  by (simp_all add: no_body_at_def)

lemma serve_events_kept:
  "serve_events env os evs nb s = (rs, fin, s') \<Longrightarrow> evidence_kept env os s \<Longrightarrow>
   evidence_kept env os s' \<and> (sv_finished s \<longrightarrow> sv_finished s') \<and>
   (\<forall>i < length rs. closing (no_body_at nb evs i) (rs ! i) \<longrightarrow> sv_finished s')"
proof (induction evs arbitrary: nb s rs fin)
  case Nil
  then show ?case by auto
next
  case (Cons ev evs)
  let ?ins = "console_inspector env" and ?nb = "no_body_after ev nb"
  obtain res st where step: "process_event ?ins ev (sv_stream s) = (res, st)" by fastforce
  show ?case
  proof (cases res)
    case (Inl e)
    obtain hs hfin hst where h: "handle_exception ?ins e st = (hs, hfin, hst)" by (rule prod_cases3)
    show ?thesis
    proof (cases hs)
      case Nil
      then show ?thesis using Cons.prems step Inl h by (auto simp: Let_def)
    next
      case r: (Cons r hs')
      obtain d s1 where d: "deliver env os ?nb r (s\<lparr>sv_stream := hst\<rparr>) = (d, s1)" by fastforce
      note kept = deliver_kept [OF d] Cons.prems(2)
      show ?thesis using Cons.prems(1) step Inl h r d kept by (cases d) (auto simp: Let_def no_body_at_Suc)
    qed
  next
    case (Inr p)
    obtain r last_reply where p: "p = (r, last_reply)" by fastforce
    obtain d s1 where d: "deliver env os ?nb r (s\<lparr>sv_stream := st\<rparr>) = (d, s1)" by fastforce
    have kept: "evidence_kept env os s1" "d = Inr () \<and> closing ?nb r \<longrightarrow> sv_finished s1" "sv_finished s \<longrightarrow> sv_finished s1"
      using deliver_kept [OF d] Cons.prems(2) by simp_all
    show ?thesis
    proof (cases "d = Inr () \<and> \<not> last_reply")
      case False
      then show ?thesis using Cons.prems(1) step Inr p d kept by (cases d) (auto simp: Let_def no_body_at_Suc)
    next
      case True
      obtain rs2 where rest: "serve_events env os evs ?nb s1 = (rs2, fin, s')" "rs = r # rs2"
        using Cons.prems(1) step Inr p d True by (auto simp: Let_def split: prod.splits)
      note IH = Cons.IH [OF rest(1) kept(1)]
      have "sv_finished s'" if "i < length rs" "closing (no_body_at nb (ev # evs) i) (rs ! i)" for i
        using that IH kept(2) True rest(2) by (cases i) (auto simp: no_body_at_Suc)
      then show ?thesis using IH kept(3) by blast
    qed
  qed
qed

text \<open>What a stream that was served sent and recorded.\<close>

lemma serve_outcome:
  assumes "serve env os evs pl e = (replies, fin, s)"
  shows "evidence_kept env os s" "fin = Clean \<Longrightarrow> sv_finished s"
    "\<forall>i < length replies. closing (no_body_at False evs i) (replies ! i) \<longrightarrow> sv_finished s"
    "\<exists>rs0 fin0 st0. process (console_inspector env) evs (new_inspection env e) = (rs0, fin0, st0) \<and> (\<exists>more. rs0 = replies @ more)"
proof -
  define s0 where "s0 = \<lparr>sv_stream = stream_start (new_inspection env e), sv_plane = pl,
         sv_completed = False, sv_finished = False, sv_events = [], sv_tries = 0\<rparr>"
  obtain rs1 fin1 s1 where run: "serve_events env os evs False s0 = (rs1, fin1, s1)" by (rule prod_cases3)
  obtain r s2 where f: "finish env os s1 = (r, s2)" by fastforce
  have out: "replies = rs1" "s = s2" "fin = (case r of Inl x \<Rightarrow> Crash | Inr _ \<Rightarrow> fin1)"
    using assms run f by (auto simp: serve_def s0_def split: sum.splits)
  have "evidence_kept env os s0" by (simp add: evidence_kept_def s0_def)
  note kept = serve_events_kept [OF run this]
  note fin = finish_kept [OF f conjunct1 [OF kept]]
  show "evidence_kept env os s" using fin out by simp
  show "sv_finished s" if "fin = Clean" using that fin out by (auto split: sum.splits)
  show "\<forall>i < length replies. closing (no_body_at False evs i) (replies ! i) \<longrightarrow> sv_finished s"
    using kept fin out by blast
  obtain rs0 fin0 st0 where "process_events (console_inspector env) evs (sv_stream s0) = (rs0, fin0, st0)"
      "\<exists>more. rs0 = rs1 @ more"
    using serve_events_process [OF run] by blast
  then show "\<exists>rs0 fin0 st0. process (console_inspector env) evs (new_inspection env e) = (rs0, fin0, st0) \<and>
      (\<exists>more. rs0 = replies @ more)"
    by (simp add: process_def s0_def out)
qed

end
