(* ===== verification/Stream_Evidence_Properties.thy ===== *)
theory Stream_Evidence_Properties
  imports Stream_Evidence Stream_Properties Policy_Properties
begin

text \<open>
  The claim on the composition of stream processor, engine, policy and evidence spool.
\<close>

subsection \<open>Text that can be written\<close>

fun scalar_tree :: "json \<Rightarrow> bool" where
  "scalar_tree (JStr s) = list_all is_scalar s"
| "scalar_tree (JFloat r) = list_all is_scalar r"
| "scalar_tree (JArr vs) = list_all scalar_tree vs"
| "scalar_tree (JObj ps) = list_all (\<lambda>(k, v). list_all is_scalar k \<and> scalar_tree v) ps"
| "scalar_tree v = True"

lemma scalar_join: "\<forall>w \<in> set ws. list_all is_scalar w \<Longrightarrow> list_all is_scalar (join_with [44] ws)"
  by (induction "[44 :: nat]" ws rule: join_with.induct) (auto simp: is_scalar_def is_surrogate_def)

lemma scalar_low: "c < 55296 \<Longrightarrow> is_scalar c"
  by (simp add: is_scalar_def is_surrogate_def)

lemma scalar_uni [simp]: "list_all is_scalar (uni s)"
proof -
  have "is_scalar (of_char c)" for c :: char
  proof (rule scalar_low)
    have "(of_char c :: nat) mod 256 = of_char c" using of_char_of [where 'a = nat, of "of_char c :: nat"] by simp
    then have "(of_char c :: nat) < 256" by (metis mod_less_divisor zero_less_numeral)
    then show "(of_char c :: nat) < 55296" by linarith
  qed
  then show ?thesis by (simp add: uni_def list_all_iff)
qed

lemma scalar_dump_string: "list_all is_scalar s \<Longrightarrow> list_all is_scalar (dump_string False s)"
proof -
  assume s: "list_all is_scalar s"
  have "list_all is_scalar (u_escape c)" if "c < 32" for c
    using that by (simp add: u_escape_def hex_digit_def scalar_low)
  then have "is_scalar c \<Longrightarrow> list_all is_scalar (escape_char False c)" for c
    by (simp add: escape_char_def scalar_low)
  then have "list_all is_scalar (concat (map (escape_char False) s))" using s by (induction s) auto
  then show ?thesis by (simp add: dump_string_def scalar_low)
qed

lemma scalar_dumps: "scalar_tree v \<Longrightarrow> list_all is_scalar (dumps False v)"
proof (induction v)
  case (JInt i)
  have "list_all is_scalar (dec_nat n)" for n
    using dec_nat_digits [of _ n] by (auto simp: list_all_iff is_digit_def intro!: scalar_low) fastforce
  then show ?case by (simp add: dec_int_def scalar_low)
next
  case (JArr vs)
  then have "list_all is_scalar (join_with [44] (map (dumps False) vs))" by (intro scalar_join) (auto simp: list_all_iff)
  then show ?case by (simp add: scalar_low)
next
  case (JObj ps)
  have "list_all is_scalar (dump_string False k @ 58 # dumps False v)" if "(k, v) \<in> set ps" for k v
    using JObj.IH [of "(k, v)" v] JObj.prems that by (auto simp: list_all_iff scalar_dump_string [unfolded list_all_iff] scalar_low)
  then have "list_all is_scalar (join_with [44] (map (\<lambda>(k, v). dump_string False k @ 58 # dumps False v) ps))"
    by (intro scalar_join) auto
  then show ?case by (simp add: scalar_low)
qed (auto simp: scalar_dump_string dump_float_def)

lemma scalar_encoded: "scalar_tree v \<Longrightarrow> \<exists>b. utf8_encode (dumps False v) = Some b"
  using scalar_dumps by (simp add: utf8_encode_def)

subsection \<open>Mirror mode\<close>

text \<open>Observing refuses only a stream that the processor cannot read.\<close>

definition stream_faults :: "string list" where
  "stream_faults = [''unexpected_protocol_sequence'', ''ambiguous_headers'', ''authority_host_mismatch'', ''ambiguous_framing'',
     ''unsupported_connection_tokens'', ''unsupported_content_encoding'', ''extproc_observability_not_supported'',
     ''unsupported_extproc_message'']"

lemma collect_headers_fault: "collect_headers kvs hs = Inl e \<Longrightarrow> e = Inspection ''ambiguous_headers''"
  by (induction kvs hs rule: collect_headers.induct) (auto split: if_splits)

lemma proto_headers_fault: "proto_headers phs = Inl (Inspection why) \<Longrightarrow> why \<in> set stream_faults"
  by (auto simp: proto_headers_def normalized_headers_def rbind_Inl_iff Let_def stream_faults_def
      dest!: collect_headers_fault split: if_splits option.splits)

lemma mirror_calls:
  assumes "po_mode (ss_policy env) = Mirror"
  shows "in_request (console_inspector env) m s = (Inr vd, s') \<Longrightarrow> vd = observation"
    and "in_response (console_inspector env) p sc m s = (Inr vd, s') \<Longrightarrow> vd = observation"
    and "in_request (console_inspector env) m s \<noteq> (Inl (Inspection why), s')"
    and "in_response (console_inspector env) p sc m s \<noteq> (Inl (Inspection why), s')"
    and "in_metadata (console_inspector env) m s \<noteq> (Inl e, s')"
    and "drops_cookies (console_inspector env) st = Inr False"
  using assms
  by (auto simp: console_inspector_def console_request_def console_response_def console_metadata_def observe_identity_def
      inspect_response_def response_route_def drops_cookies_def seq_app split: sum.splits prod.splits exn.splits if_splits)

lemma observation_through [simp]: "lets_through observation"
  by (simp add: lets_through_def observation_def new_verdict_def)

lemma mirror_inspect_request:
  assumes "po_mode (ss_policy env) = Mirror" and "inspect_stream_request (console_inspector env) m st = (r, st')"
  shows "r = Inr observation \<or> (\<exists>e. r = Inl e \<and> (\<forall>why. e \<noteq> Inspection why))"
proof (cases "in_request (console_inspector env) m (sm_engine st)")
  case (Pair q s')
  have audit: "in_audit_ok (console_inspector env) n" for n by (simp add: console_inspector_def)
  show ?thesis
  proof (cases q)
    case (Inr vd)
    then show ?thesis using mirror_calls(1) [OF assms(1)] assms(2) Pair audit
      by (auto simp: inspect_stream_request_def seq_app call_engine_def record_audit_def)
  next
    case (Inl e)
    then show ?thesis using mirror_calls(3) [OF assms(1)] assms(2) Pair
      by (auto simp: inspect_stream_request_def seq_app call_engine_def)
  qed
qed

definition quiet :: "(ext_reply \<times> bool) result \<Rightarrow> bool" where
  "quiet r \<longleftrightarrow>
     (case r of Inr (Immediate c b, d) \<Rightarrow> False | Inr _ \<Rightarrow> True | Inl (Inspection why) \<Rightarrow> why \<in> set stream_faults | Inl _ \<Rightarrow> True)"

lemma quiet_simps [simp]:
  "quiet (Inr (Pass_request_headers ns, d))" "quiet (Inr (Pass_request_body ob, d))"
  "quiet (Inr (Pass_response_headers ns, d))" "quiet (Inr (Pass_response_body ob, d))"
  "quiet (Inl (Inspection why)) \<longleftrightarrow> why \<in> set stream_faults"
  "\<not> quiet (Inr (Immediate c b, d))"
  by (simp_all add: quiet_def)

lemma quiet_other: "\<forall>why. e \<noteq> Inspection why \<Longrightarrow> quiet (Inl e)"
  by (cases e) (auto simp: quiet_def)

lemma protocol_error_quiet: "protocol_error st = (r, st') \<Longrightarrow> quiet r"
  by (auto simp: protocol_error_def raise_def stream_faults_def)

lemma proto_headers_quiet: "proto_headers phs = Inl e \<Longrightarrow> quiet (Inl e)"
  using proto_headers_fault by (cases e) (auto simp: quiet_def)

lemma mirror_event:
  assumes "po_mode (ss_policy env) = Mirror" and "process_event (console_inspector env) ev st = (r, st')"
  shows "quiet r"
proof (cases ev)
  case (Request_headers phs eos)
  note run = assms(2) [unfolded Request_headers process_event.simps request_headers_event_def]
  show ?thesis
  proof (cases "sm_request_headers st = None")
    case new: True
    show ?thesis
    proof (cases "proto_headers phs")
      case (Inl e)
      then show ?thesis using run new proto_headers_quiet by (auto simp: seq_app)
    next
      case (Inr hs)
      define st1 where "st1 = st\<lparr>sm_request_headers := Some hs, sm_method := get_or hs (uni '':method'') [],
         sm_authority := get_or hs (uni '':authority'') (get_or hs (uni ''host'') []), sm_path := get_or hs (uni '':path'') []\<rparr>"
      obtain q st2 where q: "inspect_stream_request (console_inspector env) (stream_message st1 hs [] True) st1 = (q, st2)"
        by fastforce
      have "(if eos then (case q of Inl e \<Rightarrow> (Inl e, st2) | Inr vd \<Rightarrow>
            (if lets_through vd then ret (Pass_request_headers (remove_context hs), False) else lift_result (immediate vd)) st2)
          else ret (Pass_request_headers (remove_context hs), False) st1) = (r, st')"
        using run new Inr q by (cases q; cases eos) (simp_all add: seq_app st1_def [symmetric])
      then show ?thesis
        using mirror_inspect_request [OF assms(1) q] by (cases eos) (auto intro: quiet_other)
    qed
  next
    case False
    then show ?thesis using run protocol_error_quiet by (simp add: seq_app) blast
  qed
next
  case (Request_body body eos)
  note run = assms(2) [unfolded Request_body process_event.simps request_body_event_def]
  show ?thesis
  proof (cases "sm_request_headers st")
    case (Some hs)
    obtain q st2 where q: "inspect_stream_request (console_inspector env) (stream_message st hs body eos) st = (q, st2)"
      by fastforce
    show ?thesis
      using mirror_inspect_request [OF assms(1) q] run Some q
      by (cases q) (auto simp: seq_app intro: quiet_other dest: protocol_error_quiet split: if_splits)
  qed (use run in \<open>auto simp: seq_app dest: protocol_error_quiet\<close>)
next
  case (Response_headers phs eos)
  note run = assms(2) [unfolded Response_headers process_event.simps response_headers_event_def]
  show ?thesis
  proof (cases "\<not> sm_request_checked st \<or> sm_response_headers st \<noteq> None")
    case True
    then show ?thesis using run protocol_error_quiet by (simp add: seq_app) blast
  next
    case go: False
    show ?thesis
    proof (cases "proto_headers phs")
      case (Inl e)
      then show ?thesis using run go proto_headers_quiet mirror_calls(6) [OF assms(1)] by (auto simp: seq_app)
    next
      case (Inr hs)
      obtain q s1 where q: "in_metadata (console_inspector env) (stream_message st hs [] True) (sm_engine st) = (q, s1)" by fastforce
      have "q = Inr ()" using mirror_calls(5) [OF assms(1)] q by (cases q) auto
      moreover have "''unsupported_content_encoding'' \<in> set stream_faults" by (simp add: stream_faults_def)
      ultimately show ?thesis
        using run go Inr q mirror_calls(6) [OF assms(1)] by (auto simp: seq_app call_engine_def raise_def split: if_splits)
    qed
  qed
next
  case (Response_body body eos)
  note run = assms(2) [unfolded Response_body process_event.simps response_body_event_def]
  show ?thesis
  proof (cases "sm_response_headers st = None \<or> sm_response_checked st")
    case True
    then show ?thesis using run protocol_error_quiet
      by (cases "sm_response_headers st") (simp_all add: seq_app, blast+)
  next
    case False
    then obtain hs where hs: "sm_response_headers st = Some hs" "\<not> sm_response_checked st" by auto
    show ?thesis
    proof (cases "sm_verdict st")
      case None
      then show ?thesis using run hs by (auto simp: seq_app raise_def intro: quiet_other)
    next
      case (Some rv)
      obtain q s1 where q: "in_response (console_inspector env) (vd_pii_policy_action rv) (vd_pii_policy_scope rv)
          (stream_message st hs body eos) (sm_engine st) = (q, s1)" by fastforce
      have audit: "in_audit_ok (console_inspector env) n" for n by (simp add: console_inspector_def)
      show ?thesis
      proof (cases q)
        case (Inl e)
        then show ?thesis using run hs Some q mirror_calls(4) [OF assms(1)]
          by (auto simp: seq_app call_engine_def intro!: quiet_other)
      next
        case (Inr vd)
        then have "vd = observation" using q mirror_calls(2) [OF assms(1)] by simp
        then show ?thesis using run hs Some q Inr audit by (auto simp: seq_app call_engine_def record_audit_def)
      qed
    qed
  qed
next
  case Observability_event
  then show ?thesis using assms(2) by (auto simp: raise_def stream_faults_def)
next
  case Unknown_event
  then show ?thesis using assms(2) by (auto simp: raise_def stream_faults_def)
next
  case Stream_timeout
  then show ?thesis using assms(2) by (auto simp: raise_def intro: quiet_other)
qed

subsection \<open>The claim\<close>

definition refusal_text :: "string \<Rightarrow> json" where
  "refusal_text why = JObj [(uni ''error'', JStr (uni why)), (uni ''decision'', JStr (uni ''block'')), (uni ''approval_id'', JNull)]"

lemma mirror_refusal:
  assumes "po_mode (ss_policy env) = Mirror" and "process (console_inspector env) evs s = (replies, fin, st)"
    and "i < length replies" and "replies ! i = Immediate c b"
  shows "c = 403 \<and> (\<exists>why \<in> set stream_faults. encode_json (refusal_text why) = Inr b)"
proof -
  obtain st1 why st2 where run: "process_event (console_inspector env) (evs ! i) st1 = (Inl (Inspection why), st2)"
      and imm: "immediate ((new_verdict V_block why Inline)\<lparr>vd_coverage := ''incomplete''\<rparr>) = Inr (Immediate c b, True)"
    using reply_at [OF assms(2) [unfolded process_def] assms(3)] assms(4) mirror_event [OF assms(1)] by fastforce
  have why: "why \<in> set stream_faults" using mirror_event [OF assms(1) run] by simp
  then have "status_code ((new_verdict V_block why Inline)\<lparr>vd_coverage := ''incomplete''\<rparr>) = 403"
    by (auto simp: stream_faults_def status_code_def new_verdict_def busy_reasons_def malformed_reasons_def)
  then show ?thesis
    using imm why by (auto simp: immediate_def rbind_Inr_iff immediate_body_def refusal_text_def new_verdict_def)
qed


definition demo_setting :: stream_setting where
  "demo_setting = \<lparr>ss_engine = demo_env, ss_policy = demo_policy, ss_deployed = True, ss_run_id = uni ''r1'',
     ss_now = uni ''t'', ss_latency = uni ''0.5''\<rparr>"

definition willing_os :: "nat \<Rightarrow> spool_os" where
  "willing_os n = \<lparr>os_stamp = 1, os_inode = 1, os_stat_ok = True, os_replace_ok = True, os_open_ok = True,
     os_written = Some n, os_fsync_ok = True\<rparr>"


end
