(* ===== verification/Console_Access.thy ===== *)
theory Console_Access
  imports Console_Store Deployment Stream_Inspection
begin

text \<open>
  Access to the console: the boundary, sign-in and the account of \<open>console/app.py\<close>, the sign-in
  transactions of \<open>console/sso.py\<close> and the identity of \<open>console/identity.py\<close>.

  Parameters (\<open>sign_in_env\<close>): the tables of the URL parser, \<open>str(UUID(v))\<close>, the SHA-256 digest, and what
  PyJWT and the identity provider do: whether a token decodes to claims (signature, issuer, audience,
  required claims), the token of a synthetic sign-in, and the numeric value of a JSON float.  Random values, the
  answer of the token endpoint and the readings of the clock are arguments of a call.
\<close>

subsection \<open>What a handler answers\<close>

text \<open>An \<open>HTTPException\<close> with its status, or another exception.\<close>

datatype refusal = Http nat string | Raised exn

fun refusal_status :: "refusal \<Rightarrow> nat" where
  "refusal_status (Http n d) = n"
| "refusal_status (Raised e) = (if value_error e then 400 else 500)"

type_synonym ('s, 'a) handler = "'s \<Rightarrow> (refusal + 'a) \<times> 's"

definition hret :: "'a \<Rightarrow> ('s, 'a) handler" where
  "hret x s = (Inr x, s)"

definition refuse :: "refusal \<Rightarrow> ('s, 'a) handler" where
  "refuse r s = (Inl r, s)"

definition hseq :: "('s, 'a) handler \<Rightarrow> ('a \<Rightarrow> ('s, 'b) handler) \<Rightarrow> ('s, 'b) handler" where
  "hseq m f s = (case m s of (Inl r, s') \<Rightarrow> (Inl r, s') | (Inr x, s') \<Rightarrow> f x s')"

definition raised :: "exn + 'a \<Rightarrow> refusal + 'a" where
  "raised r = (case r of Inl e \<Rightarrow> Inl (Raised e) | Inr x \<Rightarrow> Inr x)"

definition attempt :: "exn + 'a \<Rightarrow> ('s, 'a) handler" where
  "attempt r s = (raised r, s)"

definition require_that :: "bool \<Rightarrow> nat \<Rightarrow> string \<Rightarrow> ('s, unit) handler" where
  "require_that b n d = (if b then hret () else refuse (Http n d))"

subsection \<open>The identity of the console\<close>

record sign_in_env =
  sg_url :: url_env
  sg_uuid :: "pystr \<Rightarrow> pystr option"
  sg_sha :: "bytes \<Rightarrow> bytes"
  sg_decode :: "json \<Rightarrow> (pystr, json) dict option"
  sg_encode :: "(pystr, json) dict \<Rightarrow> json"
  sg_key_ok :: "json \<Rightarrow> bool"
  sg_float :: "pystr \<Rightarrow> rat"

record console_identity =
  id_synthetic :: bool
  id_tenant :: pystr
  id_client :: pystr
  id_secret :: pystr
  id_redirect :: pystr
  id_origin :: pystr

definition callback_path :: pystr where
  "callback_path = uni ''/demo-api/auth/callback''"

definition microsoft :: "console_identity \<Rightarrow> string \<Rightarrow> pystr" where
  "microsoft i tail = uni ''https://login.microsoftonline.com/'' @ id_tenant i @ uni tail"

definition new_identity ::
  "sign_in_env \<Rightarrow> bool \<Rightarrow> pystr \<Rightarrow> pystr \<Rightarrow> pystr \<Rightarrow> pystr \<Rightarrow> console_identity result" where
  "new_identity sg synthetic tenant client client_secret redirect =
     (case (sg_uuid sg tenant, sg_uuid sg client) of
        (Some t, Some c) \<Rightarrow>
          (case urlsplit (sg_url sg) redirect of
             None \<Rightarrow> Inl (Value_error ''invalid_url'')
           | Some u \<Rightarrow>
               let loopback = (url_hostname u = uni ''localhost'' \<or> url_hostname u = uni ''127.0.0.1'') in
               if url_credentials u \<or> u_query u \<noteq> [] \<or> u_fragment u \<noteq> [] \<or> u_path u \<noteq> callback_path \<or>
                  (u_scheme u \<noteq> uni ''https'' \<and> \<not> (u_scheme u = uni ''http'' \<and> loopback))
               then Inl (Value_error ''Use an HTTPS callback or explicit loopback callback.'')
               else if synthetic \<and> \<not> loopback then Inl (Value_error ''Synthetic identity requires loopback.'')
               else if \<not> synthetic \<and> client_secret = []
               then Inl (Value_error ''Entra web app client secret is required.'')
               else Inr \<lparr>id_synthetic = synthetic, id_tenant = t, id_client = c, id_secret = client_secret,
                      id_redirect = redirect, id_origin = u_scheme u @ uni ''://'' @ u_netloc u\<rparr>)
      | _ \<Rightarrow> Inl (Value_error ''badly formed hexadecimal UUID string''))"

text \<open>\<open>challenge\<close>: SHA-256 of the verifier in URL-safe base64 without padding.\<close>

definition pkce_challenge :: "sign_in_env \<Rightarrow> pystr \<Rightarrow> pystr result" where
  "pkce_challenge sg verifier = rbind (encoded verifier) (\<lambda>b. Inr (urlsafe_encode (sg_sha sg b)))"

text \<open>\<open>urllib.parse.urlencode\<close> of text.\<close>

definition url_safe :: "nat \<Rightarrow> bool" where
  "url_safe c \<longleftrightarrow> 48 \<le> c \<and> c \<le> 57 \<or> 65 \<le> c \<and> c \<le> 90 \<or> 97 \<le> c \<and> c \<le> 122 \<or> c \<in> {95, 46, 45, 126}"

definition hex_upper :: "nat \<Rightarrow> nat" where
  "hex_upper v = (if v < 10 then 48 + v else 55 + v)"

definition quote_plus :: "pystr \<Rightarrow> pystr result" where
  "quote_plus s = rbind (encoded s) (\<lambda>b. Inr (concat (map (\<lambda>w. let c = unat w in
     if url_safe c then [c] else if c = 32 then [43] else [37, hex_upper (c div 16), hex_upper (c mod 16)]) b)))"

fun urlencode_pairs :: "(pystr \<times> pystr) list \<Rightarrow> pystr list result" where
  "urlencode_pairs [] = Inr []"
| "urlencode_pairs ((k, v) # ps) =
     rbind (quote_plus k) (\<lambda>a. rbind (quote_plus v) (\<lambda>b. rbind (urlencode_pairs ps) (\<lambda>r. Inr ((a @ 61 # b) # r))))"

definition urlencode :: "(pystr \<times> pystr) list \<Rightarrow> pystr result" where
  "urlencode ps = rbind (urlencode_pairs ps) (\<lambda>r. Inr (join_with [38] r))"

definition authorize_url :: "sign_in_env \<Rightarrow> console_identity \<Rightarrow> pystr \<Rightarrow> pystr \<Rightarrow> pystr \<Rightarrow> pystr result" where
  "authorize_url sg i state verifier nonce =
     rbind (pkce_challenge sg verifier) (\<lambda>c.
     rbind (urlencode
       [(uni ''client_id'', id_client i), (uni ''response_type'', uni ''code''), (uni ''redirect_uri'', id_redirect i),
        (uni ''response_mode'', uni ''query''), (uni ''scope'', uni ''openid profile''), (uni ''state'', state),
        (uni ''nonce'', nonce), (uni ''code_challenge'', c), (uni ''code_challenge_method'', uni ''S256'')]) (\<lambda>q.
       Inr ((if id_synthetic i then id_origin i @ uni ''/demo-api/auth/synthetic/authorize''
             else microsoft i ''/oauth2/v2.0/authorize'') @ 63 # q)))"

text \<open>\<open>validate\<close>: every failure is an \<open>IdentityError\<close>.\<close>

definition identity_error :: exn where
  "identity_error = Value_error ''identity''"

definition claimed_role :: "json list \<Rightarrow> pystr option" where
  "claimed_role roles =
     (if JStr (uni ''TrapDefense.Admin'') \<in> set roles then Some (uni ''admin'')
      else if JStr (uni ''TrapDefense.Viewer'') \<in> set roles then Some (uni ''viewer'') else None)"

definition authentication_name :: "console_identity \<Rightarrow> pystr" where
  "authentication_name i = (if id_synthetic i then uni ''synthetic_entra'' else uni ''entra'')"

definition principal_from :: "console_identity \<Rightarrow> pystr \<Rightarrow> pystr \<Rightarrow> (pystr, json) dict" where
  "principal_from i oid role =
     [(uni ''username'', JStr oid), (uni ''object_id'', JStr oid), (uni ''tenant_id'', JStr (id_tenant i)),
      (uni ''client_id'', JStr (id_client i)), (uni ''role'', JStr role), (uni ''authentication'', JStr (authentication_name i))]"

definition check_claims ::
  "console_identity \<Rightarrow> pystr \<Rightarrow> (pystr, json) dict \<Rightarrow> ((pystr, json) dict \<times> json) result" where
  "check_claims i nonce claims =
     (case (map_of claims (uni ''tid''), map_of claims (uni ''nonce''), map_of claims (uni ''oid''),
            map_of claims (uni ''roles''), map_of claims (uni ''exp'')) of
        (Some tid, Some n, Some (JStr oid), Some (JArr roles), Some expires) \<Rightarrow>
          if tid \<noteq> JStr (id_tenant i) \<or> n \<noteq> JStr nonce \<or> oid = [] \<or> \<not> list_all (\<lambda>r. case r of JStr s \<Rightarrow> True | _ \<Rightarrow> False) roles
          then Inl identity_error
          else if get_or claims (uni ''azp'') (JStr (id_client i)) \<noteq> JStr (id_client i) then Inl identity_error
          else (case claimed_role roles of
                  None \<Rightarrow> Inl identity_error
                | Some role \<Rightarrow> Inr (principal_from i oid role, expires))
      | _ \<Rightarrow> Inl identity_error)"

definition validate_token ::
  "sign_in_env \<Rightarrow> console_identity \<Rightarrow> pystr \<Rightarrow> json \<Rightarrow> ((pystr, json) dict \<times> json) result" where
  "validate_token sg i nonce token =
     (case sg_decode sg token of None \<Rightarrow> Inl identity_error | Some claims \<Rightarrow> check_claims i nonce claims)"

text \<open>\<open>exchange\<close>: \<open>answer\<close> is what the token endpoint gave.\<close>

fun exchange_fails :: "exn \<Rightarrow> exn" where
  "exchange_fails Key_error = identity_error"
| "exchange_fails Os_error = identity_error"
| "exchange_fails Timeout_error = identity_error"
| "exchange_fails e = (if value_error e then identity_error else e)"

definition exchange_code ::
  "sign_in_env \<Rightarrow> console_identity \<Rightarrow> pystr \<Rightarrow> json result \<Rightarrow> ((pystr, json) dict \<times> json) result" where
  "exchange_code sg i nonce answer =
     (case rbind answer (\<lambda>v. rbind (dict_item v ''id_token'') (\<lambda>token.
        if sg_key_ok sg token then validate_token sg i nonce token else Inl identity_error)) of
        Inl e \<Rightarrow> Inl (exchange_fails e) | Inr p \<Rightarrow> Inr p)"

subsection \<open>The state of the application\<close>

record sso_transaction =
  tx_verifier :: pystr
  tx_nonce :: pystr
  tx_binding :: pystr
  tx_expires :: rat

record synthetic_code =
  sc_role :: pystr
  sc_nonce :: pystr
  sc_challenge :: pystr
  sc_expires :: rat

record access =
  ax_store :: console
  ax_pending :: "(pystr, sso_transaction) dict"
  ax_codes :: "(pystr, synthetic_code) dict"

text \<open>What \<open>create_app\<close> is given, and one request.\<close>

record access_env =
  ae_sign_in :: sign_in_env
  ae_store :: console_env
  ae_identity :: "console_identity option"
  ae_local_login :: bool
  ae_console_origin :: "pystr option"

datatype console_payload = No_payload | Login_payload pystr pystr | Password_payload pystr pystr

record console_call =
  cc_method :: pystr
  cc_path :: pystr
  cc_origin :: "pystr option"
  cc_demo :: "pystr option"
  cc_content_type :: "pystr option"
  cc_chunks :: "bytes list"
  cc_session :: "pystr option"   \<comment> \<open>cookie td_demo_session\<close>
  cc_flow :: "pystr option"      \<comment> \<open>cookie td_console_oidc\<close>
  cc_query :: "(pystr, pystr) dict"
  cc_clock :: "nat \<Rightarrow> rat"
  cc_random :: "nat \<Rightarrow> pystr"
  cc_token_answer :: "json result"
  cc_payload :: console_payload
  cc_operation :: "nat option"   \<comment> \<open>the status another operation answers with, if there is one\<close>

text \<open>A transaction of the store inside a handler.\<close>

definition with_store :: "'a console_act \<Rightarrow> (access, 'a) handler" where
  "with_store m a = (case m (ax_store a) of (r, c) \<Rightarrow> (raised r, a\<lparr>ax_store := c\<rparr>))"

definition write_audit :: "access_env \<Rightarrow> console_call \<Rightarrow> string \<Rightarrow> pystr \<Rightarrow> pystr \<Rightarrow> (access, unit) handler" where
  "write_audit env c event detail actor = with_store (console_audit (ae_store env) (cc_clock c 9) (uni event) detail actor)"

subsection \<open>Signing in with an identity provider\<close>

definition purge_pending :: "rat \<Rightarrow> (pystr, sso_transaction) dict \<Rightarrow> (pystr, sso_transaction) dict" where
  "purge_pending now ps = filter (\<lambda>(_, t). \<not> tx_expires t < now) ps"

text \<open>\<open>POST /demo-api/auth/start\<close>: the address to go to and the cookie that binds the browser.\<close>

definition sso_start :: "access_env \<Rightarrow> console_identity \<Rightarrow> console_call \<Rightarrow> (access, pystr \<times> pystr) handler" where
  "sso_start env i c =
     hseq (require_that (cc_origin c = Some (id_origin i)) 400 ''Open the configured console origin before signing in.'') (\<lambda>_.
     hseq (attempt (authorize_url (ae_sign_in env) i (cc_random c 0) (cc_random c 1) (cc_random c 2))) (\<lambda>url a.
       let kept = purge_pending (cc_clock c 0) (ax_pending a) in
       if 1000 \<le> length kept then (Inl (Http 429 ''Too many pending sign-ins.''), a\<lparr>ax_pending := kept\<rparr>)
       else (Inr (url, cc_random c 3),
         a\<lparr>ax_pending := dset (cc_random c 0) \<lparr>tx_verifier = cc_random c 1, tx_nonce = cc_random c 2,
             tx_binding = cc_random c 3, tx_expires = cc_clock c 0 + 300\<rparr> kept\<rparr>)))"

text \<open>\<open>secrets.compare_digest\<close> of texts: both must be ASCII.\<close>

definition same_digest :: "pystr \<Rightarrow> pystr \<Rightarrow> bool result" where
  "same_digest x y = (if is_ascii x \<and> is_ascii y then Inr (x = y) else Inl Type_error)"

definition cookie_value :: "pystr option \<Rightarrow> pystr" where
  "cookie_value v = (case v of None \<Rightarrow> [] | Some s \<Rightarrow> s)"

text \<open>A transaction that this browser may use, and its removal.\<close>

definition take_transaction :: "console_call \<Rightarrow> (access, sso_transaction) handler" where
  "take_transaction c a =
     (let state = get_or (cc_query c) (uni ''state'') [] in
      case map_of (ax_pending a) state of
        None \<Rightarrow> (Inl (Http 400 ''Sign-in expired or browser binding failed.''), a)
      | Some t \<Rightarrow>
          if tx_expires t < cc_clock c 0 then (Inl (Http 400 ''Sign-in expired or browser binding failed.''), a)
          else (case same_digest (tx_binding t) (cookie_value (cc_flow c)) of
                  Inl e \<Rightarrow> (Inl (Raised e), a)
                | Inr False \<Rightarrow> (Inl (Http 400 ''Sign-in expired or browser binding failed.''), a)
                | Inr True \<Rightarrow> (Inr t, a\<lparr>ax_pending := filter (\<lambda>(k, _). k \<noteq> state) (ax_pending a)\<rparr>)))"

text \<open>The claims of a synthetic token.\<close>

definition title_role :: "pystr \<Rightarrow> pystr" where
  "title_role role = (if role = uni ''admin'' then uni ''Admin'' else uni ''Viewer'')"

definition synthetic_claims :: "console_identity \<Rightarrow> synthetic_code \<Rightarrow> int \<Rightarrow> (pystr, json) dict" where
  "synthetic_claims i code now =
     [(uni ''iss'', JStr (microsoft i ''/v2.0'')), (uni ''aud'', JStr (id_client i)),
      (uni ''sub'', JStr (uni ''synthetic-'' @ sc_role code)), (uni ''oid'', JStr (uni ''synthetic-'' @ sc_role code)),
      (uni ''tid'', JStr (id_tenant i)), (uni ''nonce'', JStr (sc_nonce code)), (uni ''iat'', JInt now),
      (uni ''exp'', JInt (now + 3600)), (uni ''roles'', JArr [JStr (uni ''TrapDefense.'' @ title_role (sc_role code))])]"

definition synthetic_identity ::
  "access_env \<Rightarrow> console_identity \<Rightarrow> console_call \<Rightarrow> sso_transaction \<Rightarrow> pystr \<Rightarrow> (access, (pystr, json) dict \<times> json) handler" where
  "synthetic_identity env i c t code a =
     (let a' = a\<lparr>ax_codes := filter (\<lambda>(k, _). k \<noteq> code) (ax_codes a)\<rparr> in
      case map_of (ax_codes a) code of
        None \<Rightarrow> (Inl (Raised identity_error), a')
      | Some s \<Rightarrow>
          if sc_expires s < cc_clock c 1 then (Inl (Raised identity_error), a')
          else (raised (rbind (pkce_challenge (ae_sign_in env) (tx_verifier t)) (\<lambda>h.
              if sc_challenge s \<noteq> h then Inl identity_error
              else validate_token (ae_sign_in env) i (tx_nonce t)
                (sg_encode (ae_sign_in env) (synthetic_claims i s \<lfloor>cc_clock c 2\<rfloor>)))), a'))"

definition identify ::
  "access_env \<Rightarrow> console_identity \<Rightarrow> console_call \<Rightarrow> sso_transaction \<Rightarrow> (access, (pystr, json) dict \<times> json) handler" where
  "identify env i c t =
     (let code = get_or (cc_query c) (uni ''code'') [] in
      if code = [] \<or> 8192 < length code then refuse (Raised identity_error)
      else if id_synthetic i then synthetic_identity env i c t code
      else attempt (exchange_code (ae_sign_in env) i (tx_nonce t) (cc_token_answer c)))"

text \<open>\<open>max(1, min(3600, int(expires - now)))\<close>: what is left of the token's life.\<close>

definition time_value :: "sign_in_env \<Rightarrow> json \<Rightarrow> rat result" where
  "time_value sg v = (case v of JInt n \<Rightarrow> Inr (of_int n) | JBool b \<Rightarrow> Inr (if b then 1 else 0)
     | JFloat r \<Rightarrow> Inr (sg_float sg r) | _ \<Rightarrow> Inl Type_error)"

definition session_life :: "sign_in_env \<Rightarrow> json \<Rightarrow> rat \<Rightarrow> int result" where
  "session_life sg expires now = rbind (time_value sg expires) (\<lambda>e. Inr (max 1 (min 3600 \<lfloor>e - now\<rfloor>)))"

text \<open>What a call did for the browser.\<close>

datatype call_outcome =
    Go_to pystr pystr          \<comment> \<open>address, binding cookie\<close>
  | Sign_in_failed
  | Signed_in pystr int        \<comment> \<open>session cookie, session_life\<close>
  | Choose_role
  | Code_issued pystr pystr
  | Signed_out
  | Password_changed
  | Admitted json

text \<open>\<open>GET /demo-api/auth/callback\<close>.  An \<open>IdentityError\<close> is caught, with its audit line.\<close>

definition text_of :: "json option \<Rightarrow> pystr" where
  "text_of v = (case v of Some (JStr s) \<Rightarrow> s | _ \<Rightarrow> [])"

definition start_session ::
  "access_env \<Rightarrow> console_call \<Rightarrow> (pystr, json) dict \<Rightarrow> json \<Rightarrow> (access, call_outcome) handler" where
  "start_session env c who expires =
     hseq (with_store (logout (ae_store env) (cc_session c))) (\<lambda>_.
     hseq (attempt (session_life (ae_sign_in env) expires (cc_clock c 3))) (\<lambda>ttl.
     hseq (with_store (create_session (ae_store env) (cc_random c 0) (cc_clock c 4) (cc_clock c 5) (Some (JObj who)) (of_int ttl))) (\<lambda>token.
     hseq (write_audit env c ''account.sso_login''
         (text_of (map_of who (uni ''authentication'')) @ uni '' / '' @ text_of (map_of who (uni ''role'')))
         (text_of (map_of who (uni ''tenant_id'')) @ uni ''/'' @ text_of (map_of who (uni ''object_id'')))) (\<lambda>_.
       hret (Signed_in token ttl)))))"

definition sso_callback :: "access_env \<Rightarrow> console_identity \<Rightarrow> console_call \<Rightarrow> (access, call_outcome) handler" where
  "sso_callback env i c =
     hseq (take_transaction c) (\<lambda>t a.
       case identify env i c t a of
         (Inl r, a') \<Rightarrow>
           if r = Raised identity_error
           then hseq (write_audit env c ''account.sso_failed'' (uni ''Identity validation or role assignment failed'')
                  (uni ''anonymous'')) (\<lambda>_. hret Sign_in_failed) a'
           else (Inl r, a')
       | (Inr (who, expires), a') \<Rightarrow> start_session env c who expires a')"

text \<open>The synthetic issuer.\<close>

definition sso_authorize :: "access_env \<Rightarrow> console_identity \<Rightarrow> console_call \<Rightarrow> (access, call_outcome) handler" where
  "sso_authorize env i c =
     (let q = map_of (cc_query c) in
      hseq (require_that (q (uni ''client_id'') = Some (id_client i) \<and> q (uni ''redirect_uri'') = Some (id_redirect i) \<and>
          q (uni ''code_challenge_method'') = Some (uni ''S256'') \<and> q (uni ''response_type'') = Some (uni ''code''))
        400 ''Invalid synthetic client.'') (\<lambda>_ a.
      case (case q (uni ''state'') of None \<Rightarrow> None | Some s \<Rightarrow> map_of (ax_pending a) s) of
        None \<Rightarrow> (Inl (Http 400 ''Invalid synthetic transaction.''), a)
      | Some t \<Rightarrow>
          if tx_expires t < cc_clock c 0 \<or> q (uni ''nonce'') \<noteq> Some (tx_nonce t)
          then (Inl (Http 400 ''Invalid synthetic transaction.''), a)
          else
            hseq (attempt (pkce_challenge (ae_sign_in env) (tx_verifier t))) (\<lambda>h.
            hseq (require_that (q (uni ''code_challenge'') = Some h) 400 ''Invalid synthetic transaction.'') (\<lambda>_.
            hseq (attempt (same_digest (tx_binding t) (cookie_value (cc_flow c)))) (\<lambda>same.
            hseq (require_that same 400 ''Invalid synthetic transaction.'') (\<lambda>_ b.
              case q (uni ''demo_role'') of
                None \<Rightarrow> (Inr Choose_role, b)
              | Some role \<Rightarrow>
                  if role \<noteq> uni ''admin'' \<and> role \<noteq> uni ''viewer'' then (Inr Choose_role, b)
                  else
                    let kept = filter (\<lambda>(_, s). \<not> sc_expires s < cc_clock c 1) (ax_codes b) in
                    if 1000 \<le> length kept then (Inl (Http 429 ''Too many synthetic codes.''), b\<lparr>ax_codes := kept\<rparr>)
                    else (Inr (Code_issued (cc_random c 0) (the (q (uni ''state'')))),
                      b\<lparr>ax_codes := dset (cc_random c 0) \<lparr>sc_role = role, sc_nonce = tx_nonce t, sc_challenge = h,
                          sc_expires = cc_clock c 2 + 60\<rparr> kept\<rparr>))))) a))"

subsection \<open>The boundary\<close>

definition console_origins :: "pystr list" where
  "console_origins = [uni ''http://127.0.0.1:5176'', uni ''http://localhost:5176'']"

definition allowed_origins :: "access_env \<Rightarrow> pystr list" where
  "allowed_origins env =
     (case ae_console_origin env of Some v \<Rightarrow> if v \<noteq> [] then [v] else console_origins | None \<Rightarrow> console_origins) @
     (case ae_identity env of None \<Rightarrow> [] | Some i \<Rightarrow> [id_origin i])"

definition reading :: "console_call \<Rightarrow> bool" where
  "reading c \<longleftrightarrow> cc_method c \<in> {uni ''GET'', uni ''HEAD'', uni ''OPTIONS''}"

text \<open>The chunks of the body are read until they are too many.\<close>

fun read_chunks :: "nat \<Rightarrow> bytes list \<Rightarrow> bytes option" where
  "read_chunks n [] = Some []"
| "read_chunks n (b # bs) =
     (if 16384 < n + length b then None else map_option ((@) b) (read_chunks (n + length b) bs))"

definition boundary :: "access_env \<Rightarrow> console_call \<Rightarrow> refusal + bytes" where
  "boundary env c =
     (if reading c then Inr []
      else if \<not> (case cc_origin c of None \<Rightarrow> False | Some v \<Rightarrow> v \<in> set (allowed_origins env)) \<or> cc_demo c \<noteq> Some (uni ''1'')
      then Inl (Http 403 ''Cross-origin or missing CSRF request rejected'')
      else if before_sep 59 (cookie_value (cc_content_type c)) \<noteq> uni ''application/json'' then Inl (Http 415 ''JSON required'')
      else (case read_chunks 0 (cc_chunks c) of
              None \<Rightarrow> Inl (Http 413 ''Request too large'') | Some b \<Rightarrow> Inr b))"

subsection \<open>Who is signed in\<close>

definition logout_path :: pystr where
  "logout_path = uni ''/demo-api/logout''"

text \<open>The identity a session was opened with must be the one the console has now.\<close>

definition same_identity :: "access_env \<Rightarrow> json \<Rightarrow> json \<Rightarrow> bool" where
  "same_identity env auth who =
     (case ae_identity env of
        None \<Rightarrow> False
      | Some i \<Rightarrow> auth = JStr (authentication_name i) \<and> dict_item who ''tenant_id'' = Inr (JStr (id_tenant i)) \<and>
          dict_item who ''client_id'' = Inr (JStr (id_client i)))"

definition signed_in :: "access_env \<Rightarrow> console_call \<Rightarrow> (access, json) handler" where
  "signed_in env c =
     hseq (with_store (principal_of (ae_store env) (cc_clock c 0) (cc_session c))) (\<lambda>p.
       if p = None \<or> falsy (the p) then refuse (Http 401 ''Sign in to continue.'')
       else
         hseq (attempt (dict_item (the p) ''authentication'')) (\<lambda>auth.
           if auth = JStr (uni ''local'')
           then if ae_local_login env then hret (the p) else refuse (Http 401 ''Local login is disabled.'')
           else if same_identity env auth (the p) then hret (the p)
           else refuse (Http 401 ''Identity configuration changed. Sign in again.'')))"

definition may_write :: "console_call \<Rightarrow> json \<Rightarrow> (access, unit) handler" where
  "may_write c who =
     (if reading c \<or> cc_path c = logout_path then hret ()
      else hseq (attempt (dict_item who ''role'')) (\<lambda>role.
        require_that (role = JStr (uni ''admin'')) 403 ''Viewer access is read-only.''))"

text \<open>\<open>tenant/username\<close>.\<close>

definition text_result :: "json \<Rightarrow> pystr result" where
  "text_result v = (case v of JStr s \<Rightarrow> Inr s | _ \<Rightarrow> Inl Type_error)"

definition actor_text :: "json \<Rightarrow> pystr result" where
  "actor_text who =
     rbind (case dict_item who ''tenant_id'' of Inr v \<Rightarrow> Inr v | Inl Key_error \<Rightarrow> Inr (JStr (uni ''local'')) | Inl e \<Rightarrow> Inl e) (\<lambda>v.
     rbind (text_result v) (\<lambda>tenant.
     rbind (dict_item who ''username'') (\<lambda>u.
     rbind (text_result u) (\<lambda>user. Inr (tenant @ 47 # user)))))"

subsection \<open>The local account\<close>

definition local_admin :: pystr where
  "local_admin = uni ''local-admin''"

definition login_payload :: "console_call \<Rightarrow> (access, pystr \<times> pystr) handler" where
  "login_payload c =
     (case cc_payload c of
        Login_payload u p \<Rightarrow>
          if 1 \<le> length u \<and> length u \<le> 80 \<and> 1 \<le> length p \<and> length p \<le> 128 then hret (u, p)
          else refuse (Http 422 ''Check the format and length of the input.'')
      | _ \<Rightarrow> refuse (Http 422 ''Check the format and length of the input.''))"

definition open_local_session :: "access_env \<Rightarrow> console_call \<Rightarrow> (access, call_outcome) handler" where
  "open_local_session env c =
     (let st = ae_store env in
      hseq (with_store (logout st (cc_session c))) (\<lambda>_.
      hseq (with_store (create_session st (cc_random c 0) (cc_clock c 2) (cc_clock c 3) None session_ttl)) (\<lambda>token.
      hseq (write_audit env c ''account.login'' (uni ''Local console session started'') (uni ''local/admin'')) (\<lambda>_.
      hseq (with_store (changed st)) (\<lambda>_. hret (Signed_in token (8 * 3600)))))))"

definition judge_login :: "access_env \<Rightarrow> console_call \<Rightarrow> bool \<Rightarrow> (access, call_outcome) handler" where
  "judge_login env c valid =
     hseq (with_store (login_attempt (ae_store env) (cc_clock c 1) local_admin (Some valid))) (\<lambda>_.
       if valid then open_local_session env c
       else hseq (write_audit env c ''account.login_failed'' (uni ''Invalid local credential'') (uni ''anonymous'')) (\<lambda>_.
              refuse (Http 401 ''Incorrect username or password.'')))"

definition login :: "access_env \<Rightarrow> console_call \<Rightarrow> (access, call_outcome) handler" where
  "login env c =
     hseq (login_payload c) (\<lambda>(user, pw).
     hseq (require_that (ae_local_login env) 403 ''Local login is disabled.'') (\<lambda>_.
     hseq (with_store (login_attempt (ae_store env) (cc_clock c 0) local_admin None)) (\<lambda>locked.
     hseq (require_that (\<not> locked) 429 ''Too many login attempts. Try again in 60 seconds.'') (\<lambda>_.
     hseq (with_store (check_password (ae_store env) pw)) (\<lambda>right.
       judge_login env c (right \<and> user = uni ''admin''))))))"

definition sign_out :: "access_env \<Rightarrow> console_call \<Rightarrow> json \<Rightarrow> (access, call_outcome) handler" where
  "sign_out env c who =
     hseq (with_store (logout (ae_store env) (cc_session c))) (\<lambda>_.
     hseq (attempt (actor_text who)) (\<lambda>actor.
     hseq (write_audit env c ''account.logout'' (uni ''Console session ended'') actor) (\<lambda>_. hret Signed_out)))"

definition password :: "access_env \<Rightarrow> console_call \<Rightarrow> json \<Rightarrow> (access, call_outcome) handler" where
  "password env c who =
     (case cc_payload c of
        Password_payload current new \<Rightarrow>
          if \<not> (1 \<le> length current \<and> length current \<le> 128 \<and> 8 \<le> length new \<and> length new \<le> 128)
          then refuse (Http 422 ''Check the format and length of the input.'')
          else
            hseq (attempt (dict_item who ''authentication'')) (\<lambda>auth.
            hseq (require_that (auth = JStr (uni ''local'')) 403 ''Manage your password in Entra.'') (\<lambda>_.
            hseq (require_that (current \<noteq> new) 400 ''The new password must differ from the current password.'') (\<lambda>_.
            hseq (with_store (change_password (ae_store env) (ae_store env) (cc_clock c 1) (cc_random c 0) current new)) (\<lambda>done.
            hseq (require_that done 400 ''The current password is incorrect.'') (\<lambda>_. hret Password_changed)))))
      | _ \<Rightarrow> refuse (Http 422 ''Check the format and length of the input.''))"

subsection \<open>A request\<close>

definition with_identity ::
  "access_env \<Rightarrow> (console_identity \<Rightarrow> (access, call_outcome) handler) \<Rightarrow> (access, call_outcome) handler" where
  "with_identity env f = (case ae_identity env of None \<Rightarrow> refuse (Http 404 ''Not Found'') | Some i \<Rightarrow> f i)"

text \<open>The operations that need no session.\<close>

definition public_operation :: "access_env \<Rightarrow> console_call \<Rightarrow> (access, call_outcome) handler option" where
  "public_operation env c =
     (let route = (\<lambda>m p. cc_method c = uni m \<and> cc_path c = uni p) in
      if route ''POST'' ''/demo-api/auth/start''
      then Some (with_identity env (\<lambda>i. hseq (sso_start env i c) (\<lambda>(url, binding). hret (Go_to url binding))))
      else if cc_method c = uni ''GET'' \<and> cc_path c = callback_path then Some (with_identity env (\<lambda>i. sso_callback env i c))
      else if route ''GET'' ''/demo-api/auth/synthetic/authorize''
      then Some (with_identity env (\<lambda>i. if id_synthetic i then sso_authorize env i c else refuse (Http 404 ''Not Found'')))
      else if route ''POST'' ''/demo-api/login'' then Some (login env c)
      else None)"

definition guarded_operation :: "access_env \<Rightarrow> console_call \<Rightarrow> json \<Rightarrow> (access, call_outcome) handler" where
  "guarded_operation env c who =
     (if cc_method c = uni ''POST'' \<and> cc_path c = logout_path then sign_out env c who
      else if cc_method c = uni ''POST'' \<and> cc_path c = uni ''/demo-api/password'' then password env c who
      else hret (Admitted who))"

definition answer_status :: "console_call \<Rightarrow> refusal + call_outcome \<Rightarrow> nat" where
  "answer_status c r =
     (case r of
        Inl x \<Rightarrow> refusal_status x
      | Inr (Admitted who) \<Rightarrow> (case cc_operation c of None \<Rightarrow> 404 | Some n \<Rightarrow> n)
      | Inr (Go_to u b) \<Rightarrow> 200 | Inr Sign_in_failed \<Rightarrow> 303 | Inr (Code_issued k s) \<Rightarrow> 303
      | Inr (Signed_in t n) \<Rightarrow> (if cc_path c = callback_path then 303 else 200)
      | Inr _ \<Rightarrow> 200)"

text \<open>An exception other than \<open>ValueError\<close> leaves the middleware, so that nothing more is written.\<close>

definition escapes :: "refusal + call_outcome \<Rightarrow> bool" where
  "escapes r = (case r of Inl (Raised e) \<Rightarrow> \<not> value_error e | _ \<Rightarrow> False)"

text \<open>\<open>console.write\<close>: one line for every POST of somebody who is signed in, whatever it was answered.\<close>

definition audit_write ::
  "access_env \<Rightarrow> console_call \<Rightarrow> json \<Rightarrow> refusal + call_outcome \<Rightarrow> (access, call_outcome) handler" where
  "audit_write env c who r a =
     (if cc_method c = uni ''POST'' \<and> cc_path c \<noteq> logout_path \<and> \<not> escapes r
      then hseq (attempt (actor_text who)) (\<lambda>actor.
           hseq (write_audit env c ''console.write'' (cc_path c @ uni '' / '' @ dec_nat (answer_status c r)) actor) (\<lambda>_ b. (r, b))) a
      else (r, a))"

definition serve_call :: "access_env \<Rightarrow> console_call \<Rightarrow> (access, call_outcome) handler" where
  "serve_call env c a =
     (case boundary env c of
        Inl r \<Rightarrow> (Inl r, a)
      | Inr body \<Rightarrow>
          (case public_operation env c of
             Some f \<Rightarrow> f a
           | None \<Rightarrow>
               if cc_operation c = None then (Inl (Http 404 ''Not Found''), a)
               else (case signed_in env c a of
                   (Inl r, b) \<Rightarrow> (Inl r, b)
                 | (Inr who, b) \<Rightarrow>
                     (case hseq (may_write c who) (\<lambda>_. guarded_operation env c who) b of
                        (r, b') \<Rightarrow> audit_write env c who r b'))))"

end
