(* ===== verification/Console_Access_Facts.thy ===== *)
theory Console_Access_Facts
  imports Console_Access
begin

text \<open>
  Facts on the handlers of the console: what a handler leaves alone is a relation between the states
  before and after (\<open>handler_frame\<close>), shown operation by operation; where sessions and sign-in
  transactions come from.
\<close>

subsection \<open>Handlers\<close>

named_theorems handler_simps

lemma hret_app [handler_simps]: "hret x a = (Inr x, a)"
  by (simp add: hret_def)

lemma refuse_app [handler_simps]: "refuse r a = (Inl r, a)"
  by (simp add: refuse_def)

lemma attempt_app [handler_simps]: "attempt r a = (raised r, a)"
  by (simp add: attempt_def)

lemma raised_simps [simp]: "raised (Inl e) = Inl (Raised e)" "raised (Inr x) = Inr x"
  by (simp_all add: raised_def)

lemma raised_Inr [simp]: "raised r = Inr x \<longleftrightarrow> r = Inr x"
  by (cases r) simp_all

lemma raised_Inl: "raised r = Inl z \<longleftrightarrow> (\<exists>e. r = Inl e \<and> z = Raised e)"
  by (cases r) auto

lemma require_app [handler_simps]: "require_that b n d a = (if b then (Inr (), a) else (Inl (Http n d), a))"
  by (simp add: require_that_def handler_simps)

lemma hseq_app: "hseq m f a = (case m a of (Inl r, b) \<Rightarrow> (Inl r, b) | (Inr x, b) \<Rightarrow> f x b)"
  by (simp add: hseq_def)

lemma hseq_cases:
  assumes "hseq m f a = (r, a')"
  obtains (failed) e where "m a = (Inl e, a')" "r = Inl e" | (went) x b where "m a = (Inr x, b)" "f x b = (r, a')"
proof (cases "m a")
  case (Pair q b)
  then show ?thesis using assms failed went by (cases q) (auto simp: hseq_app)
qed

lemma hseq_Inr: "hseq m f a = (Inr y, a') \<longleftrightarrow> (\<exists>x b. m a = (Inr x, b) \<and> f x b = (Inr y, a'))"
  by (auto simp: hseq_app split: prod.splits sum.splits)

lemma hseq_require: "hseq (require_that b n d) f a = (if b then f () a else (Inl (Http n d), a))"
  by (simp add: hseq_app handler_simps)

lemma hseq_attempt: "hseq (attempt v) f a = (case v of Inl e \<Rightarrow> (Inl (Raised e), a) | Inr x \<Rightarrow> f x a)"
  by (cases v) (simp_all add: hseq_app handler_simps)

lemma with_store_Inr: "with_store m a = (Inr x, b) \<longleftrightarrow> (\<exists>s. m (ax_store a) = (Inr x, s) \<and> b = a\<lparr>ax_store := s\<rparr>)"
  by (auto simp: with_store_def split: prod.splits)

subsection \<open>What a handler leaves alone\<close>

definition keeps :: "('s \<Rightarrow> 's \<Rightarrow> bool) \<Rightarrow> ('s, 'a) handler \<Rightarrow> bool" where
  "keeps R m \<longleftrightarrow> (\<forall>a. R a (snd (m a)))"

lemma handlerD: "keeps R m \<Longrightarrow> m a = (r, a') \<Longrightarrow> R a a'"
  unfolding keeps_def by (metis snd_conv)

locale handler_frame =
  fixes R :: "'s \<Rightarrow> 's \<Rightarrow> bool"
  assumes same: "R a a" and chain: "R a b \<Longrightarrow> R b c \<Longrightarrow> R a c"
begin

lemma keeps_hret: "keeps R (hret x)"
  by (simp add: keeps_def handler_simps same)

lemma keeps_refuse: "keeps R (refuse r)"
  by (simp add: keeps_def handler_simps same)

lemma keeps_attempt: "keeps R (attempt v)"
  by (simp add: keeps_def handler_simps same)

lemma keeps_require: "keeps R (require_that b n d)"
  by (simp add: keeps_def handler_simps same)

lemma keeps_hseq: "keeps R m \<Longrightarrow> (\<And>x. keeps R (f x)) \<Longrightarrow> keeps R (hseq m f)"
  unfolding keeps_def
proof
  fix a
  assume m: "\<forall>a. R a (snd (m a))" and f: "\<And>x. \<forall>a. R a (snd (f x a))"
  obtain q b where q: "m a = (q, b)" by fastforce
  have ab: "R a b" using m q by (metis snd_conv)
  show "R a (snd (hseq m f a))"
  proof (cases q)
    case (Inr x)
    then show ?thesis using q chain [OF ab] f [of x] by (simp add: hseq_app)
  qed (use q ab in \<open>simp add: hseq_app\<close>)
qed

lemma kept_if: "(b \<Longrightarrow> keeps R m) \<Longrightarrow> (\<not> b \<Longrightarrow> keeps R n) \<Longrightarrow> keeps R (if b then m else n)"
  by simp

lemmas keeps_intros = keeps_hret keeps_refuse keeps_attempt keeps_require keeps_hseq kept_if

end

definition fewer_sessions :: "access \<Rightarrow> access \<Rightarrow> bool" where
  "fewer_sessions a b \<longleftrightarrow> set (co_sessions (ax_store b)) \<subseteq> set (co_sessions (ax_store a))"

definition same_pending :: "access \<Rightarrow> access \<Rightarrow> bool" where
  "same_pending a b \<longleftrightarrow> ax_pending b = ax_pending a"

interpretation sessions: handler_frame fewer_sessions
  by unfold_locales (auto simp: fewer_sessions_def)

interpretation pending: handler_frame same_pending
  by unfold_locales (auto simp: same_pending_def)

lemma with_store_pending: "keeps same_pending (with_store m)"
  by (auto simp: keeps_def with_store_def same_pending_def split: prod.splits)

lemma write_audit_pending: "keeps same_pending (write_audit env c ev detail actor)"
  unfolding write_audit_def by (rule with_store_pending)

subsection \<open>Transactions of the store\<close>

definition row_frame :: "'a console_act \<Rightarrow> bool" where
  "row_frame m \<longleftrightarrow> (\<forall>s. set (co_sessions (snd (m s))) \<subseteq> set (co_sessions s))"

lemma with_store_sessions: "row_frame m \<Longrightarrow> keeps fewer_sessions (with_store m)"
  by (simp add: keeps_def row_frame_def with_store_def fewer_sessions_def split_def)

lemma row_frame_connect: "row_frame m \<Longrightarrow> row_frame (connect env m)"
  by (auto simp: row_frame_def connect_def split: prod.splits sum.splits) (metis snd_conv subsetD)

lemma row_frame_seq: "row_frame m \<Longrightarrow> (\<And>x. row_frame (f x)) \<Longrightarrow> row_frame (seq m f)"
  by (auto simp: row_frame_def seq_def split: prod.splits sum.splits) (metis snd_conv subsetD)+

lemma row_frame_acts:
  "row_frame (ret x)" "row_frame (raise e)" "row_frame (gets h)" "row_frame (lift_result v)"
  "(\<And>s. set (co_sessions (g s)) \<subseteq> set (co_sessions s)) \<Longrightarrow> row_frame (modify g)"
  by (simp_all add: row_frame_def ret_def raise_def gets_def lift_result_def modify_def)

lemma row_frames:
  "row_frame (check_password env pw)" "row_frame (changed env)" "row_frame (principal_of env now token)"
  "row_frame (logout env token)" "row_frame (console_audit env ts event detail actor)"
  "row_frame (login_attempt env now ident success)"
  "row_frame (change_password env env' ts salt current new)"
  unfolding check_password_def changed_def principal_of_def logout_def console_audit_def login_attempt_def
    change_password_def Let_def
  by (auto intro!: row_frame_connect row_frame_seq row_frame_acts split: option.splits bool.splits)

text \<open>What only reads.\<close>

lemma check_password_reads: "check_password env pw s = (r, s') \<Longrightarrow> s' = s"
  by (auto simp: check_password_def connect_def act_simps gets_def ret_def lift_result_def split: prod.splits sum.splits if_splits)

lemma check_password_true:
  "check_password env pw s = (Inr True, s') \<Longrightarrow>
     password_hash env pw (ac_salt (co_account s)) = Inr (ac_password_hash (co_account s))"
  by (auto simp: check_password_def connect_def act_simps gets_def ret_def lift_result_def split: prod.splits sum.splits if_splits)

lemma login_attempt_asks:
  "login_attempt env now ident None s = (Inr b, s') \<Longrightarrow> s' = s \<and>
     b = (case map_of (co_attempts s) ident of None \<Rightarrow> False | Some r \<Rightarrow> 5 \<le> at_failures r \<and> now < at_until r)"
  by (auto simp: login_attempt_def connect_def act_simps gets_def ret_def split: prod.splits sum.splits if_splits option.splits)

lemma principal_of_reads: "principal_of env now token s = (r, s') \<Longrightarrow> s' = s"
  by (auto simp: principal_of_def connect_def act_simps gets_def ret_def lift_result_def split: prod.splits sum.splits if_splits)

lemma principal_of_live:
  "principal_of env now token s = (Inr (Some p), s') \<Longrightarrow>
     \<exists>tk d row. token = Some tk \<and> session_digest env tk = Inr d \<and> map_of (co_sessions s) d = Some row \<and>
       now < se_expires row \<and> se_principal row = Some p"
  by (auto simp: principal_of_def connect_def act_simps gets_def ret_def lift_result_def
      split: prod.splits sum.splits if_splits option.splits)

definition new_row :: "rat \<Rightarrow> json option \<Rightarrow> rat \<Rightarrow> session_row" where
  "new_row t who ttl = \<lparr>se_expires = t + min ttl session_ttl,
     se_principal = Some (if who = None \<or> who = Some (JObj []) then local_principal else the who)\<rparr>"

lemma create_session_rows:
  assumes "create_session env token t1 t2 who ttl s = (Inr tk, s')"
  shows "tk = token \<and> cn_db_ok env \<and> (\<exists>d. session_digest env token = Inr d \<and>
     set (co_sessions s') \<subseteq> insert (d, new_row t2 who ttl) (set (co_sessions s)))"
  using assms
  by (auto simp: create_session_def new_row_def connect_def act_simps gets_def ret_def raise_def modify_def lift_result_def
      split: prod.splits sum.splits if_splits)

lemma create_session_fails: "create_session env token t1 t2 who ttl s = (Inl e, s') \<Longrightarrow> s' = s"
  by (auto simp: create_session_def connect_def split: prod.splits sum.splits if_splits)

lemma audit_goes: "cn_db_ok env \<Longrightarrow> \<exists>s'. console_audit env ts event detail actor s = (Inr (), s') \<and> co_sessions s' = co_sessions s"
  by (simp add: console_audit_def connect_def modify_def)

lemma changed_goes: "cn_db_ok env \<Longrightarrow> \<exists>b. changed env s = (Inr b, s)"
  by (simp add: changed_def connect_def gets_def)

end
