(* ===== verification/Console_Access_Properties.thy ===== *)
theory Console_Access_Properties
  imports Console_Access_Facts Policy_Properties
begin

text \<open>
  Where a session comes from, what a write needs, and how often a sign-in transaction can be used,
  over any run of requests.
\<close>

subsection \<open>New sessions\<close>

abbreviation rows :: "access \<Rightarrow> (pystr \<times> session_row) set" where
  "rows a \<equiv> set (co_sessions (ax_store a))"

definition signed :: "access_env \<Rightarrow> refusal + call_outcome \<Rightarrow> pystr \<Rightarrow> bool" where
  "signed env r d \<longleftrightarrow> (\<exists>token ttl. r = Inr (Signed_in token ttl) \<and> session_digest (ae_store env) token = Inr d)"

text \<open>The end of both ways to sign in: a row, an audit line, a reading of the account.\<close>

lemma open_session:
  assumes "hseq (with_store (create_session (ae_store env) (cc_random c 0) t1 t2 who ttl)) (\<lambda>token.
      hseq (write_audit env c ev detail actor) (f token)) a = (r, a')"
    and f: "\<And>token b (s :: nat). cn_db_ok (ae_store env) \<Longrightarrow> \<exists>n. f token () b = (Inr (Signed_in token n), b)"
    and row: "(d, row) \<in> rows a'" "(d, row) \<notin> rows a"
  shows "signed env r d \<and> row = new_row t2 who ttl"
  using assms(1)
proof (cases rule: hseq_cases)
  case (failed e)
  then show ?thesis
    using row by (auto simp: with_store_def raised_Inl dest!: create_session_fails split: prod.splits)
next
  case (went tk b)
  then obtain s where s: "create_session (ae_store env) (cc_random c 0) t1 t2 who ttl (ax_store a) = (Inr tk, s)"
      and b: "b = a\<lparr>ax_store := s\<rparr>"
    by (auto simp: with_store_Inr)
  obtain d' where made: "tk = cc_random c 0" "cn_db_ok (ae_store env)" "session_digest (ae_store env) tk = Inr d'"
      "set (co_sessions s) \<subseteq> insert (d', new_row t2 who ttl) (rows a)"
    using create_session_rows [OF s] by auto
  obtain s2 where s2: "console_audit (ae_store env) (cc_clock c 9) (uni ev) detail actor s = (Inr (), s2)"
      "co_sessions s2 = co_sessions s"
    using audit_goes [OF made(2)] by blast
  obtain n where "f tk () (b\<lparr>ax_store := s2\<rparr>) = (Inr (Signed_in tk n), b\<lparr>ax_store := s2\<rparr>)"
    using f made(2) by blast
  then have "r = Inr (Signed_in tk n)" "a' = b\<lparr>ax_store := s2\<rparr>"
    using went(2) s2(1) b by (simp_all add: hseq_app write_audit_def with_store_def)
  then show ?thesis using made s2(2) row by (auto simp: signed_def)
qed

subsubsection \<open>With a password\<close>

definition earned_locally :: "access_env \<Rightarrow> console_call \<Rightarrow> access \<Rightarrow> session_row \<Rightarrow> bool" where
  "earned_locally env c a row \<longleftrightarrow>
     ae_local_login env \<and>
     (\<exists>pw. cc_payload c = Login_payload (uni ''admin'') pw \<and>
        password_hash (ae_store env) pw (ac_salt (co_account (ax_store a))) = Inr (ac_password_hash (co_account (ax_store a)))) \<and>
     (\<forall>r. map_of (co_attempts (ax_store a)) local_admin = Some r \<longrightarrow> at_failures r < 5 \<or> at_until r \<le> cc_clock c 0) \<and>
     row = new_row (cc_clock c 3) None session_ttl"

lemma out: "keeps fewer_sessions m \<Longrightarrow> m x = (q, x') \<Longrightarrow> rows x' \<subseteq> rows x"
  by (drule (1) handlerD) (simp add: fewer_sessions_def)

lemma store_out: "row_frame m \<Longrightarrow> with_store m x = (q, x') \<Longrightarrow> rows x' \<subseteq> rows x"
  by (rule out [OF with_store_sessions])

lemma audit_sessions: "keeps fewer_sessions (write_audit env c ev detail actor)"
  unfolding write_audit_def by (intro with_store_sessions row_frames)

lemma local_session_adds:
  assumes "open_local_session env c a = (r, a')" and row: "(d, row) \<in> rows a'" "(d, row) \<notin> rows a"
  shows "signed env r d \<and> row = new_row (cc_clock c 3) None session_ttl"
  using assms(1) [unfolded open_local_session_def Let_def]
proof (cases rule: hseq_cases)
  case (failed e)
  then show ?thesis using row store_out [OF row_frames(4)] by blast
next
  case (went _ b)
  then have new: "(d, row) \<notin> rows b" using row(2) store_out [OF row_frames(4)] by blast
  show ?thesis
  proof (rule open_session [OF went(2) _ row(1) new])
    fix token and b :: access and s :: nat
    assume "cn_db_ok (ae_store env)"
    then obtain x where "changed (ae_store env) (ax_store b) = (Inr x, ax_store b)" using changed_goes by blast
    then show "\<exists>n. hseq (with_store (changed (ae_store env))) (\<lambda>_. hret (Signed_in token (8 * 3600))) b = (Inr (Signed_in token n), b)"
      by (simp add: hseq_app handler_simps with_store_def)
  qed
qed

lemma judge_adds:
  assumes "judge_login env c valid a = (r, a')" and row: "(d, row) \<in> rows a'" "(d, row) \<notin> rows a"
  shows "valid \<and> signed env r d \<and> row = new_row (cc_clock c 3) None session_ttl"
proof (cases valid)
  case True
  from assms(1) [unfolded judge_login_def] show ?thesis
  proof (cases rule: hseq_cases)
    case (failed e)
    then show ?thesis using row store_out [OF row_frames(6)] by blast
  next
    case (went _ b)
    then have "(d, row) \<notin> rows b" using row(2) store_out [OF row_frames(6)] by blast
    then show ?thesis using local_session_adds [of env c b r a' d row] went(2) row(1) True by simp
  qed
next
  case False
  have "keeps fewer_sessions (judge_login env c False)"
    unfolding judge_login_def if_False
    by (intro sessions.keeps_hseq sessions.keeps_refuse audit_sessions with_store_sessions row_frames)
  then have "rows a' \<subseteq> rows a" using assms(1) False by (intro out [of "judge_login env c False"]) simp_all
  then show ?thesis using row by blast
qed

lemma login_adds:
  assumes "login env c a = (r, a')" and row: "(d, row) \<in> rows a'" "(d, row) \<notin> rows a"
  shows "signed env r d \<and> earned_locally env c a row"
proof -
  let ?st = "ae_store env"
  obtain user pw where payload: "cc_payload c = Login_payload user pw" and enabled: "ae_local_login env"
    and rest: "hseq (with_store (login_attempt ?st (cc_clock c 0) local_admin None)) (\<lambda>locked.
        hseq (require_that (\<not> locked) 429 ''Too many login attempts. Try again in 60 seconds.'') (\<lambda>_.
        hseq (with_store (check_password ?st pw)) (\<lambda>right. judge_login env c (right \<and> user = uni ''admin'')))) a = (r, a')"
    using assms
    by (auto simp: login_def login_payload_def hseq_app handler_simps split: console_payload.splits if_splits)
  from rest show ?thesis
  proof (cases rule: hseq_cases)
    case (failed e)
    then show ?thesis using row store_out [OF row_frames(6)] by blast
  next
    case (went locked b)
    have b: "b = a" and locked: "locked = (case map_of (co_attempts (ax_store a)) local_admin of None \<Rightarrow> False
        | Some r \<Rightarrow> 5 \<le> at_failures r \<and> cc_clock c 0 < at_until r)"
      using went(1) by (auto simp: with_store_Inr dest!: login_attempt_asks)
    have free: "\<not> locked" and judged: "hseq (with_store (check_password ?st pw)) (\<lambda>right.
        judge_login env c (right \<and> user = uni ''admin'')) a = (r, a')"
      using went(2) row b by (auto simp: hseq_require split: if_splits)
    from judged show ?thesis
    proof (cases rule: hseq_cases)
      case (failed e)
      then show ?thesis using row store_out [OF row_frames(1)] by blast
    next
      case (went right b2)
      have b2: "b2 = a" using went(1) by (auto simp: with_store_Inr dest!: check_password_reads)
      note judge = judge_adds [OF went(2) row(1) row(2) [folded b2]]
      then have "check_password ?st pw (ax_store a) = (Inr True, ax_store b2)" using went(1) by (auto simp: with_store_Inr)
      from check_password_true [OF this] show ?thesis
        using judge enabled payload free locked
        by (auto simp: earned_locally_def not_less not_le split: option.splits)
    qed
  qed
qed

subsubsection \<open>With an identity\<close>

text \<open>A session of the identity provider: the transaction that was pending for this browser, claims that were
  checked for its nonce, a role.\<close>

definition earned_identity :: "access_env \<Rightarrow> console_call \<Rightarrow> access \<Rightarrow> session_row \<Rightarrow> bool" where
  "earned_identity env c a row \<longleftrightarrow>
     (\<exists>i t token claims who expires ttl. ae_identity env = Some i \<and>
        map_of (ax_pending a) (get_or (cc_query c) (uni ''state'') []) = Some t \<and> cc_clock c 0 \<le> tx_expires t \<and>
        tx_binding t = cookie_value (cc_flow c) \<and> sg_decode (ae_sign_in env) token = Some claims \<and>
        check_claims i (tx_nonce t) claims = Inr (who, expires) \<and> ttl \<le> 3600 \<and>
        row = new_row (cc_clock c 5) (Some (JObj who)) (of_int ttl))"

lemma start_session_adds:
  assumes "start_session env c who expires a = (r, a')" and row: "(d, row) \<in> rows a'" "(d, row) \<notin> rows a"
  shows "signed env r d \<and> (\<exists>ttl \<le> 3600. row = new_row (cc_clock c 5) (Some (JObj who)) (of_int ttl))"
  using assms(1) [unfolded start_session_def]
proof (cases rule: hseq_cases)
  case (failed e)
  then show ?thesis using row store_out [OF row_frames(4)] by blast
next
  case (went _ b)
  then have new: "(d, row) \<notin> rows b" using row(2) store_out [OF row_frames(4)] by blast
  obtain ttl where ttl: "session_life (ae_sign_in env) expires (cc_clock c 3) = Inr ttl"
    using went(2) new row(1) by (auto simp: hseq_attempt split: sum.splits)
  from went(2) ttl have "signed env r d \<and> row = new_row (cc_clock c 5) (Some (JObj who)) (of_int ttl)"
    by (intro open_session [OF _ _ row(1) new]) (auto simp: hseq_attempt handler_simps)
  moreover have "ttl \<le> 3600" using ttl by (auto simp: session_life_def rbind_Inr_iff)
  ultimately show ?thesis by blast
qed

lemma identify_checked:
  assumes "identify env i c t a = (Inr (who, expires), a')"
  shows "\<exists>token claims. sg_decode (ae_sign_in env) token = Some claims \<and> check_claims i (tx_nonce t) claims = Inr (who, expires)"
proof -
  have valid: ?thesis if "validate_token (ae_sign_in env) i (tx_nonce t) token = Inr (who, expires)" for token
    using that by (auto simp: validate_token_def split: option.splits)
  have "\<exists>token. validate_token (ae_sign_in env) i (tx_nonce t) token = Inr (who, expires)"
    using assms
    by (auto simp: identify_def Let_def synthetic_identity_def handler_simps exchange_code_def rbind_Inr_iff
        split: if_splits option.splits sum.splits)
  then show ?thesis using valid by blast
qed

lemma identify_rows: "identify env i c t a = (r, a') \<Longrightarrow> ax_store a' = ax_store a \<and> ax_pending a' = ax_pending a"
  by (auto simp: identify_def Let_def synthetic_identity_def handler_simps split: if_splits option.splits)

lemma take_transaction_cases:
  assumes "take_transaction c a = (r, b)"
  shows "(\<exists>e. r = Inl e) \<and> b = a \<or>
    (\<exists>t. r = Inr t \<and> map_of (ax_pending a) (get_or (cc_query c) (uni ''state'') []) = Some t \<and> cc_clock c 0 \<le> tx_expires t \<and>
       tx_binding t = cookie_value (cc_flow c) \<and>
       b = a\<lparr>ax_pending := filter (\<lambda>(k, _). k \<noteq> get_or (cc_query c) (uni ''state'') []) (ax_pending a)\<rparr>)"
  using assms
  by (auto simp: take_transaction_def Let_def same_digest_def split: option.splits if_splits sum.splits bool.splits)

lemma callback_adds:
  assumes "sso_callback env i c a = (r, a')" and id: "ae_identity env = Some i"
    and row: "(d, row) \<in> rows a'" "(d, row) \<notin> rows a"
  shows "signed env r d \<and> earned_identity env c a row"
  using assms(1) [unfolded sso_callback_def]
proof (cases rule: hseq_cases)
  case (failed e)
  then show ?thesis using row take_transaction_cases by fastforce
next
  case (went t b)
  have t: "map_of (ax_pending a) (get_or (cc_query c) (uni ''state'') []) = Some t" "cc_clock c 0 \<le> tx_expires t"
      "tx_binding t = cookie_value (cc_flow c)" "ax_store b = ax_store a"
    using take_transaction_cases [OF went(1)] by auto
  obtain q a2 where q: "identify env i c t b = (q, a2)" by fastforce
  have a2: "ax_store a2 = ax_store a" using identify_rows [OF q] t(4) by simp
  show ?thesis
  proof (cases q)
    case (Inl e)
    have "keeps fewer_sessions (hseq (write_audit env c ''account.sso_failed''
        (uni ''Identity validation or role assignment failed'') (uni ''anonymous'')) (\<lambda>_. hret Sign_in_failed))"
      by (intro sessions.keeps_hseq sessions.keeps_hret audit_sessions)
    then have "rows a' \<subseteq> rows a2"
      using went(2) q Inl out by (auto split: if_splits) blast+
    then show ?thesis using row a2 by auto
  next
    case (Inr p)
    obtain who expires where p: "p = (who, expires)" by fastforce
    have run: "start_session env c who expires a2 = (r, a')" using went(2) q Inr p by simp
    obtain token claims where "sg_decode (ae_sign_in env) token = Some claims"
        "check_claims i (tx_nonce t) claims = Inr (who, expires)"
      using identify_checked q Inr p by blast
    then show ?thesis
      using start_session_adds [OF run row(1)] row(2) a2 t id unfolding earned_identity_def by fastforce
  qed
qed

subsubsection \<open>With any request\<close>

lemma start_rows: "sso_start env i c a = (r, a') \<Longrightarrow> ax_store a' = ax_store a"
  by (auto simp: sso_start_def hseq_require hseq_attempt Let_def split: if_splits sum.splits)

lemma authorize_rows: "sso_authorize env i c a = (r, a') \<Longrightarrow> ax_store a' = ax_store a \<and> ax_pending a' = ax_pending a"
  by (auto simp: sso_authorize_def hseq_require hseq_attempt Let_def split: if_splits sum.splits option.splits)

lemma guarded_rows: "keeps fewer_sessions (guarded_operation env c who)"
  unfolding guarded_operation_def sign_out_def password_def
  by (auto intro!: sessions.keeps_intros audit_sessions with_store_sessions row_frames split: console_payload.splits)

lemma may_write_frame: "may_write c who a = (r, b) \<Longrightarrow> b = a"
  by (auto simp: may_write_def handler_simps hseq_attempt split: if_splits sum.splits)

lemma signed_in_frame: "signed_in env c a = (r, b) \<Longrightarrow> b = a"
  by (auto simp: signed_in_def hseq_app handler_simps with_store_def split: prod.splits sum.splits if_splits
      dest!: principal_of_reads)

lemma audit_write_frame:
  assumes "audit_write env c who q b = (r, b')"
  shows "rows b' \<subseteq> rows b \<and> ax_pending b' = ax_pending b \<and> (\<forall>v. r = Inr v \<longrightarrow> q = Inr v)"
proof (cases "cc_method c = uni ''POST'' \<and> cc_path c \<noteq> logout_path \<and> \<not> escapes q")
  case True
  let ?line = "\<lambda>actor. write_audit env c ''console.write'' (cc_path c @ uni '' / '' @ dec_nat (answer_status c q)) actor"
  show ?thesis
  proof (cases "actor_text who")
    case (Inr actor)
    obtain z b2 where z: "?line actor b = (z, b2)" by fastforce
    have "rows b2 \<subseteq> rows b" "ax_pending b2 = ax_pending b"
      using out [OF audit_sessions z] handlerD [OF write_audit_pending z] by (simp_all add: same_pending_def)
    moreover have "b' = b2" "\<forall>v. r = Inr v \<longrightarrow> q = Inr v"
      using assms True Inr z by (auto simp: audit_write_def hseq_app handler_simps split: sum.splits)
    ultimately show ?thesis by simp
  qed (use assms True in \<open>auto simp: audit_write_def hseq_attempt\<close>)
qed (use assms in \<open>auto simp: audit_write_def\<close>)

definition earned :: "access_env \<Rightarrow> console_call \<Rightarrow> access \<Rightarrow> session_row \<Rightarrow> bool" where
  "earned env c a row \<longleftrightarrow> earned_locally env c a row \<or> earned_identity env c a row"

lemma public_adds:
  assumes "public_operation env c = Some f" and "f a = (r, a')" and row: "(d, row) \<in> rows a'" "(d, row) \<notin> rows a"
  shows "signed env r d \<and> earned env c a row"
proof -
  consider (start) i where "hseq (sso_start env i c) (\<lambda>(url, binding). hret (Go_to url binding)) a = (r, a')"
    | (callback) i where "ae_identity env = Some i" "sso_callback env i c a = (r, a')"
    | (authorize) i where "sso_authorize env i c a = (r, a')" | (login) "login env c a = (r, a')" | (nothing) "a' = a"
    using assms(1,2)
    by (auto simp: public_operation_def Let_def with_identity_def refuse_app split: if_splits option.splits)
  then show ?thesis
  proof cases
    case start
    then have "ax_store a' = ax_store a" by (auto elim!: hseq_cases simp: hret_app dest!: start_rows)
    then show ?thesis using row by simp
  next
    case callback
    then show ?thesis using callback_adds row by (fastforce simp: earned_def)
  next
    case authorize
    then show ?thesis using authorize_rows row by fastforce
  next
    case login
    then show ?thesis using login_adds row by (fastforce simp: earned_def)
  qed (use row in simp)
qed

lemma guarded_call:
  assumes "serve_call env c a = (r, a')" and "public_operation env c = None"
  shows "rows a' \<subseteq> rows a"
proof -
  obtain q b where q: "signed_in env c a = (q, b)" by fastforce
  have b: "b = a" by (rule signed_in_frame [OF q])
  show ?thesis
  proof (cases q)
    case (Inl e)
    then show ?thesis using assms q b by (auto simp: serve_call_def split: sum.splits if_splits)
  next
    case (Inr who)
    obtain z b2 where z: "hseq (may_write c who) (\<lambda>_. guarded_operation env c who) a = (z, b2)" by fastforce
    have "audit_write env c who z b2 = (r, a') \<or> a' = a"
      using assms q b z Inr by (auto simp: serve_call_def split: sum.splits if_splits)
    moreover have "rows b2 \<subseteq> rows a"
      using z by (auto elim!: hseq_cases dest!: may_write_frame out [OF guarded_rows])
    ultimately show ?thesis using audit_write_frame by blast
  qed
qed

lemma call_adds:
  assumes "serve_call env c a = (r, a')" and "(d, row) \<in> rows a'" "(d, row) \<notin> rows a"
  shows "signed env r d \<and> earned env c a row"
proof (cases "public_operation env c")
  case (Some f)
  then have "f a = (r, a') \<or> a' = a" using assms(1) by (auto simp: serve_call_def split: sum.splits)
  then show ?thesis using public_adds [OF Some] assms(2,3) by blast
qed (use guarded_call assms in blast)

subsection \<open>What a write needs\<close>

lemma callback_outcome:
  assumes "sso_callback env i c a = (Inr v, a')"
  shows "v = Sign_in_failed \<or> (\<exists>t n. v = Signed_in t n)"
proof -
  obtain t b where t: "(case identify env i c t b of
      (Inl r, a') \<Rightarrow> if r = Raised identity_error
        then hseq (write_audit env c ''account.sso_failed'' (uni ''Identity validation or role assignment failed'')
               (uni ''anonymous'')) (\<lambda>_. hret Sign_in_failed) a'
        else (Inl r, a')
    | (Inr (who, expires), a') \<Rightarrow> start_session env c who expires a') = (Inr v, a')"
    using assms by (auto simp: sso_callback_def hseq_Inr)
  obtain q b2 where "identify env i c t b = (q, b2)" by fastforce
  then show ?thesis using t
    by (cases q) (auto simp: hseq_Inr hret_app start_session_def attempt_app split: if_splits)
qed

lemma public_outcome:
  assumes "public_operation env c = Some f" and "f a = (Inr v, a')"
  shows "\<not> (\<exists>who. v = Admitted who)"
  using assms
  by (auto simp: public_operation_def Let_def with_identity_def refuse_app hseq_Inr hret_app
      sso_authorize_def login_def judge_login_def open_local_session_def hseq_require hseq_attempt
      split: if_splits option.splits sum.splits prod.splits dest!: callback_outcome)

lemma admitted_call:
  assumes "serve_call env c a = (Inr (Admitted who), a')"
  shows "(\<exists>body. boundary env c = Inr body) \<and> signed_in env c a = (Inr who, a) \<and> may_write c who a = (Inr (), a)"
proof -
  obtain body where body: "boundary env c = Inr body" using assms by (auto simp: serve_call_def split: sum.splits)
  have none: "public_operation env c = None"
    using assms body public_outcome by (fastforce simp: serve_call_def split: option.splits)
  obtain q b where q: "signed_in env c a = (q, b)" by fastforce
  have b: "b = a" by (rule signed_in_frame [OF q])
  obtain p where p: "q = Inr p" using assms body none q by (cases q) (auto simp: serve_call_def split: if_splits)
  obtain z b2 where z: "hseq (may_write c p) (\<lambda>_. guarded_operation env c p) a = (z, b2)" by fastforce
  have "audit_write env c p z b2 = (Inr (Admitted who), a')"
    using assms body none q p b z by (auto simp: serve_call_def split: if_splits)
  then have z2: "z = Inr (Admitted who)" using audit_write_frame by blast
  from z [unfolded z2] obtain w where w: "may_write c p a = (Inr (), w)" "guarded_operation env c p w = (Inr (Admitted who), b2)"
    by (auto simp: hseq_Inr)
  have "w = a" by (rule may_write_frame [OF w(1)])
  moreover have "p = who"
    using w(2) by (auto simp: guarded_operation_def sign_out_def password_def hseq_Inr hret_app refuse_app
        split: if_splits console_payload.splits)
  ultimately show ?thesis using body q b p w(1) by simp
qed

lemma read_chunks_bound: "read_chunks n bs = Some b \<Longrightarrow> n \<le> 16384 \<Longrightarrow> n + length b \<le> 16384"
  by (induction bs arbitrary: n b) (force split: if_splits)+

definition same_site :: "access_env \<Rightarrow> console_call \<Rightarrow> bool" where
  "same_site env c \<longleftrightarrow> (\<exists>v \<in> set (allowed_origins env). cc_origin c = Some v) \<and> cc_demo c = Some (uni ''1'')"

lemma boundary_site:
  assumes "boundary env c = Inr body" and "\<not> reading c"
  shows "same_site env c \<and> length body \<le> 16384"
  using assms read_chunks_bound [of 0 "cc_chunks c"]
  by (auto simp: boundary_def same_site_def split: if_splits option.splits)

lemma signed_in_live:
  assumes "signed_in env c a = (Inr who, b)"
  shows "\<exists>cookie d row. cc_session c = Some cookie \<and> session_digest (ae_store env) cookie = Inr d \<and>
    (d, row) \<in> rows a \<and> se_principal row = Some who \<and> cc_clock c 0 < se_expires row"
proof -
  have "\<exists>s. principal_of (ae_store env) (cc_clock c 0) (cc_session c) (ax_store a) = (Inr (Some who), s)"
    using assms by (auto simp: signed_in_def hseq_Inr with_store_Inr hret_app refuse_app split: if_splits)
  then show ?thesis by (auto dest!: principal_of_live map_of_SomeD)
qed

text \<open>An administrator: the local account with its password, or the admin role in the console's tenant.\<close>

definition admin_claims :: "access_env \<Rightarrow> (pystr, json) dict \<Rightarrow> pystr \<Rightarrow> bool" where
  "admin_claims env claims nonce \<longleftrightarrow>
     (\<exists>i roles. ae_identity env = Some i \<and> map_of claims (uni ''tid'') = Some (JStr (id_tenant i)) \<and>
        map_of claims (uni ''nonce'') = Some (JStr nonce) \<and> map_of claims (uni ''roles'') = Some (JArr roles) \<and>
        JStr (uni ''TrapDefense.Admin'') \<in> set roles)"

lemma claims_admin:
  assumes "check_claims i nonce claims = Inr (who, expires)" and "dict_item (JObj who) ''role'' = Inr (JStr (uni ''admin''))"
    and "ae_identity env = Some i"
  shows "admin_claims env claims nonce"
  using assms
  by (auto simp: check_claims_def principal_from_def dict_item_def claimed_role_def admin_claims_def
      split: option.splits json.splits if_splits)

lemma claims_who: "check_claims i nonce claims = Inr (who, expires) \<Longrightarrow> who \<noteq> []"
  by (auto simp: check_claims_def principal_from_def split: option.splits json.splits if_splits)

definition admin_sign_in :: "access_env \<Rightarrow> console_call \<Rightarrow> access \<Rightarrow> bool" where
  "admin_sign_in env c a \<longleftrightarrow>
     ae_local_login env \<and>
       (\<exists>pw. cc_payload c = Login_payload (uni ''admin'') pw \<and>
          password_hash (ae_store env) pw (ac_salt (co_account (ax_store a))) = Inr (ac_password_hash (co_account (ax_store a)))) \<and>
       (\<forall>r. map_of (co_attempts (ax_store a)) local_admin = Some r \<longrightarrow> at_failures r < 5 \<or> at_until r \<le> cc_clock c 0) \<or>
     (\<exists>t token claims. map_of (ax_pending a) (get_or (cc_query c) (uni ''state'') []) = Some t \<and> cc_clock c 0 \<le> tx_expires t \<and>
        tx_binding t = cookie_value (cc_flow c) \<and> sg_decode (ae_sign_in env) token = Some claims \<and>
        admin_claims env claims (tx_nonce t))"

lemma earned_admin:
  assumes "earned env c a row" and "se_principal row = Some who" and "dict_item who ''role'' = Inr (JStr (uni ''admin''))"
  shows "admin_sign_in env c a"
  using assms(1) unfolding earned_def
proof
  assume "earned_identity env c a row"
  then obtain i t token claims who' expires ttl where e: "ae_identity env = Some i"
      "map_of (ax_pending a) (get_or (cc_query c) (uni ''state'') []) = Some t" "cc_clock c 0 \<le> tx_expires t"
      "tx_binding t = cookie_value (cc_flow c)" "sg_decode (ae_sign_in env) token = Some claims"
      "check_claims i (tx_nonce t) claims = Inr (who', expires)" "row = new_row (cc_clock c 5) (Some (JObj who')) (of_int ttl)"
    unfolding earned_identity_def by blast
  have "who = JObj who'" using assms(2) claims_who [OF e(6)] by (simp add: e(7) new_row_def)
  then have "admin_claims env claims (tx_nonce t)" using claims_admin [OF e(6) _ e(1)] assms(3) by simp
  then show ?thesis unfolding admin_sign_in_def using e by blast
qed (auto simp: earned_locally_def admin_sign_in_def)

subsection \<open>How often a transaction can be used\<close>

definition is_start :: "console_call \<Rightarrow> refusal + call_outcome \<Rightarrow> pystr \<Rightarrow> bool" where
  "is_start c r state \<longleftrightarrow> (\<exists>url binding. r = Inr (Go_to url binding)) \<and> cc_random c 0 = state"

definition is_use :: "console_call \<Rightarrow> refusal + call_outcome \<Rightarrow> pystr \<Rightarrow> bool" where
  "is_use c r state \<longleftrightarrow> cc_path c = callback_path \<and> cc_method c = uni ''GET'' \<and>
     (r = Inr Sign_in_failed \<or> (\<exists>t n. r = Inr (Signed_in t n))) \<and> get_or (cc_query c) (uni ''state'') [] = state"

definition open_transaction :: "access \<Rightarrow> pystr \<Rightarrow> nat" where
  "open_transaction a state = (if map_of (ax_pending a) state = None then 0 else 1)"

lemma map_of_purge: "map_of (purge_pending now ps) k \<noteq> None \<Longrightarrow> map_of ps k \<noteq> None"
  by (auto simp: purge_pending_def map_of_eq_None_iff image_iff) force

lemma start_pending:
  assumes "sso_start env i c a = (r, a')"
  shows "(map_of (ax_pending a') k \<noteq> None \<longrightarrow> map_of (ax_pending a) k \<noteq> None \<or> (\<exists>v. r = Inr v) \<and> k = cc_random c 0)"
  using assms map_of_purge
  by (fastforce simp: sso_start_def hseq_require hseq_attempt Let_def split: if_splits sum.splits)

lemma callback_pending:
  assumes "sso_callback env i c a = (r, a')"
  shows "ax_pending a' = ax_pending a \<and> \<not> (\<exists>v. r = Inr v) \<or>
    map_of (ax_pending a) (get_or (cc_query c) (uni ''state'') []) \<noteq> None \<and>
    ax_pending a' = filter (\<lambda>(k, _). k \<noteq> get_or (cc_query c) (uni ''state'') []) (ax_pending a)"
  using assms [unfolded sso_callback_def]
proof (cases rule: hseq_cases)
  case (failed e)
  then show ?thesis using take_transaction_cases by fastforce
next
  case (went t b)
  have b: "map_of (ax_pending a) (get_or (cc_query c) (uni ''state'') []) = Some t"
      "ax_pending b = filter (\<lambda>(k, _). k \<noteq> get_or (cc_query c) (uni ''state'') []) (ax_pending a)"
    using take_transaction_cases [OF went(1)] by auto
  obtain q b2 where q: "identify env i c t b = (q, b2)" by fastforce
  have b2: "ax_pending b2 = ax_pending b" using identify_rows [OF q] by simp
  have session: "keeps same_pending (start_session env c who expires)" for who expires
    unfolding start_session_def
    by (intro pending.keeps_intros write_audit_pending with_store_pending)
  have failed: "keeps same_pending (hseq (write_audit env c ''account.sso_failed''
      (uni ''Identity validation or role assignment failed'') (uni ''anonymous'')) (\<lambda>_. hret Sign_in_failed))"
    by (intro pending.keeps_intros write_audit_pending)
  have "ax_pending a' = ax_pending b2"
  proof (cases q)
    case (Inl e)
    then show ?thesis using went(2) q handlerD [OF failed] by (auto simp: same_pending_def split: if_splits)
  next
    case (Inr p)
    then show ?thesis using went(2) q handlerD [OF session] by (auto simp: same_pending_def split: prod.splits)
  qed
  then show ?thesis using b b2 by simp
qed

lemma login_pending: "keeps same_pending (login env c)"
  unfolding login_def login_payload_def judge_login_def open_local_session_def Let_def
  by (auto intro!: pending.keeps_intros write_audit_pending with_store_pending split: console_payload.splits prod.splits)

lemma guarded_pending: "keeps same_pending (guarded_operation env c who)"
  unfolding guarded_operation_def sign_out_def password_def
  by (auto intro!: pending.keeps_intros write_audit_pending with_store_pending split: console_payload.splits)

lemma map_of_other: "map_of (filter (\<lambda>(k, _). k \<noteq> s) ps) k = (if k = s then None else map_of ps k)"
  by (induction ps) auto

lemma use_counts:
  assumes "serve_call env c a = (r, a')"
  shows "of_bool (is_use c r s) + open_transaction a' s \<le> of_bool (is_start c r s) + open_transaction a s"
proof (cases "public_operation env c")
  case None
  have same: "ax_pending a' = ax_pending a"
  proof -
    obtain q b where q: "signed_in env c a = (q, b)" by fastforce
    have b: "b = a" by (rule signed_in_frame [OF q])
    show ?thesis
    proof (cases q)
      case (Inl e)
      then show ?thesis using assms None q b by (auto simp: serve_call_def split: sum.splits if_splits)
    next
      case (Inr who)
      obtain z b2 where z: "hseq (may_write c who) (\<lambda>_. guarded_operation env c who) a = (z, b2)" by fastforce
      have "audit_write env c who z b2 = (r, a') \<or> a' = a"
        using assms None q b z Inr by (auto simp: serve_call_def split: sum.splits if_splits)
      moreover have "ax_pending b2 = ax_pending a"
        using z by (auto elim!: hseq_cases dest!: may_write_frame handlerD [OF guarded_pending] simp: same_pending_def)
      ultimately show ?thesis using audit_write_frame by metis
    qed
  qed
  have "\<not> is_use c r s"
    using None by (auto simp: is_use_def public_operation_def Let_def split: if_splits)
  then show ?thesis using same by (simp add: open_transaction_def)
next
  case (Some f)
  show ?thesis
  proof (cases "boundary env c")
    case (Inl e)
    then show ?thesis using assms by (auto simp: serve_call_def is_use_def)
  next
    case (Inr body)
    then have f: "f a = (r, a')" using assms Some by (simp add: serve_call_def)
    consider (callback) i where "sso_callback env i c a = (r, a')" "cc_path c = callback_path" "cc_method c = uni ''GET''"
      | (start) i where "hseq (sso_start env i c) (\<lambda>(url, binding). hret (Go_to url binding)) a = (r, a')" "cc_method c = uni ''POST''"
      | (authorize) i where "sso_authorize env i c a = (r, a')" "cc_path c \<noteq> callback_path"
      | (login) "login env c a = (r, a')" "cc_method c = uni ''POST''" | (refused) "a' = a" "\<exists>e. r = Inl e"
      using Some f
      by (auto simp: public_operation_def Let_def with_identity_def refuse_app callback_path_def split: if_splits option.splits)
    then show ?thesis
    proof cases
      case callback
      from callback_pending [OF callback(1)] show ?thesis
        using callback(2,3) by (auto simp: is_use_def open_transaction_def map_of_other split: if_splits)
    next
      case start
      then have "\<not> is_use c r s" by (simp add: is_use_def)
      moreover have "map_of (ax_pending a') s \<noteq> None \<longrightarrow> map_of (ax_pending a) s \<noteq> None \<or> is_start c r s"
        using start(1) by (auto elim!: hseq_cases dest!: start_pending [where k = s] simp: hret_app is_start_def split: prod.splits)
      ultimately show ?thesis by (auto simp: open_transaction_def)
    next
      case authorize
      then show ?thesis using authorize_rows by (fastforce simp: is_use_def open_transaction_def)
    next
      case login
      then show ?thesis using handlerD [OF login_pending] by (fastforce simp: is_use_def open_transaction_def same_pending_def)
    qed (auto simp: is_use_def)
  qed
qed

subsection \<open>Runs\<close>

text \<open>A run of requests with the state before and the answer of each.\<close>

fun console_run ::
  "access_env \<Rightarrow> console_call list \<Rightarrow> access \<Rightarrow> (access \<times> console_call \<times> (refusal + call_outcome)) list \<times> access" where
  "console_run env [] a = ([], a)"
| "console_run env (c # cs) a =
     (case serve_call env c a of (r, a1) \<Rightarrow>
        (case console_run env cs a1 of (tr, a2) \<Rightarrow> ((a, c, r) # tr, a2)))"

lemma run_Cons:
  assumes "console_run env (c # cs) a = (tr, a2)"
  obtains r a1 tr1 where "serve_call env c a = (r, a1)" "console_run env cs a1 = (tr1, a2)" "tr = (a, c, r) # tr1"
  using assms by (auto split: prod.splits)

definition row_source :: "access_env \<Rightarrow> pystr \<Rightarrow> session_row \<Rightarrow> access \<times> console_call \<times> (refusal + call_outcome) \<Rightarrow> bool" where
  "row_source env d row = (\<lambda>(a, c, r). signed env r d \<and> earned env c a row)"

lemma run_rows:
  "console_run env cs a = (tr, a2) \<Longrightarrow> (d, row) \<in> rows a2 \<Longrightarrow> (d, row) \<in> rows a \<or> (\<exists>x \<in> set tr. row_source env d row x)"
proof (induction cs arbitrary: a tr)
  case (Cons c cs)
  obtain r a1 tr1 where c: "serve_call env c a = (r, a1)" "console_run env cs a1 = (tr1, a2)" "tr = (a, c, r) # tr1"
    by (rule run_Cons [OF Cons.prems(1)])
  show ?case
    using Cons.IH [OF c(2) Cons.prems(2)] call_adds [OF c(1)] by (auto simp: c(3) row_source_def)
qed simp

lemma run_take:
  "console_run env cs a = (tr, a2) \<Longrightarrow> k < length tr \<Longrightarrow>
     \<exists>b c r b2. tr ! k = (b, c, r) \<and> serve_call env c b = (r, b2) \<and> console_run env (take k cs) a = (take k tr, b)"
proof (induction cs arbitrary: a tr k)
  case (Cons c cs)
  obtain r a1 tr1 where c: "serve_call env c a = (r, a1)" "console_run env cs a1 = (tr1, a2)" "tr = (a, c, r) # tr1"
    by (rule run_Cons [OF Cons.prems(1)])
  show ?case
  proof (cases k)
    case 0
    then show ?thesis using c by simp
  next
    case (Suc j)
    then have "j < length tr1" using Cons.prems(2) c(3) by simp
    from Cons.IH [OF c(2) this] show ?thesis using c Suc by auto
  qed
qed simp

definition starts_of :: "pystr \<Rightarrow> (access \<times> console_call \<times> (refusal + call_outcome)) list \<Rightarrow> nat" where
  "starts_of s tr = length (filter (\<lambda>(a, c, r). is_start c r s) tr)"

definition uses_of :: "pystr \<Rightarrow> (access \<times> console_call \<times> (refusal + call_outcome)) list \<Rightarrow> nat" where
  "uses_of s tr = length (filter (\<lambda>(a, c, r). is_use c r s) tr)"

lemma run_uses: "console_run env cs a = (tr, a2) \<Longrightarrow> uses_of s tr + open_transaction a2 s \<le> starts_of s tr + open_transaction a s"
proof (induction cs arbitrary: a tr)
  case (Cons c cs)
  obtain r a1 tr1 where c: "serve_call env c a = (r, a1)" "console_run env cs a1 = (tr1, a2)" "tr = (a, c, r) # tr1"
    by (rule run_Cons [OF Cons.prems(1)])
  have "uses_of s tr = of_bool (is_use c r s) + uses_of s tr1" "starts_of s tr = of_bool (is_start c r s) + starts_of s tr1"
    by (simp_all add: c(3) uses_of_def starts_of_def)
  then show ?case using Cons.IH [OF c(2)] use_counts [OF c(1), of s] by linarith
qed (simp add: uses_of_def starts_of_def)

subsection \<open>The claim\<close>

definition fresh_app :: "access \<Rightarrow> bool" where
  "fresh_app a \<longleftrightarrow> co_sessions (ax_store a) = [] \<and> ax_pending a = []"

text \<open>What stands behind a write that is let through.\<close>

definition write_backed :: "access_env \<Rightarrow> (access \<times> console_call \<times> (refusal + call_outcome)) list \<Rightarrow> console_call \<Rightarrow> json \<Rightarrow> bool" where
  "write_backed env before c who \<longleftrightarrow>
     same_site env c \<and> length (concat (cc_chunks c)) \<le> 16384 \<and>
     (cc_path c = logout_path \<or>
      dict_item who ''role'' = Inr (JStr (uni ''admin'')) \<and>
      (\<exists>cookie d. cc_session c = Some cookie \<and> session_digest (ae_store env) cookie = Inr d \<and>
         (\<exists>(a', c', r') \<in> set before. signed env r' d \<and> admin_sign_in env c' a')))"

lemma read_chunks_all: "read_chunks n bs = Some b \<Longrightarrow> b = concat bs"
  by (induction bs arbitrary: n b) (auto split: if_splits)


definition demo_access_env :: access_env where
  "demo_access_env = \<lparr>
     ae_sign_in = \<lparr>sg_url = \<lparr>netloc_ok = (\<lambda>_. True), idna = Some\<rparr>, sg_uuid = Some, sg_sha = id,
       sg_decode = (\<lambda>_. None), sg_encode = JObj, sg_key_ok = (\<lambda>_. True), sg_float = (\<lambda>_. 0)\<rparr>,
     ae_store = \<lparr>cn_scrypt = (\<lambda>b salt. map unat b @ salt), cn_sha256 = map unat, cn_db_ok = True\<rparr>,
     ae_identity = None, ae_local_login = True, ae_console_origin = None\<rparr>"

definition demo_access :: access where
  "demo_access = \<lparr>ax_store = \<lparr>co_account = \<lparr>ac_username = uni ''admin'', ac_salt = [],
       ac_password_hash = uni ''pass'', ac_changed = True\<rparr>, co_sessions = [], co_attempts = [], co_settings = [],
       co_events = [], co_next_event = 1, co_audit = []\<rparr>, ax_pending = [], ax_codes = []\<rparr>"

definition demo_call :: "string \<Rightarrow> console_payload \<Rightarrow> pystr option \<Rightarrow> console_call" where
  "demo_call path payload cookie = \<lparr>cc_method = uni ''POST'', cc_path = uni path, cc_origin = Some (uni ''http://localhost:5176''),
     cc_demo = Some (uni ''1''), cc_content_type = Some (uni ''application/json''), cc_chunks = [[123, 125]], cc_session = cookie,
     cc_flow = None, cc_query = [], cc_clock = (\<lambda>_. 0), cc_random = (\<lambda>_. uni ''t''), cc_token_answer = Inl Os_error,
     cc_payload = payload, cc_operation = Some 200\<rparr>"

definition demo_calls :: "console_call list" where
  "demo_calls = [demo_call ''/demo-api/login'' (Login_payload (uni ''admin'') (uni ''pass'')) None,
     demo_call ''/demo-api/policy'' No_payload (Some (uni ''t''))]"


end
