(* ===== verification/Operations.thy ===== *)
theory Operations
  imports Policy_Config
begin

text \<open>
  \<open>selfhost/operations.py\<close>: connection settings are staged in the console while the service runs and
  activated while it is stopped.

  The setting \<open>operations.config\<close> is a value of type \<open>settings\<close>; a stored configuration
  (\<open>model_dump(exclude_none=True)\<close>) is the deployment whose fields pydantic reads from it, \<open>redumped\<close> of the one
  that was dumped, and is validated again whenever the code does.  Arguments: the deployment the JSON of a
  request reads as (\<open>None\<close> when its fields have the wrong shape) and the name of a new secret file.
  Parameters: the URL tables, whether the database can be written, and whether the file of a secret is private
  and readable (\<open>secret\<close> of \<open>selfhost/main.py\<close>).
\<close>

record saved_connection =
  st_revision :: nat
  st_config :: deployment
  st_policy :: "policy option"

record settings =
  st_version :: nat
  st_pending :: "saved_connection option"
  st_active :: "saved_connection option"
  st_history :: "saved_connection list"

definition no_settings :: settings where
  "no_settings = \<lparr>st_version = 0, st_pending = None, st_active = None, st_history = []\<rparr>"

text \<open>The service: its database, the secret files it wrote, and the deployment it runs with.\<close>

record service =
  sx_settings :: "settings option"
  sx_policy :: "policy option"
  sx_files :: "(pystr, pystr) dict"
  sx_audit :: "string list"
  sx_deployment :: deployment

record operations_env =
  op_url :: url_env
  op_db_ok :: bool
  op_secret_ok :: "pystr \<Rightarrow> bool"
  op_fallback :: deployment   \<comment> \<open>the deployment file\<close>

definition saved_state :: "service \<Rightarrow> settings" where
  "saved_state s = (case sx_settings s of None \<Rightarrow> no_settings | Some x \<Rightarrow> x)"

text \<open>The three settings that stay with the deployment file.\<close>

definition same_trust :: "deployment \<Rightarrow> deployment \<Rightarrow> bool" where
  "same_trust d d' \<longleftrightarrow> dp_console_origin d = dp_console_origin d' \<and> dp_gateway_auth d = dp_gateway_auth d' \<and>
     dp_access_broker d = dp_access_broker d'"

definition active_config :: "operations_env \<Rightarrow> service \<Rightarrow> deployment result" where
  "active_config env s =
     (case st_active (saved_state s) of
        None \<Rightarrow> Inr (op_fallback env)
      | Some a \<Rightarrow> validate_deployment (op_url env) ((st_config a)\<lparr>dp_console_origin := dp_console_origin (op_fallback env),
          dp_gateway_auth := dp_gateway_auth (op_fallback env), dp_access_broker := dp_access_broker (op_fallback env)\<rparr>))"

definition secret_of :: "deployment \<Rightarrow> pystr option" where
  "secret_of d = ta_secret_file (dp_target_auth d)"

definition saved_items :: "settings \<Rightarrow> saved_connection list" where
  "saved_items x = (case st_pending x of None \<Rightarrow> [] | Some p \<Rightarrow> [p]) @ (case st_active x of None \<Rightarrow> [] | Some a \<Rightarrow> [a]) @
     st_history x"

definition invalid_settings :: exn where
  "invalid_settings = Value_error ''Invalid connection settings. Check mappings, authentication and credential selection.''"

definition secret_length_ok :: "pystr option \<Rightarrow> bool" where
  "secret_length_ok v = (case v of None \<Rightarrow> True | Some t \<Rightarrow> 1 \<le> length t \<and> length t \<le> 4096)"

definition candidate :: "operations_env \<Rightarrow> deployment option \<Rightarrow> pystr option \<Rightarrow> service \<Rightarrow> deployment result" where
  "candidate env d target_secret s =
     (case d of
        None \<Rightarrow> Inl invalid_settings
      | Some d0 \<Rightarrow>
          (case validate_deployment (op_url env) d0 of
             Inl e \<Rightarrow> Inl invalid_settings
           | Inr c \<Rightarrow>
               if \<not> same_trust c (sx_deployment s) then Inl invalid_settings
               else (case target_secret of
                   Some t \<Rightarrow> if \<not> truthy (secret_of c) \<or> list_ex is_space t then Inl invalid_settings else Inr c
                 | None \<Rightarrow>
                     if truthy (secret_of c) \<and>
                        secret_of c \<notin> set (secret_of (sx_deployment s) # map (\<lambda>x. secret_of (st_config x)) (saved_items (saved_state s)))
                     then Inl invalid_settings else Inr c)))"

text \<open>\<open>store.set\<close> and \<open>store.audit\<close>.\<close>

definition set_state :: "operations_env \<Rightarrow> settings \<Rightarrow> (service, unit) act" where
  "set_state env x s = (if op_db_ok env then (Inr (), s\<lparr>sx_settings := Some x\<rparr>) else (Inl Failure, s))"

definition audit_line :: "operations_env \<Rightarrow> string \<Rightarrow> (service, unit) act" where
  "audit_line env l s = (if op_db_ok env then (Inr (), s\<lparr>sx_audit := sx_audit s @ [l]\<rparr>) else (Inl Failure, s))"

definition current_policy :: "service \<Rightarrow> policy result" where
  "current_policy s = (case sx_policy s of None \<Rightarrow> Inl (Value_error ''validation'') | Some p \<Rightarrow> Inr p)"

definition write_secret :: "operations_env \<Rightarrow> pystr \<Rightarrow> pystr option \<Rightarrow> deployment \<Rightarrow> (service, deployment) act" where
  "write_secret env name target_secret c =
     (case target_secret of
        None \<Rightarrow> ret c
      | Some t \<Rightarrow> if utf8_encode t = None then raise Unicode_error else seq (modify (\<lambda>s. s\<lparr>sx_files := dset name t (sx_files s)\<rparr>)) (\<lambda>_.
          ret (c\<lparr>dp_target_auth := (dp_target_auth c)\<lparr>ta_secret_file := Some name\<rparr>\<rparr>)))"

text \<open>What goes to the history when \<open>x\<close> is replaced: what was staged, else what was active, else what runs.\<close>

definition previous_connection :: "settings \<Rightarrow> service \<Rightarrow> saved_connection result" where
  "previous_connection x s =
     (case (st_pending x, st_active x) of
        (Some p, _) \<Rightarrow> Inr p
      | (None, Some a) \<Rightarrow> rbind (current_policy s) (\<lambda>p. Inr (a\<lparr>st_policy := Some p\<rparr>))
      | (None, None) \<Rightarrow> rbind (current_policy s) (\<lambda>p.
          Inr \<lparr>st_revision = st_version x + 1, st_config = redumped (sx_deployment s), st_policy = Some p\<rparr>))"

definition last_ten :: "'a list \<Rightarrow> 'a list" where
  "last_ten xs = drop (length xs - 10) xs"

definition staged :: "settings \<Rightarrow> saved_connection \<Rightarrow> deployment \<Rightarrow> settings" where
  "staged x previous c =
     (let revision = st_version x + 1 in
      x\<lparr>st_version := revision, st_pending := Some \<lparr>st_revision = revision + 1, st_config = redumped c, st_policy = None\<rparr>,
        st_history := last_ten (st_history x @ [previous])\<rparr>)"

definition stage_connection ::
  "operations_env \<Rightarrow> nat \<Rightarrow> deployment option \<Rightarrow> pystr option \<Rightarrow> pystr \<Rightarrow> (service, unit) act" where
  "stage_connection env version d target_secret name =
     (if \<not> secret_length_ok target_secret then raise (Value_error ''validation'')
      else seq (gets saved_state) (\<lambda>x.
        if version \<noteq> st_version x then raise (Value_error ''Settings changed. Refresh before saving.'')
        else
          seq (gets (candidate env d target_secret)) (\<lambda>cand.
          seq (lift_result cand) (\<lambda>c.
          seq (write_secret env name target_secret c) (\<lambda>c'.
          seq (gets (previous_connection x)) (\<lambda>prev.
          seq (lift_result prev) (\<lambda>previous.
          seq (set_state env (staged x previous c')) (\<lambda>_.
            audit_line env ''connection.staged''))))))))"

text \<open>The newest entry of the history with the revision.\<close>

definition history_item :: "nat \<Rightarrow> settings \<Rightarrow> saved_connection option" where
  "history_item revision x = find (\<lambda>h. st_revision h = revision) (rev (st_history x))"

definition keep_policy :: "operations_env \<Rightarrow> saved_connection \<Rightarrow> (service, unit) act" where
  "keep_policy env item =
     (case st_policy item of
        None \<Rightarrow> ret ()
      | Some p \<Rightarrow> seq (gets saved_state) (\<lambda>x. set_state env (x\<lparr>st_pending := map_option (\<lambda>y. y\<lparr>st_policy := Some p\<rparr>) (st_pending x)\<rparr>)))"

definition restore :: "operations_env \<Rightarrow> nat \<Rightarrow> nat \<Rightarrow> pystr \<Rightarrow> (service, unit) act" where
  "restore env version revision name =
     seq (gets saved_state) (\<lambda>x.
       if version \<noteq> st_version x then raise (Value_error ''Settings changed. Refresh before saving.'')
       else (case history_item revision x of
               None \<Rightarrow> raise (Value_error ''Saved revision not found.'')
             | Some item \<Rightarrow> seq (stage_connection env version (Some (st_config item)) None name) (\<lambda>_. keep_policy env item)))"

text \<open>The policy after an activation: the one saved with the connection, one seeded from new routes, or the
  present one.\<close>

definition next_version :: "policy option \<Rightarrow> int" where
  "next_version p = (case p of None \<Rightarrow> 1 | Some q \<Rightarrow> po_version q + 1)"

definition activated_policy :: "saved_connection \<Rightarrow> deployment \<Rightarrow> deployment \<Rightarrow> policy option \<Rightarrow> policy option result" where
  "activated_policy pending config old p =
     (case st_policy pending of
        Some q \<Rightarrow> Inr (Some (q\<lparr>po_version := next_version p\<rparr>))
      | None \<Rightarrow>
          if dp_routes config \<noteq> dp_routes old then
            rbind (seeded_policy config) (\<lambda>q. Inr (Some (q\<lparr>po_version := next_version p,
              po_mode := (case p of None \<Rightarrow> Inline | Some r \<Rightarrow> po_mode r),
              po_pii_action := (case p of None \<Rightarrow> Redact_pii | Some r \<Rightarrow> po_pii_action r)\<rparr>)))
          else Inr p)"

definition activate :: "operations_env \<Rightarrow> (service, deployment) act" where
  "activate env =
     seq (gets saved_state) (\<lambda>x.
       case st_pending x of
         None \<Rightarrow> raise (Value_error ''No staged connection settings.'')
       | Some pending \<Rightarrow>
           seq (lift_result (validate_deployment (op_url env) (st_config pending))) (\<lambda>config.
             if truthy (secret_of config) \<and> \<not> op_secret_ok env (the (secret_of config)) then raise (Value_error ''secret'')
             else
               seq (gets (active_config env)) (\<lambda>r.
               seq (lift_result r) (\<lambda>old.
               seq (gets sx_policy) (\<lambda>p.
               seq (lift_result (activated_policy pending config old p)) (\<lambda>p' s.
                 if \<not> op_db_ok env then (Inl Failure, s)
                 else seq (audit_line env ''connection.activated'') (\<lambda>_. ret config)
                   (s\<lparr>sx_settings := Some (x\<lparr>st_active := Some pending, st_pending := None, st_version := st_version x + 1\<rparr>),
                     sx_policy := (case p' of None \<Rightarrow> sx_policy s | Some q \<Rightarrow> Some q)\<rparr>)))))))"

text \<open>The service starts with the active connection.\<close>

definition start_service :: "operations_env \<Rightarrow> (service, unit) act" where
  "start_service env s =
     (case active_config env s of Inl e \<Rightarrow> (Inl e, s) | Inr d \<Rightarrow> (Inr (), s\<lparr>sx_deployment := d\<rparr>))"

text \<open>\<open>diagnose\<close>: the first component that is not there.\<close>

definition diagnosis :: "bool option \<Rightarrow> bool \<Rightarrow> bool \<Rightarrow> string" where
  "diagnosis reachable inspector proxy =
     (if reachable = Some False then ''dataplane_unreachable'' else if \<not> inspector then ''inspector_unavailable''
      else if \<not> proxy then ''proxy_unavailable'' else ''listeners_ready'')"

subsection \<open>Runs\<close>

datatype settings_event =
    Stage_settings nat "deployment option" "pystr option" pystr
  | Restore_settings nat nat pystr
  | Activate_settings
  | Start_service

fun settings_step :: "operations_env \<Rightarrow> service \<Rightarrow> settings_event \<Rightarrow> service" where
  "settings_step env s (Stage_settings v d t name) = snd (stage_connection env v d t name s)"
| "settings_step env s (Restore_settings v r name) = snd (restore env v r name s)"
| "settings_step env s Activate_settings = snd (activate env s)"
| "settings_step env s Start_service = snd (start_service env s)"

end
