(* ===== verification/Operations_Properties.thy ===== *)
theory Operations_Properties
  imports Operations Policy_Properties
begin

text \<open>
  What an operator can reach through the console: over any run of staging, restoring, activating and
  restarting.
\<close>

subsection \<open>Validation\<close>

lemma validate_target_secret: "validate_target t = Inr t' \<Longrightarrow> ta_secret_file t' = ta_secret_file t"
  by (auto simp: validate_target_def rbind_Inr_iff Let_def lowered_header_def split: if_splits option.splits)

lemma validate_deployment_fields:
  assumes "validate_deployment ue d = Inr d'"
  shows "secret_of d' = secret_of d" "dp_console_origin d' = dp_console_origin d" "dp_access_broker d' = dp_access_broker d"
    "validate_gateway_auth ue (dp_gateway_auth d) = Inr (dp_gateway_auth d')"
  using assms by (auto simp: validate_deployment_def rbind_Inr_iff Let_def secret_of_def validate_target_secret)

subsection \<open>The invariant\<close>

text \<open>A secret file the service may read: the one of the deployment file, or one it wrote itself.\<close>

definition known_secret :: "operations_env \<Rightarrow> service \<Rightarrow> pystr option \<Rightarrow> bool" where
  "known_secret env s f \<longleftrightarrow> (truthy f \<longrightarrow> f = secret_of (op_fallback env) \<or> (\<exists>name \<in> set (dkeys (sx_files s)). f = Some name))"

definition confined :: "operations_env \<Rightarrow> service \<Rightarrow> deployment \<Rightarrow> bool" where
  "confined env s d \<longleftrightarrow> same_trust d (op_fallback env) \<and> known_secret env s (secret_of d)"

text \<open>A saved connection: as the deployment file, but that a null claim name became the default.\<close>

definition saved_confined :: "operations_env \<Rightarrow> service \<Rightarrow> deployment \<Rightarrow> bool" where
  "saved_confined env s d \<longleftrightarrow> same_trust d (redumped (op_fallback env)) \<and> known_secret env s (secret_of d)"

lemma redumped_secret [simp]: "secret_of (redumped d) = secret_of d"
  by (simp add: secret_of_def)

lemma redumped_confined: "confined env s d \<Longrightarrow> saved_confined env s (redumped d)"
  by (simp add: confined_def saved_confined_def same_trust_def)

definition revisions_ok :: "settings \<Rightarrow> bool" where
  "revisions_ok x \<longleftrightarrow> length (st_history x) \<le> 10 \<and> sorted_wrt (<) (map st_revision (st_history x)) \<and>
     (\<forall>h \<in> set (st_history x). st_revision h \<le> st_version x) \<and>
     (case st_pending x of
        Some p \<Rightarrow> st_revision p = st_version x + 1
      | None \<Rightarrow> (\<forall>h \<in> set (st_history x). st_revision h < st_version x) \<and>
          (case st_active x of None \<Rightarrow> st_history x = [] | Some a \<Rightarrow> st_revision a = st_version x))"

definition settings_inv :: "operations_env \<Rightarrow> service \<Rightarrow> bool" where
  "settings_inv env s \<longleftrightarrow> confined env s (sx_deployment s) \<and>
     (\<forall>x \<in> set (saved_items (saved_state s)). saved_confined env s (st_config x)) \<and> revisions_ok (saved_state s)"

text \<open>The deployment file is one that validation leaves alone.\<close>

definition file_settled :: "operations_env \<Rightarrow> bool" where
  "file_settled env \<longleftrightarrow> validate_gateway_auth (op_url env) (dp_gateway_auth (op_fallback env)) = Inr (dp_gateway_auth (op_fallback env))"

lemma sorted_last_ten: "sorted_wrt P xs \<Longrightarrow> sorted_wrt P (last_ten xs)"
  by (simp add: last_ten_def sorted_wrt_drop)

lemma set_last_ten: "set (last_ten xs) \<subseteq> set xs"
  by (simp add: last_ten_def set_drop_subset)

lemma length_last_ten: "length (last_ten xs) \<le> 10"
  by (simp add: last_ten_def)

lemma map_last_ten: "map f (last_ten xs) = last_ten (map f xs)"
  by (simp add: last_ten_def drop_map)

text \<open>The configuration that was replaced has a revision of its own.\<close>

lemma previous_revision:
  assumes "previous_connection x s = Inr p" and "revisions_ok x"
  shows "st_revision p \<le> st_version x + 1 \<and> (\<forall>h \<in> set (st_history x). st_revision h < st_revision p)"
  using assms
  by (fastforce simp: previous_connection_def revisions_ok_def rbind_Inr_iff split: option.splits)

lemma staged_revisions:
  assumes "revisions_ok x" and "previous_connection x s = Inr p"
  shows "revisions_ok (staged x p c)"
proof -
  note p = previous_revision [OF assms(2,1)]
  have "sorted_wrt (<) (map st_revision (st_history x @ [p]))"
    using assms(1) p by (simp add: revisions_ok_def sorted_wrt_append)
  then have "sorted_wrt (<) (map st_revision (last_ten (st_history x @ [p])))"
    by (simp only: map_last_ten sorted_last_ten)
  moreover have "\<forall>h \<in> set (last_ten (st_history x @ [p])). st_revision h \<le> st_version x + 1"
    using p assms(1) set_last_ten by (fastforce simp: revisions_ok_def)
  ultimately show ?thesis
    unfolding revisions_ok_def staged_def Let_def by (simp add: length_last_ten)
qed

lemma confined_more:
  "confined env s d \<Longrightarrow> set (dkeys (sx_files s)) \<subseteq> set (dkeys (sx_files s')) \<Longrightarrow> confined env s' d"
  unfolding confined_def known_secret_def by blast

lemma saved_confined_more:
  "saved_confined env s d \<Longrightarrow> set (dkeys (sx_files s)) \<subseteq> set (dkeys (sx_files s')) \<Longrightarrow> saved_confined env s' d"
  unfolding saved_confined_def known_secret_def by blast

lemma confined_dset:
  "confined env s d \<Longrightarrow> confined env (s\<lparr>sx_files := dset name w (sx_files s)\<rparr>) d"
  "saved_confined env s d \<Longrightarrow> saved_confined env (s\<lparr>sx_files := dset name w (sx_files s)\<rparr>) d"
  by (erule confined_more saved_confined_more, simp add: AList.dom_update subset_insertI)+

lemma staged_items:
  "set (saved_items (staged x p c)) \<subseteq>
     insert p (insert \<lparr>st_revision = st_version x + 2, st_config = redumped c, st_policy = None\<rparr> (set (saved_items x)))"
  using set_last_ten [of "st_history x @ [p]"]
  by (auto simp: saved_items_def staged_def Let_def split: option.splits)

lemma candidate_confined:
  assumes "candidate env d t s = Inr c" and inv: "settings_inv env s"
  shows "same_trust c (op_fallback env)" "t = None \<Longrightarrow> known_secret env s (secret_of c)"
proof -
  have trust: "same_trust c (sx_deployment s)"
    using assms(1) by (auto simp: candidate_def split: option.splits sum.splits if_splits)
  then show "same_trust c (op_fallback env)" using inv by (simp add: settings_inv_def confined_def same_trust_def)
  have known: "known_secret env s (secret_of (sx_deployment s))"
    "x \<in> set (saved_items (saved_state s)) \<Longrightarrow> known_secret env s (secret_of (st_config x))" for x
    using inv by (auto simp: settings_inv_def confined_def saved_confined_def)
  show "known_secret env s (secret_of c)" if "t = None"
  proof (cases "truthy (secret_of c)")
    case True
    then have "secret_of c \<in> set (secret_of (sx_deployment s) # map (\<lambda>x. secret_of (st_config x)) (saved_items (saved_state s)))"
      using assms(1) that by (auto simp: candidate_def split: option.splits sum.splits if_splits)
    then show ?thesis using known by auto
  qed (simp add: known_secret_def)
qed

lemma previous_confined:
  assumes "previous_connection x s = Inr p" and "x = saved_state s" and "settings_inv env s"
  shows "saved_confined env s (st_config p)"
  using assms redumped_confined
  by (auto simp: previous_connection_def settings_inv_def saved_items_def rbind_Inr_iff split: option.splits)

text \<open>What \<open>stage\<close> leaves behind.\<close>

lemma stage_cases:
  assumes "stage_connection env v d t name s = (r, s')"
  shows "(s' = s \<or> (\<exists>w. s' = s\<lparr>sx_files := dset name w (sx_files s)\<rparr>)) \<and> (\<exists>e. r = Inl e) \<or>
    (\<exists>c c' files previous audit. v = st_version (saved_state s) \<and> candidate env d t s = Inr c \<and> r = Inr () \<and>
       previous_connection (saved_state s) s = Inr previous \<and>
       (t = None \<and> c' = c \<and> files = sx_files s \<or>
        (\<exists>w. t = Some w \<and> files = dset name w (sx_files s) \<and>
          c' = c\<lparr>dp_target_auth := (dp_target_auth c)\<lparr>ta_secret_file := Some name\<rparr>\<rparr>)) \<and>
       s' = s\<lparr>sx_files := files, sx_settings := Some (staged (saved_state s) previous c'), sx_audit := audit\<rparr>)"
proof -
  have same: "previous_connection x (s\<lparr>sx_files := f\<rparr>) = previous_connection x s" for x f
    by (simp add: previous_connection_def current_policy_def split: option.splits)
  show ?thesis
    using assms
    by (auto simp: stage_connection_def seq_app gets_def raise_def lift_result_def ret_def modify_def write_secret_def set_state_def
        audit_line_def same split: if_splits sum.splits option.splits)
qed

lemma stage_keeps:
  assumes "stage_connection env v d t name s = (r, s')" and inv: "settings_inv env s"
  shows "settings_inv env s' \<and> st_version (saved_state s) \<le> st_version (saved_state s')"
  using stage_cases [OF assms(1)]
proof
  assume "(s' = s \<or> (\<exists>w. s' = s\<lparr>sx_files := dset name w (sx_files s)\<rparr>)) \<and> (\<exists>e. r = Inl e)"
  then show ?thesis using inv confined_dset
    by (auto simp: settings_inv_def saved_state_def)
next
  assume "\<exists>c c' files previous audit. v = st_version (saved_state s) \<and> candidate env d t s = Inr c \<and> r = Inr () \<and>
       previous_connection (saved_state s) s = Inr previous \<and>
       (t = None \<and> c' = c \<and> files = sx_files s \<or>
        (\<exists>w. t = Some w \<and> files = dset name w (sx_files s) \<and>
          c' = c\<lparr>dp_target_auth := (dp_target_auth c)\<lparr>ta_secret_file := Some name\<rparr>\<rparr>)) \<and>
       s' = s\<lparr>sx_files := files, sx_settings := Some (staged (saved_state s) previous c'), sx_audit := audit\<rparr>"
  then obtain c c' files p audit where st: "candidate env d t s = Inr c" "previous_connection (saved_state s) s = Inr p"
      "t = None \<and> c' = c \<and> files = sx_files s \<or>
       (\<exists>w. t = Some w \<and> files = dset name w (sx_files s) \<and>
          c' = c\<lparr>dp_target_auth := (dp_target_auth c)\<lparr>ta_secret_file := Some name\<rparr>\<rparr>)"
      "s' = s\<lparr>sx_files := files, sx_settings := Some (staged (saved_state s) p c'), sx_audit := audit\<rparr>"
    by blast
  have grown: "set (dkeys (sx_files s)) \<subseteq> set (dkeys (sx_files s'))"
    using st(3) by (elim disjE exE conjE) (simp_all add: st(4) AList.dom_update subset_insertI)
  note more = confined_more [OF _ grown] saved_confined_more [OF _ grown]
  have new: "confined env s' c'"
    using st(3)
  proof
    assume "t = None \<and> c' = c \<and> files = sx_files s"
    then show ?thesis using candidate_confined [OF st(1) inv] more(1) by (simp add: confined_def)
  next
    assume "\<exists>w. t = Some w \<and> files = dset name w (sx_files s) \<and>
          c' = c\<lparr>dp_target_auth := (dp_target_auth c)\<lparr>ta_secret_file := Some name\<rparr>\<rparr>"
    then have c': "c' = c\<lparr>dp_target_auth := (dp_target_auth c)\<lparr>ta_secret_file := Some name\<rparr>\<rparr>"
        "name \<in> set (dkeys (sx_files s'))"
      by ((elim exE conjE, simp add: st(4) AList.dom_update)+)
    then have "known_secret env s' (Some name)" unfolding known_secret_def by blast
    then show ?thesis using candidate_confined(1) [OF st(1) inv]
      by (simp add: c'(1) confined_def same_trust_def secret_of_def)
  qed
  have state: "saved_state s' = staged (saved_state s) p c'" "sx_deployment s' = sx_deployment s"
    by (simp_all add: st(4) saved_state_def)
  have "\<forall>x \<in> set (saved_items (saved_state s')). saved_confined env s' (st_config x)"
    using staged_items [of "saved_state s" p c'] inv redumped_confined [OF new] more(2) previous_confined [OF st(2) refl inv]
    unfolding state by (fastforce simp: settings_inv_def)
  moreover have "revisions_ok (saved_state s')"
    using inv staged_revisions [OF _ st(2)] by (simp add: state settings_inv_def)
  ultimately show ?thesis
    using inv more(1) by (simp add: settings_inv_def state staged_def Let_def)
qed

lemma policy_keeps:
  assumes "keep_policy env item s = (r, s')" and inv: "settings_inv env s"
  shows "settings_inv env s' \<and> st_version (saved_state s') = st_version (saved_state s)"
proof (cases "s' = s")
  case False
  then obtain p where s': "s' = s\<lparr>sx_settings := Some ((saved_state s)\<lparr>st_pending :=
      map_option (\<lambda>y. y\<lparr>st_policy := Some p\<rparr>) (st_pending (saved_state s))\<rparr>)\<rparr>"
    using assms(1)
    by (auto simp: keep_policy_def seq_app gets_def set_state_def ret_def split: option.splits if_splits)
  have same: "confined env s' d = confined env s d" "saved_confined env s' d = saved_confined env s d" for d
    by (simp_all add: confined_def saved_confined_def known_secret_def s')
  have "settings_inv env s'"
    using inv unfolding settings_inv_def same
    by (auto simp: s' saved_state_def saved_items_def revisions_ok_def split: option.splits)
  then show ?thesis by (simp add: s' saved_state_def)
qed (use inv in simp)

lemma restore_keeps:
  assumes "restore env v n name s = (r, s')" and inv: "settings_inv env s"
  shows "settings_inv env s' \<and> st_version (saved_state s) \<le> st_version (saved_state s')"
proof (cases "s' = s")
  case False
  then obtain item where item: "seq (stage_connection env v (Some (st_config item)) None name) (\<lambda>_. keep_policy env item) s = (r, s')"
    using assms(1) by (auto simp: restore_def seq_app gets_def raise_def split: option.splits if_splits)
  obtain q b where q: "stage_connection env v (Some (st_config item)) None name s = (q, b)" by fastforce
  note staged = stage_keeps [OF q inv]
  show ?thesis
  proof (cases q)
    case (Inl e)
    then show ?thesis using item q staged by (simp add: seq_app)
  next
    case (Inr u)
    then have "keep_policy env item b = (r, s')" using item q by (simp add: seq_app)
    then show ?thesis using policy_keeps staged by fastforce
  qed
qed (use inv in simp)

lemma activate_cases:
  assumes "activate env s = (r, s')"
  shows "s' = s \<or> (\<exists>p. st_pending (saved_state s) = Some p \<and>
    sx_settings s' = Some ((saved_state s)\<lparr>st_active := Some p, st_pending := None,
        st_version := st_version (saved_state s) + 1\<rparr>) \<and> sx_files s' = sx_files s \<and> sx_deployment s' = sx_deployment s)"
  using assms
  by (auto simp: activate_def seq_app gets_def raise_def lift_result_def ret_def audit_line_def
      split: option.splits if_splits sum.splits)

lemma activate_keeps:
  assumes "activate env s = (r, s')" and inv: "settings_inv env s"
  shows "settings_inv env s' \<and> st_version (saved_state s) \<le> st_version (saved_state s')"
proof (cases "s' = s")
  case False
  then obtain p where p: "st_pending (saved_state s) = Some p"
      "sx_settings s' = Some ((saved_state s)\<lparr>st_active := Some p, st_pending := None,
        st_version := st_version (saved_state s) + 1\<rparr>)" "sx_files s' = sx_files s" "sx_deployment s' = sx_deployment s"
    using activate_cases [OF assms(1)] by blast
  have same: "confined env s' d = confined env s d" "saved_confined env s' d = saved_confined env s d" for d
    by (simp_all add: confined_def saved_confined_def known_secret_def p(3))
  have state: "saved_state s' = (saved_state s)\<lparr>st_active := Some p, st_pending := None,
        st_version := st_version (saved_state s) + 1\<rparr>" "sx_deployment s' = sx_deployment s"
    using p(4) by (simp_all add: p(2) saved_state_def [of s'])
  have rev: "revisions_ok (saved_state s)" using inv by (simp add: settings_inv_def)
  then have "revisions_ok (saved_state s')"
    by (auto simp: state revisions_ok_def p(1) less_Suc_eq_le)
  moreover have "set (saved_items (saved_state s')) \<subseteq> set (saved_items (saved_state s))"
    by (auto simp: state saved_items_def p(1))
  ultimately show ?thesis
    using inv unfolding settings_inv_def same state(2) by (auto simp: state(1))
qed (use inv in simp)

lemma active_confined:
  assumes "active_config env s = Inr d" and "settings_inv env s" and "file_settled env"
  shows "confined env s d"
proof (cases "st_active (saved_state s)")
  case None
  then have "d = op_fallback env" using assms(1) by (simp add: active_config_def)
  then show ?thesis by (simp add: confined_def same_trust_def known_secret_def)
next
  case (Some a)
  note v = validate_deployment_fields [of "op_url env" _ d]
  have "known_secret env s (secret_of (st_config a))"
    using assms(2) Some by (auto simp: settings_inv_def saved_items_def saved_confined_def)
  then show ?thesis
    using assms(1,3) Some v
    by (fastforce simp: active_config_def confined_def same_trust_def file_settled_def secret_of_def)
qed

text \<open>The deployment that an activation hands over, to be published.\<close>

lemma activated_confined:
  assumes "activate env s = (Inr d, s')" and "settings_inv env s"
  shows "saved_confined env s d"
proof -
  obtain p where p: "st_pending (saved_state s) = Some p" "validate_deployment (op_url env) (st_config p) = Inr d"
    using assms(1) by (auto simp: activate_def seq_app gets_def raise_def lift_result_def ret_def audit_line_def
        split: option.splits if_splits sum.splits)
  have "saved_confined env s (st_config p)" using assms(2) p(1) by (simp add: settings_inv_def saved_items_def)
  then show ?thesis
    using validate_deployment_fields [OF p(2)] validate_gateway_auth_same
    by (auto simp: saved_confined_def same_trust_def)
qed

lemma start_keeps:
  assumes "start_service env s = (r, s')" and "settings_inv env s" and "file_settled env"
  shows "settings_inv env s' \<and> saved_state s' = saved_state s"
proof (cases "active_config env s")
  case (Inr d)
  then have s': "s' = s\<lparr>sx_deployment := d\<rparr>" using assms(1) by (simp add: start_service_def)
  have same: "confined env s' x = confined env s x" "saved_confined env s' x = saved_confined env s x" for x
    by (simp_all add: confined_def saved_confined_def known_secret_def s')
  show ?thesis
    using assms(2) active_confined [OF Inr assms(2,3)] unfolding settings_inv_def same
    by (simp add: s' saved_state_def)
qed (use assms in \<open>simp add: start_service_def\<close>)

lemma settings_step_keeps:
  assumes "settings_inv env s" and "file_settled env"
  shows "settings_inv env (settings_step env s e) \<and> st_version (saved_state s) \<le> st_version (saved_state (settings_step env s e))"
proof (cases e)
  case (Stage_settings v d t name)
  then show ?thesis using stage_keeps [OF prod.collapse [symmetric] assms(1)] by simp
next
  case (Restore_settings v n name)
  then show ?thesis using restore_keeps [OF prod.collapse [symmetric] assms(1)] by simp
next
  case Activate_settings
  then show ?thesis using activate_keeps [OF prod.collapse [symmetric] assms(1)] by simp
next
  case Start_service
  then show ?thesis using start_keeps [OF prod.collapse [symmetric] assms] by simp
qed

interpretation settings_run: step_invariant "settings_step env" "\<lambda>s. settings_inv env s \<and> file_settled env" for env
  by unfold_locales (use settings_step_keeps in blast)

lemma stale_refused:
  assumes "v \<noteq> st_version (saved_state s)"
  shows "stage_connection env v d t name s = (Inl (Value_error ''validation''), s) \<or>
      stage_connection env v d t name s = (Inl (Value_error ''Settings changed. Refresh before saving.''), s)"
    and "restore env v n name s = (Inl (Value_error ''Settings changed. Refresh before saving.''), s)"
  using assms by (simp_all add: stage_connection_def restore_def seq_app gets_def raise_def)

subsection \<open>The claim\<close>

definition new_service :: "deployment \<Rightarrow> policy option \<Rightarrow> service" where
  "new_service d p = \<lparr>sx_settings = None, sx_policy = p, sx_files = [], sx_audit = [], sx_deployment = d\<rparr>"

text \<open>C40: whatever operators stage, restore and activate, in any order and with restarts in between, as long as the
  deployment file is not edited: the origin of the console, the authentication of callers and the broker's deployment
  stay those of that file in the running service and in the configuration it starts with; in every saved connection, and in
  the one an activation hands over to be published, they are those of the file but that a claim name which is null there has its default
  again (\<open>redumped\<close>); the secret file of a target is the one of the deployment file
  or one the service wrote itself; at most ten connections are kept, each under a revision of its own; the version
  only grows, and a request with an old version changes nothing.\<close>

theorem connection_changes_confined:
  assumes "s = foldl (settings_step env) (new_service (op_fallback env) p) es" and "file_settled env"
  shows "(\<forall>d. d = sx_deployment s \<or> active_config env s = Inr d \<longrightarrow> same_trust d (op_fallback env)) \<and>
    (\<forall>d s'. d \<in> st_config ` set (saved_items (saved_state s)) \<or> activate env s = (Inr d, s') \<longrightarrow>
      same_trust d (redumped (op_fallback env))) \<and>
    (\<forall>d s'. d = sx_deployment s \<or> active_config env s = Inr d \<or> d \<in> st_config ` set (saved_items (saved_state s)) \<or>
        activate env s = (Inr d, s') \<longrightarrow> truthy (secret_of d) \<longrightarrow>
      secret_of d = secret_of (op_fallback env) \<or> (\<exists>name \<in> set (dkeys (sx_files s)). secret_of d = Some name)) \<and>
    length (st_history (saved_state s)) \<le> 10 \<and> distinct (map st_revision (st_history (saved_state s))) \<and>
    st_version (saved_state s) \<le> st_version (saved_state (settings_step env s e)) \<and>
    (\<forall>v d t n name. v \<noteq> st_version (saved_state s) \<longrightarrow>
      settings_step env s (Stage_settings v d t name) = s \<and> settings_step env s (Restore_settings v n name) = s)"
proof -
  have "settings_inv env (new_service (op_fallback env) p)"
    by (simp add: settings_inv_def new_service_def confined_def same_trust_def known_secret_def saved_state_def no_settings_def
        saved_items_def revisions_ok_def)
  then have inv: "settings_inv env s"
    using settings_run.run_keeps [of env "new_service (op_fallback env) p" es] assms by blast
  have running: "confined env s d" if "d = sx_deployment s \<or> active_config env s = Inr d" for d
    using that inv active_confined [OF _ inv assms(2)] by (auto simp: settings_inv_def)
  have saved: "saved_confined env s d"
    if "d \<in> st_config ` set (saved_items (saved_state s)) \<or> activate env s = (Inr d, s')" for d s'
    using that inv activated_confined [OF _ inv] by (auto simp: settings_inv_def)
  have "distinct (map st_revision (st_history (saved_state s)))" "length (st_history (saved_state s)) \<le> 10"
    using inv strict_sorted_iff by (auto simp: settings_inv_def revisions_ok_def)
  moreover have "settings_step env s (Stage_settings v d t name) = s \<and> settings_step env s (Restore_settings v n name) = s"
    if "v \<noteq> st_version (saved_state s)" for v d t n name
    using stale_refused [OF that] by (metis settings_step.simps(1,2) snd_conv)
  ultimately show ?thesis
    using settings_step_keeps [OF inv assms(2), of e] running saved
    unfolding confined_def saved_confined_def known_secret_def by blast
qed

text \<open>A file that names a claim as null: what was saved from it can never be restored, as the code compares the
  authentication of the saved connection with that of the running service.\<close>

lemma null_claim_not_restored:
  assumes "settings_inv env s" and "redumped_auth (dp_gateway_auth (op_fallback env)) \<noteq> dp_gateway_auth (op_fallback env)"
    and "history_item n (saved_state s) = Some item"
  shows "restore env (st_version (saved_state s)) n name s = (Inl invalid_settings, s)"
proof -
  have "item \<in> set (rev (st_history (saved_state s)))"
    using assms(3) unfolding history_item_def find_Some_iff by (metis nth_mem)
  then have "item \<in> set (saved_items (saved_state s))" by (simp add: saved_items_def)
  then have "dp_gateway_auth (st_config item) = redumped_auth (dp_gateway_auth (op_fallback env))"
      "dp_gateway_auth (sx_deployment s) = dp_gateway_auth (op_fallback env)"
    using assms(1) by (auto simp: settings_inv_def saved_confined_def confined_def same_trust_def)
  then have "candidate env (Some (st_config item)) None s = Inl invalid_settings"
    using assms(2) validate_deployment_fields(4) validate_gateway_auth_same
    by (fastforce simp: candidate_def same_trust_def split: sum.splits)
  then show ?thesis
    using assms(3) by (simp add: restore_def stage_connection_def seq_app gets_def raise_def lift_result_def secret_length_ok_def)
qed

definition demo_operations :: operations_env where
  "demo_operations = \<lparr>op_url = demo_site_urls, op_db_ok = True, op_secret_ok = (\<lambda>_. True), op_fallback = demo_site\<rparr>"

theorem connection_changes_confined_witness:
  "\<exists>s. s = foldl (settings_step demo_operations) (new_service demo_site (Some demo_policy))
      [Stage_settings 0 (Some demo_site) None [], Activate_settings, Start_service] \<and>
    st_version (saved_state s) = 2 \<and> same_trust (sx_deployment s) demo_site \<and> distinct (map st_revision (st_history (saved_state s)))"
proof -
  have settled: "file_settled demo_operations"
    using demo_site_valid validate_deployment_fields(4) [OF demo_site_valid] by (simp add: file_settled_def demo_operations_def)
  have kept: "redumped demo_site = demo_site" by (simp add: redumped_def demo_site_def)
  have no_secret: "secret_of demo_site = None" by (simp add: secret_of_def demo_site_def)
  have same: "same_trust demo_site demo_site"
    "demo_site\<lparr>dp_console_origin := dp_console_origin demo_site, dp_gateway_auth := dp_gateway_auth demo_site,
       dp_access_broker := dp_access_broker demo_site\<rparr> = demo_site"
    by (simp_all add: same_trust_def)
  define s where "s = foldl (settings_step demo_operations) (new_service demo_site (Some demo_policy))
      [Stage_settings 0 (Some demo_site) None [], Activate_settings, Start_service]"
  have "st_version (saved_state s) = 2"
    by (simp add: s_def stage_connection_def seq_app gets_def lift_result_def ret_def write_secret_def set_state_def audit_line_def raise_def
        demo_operations_def new_service_def saved_state_def no_settings_def candidate_def demo_site_valid same no_secret
        truthy_def previous_connection_def current_policy_def staged_def Let_def activate_def active_config_def
        activated_policy_def start_service_def secret_length_ok_def kept)
  moreover have fb: "op_fallback demo_operations = demo_site" by (simp add: demo_operations_def)
  moreover have "same_trust (sx_deployment s) demo_site \<and> distinct (map st_revision (st_history (saved_state s)))"
    using connection_changes_confined [of s demo_operations "Some demo_policy", unfolded fb, OF s_def settled] by blast
  ultimately show ?thesis using s_def by blast
qed

end
