(* ===== verification/Network.thy ===== *)
theory Network
  imports Supervision Snapshot
begin

text \<open>
  The listener of the local console: \<open>NetworkConfig\<close> and \<open>NetworkManager\<close> of \<open>console/network.py\<close>,
  \<open>WorkerManager\<close> of \<open>console/workers.py\<close> and \<open>inspector_control\<close> of \<open>console/runtime.py\<close>.

  Docker is an argument: whether its n-th command succeeds, and whether the n-th listener that was started
  answers with its version within the forty probes.  Of the host there is the one container with the
  name of this installation.
\<close>

subsection \<open>The configuration\<close>

record network_config =
  nc_version :: int
  nc_port :: int
  nc_timeout :: int
  nc_max_body :: int

definition default_network :: network_config where
  "default_network = \<lparr>nc_version = 1, nc_port = 18082, nc_timeout = 5, nc_max_body = 1048576\<rparr>"

definition reserved_ports :: "int list" where
  "reserved_ports = [5176, 5186, 8181, 8191, 18081, 18090, 18101, 18102, 18103, 18104, 18111, 18112, 18113, 18114]"

definition network_ok :: "network_config \<Rightarrow> bool" where
  "network_ok c \<longleftrightarrow> 1 \<le> nc_version c \<and> 1024 \<le> nc_port c \<and> nc_port c \<le> 65535 \<and> 2 \<le> nc_timeout c \<and> nc_timeout c \<le> 30 \<and>
     1024 \<le> nc_max_body c \<and> nc_max_body c \<le> 1048576 \<and> nc_port c \<notin> set reserved_ports"

text \<open>The arguments \<open>render\<close> gives to the renderer of the pool; the defaults of its parser are the rest.\<close>

definition network_pool_args :: "nat \<Rightarrow> network_config \<Rightarrow> pool_args" where
  "network_pool_args replicas c = \<lparr>pa_replicas = replicas, pa_grpc_base = 18101, pa_health_base = 18111, pa_proxy_port = nc_port c,
     pa_upstream_address = uni ''127.0.0.1'', pa_upstream_port = 18090, pa_max_restarts = 3\<rparr>"

subsection \<open>The host\<close>

record host =
  hs_container :: "(bool \<times> network_config) option"   \<comment> \<open>labelled as ours, its configuration\<close>
  hs_stored :: network_config
  hs_replicas :: nat
  hs_last_error :: string
  hs_audit :: "string list"
  hs_commands :: nat
  hs_launches :: nat

record docker_env =
  dk_ok :: "nat \<Rightarrow> bool"
  dk_ready :: "nat \<Rightarrow> bool"
  dk_store_ok :: bool

definition docker_failed :: exn where
  "docker_failed = Value_error ''Envoy Docker operation failed; previous configuration is retained when possible''"

definition docker :: "docker_env \<Rightarrow> (host, bool) act" where
  "docker env h = (Inr (dk_ok env (hs_commands h)), h\<lparr>hs_commands := hs_commands h + 1\<rparr>)"

definition command :: "docker_env \<Rightarrow> (host, unit) act" where
  "command env = seq (docker env) (\<lambda>ok. if ok then ret () else raise docker_failed)"

definition host_audit :: "docker_env \<Rightarrow> string \<Rightarrow> (host, unit) act" where
  "host_audit env l h = (if dk_store_ok env then (Inr (), h\<lparr>hs_audit := hs_audit h @ [l]\<rparr>) else (Inl Failure, h))"

text \<open>\<open>validate\<close>: the model, the rendering and Envoy's own check.\<close>

definition validate_network :: "docker_env \<Rightarrow> network_config \<Rightarrow> (host, network_config) act" where
  "validate_network env c h =
     (if \<not> network_ok c then (Inl (Value_error ''validation''), h)
      else case port_sets (network_pool_args (hs_replicas h) c) of
        Inl e \<Rightarrow> (Inl e, h)
      | Inr ps \<Rightarrow> seq (command env) (\<lambda>_. ret c) h)"

text \<open>A container that cannot be inspected counts as absent.\<close>

definition stop_listener :: "docker_env \<Rightarrow> (host, unit) act" where
  "stop_listener env =
     seq (docker env) (\<lambda>found h.
       case hs_container h of
         None \<Rightarrow> (Inr (), h)
       | Some (ours, c) \<Rightarrow>
           if \<not> found then (Inr (), h)
           else if \<not> ours then (Inl (Value_error ''Container name belongs to another installation''), h)
           else seq (command env) (\<lambda>_. modify (\<lambda>h. h\<lparr>hs_container := None\<rparr>)) h)"

definition launch :: "docker_env \<Rightarrow> network_config \<Rightarrow> (host, unit) act" where
  "launch env c =
     seq (docker env) (\<lambda>ok h.
       if \<not> ok \<or> hs_container h \<noteq> None then (Inl docker_failed, h)
       else
         (if dk_ready env (hs_launches h) then Inr () else Inl (Value_error ''New Envoy listener did not become ready''),
          h\<lparr>hs_container := Some (True, c), hs_launches := hs_launches h + 1\<rparr>))"

text \<open>\<open>except Exception\<close> around an operation.\<close>

definition rescue :: "(host, 'a) act \<Rightarrow> (exn \<Rightarrow> (host, 'a) act) \<Rightarrow> (host, 'a) act" where
  "rescue m f h = (case m h of (Inl e, h') \<Rightarrow> f e h' | (Inr x, h') \<Rightarrow> (Inr x, h'))"

definition start_network :: "docker_env \<Rightarrow> (host, unit) act" where
  "start_network env =
     seq (gets hs_stored) (\<lambda>stored.
     seq (validate_network env stored) (\<lambda>c.
     seq (stop_listener env) (\<lambda>_.
       rescue (launch env c) (\<lambda>e. seq (stop_listener env) (\<lambda>_. raise e)))))"

definition fail_with :: "docker_env \<Rightarrow> string \<Rightarrow> string \<Rightarrow> (host, unit) act" where
  "fail_with env event m =
     seq (modify (\<lambda>h. h\<lparr>hs_last_error := m\<rparr>)) (\<lambda>_. seq (host_audit env event) (\<lambda>_. raise (Value_error m)))"

definition roll_back :: "docker_env \<Rightarrow> network_config \<Rightarrow> (host, unit) act" where
  "roll_back env previous =
     seq (stop_listener env) (\<lambda>_.
     seq (rescue (launch env previous)
         (\<lambda>e. fail_with env ''network.rollback_failed'' ''Apply failed and rollback listener is unavailable'')) (\<lambda>_.
       fail_with env ''network.rolled_back'' ''Apply failed; previous listener restored''))"

definition install :: "docker_env \<Rightarrow> network_config \<Rightarrow> (host, unit) act" where
  "install env c =
     seq (launch env c) (\<lambda>_ h. if dk_store_ok env then (Inr (), h\<lparr>hs_stored := c\<rparr>) else (Inl Failure, h))"

definition apply_network :: "docker_env \<Rightarrow> network_config \<Rightarrow> (host, unit) act" where
  "apply_network env draft =
     seq (gets hs_stored) (\<lambda>previous.
       if \<not> network_ok draft then raise (Value_error ''validation'')
       else if nc_version draft \<noteq> nc_version previous
       then raise (Value_error ''Network configuration changed; refresh before applying'')
       else
         seq (validate_network env (draft\<lparr>nc_version := nc_version previous + 1\<rparr>)) (\<lambda>c.
         seq (host_audit env ''network.applying'') (\<lambda>_.
         seq (stop_listener env) (\<lambda>_.
         seq (rescue (install env c) (\<lambda>e. roll_back env previous)) (\<lambda>_.
         seq (modify (\<lambda>h. h\<lparr>hs_last_error := []\<rparr>)) (\<lambda>_. host_audit env ''network.applied''))))))"

subsection \<open>The inspector processes\<close>

text \<open>\<open>status\<close>: what the supervisor wrote counts only while it lives and writes.\<close>

definition workers_status :: "bool \<Rightarrow> (json option \<times> bool \<times> rat) option \<Rightarrow> string \<times> bool" where
  "workers_status running report =
     (case report of
        None \<Rightarrow> (if running then ''starting'' else ''failed'', False)
      | Some (state, same_pid, age) \<Rightarrow>
          let s = (if \<not> running \<or> \<not> same_pid then ''failed'' else if 10 < age then ''unresponsive''
            else case state of Some (JStr t) \<Rightarrow> map char_of t | _ \<Rightarrow> []) in
          (s, s = ''failed'' \<or> s = ''unresponsive''))"

text \<open>Whether the pool of the n-th start became ready is an argument; \<open>Some n\<close>: n processes run.\<close>

record inspectors =
  ip_host :: host
  ip_running :: "nat option"
  ip_saved :: nat
  ip_starts :: nat
  ip_log :: "string list"

definition start_workers_of :: "(nat \<Rightarrow> bool) \<Rightarrow> nat \<Rightarrow> (inspectors, unit) act" where
  "start_workers_of pool_ready n s =
     (if ip_running s \<noteq> None then (Inl (Value_error ''Inspector pool is already running''), s)
      else if pool_ready (ip_starts s) then (Inr (), s\<lparr>ip_running := Some n, ip_starts := ip_starts s + 1\<rparr>)
      else (Inl (Value_error ''Inspector pool did not become ready''), s\<lparr>ip_starts := ip_starts s + 1\<rparr>))"

definition stop_workers :: "(inspectors, unit) act" where
  "stop_workers = modify (\<lambda>s. s\<lparr>ip_running := None\<rparr>)"

definition on_host :: "(host, 'a) act \<Rightarrow> (inspectors, 'a) act" where
  "on_host m s = (case m (ip_host s) of (r, h) \<Rightarrow> (r, s\<lparr>ip_host := h\<rparr>))"

definition log_line :: "docker_env \<Rightarrow> string \<Rightarrow> (inspectors, unit) act" where
  "log_line env l s = (if dk_store_ok env then (Inr (), s\<lparr>ip_log := ip_log s @ [l]\<rparr>) else (Inl Failure, s))"

definition rescued :: "(inspectors, 'a) act \<Rightarrow> (exn \<Rightarrow> (inspectors, 'a) act) \<Rightarrow> (inspectors, 'a) act" where
  "rescued m f s = (case m s of (Inl e, s') \<Rightarrow> f e s' | (Inr x, s') \<Rightarrow> (Inr x, s'))"

definition bring_up :: "docker_env \<Rightarrow> (nat \<Rightarrow> bool) \<Rightarrow> nat \<Rightarrow> (inspectors, unit) act" where
  "bring_up env pool_ready n =
     seq (start_workers_of pool_ready n) (\<lambda>_.
     seq (modify (\<lambda>s. s\<lparr>ip_host := (ip_host s)\<lparr>hs_replicas := n\<rparr>\<rparr>)) (\<lambda>_. on_host (start_network env)))"

definition change_replicas :: "docker_env \<Rightarrow> (nat \<Rightarrow> bool) \<Rightarrow> nat \<Rightarrow> (inspectors, unit) act" where
  "change_replicas env pool_ready n =
     seq (gets ip_saved) (\<lambda>previous.
     seq (log_line env ''inspectors.applying'') (\<lambda>_.
     seq stop_workers (\<lambda>_.
       rescued (seq (bring_up env pool_ready n) (\<lambda>_ s. if dk_store_ok env then (Inr (), s\<lparr>ip_saved := n\<rparr>) else (Inl Failure, s)))
         (\<lambda>e. seq stop_workers (\<lambda>_.
           seq (modify (\<lambda>s. s\<lparr>ip_host := (ip_host s)\<lparr>hs_replicas := previous\<rparr>\<rparr>)) (\<lambda>_.
           seq (rescued (seq (start_workers_of pool_ready previous) (\<lambda>_.
                 seq (on_host (start_network env)) (\<lambda>_. log_line env ''inspectors.rolled_back'')))
               (\<lambda>e'. seq stop_workers (\<lambda>_. log_line env ''inspectors.rollback_failed''))) (\<lambda>_. raise e)))))))"

definition inspector_control :: "docker_env \<Rightarrow> (nat \<Rightarrow> bool) \<Rightarrow> nat option \<Rightarrow> (inspectors, unit) act" where
  "inspector_control env pool_ready action =
     (case action of
        None \<Rightarrow> seq stop_workers (\<lambda>_. log_line env ''inspectors.stop'')
      | Some n \<Rightarrow> seq (change_replicas env pool_ready n) (\<lambda>_. log_line env ''inspectors.apply''))"

end
