(* ===== verification/Network_Facts.thy ===== *)
theory Network_Facts
  imports Network
begin

text \<open>
  Replacing the listener: what is stored changes only when the new listener runs, and with a Docker that
  answers what runs is what is stored, whatever listener does not become ready.
\<close>

subsection \<open>Stopping and launching\<close>

definition settled :: "host \<Rightarrow> bool" where
  "settled h \<longleftrightarrow> (case hs_container h of None \<Rightarrow> True | Some (ours, c) \<Rightarrow> ours \<longrightarrow> c = hs_stored h)"

lemma docker_app: "docker env h = (Inr (dk_ok env (hs_commands h)), h\<lparr>hs_commands := hs_commands h + 1\<rparr>)"
  by (simp add: docker_def)

lemma command_cases:
  assumes "command env h = (r, h')"
  shows "(r = Inr () \<and> dk_ok env (hs_commands h) \<or> (\<exists>e. r = Inl e) \<and> \<not> dk_ok env (hs_commands h)) \<and>
    h' = h\<lparr>hs_commands := hs_commands h + 1\<rparr>"
  using assms by (auto simp: command_def seq_app docker_app ret_def raise_def split: if_splits)

lemma stop_keeps:
  assumes "stop_listener env h = (r, h')"
  shows "hs_stored h' = hs_stored h \<and> hs_replicas h' = hs_replicas h \<and> (hs_container h' = hs_container h \<or> hs_container h' = None)"
  using assms
  by (auto simp: stop_listener_def seq_app docker_app modify_def dest!: command_cases split: option.splits if_splits prod.splits sum.splits)

lemma stop_reliable:
  assumes "stop_listener env h = (r, h')" and "\<forall>n. dk_ok env n"
  shows "r = Inr () \<and> hs_container h' = None \<or> (\<exists>e c. r = Inl e \<and> hs_container h = Some (False, c) \<and> hs_container h' = hs_container h)"
  using assms
  by (auto simp: stop_listener_def seq_app docker_app modify_def dest!: command_cases split: option.splits if_splits prod.splits sum.splits)

lemma launch_cases:
  assumes "launch env c h = (r, h')"
  shows "hs_stored h' = hs_stored h \<and> hs_replicas h' = hs_replicas h \<and>
    (r = Inr () \<and> hs_container h' = Some (True, c) \<or>
     (\<exists>e. r = Inl e) \<and> (hs_container h' = hs_container h \<or> hs_container h' = Some (True, c)))"
  using assms
  by (auto simp: launch_def seq_app docker_app split: if_splits)

lemma rescue_cases:
  assumes "rescue m f h = (r, h')"
  obtains (went) x where "m h = (Inr x, h')" "r = Inr x" | (caught) e h1 where "m h = (Inl e, h1)" "f e h1 = (r, h')"
proof (cases "m h")
  case (Pair q b)
  then show ?thesis using assms went caught by (cases q) (auto simp: rescue_def)
qed

subsection \<open>Applying a configuration\<close>

lemma fail_with_result:
  assumes "fail_with env ev m h = (r, h')"
  shows "(\<exists>e. r = Inl e) \<and> hs_stored h' = hs_stored h \<and> hs_container h' = hs_container h \<and> hs_replicas h' = hs_replicas h"
  using assms by (auto simp: fail_with_def seq_app modify_def host_audit_def raise_def split: if_splits)

text \<open>The roll-back never succeeds: it only decides what is left running.\<close>

lemma roll_back_result:
  assumes "roll_back env previous h = (r, h')"
  shows "(\<exists>e. r = Inl e) \<and> hs_stored h' = hs_stored h \<and>
    (hs_container h' = hs_container h \<or> hs_container h' = None \<or> hs_container h' = Some (True, previous))"
  using assms [unfolded roll_back_def]
proof (cases rule: seq_cases)
  case (failed e)
  then show ?thesis using stop_keeps by blast
next
  case (went _ h1)
  have h1: "hs_stored h1 = hs_stored h" "hs_container h1 = hs_container h \<or> hs_container h1 = None"
    using stop_keeps [OF went(1)] by auto
  from went(2) show ?thesis
  proof (cases rule: seq_cases)
    case (failed e)
    from failed(1) show ?thesis
    proof (cases rule: rescue_cases)
      case (caught e' h2)
      then show ?thesis using h1 failed(2) launch_cases [OF caught(1)] fail_with_result [OF caught(2)] by auto
    qed simp
  next
    case (went _ h2)
    from went(1) show ?thesis
    proof (cases rule: rescue_cases)
      case (went x)
      then show ?thesis using h1 launch_cases [OF went(1)] fail_with_result [OF \<open>fail_with _ _ _ h2 = (r, h')\<close>] by auto
    next
      case (caught e' h3)
      then show ?thesis using fail_with_result by blast
    qed
  qed
qed

lemma roll_back_reliable:
  assumes "roll_back env previous h = (r, h')" and "\<forall>n. dk_ok env n" and "\<forall>c. hs_container h \<noteq> Some (False, c)"
  shows "hs_container h' = Some (True, previous)"
  using assms(1) [unfolded roll_back_def]
proof (cases rule: seq_cases)
  case (failed e)
  then show ?thesis using stop_reliable [OF _ assms(2)] assms(3) by blast
next
  case (went _ h1)
  have h1: "hs_container h1 = None" using stop_reliable [OF went(1) assms(2)] by auto
  have up: "hs_container h2 = Some (True, previous)" if "launch env previous h1 = (q, h2)" for q h2
    using that h1 assms(2) by (auto simp: launch_def seq_app docker_app split: if_splits)
  from went(2) show ?thesis
  proof (cases rule: seq_cases)
    case (failed e)
    from failed(1) show ?thesis
    proof (cases rule: rescue_cases)
      case (caught e' h2)
      then show ?thesis using up fail_with_result by metis
    qed simp
  next
    case (went _ h2)
    from went(1) show ?thesis
    proof (cases rule: rescue_cases)
      case (went x)
      then show ?thesis using up fail_with_result [OF \<open>fail_with _ _ _ h2 = (r, h')\<close>] by metis
    next
      case (caught e' h3)
      then show ?thesis using fail_with_result by blast
    qed
  qed
qed

lemma install_cases:
  assumes "install env c h = (r, h')"
  shows "r = Inr () \<and> hs_container h' = Some (True, c) \<and> hs_stored h' = c \<and> dk_store_ok env \<or>
    (\<exists>e. r = Inl e) \<and> hs_stored h' = hs_stored h \<and> (hs_container h' = hs_container h \<or> hs_container h' = Some (True, c))"
  using assms [unfolded install_def]
proof (cases rule: seq_cases)
  case (failed e)
  then show ?thesis using launch_cases by blast
next
  case (went x h1)
  then show ?thesis using launch_cases [OF went(1)] by (auto split: if_splits)
qed

lemma validate_network_cases:
  assumes "validate_network env c h = (r, h')"
  shows "hs_stored h' = hs_stored h \<and> hs_container h' = hs_container h \<and> (r = Inr c \<and> network_ok c \<or> (\<exists>e. r = Inl e))"
  using assms
  by (auto simp: validate_network_def seq_app ret_def dest!: command_cases split: if_splits sum.splits prod.splits)

definition next_config :: "network_config \<Rightarrow> host \<Rightarrow> network_config" where
  "next_config draft h = draft\<lparr>nc_version := nc_version (hs_stored h) + 1\<rparr>"

text \<open>What is left to do after the checks.\<close>

lemma apply_network_start:
  assumes "apply_network env draft h = (r, h')"
  shows "(\<exists>e. r = Inl e) \<and> hs_stored h' = hs_stored h \<and> hs_container h' = hs_container h \<or>
    (\<exists>h1. hs_stored h1 = hs_stored h \<and> hs_container h1 = hs_container h \<and> nc_version draft = nc_version (hs_stored h) \<and>
       network_ok (next_config draft h) \<and> dk_store_ok env \<and>
       seq (stop_listener env) (\<lambda>_.
         seq (rescue (install env (next_config draft h)) (\<lambda>e. roll_back env (hs_stored h))) (\<lambda>_.
         seq (modify (\<lambda>h. h\<lparr>hs_last_error := []\<rparr>)) (\<lambda>_. host_audit env ''network.applied''))) h1 = (r, h'))"
proof (cases "network_ok draft \<and> nc_version draft = nc_version (hs_stored h)")
  case False
  then show ?thesis using assms by (auto simp: apply_network_def seq_app gets_def raise_def split: if_splits)
next
  case True
  then have "seq (validate_network env (next_config draft h)) (\<lambda>c.
      seq (host_audit env ''network.applying'') (\<lambda>_.
      seq (stop_listener env) (\<lambda>_.
      seq (rescue (install env c) (\<lambda>e. roll_back env (hs_stored h))) (\<lambda>_.
      seq (modify (\<lambda>h. h\<lparr>hs_last_error := []\<rparr>)) (\<lambda>_. host_audit env ''network.applied''))))) h = (r, h')"
    using assms by (simp add: apply_network_def seq_gets next_config_def)
  then show ?thesis
  proof (cases rule: seq_cases)
    case (failed e)
    then show ?thesis using validate_network_cases by blast
  next
    case (went c h0)
    have c: "c = next_config draft h" "network_ok c" "hs_stored h0 = hs_stored h" "hs_container h0 = hs_container h"
      using validate_network_cases [OF went(1)] by auto
    from went(2) show ?thesis
    proof (cases rule: seq_cases)
      case (failed e)
      then show ?thesis using c by (auto simp: host_audit_def split: if_splits)
    next
      case (went _ h1)
      then have "hs_stored h1 = hs_stored h" "hs_container h1 = hs_container h" "dk_store_ok env"
        using c by (auto simp: host_audit_def split: if_splits)
      then show ?thesis using went(2) c True by blast
    qed
  qed
qed

lemma apply_network_outcome:
  assumes "apply_network env draft h = (r, h')"
  shows "r = Inr () \<and> hs_stored h' = next_config draft h \<and> hs_container h' = Some (True, next_config draft h) \<and>
       network_ok (hs_stored h') \<and> nc_version draft = nc_version (hs_stored h) \<or>
     (\<exists>e. r = Inl e) \<and> hs_stored h' = hs_stored h"
  using apply_network_start [OF assms]
proof (elim disjE exE conjE)
  fix h1
  assume h1: "hs_stored h1 = hs_stored h" "hs_container h1 = hs_container h" "nc_version draft = nc_version (hs_stored h)"
    "network_ok (next_config draft h)" "dk_store_ok env"
    "seq (stop_listener env) (\<lambda>_.
         seq (rescue (install env (next_config draft h)) (\<lambda>e. roll_back env (hs_stored h))) (\<lambda>_.
         seq (modify (\<lambda>h. h\<lparr>hs_last_error := []\<rparr>)) (\<lambda>_. host_audit env ''network.applied''))) h1 = (r, h')"
  from h1(6) show ?thesis
  proof (cases rule: seq_cases)
    case (failed e)
    then show ?thesis using h1(1) stop_keeps by metis
  next
    case (went _ h2)
    have h2: "hs_stored h2 = hs_stored h" using stop_keeps [OF went(1)] h1(1) by simp
    from went(2) show ?thesis
    proof (cases rule: seq_cases)
      case (failed e)
      from failed(1) show ?thesis
      proof (cases rule: rescue_cases)
        case (caught e' h3)
        then show ?thesis using install_cases [OF caught(1)] roll_back_result [OF caught(2)] h2 failed(2) by auto
      qed simp
    next
      case (went _ h3)
      from went(1) show ?thesis
      proof (cases rule: rescue_cases)
        case (went x)
        then show ?thesis
          using install_cases [OF went(1)] h1(3,4) \<open>seq (modify _) _ h3 = (r, h')\<close>
          by (auto simp: seq_app modify_def host_audit_def split: if_splits)
      next
        case (caught e' h4)
        then show ?thesis using roll_back_result by blast
      qed
    qed
  qed
qed auto

text \<open>With a Docker that answers, what runs is what is stored.\<close>

lemma apply_network_settled:
  assumes "apply_network env draft h = (r, h')" and "\<forall>n. dk_ok env n" and "settled h"
  shows "settled h'"
proof (cases r)
  case (Inr x)
  then show ?thesis using apply_network_outcome [OF assms(1)] by (auto simp: settled_def)
next
  case (Inl e)
  have stored: "hs_stored h' = hs_stored h" using apply_network_outcome [OF assms(1)] Inl by auto
  from apply_network_start [OF assms(1)] show ?thesis
  proof (elim disjE exE conjE)
    fix h1
    assume h1: "hs_stored h1 = hs_stored h" "hs_container h1 = hs_container h"
      "seq (stop_listener env) (\<lambda>_.
         seq (rescue (install env (next_config draft h)) (\<lambda>e. roll_back env (hs_stored h))) (\<lambda>_.
         seq (modify (\<lambda>h. h\<lparr>hs_last_error := []\<rparr>)) (\<lambda>_. host_audit env ''network.applied''))) h1 = (r, h')"
    from h1(3) show ?thesis
    proof (cases rule: seq_cases)
      case (failed e)
      then show ?thesis using stop_reliable [OF failed(1) assms(2)] h1(2) stored assms(3) by (auto simp: settled_def)
    next
      case (went _ h2)
      have h2: "hs_container h2 = None" using stop_reliable [OF went(1) assms(2)] by auto
      from went(2) show ?thesis
      proof (cases rule: seq_cases)
        case (failed e)
        from failed(1) show ?thesis
        proof (cases rule: rescue_cases)
          case (caught e' h3)
          have "\<forall>c. hs_container h3 \<noteq> Some (False, c)" using install_cases [OF caught(1)] h2 by auto
          then show ?thesis using roll_back_reliable [OF caught(2) assms(2)] stored by (simp add: settled_def)
        qed simp
      next
        case (went _ h3)
        from went(1) show ?thesis
        proof (cases rule: rescue_cases)
          case (went x)
          then show ?thesis using \<open>seq (modify _) _ h3 = (r, h')\<close> install_cases [OF went(1)] Inl
            by (auto simp: seq_app modify_def host_audit_def split: if_splits)
        next
          case (caught e' h4)
          then show ?thesis using roll_back_result by blast
        qed
      qed
    qed
  next
    assume "hs_container h' = hs_container h"
    then show ?thesis using assms(3) stored by (auto simp: settled_def split: option.splits)
  qed
qed

end
