(* ===== verification/Latency.thy ===== *)
theory Latency
  imports Stream_Inspection
begin

text \<open>
  \<open>selfhost/latency.py\<close>: timings that are kept in the process, without content or identity.

  Readings of the clock and measured milliseconds are rationals; \<open>round2\<close> is Python's \<open>round(x, 2)\<close>.  A measure
  that is no number, or not a finite one, is one of the other constructors.  Every structure is bounded:
  the lemmas at the end hold for any run.
\<close>

datatype measure = Number rat | Not_finite | Not_number

fun usable :: "measure \<Rightarrow> rat option" where
  "usable (Number x) = (if 0 \<le> x then Some x else None)"
| "usable m = None"

definition series :: "string list" where
  "series = [''gateway_total'', ''envoy_exchange'', ''request_inspection'', ''response_metadata_inspection'', ''response_inspection'']"

definition stages :: "string list" where
  "stages = [''envoy_sent'', ''request_checked'', ''response_headers_received'', ''response_headers_checked'',
     ''response_body_received'', ''response_checked'']"

record open_request =
  or_started :: rat
  or_stages :: "(string, rat) dict"
  or_checks :: "(string, (rat \<times> rat) list) dict"
  or_wait :: "rat option"

record request_timing =
  rt_status :: "int option"
  rt_total :: "rat option"
  rt_before_envoy :: "rat option"
  rt_upstream_wait :: "rat option"
  rt_body_wait :: "rat option"
  rt_after_check :: "rat option"
  rt_queue :: "rat option"
  rt_work :: "rat option"
  rt_stream_wait :: "rat option"
  rt_calls :: nat
  rt_complete :: bool

record latency =
  la_processes :: nat
  la_samples :: "(string, rat list) dict"
  la_pending :: "(pystr, open_request) dict"
  la_requests :: "request_timing list"

definition new_latency :: "nat \<Rightarrow> latency" where
  "new_latency n = \<lparr>la_processes = n, la_samples = map (\<lambda>s. (s, [])) series, la_pending = [], la_requests = []\<rparr>"

text \<open>The last \<open>n\<close> entries.\<close>

definition keep_last :: "nat \<Rightarrow> 'a list \<Rightarrow> 'a list" where
  "keep_last n xs = drop (length xs - n) xs"

definition begin_request :: "pystr \<Rightarrow> rat \<Rightarrow> latency \<Rightarrow> latency" where
  "begin_request run_id now l =
     (if \<not> run_id_ok run_id then l
      else l\<lparr>la_pending := keep_last 256 (filter (\<lambda>(k, _). k \<noteq> run_id) (la_pending l) @
        [(run_id, \<lparr>or_started = now, or_stages = [], or_checks = [], or_wait = None\<rparr>)])\<rparr>)"

definition on_pending :: "pystr \<Rightarrow> (open_request \<Rightarrow> open_request) \<Rightarrow> latency \<Rightarrow> latency" where
  "on_pending run_id f l = l\<lparr>la_pending := map (\<lambda>(k, r). if k = run_id then (k, f r) else (k, r)) (la_pending l)\<rparr>"

definition mark_stage :: "pystr \<Rightarrow> string \<Rightarrow> rat \<Rightarrow> latency \<Rightarrow> latency" where
  "mark_stage run_id stage now l =
     (if stage \<notin> set stages then l else on_pending run_id (\<lambda>r. r\<lparr>or_stages := dset stage now (or_stages r)\<rparr>) l)"

definition inspection_call :: "pystr \<Rightarrow> string \<Rightarrow> measure \<Rightarrow> measure \<Rightarrow> latency \<Rightarrow> latency" where
  "inspection_call run_id phase queue_ms work_ms l =
     (if phase \<notin> set (drop 2 series) then l
      else case (usable queue_ms, usable work_ms) of
        (Some q, Some w) \<Rightarrow> on_pending run_id (\<lambda>r. r\<lparr>or_checks :=
          dset phase (keep_last 8 (get_or (or_checks r) phase [] @ [(q, w)])) (or_checks r)\<rparr>) l
      | _ \<Rightarrow> l)"

definition stream_wait :: "pystr \<Rightarrow> measure \<Rightarrow> latency \<Rightarrow> latency" where
  "stream_wait run_id ms l = (case usable ms of None \<Rightarrow> l | Some x \<Rightarrow> on_pending run_id (\<lambda>r. r\<lparr>or_wait := Some x\<rparr>) l)"

definition elapsed :: "(rat \<Rightarrow> rat) \<Rightarrow> rat option \<Rightarrow> rat option \<Rightarrow> rat option" where
  "elapsed round2 left right =
     (case (left, right) of
        (Some a, Some b) \<Rightarrow> if a \<le> b then Some (round2 ((b - a) * 1000)) else None
      | _ \<Rightarrow> None)"

definition timing_of :: "(rat \<Rightarrow> rat) \<Rightarrow> open_request \<Rightarrow> int \<Rightarrow> rat \<Rightarrow> request_timing" where
  "timing_of round2 r status done =
     (let st = map_of (or_stages r); checks = concat (dvalues (or_checks r)); el = elapsed round2 in
      \<lparr>rt_status = (if 100 \<le> status \<and> status \<le> 599 then Some status else None),
       rt_total = el (Some (or_started r)) (Some done),
       rt_before_envoy = el (Some (or_started r)) (st ''envoy_sent''),
       rt_upstream_wait = el (st ''request_checked'') (st ''response_headers_received''),
       rt_body_wait = el (st ''response_headers_checked'') (st ''response_body_received''),
       rt_after_check = el (st ''response_checked'') (Some done),
       rt_queue = (if checks = [] then None else Some (round2 (sum_list (map fst checks)))),
       rt_work = (if checks = [] then None else Some (round2 (sum_list (map snd checks)))),
       rt_stream_wait = map_option round2 (or_wait r), rt_calls = length checks,
       rt_complete = (st ''request_checked'' \<noteq> None \<and> st ''response_headers_checked'' \<noteq> None \<and> st ''response_checked'' \<noteq> None)\<rparr>)"

definition finish_request :: "(rat \<Rightarrow> rat) \<Rightarrow> pystr \<Rightarrow> int \<Rightarrow> rat \<Rightarrow> latency \<Rightarrow> latency" where
  "finish_request round2 run_id status now l =
     (case map_of (la_pending l) run_id of
        None \<Rightarrow> l
      | Some r \<Rightarrow> l\<lparr>la_pending := filter (\<lambda>(k, _). k \<noteq> run_id) (la_pending l),
          la_requests := take 64 (timing_of round2 r status now # la_requests l)\<rparr>)"

definition record_sample :: "string \<Rightarrow> measure \<Rightarrow> latency \<Rightarrow> latency" where
  "record_sample name ms l =
     (case (map_of (la_samples l) name, usable ms) of
        (Some xs, Some x) \<Rightarrow> l\<lparr>la_samples := dset name (keep_last 256 (xs @ [x])) (la_samples l)\<rparr>
      | _ \<Rightarrow> l)"

definition percentile :: "(rat \<Rightarrow> rat) \<Rightarrow> rat list \<Rightarrow> rat \<Rightarrow> rat option" where
  "percentile round2 xs p =
     (if xs = [] then None else Some (round2 (sort xs ! nat (max 0 (\<lceil>of_nat (length xs) * p\<rceil> - 1)))))"

definition summary :: "(rat \<Rightarrow> rat) \<Rightarrow> latency \<Rightarrow> (string \<times> nat \<times> rat option \<times> rat option \<times> rat option) list" where
  "summary round2 l = map (\<lambda>(name, xs). (name, length xs, percentile round2 xs (1 / 2), percentile round2 xs (19 / 20),
     percentile round2 xs 1)) (la_samples l)"

subsection \<open>Bounds\<close>

datatype timing_event =
    Begin pystr rat | Mark pystr string rat | Call pystr string measure measure | Wait pystr measure
  | Finish pystr int rat | Sample string measure

fun timing_step :: "(rat \<Rightarrow> rat) \<Rightarrow> latency \<Rightarrow> timing_event \<Rightarrow> latency" where
  "timing_step round2 l (Begin k t) = begin_request k t l"
| "timing_step round2 l (Mark k s t) = mark_stage k s t l"
| "timing_step round2 l (Call k p q w) = inspection_call k p q w l"
| "timing_step round2 l (Wait k m) = stream_wait k m l"
| "timing_step round2 l (Finish k s t) = finish_request round2 k s t l"
| "timing_step round2 l (Sample n m) = record_sample n m l"

definition request_bounded :: "open_request \<Rightarrow> bool" where
  "request_bounded r \<longleftrightarrow> set (dkeys (or_stages r)) \<subseteq> set stages \<and>
     (\<forall>(p, cs) \<in> set (or_checks r). p \<in> set (drop 2 series) \<and> length cs \<le> 8)"

definition timing_bounded :: "latency \<Rightarrow> bool" where
  "timing_bounded l \<longleftrightarrow> length (la_pending l) \<le> 256 \<and> length (la_requests l) \<le> 64 \<and>
     (\<forall>(n, xs) \<in> set (la_samples l). n \<in> set series \<and> length xs \<le> 256) \<and>
     (\<forall>(k, r) \<in> set (la_pending l). run_id_ok k \<and> request_bounded r)"

lemma keep_last_facts: "length (keep_last n xs) \<le> n" "set (keep_last n xs) \<subseteq> set xs"
  by (simp_all add: keep_last_def set_drop_subset)

lemma in_dset: "(k', v') \<in> set (dset k v d) \<Longrightarrow> (k', v') = (k, v) \<or> (k', v') \<in> set d"
  by (induction d) (auto split: if_splits)

lemma on_pending_bounded:
  assumes "timing_bounded l" and "\<And>r. request_bounded r \<Longrightarrow> request_bounded (f r)"
  shows "timing_bounded (on_pending k f l)"
  using assms by (auto simp: timing_bounded_def on_pending_def split: if_splits)

lemma begin_bounded: "timing_bounded l \<Longrightarrow> timing_bounded (begin_request k t l)"
  using keep_last_facts [of 256 "filter (\<lambda>(x, _). x \<noteq> k) (la_pending l) @
    [(k, \<lparr>or_started = t, or_stages = [], or_checks = [], or_wait = None\<rparr>)]"]
  by (fastforce simp: timing_bounded_def begin_request_def request_bounded_def)

lemma mark_bounded: "timing_bounded l \<Longrightarrow> timing_bounded (mark_stage k s t l)"
  by (auto simp: mark_stage_def request_bounded_def AList.dom_update intro!: on_pending_bounded)

lemma call_bounded: "timing_bounded l \<Longrightarrow> timing_bounded (inspection_call k p q w l)"
proof -
  assume l: "timing_bounded l"
  have "request_bounded (r\<lparr>or_checks := dset p (keep_last 8 (get_or (or_checks r) p [] @ [x])) (or_checks r)\<rparr>)"
    if "request_bounded r" "p \<in> set (drop 2 series)" for r x
    using that keep_last_facts(1) [of 8] by (auto simp: request_bounded_def dest!: in_dset)
  then show ?thesis using l
    by (auto simp: inspection_call_def intro!: on_pending_bounded split: option.splits)
qed

lemma wait_bounded: "timing_bounded l \<Longrightarrow> timing_bounded (stream_wait k m l)"
  by (auto simp: stream_wait_def request_bounded_def intro!: on_pending_bounded split: option.splits)

lemma finish_bounded: "timing_bounded l \<Longrightarrow> timing_bounded (finish_request f k s t l)"
  by (auto simp: timing_bounded_def finish_request_def split: option.splits intro: order_trans [OF length_filter_le])

lemma sample_bounded: "timing_bounded l \<Longrightarrow> timing_bounded (record_sample n m l)"
  using keep_last_facts(1) [of 256] map_of_SomeD
  by (fastforce simp: timing_bounded_def record_sample_def dest!: in_dset split: option.splits)

interpretation timing: step_invariant "timing_step f" timing_bounded for f
proof
  fix l e
  assume "timing_bounded l"
  then show "timing_bounded (timing_step f l e)"
    by (cases e) (simp_all add: begin_bounded mark_bounded call_bounded wait_bounded finish_bounded sample_bounded)
qed

lemma latency_bounded: "timing_bounded (foldl (timing_step f) (new_latency n) es)"
  by (rule timing.run_keeps) (simp add: timing_bounded_def new_latency_def)

text \<open>What is shown is ordered: the median is at most the 95th percentile, and that at most the maximum.\<close>

lemma percentile_mono:
  assumes "mono round2" and "p \<le> p'" and "p' \<le> 1" and "percentile round2 xs p = Some a" and "percentile round2 xs p' = Some b"
  shows "a \<le> b"
proof -
  let ?i = "\<lambda>p :: rat. nat (max 0 (\<lceil>of_nat (length xs) * p\<rceil> - 1))"
  have ne: "xs \<noteq> []" using assms(4) by (auto simp: percentile_def)
  have "of_nat (length xs) * p \<le> of_nat (length xs) * p'" using assms(2) by (simp add: mult_left_mono)
  then have "\<lceil>of_nat (length xs) * p\<rceil> \<le> \<lceil>of_nat (length xs) * p'\<rceil>" by (rule ceiling_mono)
  moreover have "of_nat (length xs) * p' \<le> of_nat (length xs)" using assms(3) by (simp add: mult_left_le)
  then have "\<lceil>of_nat (length xs) * p'\<rceil> \<le> int (length xs)" by (simp add: ceiling_le_iff)
  ultimately have "?i p \<le> ?i p'" "?i p' < length (sort xs)" using ne by (auto simp: nat_less_iff)
  then have "sort xs ! ?i p \<le> sort xs ! ?i p'" by (intro sorted_nth_mono) simp_all
  then show ?thesis using assms(1,4,5) ne by (auto simp: percentile_def dest: monoD)
qed

end
