(* ===== verification/Console_Manage.thy ===== *)
theory Console_Manage
  imports Broker Console_Store Policy_Config Stream_Inspection
begin

text \<open>
  What the console manages: policies, agents, delegations and approvals (\<open>console/runtime.py\<close>, as
  \<open>selfhost/runtime.py\<close> specialises it, and the agent status handler of \<open>console/app.py\<close>).

  The broker is the one of \<open>Broker\<close>; \<open>None\<close> stands for a disabled broker.  Arguments: the actor, the creation
  time of a record and the random end of a delegation's identifier.
\<close>

subsection \<open>Tools an agent may be given\<close>

record manage_env =
  mg_broker :: "broker_env option"
  mg_tenant :: pystr
  mg_tools :: "(pystr, pystr \<times> pystr) dict"
  mg_models :: "pystr list option"

text \<open>\<open>broker_tool_map\<close> of a deployment: with models, every entry; otherwise the entries with a fixed resource.\<close>

definition deployment_tools :: "deployment \<Rightarrow> (pystr, pystr \<times> pystr) dict" where
  "deployment_tools d =
     fold (\<lambda>(k, name, rule) acc.
         case rule of
           None \<Rightarrow> acc
         | Some r \<Rightarrow>
             (case dp_llm d of
                Some profile \<Rightarrow> dset name (tr_action r, join_with (uni '', '') (pp_models profile)) acc
              | None \<Rightarrow> (case tr_resource r of None \<Rightarrow> acc | Some x \<Rightarrow> dset name (tr_action r, x) acc)))
       (deployment_entries d) []"

definition deployment_manage :: "deployment \<Rightarrow> broker_env option \<Rightarrow> manage_env" where
  "deployment_manage d b = \<lparr>mg_broker = b,
     mg_tenant = (case ab_tenant_id (dp_access_broker d) of None \<Rightarrow> [] | Some t \<Rightarrow> t),
     mg_tools = deployment_tools d, mg_models = map_option pp_models (dp_llm d)\<rparr>"

definition tools_known :: "manage_env \<Rightarrow> pystr list \<Rightarrow> bool" where
  "tools_known env ts \<longleftrightarrow> ts \<noteq> [] \<and> list_all (\<lambda>t. map_of (mg_tools env) t \<noteq> None) ts"

definition tool_actions :: "manage_env \<Rightarrow> pystr list \<Rightarrow> pystr list" where
  "tool_actions env ts = sorted_set (map fst (List.map_filter (map_of (mg_tools env)) ts))"

definition tool_resources :: "manage_env \<Rightarrow> pystr list \<Rightarrow> pystr list" where
  "tool_resources env ts =
     (case mg_models env of Some ms \<Rightarrow> ms | None \<Rightarrow> sorted_set (map snd (List.map_filter (map_of (mg_tools env)) ts)))"

subsection \<open>Agents, delegations, approvals\<close>

definition managed_broker :: "manage_env \<Rightarrow> (broker_env \<Rightarrow> 'a broker_act) \<Rightarrow> 'a broker_act" where
  "managed_broker env f = (case mg_broker env of None \<Rightarrow> raise (Value_error ''Access Broker is disabled.'') | Some b \<Rightarrow> f b)"

record agent_payload =
  ax_agent_id :: pystr
  ax_owner_id :: pystr
  ax_risk :: risk_tier
  ax_tools :: "pystr list"
  ax_autonomous :: bool

definition console_agent :: "manage_env \<Rightarrow> agent_payload \<Rightarrow> datetime \<Rightarrow> agent_record" where
  "console_agent env p created = \<lparr>ag_agent_id = ax_agent_id p, ag_tenant_id = Some (mg_tenant env), ag_owner_id = ax_owner_id p,
     ag_sponsor_id = None, ag_runtime = uni ''console'', ag_model = None, ag_allow_autonomous = ax_autonomous p,
     ag_allowed_actions = tool_actions env (ax_tools p), ag_allowed_tools = ax_tools p,
     ag_allowed_resources = tool_resources env (ax_tools p), ag_risk_tier = ax_risk p, ag_enabled = True, ag_metadata = [],
     ag_created_at = created\<rparr>"

definition console_register_agent ::
  "manage_env \<Rightarrow> agent_payload \<Rightarrow> datetime \<Rightarrow> (pystr, pystr) dict \<Rightarrow> agent_record broker_act" where
  "console_register_agent env p created actor =
     managed_broker env (\<lambda>b.
       if \<not> tools_known env (ax_tools p) then raise (Value_error ''Unknown tool mapping.'')
       else seq (read_transaction b (gets (get_agent (ax_agent_id p)))) (\<lambda>found.
         if found \<noteq> None then raise (Value_error ''Agent ID is already registered.'')
         else if ax_agent_id p = [] \<or> ax_owner_id p = [] then raise (Value_error ''validation'')
         else register_agent b (console_agent env p created) (Some actor)))"

record delegation_payload =
  dx_agent_id :: pystr
  dx_user_id :: pystr
  dx_task_id :: pystr
  dx_purpose :: pystr
  dx_ttl_seconds :: int

definition console_delegation_request :: "manage_env \<Rightarrow> agent_record \<Rightarrow> delegation_payload \<Rightarrow> pystr \<Rightarrow> delegation_create_request" where
  "console_delegation_request env ag p random = \<lparr>dr_delegation_id = uni ''dlg-'' @ take 12 random, dr_tenant_id = Some (mg_tenant env),
     dr_user_id = dx_user_id p, dr_agent_id = dx_agent_id p, dr_task_id = dx_task_id p, dr_purpose = dx_purpose p,
     dr_allowed_resources = ag_allowed_resources ag, dr_allowed_actions = tool_actions env (ag_allowed_tools ag),
     dr_ttl_seconds = dx_ttl_seconds p, dr_metadata = []\<rparr>"

definition console_create_delegation ::
  "manage_env \<Rightarrow> delegation_payload \<Rightarrow> pystr \<Rightarrow> (pystr, pystr) dict \<Rightarrow> delegation_record broker_act" where
  "console_create_delegation env p random actor =
     managed_broker env (\<lambda>b.
       seq (read_transaction b (gets (get_agent (dx_agent_id p)))) (\<lambda>found.
         case found of
           None \<Rightarrow> raise (Value_error ''Agent was not found.'')
         | Some ag \<Rightarrow>
             if ag_tenant_id ag \<noteq> Some (mg_tenant env) then raise (Value_error ''Agent was not found.'')
             else if tool_actions env (ag_allowed_tools ag) = []
             then raise (Value_error ''Agent has no manageable tool mappings.'')
             else
               let rq = console_delegation_request env ag p random in
               if \<not> delegation_create_ok rq then raise (Value_error ''validation'')
               else create_delegation b rq (Some actor)))"

definition console_review ::
  "manage_env \<Rightarrow> pystr \<Rightarrow> approval_decision_request \<Rightarrow> bool \<Rightarrow> approval_record broker_act" where
  "console_review env i p approved =
     managed_broker env (\<lambda>b.
       seq (read_transaction b (gets (get_approval i))) (\<lambda>found.
         case found of
           None \<Rightarrow> raise (Value_error ''Approval was not found.'')
         | Some a \<Rightarrow>
             if ap_tenant_id a \<noteq> Some (mg_tenant env) then raise (Value_error ''Approval was not found.'')
             else if ad_approver_id p = [] then raise (Value_error ''validation'')
             else if approved then approve b i p else deny b i p))"

text \<open>The handler of \<open>agents/{agent_id}/status\<close>: one transaction.\<close>

definition console_agent_status ::
  "manage_env \<Rightarrow> pystr \<Rightarrow> bool \<Rightarrow> (pystr, pystr) dict \<Rightarrow> agent_record broker_act" where
  "console_agent_status env i enabled actor =
     managed_broker env (\<lambda>b.
       transaction b (seq (gets (get_agent i)) (\<lambda>found.
         case found of
           None \<Rightarrow> raise (Value_error ''Agent was not found.'')
         | Some ag \<Rightarrow>
             if ag_tenant_id ag \<noteq> Some (mg_tenant env) then raise (Value_error ''Agent was not found.'')
             else register_agent b (ag\<lparr>ag_enabled := enabled\<rparr>) (Some actor))))"

definition broker_overview ::
  "manage_env \<Rightarrow> (agent_record list \<times> delegation_record list \<times> approval_record list) broker_act" where
  "broker_overview env =
     (case mg_broker env of
        None \<Rightarrow> ret ([], [], [])
      | Some b \<Rightarrow> read_transaction b (gets (\<lambda>s.
          (filter (\<lambda>a. ag_tenant_id a = Some (mg_tenant env)) (list_agents s),
           filter (\<lambda>d. dg_tenant_id d = Some (mg_tenant env)) (list_delegations s),
           filter (\<lambda>a. ap_tenant_id a = Some (mg_tenant env)) (list_approvals s)))))"

subsection \<open>Policies\<close>

text \<open>The service: its store, the policy its engine was built from, and whether the next engine can be built.\<close>

record policy_runtime =
  pr_store :: console
  pr_engine :: policy

record policy_env =
  pe_store :: console_env
  pe_as_int :: "json \<Rightarrow> int option"
  pe_deployment :: deployment
  pe_directory :: pystr
  pe_engine_ok :: bool

definition on_console :: "'a console_act \<Rightarrow> (policy_runtime, 'a) act" where
  "on_console m s = (case m (pr_store s) of (r, c) \<Rightarrow> (r, s\<lparr>pr_store := c\<rparr>))"

definition saved_policy :: "policy_env \<Rightarrow> (policy_runtime, policy) act" where
  "saved_policy env =
     seq (on_console (get_setting (pe_store env) (uni ''policy''))) (\<lambda>v.
       lift_result (validate_policy (pe_as_int env) (case v of None \<Rightarrow> JNull | Some j \<Rightarrow> j)))"

definition ensure_policy :: "policy_env \<Rightarrow> (policy_runtime, policy) act" where
  "ensure_policy env =
     seq (on_console (get_setting (pe_store env) (uni ''policy''))) (\<lambda>v.
       seq (if v \<noteq> None then ret ()
            else seq (lift_result (seeded_policy (pe_deployment env))) (\<lambda>p.
              on_console (set_setting (pe_store env) (uni ''policy'') (policy_json p)))) (\<lambda>_. saved_policy env))"

definition build_for :: "policy_env \<Rightarrow> policy \<Rightarrow> (policy_runtime, unit) act" where
  "build_for env p =
     seq (lift_result (inspection_config_of (pe_deployment env) p (pe_directory env))) (\<lambda>_.
       if pe_engine_ok env then ret () else raise Os_error)"

definition apply_policy :: "policy_env \<Rightarrow> json \<Rightarrow> rat \<Rightarrow> pystr \<Rightarrow> (policy_runtime, policy) act" where
  "apply_policy env payload ts detail =
     seq (lift_result (validate_policy (pe_as_int env) payload)) (\<lambda>candidate.
     seq (lift_result (inspection_config_of (pe_deployment env) candidate (pe_directory env))) (\<lambda>_.
     seq (saved_policy env) (\<lambda>current.
       if po_version candidate \<noteq> po_version current then raise (Value_error ''Policy changed; refresh before applying'')
       else
         let next = candidate\<lparr>po_version := po_version candidate + 1\<rparr> in
         seq (build_for env next) (\<lambda>_.
         seq (on_console (save_policy (pe_store env) ts (policy_json next) detail)) (\<lambda>_.
         seq (modify (\<lambda>s. s\<lparr>pr_engine := next\<rparr>)) (\<lambda>_. ret next))))))"

text \<open>\<open>stream_snapshot\<close>: a stream is inspected under the saved policy, whatever process saved it.\<close>

definition snapshot_for_stream :: "policy_env \<Rightarrow> (policy_runtime, policy) act" where
  "snapshot_for_stream env =
     seq (saved_policy env) (\<lambda>p.
     seq (gets pr_engine) (\<lambda>e.
       if po_version e = po_version p then ret p
       else seq (build_for env p) (\<lambda>_. seq (modify (\<lambda>s. s\<lparr>pr_engine := p\<rparr>)) (\<lambda>_. ret p))))"

subsection \<open>Facts\<close>

text \<open>A policy is applied as a whole: refused, nothing changes; accepted, the saved policy and the engine are
  the candidate under the next version, and the candidate was based on the version that was saved.\<close>

lemma saved_policy_reads: "saved_policy env s = (r, s') \<Longrightarrow> s' = s"
  by (auto simp: saved_policy_def seq_app on_console_def get_setting_def connect_def gets_def lift_result_def
      split: prod.splits sum.splits if_splits)

lemma apply_policy_atomic:
  assumes "apply_policy env payload ts detail s = (r, s')"
  shows "(\<exists>e. r = Inl e) \<and> s' = s \<or>
    (\<exists>candidate current. validate_policy (pe_as_int env) payload = Inr candidate \<and> saved_policy env s = (Inr current, s) \<and>
       po_version candidate = po_version current \<and> r = Inr (candidate\<lparr>po_version := po_version current + 1\<rparr>) \<and>
       pr_engine s' = candidate\<lparr>po_version := po_version current + 1\<rparr> \<and>
       map_of (co_settings (pr_store s')) (uni ''policy'') =
         Some (policy_json (candidate\<lparr>po_version := po_version current + 1\<rparr>)))"
proof -
  have reads: "lift_result v x = (Inl e, y) \<Longrightarrow> y = x" "lift_result v x = (Inr z, y) \<Longrightarrow> y = x \<and> v = Inr z"
    for v :: "'z result" and x y :: policy_runtime and e z
    by (auto simp: lift_result_def)
  have built: "build_for env p x = (q, y) \<Longrightarrow> y = x" for p x q y
    by (auto simp: build_for_def seq_app lift_result_def ret_def raise_def split: sum.splits if_splits)
  from assms [unfolded apply_policy_def] show ?thesis
  proof (cases rule: seq_cases)
    case (went candidate s1)
    have c: "s1 = s" "validate_policy (pe_as_int env) payload = Inr candidate" using reads(2) [OF went(1)] by auto
    from went(2) show ?thesis
    proof (cases rule: seq_cases)
      case (went _ s2)
      have s2: "s2 = s" using reads(2) [OF went(1)] c by simp
      from went(2) show ?thesis
      proof (cases rule: seq_cases)
        case (went current s3)
        have s3: "s3 = s" "saved_policy env s = (Inr current, s)" using went(1) saved_policy_reads s2 by blast+
        let ?next = "candidate\<lparr>po_version := po_version candidate + 1\<rparr>"
        show ?thesis
        proof (cases "po_version candidate = po_version current")
          case True
          with went(2) have "seq (build_for env ?next) (\<lambda>_.
              seq (on_console (save_policy (pe_store env) ts (policy_json ?next) detail)) (\<lambda>_.
              seq (modify (\<lambda>s. s\<lparr>pr_engine := ?next\<rparr>)) (\<lambda>_. ret ?next))) s = (r, s')"
            by (simp add: Let_def s3(1))
          then show ?thesis
          proof (cases rule: seq_cases)
            case (went _ s4)
            have "s4 = s" by (rule built [OF went(1)])
            then show ?thesis using went(2) c s3(2) True
              by (auto simp: seq_app on_console_def save_policy_def connect_def modify_def ret_def split: if_splits)
          qed (use built in blast)
        qed (use went(2) s3(1) in \<open>auto simp: raise_def\<close>)
      qed (use saved_policy_reads s2 in blast)
    qed (use reads(1) c in blast)
  qed (use reads(1) in blast)
qed

text \<open>What the console writes to the broker belongs to its tenant.\<close>

lemma filtered_entry: "x \<in> set (List.map_filter (map_of m) ts) \<Longrightarrow> \<exists>k. (k, x) \<in> set m"
  by (induction ts) (auto simp: List.map_filter_simps dest: map_of_SomeD split: option.splits)

lemma console_agent_confined:
  assumes "tools_known env (ax_tools p)"
  shows "ag_tenant_id (console_agent env p t) = Some (mg_tenant env)"
    and "set (ag_allowed_tools (console_agent env p t)) \<subseteq> set (dkeys (mg_tools env))"
    and "set (ag_allowed_actions (console_agent env p t)) \<subseteq> fst ` snd ` set (mg_tools env)"
proof -
  show "ag_tenant_id (console_agent env p t) = Some (mg_tenant env)" by (simp add: console_agent_def)
  have "tool \<in> set (dkeys (mg_tools env))" if "tool \<in> set (ax_tools p)" for tool
  proof -
    have "map_of (mg_tools env) tool \<noteq> None" using assms that by (simp add: tools_known_def list_all_iff)
    then show ?thesis by (simp add: map_of_eq_None_iff)
  qed
  then show "set (ag_allowed_tools (console_agent env p t)) \<subseteq> set (dkeys (mg_tools env))"
    by (auto simp: console_agent_def simp del: set_map)
  show "set (ag_allowed_actions (console_agent env p t)) \<subseteq> fst ` snd ` set (mg_tools env)"
    by (force simp: console_agent_def tool_actions_def dest!: filtered_entry)
qed

lemma delegation_confined:
  "dr_tenant_id (console_delegation_request env ag p x) = Some (mg_tenant env)"
  "dr_allowed_resources (console_delegation_request env ag p x) = ag_allowed_resources ag"
  by (simp_all add: console_delegation_request_def)

lemma review_other_tenant:
  assumes "mg_broker env = Some b" and "read_transaction b (gets (get_approval i)) s = (Inr (Some a), s')"
    and "ap_tenant_id a \<noteq> Some (mg_tenant env)"
  shows "console_review env i p ok s = (Inl (Value_error ''Approval was not found.''), s')"
  using assms by (simp add: console_review_def managed_broker_def seq_app raise_def)

end
