(* ===== verification/Admission.thy ===== *)
theory Admission
  imports Prelude
begin

text \<open>
  Bounded concurrency: the admission of \<open>selfhost/gateway.py\<close> (two counting semaphores) and the
  \<open>InspectionWorkers\<close> of \<open>inspection/server.py\<close>.

  \<open>semaphore\<close> is \<open>asyncio.Semaphore\<close> of the Python the image ships: a counter and the futures of those who wait,
  first come first served.  A task runs alone between two of its \<open>await\<close>s, so an event is what happens
  between them; a run is any list of events, an event that cannot happen changes nothing.  A future that has its result
  may still be cancelled before its task runs: \<open>Result_cancelled\<close>.
\<close>

subsection \<open>The semaphore\<close>

datatype future_state = Unset | Result_set | Future_cancelled | Result_cancelled

record semaphore =
  se_value :: nat
  se_queue :: "(nat \<times> future_state) list"

definition new_semaphore :: "nat \<Rightarrow> semaphore" where
  "new_semaphore n = \<lparr>se_value = n, se_queue = []\<rparr>"

definition sem_locked :: "semaphore \<Rightarrow> bool" where
  "sem_locked s \<longleftrightarrow> se_value s = 0 \<or> list_ex (\<lambda>(_, f). f \<noteq> Future_cancelled) (se_queue s)"

fun wake_first :: "(nat \<times> future_state) list \<Rightarrow> (nat \<times> future_state) list option" where
  "wake_first [] = None"
| "wake_first ((t, f) # q) =
     (if f = Unset then Some ((t, Result_set) # q) else map_option (Cons (t, f)) (wake_first q))"

definition wake_up_next :: "semaphore \<Rightarrow> semaphore" where
  "wake_up_next s =
     (case wake_first (se_queue s) of
        None \<Rightarrow> s
      | Some q \<Rightarrow> s\<lparr>se_value := se_value s - 1, se_queue := q\<rparr>)"

definition sem_release :: "semaphore \<Rightarrow> semaphore" where
  "sem_release s = wake_up_next (s\<lparr>se_value := se_value s + 1\<rparr>)"

text \<open>\<open>acquire\<close> up to its \<open>await\<close>: the permit is taken, or the task waits.\<close>

definition sem_acquire :: "nat \<Rightarrow> semaphore \<Rightarrow> bool \<times> semaphore" where
  "sem_acquire t s =
     (if \<not> sem_locked s then (True, s\<lparr>se_value := se_value s - 1\<rparr>)
      else (False, s\<lparr>se_queue := se_queue s @ [(t, Unset)]\<rparr>))"

text \<open>The task is cancelled, by its time limit or by whoever called it.\<close>

fun cancelled_future :: "future_state \<Rightarrow> future_state" where
  "cancelled_future Unset = Future_cancelled"
| "cancelled_future Result_set = Result_cancelled"
| "cancelled_future f = f"

definition sem_cancel :: "nat \<Rightarrow> semaphore \<Rightarrow> semaphore" where
  "sem_cancel t s = s\<lparr>se_queue := map (\<lambda>(u, f). (u, if u = t then cancelled_future f else f)) (se_queue s)\<rparr>"

text \<open>\<open>acquire\<close> after its \<open>await\<close>: nothing while the future is unset, otherwise whether the permit is held.\<close>

definition sem_leave_queue :: "nat \<Rightarrow> semaphore \<Rightarrow> semaphore" where
  "sem_leave_queue t s = s\<lparr>se_queue := filter (\<lambda>(u, _). u \<noteq> t) (se_queue s)\<rparr>"

definition sem_resume :: "nat \<Rightarrow> semaphore \<Rightarrow> bool option \<times> semaphore" where
  "sem_resume t s =
     (let s' = sem_leave_queue t s in
      case map_of (se_queue s) t of
        None \<Rightarrow> (None, s)
      | Some Unset \<Rightarrow> (None, s)
      | Some Result_set \<Rightarrow> (Some True, if 0 < se_value s' then wake_up_next s' else s')
      | Some Future_cancelled \<Rightarrow> (Some False, s')
      | Some Result_cancelled \<Rightarrow> (Some False, sem_release s'))"

definition sem_waiting :: "nat \<Rightarrow> semaphore \<Rightarrow> bool" where
  "sem_waiting t s \<longleftrightarrow> t \<in> fst ` set (se_queue s)"

subsection \<open>The gateway\<close>

record gate =
  ga_slots :: semaphore
  ga_waiters :: semaphore
  ga_inside :: "nat list"

definition new_gate :: "nat \<Rightarrow> gate" where
  "new_gate n = \<lparr>ga_slots = new_semaphore n, ga_waiters = new_semaphore n, ga_inside = []\<rparr>"

datatype door_reply = Entered | Queued | Gateway_busy

text \<open>A request at the door, with the configured waiting time in milliseconds.\<close>

definition arrive :: "nat \<Rightarrow> nat \<Rightarrow> gate \<Rightarrow> door_reply \<times> gate" where
  "arrive wait_ms t g =
     (if sem_locked (ga_slots g) then
        if wait_ms = 0 \<or> sem_locked (ga_waiters g) then (Gateway_busy, g)
        else (Queued, g\<lparr>ga_waiters := snd (sem_acquire t (ga_waiters g)), ga_slots := snd (sem_acquire t (ga_slots g))\<rparr>)
      else (Entered, g\<lparr>ga_slots := snd (sem_acquire t (ga_slots g)), ga_inside := ga_inside g @ [t]\<rparr>))"

definition resume_waiter :: "nat \<Rightarrow> gate \<Rightarrow> gate" where
  "resume_waiter t g =
     (case sem_resume t (ga_slots g) of
        (None, _) \<Rightarrow> g
      | (Some ok, s) \<Rightarrow> g\<lparr>ga_slots := s, ga_waiters := sem_release (ga_waiters g),
                          ga_inside := ga_inside g @ (if ok then [t] else [])\<rparr>)"

definition leave :: "nat \<Rightarrow> gate \<Rightarrow> gate" where
  "leave t g = g\<lparr>ga_slots := sem_release (ga_slots g), ga_inside := remove1 t (ga_inside g)\<rparr>"

datatype gate_event = Arrives nat | Cancels nat | Resumes nat | Leaves nat

fun gate_step :: "nat \<Rightarrow> gate \<Rightarrow> gate_event \<Rightarrow> gate" where
  "gate_step w g (Arrives t) =
     (if sem_waiting t (ga_slots g) \<or> t \<in> set (ga_inside g) then g else snd (arrive w t g))"
| "gate_step w g (Cancels t) =
     (if t \<in> set (ga_inside g) then leave t g else g\<lparr>ga_slots := sem_cancel t (ga_slots g)\<rparr>)"
| "gate_step w g (Resumes t) = resume_waiter t g"
| "gate_step w g (Leaves t) = (if t \<in> set (ga_inside g) then leave t g else g)"

subsection \<open>The workers of an inspector\<close>

text \<open>\<open>wo_jobs\<close>: the scans that run in a thread; the flag says whether the caller still waits.\<close>

record workers =
  wo_slots :: semaphore
  wo_jobs :: "(nat \<times> bool) list"

definition new_workers :: "nat \<Rightarrow> workers" where
  "new_workers n = \<lparr>wo_slots = new_semaphore n, wo_jobs = []\<rparr>"

datatype worker_event = Call nat | Caller_gone nat | Awake nat | Scan_ends nat

definition worker_busy :: "nat \<Rightarrow> workers \<Rightarrow> bool" where
  "worker_busy t w \<longleftrightarrow> t \<in> fst ` set (wo_jobs w)"

fun worker_step :: "workers \<Rightarrow> worker_event \<Rightarrow> workers" where
  "worker_step w (Call t) =
     (if sem_waiting t (wo_slots w) \<or> worker_busy t w then w
      else case sem_acquire t (wo_slots w) of
        (ok, s) \<Rightarrow> w\<lparr>wo_slots := s, wo_jobs := wo_jobs w @ (if ok then [(t, True)] else [])\<rparr>)"
| "worker_step w (Caller_gone t) =
     (if worker_busy t w then w\<lparr>wo_jobs := map (\<lambda>(u, a). (u, a \<and> u \<noteq> t)) (wo_jobs w)\<rparr>
      else w\<lparr>wo_slots := sem_cancel t (wo_slots w)\<rparr>)"
| "worker_step w (Awake t) =
     (case sem_resume t (wo_slots w) of
        (None, _) \<Rightarrow> w
      | (Some ok, s) \<Rightarrow> w\<lparr>wo_slots := s, wo_jobs := wo_jobs w @ (if ok then [(t, True)] else [])\<rparr>)"
| "worker_step w (Scan_ends t) =
     (if worker_busy t w
      then w\<lparr>wo_slots := sem_release (wo_slots w), wo_jobs := filter (\<lambda>(u, _). u \<noteq> t) (wo_jobs w)\<rparr> else w)"

end
