(* ===== verification/Admission_Properties.thy ===== *)
theory Admission_Properties
  imports Admission
begin

text \<open>
  No permit is lost and no wake-up is missed.  \<open>sem_move\<close> says what one event may do to a semaphore and to the
  number of permits that are held; \<open>semaphore_user\<close> is the interface of code whose every event is such a move,
  interpreted for the gateway and for the workers.
\<close>

subsection \<open>Futures\<close>

definition granted :: "future_state \<Rightarrow> bool" where
  "granted f \<longleftrightarrow> f = Result_set \<or> f = Result_cancelled"

definition grants :: "(nat \<times> future_state) list \<Rightarrow> nat" where
  "grants q = length (filter (\<lambda>(_, f). granted f) q)"

definition all_set :: "(nat \<times> future_state) list \<Rightarrow> bool" where
  "all_set q = list_all (\<lambda>(_, f). f \<noteq> Unset) q"

lemma granted_simps [simp]: "granted Result_set" "granted Result_cancelled" "\<not> granted Unset" "\<not> granted Future_cancelled"
  by (simp_all add: granted_def)

lemma granted_cancelled [simp]: "granted (cancelled_future f) = granted f"
  by (cases f) auto

lemma grants_simps [simp]:
  "grants [] = 0" "grants ((t, f) # q) = (if granted f then Suc (grants q) else grants q)" "grants (p @ q) = grants p + grants q"
  by (auto simp: grants_def)

lemma all_set_simps [simp]:
  "all_set []" "all_set ((t, f) # q) \<longleftrightarrow> f \<noteq> Unset \<and> all_set q" "all_set (p @ q) \<longleftrightarrow> all_set p \<and> all_set q"
  by (auto simp: all_set_def)

lemma grants_pos: "(t, f) \<in> set q \<Longrightarrow> granted f \<Longrightarrow> 0 < grants q"
  by (induction q) auto

lemma all_set_member: "all_set q \<Longrightarrow> (t, f) \<in> set q \<Longrightarrow> f \<noteq> Unset"
  by (auto simp: all_set_def list_all_iff)

lemma wake_first_None: "wake_first q = None \<longleftrightarrow> all_set q"
  by (induction q rule: wake_first.induct) auto

lemma wake_first_Some: "wake_first q = Some q' \<Longrightarrow> grants q' = Suc (grants q) \<and> map fst q' = map fst q"
  by (induction q arbitrary: q' rule: wake_first.induct) (auto split: if_splits)

lemma cancel_queue:
  "map fst (map (\<lambda>(u, f). (u, if u = t then cancelled_future f else f)) q) = map fst q"
  "grants (map (\<lambda>(u, f). (u, if u = t then cancelled_future f else f)) q) = grants q"
  "all_set q \<Longrightarrow> all_set (map (\<lambda>(u, f). (u, if u = t then cancelled_future f else f)) q)"
  by (induction q) (auto elim: cancelled_future.elims)

lemma cancel_keys: "map fst (se_queue (sem_cancel t s)) = map fst (se_queue s)"
  using cancel_queue(1) [where t = t and q = "se_queue s"] by (simp add: sem_cancel_def del: map_map)

lemma filter_other: "t \<notin> fst ` set q \<Longrightarrow> filter (\<lambda>(u, _). u \<noteq> t) q = q"
  by (induction q) auto

lemma grants_leave:
  "distinct (map fst q) \<Longrightarrow> map_of q t = Some f \<Longrightarrow>
     grants q = grants (filter (\<lambda>(u, _). u \<noteq> t) q) + (if granted f then 1 else 0)"
  by (induction q) (auto simp: filter_other split: if_splits)

lemma length_leave:
  "distinct (map fst q) \<Longrightarrow> map_of q t = Some f \<Longrightarrow> length q = Suc (length (filter (\<lambda>(u, _). u \<noteq> t) q))"
  by (induction q) (auto simp: filter_other split: if_splits)

lemma distinct_leave: "distinct (map fst q) \<Longrightarrow> distinct (map fst (filter (\<lambda>(u, _). u \<noteq> t) q))"
  by (induction q) auto

lemma all_set_leave:
  "map_of q t = Some f \<Longrightarrow> f \<noteq> Unset \<Longrightarrow> distinct (map fst q) \<Longrightarrow> all_set (filter (\<lambda>(u, _). u \<noteq> t) q) \<longleftrightarrow> all_set q"
  by (induction q) (auto simp: filter_other split: if_splits)

subsection \<open>The balance of permits\<close>

text \<open>With \<open>n\<close> permits of which \<open>h\<close> are held: the books balance, and when a permit is free while someone waits, a
  task is on its way that will wake the next.\<close>

definition balanced :: "nat \<Rightarrow> semaphore \<Rightarrow> nat \<Rightarrow> bool" where
  "balanced n s h \<longleftrightarrow>
     se_value s + h + grants (se_queue s) = n \<and> distinct (map fst (se_queue s)) \<and>
     (se_value s = 0 \<or> all_set (se_queue s) \<or> 0 < grants (se_queue s))"

lemma balanced_new [simp]: "balanced n (new_semaphore n) 0"
  by (simp add: balanced_def new_semaphore_def)

lemma wake_up_next_facts:
  assumes "0 < se_value s"
  shows "se_value (wake_up_next s) + grants (se_queue (wake_up_next s)) = se_value s + grants (se_queue s)"
    and "map fst (se_queue (wake_up_next s)) = map fst (se_queue s)"
    and "all_set (se_queue (wake_up_next s)) \<or> 0 < grants (se_queue (wake_up_next s))"
  using assms by (auto simp: wake_up_next_def wake_first_None dest!: wake_first_Some split: option.splits)

lemma sem_release_facts:
  "se_value (sem_release s) + grants (se_queue (sem_release s)) = Suc (se_value s + grants (se_queue s))"
  "map fst (se_queue (sem_release s)) = map fst (se_queue s)"
  "all_set (se_queue (sem_release s)) \<or> 0 < grants (se_queue (sem_release s))"
  using wake_up_next_facts [of "s\<lparr>se_value := se_value s + 1\<rparr>"] by (simp_all add: sem_release_def)

lemma same_waiting: "map fst (se_queue s) = map fst (se_queue s') \<Longrightarrow> sem_waiting t s \<longleftrightarrow> sem_waiting t s'"
  by (metis list.set_map sem_waiting_def)

inductive sem_move :: "semaphore \<times> nat \<Rightarrow> semaphore \<times> nat \<Rightarrow> bool" where
  idle: "sem_move p p"
| acquired: "\<not> sem_waiting t s \<Longrightarrow> sem_acquire t s = (ok, s') \<Longrightarrow> sem_move (s, h) (s', if ok then Suc h else h)"
| cancelled: "sem_move (s, h) (sem_cancel t s, h)"
| resumed: "sem_resume t s = (Some ok, s') \<Longrightarrow> sem_move (s, h) (s', if ok then Suc h else h)"
| released: "sem_move (s, Suc h) (sem_release s, h)"

inductive_cases sem_moveE: "sem_move (s, h) (s', h')"

lemma balanced_release: "balanced n s (Suc h) \<Longrightarrow> balanced n (sem_release s) h"
  using sem_release_facts [of s] by (auto simp: balanced_def)

lemma balanced_acquire:
  assumes "balanced n s h" and "\<not> sem_waiting t s" and "sem_acquire t s = (ok, s')"
  shows "balanced n s' (if ok then Suc h else h)"
proof (cases "sem_locked s")
  case False
  then have "0 < se_value s" "all_set (se_queue s)" "s' = s\<lparr>se_value := se_value s - 1\<rparr>" "ok"
    using assms(3) by (auto simp: sem_locked_def sem_acquire_def all_set_def list_ex_iff list_all_iff)
  then show ?thesis using assms(1) by (auto simp: balanced_def)
next
  case True
  then have s': "s' = s\<lparr>se_queue := se_queue s @ [(t, Unset)]\<rparr>" "\<not> ok" using assms(3) by (auto simp: sem_acquire_def)
  have "0 < grants (se_queue s)" if "0 < se_value s"
  proof -
    from True that obtain u f where "(u, f) \<in> set (se_queue s)" "f \<noteq> Future_cancelled"
      by (auto simp: sem_locked_def list_ex_iff)
    then show ?thesis using assms(1) that
      by (cases f) (auto simp: balanced_def dest: grants_pos all_set_member)
  qed
  then show ?thesis using s' assms(1,2) by (auto simp: balanced_def sem_waiting_def)
qed

lemma sem_resume_Some:
  assumes "sem_resume t s = (Some ok, s')"
  shows "\<exists>f. map_of (se_queue s) t = Some f \<and> f \<noteq> Unset \<and>
    (f = Result_set \<longrightarrow> ok \<and> s' = (if 0 < se_value s then wake_up_next (sem_leave_queue t s) else sem_leave_queue t s)) \<and>
    (f = Future_cancelled \<longrightarrow> \<not> ok \<and> s' = sem_leave_queue t s) \<and>
    (f = Result_cancelled \<longrightarrow> \<not> ok \<and> s' = sem_release (sem_leave_queue t s))"
proof -
  have "se_value (sem_leave_queue t s) = se_value s" by (simp add: sem_leave_queue_def)
  then show ?thesis using assms
    by (auto simp: sem_resume_def Let_def split: option.splits future_state.splits)
qed

lemma balanced_resume:
  assumes bal: "balanced n s h" and run: "sem_resume t s = (Some ok, s')"
  shows "balanced n s' (if ok then Suc h else h)"
proof -
  obtain f where look: "map_of (se_queue s) t = Some f" and "f \<noteq> Unset"
    and res: "f = Result_set \<longrightarrow> ok \<and> s' = (if 0 < se_value s then wake_up_next (sem_leave_queue t s) else sem_leave_queue t s)"
      "f = Future_cancelled \<longrightarrow> \<not> ok \<and> s' = sem_leave_queue t s"
      "f = Result_cancelled \<longrightarrow> \<not> ok \<and> s' = sem_release (sem_leave_queue t s)"
    using sem_resume_Some [OF run] by blast
  let ?l = "sem_leave_queue t s"
  have dist: "distinct (map fst (se_queue s))" using bal by (simp add: balanced_def)
  have l: "se_value ?l = se_value s" "distinct (map fst (se_queue ?l))"
    "grants (se_queue s) = grants (se_queue ?l) + (if granted f then 1 else 0)"
    "all_set (se_queue ?l) \<longleftrightarrow> all_set (se_queue s)"
    using dist look \<open>f \<noteq> Unset\<close>
    by (simp_all add: sem_leave_queue_def distinct_leave grants_leave all_set_leave)
  show ?thesis
  proof (cases f)
    case Result_set
    then show ?thesis using res bal l wake_up_next_facts [of ?l] by (auto simp: balanced_def)
  next
    case Future_cancelled
    then show ?thesis using res bal l by (auto simp: balanced_def)
  next
    case Result_cancelled
    then show ?thesis using res bal l sem_release_facts [of ?l] by (auto simp: balanced_def)
  qed (use \<open>f \<noteq> Unset\<close> in simp)
qed

lemma balanced_cancel: "balanced n s h \<Longrightarrow> balanced n (sem_cancel t s) h"
  using cancel_queue [where t = t and q = "se_queue s"]
  by (auto simp: balanced_def sem_cancel_def simp del: map_map)

lemma sem_move_balanced: "sem_move p p' \<Longrightarrow> balanced n (fst p) (snd p) \<Longrightarrow> balanced n (fst p') (snd p')"
  by (induction rule: sem_move.induct)
    (auto dest: balanced_acquire balanced_resume balanced_release simp: balanced_cancel split: if_splits)

text \<open>A task that waits is on the way, or everything is held: nobody waits in vain.\<close>

lemma balanced_progress:
  assumes "balanced n s h" and "se_queue s \<noteq> []"
  shows "(\<exists>t ok s'. sem_resume t s = (Some ok, s')) \<or> h = n"
proof (cases "\<exists>t f. (t, f) \<in> set (se_queue s) \<and> f \<noteq> Unset")
  case True
  then obtain t f where tf: "map_of (se_queue s) t = Some f" "f \<noteq> Unset"
    using assms(1) by (auto simp: balanced_def dest: map_of_is_SomeI)
  then have "\<exists>ok s'. sem_resume t s = (Some ok, s')" by (cases f) (auto simp: sem_resume_def Let_def)
  then show ?thesis by blast
next
  case False
  then have "grants (se_queue s) = 0" "\<not> all_set (se_queue s)"
    using assms(2) by (auto simp: grants_def filter_empty_conv all_set_def list_all_iff granted_def neq_Nil_conv)
  then show ?thesis using assms(1) by (auto simp: balanced_def)
qed

lemma sem_resume_queue:
  assumes "sem_resume t s = (Some ok, s')"
  shows "map fst (se_queue s') = map fst (se_queue (sem_leave_queue t s))"
proof -
  have "se_value (sem_leave_queue t s) = se_value s" by (simp add: sem_leave_queue_def)
  then show ?thesis
    using sem_resume_Some [OF assms(1)] sem_release_facts(2) wake_up_next_facts(2) [of "sem_leave_queue t s"]
    by (metis future_state.exhaust)
qed

lemma sem_resume_length:
  assumes "sem_resume t s = (Some ok, s')" and "distinct (map fst (se_queue s))"
  shows "length (se_queue s) = Suc (length (se_queue s'))" and "t \<in> fst ` set (se_queue s)"
    and "t \<notin> fst ` set (se_queue s')" and "fst ` set (se_queue s') \<subseteq> fst ` set (se_queue s)"
proof -
  note len = sem_resume_queue [OF assms(1)]
  obtain f where look: "map_of (se_queue s) t = Some f" using sem_resume_Some [OF assms(1)] by blast
  have q: "fst ` set (se_queue s') = fst ` set (se_queue (sem_leave_queue t s))" using arg_cong [OF len, of set] by simp
  show "length (se_queue s) = Suc (length (se_queue s'))"
    using length_leave [OF assms(2) look] arg_cong [OF len, of length] by (simp add: sem_leave_queue_def)
  show "t \<in> fst ` set (se_queue s)" using map_of_SomeD [OF look] by force
  show "t \<notin> fst ` set (se_queue s')" "fst ` set (se_queue s') \<subseteq> fst ` set (se_queue s)"
    unfolding q by (auto simp: sem_leave_queue_def)
qed

subsection \<open>Code that uses a semaphore\<close>

locale semaphore_user = step_invariant step inv
  for step :: "'s \<Rightarrow> 'e \<Rightarrow> 's" and inv :: "'s \<Rightarrow> bool" +
  fixes sem :: "'s \<Rightarrow> semaphore"
    and held :: "'s \<Rightarrow> nat"
  assumes step_moves: "inv s \<Longrightarrow> sem_move (sem s, held s) (sem (step s e), held (step s e))"
begin

lemma run_balanced:
  "inv s \<Longrightarrow> balanced n (sem s) (held s) \<Longrightarrow> balanced n (sem (foldl step s es)) (held (foldl step s es))"
proof (induction es arbitrary: s)
  case (Cons e es)
  have "balanced n (sem (step s e)) (held (step s e))"
    using sem_move_balanced [OF step_moves [of s e]] Cons.prems by simp
  then show ?case using Cons step_keeps by simp
qed simp

end

text \<open>Code in which a permit that is held can be given back and a task on its way can run: whatever happened, everyone
  gets through and the semaphore ends as it began.\<close>

locale draining_user = semaphore_user +
  fixes calm :: "'b \<Rightarrow> bool"
  assumes finish: "inv s \<Longrightarrow> 0 < held s \<Longrightarrow>
      \<exists>e. calm e \<and> Suc (held (step s e)) = held s \<and> length (se_queue (sem (step s e))) = length (se_queue (sem s))"
    and resume: "inv s \<Longrightarrow> sem_resume t (sem s) = (Some ok, s') \<Longrightarrow>
      \<exists>e. calm e \<and> sem (step s e) = s' \<and> held (step s e) = (if ok then Suc (held s) else held s)"
begin

lemma calm_step:
  assumes "inv s" and bal: "balanced n (sem s) (held s)" and "0 < n" and "0 < held s \<or> se_queue (sem s) \<noteq> []"
  shows "\<exists>e. calm e \<and>
    2 * length (se_queue (sem (step s e))) + held (step s e) < 2 * length (se_queue (sem s)) + held s"
proof (cases "0 < held s")
  case True
  then show ?thesis using finish [OF assms(1)] by fastforce
next
  case False
  then obtain t ok s' where res: "sem_resume t (sem s) = (Some ok, s')"
    using balanced_progress [OF bal] assms by auto
  have "length (se_queue (sem s)) = Suc (length (se_queue s'))"
    using sem_resume_length(1) [OF res] bal by (simp add: balanced_def)
  with resume [OF assms(1) res] show ?thesis by fastforce
qed

lemma drains:
  assumes "inv s" and "balanced n (sem s) (held s)" and "0 < n"
  shows "\<exists>es. list_all calm es \<and> held (foldl step s es) = 0 \<and> se_queue (sem (foldl step s es)) = []"
  using assms(1,2)
proof (induction "2 * length (se_queue (sem s)) + held s" arbitrary: s rule: less_induct)
  case less
  show ?case
  proof (cases "0 < held s \<or> se_queue (sem s) \<noteq> []")
    case True
    then obtain e where e: "calm e"
      "2 * length (se_queue (sem (step s e))) + held (step s e) < 2 * length (se_queue (sem s)) + held s"
      using calm_step less.prems assms(3) by blast
    have "balanced n (sem (step s e)) (held (step s e))"
      using run_balanced [of s n "[e]"] less.prems by simp
    then obtain es where "list_all calm es" "held (foldl step (step s e) es) = 0"
      "se_queue (sem (foldl step (step s e) es)) = []"
      using less.hyps [OF e(2)] step_keeps less.prems(1) by blast
    with e(1) show ?thesis by (intro exI [of _ "e # es"]) simp
  next
    case False
    then show ?thesis by (intro exI [of _ "[]"]) simp
  qed
qed

end

subsection \<open>The gateway\<close>

lemma sem_resume_None: "sem_resume t s = (None, s') \<Longrightarrow> s' = s"
  by (auto simp: sem_resume_def Let_def split: option.splits future_state.splits)

definition gate_inv :: "nat \<Rightarrow> gate \<Rightarrow> bool" where
  "gate_inv n g \<longleftrightarrow>
     se_queue (ga_waiters g) = [] \<and> se_value (ga_waiters g) + length (se_queue (ga_slots g)) = n \<and>
     distinct (map fst (se_queue (ga_slots g)) @ ga_inside g)"

lemma gate_inv_new [simp]: "gate_inv n (new_gate n)"
  by (simp add: gate_inv_def new_gate_def new_semaphore_def)

lemma sem_release_empty: "se_queue s = [] \<Longrightarrow> sem_release s = s\<lparr>se_value := Suc (se_value s)\<rparr>"
  by (simp add: sem_release_def wake_up_next_def)

lemma keys_eqD: "map fst p = map fst q \<Longrightarrow> length p = length q \<and> fst ` set p = fst ` set q"
  by (metis length_map list.set_map)

lemma leave_inv: "gate_inv n g \<Longrightarrow> gate_inv n (leave t g)"
  using sem_release_facts(2) [of "ga_slots g"]
  by (auto simp: gate_inv_def leave_def dest: keys_eqD notin_set_remove1)

lemma arrive_inv:
  "gate_inv n g \<Longrightarrow> \<not> sem_waiting t (ga_slots g) \<Longrightarrow> t \<notin> set (ga_inside g) \<Longrightarrow> gate_inv n (snd (arrive w t g))"
  by (auto simp: gate_inv_def arrive_def sem_acquire_def sem_waiting_def sem_locked_def)

lemma resume_waiter_inv:
  assumes "gate_inv n g"
  shows "gate_inv n (resume_waiter t g)"
proof (cases "sem_resume t (ga_slots g)")
  case (Pair r s)
  show ?thesis
  proof (cases r)
    case (Some ok)
    have dist: "distinct (map fst (se_queue (ga_slots g)))" using assms by (simp add: gate_inv_def)
    have res: "sem_resume t (ga_slots g) = (Some ok, s)" using Pair Some by simp
    have "distinct (map fst (se_queue s))"
      using sem_resume_queue [OF res] dist by (simp add: sem_leave_queue_def distinct_leave)
    moreover have "t \<notin> set (ga_inside g)" using sem_resume_length(2) [OF res dist] assms by (auto simp: gate_inv_def)
    ultimately show ?thesis
      using sem_resume_length [OF res dist] assms res
      by (auto simp: gate_inv_def resume_waiter_def sem_release_empty)
  qed (use Pair assms in \<open>simp add: resume_waiter_def\<close>)
qed

lemma cancel_inv: "gate_inv n g \<Longrightarrow> gate_inv n (g\<lparr>ga_slots := sem_cancel t (ga_slots g)\<rparr>)"
  using cancel_keys [of t "ga_slots g"] cancel_keys [of t "ga_slots g", THEN keys_eqD] by (simp add: gate_inv_def)

lemma gate_step_inv: "gate_inv n g \<Longrightarrow> gate_inv n (gate_step w g e)"
  by (cases e) (simp_all add: leave_inv arrive_inv resume_waiter_inv cancel_inv)

lemma leave_moves:
  assumes "t \<in> set (ga_inside g)"
  shows "sem_move (ga_slots g, length (ga_inside g)) (ga_slots (leave t g), length (ga_inside (leave t g)))"
proof -
  have "length (ga_inside g) = Suc (length (ga_inside (leave t g)))"
    using assms length_pos_if_in_set [OF assms] by (simp add: leave_def length_remove1)
  then show ?thesis using sem_move.released by (simp add: leave_def)
qed

lemma gate_step_moves:
  "sem_move (ga_slots g, length (ga_inside g)) (ga_slots (gate_step w g e), length (ga_inside (gate_step w g e)))"
proof (cases e)
  case (Arrives t)
  obtain ok s' where acq: "sem_acquire t (ga_slots g) = (ok, s')" by fastforce
  then have "ok \<longleftrightarrow> \<not> sem_locked (ga_slots g)" by (auto simp: sem_acquire_def split: if_splits)
  then show ?thesis
    using Arrives sem_move.acquired [OF _ acq] acq by (auto simp: arrive_def intro: sem_move.idle)
next
  case (Resumes t)
  show ?thesis
  proof (cases "sem_resume t (ga_slots g)")
    case (Pair r s)
    then show ?thesis using sem_move.resumed [of t "ga_slots g"]
      by (cases r) (auto simp: Resumes resume_waiter_def intro: sem_move.idle)
  qed
qed (auto intro: leave_moves sem_move.idle sem_move.cancelled)

fun calm_event :: "gate_event \<Rightarrow> bool" where
  "calm_event (Resumes t) = True"
| "calm_event (Leaves t) = True"
| "calm_event _ = False"

lemma gate_finish:
  assumes "0 < length (ga_inside g)"
  shows "\<exists>e. calm_event e \<and> Suc (length (ga_inside (gate_step w g e))) = length (ga_inside g) \<and>
    length (se_queue (ga_slots (gate_step w g e))) = length (se_queue (ga_slots g))"
proof -
  obtain t q where "ga_inside g = t # q" using assms by (cases "ga_inside g") auto
  then show ?thesis
    using sem_release_facts(2) [of "ga_slots g", THEN keys_eqD] by (intro exI [of _ "Leaves t"]) (simp add: leave_def)
qed

lemma gate_resume:
  "sem_resume t (ga_slots g) = (Some ok, s) \<Longrightarrow>
     \<exists>e. calm_event e \<and> ga_slots (gate_step w g e) = s \<and>
       length (ga_inside (gate_step w g e)) = (if ok then Suc (length (ga_inside g)) else length (ga_inside g))"
  by (intro exI [of _ "Resumes t"]) (simp add: resume_waiter_def)

interpretation gate_slots: draining_user "gate_step w" "gate_inv n" ga_slots "\<lambda>g. length (ga_inside g)" calm_event
  by unfold_locales (simp_all add: gate_step_inv gate_step_moves gate_finish gate_resume)

lemma no_wait_step: "se_queue (ga_slots g) = [] \<Longrightarrow> se_queue (ga_slots (gate_step 0 g e)) = []"
  by (cases e) (auto simp: arrive_def leave_def sem_acquire_def sem_cancel_def sem_release_empty resume_waiter_def sem_resume_def)

interpretation no_wait: step_invariant "gate_step 0" "\<lambda>g. se_queue (ga_slots g) = []"
  by unfold_locales (rule no_wait_step)

lemma new_gate_back:
  assumes "gate_inv n g" and "balanced n (ga_slots g) (length (ga_inside g))"
    and "ga_inside g = []" and "se_queue (ga_slots g) = []"
  shows "g = new_gate n"
  using assms by (auto simp: gate_inv_def balanced_def new_gate_def new_semaphore_def)

subsection \<open>The workers\<close>

text \<open>The tasks have different names, so one scan ends at a time.\<close>

definition workers_inv :: "workers \<Rightarrow> bool" where
  "workers_inv w \<longleftrightarrow> distinct (map fst (se_queue (wo_slots w)) @ map fst (wo_jobs w))"

lemma release_distinct:
  "distinct (map fst (se_queue s) @ xs) \<Longrightarrow> distinct (map fst (se_queue (sem_release s)) @ xs)"
  by (metis sem_release_facts(2))

lemma keep_flags: "map fst (map (\<lambda>(u, a). (u, a \<and> u \<noteq> t)) js) = map fst js"
  by (induction js) auto

lemma filter_job_length: "distinct (map fst js) \<Longrightarrow> t \<in> fst ` set js \<Longrightarrow> length js = Suc (length (filter (\<lambda>(u, _). u \<noteq> t) js))"
  by (induction js) (auto simp: filter_other)

lemma worker_step_inv: "workers_inv w \<Longrightarrow> workers_inv (worker_step w e)"
proof (cases e)
  case (Call t)
  assume "workers_inv w"
  then show ?thesis
    by (auto simp: Call workers_inv_def sem_acquire_def sem_waiting_def worker_busy_def split: prod.splits)
next
  case (Caller_gone t)
  assume "workers_inv w"
  then have "distinct (map fst (se_queue (sem_cancel t (wo_slots w))) @ map fst (wo_jobs w))"
    by (simp only: cancel_keys workers_inv_def)
  then show ?thesis
    using \<open>workers_inv w\<close> keep_flags [of t "wo_jobs w"] by (simp add: Caller_gone workers_inv_def del: map_map distinct_append)
next
  case (Awake t)
  assume inv: "workers_inv w"
  show ?thesis
  proof (cases "sem_resume t (wo_slots w)")
    case (Pair r s)
    show ?thesis
    proof (cases r)
      case (Some ok)
      have dist: "distinct (map fst (se_queue (wo_slots w)))" using inv by (simp add: workers_inv_def)
      have res: "sem_resume t (wo_slots w) = (Some ok, s)" using Pair Some by simp
      have "distinct (map fst (se_queue s))"
        using sem_resume_queue [OF res] dist by (simp add: sem_leave_queue_def distinct_leave)
      then show ?thesis using sem_resume_length [OF res dist] inv res by (auto simp: Awake workers_inv_def)
    qed (use Pair inv in \<open>simp add: Awake\<close>)
  qed
next
  case (Scan_ends t)
  assume "workers_inv w"
  then have "distinct (map fst (se_queue (wo_slots w)) @ map fst (filter (\<lambda>(u, _). u \<noteq> t) (wo_jobs w)))"
    by (auto simp: workers_inv_def distinct_leave distinct_map_filter)
  from release_distinct [OF this] show ?thesis
    using \<open>workers_inv w\<close> by (simp add: Scan_ends workers_inv_def del: distinct_append)
qed

lemma worker_step_moves:
  assumes "workers_inv w"
  shows "sem_move (wo_slots w, length (wo_jobs w)) (wo_slots (worker_step w e), length (wo_jobs (worker_step w e)))"
proof (cases e)
  case (Call t)
  obtain ok s where acq: "sem_acquire t (wo_slots w) = (ok, s)" by fastforce
  show ?thesis using Call acq sem_move.acquired [OF _ acq] by (auto intro: sem_move.idle)
next
  case (Awake t)
  show ?thesis
  proof (cases "sem_resume t (wo_slots w)")
    case (Pair r s)
    then show ?thesis using sem_move.resumed [of t "wo_slots w"]
      by (cases r) (auto simp: Awake intro: sem_move.idle)
  qed
next
  case (Scan_ends t)
  show ?thesis
  proof (cases "worker_busy t w")
    case True
    then have "length (wo_jobs w) = Suc (length (filter (\<lambda>(u, _). u \<noteq> t) (wo_jobs w)))"
      using assms by (intro filter_job_length) (simp_all add: worker_busy_def workers_inv_def)
    then show ?thesis using True sem_move.released [of "wo_slots w"] by (simp add: Scan_ends)
  qed (simp add: Scan_ends sem_move.idle)
qed (auto intro: sem_move.idle sem_move.cancelled)

fun calm_work :: "worker_event \<Rightarrow> bool" where
  "calm_work (Awake t) = True"
| "calm_work (Scan_ends t) = True"
| "calm_work _ = False"

lemma worker_finish:
  assumes "workers_inv w" and "0 < length (wo_jobs w)"
  shows "\<exists>e. calm_work e \<and> Suc (length (wo_jobs (worker_step w e))) = length (wo_jobs w) \<and>
    length (se_queue (wo_slots (worker_step w e))) = length (se_queue (wo_slots w))"
proof -
  obtain t a js where jobs: "wo_jobs w = (t, a) # js" using assms(2) by (cases "wo_jobs w") auto
  then have "length (wo_jobs w) = Suc (length (filter (\<lambda>(u, _). u \<noteq> t) (wo_jobs w)))"
    using assms(1) by (intro filter_job_length) (simp_all add: workers_inv_def)
  then show ?thesis
    using jobs sem_release_facts(2) [of "wo_slots w", THEN keys_eqD]
    by (intro exI [of _ "Scan_ends t"]) (simp add: worker_busy_def)
qed

lemma worker_resume:
  "sem_resume t (wo_slots w) = (Some ok, s) \<Longrightarrow>
     \<exists>e. calm_work e \<and> wo_slots (worker_step w e) = s \<and>
       length (wo_jobs (worker_step w e)) = (if ok then Suc (length (wo_jobs w)) else length (wo_jobs w))"
  by (intro exI [of _ "Awake t"]) simp

interpretation worker_slots: draining_user worker_step workers_inv wo_slots "\<lambda>w. length (wo_jobs w)" calm_work
  by unfold_locales (simp_all add: worker_step_inv worker_step_moves worker_finish worker_resume)

subsection \<open>What the gateway and the workers promise, over any run of events\<close>

abbreviation gate_run :: "nat \<Rightarrow> nat \<Rightarrow> gate_event list \<Rightarrow> gate" where
  "gate_run n wait_ms es \<equiv> foldl (gate_step wait_ms) (new_gate n) es"

lemmas gate_eval = new_gate_def new_semaphore_def arrive_def leave_def resume_waiter_def sem_acquire_def sem_resume_def
  sem_release_def sem_leave_queue_def wake_up_next_def sem_locked_def sem_waiting_def

lemma gate_run_facts:
  "gate_inv n (gate_run n w es)" "balanced n (ga_slots (gate_run n w es)) (length (ga_inside (gate_run n w es)))"
  "w = 0 \<Longrightarrow> se_queue (ga_slots (gate_run n w es)) = []"
proof -
  show "gate_inv n (gate_run n w es)" by (rule gate_slots.run_keeps) simp
  show "balanced n (ga_slots (gate_run n w es)) (length (ga_inside (gate_run n w es)))"
    by (rule gate_slots.run_balanced [OF gate_inv_new]) (simp add: new_gate_def)
  show "se_queue (ga_slots (gate_run n w es)) = []" if "w = 0"
    unfolding that by (rule no_wait.run_keeps) (simp add: new_gate_def new_semaphore_def)
qed

lemma gate_refuses:
  assumes "gate_inv n g" and "balanced n (ga_slots g) (length (ga_inside g))"
  shows "fst (arrive w t g) = Gateway_busy \<longleftrightarrow>
    sem_locked (ga_slots g) \<and> (w = 0 \<or> length (se_queue (ga_slots g)) = n)"
  using assms by (auto simp: arrive_def gate_inv_def sem_locked_def)

lemma gate_drains:
  assumes "gate_inv n g" and bal: "balanced n (ga_slots g) (length (ga_inside g))"
  shows "\<exists>es. list_all calm_event es \<and> foldl (gate_step w) g es = new_gate n"
proof (cases "n = 0")
  case True
  then show ?thesis
    using new_gate_back [OF assms] assms by (intro exI [of _ "[]"]) (simp add: gate_inv_def balanced_def)
next
  case False
  then obtain es where es: "list_all calm_event es" "length (ga_inside (foldl (gate_step w) g es)) = 0"
    "se_queue (ga_slots (foldl (gate_step w) g es)) = []"
    using gate_slots.drains [OF assms] by blast
  with new_gate_back [OF gate_slots.run_keeps gate_slots.run_balanced] assms show ?thesis by force
qed

text \<open>C32: whatever requests arrive, wait, run out of time, are abandoned or leave, in any order: no more
  than the configured number is inside and no more than that number waits, nobody if no waiting time is configured; a
  request is turned away only when no slot can be taken at once and the waiting room is closed or full; and no
  permit is ever lost: from every state, letting those inside leave and those called proceed empties the gateway into its fresh state.\<close>

theorem gateway_admission:
  "length (ga_inside (gate_run n w es)) \<le> n \<and> length (se_queue (ga_slots (gate_run n w es))) \<le> n \<and>
   (w = 0 \<longrightarrow> se_queue (ga_slots (gate_run n w es)) = []) \<and>
   (fst (arrive w t (gate_run n w es)) = Gateway_busy \<longleftrightarrow>
     (if w = 0 then length (ga_inside (gate_run n w es)) = n
      else sem_locked (ga_slots (gate_run n w es)) \<and> length (se_queue (ga_slots (gate_run n w es))) = n)) \<and>
   (\<exists>es'. list_all calm_event es' \<and> foldl (gate_step w) (gate_run n w es) es' = new_gate n)"
proof -
  note inv = gate_run_facts(1) [where n = n and w = w and es = es] and bal = gate_run_facts(2) [where n = n and w = w and es = es]
  have "length (ga_inside (gate_run n w es)) \<le> n" "length (se_queue (ga_slots (gate_run n w es))) \<le> n"
    using inv bal by (simp_all add: gate_inv_def balanced_def)
  moreover have "sem_locked (ga_slots (gate_run n 0 es)) \<longleftrightarrow> length (ga_inside (gate_run n 0 es)) = n"
    using gate_run_facts(2,3) [where n = n and w = 0 and es = es] by (auto simp: sem_locked_def balanced_def)
  ultimately show ?thesis
    using gate_refuses [OF inv bal] gate_run_facts(3) gate_drains [OF inv bal] by auto
qed

theorem gateway_admission_witness:
  "ga_inside (gate_run 1 250 [Arrives 1, Arrives 2, Leaves 1, Resumes 2]) = [2] \<and>
   ga_inside (gate_run 1 0 [Arrives 1, Arrives 2]) = [1] \<and>
   se_queue (ga_slots (gate_run 1 0 [Arrives 1, Arrives 2])) = [] \<and>
   fst (arrive 0 3 (gate_run 1 0 [Arrives 1, Arrives 2])) = Gateway_busy"
proof -
  have "ga_inside (gate_run 1 250 [Arrives 1, Arrives 2, Leaves 1, Resumes 2]) = [2]"
    and one: "ga_inside (gate_run 1 0 [Arrives 1, Arrives 2]) = [1]"
    by (simp_all add: gate_eval)
  with gateway_admission [where n = 1 and w = 0 and es = "[Arrives 1, Arrives 2]" and t = 3]
  show ?thesis unfolding one by simp
qed

text \<open>The workers of an inspector: at most \<open>n\<close> scans run, those whose callers have gone included, since such a scan
  keeps its slot until it ends; and every slot comes back.\<close>

abbreviation worker_run :: "nat \<Rightarrow> worker_event list \<Rightarrow> workers" where
  "worker_run n es \<equiv> foldl worker_step (new_workers n) es"

theorem worker_slots_held:
  assumes "0 < n"
  shows "length (wo_jobs (worker_run n es)) \<le> n \<and>
    (worker_busy t (worker_run n es) \<longrightarrow>
      wo_slots (worker_run n (es @ [Caller_gone t])) = wo_slots (worker_run n es) \<and>
      map fst (wo_jobs (worker_run n (es @ [Caller_gone t]))) = map fst (wo_jobs (worker_run n es))) \<and>
    (\<exists>es'. list_all calm_work es' \<and> worker_run n (es @ es') = new_workers n)"
proof -
  have inv: "workers_inv (new_workers n)" and bal: "balanced n (wo_slots (new_workers n)) (length (wo_jobs (new_workers n)))"
    by (simp_all add: workers_inv_def new_workers_def) (simp add: new_semaphore_def)
  have run: "balanced n (wo_slots (worker_run n es)) (length (wo_jobs (worker_run n es)))" for es
    using inv bal by (rule worker_slots.run_balanced)
  obtain es' where es': "list_all calm_work es'" "wo_jobs (worker_run n (es @ es')) = []"
    "se_queue (wo_slots (worker_run n (es @ es'))) = []"
    using worker_slots.drains [OF worker_slots.run_keeps [OF inv] run assms, of es] by auto
  then have "worker_run n (es @ es') = new_workers n"
    using run [of "es @ es'"] by (simp add: balanced_def new_workers_def new_semaphore_def)
  with es'(1) run [of es] show ?thesis by (auto simp: balanced_def simp del: foldl_append) (auto simp: keep_flags simp del: map_map)
qed

end
