(* ===== verification/Spec2Isabelle.thy ===== *)
theory Spec2Isabelle
  imports Broker_Properties Ext_Proc_Safety Deployment_Facts Gateway_Properties Protocol_Properties Content_Properties
    Stream_Properties Credential_Properties Evidence_Properties Dataplane_Properties Supervision_Properties Stream_Evidence_Properties
    Console_Access_Properties Operations_Properties Network_Facts Latency Console_Manage
    Admission_Properties
begin

text \<open>
  A verification development of the AI security gateway (TrapDefense): Python, \<open>src/src/asr_proxy\<close>.

  \<^bold>\<open>The program and how its parts interact.\<close>
  An agent calls the self-hosted gateway.  The gateway authenticates the caller, drops what a caller must not
  send, attests the request (a keyed digest over method, authority, path, headers and body, with a nonce) and
  sends it through Envoy.  Envoy asks the inspector over the external-processing protocol before the request
  goes on and again before the response goes back.  The inspector verifies the attestation, reads the
  protocol (MCP, a model API or plain HTTP), scans for secrets, injections, foreign URLs and personal
  data, redacts, asks the local policy or the Access Broker whether this agent may act, and answers.
  In mirror mode it only observes.  Every stream leaves an event of evidence in a spool, which the control plane
  moves into the console's database.  The console edits policies, connections, agents and approvals; a policy
  reaches the data plane as a signed snapshot file.  Supervisors keep the processes running.

  \<^bold>\<open>Ground.\<close>
  \<^item> \<open>Prelude\<close>: Python strings are lists of code points, dictionaries association lists in insertion order, an
    exception is the left side of a sum (\<open>result\<close>), stateful code a function of type \<open>act\<close> composed with \<open>seq\<close>,
    which keeps the state reached when something is raised.  The interfaces \<open>keyed_store\<close> and
    \<open>step_invariant\<close>.
  \<^item> \<open>Py_Text\<close>, \<open>Py_Url\<close>, \<open>Json_Value\<close>, \<open>Py_Json\<close>, \<open>Py_Json_Print\<close>, \<open>Py_Eval\<close>, \<open>Sorted_Keys\<close>, \<open>Plain_Json\<close>:
    what the code uses of Python's library: UTF-8, \<open>urlsplit\<close>, base64, \<open>json.loads\<close> and \<open>json.dumps\<close>.

  \<^bold>\<open>The Access Broker\<close> (\<open>access_broker/\<close>).
  \<^item> \<open>Broker_Models\<close> (models.py), \<open>Broker_Store\<close> (store.py), \<open>Broker\<close> (broker.py).  \<open>bstate\<close> is one process:
    its tables, the shared file, transaction depth, dirty flag; the clock, random values and the outcome of each
    write are functions of a counter.  \<open>transaction_body\<close> is the contract of a body that runs inside a
    transaction, interpreted for \<open>authorize\<close> and the reviews.
  \<^item> \<open>Broker_Refine\<close>: every operation refines a step relation on the tables, with the life of an approval.
    \<open>Broker_Safety\<close>, \<open>Broker_Runs\<close>: the strict evaluation against its declarative reading; approvals over any run of
    processes on one file.  \<open>Broker_Properties\<close>: the claims.

  \<^bold>\<open>Inspection\<close> (\<open>inspection/\<close>).
  \<^item> \<open>Contracts\<close> (contracts.py), \<open>Protocol\<close> and \<open>Protocol_Json\<close> (protocol.py), \<open>Identity\<close> and \<open>Identity_Facts\<close>
    (identity.py, the nonce table), \<open>Llm\<close> (llm.py), \<open>Pii\<close> (pii.py), \<open>Secret_Detection\<close> (secret_detection.py,
    budget.py), \<open>Masking\<close>, \<open>Inspection\<close>, \<open>Sse\<close>, \<open>Sse_Stream\<close>, \<open>Engine\<close> (engine.py, signatures.py, audit.py),
    \<open>Ext_Proc\<close> (server.py).
  \<^item> \<open>Engine_Frame\<close> (\<open>scan_frame\<close>: what an action of the engine leaves alone), \<open>Engine_Redaction\<close> (redaction as a
    relation, over the interface \<open>pii_scanner\<close>), \<open>Engine_Safety\<close> (what a verdict implies), \<open>Ext_Proc_Safety\<close>
    (\<open>request_inspector\<close>: what the stream processor relies on, interpreted for the engine and, in
    \<open>Stream_Evidence\<close>, for the console's inspection).  The claims: \<open>Protocol_Properties\<close>, \<open>Content_Properties\<close>,
    \<open>Identity_Properties\<close>, \<open>Engine_Properties\<close>, \<open>Stream_Properties\<close>.
  \<^item> \<open>Supervision\<close>, \<open>Supervision_Properties\<close>: inspection/pool.py, selfhost/inspector_pool.py,
    selfhost/supervisor.py; a potential that every unanswered round lowers shows that supervision ends.

  \<^bold>\<open>Self-hosting\<close> (\<open>selfhost/\<close>).
  \<^item> \<open>Providers\<close> (providers.py), \<open>Deployment\<close> and \<open>Deployment_Facts\<close> (config.py), \<open>Agent_Credentials\<close>
    (agent_credentials.py), \<open>Gateway_Auth\<close> (auth.py, credentials.py), \<open>Gateway\<close> (gateway.py); the claims:
    \<open>Gateway_Properties\<close>, \<open>Credential_Properties\<close>.
  \<^item> \<open>Spool\<close> (spool.py), \<open>Evidence\<close> (the ingestion of runtime.py), \<open>Spool_Facts\<close>, \<open>Evidence_Facts\<close>,
    \<open>Evidence_Runs\<close>, \<open>Evidence_Properties\<close>: runs of several writers and one reader, with rotations and crashes.
  \<^item> \<open>Policy_Config\<close> (runtime.py, console/scenarios.py), \<open>Snapshot\<close> (snapshot.py), \<open>Dataplane\<close> (dataplane.py), with
    \<open>Policy_Facts\<close>, \<open>Snapshot_Facts\<close>, \<open>Snapshot_Runs\<close>, \<open>Dataplane_Facts\<close>, \<open>Policy_Properties\<close>,
    \<open>Dataplane_Properties\<close>: compilation, signed publication with its crash points, the last known good snapshot.
  \<^item> \<open>Operations\<close>, \<open>Operations_Properties\<close> (operations.py): staged connections and their activation.
  \<^item> \<open>Latency\<close> (latency.py): bounded timings.
  \<^item> \<open>Admission\<close>, \<open>Admission_Properties\<close>: the semaphores of gateway.py and the worker slots of
    server.py, with \<open>asyncio.Semaphore\<close> as Python has it; \<open>semaphore_user\<close> and \<open>draining_user\<close> are the
    interface of code that takes and returns permits, and show that none is lost and nobody waits in vain.

  \<^bold>\<open>Console\<close> (\<open>console/\<close>).
  \<^item> \<open>Console_Store\<close> (store.py), \<open>Console_Access\<close> (app.py, sso.py, identity.py), \<open>Console_Access_Facts\<close>
    (\<open>handler_frame\<close>: what a handler leaves alone, interpreted for sessions and for pending sign-ins),
    \<open>Console_Access_Properties\<close>: runs of requests on a fresh console.
  \<^item> \<open>Stream_Inspection\<close>, \<open>Stream_Evidence\<close>, \<open>Stream_Evidence_Properties\<close> (dataplane.py): the stream processor
    with policy and evidence around it.
  \<^item> \<open>Console_Manage\<close> (runtime.py, selfhost/runtime.py): policies, agents, delegations, approvals.  \<open>Network\<close>,
    \<open>Network_Facts\<close> (network.py, workers.py): the listener and its roll-back.

  \<^bold>\<open>Bounds and fuel.\<close>
  The JSON reader takes \<open>2 * length s + 1\<close> as fuel; \<open>Py_Json\<close> proves that more changes nothing, and its nesting
  limit, Python's recursion limit, is a parameter.  Loops over events, rounds and requests are recursion on the list of
  what happens, so that they end by themselves; that supervision ends is a claim of its own.  Python's integers
  are \<open>int\<close>; bytes are \<open>8 word\<close>; times are integers of microseconds in the broker and rationals elsewhere, with
  exact addition.

  \<^bold>\<open>Parameters.\<close>
  Code outside the repository is an argument, in records named \<open>..._env\<close> or \<open>crypto\<close>: hash functions, HMAC, scrypt and
  Ed25519, PyJWT, \<open>repr\<close> and \<open>round\<close> of doubles, the checks that \<open>urlsplit\<close> leaves to \<open>ipaddress\<close> and
  \<open>unicodedata\<close>, IDNA, the shape checks of pydantic on nested JSON, the Presidio analyzer, Docker, and the
  outcome of system calls.  What a claim needs of them (a signature verifies what was signed, printing a double gives
  a numeral) is a named hypothesis, and every claim with hypotheses has a witness that applies it to concrete functions.
  Regular expressions are written out as scanners of the same language.

  \<^bold>\<open>Not modelled.\<close>
  The wiring of processes, sockets, threads and locks (main.py, the server parts of server.py, gateway.py, workers.py,
  inspector_pool.py): a handler runs as one step, with interleavings as runs of steps (the awaits of
  \<open>Admission\<close> apart).  YAML and the Envoy
  configuration, HTTP clients and pages: input and output.  The construction of the Presidio analyzer.  The preview of
  operations.py builds a throwaway engine and keeps nothing.  The handlers of app.py that only pass a payload on.
  The demonstration (demo.py, destination.py, benchmark.py, the demo traffic of runtime.py), scripts, examples, tests
  and the browser application are clients of the gateway, not part of it.
\<close>

end
